(* ===== verification/Prelude.thy ===== *)
theory Prelude
  imports Complex_Main "HOL-Library.AList"
begin

text \<open>
  Shared vocabulary of the development: the names of the program's identifiers, the few
  Python built-ins the monitoring core relies on (truncating \<open>int()\<close>, half-even \<open>round()\<close>,
  \<open>int(s)\<close> and \<open>float(s)\<close> on decimal text, \<open>str.strip\<close>, \<open>str.lower\<close>,
  \<open>str.startswith\<close>), Python's insertion-ordered dictionaries as association lists, and the
  dictionary interface \<open>kv_store\<close> that every stateful component of the model uses.

  Conventions. Python floats are read as real numbers (no rounding error, no infinities, no NaN);
  strings are ASCII. \<open>None\<close> is \<open>None\<close>; a Python dict is an association list with distinct
  keys, whose order is the insertion order.
\<close>

section \<open>Identifiers\<close>

type_synonym did = string
type_synonym sid = string
type_synonym ts = real        \<comment> \<open>epoch seconds, \<open>time.time()\<close>\<close>

named_theorems dict_simps \<open>lookup laws of the dictionary operations\<close>
named_theorems frame_simps \<open>fields an operation leaves alone\<close>

section \<open>Numbers\<close>

text \<open>\<open>int(x)\<close> on a float truncates towards zero.\<close>

definition py_int :: "real \<Rightarrow> int" where
  "py_int x = (if 0 \<le> x then \<lfloor>x\<rfloor> else \<lceil>x\<rceil>)"

text \<open>\<open>round(x)\<close> rounds to the nearest integer, ties to the even one.\<close>

definition py_round :: "real \<Rightarrow> int" where
  "py_round x =
     (let f = \<lfloor>x\<rfloor>; r = x - of_int f
      in if r < 1/2 then f else if r > 1/2 then f + 1
         else if even f then f else f + 1)"

text \<open>\<open>x or d\<close> for a number: zero is falsy.\<close>

definition int_or :: "int \<Rightarrow> int \<Rightarrow> int" where
  "int_or x d = (if x = 0 then d else x)"

lemma py_int_of_int [simp]: "py_int (of_int n) = n"
  by (simp add: py_int_def)

lemma py_int_nonneg: "0 \<le> x \<Longrightarrow> 0 \<le> py_int x"
  by (simp add: py_int_def)

lemma py_round_of_int [simp]: "py_round (of_int n) = n"
  by (simp add: py_round_def)

lemma py_round_near: "\<bar>of_int (py_round x) - x\<bar> \<le> 1/2"
  unfolding py_round_def Let_def by (auto split: if_splits)

lemma py_round_mono_bounds:
  assumes "of_int a \<le> x" and "x \<le> of_int b"
  shows "a \<le> py_round x" and "py_round x \<le> b"
proof -
  have a: "a \<le> \<lfloor>x\<rfloor>" using assms(1) by (simp add: le_floor_iff)
  show "a \<le> py_round x" using a unfolding py_round_def Let_def by (simp split: if_splits)
  show "py_round x \<le> b"
  proof (cases "x = of_int b")
    case True
    then show ?thesis by simp
  next
    case False
    with assms(2) have "x < of_int b" by simp
    then have "\<lfloor>x\<rfloor> < b" by (simp add: floor_less_iff)
    then show ?thesis unfolding py_round_def Let_def by (simp split: if_splits)
  qed
qed

section \<open>Strings\<close>

definition is_space :: "char \<Rightarrow> bool" where
  "is_space c \<longleftrightarrow> c \<in> set [CHR '' '', CHR 0x09, CHR 0x0A, CHR 0x0B, CHR 0x0C, CHR 0x0D]"

definition is_digit :: "char \<Rightarrow> bool" where
  "is_digit c \<longleftrightarrow> 48 \<le> (of_char c :: nat) \<and> (of_char c :: nat) \<le> 57"

definition is_alpha :: "char \<Rightarrow> bool" where
  "is_alpha c \<longleftrightarrow> (let n = (of_char c :: nat) in (65 \<le> n \<and> n \<le> 90) \<or> (97 \<le> n \<and> n \<le> 122))"

definition lower_char :: "char \<Rightarrow> char" where
  "lower_char c = (let n = (of_char c :: nat) in if 65 \<le> n \<and> n \<le> 90 then char_of (n + 32) else c)"

definition lower :: "string \<Rightarrow> string" where
  "lower s = map lower_char s"

definition lstrip :: "string \<Rightarrow> string" where
  "lstrip s = dropWhile is_space s"

definition strip :: "string \<Rightarrow> string" where
  "strip s = rev (lstrip (rev (lstrip s)))"

definition startswith :: "string \<Rightarrow> string \<Rightarrow> bool" where
  "startswith p s \<longleftrightarrow> take (length p) s = p"

text \<open>\<open>s.split(c)\<close> for one character.\<close>

fun split_on :: "char \<Rightarrow> string \<Rightarrow> string list" where
  "split_on c [] = [[]]"
| "split_on c (x # xs) =
     (if x = c then [] # split_on c xs
      else case split_on c xs of y # ys \<Rightarrow> (x # y) # ys | [] \<Rightarrow> [[x]])"

definition digit_val :: "char \<Rightarrow> int" where
  "digit_val c = int (of_char c) - 48"

definition digits_val :: "string \<Rightarrow> int" where
  "digits_val ds = foldl (\<lambda>a c. 10 * a + digit_val c) 0 ds"

text \<open>Digits with single underscores between them, as in Python's numeric literals.\<close>

fun undigits :: "string \<Rightarrow> string option" where
  "undigits [] = None"
| "undigits [c] = (if is_digit c then Some [c] else None)"
| "undigits (c # d # cs) =
     (if \<not> is_digit c then None
      else map_option (Cons c) (undigits (if d = CHR ''_'' then cs else d # cs)))"

definition split_sign :: "string \<Rightarrow> int \<times> string" where
  "split_sign s = (case s of
       c # cs \<Rightarrow> if c = CHR ''-'' then (- 1, cs) else if c = CHR ''+'' then (1, cs) else (1, s)
     | [] \<Rightarrow> (1, []))"

text \<open>\<open>int(text)\<close>: surrounding white space, an optional sign, digits; \<open>None\<close> is the \<open>ValueError\<close>.\<close>

definition parse_int :: "string \<Rightarrow> int option" where
  "parse_int t =
     (let (sg, ds) = split_sign (strip t) in map_option (\<lambda>d. sg * digits_val d) (undigits ds))"

text \<open>
  \<open>float(text)\<close> on decimal text: optional sign, digits with an optional fraction, an optional
  exponent. The spellings of infinity and NaN are read as \<open>ValueError\<close>: reals have neither.
\<close>

definition parse_exp :: "string \<Rightarrow> int option" where
  "parse_exp t = (case t of
       [] \<Rightarrow> Some 0
     | _ # e \<Rightarrow> (let (sg, ds) = split_sign e in map_option (\<lambda>d. sg * digits_val d) (undigits ds)))"

definition parse_mant :: "string \<Rightarrow> real option" where
  "parse_mant t =
     (let ip = takeWhile (\<lambda>c. c \<noteq> CHR ''.'') t; rest = drop (length ip) t
      in case rest of
           [] \<Rightarrow> map_option (\<lambda>d. of_int (digits_val d)) (undigits ip)
         | _ # fp \<Rightarrow>
             (if ip = [] \<and> fp = [] then None
              else case (if ip = [] then Some [] else undigits ip) of
                     None \<Rightarrow> None
                   | Some a \<Rightarrow>
                       (case (if fp = [] then Some [] else undigits fp) of
                          None \<Rightarrow> None
                        | Some b \<Rightarrow> Some (of_int (digits_val (a @ b)) / 10 ^ length b))))"

definition pow10 :: "int \<Rightarrow> real" where
  "pow10 e = (if 0 \<le> e then 10 ^ nat e else 1 / 10 ^ nat (- e))"

definition parse_float :: "string \<Rightarrow> real option" where
  "parse_float t =
     (let (sg, u) = split_sign (strip t);
          m = takeWhile (\<lambda>c. c \<noteq> CHR ''e'' \<and> c \<noteq> CHR ''E'') u
      in case parse_mant m of
           None \<Rightarrow> None
         | Some x \<Rightarrow> map_option (\<lambda>e. of_int sg * x * pow10 e) (parse_exp (drop (length m) u)))"

text \<open>\<open>str(n)\<close> of an integer.\<close>

fun str_of_nat :: "nat \<Rightarrow> string" where
  "str_of_nat n = (if n < 10 then [char_of (48 + n)] else str_of_nat (n div 10) @ [char_of (48 + n mod 10)])"

declare str_of_nat.simps [simp del]

definition str_of_int :: "int \<Rightarrow> string" where
  "str_of_int n = (if n < 0 then CHR ''-'' # str_of_nat (nat (- n)) else str_of_nat (nat n))"

lemma is_digit_char: "d < 10 \<Longrightarrow> is_digit (char_of (48 + d))" for d :: nat
  by (simp add: is_digit_def)

lemma digit_val_char: "d < 10 \<Longrightarrow> digit_val (char_of (48 + d)) = int d" for d :: nat
  by (simp add: digit_val_def)

lemma str_of_nat_ne [simp]: "str_of_nat n \<noteq> []"
  by (subst str_of_nat.simps) simp

lemma str_of_nat_digits: "list_all is_digit (str_of_nat n)"
proof (induction n rule: str_of_nat.induct)
  case (1 n)
  show ?case
    by (subst str_of_nat.simps) (use 1 in \<open>auto simp: is_digit_char\<close>)
qed

lemma digits_val_snoc: "digits_val (ds @ [c]) = 10 * digits_val ds + digit_val c"
  by (simp add: digits_val_def)

lemma digits_val_str_of_nat: "digits_val (str_of_nat n) = int n"
proof (induction n rule: str_of_nat.induct)
  case (1 n)
  show ?case
  proof (cases "n < 10")
    case True
    then show ?thesis by (subst str_of_nat.simps) (simp add: digits_val_def digit_val_char)
  next
    case False
    then have "digits_val (str_of_nat n) = 10 * int (n div 10) + int (n mod 10)"
      by (subst str_of_nat.simps) (simp add: digits_val_snoc digit_val_char 1)
    also have "\<dots> = int (10 * (n div 10) + n mod 10)" by (simp only: of_nat_add of_nat_mult of_nat_numeral)
    finally show ?thesis by simp
  qed
qed

lemma is_digit_not_under: "is_digit c \<Longrightarrow> c \<noteq> CHR ''_''"
  by (auto simp: is_digit_def)

lemma undigits_digits: "list_all is_digit ds \<Longrightarrow> ds \<noteq> [] \<Longrightarrow> undigits ds = Some ds"
  by (induction ds rule: undigits.induct) (auto dest: is_digit_not_under)

lemma is_digit_not_space: "is_digit c \<Longrightarrow> \<not> is_space c"
  by (auto simp: is_digit_def is_space_def)

lemma lstrip_id: "s = [] \<or> \<not> is_space (hd s) \<Longrightarrow> lstrip s = s"
  by (cases s) (auto simp: lstrip_def)

lemma strip_id:
  assumes "s \<noteq> []" "\<not> is_space (hd s)" "\<not> is_space (last s)"
  shows "strip s = s"
  using assms by (simp add: strip_def lstrip_id hd_rev)

lemma last_str_of_nat: "is_digit (last (str_of_nat n))"
  using str_of_nat_digits[of n] by (simp add: list_all_iff)

lemma hd_str_of_nat: "is_digit (hd (str_of_nat n))"
  using str_of_nat_digits[of n] by (simp add: list_all_iff)

lemma split_sign_digit: "is_digit (hd s) \<Longrightarrow> s \<noteq> [] \<Longrightarrow> split_sign s = (1, s)"
  by (cases s) (auto simp: split_sign_def is_digit_def)

text \<open>Reading back what \<open>str\<close> printed.\<close>

lemma parse_int_str_of_int: "parse_int (str_of_int n) = Some n"
proof (cases "n < 0")
  case True
  let ?d = "str_of_nat (nat (- n))"
  have "strip (CHR ''-'' # ?d) = CHR ''-'' # ?d"
  proof (rule strip_id)
    show "\<not> is_space (hd (CHR ''-'' # ?d))" by (simp add: is_space_def)
    show "\<not> is_space (last (CHR ''-'' # ?d))"
      using is_digit_not_space [OF last_str_of_nat] by simp
  qed simp
  then show ?thesis
    using True by (simp add: parse_int_def str_of_int_def split_sign_def undigits_digits
        str_of_nat_digits digits_val_str_of_nat)
next
  case False
  let ?d = "str_of_nat (nat n)"
  have "strip ?d = ?d"
    by (rule strip_id) (simp_all add: is_digit_not_space hd_str_of_nat last_str_of_nat)
  then show ?thesis
    using False by (simp add: parse_int_def str_of_int_def split_sign_digit hd_str_of_nat
        undigits_digits str_of_nat_digits digits_val_str_of_nat)
qed

lemma str_of_int_inj: "str_of_int a = str_of_int b \<Longrightarrow> a = b"
  using parse_int_str_of_int by (metis option.inject)

section \<open>Lists\<close>

lemma split_on_ne [simp]: "split_on c s \<noteq> []"
  by (induction s) (auto split: list.splits)

lemma split_on_id: "c \<notin> set s \<Longrightarrow> split_on c s = [s]"
  by (induction s) auto

lemma split_on_append: "c \<notin> set s \<Longrightarrow> split_on c (s @ c # t) = s # split_on c t"
  by (induction s) auto

lemma find_SomeD: "find P xs = Some x \<Longrightarrow> P x \<and> x \<in> set xs"
  by (induction xs) (auto split: if_splits)

lemma find_NoneD: "find P xs = None \<longleftrightarrow> (\<forall>x \<in> set xs. \<not> P x)"
  by (induction xs) auto

section \<open>Dictionaries\<close>

type_synonym ('k, 'v) dict = "('k \<times> 'v) list"

abbreviation dget :: "('k, 'v) dict \<Rightarrow> 'k \<Rightarrow> 'v option" where
  "dget m k \<equiv> map_of m k"

abbreviation dput :: "'k \<Rightarrow> 'v \<Rightarrow> ('k, 'v) dict \<Rightarrow> ('k, 'v) dict" where
  "dput \<equiv> AList.update"

abbreviation ddel :: "'k \<Rightarrow> ('k, 'v) dict \<Rightarrow> ('k, 'v) dict" where
  "ddel \<equiv> AList.delete"

text \<open>The dictionary interface: what a store promises its clients.\<close>

locale kv_store =
  fixes get :: "'m \<Rightarrow> 'k \<Rightarrow> 'v option"
    and put :: "'k \<Rightarrow> 'v \<Rightarrow> 'm \<Rightarrow> 'm"
    and del :: "'k \<Rightarrow> 'm \<Rightarrow> 'm"
  assumes get_put: "get (put k v m) j = (if j = k then Some v else get m j)"
    and get_del: "get (del k m) j = (if j = k then None else get m j)"
begin

lemma get_put_same: "get (put k v m) k = Some v"
  by (simp add: get_put)

lemma get_put_other: "j \<noteq> k \<Longrightarrow> get (put k v m) j = get m j"
  by (simp add: get_put)

lemma last_write_wins: "get (put k v (put k w m)) = get (put k v m)"
  by (rule ext) (simp add: get_put)

lemma put_commute: "j \<noteq> k \<Longrightarrow> get (put k v (put j w m)) = get (put j w (put k v m))"
  by (rule ext) (simp add: get_put)

lemma del_put: "get (del k (put k v m)) = get (del k m)"
  by (rule ext) (simp add: get_put get_del)

end

interpretation dict: kv_store map_of AList.update AList.delete
  by unfold_locales (auto simp: update_conv' delete_conv')

declare dict.get_put [dict_simps] dict.get_del [dict_simps]

lemma dput_mem: "p \<in> set (dput k v m) \<Longrightarrow> p = (k, v) \<or> p \<in> set m"
  by (induction m) (auto split: if_splits)

lemma ddel_mem: "p \<in> set (ddel k m) \<longleftrightarrow> p \<in> set m \<and> fst p \<noteq> k"
  by (auto simp: AList.delete_eq split: if_splits)

lemma distinct_dput: "distinct (map fst m) \<Longrightarrow> distinct (map fst (dput k v m))"
  by (rule distinct_update)

text \<open>Rows of a table that carry their own key.\<close>

lemma keyed_mem:
  assumes "distinct (map fst m)" "\<forall>(k, v) \<in> set m. f v = k"
  shows "v \<in> set (map snd m) \<longleftrightarrow> dget m (f v) = Some v"
proof
  assume "v \<in> set (map snd m)"
  then obtain k where "(k, v) \<in> set m" by auto
  with assms show "dget m (f v) = Some v" by (auto intro: map_of_is_SomeI)
next
  assume "dget m (f v) = Some v"
  from map_of_SomeD [OF this] show "v \<in> set (map snd m)" by force
qed

lemma distinct_ddel: "distinct (map fst m) \<Longrightarrow> distinct (map fst (ddel k m))"
  by (rule distinct_delete)

lemma map_of_filter_key: "map_of (filter (\<lambda>(k, _). P k) t) j = (if P j then map_of t j else None)"
  by (induction t) auto

end
