(* ===== verification/Devices.thy ===== *)
theory Devices
  imports Prelude
begin

text \<open>
  The data model of \<open>core/state.py\<close>: the classes \<open>Sensor\<close> and \<open>Device\<close>, their derived
  properties (\<open>loss_pct\<close>, \<open>avg_ms\<close>, \<open>min_ms\<close>, \<open>max_ms\<close>, \<open>status\<close>) and the status cache of a
  device. A sensor is split into its configuration (\<open>sensor_cfg\<close>, edited by \<open>update_sensor\<close> only),
  the SNMP counter and transition memory, the learned anomaly baseline, and the run-time state of
  the probe cycle. Credentials and the per-protocol arguments that only \<open>probe()\<close> reads are left
  out: the probes are network I/O.
\<close>

section \<open>Sensors\<close>

datatype thr = TOk | TWarn | TCrit

fun thr_rank :: "thr \<Rightarrow> nat" where
  "thr_rank TOk = 0"
| "thr_rank TWarn = 1"
| "thr_rank TCrit = 2"

lemma thr_rank_inj: "thr_rank a = thr_rank b \<Longrightarrow> a = b"
  by (cases a; cases b) auto

lemma thr_rank_max: "(if thr_rank a < thr_rank b then b else a) = (if thr_rank a \<le> thr_rank b then b else a)"
  by (cases a; cases b) simp_all

instantiation thr :: linorder
begin

definition less_eq_thr :: "thr \<Rightarrow> thr \<Rightarrow> bool" where
  "less_eq_thr a b \<longleftrightarrow> thr_rank a \<le> thr_rank b"

definition less_thr :: "thr \<Rightarrow> thr \<Rightarrow> bool" where
  "less_thr a b \<longleftrightarrow> thr_rank a < thr_rank b"

instance
  by standard (auto simp: less_eq_thr_def less_thr_def dest: thr_rank_inj)

end

lemma thr_le_simps [simp]:
  "TOk \<le> t" "t \<le> TCrit" "t \<le> TOk \<longleftrightarrow> t = TOk" "TCrit \<le> t \<longleftrightarrow> t = TCrit"
  by (cases t; simp add: less_eq_thr_def)+

datatype sched_mode = Central | Remote

text \<open>
  A displayed sensor value: raw text of a probe, or a counter rate rendered with its unit.
\<close>

datatype value_disp = VRaw string | VRate real string

fun value_truthy :: "value_disp option \<Rightarrow> bool" where
  "value_truthy None = False"
| "value_truthy (Some (VRaw t)) = (t \<noteq> [])"
| "value_truthy (Some (VRate r u)) = True"

record sensor_cfg =
  c_name :: string
  c_stype :: string
  c_host :: string
  c_interval :: int
  c_fail_after :: int
  c_recover_after :: int
  c_warn_ms :: "real option"
  c_crit_ms :: "real option"
  c_loss_warn_pct :: int
  c_loss_crit_pct :: int
  c_alerts_muted :: bool
  c_host_override :: bool
  c_snmp_unit :: string
  c_snmp_oid :: string
  c_vmware_metric :: string
  c_cert_warn_days :: int
  c_cert_crit_days :: int
  c_probe_id :: string
  c_anomaly_enabled :: bool
  c_anomaly_sensitivity :: int
  c_anomaly_min_samples :: int

record snmp_state =
  n_type :: string
  n_prev :: "int option"
  n_prev_ts :: "ts option"
  n_last_rate :: "real option"
  n_prev_enum_code :: "string option"
  n_prev_ticks :: "int option"
  n_prev_text :: "string option"

record anom_state =
  a_mean :: "real option"
  a_var :: "real option"
  a_count :: nat
  a_enabled_since :: "ts option"
  a_consec_fails :: nat
  a_dirty :: bool

record sensor =
  s_device_id :: did
  s_sensor_id :: sid
  s_cfg :: sensor_cfg
  s_snmp :: snmp_state
  s_anom :: anom_state
  s_consec_fail :: nat
  s_consec_ok :: nat
  s_alerted_down :: bool
  s_recovery_pending :: bool
  s_threshold_state :: thr
  s_consec_threshold :: nat
  s_threshold_recovery_pending :: bool
  s_threshold_triggered_ts :: "ts option"
  s_down_since_ts :: "ts option"
  s_ack_by :: string
  s_ack_at :: ts
  s_cert_days :: "int option"
  s_cert_caused_thr :: bool
  s_anom_caused_warn :: bool
  s_history :: "real option list"
  s_thr_history :: "thr list"
  s_total :: nat
  s_success :: nat
  s_last_ms :: "real option"
  s_last_detail :: string
  s_last_value :: "value_disp option"
  s_alive :: "bool option"
  s_running :: bool
  s_stopped :: bool
  s_sched_mode :: sched_mode
  s_last_processed_ts :: "ts option"
  s_alert_has_fired :: bool
  s_alert_cleanup_checked :: bool

abbreviation s_stype :: "sensor \<Rightarrow> string" where "s_stype s \<equiv> c_stype (s_cfg s)"
abbreviation s_last_rate :: "sensor \<Rightarrow> real option" where "s_last_rate s \<equiv> n_last_rate (s_snmp s)"

text \<open>The constructor: every run-time field at its initial value.\<close>

definition init_snmp :: snmp_state where
  "init_snmp = \<lparr> n_type = [], n_prev = None, n_prev_ts = None, n_last_rate = None,
     n_prev_enum_code = None, n_prev_ticks = None, n_prev_text = None \<rparr>"

definition init_anom :: anom_state where
  "init_anom = \<lparr> a_mean = None, a_var = None, a_count = 0, a_enabled_since = None,
     a_consec_fails = 0, a_dirty = False \<rparr>"

text \<open>
  \<open>int(fail_after or 2)\<close> and \<open>int(recover_after or 1)\<close> are applied to the configuration by the
  constructor; the anomaly settings start disabled, balanced, with 50 samples.
\<close>

definition new_sensor :: "did \<Rightarrow> sid \<Rightarrow> sensor_cfg \<Rightarrow> sensor" where
  "new_sensor did sid c =
     \<lparr> s_device_id = did, s_sensor_id = sid,
       s_cfg = c\<lparr> c_fail_after := int_or (c_fail_after c) 2,
                  c_recover_after := int_or (c_recover_after c) 1,
                  c_host_override := False, c_probe_id := [],
                  c_anomaly_enabled := False, c_anomaly_sensitivity := 2,
                  c_anomaly_min_samples := 50 \<rparr>,
       s_snmp = init_snmp, s_anom = init_anom,
       s_consec_fail = 0, s_consec_ok = 0, s_alerted_down = False, s_recovery_pending = False,
       s_threshold_state = TOk, s_consec_threshold = 0, s_threshold_recovery_pending = False,
       s_threshold_triggered_ts = None, s_down_since_ts = None, s_ack_by = [], s_ack_at = 0,
       s_cert_days = None, s_cert_caused_thr = False, s_anom_caused_warn = False,
       s_history = [], s_thr_history = [], s_total = 0, s_success = 0,
       s_last_ms = None, s_last_detail = [], s_last_value = None, s_alive = None,
       s_running = False, s_stopped = False, s_sched_mode = Central, s_last_processed_ts = None,
       s_alert_has_fired = False, s_alert_cleanup_checked = False \<rparr>"

text \<open>\<open>collections.deque(maxlen=80)\<close>: appending to a full deque drops the oldest entry.\<close>

definition sensor_MAX :: nat where "sensor_MAX = 80"

definition deque_append :: "'a list \<Rightarrow> 'a \<Rightarrow> 'a list" where
  "deque_append h x = (let h' = h @ [x] in drop (length h' - sensor_MAX) h')"

lemma length_deque_append: "length (deque_append h x) \<le> sensor_MAX"
  by (simp add: deque_append_def sensor_MAX_def)

lemma last_deque_append [simp]: "last (deque_append h x) = x"
  by (simp add: deque_append_def sensor_MAX_def last_drop)

definition valid_history :: "sensor \<Rightarrow> real list" where
  "valid_history s = List.map_filter id (s_history s)"

definition loss_pct :: "sensor \<Rightarrow> int" where
  "loss_pct s = (if s_total s = 0 then 0
     else py_round ((1 - of_nat (s_success s) / of_nat (s_total s)) * 100))"

text \<open>\<open>round(x, 1)\<close>.\<close>

definition round1 :: "real \<Rightarrow> real" where
  "round1 x = of_int (py_round (x * 10)) / 10"

definition avg_ms :: "sensor \<Rightarrow> real option" where
  "avg_ms s = (let v = valid_history s in
     if v = [] then None else Some (round1 (sum_list v / of_nat (length v))))"

definition min_ms :: "sensor \<Rightarrow> real option" where
  "min_ms s = (let v = valid_history s in if v = [] then None else Some (round1 (Min (set v))))"

definition max_ms :: "sensor \<Rightarrow> real option" where
  "max_ms s = (let v = valid_history s in if v = [] then None else Some (round1 (Max (set v))))"

lemma loss_pct_bounds:
  assumes "s_success s \<le> s_total s"
  shows "0 \<le> loss_pct s" and "loss_pct s \<le> 100"
proof -
  let ?x = "(1 - real (s_success s) / real (s_total s)) * 100"
  have "s_total s \<noteq> 0 \<Longrightarrow> real_of_int 0 \<le> ?x \<and> ?x \<le> real_of_int 100"
    using assms by (simp add: field_simps)
  then have "s_total s \<noteq> 0 \<Longrightarrow> 0 \<le> py_round ?x \<and> py_round ?x \<le> 100"
    using py_round_mono_bounds by blast
  then show "0 \<le> loss_pct s" "loss_pct s \<le> 100"
    by (auto simp: loss_pct_def)
qed

section \<open>Devices\<close>

datatype status = Pause | Unknown | Down | Warn | Up

record device =
  d_device_id :: did
  d_name :: string
  d_host :: string
  d_group :: string
  d_site :: string
  d_webhook_url :: string
  d_alerts_muted :: bool
  d_sensors :: "(sid, sensor) dict"
  d_sid_ctr :: nat
  d_probe_id :: string
  d_parent_device_ids :: "string list"
  d_cached_status :: "status option"

definition new_device :: "did \<Rightarrow> string \<Rightarrow> string \<Rightarrow> string \<Rightarrow> string \<Rightarrow> device" where
  "new_device did name host grp site =
     \<lparr> d_device_id = did, d_name = name, d_host = host, d_group = grp, d_site = site,
       d_webhook_url = [], d_alerts_muted = False, d_sensors = [], d_sid_ctr = 0,
       d_probe_id = [], d_parent_device_ids = [], d_cached_status = None \<rparr>"

definition next_sid :: "device \<Rightarrow> device \<times> sid" where
  "next_sid d = (let n = d_sid_ctr d + 1 in (d\<lparr> d_sid_ctr := n \<rparr>, CHR ''s'' # str_of_nat n))"

definition invalidate_status :: "device \<Rightarrow> device" where
  "invalidate_status d = d\<lparr> d_cached_status := None \<rparr>"

text \<open>The live status, computed from the sensors, in the order of the source's branches.\<close>

definition compute_status :: "sensor list \<Rightarrow> status" where
  "compute_status sensors =
     (let running = filter s_running sensors;
          active = filter (\<lambda>s. \<not> c_alerts_muted (s_cfg s)) running;
          vals = map s_alive active
      in if sensors \<noteq> [] \<and> running = [] then Pause
         else if vals = [] \<or> list_all (\<lambda>v. v = None) vals then Unknown
         else if list_ex (\<lambda>v. v = Some False) vals then Down
         else if list_ex (\<lambda>s. s_threshold_state s = TCrit) active then Down
         else if list_ex (\<lambda>s. s_threshold_state s = TWarn) active then Warn
         else Up)"

definition live_status :: "device \<Rightarrow> status" where
  "live_status d = compute_status (map snd (d_sensors d))"

text \<open>The property \<open>status\<close>: a cached value wins, otherwise compute and remember.\<close>

definition device_status :: "device \<Rightarrow> device \<times> status" where
  "device_status d = (case d_cached_status d of
       Some st \<Rightarrow> (d, st)
     | None \<Rightarrow> (let st = live_status d in (d\<lparr> d_cached_status := Some st \<rparr>, st)))"

text \<open>The cache is coherent when what it remembers is the live status.\<close>

definition cache_ok :: "device \<Rightarrow> bool" where
  "cache_ok d \<longleftrightarrow> (\<forall>st. d_cached_status d = Some st \<longrightarrow> st = live_status d)"

lemma cache_ok_invalidate [simp]: "cache_ok (invalidate_status d)"
  by (simp add: cache_ok_def invalidate_status_def)

lemma live_status_invalidate [simp]: "live_status (invalidate_status d) = live_status d"
  by (simp add: live_status_def invalidate_status_def)

lemma live_status_cached [simp]: "live_status (d\<lparr> d_cached_status := c \<rparr>) = live_status d"
  by (simp add: live_status_def)

lemma device_status_coherent:
  assumes "cache_ok d"
  shows "snd (device_status d) = live_status d" and "cache_ok (fst (device_status d))"
  using assms by (auto simp: device_status_def cache_ok_def Let_def split: option.splits)

text \<open>What the status reads of a sensor; two sensors that agree on it give the same status.\<close>

definition status_view :: "sensor \<Rightarrow> bool \<times> bool \<times> bool option \<times> thr" where
  "status_view s = (s_running s, c_alerts_muted (s_cfg s), s_alive s, s_threshold_state s)"

definition compute_status_view :: "(bool \<times> bool \<times> bool option \<times> thr) list \<Rightarrow> status" where
  "compute_status_view vs =
     (let running = filter fst vs; active = filter (\<lambda>(r, m, a, t). \<not> m) running
      in if vs \<noteq> [] \<and> running = [] then Pause
         else if active = [] \<or> list_all (\<lambda>(r, m, a, t). a = None) active then Unknown
         else if list_ex (\<lambda>(r, m, a, t). a = Some False) active then Down
         else if list_ex (\<lambda>(r, m, a, t). t = TCrit) active then Down
         else if list_ex (\<lambda>(r, m, a, t). t = TWarn) active then Warn
         else Up)"

lemma compute_status_by_view: "compute_status ss = compute_status_view (map status_view ss)"
proof -
  have run: "filter fst (map status_view ss) = map status_view (filter s_running ss)"
    by (induction ss) (auto simp: status_view_def)
  have act: "filter (\<lambda>(r, m, a, t). \<not> m) (map status_view xs)
      = map status_view (filter (\<lambda>s. \<not> c_alerts_muted (s_cfg s)) xs)" for xs
    by (induction xs) (auto simp: status_view_def)
  have all: "list_all (\<lambda>(r, m, a, t). a = None) (map status_view xs)
      = list_all (\<lambda>v. v = None) (map s_alive xs)" for xs
    by (induction xs) (auto simp: status_view_def)
  have dn: "list_ex (\<lambda>(r, m, a, t). a = Some False) (map status_view xs)
      = list_ex (\<lambda>v. v = Some False) (map s_alive xs)" for xs
    by (induction xs) (auto simp: status_view_def)
  have th: "list_ex (\<lambda>(r, m, a, t). t = x) (map status_view xs)
      = list_ex (\<lambda>s. s_threshold_state s = x) xs" for x xs
    by (induction xs) (auto simp: status_view_def)
  show ?thesis
    by (simp only: compute_status_def compute_status_view_def Let_def run act all dn th map_is_Nil_conv)
qed

lemma map_snd_update_view:
  assumes "map_of m k = Some s" and "distinct (map fst m)" and "status_view s' = status_view s"
  shows "map status_view (map snd (dput k s' m)) = map status_view (map snd m)"
  using assms by (induction m) (auto split: if_splits)

text \<open>
  Storing back a sensor whose view did not change keeps the cache coherent; a changed view needs
  \<open>invalidate_status\<close>, after which anything is coherent.
\<close>

definition put_sensor :: "sid \<Rightarrow> sensor \<Rightarrow> device \<Rightarrow> device" where
  "put_sensor sid s d = d\<lparr> d_sensors := dput sid s (d_sensors d) \<rparr>"

lemma live_status_put_same_view:
  assumes "map_of (d_sensors d) k = Some s" "distinct (map fst (d_sensors d))"
    "status_view s' = status_view s"
  shows "live_status (put_sensor k s' d) = live_status d"
  using map_snd_update_view [OF assms]
  by (simp add: live_status_def put_sensor_def compute_status_by_view)

lemma cache_ok_put_same_view:
  assumes "cache_ok d" "map_of (d_sensors d) k = Some s" "distinct (map fst (d_sensors d))"
    "status_view s' = status_view s"
  shows "cache_ok (put_sensor k s' d)"
  using assms(1) live_status_put_same_view [OF assms(2-4)]
  by (simp add: cache_ok_def) (simp add: put_sensor_def)

lemma cache_ok_None: "d_cached_status d = None \<Longrightarrow> cache_ok d"
  by (simp add: cache_ok_def)

end
