(* ===== verification/Flaps.thy ===== *)
theory Flaps
  imports Devices
begin

text \<open>
  What a probe cycle says to the rest of the program: the flap record (the dictionary that goes to
  \<open>db_log_flap\<close>, to the browsers and to the webhook), the effects in the order the code causes them,
  and the state one cycle of \<open>MonitorState._process_result\<close> carries from step to step.

  Human-readable texts are kept as the datatype \<open>detail\<close>: which sentence, with which values.
  The diagnostic \<open>raw_data\<close> blob and the log lines are not modelled.
\<close>

datatype detail =
    DText string
  | DStateChanged string string
  | DStateRecovered string string
  | DRebooted real
  | DValueChanged string string
  | DRecovered
  | DThresholdValue thr
  | DAnomaly real
  | DCertExpires int
  | DCertExpired int
  | DThresholdRecovered thr

record flap =
  f_did :: did
  f_sid :: sid
  f_dname :: string
  f_sname :: string
  f_host :: string
  f_stype :: string
  f_ts :: int
  f_detail :: detail
  f_direction :: string
  f_grp :: string
  f_consec_count :: nat
  f_duration_s :: "int option"
  f_state :: "thr option"

datatype effect =
    EFlap string flap                                        \<comment> \<open>\<open>_broadcast(event, flap)\<close>\<close>
  | ELog did sid value_disp string                           \<comment> \<open>\<open>_broadcast("log", ...)\<close>\<close>
  | ESensor sensor                                           \<comment> \<open>\<open>("sensor", s.to_dict())\<close>\<close>
  | EDeviceStatus did status
  | ELogFlap flap                                            \<comment> \<open>\<open>db_log_flap\<close>\<close>
  | EAutoResolve did sid int "string list"                   \<comment> \<open>\<open>db_auto_resolve_flap\<close>\<close>
  | EResolveFlaps did sid                                    \<comment> \<open>\<open>db_resolve_flaps_by_sensor\<close>\<close>
  | EWebhook string flap                                     \<comment> \<open>\<open>_enqueue_webhook\<close>\<close>
  | ELogErr did sid string int                               \<comment> \<open>\<open>db_log_err\<close>\<close>
  | ESample did sid bool "real option" "string option" ts "real option"  \<comment> \<open>\<open>db_buffer_sample\<close>\<close>

definition base_flap :: "device \<Rightarrow> sensor \<Rightarrow> ts \<Rightarrow> flap" where
  "base_flap dev s t =
     \<lparr> f_did = d_device_id dev, f_sid = s_sensor_id s, f_dname = d_name dev,
       f_sname = c_name (s_cfg s), f_host = c_host (s_cfg s), f_stype = s_stype s,
       f_ts = \<lfloor>t\<rfloor>, f_detail = DText [], f_direction = [], f_grp = d_group dev,
       f_consec_count = 1, f_duration_s = None, f_state = None \<rparr>"

text \<open>One probe result, as the probes and the agent check-in handler build it.\<close>

record probe_result =
  r_ok :: bool
  r_ms :: "real option"
  r_detail :: string
  r_value :: "string option"
  r_snmp_type :: string
  r_rate :: "real option"
  r_cert_days :: "int option"

datatype source = Local | Probe

text \<open>An incident parked by the startup grace, per sensor: the pending down and threshold events.\<close>

record parked_down =
  pd_flap :: flap
  pd_webhook :: string

record parked_thr =
  pt_state :: thr
  pt_evt :: string
  pt_flap :: flap
  pt_resolve_prev :: "(int \<times> string) option"

record parked =
  pk_down :: "parked_down option"
  pk_thr :: "parked_thr option"

definition no_parked :: parked where
  "no_parked = \<lparr> pk_down = None, pk_thr = None \<rparr>"

text \<open>The working state of one cycle.\<close>

record pstate =
  p_dev :: device
  p_s :: sensor
  p_in_grace :: bool
  p_parked :: "(did \<times> sid, parked) dict"
  p_out :: "effect list"

definition emit :: "effect list \<Rightarrow> pstate \<Rightarrow> pstate" where
  "emit es p = p\<lparr> p_out := p_out p @ es \<rparr>"

definition upd_s :: "(sensor \<Rightarrow> sensor) \<Rightarrow> pstate \<Rightarrow> pstate" where
  "upd_s f p = p\<lparr> p_s := f (p_s p) \<rparr>"

definition upd_dev :: "(device \<Rightarrow> device) \<Rightarrow> pstate \<Rightarrow> pstate" where
  "upd_dev f p = p\<lparr> p_dev := f (p_dev p) \<rparr>"

lemma pstate_simps [simp]:
  "p_dev (emit es p) = p_dev p" "p_s (emit es p) = p_s p" "p_in_grace (emit es p) = p_in_grace p"
  "p_parked (emit es p) = p_parked p" "p_out (emit es p) = p_out p @ es"
  "p_dev (upd_s f p) = p_dev p" "p_s (upd_s f p) = f (p_s p)" "p_in_grace (upd_s f p) = p_in_grace p"
  "p_parked (upd_s f p) = p_parked p" "p_out (upd_s f p) = p_out p"
  "p_dev (upd_dev g p) = g (p_dev p)" "p_s (upd_dev g p) = p_s p"
  "p_in_grace (upd_dev g p) = p_in_grace p" "p_parked (upd_dev g p) = p_parked p"
  "p_out (upd_dev g p) = p_out p"
  by (simp_all add: emit_def upd_s_def upd_dev_def)

end
