(* ===== verification/Snmp.thy ===== *)
theory Snmp
  imports Flaps "HOL-Library.Word"
begin

text \<open>
  Typed SNMP values (\<open>core/state.py\<close>): the category of an OID, the enum legends written in the
  unit field, counter deltas with the Counter32 wrap, and the transition detector that turns a
  changed enum code, a decreased uptime or a changed text into a flap although the probe succeeded.
\<close>

section \<open>Categories and legends\<close>

definition byte_units :: "string list" where "byte_units = [''bytes'']"
definition count_units :: "string list" where "count_units = [''errors'', ''packets'']"
definition counter_types :: "string list" where
  "counter_types = [''counter32'', ''counter64'', ''counter'']"

definition gauge_units :: "string list" where
  "gauge_units = [''%'', ''percent'', ''celsius'', ''fahrenheit'', ''dbm'', ''count'',
     ''seconds'', ''minutes'', ''hours'', ''hz'', ''volts'', ''amps'', ''ratio'', ''rpm'']"

definition is_word_dash :: "char \<Rightarrow> bool" where
  "is_word_dash c \<longleftrightarrow> is_alpha c \<or> is_digit c \<or> c = CHR ''_'' \<or> c = CHR ''-''"

text \<open>One match of the legend pattern (digits, an equals sign, a word) at the start of the text.\<close>

definition enum_match :: "string \<Rightarrow> (string \<times> string \<times> string) option" where
  "enum_match t =
     (let ds = takeWhile is_digit t; r1 = dropWhile is_space (drop (length ds) t)
      in if ds = [] \<or> r1 = [] \<or> hd r1 \<noteq> CHR ''='' then None
         else let r2 = dropWhile is_space (tl r1)
              in if r2 = [] \<or> \<not> is_alpha (hd r2) then None
                 else let w = takeWhile is_word_dash (tl r2)
                      in Some (ds, hd r2 # w, drop (length w) (tl r2)))"

lemma enum_match_shorter:
  assumes "enum_match t = Some (k, v, rest)"
  shows "length rest < length t"
proof -
  let ?ds = "takeWhile is_digit t"
  let ?r1 = "dropWhile is_space (drop (length ?ds) t)"
  let ?r2 = "dropWhile is_space (tl ?r1)"
  from assms have r: "rest = drop (length (takeWhile is_word_dash (tl ?r2))) (tl ?r2)"
    and ne: "?r1 \<noteq> []"
    by (auto simp: enum_match_def Let_def split: if_splits)
  have "length rest \<le> length ?r2"
    unfolding r by simp
  also have "\<dots> \<le> length (tl ?r1)" by (rule length_dropWhile_le)
  also have "\<dots> < length ?r1" using ne by simp
  also have "\<dots> \<le> length (drop (length ?ds) t)" by (rule length_dropWhile_le)
  also have "\<dots> \<le> length t" by simp
  finally show ?thesis .
qed

text \<open>\<open>finditer\<close>: all matches, left to right, not overlapping.\<close>

function enum_pairs :: "string \<Rightarrow> (string \<times> string) list" where
  "enum_pairs [] = []"
| "enum_pairs (c # cs) = (case enum_match (c # cs) of
       Some (k, v, rest) \<Rightarrow> (k, v) # enum_pairs rest
     | None \<Rightarrow> enum_pairs cs)"
  by pat_completeness auto
termination
  by (relation "measure length") (auto dest: enum_match_shorter)

definition parse_enum_legend :: "string \<Rightarrow> (string, string) dict" where
  "parse_enum_legend u = fold (\<lambda>(k, v) m. dput k v m) (enum_pairs u) []"

definition known_enum_oids :: "(string \<times> (string, string) dict) list" where
  "known_enum_oids =
     [(''1.3.6.1.2.1.2.2.1.8.'',
         [(''1'', ''up''), (''2'', ''down''), (''3'', ''testing''), (''4'', ''unknown''),
          (''5'', ''dormant''), (''6'', ''notPresent''), (''7'', ''lowerLayerDown'')]),
      (''1.3.6.1.2.1.2.2.1.7.'', [(''1'', ''up''), (''2'', ''down''), (''3'', ''testing'')]),
      (''1.3.6.1.2.1.33.1.2.1.'',
         [(''1'', ''unknown''), (''2'', ''batteryNormal''), (''3'', ''batteryLow''),
          (''4'', ''batteryDepleted'')])]"

definition enum_for_oid :: "string \<Rightarrow> (string, string) dict" where
  "enum_for_oid oid =
     (case find (\<lambda>(prefix, legend). startswith prefix oid) known_enum_oids of
        None \<Rightarrow> [] | Some (_, legend) \<Rightarrow> legend)"

definition effective_enum_legend :: "string \<Rightarrow> string \<Rightarrow> (string, string) dict" where
  "effective_enum_legend u oid =
     (let l = parse_enum_legend u in if l \<noteq> [] then l else enum_for_oid oid)"

definition legend_primary :: "(string, string) dict \<Rightarrow> string" where
  "legend_primary l = (if dget l ''1'' \<noteq> None then ''1''
     else case l of [] \<Rightarrow> ''1'' | (k, _) # _ \<Rightarrow> k)"

datatype category = CounterRate | EnumState | GaugeNumeric | TimeDuration | TextValue

definition snmp_category :: "string \<Rightarrow> string \<Rightarrow> string \<Rightarrow> category" where
  "snmp_category unit typ oid =
     (let u = strip (lower unit)
      in if u \<in> set byte_units \<or> u \<in> set count_units then CounterRate
         else if unit \<noteq> [] \<and> enum_pairs unit \<noteq> [] then EnumState
         else if unit = [] \<and> oid \<noteq> [] \<and> enum_for_oid oid \<noteq> [] then EnumState
         else if u \<in> set gauge_units then GaugeNumeric
         else if typ = ''TimeTicks'' then TimeDuration
         else if typ = ''OCTET STRING'' \<or> u = ''string'' then TextValue
         else GaugeNumeric)"

section \<open>Counter rates\<close>

definition rate_ceiling :: real where "rate_ceiling = 125000000000"

text \<open>
  The rate of two consecutive counter readings, \<open>None\<close> when it is unknowable: readings less than a
  second apart, a decrease of anything but a Counter32, a rate above the sanity ceiling.
\<close>

definition counter_rate :: "string \<Rightarrow> int \<Rightarrow> ts \<Rightarrow> int \<Rightarrow> ts \<Rightarrow> real option" where
  "counter_rate styp prev prev_ts cur now =
     (let elapsed = now - prev_ts; delta = cur - prev;
          rate = (if elapsed < 1 then None
                  else if delta < 0 then
                    (if styp = ''counter32'' then Some (of_int (delta + 2 ^ 32) / elapsed) else None)
                  else Some (of_int delta / elapsed))
      in case rate of
           Some r \<Rightarrow> if r > rate_ceiling then None else Some r
         | None \<Rightarrow> None)"

text \<open>The em dash shown instead of a raw counter on the first poll (UTF-8).\<close>

definition em_dash :: string where "em_dash = [CHR 0xE2, CHR 0x80, CHR 0x94]"

definition set_rate :: "real option \<Rightarrow> sensor \<Rightarrow> sensor" where
  "set_rate r s = s\<lparr> s_snmp := (s_snmp s)\<lparr> n_last_rate := r \<rparr>,
                     s_last_value := map_option (\<lambda>x. VRate x (c_snmp_unit (s_cfg s))) r \<rparr>"

text \<open>The local branch for a counter type: rate from the previous reading, then remember this one.\<close>

definition counter_local :: "string \<Rightarrow> string \<Rightarrow> ts \<Rightarrow> sensor \<Rightarrow> sensor" where
  "counter_local styp raw now s =
     (case parse_int raw of
        None \<Rightarrow> s\<lparr> s_last_value := Some (VRaw raw),
                   s_snmp := (s_snmp s)\<lparr> n_last_rate := None, n_prev := None, n_prev_ts := None \<rparr> \<rparr>
      | Some cur \<Rightarrow>
          (let s1 = (case (n_prev (s_snmp s), n_prev_ts (s_snmp s)) of
                       (Some prev, Some prev_ts) \<Rightarrow> set_rate (counter_rate styp prev prev_ts cur now) s
                     | _ \<Rightarrow> (set_rate None s)\<lparr> s_last_detail := em_dash \<rparr>)
           in s1\<lparr> s_snmp := (s_snmp s1)\<lparr> n_prev := Some cur, n_prev_ts := Some now \<rparr> \<rparr>))"

text \<open>A result injected by an agent carries its own rate.\<close>

definition counter_probe :: "real option \<Rightarrow> sensor \<Rightarrow> sensor" where
  "counter_probe rate s = (case rate of
       Some r \<Rightarrow> set_rate (Some r) s
     | None \<Rightarrow> (set_rate None s)\<lparr> s_last_detail := em_dash \<rparr>)"

definition value_update :: "source \<Rightarrow> probe_result \<Rightarrow> ts \<Rightarrow> sensor \<Rightarrow> sensor" where
  "value_update src r now s =
     (let styp = lower (r_snmp_type r);
          is_counter = (s_stype s = ''snmp'' \<and> styp \<in> set counter_types \<and> r_value r \<noteq> None);
          s1 = (if s_stype s = ''snmp'' \<and> r_snmp_type r \<noteq> []
                then s\<lparr> s_snmp := (s_snmp s)\<lparr> n_type := r_snmp_type r \<rparr> \<rparr> else s)
      in if is_counter \<and> src = Probe then counter_probe (r_rate r) s1
         else if is_counter then counter_local styp (the (r_value r)) now s1
         else s1\<lparr> s_last_value := map_option VRaw (r_value r),
                   s_snmp := (s_snmp s1)\<lparr> n_last_rate := None \<rparr> \<rparr>)"

lemma counter_rate_bounds:
  assumes "counter_rate styp prev pts cur now = Some r"
    and "0 \<le> prev" "prev < 2 ^ 32" "0 \<le> cur"
  shows "0 \<le> r" and "r \<le> rate_ceiling"
proof -
  show "r \<le> rate_ceiling"
    using assms(1) by (auto simp: counter_rate_def Let_def split: option.splits if_splits)
  show "0 \<le> r"
    using assms by (auto simp: counter_rate_def Let_def split: option.splits if_splits
        intro!: divide_nonneg_nonneg)
qed

text \<open>On 32-bit readings the wrapped delta is subtraction of machine words.\<close>

lemma wrapped_delta_word:
  assumes "0 \<le> prev" "prev < 2 ^ 32" "0 \<le> cur" "cur < 2 ^ 32"
  shows "(if cur - prev < 0 then cur - prev + 2 ^ 32 else cur - prev)
       = uint (word_of_int cur - word_of_int prev :: 32 word)"
proof -
  have "uint (word_of_int cur - word_of_int prev :: 32 word) = (cur - prev) mod 2 ^ 32"
    unfolding wi_hom_sub uint_word_of_int by simp
  also have "\<dots> = (if cur - prev < 0 then cur - prev + 2 ^ 32 else cur - prev)"
  proof (cases "cur < prev")
    case True
    have "(cur - prev) mod 2 ^ 32 = (cur - prev + 2 ^ 32) mod 2 ^ 32" by simp
    also have "\<dots> = cur - prev + 2 ^ 32" using True assms by (intro mod_pos_pos_trivial) auto
    finally show ?thesis using True by simp
  next
    case False
    then show ?thesis using assms by (simp add: mod_pos_pos_trivial)
  qed
  finally show ?thesis by simp
qed

end
