(* ===== verification/Typed.thy ===== *)
theory Typed
  imports Snmp
begin

text \<open>
  The typed transition detector of \<open>MonitorState._process_result\<close> (\<open>core/state.py\<close>): enum states,
  uptime ticks and text values.
\<close>

definition enum_direction :: "string \<Rightarrow> string \<Rightarrow> string \<Rightarrow> string" where
  "enum_direction primary prev cur =
     (if cur \<noteq> primary \<and> prev = primary then ''state_down''
      else if cur = primary \<and> prev \<noteq> primary then ''state_up''
      else ''state_change'')"

definition typed_target :: "string \<Rightarrow> thr" where
  "typed_target dir = (if dir = ''state_down'' then TCrit
     else if dir = ''state_change'' then TWarn else TOk)"

text \<open>The threshold state follows the typed transition; a recovery also ends the incident flags.\<close>

definition drive_threshold :: "thr \<Rightarrow> ts \<Rightarrow> pstate \<Rightarrow> pstate" where
  "drive_threshold target now p =
     (if target = s_threshold_state (p_s p) then p
      else upd_dev invalidate_status (upd_s (\<lambda>s.
             let s' = s\<lparr> s_threshold_state := target \<rparr>
             in if target = TOk
                then s'\<lparr> s_threshold_triggered_ts := None, s_threshold_recovery_pending := False,
                         s_alerted_down := False, s_ack_by := [], s_ack_at := 0 \<rparr>
                else s'\<lparr> s_threshold_triggered_ts := Some now,
                         s_threshold_recovery_pending := False \<rparr>) p))"

definition label_of :: "(string, string) dict \<Rightarrow> string \<Rightarrow> string" where
  "label_of legend code = (case dget legend code of
       Some l \<Rightarrow> l | None \<Rightarrow> ''state '' @ code)"

definition enum_flap :: "string \<Rightarrow> string \<Rightarrow> string \<Rightarrow> (string, string) dict \<Rightarrow> ts \<Rightarrow> pstate \<Rightarrow> flap" where
  "enum_flap dir prev cur legend now p =
     (base_flap (p_dev p) (p_s p) now)\<lparr>
        f_detail := (if dir = ''state_up''
                     then DStateRecovered (label_of legend prev) (label_of legend cur)
                     else DStateChanged (label_of legend prev) (label_of legend cur)),
        f_direction := dir \<rparr>"

definition webhook_for :: "pstate \<Rightarrow> flap \<Rightarrow> effect list" where
  "webhook_for p f = (if d_webhook_url (p_dev p) \<noteq> [] then [EWebhook (d_webhook_url (p_dev p)) f] else [])"

definition enum_transition :: "string \<Rightarrow> string \<Rightarrow> ts \<Rightarrow> pstate \<Rightarrow> pstate" where
  "enum_transition prev cur now p =
     (let s = p_s p;
          legend = effective_enum_legend (c_snmp_unit (s_cfg s)) (c_snmp_oid (s_cfg s));
          dir = enum_direction (legend_primary legend) prev cur;
          f = enum_flap dir prev cur legend now p;
          p1 = drive_threshold (typed_target dir) now p
      in emit ([EFlap (''flap_'' @ dir) f, ELogFlap f]
               @ (if dir = ''state_up''
                  then [EAutoResolve (f_did f) (f_sid f) (f_ts f) [''state_down'', ''state_change'']]
                  else webhook_for p1 f)) p1)"

definition enum_step :: "string \<Rightarrow> ts \<Rightarrow> pstate \<Rightarrow> pstate" where
  "enum_step raw now p =
     (case parse_float raw of
        None \<Rightarrow> p
      | Some x \<Rightarrow>
          (let cur = str_of_int (py_int x);
               p1 = (case n_prev_enum_code (s_snmp (p_s p)) of
                       Some prev \<Rightarrow> if cur \<noteq> prev then enum_transition prev cur now p else p
                     | None \<Rightarrow> p)
           in upd_s (\<lambda>s. s\<lparr> s_snmp := (s_snmp s)\<lparr> n_prev_enum_code := Some cur \<rparr> \<rparr>) p1))"

text \<open>An uptime that went back by more than one second is a reboot.\<close>

definition ticks_step :: "string \<Rightarrow> ts \<Rightarrow> pstate \<Rightarrow> pstate" where
  "ticks_step raw now p =
     (case parse_float raw of
        None \<Rightarrow> p
      | Some x \<Rightarrow>
          (let cur = py_int x;
               p1 = (case n_prev_ticks (s_snmp (p_s p)) of
                       Some prev \<Rightarrow>
                         if cur < prev - 100
                         then (let f = (base_flap (p_dev p) (p_s p) now)\<lparr>
                                 f_detail := DRebooted (of_int prev / 100), f_direction := ''reboot'' \<rparr>
                               in emit ([EFlap ''flap_reboot'' f, ELogFlap f] @ webhook_for p f) p)
                         else p
                     | None \<Rightarrow> p)
           in upd_s (\<lambda>s. s\<lparr> s_snmp := (s_snmp s)\<lparr> n_prev_ticks := Some cur \<rparr> \<rparr>) p1))"

definition text_step :: "string \<Rightarrow> ts \<Rightarrow> pstate \<Rightarrow> pstate" where
  "text_step raw now p =
     (let p1 = (case n_prev_text (s_snmp (p_s p)) of
                  Some prev \<Rightarrow>
                    if raw \<noteq> prev
                    then (let f = (base_flap (p_dev p) (p_s p) now)\<lparr>
                            f_detail := DValueChanged prev raw, f_direction := ''value_change'' \<rparr>
                          in emit ([EFlap ''flap_value_change'' f, ELogFlap f] @ webhook_for p f) p)
                    else p
                | None \<Rightarrow> p)
      in upd_s (\<lambda>s. s\<lparr> s_snmp := (s_snmp s)\<lparr> n_prev_text := Some raw \<rparr> \<rparr>) p1)"

definition typed_step :: "bool \<Rightarrow> probe_result \<Rightarrow> ts \<Rightarrow> pstate \<Rightarrow> pstate" where
  "typed_step muted r now p =
     (let c = s_cfg (p_s p)
      in if c_stype c \<noteq> ''snmp'' \<or> muted then p
         else case r_value r of
                None \<Rightarrow> p
              | Some raw \<Rightarrow>
                  (case snmp_category (c_snmp_unit c) (r_snmp_type r) (c_snmp_oid c) of
                     EnumState \<Rightarrow> enum_step raw now p
                   | TimeDuration \<Rightarrow> ticks_step raw now p
                   | TextValue \<Rightarrow> text_step raw now p
                   | _ \<Rightarrow> p))"

section \<open>What the detector changes\<close>

text \<open>Fields of the sensor no typed step writes.\<close>

lemma drive_threshold_frame [frame_simps]:
  "s_cfg (p_s (drive_threshold t now p)) = s_cfg (p_s p)"
  "s_alive (p_s (drive_threshold t now p)) = s_alive (p_s p)"
  "s_running (p_s (drive_threshold t now p)) = s_running (p_s p)"
  "s_down_since_ts (p_s (drive_threshold t now p)) = s_down_since_ts (p_s p)"
  "s_consec_fail (p_s (drive_threshold t now p)) = s_consec_fail (p_s p)"
  "s_consec_ok (p_s (drive_threshold t now p)) = s_consec_ok (p_s p)"
  "s_snmp (p_s (drive_threshold t now p)) = s_snmp (p_s p)"
  "s_device_id (p_s (drive_threshold t now p)) = s_device_id (p_s p)"
  "s_sensor_id (p_s (drive_threshold t now p)) = s_sensor_id (p_s p)"
  "p_parked (drive_threshold t now p) = p_parked p"
  "p_in_grace (drive_threshold t now p) = p_in_grace p"
  "p_out (drive_threshold t now p) = p_out p"
  by (simp_all add: drive_threshold_def Let_def)

lemma typed_target_cases:
  "typed_target (enum_direction primary prev cur) = TCrit \<longleftrightarrow> cur \<noteq> primary \<and> prev = primary"
  "typed_target (enum_direction primary prev cur) = TOk \<longleftrightarrow> cur = primary \<and> prev \<noteq> primary"
  by (auto simp: typed_target_def enum_direction_def)

lemma drive_threshold_state: "s_threshold_state (p_s (drive_threshold t now p)) = t"
  by (simp add: drive_threshold_def Let_def)

end
