(* ===== verification/Grace.thy ===== *)
theory Grace
  imports Flaps
begin

text \<open>
  The startup grace of \<open>MonitorState\<close> (\<open>core/state.py\<close>): while the window is open, a down or
  threshold event is parked instead of emitted; a recovery removes it again; when the window closes,
  \<open>_flush_grace\<close> emits what is still bad and drops the rest.
\<close>

type_synonym parked_dict = "(did \<times> sid, parked) dict"

definition pk_of :: "parked_dict \<Rightarrow> did \<times> sid \<Rightarrow> parked" where
  "pk_of m k = (case dget m k of Some x \<Rightarrow> x | None \<Rightarrow> no_parked)"

definition grace_park_down :: "did \<Rightarrow> sid \<Rightarrow> parked_down \<Rightarrow> parked_dict \<Rightarrow> parked_dict" where
  "grace_park_down d s e m = dput (d, s) ((pk_of m (d, s))\<lparr> pk_down := Some e \<rparr>) m"

definition grace_park_thr :: "did \<Rightarrow> sid \<Rightarrow> parked_thr \<Rightarrow> parked_dict \<Rightarrow> parked_dict" where
  "grace_park_thr d s e m = dput (d, s) ((pk_of m (d, s))\<lparr> pk_thr := Some e \<rparr>) m"

text \<open>Storing the entry back, or deleting it when no kind is left.\<close>

definition pk_store :: "did \<times> sid \<Rightarrow> parked \<Rightarrow> parked_dict \<Rightarrow> parked_dict" where
  "pk_store k e m = (if pk_down e = None \<and> pk_thr e = None then ddel k m else dput k e m)"

definition grace_unpark_down :: "did \<Rightarrow> sid \<Rightarrow> parked_dict \<Rightarrow> parked_dict \<times> parked_down option" where
  "grace_unpark_down d s m = (case dget m (d, s) of
       None \<Rightarrow> (m, None)
     | Some e \<Rightarrow> (pk_store (d, s) (e\<lparr> pk_down := None \<rparr>) m, pk_down e))"

definition grace_unpark_thr :: "did \<Rightarrow> sid \<Rightarrow> parked_dict \<Rightarrow> parked_dict \<times> parked_thr option" where
  "grace_unpark_thr d s m = (case dget m (d, s) of
       None \<Rightarrow> (m, None)
     | Some e \<Rightarrow> (pk_store (d, s) (e\<lparr> pk_thr := None \<rparr>) m, pk_thr e))"

definition grace_has :: "did \<Rightarrow> sid \<Rightarrow> parked_dict \<Rightarrow> bool" where
  "grace_has d s m \<longleftrightarrow> dget m (d, s) \<noteq> None"

text \<open>The broadcast of a threshold event carries the flap without its direction.\<close>

definition evt_data :: "flap \<Rightarrow> flap" where
  "evt_data f = f\<lparr> f_direction := [] \<rparr>"

text \<open>One parked sensor at the end of the window.\<close>

definition flush_down :: "sensor \<Rightarrow> parked \<Rightarrow> effect list" where
  "flush_down s e = (case pk_down e of
       Some pd \<Rightarrow> if s_alerted_down s
         then [EFlap ''flap_down'' (pd_flap pd), ELogFlap (pd_flap pd)]
              @ (if pd_webhook pd \<noteq> [] then [EWebhook (pd_webhook pd) (pd_flap pd)] else [])
         else []
     | None \<Rightarrow> [])"

definition flush_thr :: "did \<Rightarrow> sid \<Rightarrow> sensor \<Rightarrow> parked \<Rightarrow> effect list" where
  "flush_thr d i s e = (case pk_thr e of
       Some pt \<Rightarrow> if s_threshold_state s = pt_state pt
         then [EFlap (pt_evt pt) (evt_data (pt_flap pt)), ELogFlap (pt_flap pt)]
              @ (case pt_resolve_prev pt of
                   Some (t, dir) \<Rightarrow> [EAutoResolve d i t [dir]]
                 | None \<Rightarrow> [])
         else []
     | None \<Rightarrow> [])"

fun flush_entries :: "(did, device) dict \<Rightarrow> parked_dict \<Rightarrow> effect list" where
  "flush_entries devs [] = []"
| "flush_entries devs (((d, i), e) # rest) =
     (case Option.bind (dget devs d) (\<lambda>dev. dget (d_sensors dev) i) of
        None \<Rightarrow> []
      | Some s \<Rightarrow> flush_down s e @ flush_thr d i s e) @ flush_entries devs rest"

section \<open>Laws\<close>

lemma dget_pk_store [dict_simps]:
  "dget (pk_store k e m) j =
     (if j = k then (if pk_down e = None \<and> pk_thr e = None then None else Some e) else dget m j)"
  by (simp add: pk_store_def dict_simps)

lemma grace_has_park [simp]:
  "grace_has d s (grace_park_down d s e m)" "grace_has d s (grace_park_thr d s f m)"
  by (simp_all add: grace_has_def grace_park_down_def grace_park_thr_def dict_simps)

text \<open>A dictionary without empty entries: what park and unpark maintain.\<close>

definition parked_wf :: "parked_dict \<Rightarrow> bool" where
  "parked_wf m \<longleftrightarrow> (\<forall>k e. dget m k = Some e \<longrightarrow> pk_down e \<noteq> None \<or> pk_thr e \<noteq> None)"

lemma parked_wf_Nil [simp]: "parked_wf []"
  by (simp add: parked_wf_def)

lemma parked_wfD: "parked_wf m \<Longrightarrow> dget m k = Some e \<Longrightarrow> pk_down e = None \<Longrightarrow> pk_thr e \<noteq> None"
  unfolding parked_wf_def by blast

lemma parked_wf_park:
  "parked_wf m \<Longrightarrow> parked_wf (grace_park_down d s e m)"
  "parked_wf m \<Longrightarrow> parked_wf (grace_park_thr d s f m)"
  by (auto simp: parked_wf_def grace_park_down_def grace_park_thr_def dict_simps split: if_splits)

lemma parked_wf_unpark:
  assumes "parked_wf m"
  shows "parked_wf (fst (grace_unpark_down d s m))" "parked_wf (fst (grace_unpark_thr d s m))"
  using assms
  by (auto simp: parked_wf_def grace_unpark_down_def grace_unpark_thr_def dict_simps
      split: option.splits if_splits)

text \<open>A blip: a parked event taken back leaves every lookup as it was.\<close>

lemma unpark_park_down:
  assumes "parked_wf m" "pk_down (pk_of m (d, s)) = None"
  shows "snd (grace_unpark_down d s (grace_park_down d s e m)) = Some e"
    and "dget (fst (grace_unpark_down d s (grace_park_down d s e m))) k = dget m k"
  using assms
  by (auto simp: grace_unpark_down_def grace_park_down_def dict_simps pk_of_def no_parked_def
      dest: parked_wfD split: option.splits)

lemma unpark_park_thr:
  assumes "parked_wf m" "pk_thr (pk_of m (d, s)) = None"
  shows "snd (grace_unpark_thr d s (grace_park_thr d s e m)) = Some e"
    and "dget (fst (grace_unpark_thr d s (grace_park_thr d s e m))) k = dget m k"
  using assms
  by (auto simp: grace_unpark_thr_def grace_park_thr_def dict_simps pk_of_def no_parked_def
      dest: parked_wfD split: option.splits)

lemma unpark_clears:
  "pk_down (pk_of (fst (grace_unpark_down d s m)) (d, s)) = None"
  "pk_thr (pk_of (fst (grace_unpark_thr d s m)) (d, s)) = None"
  by (auto simp: grace_unpark_down_def grace_unpark_thr_def pk_of_def no_parked_def dict_simps
      split: option.splits if_splits)

text \<open>Every flap the flush writes to the log was parked and its sensor is still in the bad state.\<close>

definition still_bad :: "(did, device) dict \<Rightarrow> flap \<Rightarrow> did \<Rightarrow> sid \<Rightarrow> parked \<Rightarrow> bool" where
  "still_bad devs f d i e \<longleftrightarrow>
     (\<exists>dev s. dget devs d = Some dev \<and> dget (d_sensors dev) i = Some s \<and>
        ((\<exists>pd. pk_down e = Some pd \<and> pd_flap pd = f \<and> s_alerted_down s) \<or>
         (\<exists>pt. pk_thr e = Some pt \<and> pt_flap pt = f \<and> s_threshold_state s = pt_state pt)))"

lemma flush_entry_sound:
  "ELogFlap f \<in> set (flush_down s e @ flush_thr d i s e) \<Longrightarrow>
   dget devs d = Some dev \<Longrightarrow> dget (d_sensors dev) i = Some s \<Longrightarrow> still_bad devs f d i e"
  by (cases "pk_down e"; cases "pk_thr e")
    (auto simp: still_bad_def flush_down_def flush_thr_def split: option.splits if_splits)

lemma flush_entries_sound:
  assumes "ELogFlap f \<in> set (flush_entries devs m)"
  shows "\<exists>d i e. ((d, i), e) \<in> set m \<and> still_bad devs f d i e"
  using assms
proof (induction m)
  case Nil
  then show ?case by simp
next
  case (Cons x rest)
  obtain d i e where x: "x = ((d, i), e)" by (cases x) auto
  show ?case
  proof (cases "ELogFlap f \<in> set (flush_entries devs rest)")
    case True
    from Cons.IH [OF True] show ?thesis by (meson list.set_intros(2))
  next
    case False
    then obtain s where s: "Option.bind (dget devs d) (\<lambda>dev. dget (d_sensors dev) i) = Some s"
      and mem: "ELogFlap f \<in> set (flush_down s e @ flush_thr d i s e)"
      using Cons.prems
      by (cases "Option.bind (dget devs d) (\<lambda>dev. dget (d_sensors dev) i)") (auto simp: x)
    from s obtain dev where look: "dget devs d = Some dev" "dget (d_sensors dev) i = Some s"
      by (auto simp: bind_eq_Some_conv)
    from flush_entry_sound [OF mem look] x show ?thesis by (meson list.set_intros(1))
  qed
qed

text \<open>Conversely every parked incident whose sensor is still in the bad state is written.\<close>

lemma flush_entry_subset:
  assumes "((d, i), e) \<in> set m" "dget devs d = Some dev" "dget (d_sensors dev) i = Some s"
  shows "set (flush_down s e @ flush_thr d i s e) \<subseteq> set (flush_entries devs m)"
  using assms
proof (induction m)
  case Nil
  then show ?case by simp
next
  case (Cons x m)
  obtain d' i' e' where x: "x = ((d', i'), e')" by (cases x) auto
  show ?case
  proof (cases "x = ((d, i), e)")
    case True
    then show ?thesis using Cons.prems by auto
  next
    case False
    then have "((d, i), e) \<in> set m" using Cons.prems(1) by auto
    then have "set (flush_down s e @ flush_thr d i s e) \<subseteq> set (flush_entries devs m)"
      using Cons.IH Cons.prems by blast
    then show ?thesis by (simp add: x le_supI2)
  qed
qed

lemma flush_entries_complete:
  assumes "((d, i), e) \<in> set m" "dget devs d = Some dev" "dget (d_sensors dev) i = Some s"
  shows "pk_down e = Some pd \<Longrightarrow> s_alerted_down s \<Longrightarrow> ELogFlap (pd_flap pd) \<in> set (flush_entries devs m)"
    and "pk_thr e = Some pt \<Longrightarrow> s_threshold_state s = pt_state pt
           \<Longrightarrow> ELogFlap (pt_flap pt) \<in> set (flush_entries devs m)"
  using flush_entry_subset [OF assms] by (auto simp: flush_down_def flush_thr_def)

end
