(* ===== verification/Anomaly.thy ===== *)
theory Anomaly
  imports Devices
begin

text \<open>
  \<open>monitoring/anomaly.py\<close>: the learned latency baseline of a sensor, an exponentially weighted
  mean and variance with an adaptive learning rate, and the verdict on a sample.
\<close>

section \<open>The model\<close>

definition k_by_sensitivity :: "int \<Rightarrow> real" where
  "k_by_sensitivity s = (if s = 1 then 3 else if s = 2 then 4 else if s = 3 then 6 else 4)"

definition supported_stypes :: "string list" where
  "supported_stypes = [''ping'', ''tcp'', ''http'', ''dns'', ''http_keyword'', ''banner'']"

definition alpha :: "nat \<Rightarrow> real" where
  "alpha n = (if n < 50 then 1/10 else if n < 500 then 1/50 else 1/100)"

record anom_settings =
  as_cold_start_hours :: int
  as_global_enabled :: bool

text \<open>The band the sample is measured against: the deviation with its floors.\<close>

definition sigma_eff :: "real \<Rightarrow> real \<Rightarrow> real" where
  "sigma_eff mean var = max (sqrt (max 0 var)) (max 10 (1/5 * mean))"

definition z_score :: "real \<Rightarrow> real \<Rightarrow> real \<Rightarrow> real" where
  "z_score mean var x = (x - mean) / sigma_eff mean var"

definition outlier :: "real \<Rightarrow> real \<Rightarrow> real \<Rightarrow> real \<Rightarrow> bool" where
  "outlier k mean var x \<longleftrightarrow> x > mean \<and> z_score mean var x > k"

text \<open>The test without the square root, for evaluation.\<close>

lemma outlier_code [code]:
  "outlier k mean var x \<longleftrightarrow> x > mean
     \<and> (0 \<le> k \<longrightarrow> k * max 10 (1/5 * mean) < x - mean \<and> k\<^sup>2 * max 0 var < (x - mean)\<^sup>2)"
proof -
  define r where "r = sqrt (max 0 var)"
  define f where "f = max 10 (1/5 * mean)"
  have f: "0 < f" and r: "0 \<le> r" "r\<^sup>2 = max 0 var" by (simp_all add: f_def r_def)
  have "k < (x - mean) / max r f \<longleftrightarrow> k * max r f < x - mean"
    using f by (simp add: pos_less_divide_eq less_max_iff_disj)
  moreover have "k * max r f < x - mean \<longleftrightarrow> k * f < x - mean \<and> (k * r)\<^sup>2 < (x - mean)\<^sup>2"
    if k: "0 \<le> k" and x: "mean < x"
  proof -
    have "k * max r f = max (k * r) (k * f)" using k by (simp add: max_def mult_left_mono antisym not_le)
    moreover have "k * r < x - mean \<longleftrightarrow> (k * r)\<^sup>2 < (x - mean)\<^sup>2"
      using k x r(1) by (smt (verit) mult_nonneg_nonneg power2_less_imp_less power_strict_mono zero_less_numeral)
    ultimately show ?thesis by auto
  qed
  moreover have "k * max r f < x - mean" if "\<not> 0 \<le> k" "mean < x"
    using that f by (smt (verit) mult_neg_pos less_max_iff_disj)
  ultimately show ?thesis
    unfolding outlier_def z_score_def sigma_eff_def r_def [symmetric] f_def [symmetric]
    using r(2) by (auto simp: power_mult_distrib)
qed

text \<open>
  \<open>evaluate_anomaly\<close>: the new baseline and whether the verdict is \<open>"warn"\<close>. A baseline with a mean
  but no variance makes the source raise after the mean was updated; the handler answers \<open>"ok"\<close>.
\<close>

definition evaluate_anomaly ::
  "anom_settings \<Rightarrow> ts \<Rightarrow> sensor_cfg \<Rightarrow> real \<Rightarrow> anom_state \<Rightarrow> anom_state \<times> bool" where
  "evaluate_anomaly st now c x a0 =
     (let since = (case a_enabled_since a0 of None \<Rightarrow> now | Some t \<Rightarrow> t);
          a = a0\<lparr> a_enabled_since := Some since \<rparr>
      in case a_mean a of
           None \<Rightarrow> (a\<lparr> a_mean := Some x, a_var := Some 0, a_count := 1, a_dirty := True,
                       a_consec_fails := 0 \<rparr>, False)
         | Some m \<Rightarrow>
             (let al = alpha (a_count a); delta = x - m; m' = m + al * delta
              in case a_var a of
                   None \<Rightarrow> (a\<lparr> a_mean := Some m' \<rparr>, False)
                 | Some v \<Rightarrow>
                     (let v' = (1 - al) * (v + al * delta * delta);
                          n = a_count a + 1;
                          b = a\<lparr> a_mean := Some m', a_var := Some v', a_count := n, a_dirty := True \<rparr>;
                          quiet = (b\<lparr> a_consec_fails := 0 \<rparr>, False)
                      in if int n < int_or (c_anomaly_min_samples c) 50 then quiet
                         else if as_cold_start_hours st > 0
                                 \<and> now - since < of_int (as_cold_start_hours st * 3600) then quiet
                         else if \<not> as_global_enabled st then quiet
                         else if outlier (k_by_sensitivity (int_or (c_anomaly_sensitivity c) 2)) m' v' x
                              then (let f = a_consec_fails b + 1
                                    in (b\<lparr> a_consec_fails := f \<rparr>, 3 \<le> f))
                         else quiet)))"

definition reset_baseline :: "bool \<Rightarrow> ts \<Rightarrow> anom_state \<Rightarrow> anom_state" where
  "reset_baseline enabled now a =
     a\<lparr> a_mean := None, a_var := None, a_count := 0,
        a_enabled_since := (if enabled then Some now else None),
        a_consec_fails := 0, a_dirty := True \<rparr>"

section \<open>Laws\<close>

lemma alpha_bounds: "0 < alpha n" "alpha n < 1" "alpha n \<le> 1/10"
  by (simp_all add: alpha_def)

text \<open>A baseline is well formed when mean and variance come together and the variance is not negative.\<close>

definition anom_wf :: "anom_state \<Rightarrow> bool" where
  "anom_wf a \<longleftrightarrow> (a_mean a = None \<longleftrightarrow> a_var a = None) \<and> (\<forall>v. a_var a = Some v \<longrightarrow> 0 \<le> v)"

lemma anom_wf_init [simp]: "anom_wf init_anom"
  by (simp add: anom_wf_def init_anom_def)

lemma anom_wf_reset [simp]: "anom_wf (reset_baseline e now a)"
  by (simp add: anom_wf_def reset_baseline_def)

lemma ewma_var_nonneg: "0 \<le> v \<Longrightarrow> 0 \<le> (1 - alpha n) * (v + alpha n * d * d)"
proof -
  assume v: "0 \<le> v"
  have a: "0 \<le> alpha n" "0 \<le> 1 - alpha n" using alpha_bounds[of n] by auto
  have "0 \<le> alpha n * (d * d)" by (rule mult_nonneg_nonneg) (use a in auto)
  then have "0 \<le> v + alpha n * d * d" using v by (simp add: mult.assoc)
  with a show ?thesis by (simp add: mult_nonneg_nonneg)
qed

lemma evaluate_anomaly_wf:
  assumes "anom_wf a"
  shows "anom_wf (fst (evaluate_anomaly st now c x a))"
proof (cases "a_mean a")
  case None
  then show ?thesis by (simp add: evaluate_anomaly_def anom_wf_def)
next
  case (Some m)
  then obtain v where v: "a_var a = Some v" "0 \<le> v" using assms by (auto simp: anom_wf_def)
  have "0 \<le> (1 - alpha (a_count a)) * (v + alpha (a_count a) * (x - m) * (x - m))"
    by (rule ewma_var_nonneg) (rule v(2))
  then show ?thesis by (simp add: evaluate_anomaly_def Let_def Some v(1) anom_wf_def)
qed

text \<open>The mean moves towards the sample and never past it.\<close>

lemma ewma_mean_between:
  fixes m x :: real
  assumes "0 \<le> al" "al \<le> 1"
  shows "min m x \<le> m + al * (x - m)" and "m + al * (x - m) \<le> max m x"
proof -
  have e: "m + al * (x - m) = (1 - al) * m + al * x" by (simp add: algebra_simps)
  have "(1 - al) * min m x + al * min m x \<le> (1 - al) * m + al * x"
    by (intro add_mono mult_left_mono) (use assms in auto)
  then show "min m x \<le> m + al * (x - m)" unfolding e by (simp add: algebra_simps)
  have "(1 - al) * m + al * x \<le> (1 - al) * max m x + al * max m x"
    by (intro add_mono mult_left_mono) (use assms in auto)
  then show "m + al * (x - m) \<le> max m x" unfolding e by (simp add: algebra_simps)
qed

text \<open>
  The sample enters mean and variance before it is judged, so its own score is bounded by the
  learning rate: the square is at most \<open>(1 - alpha) / alpha\<close>.
\<close>

lemma z_score_self_bound:
  assumes v: "0 \<le> v" and al: "0 < al" "al < 1"
    and up: "m + al * d < m + d"
  shows "(z_score (m + al * d) ((1 - al) * (v + al * d * d)) (m + d))\<^sup>2 \<le> (1 - al) / al"
proof -
  let ?v = "(1 - al) * (v + al * d * d)"
  let ?m = "m + al * d"
  let ?s = "sigma_eff ?m ?v"
  have "0 < (1 - al) * d" using up by (simp add: algebra_simps)
  then have d: "0 < d" using al by (simp add: zero_less_mult_iff)
  have v': "(1 - al) * al * d\<^sup>2 \<le> ?v"
  proof -
    have "(1 - al) * (al * d\<^sup>2) \<le> (1 - al) * (v + al * d\<^sup>2)"
      by (intro mult_left_mono) (use v al in auto)
    then show ?thesis by (simp add: power2_eq_square mult.assoc)
  qed
  have pos: "0 < (1 - al) * al * d\<^sup>2" using al d by simp
  have s: "sqrt ?v \<le> ?s" "0 < ?s"
    using v' pos by (auto simp: sigma_eff_def max_def)
  have "(1 - al) * al * d\<^sup>2 \<le> (sqrt ?v)\<^sup>2" using v' pos by simp
  also have "\<dots> \<le> ?s\<^sup>2" using s v' pos by (intro power_mono) auto
  finally have s2: "(1 - al) * al * d\<^sup>2 \<le> ?s\<^sup>2" .
  have "(z_score ?m ?v (m + d))\<^sup>2 = ((1 - al) * d)\<^sup>2 / ?s\<^sup>2"
    by (simp add: z_score_def power_divide algebra_simps)
  also have "\<dots> \<le> ((1 - al) * d)\<^sup>2 / ((1 - al) * al * d\<^sup>2)"
    by (rule divide_left_mono [OF s2 _ mult_pos_pos]) (use pos s in auto)
  also have "\<dots> = (1 - al) / al"
    using al d by (simp add: power2_eq_square field_simps)
  finally show ?thesis .
qed

lemma k_ge_3: "3 \<le> k_by_sensitivity s"
  by (simp add: k_by_sensitivity_def)

text \<open>During the fast-learning phase no sample can pass the test, whatever the sensitivity.\<close>

lemma bootstrap_cannot_exceed:
  assumes "0 \<le> v" "n < 50"
    and "m + alpha n * (x - m) < x"
  shows "\<not> z_score (m + alpha n * (x - m)) ((1 - alpha n) * (v + alpha n * (x - m) * (x - m))) x
           > k_by_sensitivity s"
proof
  let ?z = "z_score (m + alpha n * (x - m)) ((1 - alpha n) * (v + alpha n * (x - m) * (x - m))) x"
  assume "k_by_sensitivity s < ?z"
  with k_ge_3[of s] have "3 < ?z" by simp
  then have "3\<^sup>2 < ?z\<^sup>2" by (intro power_strict_mono) auto
  moreover have "?z\<^sup>2 \<le> (1 - alpha n) / alpha n"
    using z_score_self_bound[of v "alpha n" m "x - m"] assms alpha_bounds[of n] by simp
  ultimately show False using assms(2) by (simp add: alpha_def)
qed

lemma evaluate_anomaly_bootstrap:
  assumes "anom_wf a" "a_count a < 50"
  shows "\<not> snd (evaluate_anomaly st now c x a)"
    and "a_mean a \<noteq> None \<Longrightarrow> a_consec_fails (fst (evaluate_anomaly st now c x a)) = 0"
proof -
  have main: "\<not> snd (evaluate_anomaly st now c x a)
      \<and> (a_mean a \<noteq> None \<longrightarrow> a_consec_fails (fst (evaluate_anomaly st now c x a)) = 0)"
  proof (cases "a_mean a")
    case None
    then show ?thesis by (simp add: evaluate_anomaly_def)
  next
    case (Some m)
    then obtain v where v: "a_var a = Some v" "0 \<le> v" using assms(1) by (auto simp: anom_wf_def)
    have "\<not> (m + alpha (a_count a) * (x - m) < x \<and>
        z_score (m + alpha (a_count a) * (x - m))
          ((1 - alpha (a_count a)) * (v + alpha (a_count a) * (x - m) * (x - m))) x
        > k_by_sensitivity (int_or (c_anomaly_sensitivity c) 2))"
      using bootstrap_cannot_exceed[OF v(2) assms(2)] by blast
    then show ?thesis by (auto simp: evaluate_anomaly_def outlier_def Let_def Some v(1))
  qed
  then show "\<not> snd (evaluate_anomaly st now c x a)"
    and "a_mean a \<noteq> None \<Longrightarrow> a_consec_fails (fst (evaluate_anomaly st now c x a)) = 0"
    by blast+
qed

text \<open>A warning is the third or later consecutive outlier, on an enabled, warmed-up baseline.\<close>

lemma evaluate_anomaly_warn:
  assumes "snd (evaluate_anomaly st now c x a)"
  shows "2 \<le> a_consec_fails a" and "as_global_enabled st"
    and "int_or (c_anomaly_min_samples c) 50 \<le> int (a_count a) + 1"
    and "a_consec_fails (fst (evaluate_anomaly st now c x a)) = a_consec_fails a + 1"
  using assms
  by (auto simp: evaluate_anomaly_def Let_def split: option.splits if_splits)

lemma evaluate_anomaly_step:
  "a_consec_fails (fst (evaluate_anomaly st now c x a)) \<le> a_consec_fails a + 1"
  by (auto simp: evaluate_anomaly_def Let_def split: option.splits)

end
