(* ===== verification/Threshold.thy ===== *)
theory Threshold
  imports Snmp Anomaly
begin

text \<open>
  The threshold verdict of one probe result (\<open>MonitorState._process_result\<close> in \<open>core/state.py\<close>):
  static limits, packet loss, the anomaly baseline and the certificate expiry, in the code's order.
\<close>

definition info_metrics :: "string list" where
  "info_metrics = [''uptime'', ''on'', ''disk_read'', ''disk_write'', ''disk_usage'']"

text \<open>The number compared with the limits: a rate, the displayed value or the latency.\<close>

definition rate_check :: "sensor_cfg \<Rightarrow> real \<Rightarrow> real" where
  "rate_check c r = (if c_snmp_unit c \<in> set byte_units \<or> c_snmp_unit c = [] then r * 8 / 1000000 else r)"

definition disp_float :: "value_disp option \<Rightarrow> real option" where
  "disp_float v = (case v of Some (VRaw t) \<Rightarrow> parse_float t | _ \<Rightarrow> None)"

definition typed_category :: "sensor \<Rightarrow> bool" where
  "typed_category s \<longleftrightarrow>
     snmp_category (c_snmp_unit (s_cfg s)) (n_type (s_snmp s)) (c_snmp_oid (s_cfg s))
       \<in> {EnumState, TimeDuration, TextValue}"

definition threshold_value :: "sensor \<Rightarrow> real option" where
  "threshold_value s =
     (let c = s_cfg s in
      if c_stype c = ''snmp'' then
        (if typed_category s then None
         else case s_last_rate s of
                Some r \<Rightarrow> Some (rate_check c r)
              | None \<Rightarrow> disp_float (s_last_value s))
      else if c_stype c = ''tls'' then
        (case s_last_rate s of
           Some r \<Rightarrow> Some (rate_check c r)
         | None \<Rightarrow> disp_float (s_last_value s))
      else if c_stype c = ''vmware'' \<and> c_vmware_metric c \<in> set info_metrics then None
      else s_last_ms s)"

text \<open>Metrics where lower is worse: days to expiry, free space.\<close>

definition inverted :: "sensor \<Rightarrow> bool" where
  "inverted s \<longleftrightarrow> (s_stype s = ''tls'' \<and> s_last_rate s = None)
     \<or> (s_stype s = ''vmware'' \<and> startswith ''dstore_'' (c_vmware_metric (s_cfg s)))"

text \<open>An unset or zero limit is off.\<close>

definition limit_hit :: "bool \<Rightarrow> real option \<Rightarrow> real \<Rightarrow> bool" where
  "limit_hit low limit x = (case limit of
       None \<Rightarrow> False
     | Some l \<Rightarrow> l \<noteq> 0 \<and> (if low then x \<le> l else x \<ge> l))"

definition static_thr :: "sensor \<Rightarrow> real \<Rightarrow> thr" where
  "static_thr s x =
     (if limit_hit (inverted s) (c_crit_ms (s_cfg s)) x then TCrit
      else if limit_hit (inverted s) (c_warn_ms (s_cfg s)) x then TWarn
      else TOk)"

definition value_thr :: "bool \<Rightarrow> sensor \<Rightarrow> thr" where
  "value_thr ok s =
     (if \<not> ok then TOk
      else if s_stype s = ''snmp'' \<and> typed_category s then s_threshold_state s
      else case threshold_value s of None \<Rightarrow> TOk | Some x \<Rightarrow> static_thr s x)"

definition loss_thr :: "sensor \<Rightarrow> thr \<Rightarrow> thr" where
  "loss_thr s t =
     (let c = s_cfg s in
      if c_loss_crit_pct c \<noteq> 0 \<and> loss_pct s \<ge> c_loss_crit_pct c then TCrit
      else if c_loss_warn_pct c \<noteq> 0 \<and> loss_pct s \<ge> c_loss_warn_pct c
           then (if t \<noteq> TCrit then TWarn else t)
      else t)"

definition anomaly_thr :: "anom_settings \<Rightarrow> ts \<Rightarrow> bool \<Rightarrow> sensor \<Rightarrow> thr \<Rightarrow> sensor \<times> thr" where
  "anomaly_thr st now ok s t =
     (let s0 = s\<lparr> s_anom_caused_warn := False \<rparr> in
      case s_last_ms s0 of
        Some x \<Rightarrow>
          (if c_anomaly_enabled (s_cfg s0) \<and> ok \<and> t = TOk \<and> s_stype s0 \<in> set supported_stypes
           then (let (a, w) = evaluate_anomaly st now (s_cfg s0) x (s_anom s0)
                 in if w then (s0\<lparr> s_anom := a, s_anom_caused_warn := True \<rparr>, TWarn)
                    else (s0\<lparr> s_anom := a \<rparr>, t))
           else (s0, t))
      | None \<Rightarrow> (s0, t))"

definition cert_sev :: "sensor_cfg \<Rightarrow> int \<Rightarrow> thr" where
  "cert_sev c d =
     (if c_cert_crit_days c \<noteq> 0 \<and> d \<le> c_cert_crit_days c then TCrit
      else if c_cert_warn_days c \<noteq> 0 \<and> d \<le> c_cert_warn_days c then TWarn
      else TOk)"

definition cert_thr :: "bool \<Rightarrow> sensor \<Rightarrow> thr \<Rightarrow> sensor \<times> thr" where
  "cert_thr ok s t =
     (let s0 = s\<lparr> s_cert_caused_thr := False \<rparr> in
      case s_cert_days s0 of
        Some d \<Rightarrow>
          (if s_stype s0 = ''http'' \<and> ok \<and> thr_rank (cert_sev (s_cfg s0) d) > thr_rank t
           then (s0\<lparr> s_cert_caused_thr := True \<rparr>, cert_sev (s_cfg s0) d)
           else (s0, t))
      | None \<Rightarrow> (s0, t))"

definition threshold_eval :: "anom_settings \<Rightarrow> ts \<Rightarrow> bool \<Rightarrow> sensor \<Rightarrow> sensor \<times> thr" where
  "threshold_eval st now ok s =
     (let t1 = loss_thr s (value_thr ok s);
          (s2, t2) = anomaly_thr st now ok s t1
      in cert_thr ok s2 t2)"

section \<open>Laws\<close>

text \<open>Each later source of a verdict can only make it worse.\<close>

lemma loss_thr_ge: "t \<le> loss_thr s t"
  by (cases t) (auto simp: loss_thr_def Let_def less_eq_thr_def)

lemma anomaly_thr_ge: "t \<le> snd (anomaly_thr st now ok s t)"
  by (cases t) (auto simp: anomaly_thr_def Let_def less_eq_thr_def split: option.splits prod.splits)

lemma anomaly_thr_cases: "snd (anomaly_thr st now ok s t) = t \<or>
   (t = TOk \<and> snd (anomaly_thr st now ok s t) = TWarn)"
  by (auto simp: anomaly_thr_def Let_def split: option.splits prod.splits)

lemma cert_thr_ge: "t \<le> snd (cert_thr ok s t)"
  by (auto simp: cert_thr_def Let_def less_eq_thr_def split: option.splits)

lemma threshold_eval_ge: "loss_thr s (value_thr ok s) \<le> snd (threshold_eval st now ok s)"
proof -
  let ?t1 = "loss_thr s (value_thr ok s)"
  let ?p = "anomaly_thr st now ok s ?t1"
  have "?t1 \<le> snd ?p" by (rule anomaly_thr_ge)
  also have "\<dots> \<le> snd (cert_thr ok (fst ?p) (snd ?p))" by (rule cert_thr_ge)
  finally show ?thesis by (simp add: threshold_eval_def Let_def split_beta)
qed

text \<open>What the evaluation writes: the baseline and the two attribution flags only.\<close>

lemma threshold_eval_frame [frame_simps]:
  "s_cfg (fst (threshold_eval st now ok s)) = s_cfg s"
  "s_alive (fst (threshold_eval st now ok s)) = s_alive s"
  "s_running (fst (threshold_eval st now ok s)) = s_running s"
  "s_threshold_state (fst (threshold_eval st now ok s)) = s_threshold_state s"
  "s_alerted_down (fst (threshold_eval st now ok s)) = s_alerted_down s"
  "s_down_since_ts (fst (threshold_eval st now ok s)) = s_down_since_ts s"
  "s_threshold_triggered_ts (fst (threshold_eval st now ok s)) = s_threshold_triggered_ts s"
  "s_consec_fail (fst (threshold_eval st now ok s)) = s_consec_fail s"
  "s_consec_ok (fst (threshold_eval st now ok s)) = s_consec_ok s"
  "s_total (fst (threshold_eval st now ok s)) = s_total s"
  "s_success (fst (threshold_eval st now ok s)) = s_success s"
  "s_history (fst (threshold_eval st now ok s)) = s_history s"
  "s_thr_history (fst (threshold_eval st now ok s)) = s_thr_history s"
  "s_device_id (fst (threshold_eval st now ok s)) = s_device_id s"
  "s_sensor_id (fst (threshold_eval st now ok s)) = s_sensor_id s"
  "s_snmp (fst (threshold_eval st now ok s)) = s_snmp s"
  "s_ack_by (fst (threshold_eval st now ok s)) = s_ack_by s"
  by (auto simp: threshold_eval_def anomaly_thr_def cert_thr_def Let_def split: option.splits prod.splits)

text \<open>A failed probe carries no value: only packet loss can put it above ok.\<close>

lemma threshold_eval_fail: "snd (threshold_eval st now False s) = loss_thr s TOk"
  by (auto simp: threshold_eval_def anomaly_thr_def cert_thr_def value_thr_def Let_def
      split: option.splits)

text \<open>
  The specification of the verdict of a successful probe without anomaly detection: the worst of
  the value, the loss and (for http) the certificate.
\<close>

definition loss_sev :: "sensor \<Rightarrow> thr" where
  "loss_sev s =
     (let c = s_cfg s in
      if c_loss_crit_pct c \<noteq> 0 \<and> loss_pct s \<ge> c_loss_crit_pct c then TCrit
      else if c_loss_warn_pct c \<noteq> 0 \<and> loss_pct s \<ge> c_loss_warn_pct c then TWarn else TOk)"

definition cert_sev_of :: "sensor \<Rightarrow> thr" where
  "cert_sev_of s = (if s_stype s = ''http'' then
     (case s_cert_days s of Some d \<Rightarrow> cert_sev (s_cfg s) d | None \<Rightarrow> TOk) else TOk)"

lemma loss_thr_max: "loss_thr s t = max t (loss_sev s)"
  by (cases t) (auto simp: loss_thr_def loss_sev_def Let_def max_def less_eq_thr_def)

lemma cert_thr_max: "snd (cert_thr True s t) = max t (cert_sev_of s)"
proof -
  have "max t x = (if thr_rank t < thr_rank x then x else t)" for x
    by (simp only: max_def less_eq_thr_def thr_rank_max)
  then show ?thesis
    by (cases "s_cert_days s") (simp_all add: cert_thr_def cert_sev_of_def Let_def)
qed

lemma threshold_eval_worst_of:
  assumes "\<not> c_anomaly_enabled (s_cfg s)"
  shows "snd (threshold_eval st now True s) = max (max (value_thr True s) (loss_sev s)) (cert_sev_of s)"
proof -
  let ?t = "loss_thr s (value_thr True s)"
  have a: "anomaly_thr st now True s ?t = (s\<lparr> s_anom_caused_warn := False \<rparr>, ?t)"
    using assms by (auto simp: anomaly_thr_def Let_def split: option.splits)
  have "cert_sev_of (s\<lparr> s_anom_caused_warn := False \<rparr>) = cert_sev_of s"
    by (cases "s_cert_days s") (simp_all add: cert_sev_of_def)
  then show ?thesis
    by (simp only: threshold_eval_def Let_def a prod.case cert_thr_max) (simp only: loss_thr_max)
qed

end
