(* ===== verification/Cycle.thy ===== *)
theory Cycle
  imports Typed Grace Threshold
begin

text \<open>
  The steps of one probe cycle (\<open>MonitorState._process_result\<close> in \<open>core/state.py\<close>) after the
  guards: the success branch with its debounce, the failure branch, and the threshold transition.
  Each step is a function on \<open>pstate\<close>; \<open>cycle_body\<close> composes them in the code's order.
\<close>

section \<open>Success\<close>

definition success_values :: "source \<Rightarrow> probe_result \<Rightarrow> ts \<Rightarrow> pstate \<Rightarrow> pstate" where
  "success_values src r now p =
     (let p1 = (if s_alive (p_s p) \<noteq> Some True then upd_dev invalidate_status p else p)
      in upd_s (\<lambda>s. value_update src r now
           (s\<lparr> s_success := s_success s + 1, s_alive := Some True, s_last_ms := r_ms r,
               s_last_detail := r_detail r \<rparr>)) p1)"

text \<open>The recovery: the incident ends after \<open>recover_after\<close> consecutive successes.\<close>

definition recovered_flap :: "ts \<Rightarrow> pstate \<Rightarrow> flap" where
  "recovered_flap now p =
     (base_flap (p_dev p) (p_s p) now)\<lparr>
        f_detail := DRecovered, f_direction := ''recovered'', f_consec_count := s_consec_ok (p_s p),
        f_duration_s := map_option (\<lambda>t. py_int (now - t)) (s_down_since_ts (p_s p)) \<rparr>"

definition end_incident :: "sensor \<Rightarrow> sensor" where
  "end_incident s =
     (let s1 = s\<lparr> s_down_since_ts := None, s_alerted_down := False \<rparr>;
          s2 = (if s_threshold_state s1 = TOk then s1\<lparr> s_ack_by := [], s_ack_at := 0 \<rparr> else s1)
      in s2\<lparr> s_recovery_pending := True, s_consec_ok := 0 \<rparr>)"

definition recover :: "bool \<Rightarrow> ts \<Rightarrow> pstate \<Rightarrow> pstate" where
  "recover muted now p =
     (let f = recovered_flap now p;
          p1 = (if muted then p
                else let (m, e) = grace_unpark_down (f_did f) (f_sid f) (p_parked p);
                         p0 = p\<lparr> p_parked := m \<rparr>;
                         p2 = (if e \<noteq> None then p0 else emit [EFlap ''flap_recovered'' f] p0)
                     in emit [EAutoResolve (f_did f) (f_sid f) (f_ts f) [''down'']] p2)
      in upd_s end_incident p1)"

definition success_debounce :: "bool \<Rightarrow> probe_result \<Rightarrow> ts \<Rightarrow> pstate \<Rightarrow> pstate" where
  "success_debounce muted r now p =
     (let p1 = upd_s (\<lambda>s. s\<lparr> s_history := deque_append (s_history s) (r_ms r), s_consec_fail := 0,
                             s_consec_ok := s_consec_ok s + 1 \<rparr>) p;
          s = p_s p1
      in if s_alerted_down s \<and> c_recover_after (s_cfg s) \<le> int (s_consec_ok s)
         then recover muted now p1
         else if s_recovery_pending s \<and> \<not> muted \<and> 60 \<le> s_consec_ok s
         then upd_s (\<lambda>s. s\<lparr> s_recovery_pending := False \<rparr>) p1
         else p1)"

definition success_step :: "bool \<Rightarrow> source \<Rightarrow> probe_result \<Rightarrow> ts \<Rightarrow> pstate \<Rightarrow> pstate" where
  "success_step muted src r now p =
     success_debounce muted r now (typed_step muted r now (success_values src r now p))"

section \<open>Failure\<close>

definition fail_values :: "probe_result \<Rightarrow> ts \<Rightarrow> pstate \<Rightarrow> pstate" where
  "fail_values r now p =
     (let p1 = (if s_alive (p_s p) \<noteq> Some False then upd_dev invalidate_status p else p);
          p2 = upd_s (\<lambda>s. s\<lparr> s_alive := Some False, s_last_ms := None, s_last_detail := r_detail r,
                 s_last_value := None, s_snmp := (s_snmp s)\<lparr> n_last_rate := None \<rparr>,
                 s_history := deque_append (s_history s) None,
                 s_consec_ok := 0, s_consec_fail := s_consec_fail s + 1,
                 s_recovery_pending := False \<rparr>) p1
      in emit [ELog (d_device_id (p_dev p)) (s_sensor_id (p_s p)) (VRaw (r_detail r)) ''err'',
               ELogErr (d_device_id (p_dev p)) (s_sensor_id (p_s p)) (r_detail r) \<lfloor>now\<rfloor>] p2)"

definition down_flap :: "probe_result \<Rightarrow> ts \<Rightarrow> pstate \<Rightarrow> flap" where
  "down_flap r now p =
     (base_flap (p_dev p) (p_s p) now)\<lparr>
        f_detail := DText (r_detail r), f_direction := ''down'',
        f_consec_count := s_consec_fail (p_s p) \<rparr>"

definition go_down :: "bool \<Rightarrow> probe_result \<Rightarrow> ts \<Rightarrow> pstate \<Rightarrow> pstate" where
  "go_down muted r now p =
     (let f = down_flap r now p;
          p1 = (if muted then p
                else if p_in_grace p
                then p\<lparr> p_parked := grace_park_down (f_did f) (f_sid f)
                          \<lparr> pd_flap = f, pd_webhook = d_webhook_url (p_dev p) \<rparr> (p_parked p) \<rparr>
                else emit ([EFlap ''flap_down'' f, ELogFlap f] @ webhook_for p f) p)
      in upd_s (\<lambda>s. s\<lparr> s_alerted_down := True, s_down_since_ts := Some now \<rparr>) p1)"

definition fail_step :: "bool \<Rightarrow> probe_result \<Rightarrow> ts \<Rightarrow> pstate \<Rightarrow> pstate" where
  "fail_step muted r now p =
     (let p1 = fail_values r now p; s = p_s p1
      in if \<not> s_alerted_down s \<and> c_fail_after (s_cfg s) \<le> int (s_consec_fail s)
         then go_down muted r now p1 else p1)"

section \<open>Threshold transition\<close>

definition thr_event :: "thr \<Rightarrow> string" where
  "thr_event t = (if t = TCrit then ''threshold_critical'' else ''threshold_warning'')"

definition thr_dir :: "thr \<Rightarrow> string" where
  "thr_dir t = (if t = TCrit then ''threshold_crit'' else ''threshold_warn'')"

definition flap_dir_of :: "thr \<Rightarrow> sensor \<Rightarrow> string" where
  "flap_dir_of t s = (if t = TCrit then ''threshold_crit''
     else if s_anom_caused_warn s then ''anomaly_warn'' else ''threshold_warn'')"

definition thr_detail :: "thr \<Rightarrow> sensor \<Rightarrow> detail" where
  "thr_detail t s =
     (if s_cert_caused_thr s
      then (case s_cert_days s of
              Some d \<Rightarrow> if 0 \<le> d then DCertExpires d else DCertExpired \<bar>d\<bar>
            | None \<Rightarrow> DThresholdValue t)
      else if s_anom_caused_warn s
      then (case s_last_ms s of Some x \<Rightarrow> DAnomaly x | None \<Rightarrow> DThresholdValue t)
      else DThresholdValue t)"

definition thr_flap :: "thr \<Rightarrow> ts \<Rightarrow> pstate \<Rightarrow> flap" where
  "thr_flap t now p =
     (base_flap (p_dev p) (p_s p) now)\<lparr>
        f_detail := thr_detail t (p_s p), f_direction := flap_dir_of t (p_s p), f_state := Some t \<rparr>"

text \<open>Into or between warn and crit: park in the grace window, otherwise emit and close the old row.\<close>

definition thr_worse :: "thr \<Rightarrow> thr \<Rightarrow> ts \<Rightarrow> pstate \<Rightarrow> pstate" where
  "thr_worse prev t now p =
     (let p1 = upd_s (\<lambda>s. s\<lparr> s_threshold_recovery_pending := False,
                             s_threshold_triggered_ts := Some now \<rparr>) p;
          f = thr_flap t now p1;
          resolve_prev = (if prev \<noteq> TOk then Some (f_ts f, thr_dir prev) else None)
      in if p_in_grace p1
         then p1\<lparr> p_parked := grace_park_thr (f_did f) (f_sid f)
                    \<lparr> pt_state = t, pt_evt = thr_event t, pt_flap = f,
                      pt_resolve_prev = resolve_prev \<rparr> (p_parked p1) \<rparr>
         else emit ([EFlap (thr_event t) (evt_data f), ELogFlap f]
                    @ (case resolve_prev of
                         Some (u, dir) \<Rightarrow> [EAutoResolve (f_did f) (f_sid f) u [dir]]
                       | None \<Rightarrow> [])) p1)"

definition thr_ok_flap :: "thr \<Rightarrow> ts \<Rightarrow> pstate \<Rightarrow> flap" where
  "thr_ok_flap prev now p =
     (base_flap (p_dev p) (p_s p) now)\<lparr>
        f_detail := DThresholdRecovered prev, f_state := Some TOk,
        f_duration_s := map_option (\<lambda>t. py_int (now - t)) (s_threshold_triggered_ts (p_s p)) \<rparr>"

definition thr_recovered :: "thr \<Rightarrow> ts \<Rightarrow> pstate \<Rightarrow> pstate" where
  "thr_recovered prev now p =
     (let f = thr_ok_flap prev now p;
          p1 = upd_s (\<lambda>s. let s1 = s\<lparr> s_threshold_recovery_pending := True,
                                       s_threshold_triggered_ts := None \<rparr>
                            in if \<not> s_alerted_down s1 then s1\<lparr> s_ack_by := [], s_ack_at := 0 \<rparr> else s1) p;
          (m, e) = grace_unpark_thr (f_did f) (f_sid f) (p_parked p1);
          p2 = p1\<lparr> p_parked := m \<rparr>;
          p3 = (if e \<noteq> None then p2 else emit [EFlap ''threshold_ok'' f] p2)
      in emit [EAutoResolve (f_did f) (f_sid f) (f_ts f) [''threshold_warn'', ''threshold_crit'']] p3)"

definition thr_transition :: "bool \<Rightarrow> thr \<Rightarrow> ts \<Rightarrow> pstate \<Rightarrow> pstate" where
  "thr_transition muted t now p =
     (let prev = s_threshold_state (p_s p)
      in if t \<noteq> prev
         then let p1 = upd_dev invalidate_status
                         (upd_s (\<lambda>s. s\<lparr> s_threshold_state := t, s_consec_threshold := 1 \<rparr>) p)
              in if muted then p1
                 else if t \<noteq> TOk then thr_worse prev t now p1
                 else thr_recovered prev now p1
         else upd_s (\<lambda>s. let s1 = s\<lparr> s_consec_threshold := s_consec_threshold s + 1 \<rparr>
                         in if s_threshold_state s1 = TOk \<and> s_threshold_recovery_pending s1
                               \<and> 60 \<le> s_consec_threshold s1
                            then s1\<lparr> s_threshold_recovery_pending := False \<rparr> else s1) p)"

section \<open>The body of a cycle\<close>

definition sample_effect :: "pstate \<Rightarrow> probe_result \<Rightarrow> ts \<Rightarrow> effect" where
  "sample_effect p r now = ESample (d_device_id (p_dev p)) (s_sensor_id (p_s p)) (r_ok r) (r_ms r)
     (r_value r) now (s_last_rate (p_s p))"

definition start_cycle :: "probe_result \<Rightarrow> pstate \<Rightarrow> pstate" where
  "start_cycle r p =
     (let p0 = (if s_total (p_s p) = 0
                then emit [ELog (d_device_id (p_dev p)) (s_sensor_id (p_s p)) (VRaw ''[START]'') ''info''] p else p)
      in upd_s (\<lambda>s. s\<lparr> s_total := s_total s + 1, s_cert_days := r_cert_days r \<rparr>) p0)"

definition cycle_body :: "anom_settings \<Rightarrow> bool \<Rightarrow> source \<Rightarrow> probe_result \<Rightarrow> ts \<Rightarrow> ts \<Rightarrow> pstate \<Rightarrow> pstate" where
  "cycle_body st muted src r now clock p =
     (let p1 = start_cycle r p;
          p2 = (if r_ok r then success_step muted src r now p1 else fail_step muted r now p1);
          p3 = emit [sample_effect p2 r now] p2;
          (s4, t) = threshold_eval st clock (r_ok r) (p_s p3)
      in thr_transition muted t now (p3\<lparr> p_s := s4 \<rparr>))"

end
