(* ===== verification/AlertStore.thy ===== *)
theory AlertStore
  imports Devices
begin

text \<open>
  The persistent state of the alert engine: the per-stage fire history (\<open>alert_profile_state\<close> in
  \<open>db/alert_profiles.py\<close>), in its SQLite and its PostgreSQL form. A table is the list of its rows; a
  call that the database answers with an error is not modelled.
\<close>

section \<open>Stage fire history\<close>

record stage_state =
  st_first_fire_ts :: ts
  st_last_fire_ts :: ts
  st_fire_count :: nat
  st_active_session :: string

type_synonym stage_table = "(string, stage_state) dict"

datatype backend = SQLite | PG

definition sig :: "int \<Rightarrow> did \<Rightarrow> sid \<Rightarrow> string" where
  "sig stage_id did sid = str_of_int stage_id @ '':'' @ did @ '':'' @ sid"

definition db_get_stage_state :: "stage_table \<Rightarrow> string \<Rightarrow> stage_state option" where
  "db_get_stage_state t k = dget t k"

text \<open>
  Upsert. On a session change the two backends differ: SQLite restarts the count at one,
  PostgreSQL keeps counting.
\<close>

definition record_row :: "backend \<Rightarrow> ts \<Rightarrow> string \<Rightarrow> stage_state option \<Rightarrow> stage_state" where
  "record_row b now session old =
     (case old of
        None \<Rightarrow> \<lparr> st_first_fire_ts = now, st_last_fire_ts = now, st_fire_count = 1,
                  st_active_session = session \<rparr>
      | Some r \<Rightarrow>
          (let same = (st_active_session r = session)
           in \<lparr> st_first_fire_ts = (if same then st_first_fire_ts r else now),
                st_last_fire_ts = now,
                st_fire_count = (case b of
                     SQLite \<Rightarrow> if same then st_fire_count r + 1 else 1
                   | PG \<Rightarrow> st_fire_count r + 1),
                st_active_session = session \<rparr>))"

definition db_record_stage_fire :: "backend \<Rightarrow> ts \<Rightarrow> string \<Rightarrow> string \<Rightarrow> stage_table \<Rightarrow> stage_table" where
  "db_record_stage_fire b now k session t = dput k (record_row b now session (dget t k)) t"

text \<open>
  \<open>DELETE ... WHERE sig LIKE '%:did:sid'\<close>: identifiers hold no wildcard and no upper-case letter,
  so the pattern is a suffix test.
\<close>

definition ends_with :: "string \<Rightarrow> string \<Rightarrow> bool" where
  "ends_with suf t \<longleftrightarrow> length suf \<le> length t \<and> drop (length t - length suf) t = suf"

definition like_suffix :: "did \<Rightarrow> sid \<Rightarrow> string" where
  "like_suffix did sid = CHR '':'' # did @ CHR '':'' # sid"

definition db_clear_stage_state_for_sensor :: "did \<Rightarrow> sid \<Rightarrow> stage_table \<Rightarrow> stage_table" where
  "db_clear_stage_state_for_sensor did sid t =
     filter (\<lambda>(k, _). \<not> ends_with (like_suffix did sid) k) t"

text \<open>The interface the engine programs against.\<close>

locale stage_store =
  fixes get :: "'m \<Rightarrow> string \<Rightarrow> stage_state option"
    and fire :: "ts \<Rightarrow> string \<Rightarrow> string \<Rightarrow> 'm \<Rightarrow> 'm"
  assumes get_fire_other: "j \<noteq> k \<Longrightarrow> get (fire now k session m) j = get m j"
    and get_fire_same: "\<exists>r. get (fire now k session m) k = Some r \<and> st_active_session r = session
           \<and> st_last_fire_ts r = now \<and> 0 < st_fire_count r"
begin

lemma fired_present: "get (fire now k session m) k \<noteq> None"
  using get_fire_same [of now k session m] by auto

lemma fired_session:
  "get (fire now k session m) k = Some r \<Longrightarrow> st_active_session r = session \<and> st_last_fire_ts r = now"
  using get_fire_same [of now k session m] by auto

lemma fired_count: "get (fire now k session m) k = Some r \<Longrightarrow> 0 < st_fire_count r"
  using get_fire_same [of now k session m] by auto

text \<open>Having fired is remembered: no later fire of any stage takes it back.\<close>

lemma fired_persists:
  assumes "\<exists>r. get m k = Some r \<and> 0 < st_fire_count r"
  shows "\<exists>r. get (fire now j session m) k = Some r \<and> 0 < st_fire_count r"
  using assms get_fire_other get_fire_same by (cases "j = k") (metis, metis)

end

interpretation lite: stage_store db_get_stage_state "db_record_stage_fire SQLite"
  by unfold_locales
    (auto simp: db_get_stage_state_def db_record_stage_fire_def record_row_def dict_simps Let_def
      split: option.splits)

interpretation pg: stage_store db_get_stage_state "db_record_stage_fire PG"
  by unfold_locales
    (auto simp: db_get_stage_state_def db_record_stage_fire_def record_row_def dict_simps Let_def
      split: option.splits)

lemma stage_store_backend: "stage_store db_get_stage_state (db_record_stage_fire b)"
  by (cases b) (simp_all add: lite.stage_store_axioms pg.stage_store_axioms)

text \<open>Signatures of different sensors never collide and the suffix test hits one sensor only.\<close>

definition plain_id :: "string \<Rightarrow> bool" where
  "plain_id t \<longleftrightarrow> CHR '':'' \<notin> set t"

lemma colon_split:
  assumes "CHR '':'' \<notin> set a" "CHR '':'' \<notin> set b" "a @ CHR '':'' # x = b @ CHR '':'' # y"
  shows "a = b \<and> x = y"
proof -
  have "takeWhile (\<lambda>c. c \<noteq> CHR '':'') (a @ CHR '':'' # x) = a"
    using assms(1) by (induction a) auto
  moreover have "takeWhile (\<lambda>c. c \<noteq> CHR '':'') (b @ CHR '':'' # y) = b"
    using assms(2) by (induction b) auto
  ultimately have "a = b" using assms(3) by simp
  with assms(3) show ?thesis by simp
qed

lemma ends_with_iff: "ends_with suf t \<longleftrightarrow> (\<exists>p. t = p @ suf)"
proof
  assume "ends_with suf t"
  then have "t = take (length t - length suf) t @ suf"
    unfolding ends_with_def by (metis append_take_drop_id)
  then show "\<exists>p. t = p @ suf" by blast
qed (auto simp: ends_with_def)

lemma colon_suffix:
  assumes "plain_id d" "plain_id s" "plain_id d'" "plain_id s'"
  shows "ends_with (like_suffix d s) (sig n d' s') \<longleftrightarrow> d' = d \<and> s' = s"
proof
  assume "ends_with (like_suffix d s) (sig n d' s')"
  then obtain p where p: "sig n d' s' = p @ like_suffix d s" by (auto simp: ends_with_iff)
  then have "rev (sig n d' s') = rev (p @ like_suffix d s)" by simp
  then have r: "rev s' @ CHR '':'' # (rev d' @ CHR '':'' # rev (str_of_int n))
      = rev s @ CHR '':'' # (rev d @ CHR '':'' # rev p)"
    by (simp add: sig_def like_suffix_def)
  have 1: "rev s' = rev s \<and> rev d' @ CHR '':'' # rev (str_of_int n) = rev d @ CHR '':'' # rev p"
    by (rule colon_split [OF _ _ r]) (use assms in \<open>auto simp: plain_id_def\<close>)
  have 2: "rev d' = rev d \<and> rev (str_of_int n) = rev p"
    by (rule colon_split [OF _ _ conjunct2 [OF 1]]) (use assms in \<open>auto simp: plain_id_def\<close>)
  from 1 2 show "d' = d \<and> s' = s" by simp
next
  assume "d' = d \<and> s' = s"
  then show "ends_with (like_suffix d s) (sig n d' s')"
    by (auto simp: ends_with_iff sig_def like_suffix_def)
qed

lemma str_of_int_plain: "plain_id (str_of_int n)"
proof -
  have "CHR '':'' \<notin> set (str_of_nat k)" for k
    using str_of_nat_digits[of k] by (auto simp: list_all_iff is_digit_def)
  then show ?thesis by (simp add: plain_id_def str_of_int_def)
qed

lemma sig_inj:
  assumes "sig n d s = sig n' d' s'" "plain_id d" "plain_id d'"
  shows "n = n' \<and> d = d' \<and> s = s'"
proof -
  have 1: "str_of_int n = str_of_int n' \<and> d @ CHR '':'' # s = d' @ CHR '':'' # s'"
    by (rule colon_split) (use assms str_of_int_plain in \<open>auto simp: plain_id_def sig_def\<close>)
  have 2: "d = d' \<and> s = s'"
    by (rule colon_split [OF _ _ conjunct2 [OF 1]]) (use assms in \<open>auto simp: plain_id_def\<close>)
  from 1 2 show ?thesis by (simp add: str_of_int_inj)
qed

lemma get_clear:
  assumes "plain_id d" "plain_id s" "plain_id d'" "plain_id s'"
  shows "db_get_stage_state (db_clear_stage_state_for_sensor d s t) (sig n d' s')
       = (if d' = d \<and> s' = s then None else db_get_stage_state t (sig n d' s'))"
proof -
  have "db_get_stage_state (db_clear_stage_state_for_sensor d s t) (sig n d' s')
      = (if \<not> ends_with (like_suffix d s) (sig n d' s') then dget t (sig n d' s') else None)"
    unfolding db_get_stage_state_def db_clear_stage_state_for_sensor_def
    by (rule map_of_filter_key)
  then show ?thesis by (simp add: colon_suffix [OF assms] db_get_stage_state_def)
qed

end
