(* ===== verification/Cascade.thy ===== *)
theory Cascade
  imports Devices
begin

text \<open>
  Alert profiles and their resolution: the profile tables (\<open>db/alert_profiles.py\<close>), the cascade
  sensor, device, group, site, global with its two caches (\<open>resolve_profiles_for_sensor\<close> in
  \<open>monitoring/alert_profile_engine.py\<close>) and the version bump that invalidates them
  (\<open>routes/alert_profiles.py\<close>).
\<close>

section \<open>Profiles\<close>

datatype trig = TrigDown | TrigWarning | TrigDownRecovered | TrigWarningRecovered

record stage =
  sg_id :: int
  sg_trigger_state :: trig
  sg_delay_s :: int
  sg_repeat_min :: int
  sg_action_ids :: "int list"
  sg_sort_order :: nat

record profile =
  pf_id :: int
  pf_name :: string
  pf_scope_type :: string
  pf_scope_value :: string
  pf_enabled :: bool
  pf_exclusive :: bool
  pf_stages :: "stage list"

record profile_db =
  db_profiles :: "profile list"
  db_next_profile :: int
  db_next_stage :: int

definition db_get_profile_for_scope :: "string \<Rightarrow> string \<Rightarrow> profile_db \<Rightarrow> profile option" where
  "db_get_profile_for_scope typ val db =
     (if typ = ''global'' then find (\<lambda>p. pf_scope_type p = ''global'') (db_profiles db)
      else find (\<lambda>p. pf_scope_type p = typ \<and> pf_scope_value p = val) (db_profiles db))"

text \<open>A stage as the editor submits it; \<open>None\<close> is a trigger outside the four known ones.\<close>

record stage_in =
  si_trigger_state :: "trig option"
  si_delay_s :: int
  si_repeat_min :: int
  si_action_ids :: "int list"

text \<open>\<open>_write_stages\<close>: unknown triggers and stages without actions are skipped, ids are fresh.\<close>

fun write_stages :: "nat \<Rightarrow> int \<Rightarrow> stage_in list \<Rightarrow> stage list \<times> int" where
  "write_stages i n [] = ([], n)"
| "write_stages i n (s # ss) =
     (case si_trigger_state s of
        None \<Rightarrow> write_stages (i + 1) n ss
      | Some trig \<Rightarrow>
          if si_action_ids s = [] then write_stages (i + 1) n ss
          else let (rest, n') = write_stages (i + 1) (n + 1) ss
               in (\<lparr> sg_id = n, sg_trigger_state = trig, sg_delay_s = si_delay_s s,
                     sg_repeat_min = si_repeat_min s, sg_action_ids = si_action_ids s,
                     sg_sort_order = i \<rparr> # rest, n'))"

record profile_in =
  pi_name :: string
  pi_scope_type :: string
  pi_scope_value :: string
  pi_enabled :: bool
  pi_exclusive :: bool
  pi_stages :: "stage_in list"

definition mk_profile :: "int \<Rightarrow> profile_in \<Rightarrow> stage list \<Rightarrow> profile" where
  "mk_profile pid d sts =
     (let nm = strip (pi_name d); typ = (if pi_scope_type d = [] then ''global'' else pi_scope_type d)
      in \<lparr> pf_id = pid, pf_name = (if nm = [] then ''Unnamed'' else nm), pf_scope_type = typ,
           pf_scope_value = (if typ = ''global'' then [] else pi_scope_value d),
           pf_enabled = pi_enabled d, pf_exclusive = pi_exclusive d, pf_stages = sts \<rparr>)"

definition db_save_profile :: "profile_in \<Rightarrow> int option \<Rightarrow> profile_db \<Rightarrow> profile_db \<times> int" where
  "db_save_profile d pid db =
     (let (sts, n) = write_stages 0 (db_next_stage db) (pi_stages d)
      in case pid of
           Some i \<Rightarrow>
             (db\<lparr> db_profiles := map (\<lambda>p. if pf_id p = i then mk_profile i d sts else p) (db_profiles db),
                  db_next_stage := n \<rparr>, i)
         | None \<Rightarrow>
             (db\<lparr> db_profiles := db_profiles db @ [mk_profile (db_next_profile db) d sts],
                  db_next_profile := db_next_profile db + 1, db_next_stage := n \<rparr>,
              db_next_profile db))"

definition db_delete_profile :: "int \<Rightarrow> profile_db \<Rightarrow> profile_db" where
  "db_delete_profile i db = db\<lparr> db_profiles := filter (\<lambda>p. pf_id p \<noteq> i) (db_profiles db) \<rparr>"

definition db_set_profile_enabled :: "int \<Rightarrow> bool \<Rightarrow> profile_db \<Rightarrow> profile_db" where
  "db_set_profile_enabled i b db =
     db\<lparr> db_profiles := map (\<lambda>p. if pf_id p = i then p\<lparr> pf_enabled := b \<rparr> else p) (db_profiles db) \<rparr>"

text \<open>No stored stage lacks actions, so the engine never meets a meaningless one.\<close>

lemma write_stages_actions:
  "\<forall>s \<in> set (fst (write_stages i n ss)). sg_action_ids s \<noteq> []"
  by (induction i n ss rule: write_stages.induct) (auto simp: Let_def split: option.splits prod.splits)

lemma write_stages_ids:
  "map sg_id (fst (write_stages i n ss)) = map (\<lambda>k. n + int k) [0..<length (fst (write_stages i n ss))]
   \<and> snd (write_stages i n ss) = n + int (length (fst (write_stages i n ss)))"
proof (induction i n ss rule: write_stages.induct)
  case (1 i n)
  then show ?case by simp
next
  case (2 i n s ss)
  show ?case
  proof (cases "si_trigger_state s = None \<or> si_action_ids s = []")
    case True
    with 2 show ?thesis by (cases "si_trigger_state s") auto
  next
    case False
    then obtain tr where tr: "si_trigger_state s = Some tr" "si_action_ids s \<noteq> []" by auto
    let ?r = "write_stages (i + 1) (n + 1) ss"
    have ih: "map sg_id (fst ?r) = map (\<lambda>k. n + 1 + int k) [0..<length (fst ?r)]"
        "snd ?r = n + 1 + int (length (fst ?r))"
      using "2.IH"(3) [OF tr] by simp_all
    have up: "map (\<lambda>k. n + int k) [0..<Suc m] = n # map (\<lambda>k. n + 1 + int k) [0..<m]" for m
      by (simp add: upt_conv_Cons map_Suc_upt [symmetric] del: upt_Suc)
    show ?thesis using tr ih by (simp add: Let_def split_beta up del: upt_Suc)
  qed
qed

section \<open>The cascade and its caches\<close>

record cascade =
  ca_db :: profile_db
  ca_ver :: int                                        \<comment> \<open>\<open>STATE._profile_cache_ver\<close>\<close>
  ca_scope :: "(string \<times> string, profile option) dict" \<comment> \<open>\<open>_scope_cache\<close>\<close>
  ca_scope_ver :: int                                  \<comment> \<open>\<open>_scope_cache_ver\<close>\<close>
  ca_sensor :: "(did \<times> sid, int \<times> profile list) dict"  \<comment> \<open>\<open>_resolved_profile_ver\<close>, \<open>_resolved_profiles\<close>\<close>

definition get_scope_cached :: "string \<times> string \<Rightarrow> int \<Rightarrow> cascade \<Rightarrow> profile option option" where
  "get_scope_cached k v c = (if ca_scope_ver c \<noteq> v then None else dget (ca_scope c) k)"

definition set_scope_cached :: "string \<times> string \<Rightarrow> int \<Rightarrow> profile option \<Rightarrow> cascade \<Rightarrow> cascade" where
  "set_scope_cached k v p c =
     (if ca_scope_ver c \<noteq> v then c else c\<lparr> ca_scope := dput k p (ca_scope c), ca_scope_ver := v \<rparr>)"

definition invalidate_scope_cache :: "int \<Rightarrow> cascade \<Rightarrow> cascade" where
  "invalidate_scope_cache v c =
     (if ca_scope_ver c \<noteq> v then c\<lparr> ca_scope := [], ca_scope_ver := v \<rparr> else c)"

definition scope_get_profile :: "string \<times> string \<Rightarrow> int \<Rightarrow> cascade \<Rightarrow> cascade \<times> profile option" where
  "scope_get_profile k v c =
     (case get_scope_cached k v c of
        Some p \<Rightarrow> (c, p)
      | None \<Rightarrow> (let p = db_get_profile_for_scope (fst k) (snd k) (ca_db c)
                in (set_scope_cached k v p c, p)))"

definition cascade_scopes :: "device \<Rightarrow> sid \<Rightarrow> (string \<times> string) list" where
  "cascade_scopes dev i =
     [(''sensor'', d_device_id dev @ ''/'' @ i), (''device'', d_device_id dev),
      (''group'', d_group dev), (''site'', d_site dev), (''global'', [])]"

fun walk_cascade :: "int \<Rightarrow> (string \<times> string) list \<Rightarrow> cascade \<Rightarrow> cascade \<times> profile list" where
  "walk_cascade v [] c = (c, [])"
| "walk_cascade v (k # ks) c =
     (if snd k = [] \<and> fst k \<noteq> ''global'' then walk_cascade v ks c
      else case scope_get_profile k v c of
             (c1, None) \<Rightarrow> walk_cascade v ks c1
           | (c1, Some p) \<Rightarrow>
               if pf_exclusive p then (c1, [p])
               else (let (c2, ps) = walk_cascade v ks c1 in (c2, p # ps)))"

definition resolve_profiles :: "device \<Rightarrow> sid \<Rightarrow> cascade \<Rightarrow> cascade \<times> profile list" where
  "resolve_profiles dev i c =
     (case dget (ca_sensor c) (d_device_id dev, i) of
        Some (v, ps) \<Rightarrow>
          if v = ca_ver c then (c, ps)
          else (let (c1, qs) = walk_cascade (ca_ver c) (cascade_scopes dev i)
                                 (invalidate_scope_cache (ca_ver c) c)
                in (c1\<lparr> ca_sensor := dput (d_device_id dev, i) (ca_ver c, qs) (ca_sensor c1) \<rparr>, qs))
      | None \<Rightarrow>
          (let (c1, qs) = walk_cascade (ca_ver c) (cascade_scopes dev i)
                            (invalidate_scope_cache (ca_ver c) c)
           in (c1\<lparr> ca_sensor := dput (d_device_id dev, i) (ca_ver c, qs) (ca_sensor c1) \<rparr>, qs)))"

definition bump_version :: "cascade \<Rightarrow> cascade" where
  "bump_version c = c\<lparr> ca_ver := ca_ver c + 1 \<rparr>"

definition init_cascade :: "profile_db \<Rightarrow> cascade" where
  "init_cascade db = \<lparr> ca_db = db, ca_ver = 0, ca_scope = [], ca_scope_ver = - 1, ca_sensor = [] \<rparr>"

section \<open>Specification: the profiles that apply, narrowest first\<close>

fun upto_exclusive :: "profile list \<Rightarrow> profile list" where
  "upto_exclusive [] = []"
| "upto_exclusive (p # ps) = (if pf_exclusive p then [p] else p # upto_exclusive ps)"

definition matching :: "device \<Rightarrow> sid \<Rightarrow> profile_db \<Rightarrow> profile list" where
  "matching dev i db =
     List.map_filter (\<lambda>k. db_get_profile_for_scope (fst k) (snd k) db)
       (filter (\<lambda>k. \<not> (snd k = [] \<and> fst k \<noteq> ''global'')) (cascade_scopes dev i))"

definition applicable :: "device \<Rightarrow> sid \<Rightarrow> profile_db \<Rightarrow> profile list" where
  "applicable dev i db = upto_exclusive (matching dev i db)"

text \<open>Coherence: what either cache holds for the current version is what the tables say.\<close>

definition scope_coherent :: "cascade \<Rightarrow> bool" where
  "scope_coherent c \<longleftrightarrow> ca_scope_ver c \<le> ca_ver c \<and>
     (ca_scope_ver c = ca_ver c \<longrightarrow>
       (\<forall>k p. dget (ca_scope c) k = Some p \<longrightarrow> p = db_get_profile_for_scope (fst k) (snd k) (ca_db c)))"

definition sensor_coherent :: "(did, device) dict \<Rightarrow> cascade \<Rightarrow> bool" where
  "sensor_coherent devs c \<longleftrightarrow>
     (\<forall>d i v ps. dget (ca_sensor c) (d, i) = Some (v, ps) \<longrightarrow> v \<le> ca_ver c \<and>
        (v = ca_ver c \<longrightarrow> (\<forall>dev. dget devs d = Some dev \<longrightarrow> ps = applicable dev i (ca_db c))))"

lemma scope_get_profile_value:
  assumes "scope_coherent c" "ca_scope_ver c = ca_ver c"
  shows "snd (scope_get_profile k (ca_ver c) c) = db_get_profile_for_scope (fst k) (snd k) (ca_db c)"
  using assms
  by (auto simp: scope_get_profile_def get_scope_cached_def scope_coherent_def Let_def
      split: option.splits)

lemma scope_get_profile_coherent:
  assumes "scope_coherent c" "ca_scope_ver c = ca_ver c"
  shows "scope_coherent (fst (scope_get_profile k (ca_ver c) c))"
  using assms
  by (auto simp: scope_get_profile_def get_scope_cached_def set_scope_cached_def scope_coherent_def
      Let_def dict_simps split: option.splits if_splits)

lemma scope_get_profile_frame:
  "ca_db (fst (scope_get_profile k v c)) = ca_db c" "ca_ver (fst (scope_get_profile k v c)) = ca_ver c"
  "ca_sensor (fst (scope_get_profile k v c)) = ca_sensor c"
  "ca_scope_ver (fst (scope_get_profile k v c)) = ca_scope_ver c"
  by (auto simp: scope_get_profile_def set_scope_cached_def Let_def split: option.splits)

lemma walk_cascade_correct:
  assumes "scope_coherent c" "ca_scope_ver c = ca_ver c"
  shows "snd (walk_cascade (ca_ver c) ks c)
      = upto_exclusive (List.map_filter (\<lambda>k. db_get_profile_for_scope (fst k) (snd k) (ca_db c))
          (filter (\<lambda>k. \<not> (snd k = [] \<and> fst k \<noteq> ''global'')) ks))
    \<and> scope_coherent (fst (walk_cascade (ca_ver c) ks c))
    \<and> ca_db (fst (walk_cascade (ca_ver c) ks c)) = ca_db c
    \<and> ca_ver (fst (walk_cascade (ca_ver c) ks c)) = ca_ver c
    \<and> ca_sensor (fst (walk_cascade (ca_ver c) ks c)) = ca_sensor c"
  using assms
proof (induction ks arbitrary: c)
  case Nil
  then show ?case by (simp add: map_filter_def)
next
  case (Cons k ks)
  show ?case
  proof (cases "snd k = [] \<and> fst k \<noteq> ''global''")
    case True
    with Cons.IH [OF Cons.prems] show ?thesis by simp
  next
    case False
    obtain c1 r where cr: "scope_get_profile k (ca_ver c) c = (c1, r)" by fastforce
    have r: "r = db_get_profile_for_scope (fst k) (snd k) (ca_db c)"
      using scope_get_profile_value [OF Cons.prems, of k] cr by simp
    have c1: "scope_coherent c1" "ca_scope_ver c1 = ca_ver c1" "ca_db c1 = ca_db c"
        "ca_ver c1 = ca_ver c" "ca_sensor c1 = ca_sensor c"
      using scope_get_profile_coherent [OF Cons.prems, of k]
        scope_get_profile_frame [of k "ca_ver c" c] Cons.prems cr by auto
    note ih = Cons.IH [OF c1(1,2), unfolded c1(3-5)]
    let ?w = "walk_cascade (ca_ver c) ks c1"
    have step: "walk_cascade (ca_ver c) (k # ks) c
        = (case r of None \<Rightarrow> ?w
           | Some p \<Rightarrow> if pf_exclusive p then (c1, [p]) else (fst ?w, p # snd ?w))"
      using False by (cases r) (auto simp: cr split_beta)
    have mf: "List.map_filter (\<lambda>k. db_get_profile_for_scope (fst k) (snd k) (ca_db c))
          (filter (\<lambda>k. \<not> (snd k = [] \<and> fst k \<noteq> ''global'')) (k # ks))
        = (case r of None \<Rightarrow> [] | Some p \<Rightarrow> [p]) @
          List.map_filter (\<lambda>k. db_get_profile_for_scope (fst k) (snd k) (ca_db c))
            (filter (\<lambda>k. \<not> (snd k = [] \<and> fst k \<noteq> ''global'')) ks)"
      using False unfolding r by (simp add: map_filter_simps split: option.split)
    show ?thesis unfolding step mf
      using ih c1 by (cases r) simp_all
  qed
qed

lemma invalidate_coherent:
  assumes "scope_coherent c"
  shows "scope_coherent (invalidate_scope_cache (ca_ver c) c)"
    and "ca_scope_ver (invalidate_scope_cache (ca_ver c) c) = ca_ver c"
    and "ca_ver (invalidate_scope_cache (ca_ver c) c) = ca_ver c"
    and "ca_db (invalidate_scope_cache (ca_ver c) c) = ca_db c"
    and "ca_sensor (invalidate_scope_cache (ca_ver c) c) = ca_sensor c"
  using assms by (auto simp: invalidate_scope_cache_def scope_coherent_def)

lemma walk_fresh:
  fixes dev :: device and i :: sid
  assumes "scope_coherent c"
  defines "w \<equiv> walk_cascade (ca_ver c) (cascade_scopes dev i) (invalidate_scope_cache (ca_ver c) c)"
  shows "snd w = applicable dev i (ca_db c)" "scope_coherent (fst w)" "ca_db (fst w) = ca_db c"
    "ca_ver (fst w) = ca_ver c" "ca_sensor (fst w) = ca_sensor c"
  using walk_cascade_correct [OF invalidate_coherent(1) [OF assms(1)], of "cascade_scopes dev i"]
    invalidate_coherent [OF assms(1)]
  by (simp_all add: w_def applicable_def matching_def)

lemma scope_coherent_sensor_upd: "scope_coherent (c\<lparr> ca_sensor := x \<rparr>) = scope_coherent c"
  by (simp add: scope_coherent_def)

lemma resolve_profiles_correct:
  assumes "scope_coherent c" "sensor_coherent devs c" "dget devs (d_device_id dev) = Some dev"
  shows "snd (resolve_profiles dev i c) = applicable dev i (ca_db c)"
    and "scope_coherent (fst (resolve_profiles dev i c))"
    and "sensor_coherent devs (fst (resolve_profiles dev i c))"
    and "ca_db (fst (resolve_profiles dev i c)) = ca_db c"
proof -
  let ?k = "(d_device_id dev, i)"
  let ?w = "walk_cascade (ca_ver c) (cascade_scopes dev i) (invalidate_scope_cache (ca_ver c) c)"
  let ?fresh = "((fst ?w)\<lparr> ca_sensor := dput ?k (ca_ver c, snd ?w) (ca_sensor (fst ?w)) \<rparr>, snd ?w)"
  note w = walk_fresh [OF assms(1), of dev i]
  have hit: "resolve_profiles dev i c = (c, ps) \<and> ps = applicable dev i (ca_db c)"
    if "dget (ca_sensor c) ?k = Some (v, ps)" "v = ca_ver c" for v ps
    using that assms(2,3) by (auto simp: resolve_profiles_def sensor_coherent_def)
  have miss: "resolve_profiles dev i c = ?fresh"
    if "\<nexists>ps. dget (ca_sensor c) ?k = Some (ca_ver c, ps)"
    using that by (auto simp: resolve_profiles_def Let_def split_beta split: option.splits)
  have fresh: "sensor_coherent devs (fst ?fresh)"
    using assms(2,3) w by (auto simp: sensor_coherent_def dict_simps)
  have "snd (resolve_profiles dev i c) = applicable dev i (ca_db c)
      \<and> scope_coherent (fst (resolve_profiles dev i c))
      \<and> sensor_coherent devs (fst (resolve_profiles dev i c))
      \<and> ca_db (fst (resolve_profiles dev i c)) = ca_db c"
  proof (cases "\<exists>ps. dget (ca_sensor c) ?k = Some (ca_ver c, ps)")
    case True
    then show ?thesis using hit assms(1,2) by fastforce
  next
    case False
    show ?thesis unfolding miss [OF False]
      using w fresh by (simp add: scope_coherent_sensor_upd)
  qed
  then show "snd (resolve_profiles dev i c) = applicable dev i (ca_db c)"
    and "scope_coherent (fst (resolve_profiles dev i c))"
    and "sensor_coherent devs (fst (resolve_profiles dev i c))"
    and "ca_db (fst (resolve_profiles dev i c)) = ca_db c" by blast+
qed

text \<open>A profile write followed by the version bump restores coherence whatever was written.\<close>

lemma write_then_bump_coherent:
  assumes "scope_coherent c" "sensor_coherent devs c"
  shows "scope_coherent (bump_version (c\<lparr> ca_db := db \<rparr>))"
    and "sensor_coherent devs (bump_version (c\<lparr> ca_db := db \<rparr>))"
  using assms by (fastforce simp: scope_coherent_def sensor_coherent_def bump_version_def)+

lemma init_cascade_coherent [simp]:
  "scope_coherent (init_cascade db)" "sensor_coherent devs (init_cascade db)"
  by (simp_all add: scope_coherent_def sensor_coherent_def init_cascade_def)

end
