(* ===== verification/Json.thy ===== *)
theory Json
  imports Prelude
begin

text \<open>
  The part of Python's \<open>json.loads\<close> the alerting code rests on: the recursive-descent scanner of the
  standard library on ASCII text. Numbers are kept as their text (no caller here computes with
  them); an escape \<open>\u\<close> outside ASCII is outside the model and read as an error. The nesting depth is
  bounded by fuel, and the length of the text is always enough of it.
\<close>

datatype json = JNull | JBool bool | JNum string | JStr string | JArr "json list" | JObj "(string \<times> json) list"

definition is_ws :: "char \<Rightarrow> bool" where
  "is_ws c \<longleftrightarrow> c \<in> set [CHR '' '', CHR 0x09, CHR 0x0A, CHR 0x0D]"

definition skip_ws :: "string \<Rightarrow> string" where
  "skip_ws s = dropWhile is_ws s"

definition hex_val :: "char \<Rightarrow> nat option" where
  "hex_val c = (let n = (of_char c :: nat) in
     if 48 \<le> n \<and> n \<le> 57 then Some (n - 48)
     else if 65 \<le> n \<and> n \<le> 70 then Some (n - 55)
     else if 97 \<le> n \<and> n \<le> 102 then Some (n - 87) else None)"

definition json_escape :: "char \<Rightarrow> char option" where
  "json_escape c =
     (if c \<in> set [CHR 0x22, CHR 0x5C, CHR ''/''] then Some c
      else if c = CHR ''b'' then Some (CHR 0x08) else if c = CHR ''f'' then Some (CHR 0x0C)
      else if c = CHR ''n'' then Some (CHR 0x0A) else if c = CHR ''r'' then Some (CHR 0x0D)
      else if c = CHR ''t'' then Some (CHR 0x09) else None)"

definition hex4 :: "char \<Rightarrow> char \<Rightarrow> char \<Rightarrow> char \<Rightarrow> char option" where
  "hex4 a b c d = (case (hex_val a, hex_val b, hex_val c, hex_val d) of
       (Some i, Some j, Some k, Some l) \<Rightarrow>
         (let n = ((i * 16 + j) * 16 + k) * 16 + l in if n < 128 then Some (char_of n) else None)
     | _ \<Rightarrow> None)"

definition cons_fst :: "'a \<Rightarrow> 'a list \<times> 'b \<Rightarrow> 'a list \<times> 'b" where
  "cons_fst x p = (x # fst p, snd p)"

text \<open>The rest of a string literal after its opening quote.\<close>

fun json_string :: "string \<Rightarrow> (string \<times> string) option" where
  "json_string [] = None"
| "json_string (c # cs) =
     (if c = CHR 0x22 then Some ([], cs)
      else if c = CHR 0x5C then
        (case cs of
           e # ds \<Rightarrow>
             (if e = CHR ''u'' then
                (case ds of
                   h1 # h2 # h3 # h4 # rest \<Rightarrow>
                     (case hex4 h1 h2 h3 h4 of
                        Some x \<Rightarrow> map_option (cons_fst x) (json_string rest)
                      | None \<Rightarrow> None)
                 | _ \<Rightarrow> None)
              else (case json_escape e of
                      Some x \<Rightarrow> map_option (cons_fst x) (json_string ds)
                    | None \<Rightarrow> None))
         | [] \<Rightarrow> None)
      else if (of_char c :: nat) < 32 then None
      else map_option (cons_fst c) (json_string cs))"

text \<open>The longest prefix that matches the number syntax.\<close>

definition take_digits :: "string \<Rightarrow> string" where
  "take_digits s = takeWhile is_digit s"

definition json_frac :: "string \<Rightarrow> string" where
  "json_frac s = (case s of
       c # cs \<Rightarrow> if c = CHR ''.'' \<and> take_digits cs \<noteq> [] then c # take_digits cs else []
     | [] \<Rightarrow> [])"

definition json_exp :: "string \<Rightarrow> string" where
  "json_exp s = (case s of
       c # cs \<Rightarrow>
         (if c = CHR ''e'' \<or> c = CHR ''E'' then
            (case cs of
               d # ds \<Rightarrow>
                 (if d = CHR ''+'' \<or> d = CHR ''-''
                  then (if take_digits ds \<noteq> [] then c # d # take_digits ds else [])
                  else if take_digits cs \<noteq> [] then c # take_digits cs else [])
             | [] \<Rightarrow> [])
          else [])
     | [] \<Rightarrow> [])"

definition json_number :: "string \<Rightarrow> (json \<times> string) option" where
  "json_number s =
     (let sg = (if s \<noteq> [] \<and> hd s = CHR ''-'' then [CHR ''-''] else []);
          s1 = drop (length sg) s;
          ip = (if s1 \<noteq> [] \<and> hd s1 = CHR ''0'' then [CHR ''0''] else take_digits s1);
          s2 = drop (length ip) s1; fp = json_frac s2; s3 = drop (length fp) s2;
          ep = json_exp s3
      in if ip = [] then None else Some (JNum (sg @ ip @ fp @ ep), drop (length ep) s3))"

definition json_word :: "string \<Rightarrow> (json \<times> string) option" where
  "json_word s =
     (if startswith ''null'' s then Some (JNull, drop 4 s)
      else if startswith ''true'' s then Some (JBool True, drop 4 s)
      else if startswith ''false'' s then Some (JBool False, drop 5 s)
      else case json_number s of
             Some r \<Rightarrow> Some r
           | None \<Rightarrow>
               (if startswith ''NaN'' s then Some (JNum ''NaN'', drop 3 s)
                else if startswith ''Infinity'' s then Some (JNum ''Infinity'', drop 8 s)
                else if startswith ''-Infinity'' s then Some (JNum ''-Infinity'', drop 9 s)
                else None))"

fun json_value :: "nat \<Rightarrow> string \<Rightarrow> (json \<times> string) option"
  and json_items :: "nat \<Rightarrow> string \<Rightarrow> (json list \<times> string) option"
  and json_members :: "nat \<Rightarrow> string \<Rightarrow> ((string \<times> json) list \<times> string) option" where
  "json_value 0 s = None"
| "json_value (Suc n) s =
     (case s of
        [] \<Rightarrow> None
      | c # cs \<Rightarrow>
          (if c = CHR 0x22 then map_option (\<lambda>(t, r). (JStr t, r)) (json_string cs)
           else if c = CHR ''['' then
             (case skip_ws cs of
                d # ds \<Rightarrow> (if d = CHR '']'' then Some (JArr [], ds)
                          else map_option (\<lambda>(xs, r). (JArr xs, r)) (json_items n (d # ds)))
              | [] \<Rightarrow> None)
           else if c = CHR ''{'' then
             (case skip_ws cs of
                d # ds \<Rightarrow> (if d = CHR ''}'' then Some (JObj [], ds)
                          else map_option (\<lambda>(xs, r). (JObj xs, r)) (json_members n (d # ds)))
              | [] \<Rightarrow> None)
           else json_word s))"
| "json_items 0 s = None"
| "json_items (Suc n) s =
     (case json_value n s of
        None \<Rightarrow> None
      | Some (x, r) \<Rightarrow>
          (case skip_ws r of
             d # ds \<Rightarrow> (if d = CHR '']'' then Some ([x], ds)
                       else if d = CHR '','' then map_option (cons_fst x) (json_items n (skip_ws ds))
                       else None)
           | [] \<Rightarrow> None))"
| "json_members 0 s = None"
| "json_members (Suc n) s =
     (case s of
        [] \<Rightarrow> None
      | c # cs \<Rightarrow>
          (if c \<noteq> CHR 0x22 then None
           else case json_string cs of
                  None \<Rightarrow> None
                | Some (k, r) \<Rightarrow>
                    (case skip_ws r of
                       [] \<Rightarrow> None
                     | d # ds \<Rightarrow>
                         (if d \<noteq> CHR '':'' then None
                          else case json_value n (skip_ws ds) of
                                 None \<Rightarrow> None
                               | Some (v, r2) \<Rightarrow>
                                   (case skip_ws r2 of
                                      [] \<Rightarrow> None
                                    | e # es \<Rightarrow>
                                        (if e = CHR ''}'' then Some ([(k, v)], es)
                                         else if e = CHR '','' then
                                           map_option (cons_fst (k, v)) (json_members n (skip_ws es))
                                         else None))))))"

definition json_loads :: "string \<Rightarrow> json option" where
  "json_loads s = (case json_value (2 * length s + 2) (skip_ws s) of
       Some (v, r) \<Rightarrow> if skip_ws r = [] then Some v else None
     | None \<Rightarrow> None)"

section \<open>Reading back an array of strings\<close>

text \<open>
  What the editor sends (\<open>json.dumps\<close> of a list of names without quotes, backslashes or control
  characters) is read back unchanged.
\<close>

definition quote_str :: "string \<Rightarrow> string" where
  "quote_str t = CHR 0x22 # t @ [CHR 0x22]"

fun dump_items :: "string list \<Rightarrow> string" where
  "dump_items [] = []"
| "dump_items [x] = quote_str x"
| "dump_items (x # y # ys) = quote_str x @ CHR '','' # CHR '' '' # dump_items (y # ys)"

definition dumps_list :: "string list \<Rightarrow> string" where
  "dumps_list xs = CHR ''['' # dump_items xs @ [CHR '']'']"

definition plain_text :: "string \<Rightarrow> bool" where
  "plain_text t \<longleftrightarrow> (\<forall>c \<in> set t. c \<noteq> CHR 0x22 \<and> c \<noteq> CHR 0x5C \<and> 32 \<le> (of_char c :: nat))"

lemma json_string_plain:
  "plain_text t \<Longrightarrow> json_string (t @ CHR 0x22 # rest) = Some (t, rest)"
  by (induction t) (auto simp: plain_text_def cons_fst_def)

lemma json_value_quote:
  "plain_text t \<Longrightarrow> json_value (Suc n) (CHR 0x22 # t @ CHR 0x22 # rest) = Some (JStr t, rest)"
  by (simp add: json_string_plain)

lemma dump_items_hd: "xs \<noteq> [] \<Longrightarrow> \<exists>r. dump_items xs = CHR 0x22 # r"
  by (induction xs rule: dump_items.induct) (auto simp: quote_str_def)

lemma skip_ws_simps:
  "skip_ws [] = []" "skip_ws (CHR 0x22 # r) = CHR 0x22 # r" "skip_ws (CHR '','' # r) = CHR '','' # r"
  "skip_ws (CHR '' '' # r) = skip_ws r" "skip_ws (CHR '']'' # r) = CHR '']'' # r"
  "skip_ws (CHR ''['' # r) = CHR ''['' # r"
  by (simp_all add: skip_ws_def is_ws_def)

lemma two_more: "Suc 0 < n \<Longrightarrow> \<exists>m. n = Suc (Suc m)"
  by (rule exI [of _ "n - 2"]) simp

lemma json_items_dump:
  assumes "xs \<noteq> []" "\<forall>x \<in> set xs. plain_text x" "length xs < n"
  shows "json_items n (dump_items xs @ CHR '']'' # rest) = Some (map JStr xs, rest)"
  using assms
proof (induction xs arbitrary: n rule: dump_items.induct)
  case (2 x)
  have "Suc 0 < n" using "2"(3) by simp
  then obtain m where n: "n = Suc (Suc m)" using two_more by blast
  have v: "json_value (Suc m) (CHR 0x22 # x @ CHR 0x22 # CHR '']'' # rest) = Some (JStr x, CHR '']'' # rest)"
    by (rule json_value_quote) (use 2 in auto)
  show ?case
    unfolding n
    by (subst json_items.simps(2)) (simp add: quote_str_def v skip_ws_simps
        del: json_value.simps json_items.simps)
next
  case (3 x y ys)
  have "Suc 0 < n" using "3"(4) by simp
  then obtain m where n: "n = Suc (Suc m)" using two_more by blast
  obtain r where r: "dump_items (y # ys) = CHR 0x22 # r" using dump_items_hd [of "y # ys"] by blast
  have ih: "json_items (Suc m) (dump_items (y # ys) @ CHR '']'' # rest) = Some (map JStr (y # ys), rest)"
    by (rule 3(1)) (use 3 n in auto)
  have v: "json_value (Suc m) (CHR 0x22 # x @ CHR 0x22 # CHR '','' # CHR '' '' # dump_items (y # ys) @ CHR '']'' # rest)
      = Some (JStr x, CHR '','' # CHR '' '' # dump_items (y # ys) @ CHR '']'' # rest)"
    by (rule json_value_quote) (use 3 in auto)
  have ws: "skip_ws (dump_items (y # ys) @ z) = dump_items (y # ys) @ z" for z
    by (simp only: r append_Cons skip_ws_simps)
  show ?case
    unfolding n
    by (subst json_items.simps(2), subst dump_items.simps(3))
      (simp add: quote_str_def v skip_ws_simps ws ih cons_fst_def
        del: json_value.simps json_items.simps dump_items.simps)
qed simp

lemma length_dump_items: "length xs \<le> length (dump_items xs)"
  by (induction xs rule: dump_items.induct) (auto simp: quote_str_def)

lemma json_loads_dumps:
  assumes "\<forall>x \<in> set xs. plain_text x"
  shows "json_loads (dumps_list xs) = Some (JArr (map JStr xs))"
proof (cases "xs = []")
  case True
  then show ?thesis by (simp add: json_loads_def dumps_list_def skip_ws_simps numeral_eq_Suc)
next
  case False
  obtain r where r: "dump_items xs = CHR 0x22 # r" using dump_items_hd [OF False] by blast
  define n where "n = 2 * length (dumps_list xs) + 1"
  have i: "json_items n (dump_items xs @ [CHR '']'']) = Some (map JStr xs, [])"
    by (rule json_items_dump [OF False assms])
      (use length_dump_items [of xs] in \<open>simp add: n_def dumps_list_def\<close>)
  have "json_items n (CHR 0x22 # r @ [CHR '']'']) = Some (map JStr xs, [])"
    using i by (simp only: r append_Cons)
  then have "json_value (Suc n) (dumps_list xs) = Some (JArr (map JStr xs), [])"
    by (simp add: dumps_list_def r skip_ws_simps del: json_items.simps)
  moreover have "skip_ws (dumps_list xs) = dumps_list xs" by (simp add: dumps_list_def skip_ws_simps)
  moreover have "2 * length (dumps_list xs) + 2 = Suc n" by (simp add: n_def)
  ultimately show ?thesis by (simp only: json_loads_def option.case prod.case skip_ws_simps if_True simp_thms)
qed

end
