(* ===== verification/AlertEvents.thy ===== *)
theory AlertEvents
  imports Devices
begin

text \<open>
  The alert event history (\<open>db/alert_events.py\<close>): one open row per sensor and incident, updated in
  place by repeat and escalation fires, acknowledged by an operator, resolved by the recovery, pruned
  by age. Rows are kept in insertion order, which is the order of their ids.
\<close>

datatype astate = Active | Acknowledged | Resolved | Suppressed

record aevent =
  ae_id :: nat
  ae_profile_id :: int
  ae_stage_id :: int
  ae_profile_name :: string
  ae_did :: did
  ae_sid :: sid
  ae_severity :: string
  ae_event_type :: string
  ae_state :: astate
  ae_triggered_at :: ts
  ae_resolved_at :: ts
  ae_ack_by :: string
  ae_ack_at :: ts
  ae_detail :: string
  ae_repeat_count :: nat
  ae_suppress_reason :: string

record evt_table =
  et_rows :: "aevent list"
  et_next :: nat

text \<open>What the dispatch context contributes to an event row.\<close>

record actx =
  cx_did :: did
  cx_sid :: sid
  cx_grp :: string
  cx_site :: string
  cx_severity :: string
  cx_event_type :: string
  cx_detail :: string
  cx_duration_s :: "int option"

definition is_open :: "aevent \<Rightarrow> bool" where
  "is_open e \<longleftrightarrow> ae_state e = Active \<or> ae_state e = Acknowledged"

definition open_for :: "did \<Rightarrow> sid \<Rightarrow> aevent \<Rightarrow> bool" where
  "open_for d s e \<longleftrightarrow> ae_did e = d \<and> ae_sid e = s \<and> is_open e"

definition upd_where :: "(aevent \<Rightarrow> bool) \<Rightarrow> (aevent \<Rightarrow> aevent) \<Rightarrow> evt_table \<Rightarrow> evt_table" where
  "upd_where P f t = t\<lparr> et_rows := map (\<lambda>e. if P e then f e else e) (et_rows t) \<rparr>"

text \<open>\<open>ORDER BY id DESC LIMIT 1\<close>: the newest open row of the sensor.\<close>

definition newest_open :: "did \<Rightarrow> sid \<Rightarrow> evt_table \<Rightarrow> aevent option" where
  "newest_open d s t = find (open_for d s) (rev (et_rows t))"

definition refire :: "int \<Rightarrow> int \<Rightarrow> string \<Rightarrow> actx \<Rightarrow> aevent \<Rightarrow> aevent" where
  "refire profile_id stage_id name cx e =
     (let e1 = e\<lparr> ae_repeat_count := ae_repeat_count e + 1, ae_stage_id := stage_id,
                 ae_profile_id := profile_id, ae_profile_name := name, ae_detail := cx_detail cx \<rparr>
      in if ae_severity e = ''critical'' then e1
         else e1\<lparr> ae_severity := cx_severity cx, ae_event_type := cx_event_type cx \<rparr>)"

definition evt_insert :: "aevent \<Rightarrow> evt_table \<Rightarrow> evt_table" where
  "evt_insert e t = \<lparr> et_rows = et_rows t @ [e], et_next = et_next t + 1 \<rparr>"

text \<open>
  A new row. \<open>ack\<close> is the result of \<open>_flap_ack_info\<close>: the acknowledgement of the sensor's open flap,
  which a new active row inherits.
\<close>

definition new_event :: "ts \<Rightarrow> (string \<times> ts) option \<Rightarrow> int \<Rightarrow> int \<Rightarrow> string \<Rightarrow> actx \<Rightarrow> astate
    \<Rightarrow> string \<Rightarrow> nat \<Rightarrow> aevent" where
  "new_event now ack profile_id stage_id name cx state reason i =
     (let inherit = (if state = Active then ack else None)
      in \<lparr> ae_id = i, ae_profile_id = profile_id, ae_stage_id = stage_id,
           ae_profile_name = name, ae_did = cx_did cx, ae_sid = cx_sid cx,
           ae_severity = cx_severity cx, ae_event_type = cx_event_type cx,
           ae_state = (if inherit = None then state else Acknowledged),
           ae_triggered_at = now, ae_resolved_at = 0,
           ae_ack_by = (case inherit of Some (b, _) \<Rightarrow> b | None \<Rightarrow> []),
           ae_ack_at = (case inherit of Some (_, a) \<Rightarrow> a | None \<Rightarrow> 0),
           ae_detail = cx_detail cx, ae_repeat_count = 0, ae_suppress_reason = reason \<rparr>)"

definition db_log_event :: "ts \<Rightarrow> (string \<times> ts) option \<Rightarrow> int \<Rightarrow> int \<Rightarrow> string \<Rightarrow> actx \<Rightarrow> astate
    \<Rightarrow> string \<Rightarrow> evt_table \<Rightarrow> evt_table" where
  "db_log_event now ack profile_id stage_id name cx state reason t =
     (case (if state = Active then newest_open (cx_did cx) (cx_sid cx) t else None) of
        Some ex \<Rightarrow> upd_where (\<lambda>e. ae_id e = ae_id ex) (refire profile_id stage_id name cx) t
      | None \<Rightarrow> evt_insert (new_event now ack profile_id stage_id name cx state reason (et_next t)) t)"

definition db_ack_event :: "ts \<Rightarrow> nat \<Rightarrow> string \<Rightarrow> evt_table \<Rightarrow> evt_table" where
  "db_ack_event now i actor = upd_where (\<lambda>e. ae_id e = i)
     (\<lambda>e. e\<lparr> ae_state := Acknowledged, ae_ack_by := actor, ae_ack_at := now \<rparr>)"

definition db_resolve_event :: "ts \<Rightarrow> nat \<Rightarrow> evt_table \<Rightarrow> evt_table" where
  "db_resolve_event now i = upd_where (\<lambda>e. ae_id e = i)
     (\<lambda>e. e\<lparr> ae_state := Resolved, ae_resolved_at := now \<rparr>)"

definition db_auto_resolve_event :: "ts \<Rightarrow> int \<Rightarrow> did \<Rightarrow> sid \<Rightarrow> evt_table \<Rightarrow> evt_table" where
  "db_auto_resolve_event now profile_id d s =
     upd_where (\<lambda>e. ae_profile_id e = profile_id \<and> open_for d s e)
     (\<lambda>e. e\<lparr> ae_state := Resolved, ae_resolved_at := now \<rparr>)"

definition db_ack_events_by_sensor :: "ts \<Rightarrow> did \<Rightarrow> sid \<Rightarrow> string \<Rightarrow> evt_table \<Rightarrow> evt_table" where
  "db_ack_events_by_sensor now d s actor =
     upd_where (\<lambda>e. ae_did e = d \<and> ae_sid e = s \<and> ae_state e = Active)
     (\<lambda>e. e\<lparr> ae_state := Acknowledged, ae_ack_by := actor, ae_ack_at := now \<rparr>)"

definition db_resolve_events_by_sensor :: "ts \<Rightarrow> did \<Rightarrow> sid \<Rightarrow> evt_table \<Rightarrow> evt_table" where
  "db_resolve_events_by_sensor now d s = upd_where (open_for d s)
     (\<lambda>e. e\<lparr> ae_state := Resolved, ae_resolved_at := now \<rparr>)"

definition db_resolve_all_active :: "ts \<Rightarrow> evt_table \<Rightarrow> evt_table \<times> nat" where
  "db_resolve_all_active now t =
     (upd_where is_open (\<lambda>e. e\<lparr> ae_state := Resolved, ae_resolved_at := now \<rparr>) t,
      length (filter is_open (et_rows t)))"

definition db_count_active :: "evt_table \<Rightarrow> nat" where
  "db_count_active t = length (filter (\<lambda>e. ae_state e = Active) (et_rows t))"

definition db_get_event :: "nat \<Rightarrow> evt_table \<Rightarrow> aevent option" where
  "db_get_event i t = find (\<lambda>e. ae_id e = i) (et_rows t)"

definition db_has_active_event :: "did \<Rightarrow> sid \<Rightarrow> evt_table \<Rightarrow> bool" where
  "db_has_active_event d s t = list_ex (open_for d s) (et_rows t)"

definition db_has_acked_event :: "int \<Rightarrow> did \<Rightarrow> sid \<Rightarrow> evt_table \<Rightarrow> bool" where
  "db_has_acked_event profile_id d s t = list_ex (\<lambda>e. ae_profile_id e = profile_id \<and> ae_did e = d
     \<and> ae_sid e = s \<and> ae_state e = Acknowledged) (et_rows t)"

definition db_clean_alert_events :: "ts \<Rightarrow> int \<Rightarrow> evt_table \<Rightarrow> evt_table" where
  "db_clean_alert_events now retain_days t =
     (let cutoff = now - of_int (max 1 retain_days) * 86400
      in t\<lparr> et_rows := filter (\<lambda>e. \<not> (ae_state e = Resolved \<and> 0 < ae_resolved_at e
              \<and> ae_resolved_at e < cutoff)) (et_rows t) \<rparr>)"

section \<open>One open row per sensor\<close>

definition evt_ok :: "evt_table \<Rightarrow> bool" where
  "evt_ok t \<longleftrightarrow> distinct (map ae_id (et_rows t)) \<and> (\<forall>e \<in> set (et_rows t). ae_id e < et_next t)
     \<and> (\<forall>e \<in> set (et_rows t). \<forall>f \<in> set (et_rows t).
          is_open e \<longrightarrow> is_open f \<longrightarrow> ae_did e = ae_did f \<longrightarrow> ae_sid e = ae_sid f \<longrightarrow> ae_id e = ae_id f)"

definition empty_events :: evt_table where
  "empty_events = \<lparr> et_rows = [], et_next = 1 \<rparr>"

lemma evt_ok_empty [simp]: "evt_ok empty_events"
  by (simp add: evt_ok_def empty_events_def)

text \<open>
  An in-place update that keeps ids and sensors and opens nothing keeps the invariant: the one
  lemma behind every UPDATE statement of the file.
\<close>

definition closing :: "(aevent \<Rightarrow> bool) \<Rightarrow> (aevent \<Rightarrow> aevent) \<Rightarrow> bool" where
  "closing P f \<longleftrightarrow> (\<forall>e. P e \<longrightarrow> ae_id (f e) = ae_id e \<and> ae_did (f e) = ae_did e
     \<and> ae_sid (f e) = ae_sid e \<and> (is_open (f e) \<longrightarrow> is_open e))"

lemma evt_ok_upd_where:
  assumes "evt_ok t" "closing P f"
  shows "evt_ok (upd_where P f t)"
proof -
  let ?g = "\<lambda>e. if P e then f e else e"
  have g: "ae_id (?g e) = ae_id e" "ae_did (?g e) = ae_did e" "ae_sid (?g e) = ae_sid e"
      "is_open (?g e) \<Longrightarrow> is_open e" for e
    using assms(2) by (auto simp: closing_def split: if_splits)
  have ids: "map ae_id (map ?g (et_rows t)) = map ae_id (et_rows t)"
    using g(1) by simp
  show ?thesis
    unfolding evt_ok_def upd_where_def
  proof (intro conjI ballI impI)
    show "distinct (map ae_id (et_rows (t\<lparr> et_rows := map ?g (et_rows t) \<rparr>)))"
      using assms(1) ids by (simp add: evt_ok_def del: map_map)
  next
    fix e assume "e \<in> set (et_rows (t\<lparr> et_rows := map ?g (et_rows t) \<rparr>))"
    then obtain a where "a \<in> set (et_rows t)" "e = ?g a" by auto
    then show "ae_id e < et_next (t\<lparr> et_rows := map ?g (et_rows t) \<rparr>)"
      using assms(1) g(1) [of a] by (simp add: evt_ok_def)
  next
    fix e' f' assume "e' \<in> set (et_rows (t\<lparr> et_rows := map ?g (et_rows t) \<rparr>))"
      "f' \<in> set (et_rows (t\<lparr> et_rows := map ?g (et_rows t) \<rparr>))"
      and o: "is_open e'" "is_open f'" "ae_did e' = ae_did f'" "ae_sid e' = ae_sid f'"
    then obtain a b where ab: "a \<in> set (et_rows t)" "b \<in> set (et_rows t)" "e' = ?g a" "f' = ?g b"
      by auto
    have "is_open a" using o(1) unfolding ab(3) by (rule g(4))
    moreover have "is_open b" using o(2) unfolding ab(4) by (rule g(4))
    moreover have "ae_did a = ae_did b" "ae_sid a = ae_sid b"
      using o(3,4) unfolding ab(3,4) g(2,3) .
    ultimately have "ae_id a = ae_id b" using assms(1) ab(1,2) unfolding evt_ok_def by blast
    then show "ae_id e' = ae_id f'" unfolding ab(3,4) g(1) .
  qed
qed

lemma closing_resolve: "closing P (\<lambda>e. e\<lparr> ae_state := Resolved, ae_resolved_at := now \<rparr>)"
  by (simp add: closing_def is_open_def)

lemma closing_ack:
  assumes "\<And>e. P e \<Longrightarrow> is_open e"
  shows "closing P (\<lambda>e. e\<lparr> ae_state := Acknowledged, ae_ack_by := actor, ae_ack_at := now \<rparr>)"
  using assms by (simp add: closing_def)

lemma refire_simps [simp]:
  "ae_id (refire p g n cx e) = ae_id e" "ae_did (refire p g n cx e) = ae_did e"
  "ae_sid (refire p g n cx e) = ae_sid e" "ae_state (refire p g n cx e) = ae_state e"
  "ae_triggered_at (refire p g n cx e) = ae_triggered_at e"
  "ae_repeat_count (refire p g n cx e) = ae_repeat_count e + 1"
  "ae_profile_id (refire p g n cx e) = p"
  by (simp_all add: refire_def Let_def)

lemma closing_refire: "closing P (refire p g n cx)"
  by (simp add: closing_def is_open_def)

lemma newest_open_Some: "newest_open d s t = Some e \<Longrightarrow> open_for d s e \<and> e \<in> set (et_rows t)"
  using find_SomeD by (fastforce simp: newest_open_def)

lemma newest_open_None: "newest_open d s t = None \<longleftrightarrow> (\<forall>e \<in> set (et_rows t). \<not> open_for d s e)"
  by (simp add: newest_open_def find_NoneD)

lemma newest_open_iff_active: "newest_open d s t \<noteq> None \<longleftrightarrow> db_has_active_event d s t"
  by (auto simp: newest_open_None db_has_active_event_def list_ex_iff)

lemma evt_ok_insert:
  assumes "evt_ok t" "ae_id e = et_next t"
    and "is_open e \<Longrightarrow> \<forall>f \<in> set (et_rows t). \<not> open_for (ae_did e) (ae_sid e) f"
  shows "evt_ok (evt_insert e t)"
proof -
  have old: "distinct (map ae_id (et_rows t))" "\<And>f. f \<in> set (et_rows t) \<Longrightarrow> ae_id f < et_next t"
    "\<And>f g. f \<in> set (et_rows t) \<Longrightarrow> g \<in> set (et_rows t) \<Longrightarrow> is_open f \<Longrightarrow> is_open g \<Longrightarrow>
       ae_did f = ae_did g \<Longrightarrow> ae_sid f = ae_sid g \<Longrightarrow> ae_id f = ae_id g"
    using assms(1) unfolding evt_ok_def by blast+
  have new: "\<not> (is_open e \<and> is_open f \<and> ae_did e = ae_did f \<and> ae_sid e = ae_sid f)"
    if "f \<in> set (et_rows t)" for f
    using assms(3) that by (metis open_for_def)
  show ?thesis
    unfolding evt_ok_def
  proof (intro conjI ballI impI)
    show "distinct (map ae_id (et_rows (evt_insert e t)))"
      using old(1,2) assms(2) by (fastforce simp: evt_insert_def)
  next
    fix f assume "f \<in> set (et_rows (evt_insert e t))"
    then show "ae_id f < et_next (evt_insert e t)"
      using old(2) assms(2) by (auto simp: evt_insert_def less_SucI)
  next
    fix f g assume "f \<in> set (et_rows (evt_insert e t))" "g \<in> set (et_rows (evt_insert e t))"
      and o: "is_open f" "is_open g" "ae_did f = ae_did g" "ae_sid f = ae_sid g"
    then have "f = e \<or> f \<in> set (et_rows t)" "g = e \<or> g \<in> set (et_rows t)"
      by (auto simp: evt_insert_def)
    then show "ae_id f = ae_id g" using new old(3) o by metis
  qed
qed

lemma new_event_simps [simp]:
  "ae_id (new_event now ack p g n cx state reason i) = i"
  "ae_did (new_event now ack p g n cx state reason i) = cx_did cx"
  "ae_sid (new_event now ack p g n cx state reason i) = cx_sid cx"
  "ae_state (new_event now ack p g n cx state reason i)
     = (if state = Active \<and> ack \<noteq> None then Acknowledged else state)"
  by (auto simp: new_event_def Let_def)

lemma evt_ok_log_event:
  assumes "evt_ok t" "state \<noteq> Acknowledged"
  shows "evt_ok (db_log_event now ack p g n cx state reason t)"
proof (cases "if state = Active then newest_open (cx_did cx) (cx_sid cx) t else None")
  case (Some ex)
  then show ?thesis
    unfolding db_log_event_def by (simp add: evt_ok_upd_where [OF assms(1) closing_refire])
next
  case None
  let ?e = "new_event now ack p g n cx state reason (et_next t)"
  have "is_open ?e \<Longrightarrow> state = Active" using assms(2) by (auto simp: is_open_def split: if_splits)
  then have "is_open ?e \<Longrightarrow> \<forall>f \<in> set (et_rows t). \<not> open_for (ae_did ?e) (ae_sid ?e) f"
    using None by (simp add: newest_open_None)
  then have "evt_ok (evt_insert ?e t)" by (intro evt_ok_insert [OF assms(1)]) simp_all
  then show ?thesis by (simp only: db_log_event_def None option.case)
qed

lemmas evt_ok_updates =
  evt_ok_upd_where [OF _ closing_resolve] evt_ok_upd_where [OF _ closing_refire]

lemma evt_ok_resolves:
  assumes "evt_ok t"
  shows "evt_ok (db_resolve_event now i t)" "evt_ok (db_auto_resolve_event now p d s t)"
    "evt_ok (db_resolve_events_by_sensor now d s t)" "evt_ok (fst (db_resolve_all_active now t))"
  using assms
  by (simp_all add: db_resolve_event_def db_auto_resolve_event_def db_resolve_events_by_sensor_def
      db_resolve_all_active_def evt_ok_updates)

lemma evt_ok_ack_by_sensor: "evt_ok t \<Longrightarrow> evt_ok (db_ack_events_by_sensor now d s actor t)"
  unfolding db_ack_events_by_sensor_def
  by (rule evt_ok_upd_where, assumption, rule closing_ack) (simp add: is_open_def)

text \<open>The statement that acknowledges by number opens a row that was resolved; on an open row it is harmless.\<close>

lemma evt_ok_ack:
  assumes "evt_ok t" "list_all (\<lambda>e. ae_id e = k \<longrightarrow> is_open e) (et_rows t)"
  shows "evt_ok (db_ack_event now k actor t)"
proof -
  let ?f = "\<lambda>e. e\<lparr> ae_state := Acknowledged, ae_ack_by := actor, ae_ack_at := now \<rparr>"
  have "upd_where (\<lambda>e. ae_id e = k) ?f t = upd_where (\<lambda>e. ae_id e = k \<and> is_open e) ?f t"
    using assms(2) by (simp add: upd_where_def list_all_iff)
  moreover have "evt_ok (upd_where (\<lambda>e. ae_id e = k \<and> is_open e) ?f t)"
    by (rule evt_ok_upd_where [OF assms(1) closing_ack]) simp
  ultimately show ?thesis by (simp add: db_ack_event_def)
qed

lemma evt_ok_clean: "evt_ok t \<Longrightarrow> evt_ok (db_clean_alert_events now k t)"
  by (auto simp: evt_ok_def db_clean_alert_events_def Let_def distinct_map_filter)

lemma clean_keeps_open:
  "filter is_open (et_rows (db_clean_alert_events now k t)) = filter is_open (et_rows t)"
  by (auto simp: db_clean_alert_events_def Let_def is_open_def intro!: filter_cong)

text \<open>After a resolve by sensor nothing is open for it, and nothing else changed.\<close>

lemma has_active_upd_where:
  assumes "closing P f"
  shows "db_has_active_event d s (upd_where P f t)
    = (\<exists>e \<in> set (et_rows t). if P e then open_for d s (f e) else open_for d s e)"
  by (auto simp: db_has_active_event_def upd_where_def list_ex_iff)

lemma resolve_by_sensor_active:
  "db_has_active_event d' s' (db_resolve_events_by_sensor now d s t)
     = (db_has_active_event d' s' t \<and> (d', s') \<noteq> (d, s))"
  unfolding db_resolve_events_by_sensor_def has_active_upd_where [OF closing_resolve]
  by (auto simp: db_has_active_event_def list_ex_iff open_for_def is_open_def split: if_splits)

text \<open>Logging an active event leaves the sensor with an open row.\<close>

lemma log_event_opens:
  "db_has_active_event (cx_did cx) (cx_sid cx) (db_log_event now ack p g n cx Active reason t)"
proof (cases "newest_open (cx_did cx) (cx_sid cx) t")
  case (Some e)
  let ?P = "\<lambda>x. ae_id x = ae_id e"
  from newest_open_Some [OF Some]
  have "\<exists>x \<in> set (et_rows t). if ?P x then open_for (cx_did cx) (cx_sid cx) (refire p g n cx x)
          else open_for (cx_did cx) (cx_sid cx) x"
    by (intro bexI [of _ e]) (simp_all add: open_for_def is_open_def)
  then show ?thesis
    by (simp only: db_log_event_def Some if_True simp_thms option.case
        has_active_upd_where [OF closing_refire])
next
  case None
  then show ?thesis
    by (simp add: db_log_event_def db_has_active_event_def list_ex_iff open_for_def is_open_def
        evt_insert_def)
qed

end
