(* ===== verification/Maintenance.thy ===== *)
theory Maintenance
  imports Json AlertEvents
begin

text \<open>
  Maintenance windows: the table (\<open>db/maintenance_windows.py\<close>) and the check the alert engine makes
  before every dispatch (\<open>check_maintenance\<close> in \<open>monitoring/alert_dispatchers.py\<close>). The wall clock of
  the server's time zone is an argument: weekday and seconds since local midnight.
\<close>

section \<open>Strings of the schedule\<close>

text \<open>\<open>str.split\<close> on one character.\<close>

fun split_on :: "char \<Rightarrow> string \<Rightarrow> string list" where
  "split_on x [] = [[]]"
| "split_on x (c # cs) =
     (if c = x then [] # split_on x cs
      else case split_on x cs of w # ws \<Rightarrow> (c # w) # ws | [] \<Rightarrow> [[c]])"

text \<open>\<open>strptime(s, "%H:%M")\<close>: one or two digits each, in range; minutes since midnight.\<close>

definition two_digits :: "int \<Rightarrow> string \<Rightarrow> int option" where
  "two_digits hi d = (if d \<noteq> [] \<and> length d \<le> 2 \<and> list_all is_digit d \<and> digits_val d \<le> hi
     then Some (digits_val d) else None)"

definition parse_hm :: "string \<Rightarrow> int option" where
  "parse_hm t =
     (let h = takeWhile (\<lambda>c. c \<noteq> CHR '':'') t; r = drop (length h) t
      in if r = [] then None
         else case (two_digits 23 h, two_digits 59 (tl r)) of
                (Some a, Some b) \<Rightarrow> Some (60 * a + b)
              | _ \<Rightarrow> None)"

section \<open>The table\<close>

record window =
  w_id :: int
  w_name :: string
  w_scope_type :: string
  w_scope_value :: string
  w_start_ts :: ts
  w_end_ts :: ts
  w_recurring :: bool
  w_recur_days :: string
  w_recur_start :: string
  w_recur_end :: string
  w_enabled :: "bool option"       \<comment> \<open>\<open>None\<close>: a row older than the column\<close>
  w_created_by :: string
  w_created_at :: ts

record window_in =
  wi_name :: string
  wi_scope_type :: "string option"
  wi_scope_value :: "string option"
  wi_start_ts :: ts
  wi_end_ts :: ts
  wi_recurring :: bool
  wi_recur_days :: string
  wi_recur_start :: string
  wi_recur_end :: string
  wi_enabled :: "bool option"

record window_db =
  wd_rows :: "window list"
  wd_next :: int

definition opt_or :: "'a option \<Rightarrow> 'a \<Rightarrow> 'a" where
  "opt_or x d = (case x of Some v \<Rightarrow> v | None \<Rightarrow> d)"

definition mk_window :: "int \<Rightarrow> window_in \<Rightarrow> string \<Rightarrow> ts \<Rightarrow> window" where
  "mk_window i d creator now =
     \<lparr> w_id = i, w_name = wi_name d, w_scope_type = opt_or (wi_scope_type d) ''all'',
       w_scope_value = opt_or (wi_scope_value d) [], w_start_ts = wi_start_ts d,
       w_end_ts = wi_end_ts d, w_recurring = wi_recurring d, w_recur_days = wi_recur_days d,
       w_recur_start = wi_recur_start d, w_recur_end = wi_recur_end d,
       w_enabled = Some (opt_or (wi_enabled d) True), w_created_by = creator, w_created_at = now \<rparr>"

definition db_create_window :: "window_in \<Rightarrow> string \<Rightarrow> ts \<Rightarrow> window_db \<Rightarrow> window_db \<times> int" where
  "db_create_window d creator now db =
     (db\<lparr> wd_rows := wd_rows db @ [mk_window (wd_next db) d creator now], wd_next := wd_next db + 1 \<rparr>,
      wd_next db)"

definition db_update_window :: "int \<Rightarrow> window_in \<Rightarrow> window_db \<Rightarrow> window_db" where
  "db_update_window i d db = db\<lparr> wd_rows :=
     map (\<lambda>w. if w_id w = i then mk_window i d (w_created_by w) (w_created_at w) else w) (wd_rows db) \<rparr>"

definition db_set_window_enabled :: "int \<Rightarrow> bool \<Rightarrow> window_db \<Rightarrow> window_db" where
  "db_set_window_enabled i b db = db\<lparr> wd_rows :=
     map (\<lambda>w. if w_id w = i then w\<lparr> w_enabled := Some b \<rparr> else w) (wd_rows db) \<rparr>"

definition db_delete_window :: "int \<Rightarrow> window_db \<Rightarrow> window_db" where
  "db_delete_window i db = db\<lparr> wd_rows := filter (\<lambda>w. w_id w \<noteq> i) (wd_rows db) \<rparr>"

definition db_get_window :: "int \<Rightarrow> window_db \<Rightarrow> window option" where
  "db_get_window i db = find (\<lambda>w. w_id w = i) (wd_rows db)"

definition db_active_windows :: "ts \<Rightarrow> window_db \<Rightarrow> window list" where
  "db_active_windows now db =
     filter (\<lambda>w. w_start_ts w \<le> now \<and> w_end_ts w \<ge> now \<and> w_enabled w \<noteq> Some False) (wd_rows db)"

section \<open>The check\<close>

record local_clock =
  lc_weekday :: int        \<comment> \<open>\<open>isoweekday()\<close>: 1 is Monday, 7 Sunday\<close>
  lc_time :: real          \<comment> \<open>seconds since local midnight\<close>

definition mw_parse_groups :: "string \<Rightarrow> json list" where
  "mw_parse_groups v =
     (if v = [] then []
      else case json_loads v of
             Some (JArr xs) \<Rightarrow> xs
           | _ \<Rightarrow> [JStr v])"

definition recur_days :: "window \<Rightarrow> string list" where
  "recur_days w = filter (\<lambda>d. d \<noteq> []) (map strip (split_on (CHR '','') (w_recur_days w)))"

text \<open>Inside the daily interval; a start after the end is an interval across midnight.\<close>

definition in_interval :: "int \<Rightarrow> int \<Rightarrow> real \<Rightarrow> bool" where
  "in_interval a b t =
     (let rs = of_int a * 60; re = of_int b * 60
      in if rs \<le> re then rs \<le> t \<and> t \<le> re else t \<ge> rs \<or> t \<le> re)"

definition recurs_now :: "local_clock \<Rightarrow> window \<Rightarrow> bool" where
  "recurs_now lc w =
     (if recur_days w \<noteq> [] \<and> str_of_int (lc_weekday lc) \<notin> set (recur_days w) then False
      else if w_recur_start w \<noteq> [] \<and> w_recur_end w \<noteq> [] then
        (case (parse_hm (w_recur_start w), parse_hm (w_recur_end w)) of
           (Some a, Some b) \<Rightarrow> in_interval a b (lc_time lc)
         | _ \<Rightarrow> False)
      else True)"

definition scope_matches :: "actx \<Rightarrow> window \<Rightarrow> bool" where
  "scope_matches cx w =
     (if w_scope_type w = ''group'' \<and> JStr (cx_grp cx) \<notin> set (mw_parse_groups (w_scope_value w)) then False
      else if w_scope_type w = ''device'' \<and> cx_did cx \<noteq> w_scope_value w then False
      else if w_scope_type w = ''site'' \<and> cx_site cx \<noteq> w_scope_value w then False
      else True)"

fun check_windows :: "local_clock \<Rightarrow> actx \<Rightarrow> window list \<Rightarrow> bool \<times> string" where
  "check_windows lc cx [] = (False, [])"
| "check_windows lc cx (w # ws) =
     (if w_recurring w \<and> \<not> recurs_now lc w then check_windows lc cx ws
      else if \<not> scope_matches cx w then check_windows lc cx ws
      else (True, w_name w))"

definition check_maintenance :: "ts \<Rightarrow> local_clock \<Rightarrow> window_db \<Rightarrow> actx \<Rightarrow> bool \<times> string" where
  "check_maintenance now lc db cx = check_windows lc cx (db_active_windows now db)"

section \<open>Laws\<close>

text \<open>When a window covers an alert: the specification, window by window.\<close>

definition covers :: "ts \<Rightarrow> local_clock \<Rightarrow> actx \<Rightarrow> window \<Rightarrow> bool" where
  "covers now lc cx w \<longleftrightarrow>
     w_enabled w \<noteq> Some False \<and> w_start_ts w \<le> now \<and> now \<le> w_end_ts w
     \<and> (w_recurring w \<longrightarrow> recurs_now lc w) \<and> scope_matches cx w"

lemma check_windows_find:
  "check_windows lc cx ws = (case find (\<lambda>w. (w_recurring w \<longrightarrow> recurs_now lc w) \<and> scope_matches cx w) ws of
     None \<Rightarrow> (False, []) | Some w \<Rightarrow> (True, w_name w))"
  by (induction ws) auto

lemma find_filter: "find P (filter Q xs) = find (\<lambda>x. Q x \<and> P x) xs"
  by (induction xs) auto

lemma check_maintenance_find:
  "check_maintenance now lc db cx = (case find (covers now lc cx) (wd_rows db) of
     None \<Rightarrow> (False, []) | Some w \<Rightarrow> (True, w_name w))"
proof -
  have "(\<lambda>x. (w_start_ts x \<le> now \<and> now \<le> w_end_ts x \<and> w_enabled x \<noteq> Some False)
      \<and> (w_recurring x \<longrightarrow> recurs_now lc x) \<and> scope_matches cx x) = covers now lc cx"
    by (rule ext) (auto simp: covers_def)
  then show ?thesis
    by (simp add: check_maintenance_def check_windows_find db_active_windows_def find_filter)
qed

lemma check_maintenance_iff:
  "fst (check_maintenance now lc db cx) \<longleftrightarrow> (\<exists>w \<in> set (wd_rows db). covers now lc cx w)"
proof (cases "find (covers now lc cx) (wd_rows db)")
  case None
  then show ?thesis by (simp add: check_maintenance_find) (simp add: find_NoneD)
next
  case (Some w)
  then show ?thesis using find_SomeD [OF Some] by (auto simp: check_maintenance_find)
qed

text \<open>Scopes: all, a list of groups, one device, one site; an unknown scope counts as all.\<close>

lemma scope_matches_cases:
  "w_scope_type w = ''device'' \<Longrightarrow> scope_matches cx w \<longleftrightarrow> cx_did cx = w_scope_value w"
  "w_scope_type w = ''site'' \<Longrightarrow> scope_matches cx w \<longleftrightarrow> cx_site cx = w_scope_value w"
  "w_scope_type w = ''group'' \<Longrightarrow> scope_matches cx w \<longleftrightarrow> JStr (cx_grp cx) \<in> set (mw_parse_groups (w_scope_value w))"
  "w_scope_type w \<notin> {''group'', ''device'', ''site''} \<Longrightarrow> scope_matches cx w"
  by (auto simp: scope_matches_def)

lemma mw_parse_groups_dumps:
  assumes "\<forall>x \<in> set gs. plain_text x"
  shows "mw_parse_groups (dumps_list gs) = map JStr gs"
  using json_loads_dumps [OF assms] by (simp add: mw_parse_groups_def) (simp add: dumps_list_def)

text \<open>Switching a window off ends its effect, whatever its schedule says.\<close>

lemma disabled_never_covers:
  assumes "w_id w = i" "w \<in> set (wd_rows (db_set_window_enabled i False db))"
  shows "\<not> covers now lc cx w"
proof -
  let ?f = "\<lambda>w. if w_id w = i then w\<lparr> w_enabled := Some False \<rparr> else w"
  have "w \<in> ?f ` set (wd_rows db)" using assms(2) by (simp add: db_set_window_enabled_def)
  then obtain v where v: "w = ?f v" by (rule imageE)
  have "w_id v = i" using assms(1) unfolding v by (simp split: if_splits)
  then have "w_enabled w = Some False" unfolding v by simp
  then show ?thesis by (simp add: covers_def)
qed

lemma deleted_never_covers: "w \<in> set (wd_rows (db_delete_window i db)) \<Longrightarrow> w_id w \<noteq> i"
  by (simp add: db_delete_window_def)

lemma in_interval_complement:
  assumes "a \<noteq> b" "t \<noteq> of_int a * 60" "t \<noteq> of_int b * 60"
  shows "in_interval b a t \<longleftrightarrow> \<not> in_interval a b t"
  using assms by (auto simp: in_interval_def Let_def)

lemma parse_hm_bounds: "parse_hm t = Some m \<Longrightarrow> m \<le> 23 * 60 + 59"
  by (auto simp: parse_hm_def two_digits_def Let_def split: option.splits if_splits)

end
