(* ===== verification/RootCause.thy ===== *)
theory RootCause
  imports AlertEvents "HOL-Library.List_Lexorder" "HOL-Library.Char_ord" "HOL-Library.Product_Lexorder"
begin

text \<open>
  Root-cause correlation (\<open>monitoring/root_cause.py\<close>, with the parent resolution and the tier
  classification of \<open>monitoring/site_tree.py\<close>): which down devices are symptoms of a down upstream,
  the incidents shown to the operator, and the five-second memo in front of both. The iteration
  order of the Python set of down devices is an argument; the regular expressions of the tier rules
  are an argument as well (a list of tier and match predicate, tried in order).
\<close>

section \<open>The parent graph\<close>

definition resolve_parents :: "(string, string list) dict \<Rightarrow> device \<Rightarrow> string list" where
  "resolve_parents gp d =
     (if d_parent_device_ids d \<noteq> [] then d_parent_device_ids d
      else let g = strip (d_group d)
           in if g \<noteq> [] then (case dget gp g of Some ps \<Rightarrow> ps | None \<Rightarrow> []) else [])"

definition device_parents :: "(string, string list) dict \<Rightarrow> (did, device) dict \<Rightarrow> did \<Rightarrow> did list" where
  "device_parents gp devs x = (case dget devs x of
       None \<Rightarrow> []
     | Some d \<Rightarrow> filter (\<lambda>p. \<not> startswith ''group:'' p \<and> dget devs p \<noteq> None) (resolve_parents gp d))"

definition is_down :: "(did, device) dict \<Rightarrow> did \<Rightarrow> bool" where
  "is_down devs x = (case dget devs x of None \<Rightarrow> False | Some d \<Rightarrow> snd (device_status d) = Down)"

definition all_parents_down :: "('a \<Rightarrow> 'a list) \<Rightarrow> ('a \<Rightarrow> bool) \<Rightarrow> 'a \<Rightarrow> bool" where
  "all_parents_down ps dn x \<longleftrightarrow> ps x \<noteq> [] \<and> list_all dn (ps x)"

text \<open>The upstream walk: at most \<open>_MAX_WALK\<close> hops, stopped by a repeated device.\<close>

definition MAX_WALK :: nat where "MAX_WALK = 64"

fun root_walk :: "('a::linorder \<Rightarrow> 'a list) \<Rightarrow> ('a \<Rightarrow> bool) \<Rightarrow> nat \<Rightarrow> 'a list \<Rightarrow> 'a \<Rightarrow> 'a" where
  "root_walk ps dn 0 seen cur = cur"
| "root_walk ps dn (Suc n) seen cur =
     (if cur \<in> set seen then cur
      else if \<not> all_parents_down ps dn cur then cur
      else case sort (filter dn (ps cur)) of
             [] \<Rightarrow> cur
           | p # _ \<Rightarrow> root_walk ps dn n (cur # seen) p)"

definition find_root :: "('a::linorder \<Rightarrow> 'a list) \<Rightarrow> ('a \<Rightarrow> bool) \<Rightarrow> 'a \<Rightarrow> 'a" where
  "find_root ps dn x = root_walk ps dn MAX_WALK [] x"

section \<open>Tiers\<close>

definition infer_tier :: "(string \<times> (string \<Rightarrow> bool)) list \<Rightarrow> (string, string) dict \<Rightarrow> string list
    \<Rightarrow> (string, string) dict \<Rightarrow> (did, string) dict \<Rightarrow> device \<Rightarrow> string" where
  "infer_tier rules role_to_tier valid group_over role_over d =
     (case Option.bind (dget role_over (d_device_id d)) (dget role_to_tier) of
        Some t \<Rightarrow> t
      | None \<Rightarrow>
          (let g = strip (d_group d) in
           case (if g = [] then None else dget group_over g) of
             Some ov \<Rightarrow> if ov \<in> set valid then ov
                        else (case find (\<lambda>(t, rx). rx (d_name d @ '' '' @ d_host d @ '' '' @ g)) rules of
                                Some (t, _) \<Rightarrow> t | None \<Rightarrow> ''hypervisor'')
           | None \<Rightarrow> (case find (\<lambda>(t, rx). rx (d_name d @ '' '' @ d_host d @ '' '' @ g)) rules of
                        Some (t, _) \<Rightarrow> t | None \<Rightarrow> ''hypervisor'')))"

section \<open>Incidents and suppression\<close>

definition device_down_since :: "device \<Rightarrow> ts option" where
  "device_down_since d =
     foldl (\<lambda>acc s. case s_down_since_ts s of
              Some t \<Rightarrow> if t \<noteq> 0 \<and> (case acc of None \<Rightarrow> True | Some u \<Rightarrow> t < u) then Some t else acc
            | None \<Rightarrow> acc) None (map snd (d_sensors d))"

record summary =
  su_did :: did
  su_name :: string
  su_host :: string
  su_group :: string
  su_site :: string
  su_tier :: string
  su_status :: status
  su_down_since :: "int option"

definition site_of :: "device \<Rightarrow> string" where
  "site_of d = (let s = strip (d_site d) in if s \<noteq> [] then s else ''Unsited'')"

definition dev_summary :: "device \<Rightarrow> string \<Rightarrow> summary" where
  "dev_summary d tier =
     \<lparr> su_did = d_device_id d, su_name = d_name d, su_host = d_host d, su_group = d_group d,
       su_site = site_of d, su_tier = tier, su_status = snd (device_status d),
       su_down_since = map_option py_int (device_down_since d) \<rparr>"

datatype reason = RInfra string | RFirst | RTrap

record incident =
  in_root :: summary
  in_impacted :: "summary list"
  in_confidence :: string
  in_reasons :: "reason list"

definition infra_tiers :: "string list" where
  "infra_tiers = [''isp'', ''wan_switch'', ''firewall'', ''core_switch'', ''switch'', ''ap'', ''chassis'']"

text \<open>The static part of a computation: topology, statuses, tiers, trap evidence.\<close>

record rca_in =
  ri_devs :: "(did, device) dict"
  ri_group_parents :: "(string, string list) dict"
  ri_tier :: "did \<Rightarrow> string"
  ri_down :: "did list"              \<comment> \<open>the set \<open>down\<close> in its iteration order\<close>
  ri_traps :: "string list"

definition ri_parents :: "rca_in \<Rightarrow> did \<Rightarrow> did list" where
  "ri_parents ri = device_parents (ri_group_parents ri) (ri_devs ri)"

definition ri_root :: "rca_in \<Rightarrow> did \<Rightarrow> did" where
  "ri_root ri = find_root (ri_parents ri) (\<lambda>x. x \<in> set (ri_down ri))"

definition summary_of :: "rca_in \<Rightarrow> did \<Rightarrow> summary option" where
  "summary_of ri x = map_option (\<lambda>d. dev_summary d (ri_tier ri x)) (dget (ri_devs ri) x)"

definition suppress_map :: "rca_in \<Rightarrow> (did, summary) dict" where
  "suppress_map ri = List.map_filter (\<lambda>x.
       if all_parents_down (ri_parents ri) (\<lambda>x. x \<in> set (ri_down ri)) x
          \<and> ri_root ri x \<noteq> x \<and> ri_root ri x \<in> set (ri_down ri)
       then map_option (Pair x) (summary_of ri (ri_root ri x)) else None)
     (map fst (ri_devs ri))"

text \<open>\<open>clusters[find_root(did)].append(did)\<close> over the down devices.\<close>

definition cluster_roots :: "rca_in \<Rightarrow> did list" where
  "cluster_roots ri = rev (remdups (rev (map (ri_root ri) (ri_down ri))))"

definition cluster_members :: "rca_in \<Rightarrow> did \<Rightarrow> did list" where
  "cluster_members ri r = filter (\<lambda>x. ri_root ri x = r) (ri_down ri)"

definition reasons_of :: "rca_in \<Rightarrow> summary \<Rightarrow> summary list \<Rightarrow> reason list" where
  "reasons_of ri r imp =
     (let child = List.map_filter (\<lambda>c. case su_down_since c of Some t \<Rightarrow> if t \<noteq> 0 then Some t else None
                                     | None \<Rightarrow> None) imp
      in (if su_tier r \<in> set infra_tiers then [RInfra (su_tier r)] else [])
         @ (case su_down_since r of
              Some t \<Rightarrow> if imp \<noteq> [] \<and> t \<noteq> 0 \<and> child \<noteq> [] \<and> t \<le> Min (set child) then [RFirst] else []
            | None \<Rightarrow> [])
         @ (if su_host r \<in> set (ri_traps ri) \<or> su_name r \<in> set (ri_traps ri) then [RTrap] else []))"

definition confidence_of :: "summary \<Rightarrow> summary list \<Rightarrow> reason list \<Rightarrow> string" where
  "confidence_of r imp rs =
     (if imp = [] then ''low''
      else if su_tier r \<in> set infra_tiers \<and> 2 \<le> length rs then ''high'' else ''medium'')"

definition incident_of :: "rca_in \<Rightarrow> did \<Rightarrow> incident option" where
  "incident_of ri r = map_option (\<lambda>root.
       (let imp = sort_key (\<lambda>s. (su_tier s, lower (su_name s)))
                    (List.map_filter (summary_of ri) (filter (\<lambda>m. m \<noteq> r) (cluster_members ri r)));
            rs = reasons_of ri root imp
        in \<lparr> in_root = root, in_impacted = imp, in_confidence = confidence_of root imp rs,
             in_reasons = rs \<rparr>)) (summary_of ri r)"

text \<open>\<open>sort(reverse=True)\<close> keeps equal elements in order.\<close>

definition sort_desc :: "('a \<Rightarrow> 'b::linorder) \<Rightarrow> 'a list \<Rightarrow> 'a list" where
  "sort_desc k xs = rev (sort_key k (rev xs))"

definition incident_key :: "incident \<Rightarrow> int \<times> int" where
  "incident_key i = (int (length (in_impacted i)),
     - (case su_down_since (in_root i) of Some t \<Rightarrow> t | None \<Rightarrow> 0))"

definition compute_full :: "rca_in \<Rightarrow> incident list \<times> (did, summary) dict" where
  "compute_full ri =
     (if ri_devs ri = [] then ([], [])
      else (sort_desc incident_key (List.map_filter (incident_of ri) (cluster_roots ri)),
            suppress_map ri))"

section \<open>The memo\<close>

record rca_memo =
  me_ts :: ts
  me_incidents :: "incident list"
  me_suppress :: "(did, summary) dict"

definition MEMO_TTL :: real where "MEMO_TTL = 5"

definition rca_refresh :: "ts \<Rightarrow> rca_in \<Rightarrow> rca_memo \<Rightarrow> rca_memo" where
  "rca_refresh now ri m =
     (if 0 < me_ts m \<and> now - me_ts m < MEMO_TTL then m
      else let (i, s) = compute_full ri in \<lparr> me_ts = now, me_incidents = i, me_suppress = s \<rparr>)"

definition rca_invalidate :: "rca_memo \<Rightarrow> rca_memo" where
  "rca_invalidate m = m\<lparr> me_ts := 0 \<rparr>"

definition suppressed_root_for :: "bool \<Rightarrow> ts \<Rightarrow> rca_in \<Rightarrow> did \<Rightarrow> rca_memo \<Rightarrow> rca_memo \<times> summary option" where
  "suppressed_root_for enabled now ri x m =
     (if \<not> enabled then (m, None)
      else let m' = rca_refresh now ri m in (m', dget (me_suppress m') x))"

section \<open>The walk\<close>

definition up_step :: "('a::linorder \<Rightarrow> 'a list) \<Rightarrow> ('a \<Rightarrow> bool) \<Rightarrow> 'a \<Rightarrow> 'a option" where
  "up_step ps dn x = (if all_parents_down ps dn x
     then (case sort (filter dn (ps x)) of [] \<Rightarrow> None | p # _ \<Rightarrow> Some p) else None)"

lemma root_walk_Suc:
  "root_walk ps dn (Suc n) seen cur =
     (if cur \<in> set seen then cur
      else case up_step ps dn cur of None \<Rightarrow> cur | Some p \<Rightarrow> root_walk ps dn n (cur # seen) p)"
  by (cases "sort (filter dn (ps cur))") (auto simp: up_step_def)

declare root_walk.simps(2) [simp del]

lemma up_step_parent:
  assumes "up_step ps dn x = Some p"
  shows "p \<in> set (ps x)" "dn p" "all_parents_down ps dn x"
proof -
  from assms obtain r where "sort (filter dn (ps x)) = p # r" and a: "all_parents_down ps dn x"
    by (auto simp: up_step_def split: if_splits list.splits)
  then have "p \<in> set (sort (filter dn (ps x)))" by simp
  then show "p \<in> set (ps x)" "dn p" by simp_all
  show "all_parents_down ps dn x" by (rule a)
qed

lemma up_step_None: "up_step ps dn x = None \<longleftrightarrow> \<not> all_parents_down ps dn x"
proof -
  have "sort (filter dn (ps x)) \<noteq> []" if "all_parents_down ps dn x"
  proof -
    from that obtain y where "y \<in> set (ps x)" "dn y"
      by (cases "ps x") (auto simp: all_parents_down_def)
    then have "y \<in> set (sort (filter dn (ps x)))" by simp
    then show ?thesis by force
  qed
  then show ?thesis by (auto simp: up_step_def split: list.splits)
qed

text \<open>A trail of upstream steps: each device is explained by the next.\<close>

fun trail :: "('a::linorder \<Rightarrow> 'a list) \<Rightarrow> ('a \<Rightarrow> bool) \<Rightarrow> 'a list \<Rightarrow> bool" where
  "trail ps dn [] = True"
| "trail ps dn [x] = True"
| "trail ps dn (x # y # zs) = (up_step ps dn x = Some y \<and> trail ps dn (y # zs))"

lemma root_walk_trail:
  "\<exists>zs. trail ps dn (zs @ [root_walk ps dn n seen cur]) \<and> hd (zs @ [root_walk ps dn n seen cur]) = cur
     \<and> distinct zs \<and> set zs \<inter> set seen = {} \<and> length zs \<le> n
     \<and> (up_step ps dn (root_walk ps dn n seen cur) = None
        \<or> root_walk ps dn n seen cur \<in> set seen \<union> set zs \<or> length zs = n)"
proof (induction n arbitrary: seen cur)
  case 0
  then show ?case by (intro exI [of _ "[]"]) simp
next
  case (Suc n)
  show ?case
  proof (cases "cur \<in> set seen \<or> up_step ps dn cur = None")
    case True
    then have "root_walk ps dn (Suc n) seen cur = cur" by (auto simp: root_walk_Suc)
    with True show ?thesis by (intro exI [of _ "[]"]) auto
  next
    case False
    then obtain p where p: "up_step ps dn cur = Some p" "cur \<notin> set seen" by auto
    then have w: "root_walk ps dn (Suc n) seen cur = root_walk ps dn n (cur # seen) p"
      by (simp add: root_walk_Suc)
    let ?r = "root_walk ps dn n (cur # seen) p"
    obtain zs where zs: "trail ps dn (zs @ [?r])" "hd (zs @ [?r]) = p" "distinct zs"
        "set zs \<inter> set (cur # seen) = {}" "length zs \<le> n"
        "up_step ps dn ?r = None \<or> ?r \<in> set (cur # seen) \<union> set zs \<or> length zs = n"
      using Suc.IH by blast
    obtain t where t: "zs @ [?r] = p # t" using zs(2) by (cases "zs @ [?r]") auto
    have "trail ps dn (cur # zs @ [?r])" using zs(1) p(1) by (simp add: t)
    then show ?thesis
      unfolding w using zs(3-6) p(2) by (intro exI [of _ "cur # zs"]) auto
  qed
qed

lemma trail_append: "trail ps dn (xs @ ys) \<Longrightarrow> trail ps dn ys"
proof (induction xs)
  case (Cons x xs)
  then show ?case by (cases "xs @ ys") auto
qed simp

text \<open>Walking round a cycle ends where it began.\<close>

lemma root_walk_to_seen:
  "trail ps dn (ws @ [r]) \<Longrightarrow> r \<in> set seen \<Longrightarrow> distinct ws \<Longrightarrow> set ws \<inter> set seen = {} \<Longrightarrow> length ws \<le> n
   \<Longrightarrow> root_walk ps dn n seen (hd (ws @ [r])) = r"
proof (induction ws arbitrary: seen n)
  case Nil
  then show ?case by (cases n) (auto simp: root_walk_Suc)
next
  case (Cons w ws)
  obtain m where m: "n = Suc m" using Cons.prems(5) by (cases n) auto
  obtain p t where t: "ws @ [r] = p # t" by (cases "ws @ [r]") auto
  have step: "up_step ps dn w = Some p" "trail ps dn (ws @ [r])" using Cons.prems(1) t by auto
  have "root_walk ps dn m (w # seen) (hd (ws @ [r])) = r"
    by (rule Cons.IH [OF step(2)]) (use Cons.prems m in auto)
  then show ?case using Cons.prems(4) by (simp add: m root_walk_Suc step(1) t)
qed

lemma find_root_on_cycle:
  assumes "trail ps dn (r # bs @ [r])" "distinct (r # bs)" "length bs < MAX_WALK"
  shows "find_root ps dn r = r"
proof -
  obtain k where k: "MAX_WALK = Suc k" by (simp add: MAX_WALK_def)
  obtain p t where t: "bs @ [r] = p # t" by (cases "bs @ [r]") auto
  have step: "up_step ps dn r = Some p" "trail ps dn (bs @ [r])" using assms(1) t by auto
  have "root_walk ps dn k [r] (hd (bs @ [r])) = r"
    by (rule root_walk_to_seen [OF step(2)]) (use assms(2,3) k in auto)
  then show ?thesis by (simp add: find_root_def k root_walk_Suc step(1) t)
qed

lemma trail_down:
  "trail ps dn (zs @ [r]) \<Longrightarrow> zs \<noteq> [] \<Longrightarrow> dn r \<and> (\<forall>x \<in> set zs. all_parents_down ps dn x)"
proof (induction zs)
  case Nil
  then show ?case by simp
next
  case (Cons z zs)
  obtain p t where t: "zs @ [r] = p # t" by (cases "zs @ [r]") auto
  have step: "up_step ps dn z = Some p" "trail ps dn (zs @ [r])" using Cons.prems(1) t by auto
  show ?case
  proof (cases "zs = []")
    case True
    then show ?thesis using up_step_parent [OF step(1)] t by auto
  next
    case False
    then show ?thesis using Cons.IH [OF step(2)] up_step_parent(3) [OF step(1)] by auto
  qed
qed

lemma trail_closed:
  assumes "\<And>x p. x \<in> S \<Longrightarrow> p \<in> set (ps x) \<Longrightarrow> p \<in> S"
  shows "trail ps dn zs \<Longrightarrow> zs \<noteq> [] \<Longrightarrow> hd zs \<in> S \<Longrightarrow> set zs \<subseteq> S"
proof (induction zs)
  case (Cons z zs)
  show ?case
  proof (cases zs)
    case Nil
    with Cons.prems show ?thesis by simp
  next
    case (Cons y ys)
    then have "up_step ps dn z = Some y" "trail ps dn zs" using Cons.prems local.Cons by auto
    moreover have "y \<in> S" using assms up_step_parent(1) Cons.prems(3) calculation(1) by fastforce
    ultimately show ?thesis using Cons.IH Cons.prems(3) \<open>zs = y # ys\<close> by simp
  qed
qed simp

text \<open>
  The walk finds a fixed root: with no more devices than hops, the root of a device is its own
  root, so it is never explained by somebody else.
\<close>

lemma find_root_fixed:
  assumes closed: "\<And>x p. x \<in> S \<Longrightarrow> p \<in> set (ps x) \<Longrightarrow> p \<in> S"
    and fin: "finite S" "card S \<le> MAX_WALK" and x: "x \<in> S"
  shows "find_root ps dn (find_root ps dn x) = find_root ps dn x"
proof -
  let ?r = "find_root ps dn x"
  obtain zs where zs: "trail ps dn (zs @ [?r])" "hd (zs @ [?r]) = x" "distinct zs"
      "length zs \<le> MAX_WALK"
      "up_step ps dn ?r = None \<or> ?r \<in> set zs \<or> length zs = MAX_WALK"
    using root_walk_trail [of ps dn MAX_WALK "[]" x] unfolding find_root_def by auto
  have sub: "set (zs @ [?r]) \<subseteq> S"
    by (rule trail_closed [OF closed zs(1)]) (use zs(2) x in simp_all)
  show ?thesis
  proof (cases "?r \<in> set zs")
    case True
    then obtain as bs where ab: "zs = as @ ?r # bs" by (meson split_list)
    have "trail ps dn ((?r # bs) @ [?r])"
      by (rule trail_append [of _ _ as]) (use zs(1) ab in \<open>metis append.assoc\<close>)
    moreover have "distinct (?r # bs)" "length bs < MAX_WALK"
      using arg_cong [OF ab, of length] arg_cong [OF ab, of distinct] zs(3,4) by auto
    ultimately show ?thesis by (intro find_root_on_cycle) simp_all
  next
    case False
    have "distinct (zs @ [?r])" using zs(3) False by simp
    then have "length (zs @ [?r]) \<le> card S"
      using card_mono [OF fin(1) sub] by (metis distinct_card)
    then have "length zs \<noteq> MAX_WALK" using fin(2) by simp
    then have "up_step ps dn ?r = None" using zs(5) False by blast
    then show ?thesis by (simp add: find_root_def [of ps dn ?r] MAX_WALK_def numeral_eq_Suc root_walk_Suc)
  qed
qed

lemma find_root_down:
  assumes "find_root ps dn x \<noteq> x"
  shows "dn (find_root ps dn x)" "all_parents_down ps dn x"
proof -
  let ?r = "find_root ps dn x"
  obtain zs where zs: "trail ps dn (zs @ [?r])" "hd (zs @ [?r]) = x"
    using root_walk_trail [of ps dn MAX_WALK "[]" x] unfolding find_root_def by auto
  have "zs \<noteq> []" using zs(2) assms by auto
  moreover from this have "x \<in> set zs" using zs(2) by (cases zs) auto
  ultimately show "dn ?r" "all_parents_down ps dn x" using trail_down [OF zs(1)] by blast+
qed

section \<open>Suppression\<close>

definition rca_ok :: "rca_in \<Rightarrow> bool" where
  "rca_ok ri \<longleftrightarrow> distinct (map fst (ri_devs ri)) \<and> distinct (ri_down ri)
     \<and> set (ri_down ri) = set (filter (is_down (ri_devs ri)) (map fst (ri_devs ri)))"

lemma ri_parents_closed:
  assumes "p \<in> set (ri_parents ri x)"
  shows "p \<in> set (map fst (ri_devs ri))"
proof (cases "dget (ri_devs ri) x")
  case None
  with assms show ?thesis by (simp add: ri_parents_def device_parents_def)
next
  case (Some d)
  with assms obtain e where "dget (ri_devs ri) p = Some e"
    by (auto simp: ri_parents_def device_parents_def)
  from imageI [OF map_of_SomeD [OF this], of fst] show ?thesis by simp
qed

lemma map_of_map_filter:
  assumes "\<And>x b. f x = Some b \<Longrightarrow> fst b = x"
  shows "map_of (List.map_filter f xs) k = (if k \<in> set xs then map_option snd (f k) else None)"
proof (induction xs)
  case Nil
  then show ?case by (simp add: map_filter_simps)
next
  case (Cons y ys)
  show ?case
  proof (cases "f y")
    case None
    then show ?thesis using Cons by (auto simp: map_filter_simps)
  next
    case (Some b)
    then have "b = (y, snd b)" using assms by (metis prod.collapse)
    then show ?thesis using Cons Some by (cases b) (auto simp: map_filter_simps)
  qed
qed

lemma suppress_map_lookup:
  "dget (suppress_map ri) x =
     (if x \<in> set (map fst (ri_devs ri))
         \<and> all_parents_down (ri_parents ri) (\<lambda>x. x \<in> set (ri_down ri)) x
         \<and> ri_root ri x \<noteq> x \<and> ri_root ri x \<in> set (ri_down ri)
      then summary_of ri (ri_root ri x) else None)"
proof -
  have "map_option snd (map_option (Pair x) y) = y" for x :: did and y :: "summary option"
    by (cases y) simp_all
  then show ?thesis
    unfolding suppress_map_def by (subst map_of_map_filter) (auto split: if_splits)
qed

lemma summary_of_some: "summary_of ri x \<noteq> None \<longleftrightarrow> x \<in> set (map fst (ri_devs ri))"
  by (simp add: summary_of_def map_of_eq_None_iff)

lemma suppress_map_iff:
  assumes "rca_ok ri" "x \<in> set (map fst (ri_devs ri))"
  shows "dget (suppress_map ri) x \<noteq> None \<longleftrightarrow> ri_root ri x \<noteq> x"
proof
  assume "dget (suppress_map ri) x \<noteq> None"
  then show "ri_root ri x \<noteq> x" by (auto simp: suppress_map_lookup split: if_splits)
next
  assume ne: "ri_root ri x \<noteq> x"
  then have "all_parents_down (ri_parents ri) (\<lambda>x. x \<in> set (ri_down ri)) x"
    "ri_root ri x \<in> set (ri_down ri)"
    using find_root_down [of "ri_parents ri" "\<lambda>x. x \<in> set (ri_down ri)" x]
    unfolding ri_root_def by blast+
  moreover from this(2) have "ri_root ri x \<in> set (map fst (ri_devs ri))"
    using assms(1) by (auto simp: rca_ok_def)
  then have "summary_of ri (ri_root ri x) \<noteq> None" unfolding summary_of_some .
  ultimately show "dget (suppress_map ri) x \<noteq> None"
    using ne assms(2) by (simp only: suppress_map_lookup if_True simp_thms)
qed

lemma ri_root_fixed:
  assumes "length (ri_devs ri) \<le> MAX_WALK" "x \<in> set (map fst (ri_devs ri))"
  shows "ri_root ri (ri_root ri x) = ri_root ri x"
  unfolding ri_root_def
proof (rule find_root_fixed [where S = "set (map fst (ri_devs ri))"])
  show "card (set (map fst (ri_devs ri))) \<le> MAX_WALK"
    using card_length [of "map fst (ri_devs ri)"] assms(1) by simp
qed (use assms ri_parents_closed in auto)

text \<open>Nothing is silenced without a down root that still alerts.\<close>

lemma suppressed_has_loud_root:
  assumes "rca_ok ri" "length (ri_devs ri) \<le> MAX_WALK" "dget (suppress_map ri) x = Some su"
  shows "ri_root ri x \<in> set (ri_down ri)" "dget (suppress_map ri) (ri_root ri x) = None"
    "summary_of ri (ri_root ri x) = Some su"
proof -
  have x: "x \<in> set (map fst (ri_devs ri))" and r: "ri_root ri x \<in> set (ri_down ri)"
    and su: "summary_of ri (ri_root ri x) = Some su"
    using assms(3) by (auto simp: suppress_map_lookup split: if_splits)
  show "ri_root ri x \<in> set (ri_down ri)" "summary_of ri (ri_root ri x) = Some su" by fact+
  show "dget (suppress_map ri) (ri_root ri x) = None"
    using ri_root_fixed [OF assms(2) x] by (simp add: suppress_map_lookup)
qed

text \<open>A device with a live uplink, or without parents, is never suppressed.\<close>

lemma live_uplink_not_suppressed:
  assumes "ri_parents ri x = [] \<or> (\<exists>p \<in> set (ri_parents ri x). p \<notin> set (ri_down ri))"
  shows "dget (suppress_map ri) x = None"
  using assms by (auto simp: suppress_map_lookup all_parents_down_def list_all_iff)

section \<open>Incidents partition the down devices\<close>

lemma cluster_roots_set: "set (cluster_roots ri) = ri_root ri ` set (ri_down ri)"
  by (simp add: cluster_roots_def)

lemma cluster_roots_distinct: "distinct (cluster_roots ri)"
  by (simp add: cluster_roots_def)

lemma cluster_partition:
  assumes "x \<in> set (ri_down ri)"
  shows "\<exists>!r. r \<in> set (cluster_roots ri) \<and> x \<in> set (cluster_members ri r)"
  using assms by (intro ex1I [of _ "ri_root ri x"]) (auto simp: cluster_roots_set cluster_members_def)

lemma cluster_root_member:
  assumes "rca_ok ri" "length (ri_devs ri) \<le> MAX_WALK" "r \<in> set (cluster_roots ri)"
  shows "r \<in> set (cluster_members ri r)"
proof -
  obtain x where x: "x \<in> set (ri_down ri)" "r = ri_root ri x"
    using assms(3) by (auto simp: cluster_roots_set)
  have dom: "x \<in> set (map fst (ri_devs ri))" using x(1) assms(1) by (auto simp: rca_ok_def)
  have "r \<in> set (ri_down ri)"
  proof (cases "ri_root ri x = x")
    case True
    then show ?thesis using x by simp
  next
    case False
    then show ?thesis
      using find_root_down(1) [of "ri_parents ri" "\<lambda>x. x \<in> set (ri_down ri)" x] x(2)
      unfolding ri_root_def by blast
  qed
  then show ?thesis using ri_root_fixed [OF assms(2) dom] x(2) by (simp add: cluster_members_def)
qed

lemma length_map_filter_all: "\<forall>x \<in> set xs. f x \<noteq> None \<Longrightarrow> length (List.map_filter f xs) = length xs"
  by (induction xs) (auto simp: map_filter_simps split: option.splits)

lemma incident_of_some: "incident_of ri r \<noteq> None \<longleftrightarrow> r \<in> set (map fst (ri_devs ri))"
proof -
  have "map_option g o' = None \<longleftrightarrow> o' = None" for g and o' :: "summary option" by (cases o') simp_all
  then have "incident_of ri r \<noteq> None \<longleftrightarrow> summary_of ri r \<noteq> None" by (simp add: incident_of_def)
  then show ?thesis unfolding summary_of_some .
qed

lemma length_filter_ne: "distinct xs \<Longrightarrow> r \<in> set xs \<Longrightarrow> Suc (length (filter (\<lambda>m. m \<noteq> r) xs)) = length xs"
proof (induction xs)
  case (Cons y ys)
  have "y = r \<Longrightarrow> filter (\<lambda>m. m \<noteq> r) ys = ys" using Cons.prems(1) by (auto simp: filter_id_conv)
  with Cons show ?case by (cases "y = r") auto
qed simp

text \<open>An incident lists every down device of its cluster: its root and \<open>impacted\<close>.\<close>

lemma incident_size:
  assumes "rca_ok ri" "length (ri_devs ri) \<le> MAX_WALK" "r \<in> set (cluster_roots ri)"
    "incident_of ri r = Some i"
  shows "length (in_impacted i) + 1 = length (cluster_members ri r)"
proof -
  have "\<forall>m \<in> set (filter (\<lambda>m. m \<noteq> r) (cluster_members ri r)). summary_of ri m \<noteq> None"
    unfolding summary_of_some using assms(1) by (auto simp: rca_ok_def cluster_members_def)
  note all = length_map_filter_all [OF this]
  obtain root where root: "summary_of ri r = Some root"
    using assms(4) by (auto simp: incident_of_def)
  have "length (in_impacted i) = length (filter (\<lambda>m. m \<noteq> r) (cluster_members ri r))"
    using assms(4) root by (simp add: incident_of_def Let_def flip: all) auto
  moreover have "distinct (cluster_members ri r)"
    using assms(1) by (simp add: rca_ok_def cluster_members_def)
  ultimately show ?thesis
    using length_filter_ne [OF _ cluster_root_member [OF assms(1-3)]] by simp
qed

section \<open>The memo is at most five seconds old\<close>

lemma rca_refresh_fresh:
  "me_ts (rca_refresh now ri m) = now \<and> me_suppress (rca_refresh now ri m) = snd (compute_full ri)
   \<or> rca_refresh now ri m = m \<and> 0 < me_ts m \<and> now - me_ts m < MEMO_TTL"
  by (simp add: rca_refresh_def split_beta)

lemma rca_refresh_after_invalidate:
  "me_suppress (rca_refresh now ri (rca_invalidate m)) = snd (compute_full ri)"
  by (simp add: rca_refresh_def rca_invalidate_def split_beta)

end
