(* ===== verification/AlertEngine.thy ===== *)
theory AlertEngine
  imports AlertStore Cascade Maintenance RootCause
begin

text \<open>
  The alert profile engine (\<open>monitoring/alert_profile_engine.py\<close>): from the state of one sensor after a
  probe cycle to dispatched actions, alert events and stage history. The engine's state is a record of
  the tables it writes; what it reads of the world (clock, local time, mute list, settings, the
  parent graph, flap acknowledgements) is the record \<open>alert_env\<close>. The diagnostic log lines are not
  modelled, nor are the e-mail fields of the dispatch context.
\<close>

section \<open>Action templates\<close>

record template =
  tp_name :: string
  tp_atype :: string
  tp_config :: string

definition valid_atypes :: "string list" where
  "valid_atypes = [''email'', ''webhook'', ''syslog'', ''browser'']"

record template_db =
  td_rows :: "(int, template) dict"
  td_next :: int

definition db_get_action_template :: "int \<Rightarrow> template_db \<Rightarrow> template option" where
  "db_get_action_template i db = dget (td_rows db) i"

definition db_save_action_template :: "string \<Rightarrow> string \<Rightarrow> string \<Rightarrow> int option \<Rightarrow> template_db
    \<Rightarrow> template_db \<times> int" where
  "db_save_action_template name atype cfg i db =
     (let ty = (if atype = [] then ''email'' else atype);
          t = \<lparr> tp_name = (if strip name = [] then ''Unnamed'' else strip name), tp_atype = ty,
                tp_config = cfg \<rparr>
      in if ty \<notin> set valid_atypes then (db, - 1)
         else case i of
                Some k \<Rightarrow> ((if dget (td_rows db) k = None then db
                           else db\<lparr> td_rows := dput k t (td_rows db) \<rparr>), k)
              | None \<Rightarrow> (db\<lparr> td_rows := dput (td_next db) t (td_rows db), td_next := td_next db + 1 \<rparr>,
                         td_next db))"

text \<open>A template some stage still names is not deleted.\<close>

definition db_delete_action_template :: "int \<Rightarrow> profile_db \<Rightarrow> template_db \<Rightarrow> template_db \<times> bool" where
  "db_delete_action_template i pdb db =
     (if list_ex (\<lambda>p. list_ex (\<lambda>g. i \<in> set (sg_action_ids g)) (pf_stages p)) (db_profiles pdb)
      then (db, False)
      else (db\<lparr> td_rows := ddel i (td_rows db) \<rparr>, True))"

section \<open>Engine state\<close>

datatype supp_key = KMaint int did sid string | KRca int did sid string

record dispatched =
  dp_stage :: int
  dp_template :: int
  dp_atype :: string
  dp_ctx :: actx

record engine =
  e_cascade :: cascade
  e_templates :: template_db
  e_stages :: stage_table
  e_events :: evt_table
  e_supp :: "supp_key list"
  e_rca :: rca_memo
  e_sent :: "dispatched list"

record alert_env =
  v_now :: ts
  v_clock :: local_clock
  v_windows :: window_db
  v_backend :: backend
  v_flap_ack :: "did \<Rightarrow> sid \<Rightarrow> (string \<times> ts) option"
  v_muted_groups :: string                  \<comment> \<open>the setting \<open>muted_groups\<close>, a JSON list\<close>
  v_rca_enabled :: bool
  v_rca :: rca_in

definition is_group_muted :: "string \<Rightarrow> string \<Rightarrow> bool" where
  "is_group_muted raw g =
     (if g = [] \<or> raw = [] then False
      else case json_loads raw of Some (JArr xs) \<Rightarrow> JStr g \<in> set xs | _ \<Rightarrow> False)"

section \<open>Classification\<close>

datatype cstate = CDown | CWarning | COk

text \<open>A timestamp of zero is falsy, like an absent one.\<close>

definition ts_of :: "ts option \<Rightarrow> ts option" where
  "ts_of t = (case t of Some x \<Rightarrow> if x = 0 then None else Some x | None \<Rightarrow> None)"

definition classify :: "sensor \<Rightarrow> cstate \<times> ts" where
  "classify s =
     (case ts_of (s_down_since_ts s) of
        Some t \<Rightarrow> (CDown, t)
      | None \<Rightarrow>
          (case ts_of (s_threshold_triggered_ts s) of
             Some t \<Rightarrow> (case s_threshold_state s of
                  TCrit \<Rightarrow> (CDown, t) | TWarn \<Rightarrow> (CWarning, t) | TOk \<Rightarrow> (COk, 0))
           | None \<Rightarrow> (COk, 0)))"

definition session_key :: "ts \<Rightarrow> string" where
  "session_key t = (if t = 0 then [] else str_of_int (py_int t))"

fun trig_state :: "trig \<Rightarrow> cstate option" where
  "trig_state TrigDown = Some CDown"
| "trig_state TrigWarning = Some CWarning"
| "trig_state _ = None"

fun trig_target :: "trig \<Rightarrow> trig" where
  "trig_target TrigDownRecovered = TrigDown"
| "trig_target _ = TrigWarning"

fun sev_by_state :: "trig \<Rightarrow> string" where
  "sev_by_state TrigDown = ''critical''"
| "sev_by_state TrigWarning = ''warning''"
| "sev_by_state _ = ''recovery''"

fun event_type_by_state :: "trig \<Rightarrow> string" where
  "event_type_by_state TrigDown = ''down''"
| "event_type_by_state TrigWarning = ''threshold_warning''"
| "event_type_by_state TrigDownRecovered = ''recovered''"
| "event_type_by_state TrigWarningRecovered = ''threshold_ok''"

definition build_ctx :: "device \<Rightarrow> sensor \<Rightarrow> trig \<Rightarrow> ts option \<Rightarrow> actx" where
  "build_ctx dev s trig dur =
     \<lparr> cx_did = d_device_id dev, cx_sid = s_sensor_id s, cx_grp = d_group dev, cx_site = d_site dev,
       cx_severity = sev_by_state trig, cx_event_type = event_type_by_state trig,
       cx_detail = s_last_detail s, cx_duration_s = map_option py_int dur \<rparr>"

definition fired_before :: "stage_table \<Rightarrow> string \<Rightarrow> bool" where
  "fired_before t k = (case db_get_stage_state t k of Some r \<Rightarrow> 0 < st_fire_count r | None \<Rightarrow> False)"

definition had_prior_fire :: "stage list \<Rightarrow> trig \<Rightarrow> did \<Rightarrow> sid \<Rightarrow> stage_table \<Rightarrow> bool" where
  "had_prior_fire stages target d i t =
     list_ex (\<lambda>g. sg_trigger_state g = target \<and> fired_before t (sig (sg_id g) d i)) stages"

fun get_session_start_ts :: "stage list \<Rightarrow> trig \<Rightarrow> did \<Rightarrow> sid \<Rightarrow> stage_table \<Rightarrow> ts option" where
  "get_session_start_ts [] target d i t = None"
| "get_session_start_ts (g # gs) target d i t =
     (if sg_trigger_state g \<noteq> target then get_session_start_ts gs target d i t
      else case db_get_stage_state t (sig (sg_id g) d i) of
             Some r \<Rightarrow>
               (if 0 < st_fire_count r \<and> st_active_session r \<noteq> []
                then (case parse_float (st_active_session r) of
                        Some x \<Rightarrow> Some x
                      | None \<Rightarrow> get_session_start_ts gs target d i t)
                else get_session_start_ts gs target d i t)
           | None \<Rightarrow> get_session_start_ts gs target d i t)"

section \<open>Firing a stage\<close>

definition note_suppressed :: "alert_env \<Rightarrow> supp_key \<Rightarrow> profile \<Rightarrow> stage \<Rightarrow> actx \<Rightarrow> string \<Rightarrow> engine \<Rightarrow> engine" where
  "note_suppressed v k p g cx reason e =
     (if k \<in> set (e_supp e) then e
      else e\<lparr> e_supp := (if 4096 < length (e_supp e) then [k] else k # e_supp e),
              e_events := db_log_event (v_now v) (v_flap_ack v (cx_did cx) (cx_sid cx)) (pf_id p)
                            (sg_id g) (pf_name p) cx Suppressed reason (e_events e) \<rparr>)"

definition maint_reason :: "string \<Rightarrow> string" where
  "maint_reason nm = (if nm \<noteq> [] then ''Maintenance: '' @ nm else ''Maintenance window'')"

definition rca_reason :: "summary \<Rightarrow> string" where
  "rca_reason r = ''Downstream of '' @
     (if su_name r \<noteq> [] then su_name r else if su_did r \<noteq> [] then su_did r else ''upstream'')
     @ '' (root cause)''"

definition send_actions :: "stage \<Rightarrow> actx \<Rightarrow> engine \<Rightarrow> engine" where
  "send_actions g cx e = e\<lparr> e_sent := e_sent e @ List.map_filter (\<lambda>a.
       map_option (\<lambda>t. \<lparr> dp_stage = sg_id g, dp_template = a, dp_atype = tp_atype t, dp_ctx = cx \<rparr>)
         (db_get_action_template a (e_templates e))) (sg_action_ids g) \<rparr>"

text \<open>The acknowledgement gate and the mid-incident duplicate gate.\<close>

definition ack_gate :: "bool \<Rightarrow> profile \<Rightarrow> did \<Rightarrow> sid \<Rightarrow> engine \<Rightarrow> bool" where
  "ack_gate recovery p d i e = (\<not> recovery \<and> db_has_acked_event (pf_id p) d i (e_events e))"

definition dup_gate :: "bool \<Rightarrow> bool \<Rightarrow> stage \<Rightarrow> did \<Rightarrow> sid \<Rightarrow> engine \<Rightarrow> bool" where
  "dup_gate recovery first_fire g d i e =
     (\<not> recovery \<and> first_fire \<and> fired_before (e_stages e) (sig (sg_id g) d i)
      \<and> db_has_active_event d i (e_events e))"

definition settle :: "alert_env \<Rightarrow> bool \<Rightarrow> profile \<Rightarrow> stage \<Rightarrow> actx \<Rightarrow> string \<Rightarrow> engine \<Rightarrow> engine" where
  "settle v recovery p g cx session e =
     (let d = cx_did cx; i = cx_sid cx
      in e\<lparr> e_events := (if recovery then db_resolve_events_by_sensor (v_now v) d i (e_events e)
               else db_log_event (v_now v) (v_flap_ack v d i) (pf_id p) (sg_id g) (pf_name p) cx
                      Active [] (e_events e)),
            e_stages := db_record_stage_fire (v_backend v) (v_now v) (sig (sg_id g) d i) session
                          (e_stages e) \<rparr>)"

definition deliver :: "alert_env \<Rightarrow> bool \<Rightarrow> bool \<Rightarrow> profile \<Rightarrow> stage \<Rightarrow> actx \<Rightarrow> string \<Rightarrow> engine \<Rightarrow> engine" where
  "deliver v recovery first_fire p g cx session e =
     (let d = cx_did cx; i = cx_sid cx;
          gated = ack_gate recovery p d i e \<or> dup_gate recovery first_fire g d i e
      in settle v recovery p g cx session (if gated then e else send_actions g cx e))"

text \<open>The root a symptom is suppressed for, refreshing the memo; recoveries are never asked.\<close>

definition rca_gate :: "alert_env \<Rightarrow> bool \<Rightarrow> did \<Rightarrow> engine \<Rightarrow> engine \<times> summary option" where
  "rca_gate v recovery d e =
     (if recovery then (e, None)
      else let (m, r) = suppressed_root_for (v_rca_enabled v) (v_now v) (v_rca v) d (e_rca e)
           in (e\<lparr> e_rca := m \<rparr>, r))"

definition fire :: "alert_env \<Rightarrow> device \<Rightarrow> sensor \<Rightarrow> profile \<Rightarrow> stage \<Rightarrow> string \<Rightarrow> bool \<Rightarrow> ts option \<Rightarrow> bool
    \<Rightarrow> engine \<Rightarrow> engine" where
  "fire v dev s p g session recovery dur first_fire e =
     (let cx = build_ctx dev s (sg_trigger_state g) dur; d = cx_did cx; i = cx_sid cx;
          (supp, nm) = check_maintenance (v_now v) (v_clock v) (v_windows v) cx
      in if supp then note_suppressed v (KMaint (sg_id g) d i session) p g cx (maint_reason nm) e
         else case rca_gate v recovery d e of
                (e1, Some r) \<Rightarrow> note_suppressed v (KRca (sg_id g) d i session) p g cx (rca_reason r) e1
              | (e1, None) \<Rightarrow> deliver v recovery first_fire p g cx session e1)"

section \<open>The stages of one profile\<close>

definition should_fire :: "stage \<Rightarrow> ts \<Rightarrow> string \<Rightarrow> stage_state option \<Rightarrow> bool" where
  "should_fire g now session st =
     (case st of
        None \<Rightarrow> True
      | Some r \<Rightarrow> st_active_session r \<noteq> session
          \<or> (0 < sg_repeat_min g \<and> of_int (sg_repeat_min g) * 60 \<le> now - st_last_fire_ts r))"

definition first_in_session :: "string \<Rightarrow> stage_state option \<Rightarrow> bool" where
  "first_in_session session st = (case st of None \<Rightarrow> True | Some r \<Rightarrow> st_active_session r \<noteq> session)"

record stage_acc =
  k_fired_recovery :: bool
  k_has_fired :: bool           \<comment> \<open>\<open>sensor._alert_has_fired\<close>\<close>
  k_eng :: engine

definition state_stage :: "alert_env \<Rightarrow> device \<Rightarrow> sensor \<Rightarrow> profile \<Rightarrow> cstate \<Rightarrow> ts \<Rightarrow> stage \<Rightarrow> stage_acc \<Rightarrow> stage_acc" where
  "state_stage v dev s p cur started g a =
     (let st = db_get_stage_state (e_stages (k_eng a)) (sig (sg_id g) (d_device_id dev) (s_sensor_id s));
          session = session_key started
      in if trig_state (sg_trigger_state g) \<noteq> Some cur then a
         else if v_now v - started < of_int (sg_delay_s g) then a
         else if \<not> should_fire g (v_now v) session st then a
         else a\<lparr> k_has_fired := True,
                 k_eng := fire v dev s p g session False None (first_in_session session st) (k_eng a) \<rparr>)"

definition recovery_stage :: "alert_env \<Rightarrow> device \<Rightarrow> sensor \<Rightarrow> profile \<Rightarrow> stage list \<Rightarrow> cstate \<Rightarrow> stage \<Rightarrow> stage_acc \<Rightarrow> stage_acc" where
  "recovery_stage v dev s p stages cur g a =
     (let d = d_device_id dev; i = s_sensor_id s; t = e_stages (k_eng a);
          target = trig_target (sg_trigger_state g);
          start = ts_of (get_session_start_ts stages target d i t)
      in if cur \<noteq> COk then a
         else if \<not> k_has_fired a then a
         else if \<not> had_prior_fire stages target d i t then a
         else if fired_before t (sig (sg_id g) d i) then a
         else a\<lparr> k_has_fired := True, k_fired_recovery := True,
                 k_eng := fire v dev s p g [] True (map_option (\<lambda>x. v_now v - x) start) False (k_eng a) \<rparr>)"

definition one_stage :: "alert_env \<Rightarrow> device \<Rightarrow> sensor \<Rightarrow> profile \<Rightarrow> stage list \<Rightarrow> cstate \<Rightarrow> ts \<Rightarrow> stage \<Rightarrow> stage_acc \<Rightarrow> stage_acc" where
  "one_stage v dev s p stages cur started g a =
     (if sg_action_ids g = [] then a
      else if trig_state (sg_trigger_state g) \<noteq> None then state_stage v dev s p cur started g a
      else recovery_stage v dev s p stages cur g a)"

definition evaluate_profile_stages :: "alert_env \<Rightarrow> device \<Rightarrow> sensor \<Rightarrow> profile \<Rightarrow> cstate \<Rightarrow> ts \<Rightarrow> stage_acc \<Rightarrow> stage_acc" where
  "evaluate_profile_stages v dev s p cur started a =
     fold (one_stage v dev s p (pf_stages p) cur started) (pf_stages p) a"

definition live_profile :: "profile \<Rightarrow> bool" where
  "live_profile p \<longleftrightarrow> pf_enabled p \<and> pf_stages p \<noteq> []"

definition evaluate_profiles :: "alert_env \<Rightarrow> device \<Rightarrow> sensor \<Rightarrow> cstate \<Rightarrow> ts \<Rightarrow> profile list \<Rightarrow> stage_acc \<Rightarrow> stage_acc" where
  "evaluate_profiles v dev s cur started ps a =
     fold (\<lambda>p. evaluate_profile_stages v dev s p cur started) (filter live_profile ps) a"

section \<open>After the recovery\<close>

definition cleanup_needed :: "bool \<Rightarrow> profile \<Rightarrow> did \<Rightarrow> sid \<Rightarrow> engine \<Rightarrow> bool" where
  "cleanup_needed fired_recovery p d i e =
     (fired_recovery
      \<or> had_prior_fire (pf_stages p) TrigDown d i (e_stages e)
      \<or> had_prior_fire (pf_stages p) TrigWarning d i (e_stages e)
      \<or> db_has_active_event d i (e_events e))"

definition do_cleanup :: "alert_env \<Rightarrow> did \<Rightarrow> sid \<Rightarrow> engine \<Rightarrow> engine" where
  "do_cleanup v d i e =
     e\<lparr> e_stages := db_clear_stage_state_for_sensor d i (e_stages e),
        e_events := db_resolve_events_by_sensor (v_now v) d i (e_events e) \<rparr>"

definition post_recovery :: "alert_env \<Rightarrow> profile \<Rightarrow> bool \<Rightarrow> did \<Rightarrow> sid \<Rightarrow> sensor \<times> engine \<Rightarrow> sensor \<times> engine" where
  "post_recovery v p fired_recovery d i se =
     (let (s, e) = se in
      if \<not> s_alert_has_fired s \<and> s_alert_cleanup_checked s then (s, e)
      else let s1 = (if \<not> s_alert_has_fired s then s\<lparr> s_alert_cleanup_checked := True \<rparr> else s)
           in if cleanup_needed fired_recovery p d i e
              then (s1\<lparr> s_alert_has_fired := False \<rparr>, do_cleanup v d i e)
              else (s1, e))"

section \<open>One evaluation\<close>

definition alerts_muted :: "alert_env \<Rightarrow> device \<Rightarrow> sensor \<Rightarrow> bool" where
  "alerts_muted v dev s \<longleftrightarrow> c_alerts_muted (s_cfg s) \<or> d_alerts_muted dev
     \<or> is_group_muted (v_muted_groups v) (d_group dev)"

definition evaluate_and_fire :: "alert_env \<Rightarrow> device \<Rightarrow> sensor \<times> engine \<Rightarrow> sensor \<times> engine" where
  "evaluate_and_fire v dev se =
     (let (s, e) = se in
      if alerts_muted v dev s then (s, e)
      else let (c, ps) = resolve_profiles dev (s_sensor_id s) (e_cascade e);
               e1 = e\<lparr> e_cascade := c \<rparr>
           in if filter live_profile ps = [] then (s, e1)
              else let (cur, started) = classify s;
                       a = evaluate_profiles v dev s cur started ps
                             \<lparr> k_fired_recovery = False, k_has_fired = s_alert_has_fired s, k_eng = e1 \<rparr>;
                       s1 = s\<lparr> s_alert_has_fired := k_has_fired a \<rparr>
                   in if cur \<noteq> COk then (s1, k_eng a)
                      else post_recovery v (hd ps) (k_fired_recovery a) (d_device_id dev) (s_sensor_id s)
                             (s1, k_eng a))"

end
