(* ===== verification/ProbeAssign.thy ===== *)
theory ProbeAssign
  imports Devices
begin

text \<open>
  Which probe measures a sensor (\<open>core/probe_assign.py\<close>): the cascade sensor, device, site, with
  the pin \<open>central\<close> that opts back out at its level, and the in-memory site map in front of the
  table, reloaded after \<open>invalidate_site_probe_cache\<close>.
\<close>

definition CENTRAL :: string where "CENTRAL = ''central''"

record site_bindings =
  sb_db :: "(string, string) dict"                 \<comment> \<open>\<open>db_site_probe_map()\<close>: bound sites only\<close>
  sb_map :: "(string, string) dict option"         \<comment> \<open>\<open>_site_map\<close>\<close>

definition get_site_map :: "site_bindings \<Rightarrow> site_bindings \<times> (string, string) dict" where
  "get_site_map b = (case sb_map b of
       Some m \<Rightarrow> (b, m)
     | None \<Rightarrow> (b\<lparr> sb_map := Some (sb_db b) \<rparr>, sb_db b))"

definition invalidate_site_probe_cache :: "site_bindings \<Rightarrow> site_bindings" where
  "invalidate_site_probe_cache b = b\<lparr> sb_map := None \<rparr>"

definition unpin :: "string \<Rightarrow> string" where
  "unpin pid = (if pid = CENTRAL then [] else pid)"

definition site_probe :: "string \<Rightarrow> site_bindings \<Rightarrow> site_bindings \<times> string" where
  "site_probe name b =
     (if name = [] then (b, [])
      else let (b1, m) = get_site_map b
           in (b1, unpin (case dget m name of Some p \<Rightarrow> p | None \<Rightarrow> [])))"

definition effective_probe :: "device option \<Rightarrow> sensor option \<Rightarrow> site_bindings \<Rightarrow> site_bindings \<times> string" where
  "effective_probe dev s b =
     (let spid = (case s of Some x \<Rightarrow> c_probe_id (s_cfg x) | None \<Rightarrow> [])
      in if spid \<noteq> [] then (b, unpin spid)
         else case dev of
                None \<Rightarrow> (b, [])
              | Some d \<Rightarrow> if d_probe_id d \<noteq> [] then (b, unpin (d_probe_id d))
                          else site_probe (d_site d) b)"

text \<open>A write to the bindings of a site, as its callers do it: store, then drop the map.\<close>

definition bind_site :: "string \<Rightarrow> string \<Rightarrow> site_bindings \<Rightarrow> site_bindings" where
  "bind_site name pid b = invalidate_site_probe_cache
     (b\<lparr> sb_db := (if pid = [] then ddel name (sb_db b) else dput name pid (sb_db b)) \<rparr>)"

definition site_map_ok :: "site_bindings \<Rightarrow> bool" where
  "site_map_ok b \<longleftrightarrow> (\<forall>m. sb_map b = Some m \<longrightarrow> m = sb_db b)"

lemma site_map_ok_steps:
  "site_map_ok (bind_site name pid b)" "site_map_ok (invalidate_site_probe_cache b)"
  "site_map_ok b \<Longrightarrow> site_map_ok (fst (effective_probe dev s b))"
  by (auto simp: site_map_ok_def bind_site_def invalidate_site_probe_cache_def effective_probe_def
      site_probe_def get_site_map_def Let_def split: option.splits)

text \<open>The cascade as a specification: the first level that says something decides.\<close>

definition first_set :: "string list \<Rightarrow> string" where
  "first_set xs = (case find (\<lambda>x. x \<noteq> []) xs of Some x \<Rightarrow> unpin x | None \<Rightarrow> [])"

definition bound_probe :: "site_bindings \<Rightarrow> string \<Rightarrow> string" where
  "bound_probe b name = (if name = [] then []
     else case dget (sb_db b) name of Some p \<Rightarrow> p | None \<Rightarrow> [])"

lemma site_probe_value:
  "site_map_ok b \<Longrightarrow> snd (site_probe name b) = unpin (bound_probe b name)"
  by (auto simp: site_probe_def get_site_map_def bound_probe_def unpin_def CENTRAL_def site_map_ok_def
      split: option.splits)

lemma effective_probe_cascade:
  assumes "site_map_ok b"
  shows "snd (effective_probe (Some d) (Some s) b)
       = first_set [c_probe_id (s_cfg s), d_probe_id d, bound_probe b (d_site d)]"
  using site_probe_value [OF assms, of "d_site d"]
  by (simp add: effective_probe_def first_set_def Let_def unpin_def)

text \<open>The sentinel itself never leaves the resolution.\<close>

lemma effective_probe_not_central: "snd (effective_probe dev s b) \<noteq> CENTRAL"
  by (auto simp: effective_probe_def site_probe_def unpin_def CENTRAL_def Let_def
      split: option.splits prod.splits)

lemma effective_probe_after_bind:
  assumes "c_probe_id (s_cfg s) = []" "d_probe_id d = []" "d_site d = name" "name \<noteq> []" "pid \<noteq> []"
  shows "snd (effective_probe (Some d) (Some s) (bind_site name pid b)) = unpin pid"
proof -
  have "site_map_ok (bind_site name pid b)" by (rule site_map_ok_steps)
  from effective_probe_cascade [OF this, of d s] assms show ?thesis
    by (simp add: first_set_def bound_probe_def bind_site_def invalidate_site_probe_cache_def dict_simps)
qed

end
