(* ===== verification/Scheduler.thy ===== *)
theory Scheduler
  imports Prelude "HOL-Library.Multiset" "HOL-Library.List_Lexorder" "HOL-Library.Char_ord"
    "HOL-Library.Product_Lexorder"
begin

text \<open>
  The sensor scheduler (\<open>_SensorScheduler\<close> in \<open>core/state.py\<close>): one heap of run times, a set of
  tombstones for cancelled sensors, and the loop that hands due sensors to the executor. The heap of
  \<open>heapq\<close> is a sorted list: only its least element and its elements are ever observed.
\<close>

section \<open>The priority queue\<close>

type_synonym job = "ts \<times> nat \<times> did \<times> sid"     \<comment> \<open>\<open>(run_at, seq, did, sid)\<close>\<close>

definition heappush :: "'a::linorder \<Rightarrow> 'a list \<Rightarrow> 'a list" where
  "heappush x h = insort x h"

definition heappop :: "'a list \<Rightarrow> ('a \<times> 'a list) option" where
  "heappop h = (case h of [] \<Rightarrow> None | x # r \<Rightarrow> Some (x, r))"

definition heapify :: "'a::linorder list \<Rightarrow> 'a list" where
  "heapify xs = sort xs"

text \<open>What the loop relies on: pop gives a least element, push and pop lose nothing.\<close>

locale min_queue =
  fixes push :: "'a::linorder \<Rightarrow> 'q \<Rightarrow> 'q"
    and pop :: "'q \<Rightarrow> ('a \<times> 'q) option"
    and elems :: "'q \<Rightarrow> 'a multiset"
    and ok :: "'q \<Rightarrow> bool"
  assumes elems_push: "elems (push x q) = add_mset x (elems q)"
    and ok_push: "ok q \<Longrightarrow> ok (push x q)"
    and pop_None: "pop q = None \<longleftrightarrow> elems q = {#}"
    and pop_elems: "pop q = Some (x, q') \<Longrightarrow> elems q = add_mset x (elems q')"
    and pop_least: "ok q \<Longrightarrow> pop q = Some (x, q') \<Longrightarrow> y \<in># elems q' \<Longrightarrow> x \<le> y"
    and ok_pop: "ok q \<Longrightarrow> pop q = Some (x, q') \<Longrightarrow> ok q'"
begin

lemma pop_min:
  assumes "ok q" "pop q = Some (x, q')" "y \<in># elems q"
  shows "x \<le> y"
  using assms pop_elems [OF assms(2)] pop_least [OF assms(1,2)] by auto

lemma pop_ordered:
  assumes "ok q" "pop q = Some (x, q')" "pop q' = Some (y, q'')"
  shows "x \<le> y"
  using pop_least [OF assms(1,2), of y] pop_elems [OF assms(3)] by simp

lemma push_not_empty: "pop (push x q) \<noteq> None"
  by (simp add: pop_None elems_push)

lemma pop_size: "pop q = Some (x, q') \<Longrightarrow> size (elems q') < size (elems q)"
  using pop_elems by fastforce

end

interpretation heap: min_queue heappush heappop mset sorted
proof
  fix x :: 'a and q q' :: "'a list" and y
  show "mset (heappush x q) = add_mset x (mset q)" by (simp add: heappush_def)
  show "sorted q \<Longrightarrow> sorted (heappush x q)" by (simp add: heappush_def sorted_insort)
  show "heappop q = None \<longleftrightarrow> mset q = {#}" by (cases q) (simp_all add: heappop_def)
  show "heappop q = Some (x, q') \<Longrightarrow> mset q = add_mset x (mset q')"
    by (cases q) (auto simp: heappop_def)
  show "sorted q \<Longrightarrow> heappop q = Some (x, q') \<Longrightarrow> y \<in># mset q' \<Longrightarrow> x \<le> y"
    by (cases q) (auto simp: heappop_def)
  show "sorted q \<Longrightarrow> heappop q = Some (x, q') \<Longrightarrow> sorted q'"
    by (cases q) (auto simp: heappop_def)
qed

section \<open>The scheduler\<close>

record sched =
  h_heap :: "job list"
  h_seq :: nat
  h_tomb :: "(did \<times> sid) list"

definition init_sched :: sched where
  "init_sched = \<lparr> h_heap = [], h_seq = 0, h_tomb = [] \<rparr>"

definition sched_schedule :: "ts \<Rightarrow> did \<Rightarrow> sid \<Rightarrow> real \<Rightarrow> sched \<Rightarrow> sched" where
  "sched_schedule now d i delay h =
     (let q = h_seq h + 1
      in h\<lparr> h_seq := q, h_heap := heappush (now + delay, q, d, i) (h_heap h),
            h_tomb := filter (\<lambda>k. k \<noteq> (d, i)) (h_tomb h) \<rparr>)"

definition sched_cancel :: "did \<Rightarrow> sid \<Rightarrow> sched \<Rightarrow> sched" where
  "sched_cancel d i h = h\<lparr> h_tomb := (if (d, i) \<in> set (h_tomb h) then h_tomb h else (d, i) # h_tomb h) \<rparr>"

definition job_key :: "job \<Rightarrow> did \<times> sid" where
  "job_key j = snd (snd j)"

definition sched_prune :: "sched \<Rightarrow> sched" where
  "sched_prune h =
     (if h_tomb h = [] then h
      else h\<lparr> h_heap := heapify (filter (\<lambda>j. job_key j \<notin> set (h_tomb h)) (h_heap h)), h_tomb := [] \<rparr>)"

text \<open>
  One pass of the loop over the due jobs. The clock is read at the start and again after every
  submission: \<open>clocks\<close> are these readings. \<open>accepts\<close> says whether the executor takes the job; a
  rejected one is queued again five seconds later and ends the pass.
\<close>

function sched_drain :: "(did \<times> sid \<Rightarrow> bool) \<Rightarrow> ts \<Rightarrow> ts list \<Rightarrow> sched \<Rightarrow> sched \<times> (did \<times> sid) list" where
  "sched_drain accepts now clocks h =
     (case heappop (h_heap h) of
        None \<Rightarrow> (h, [])
      | Some (j, rest) \<Rightarrow>
          (if now < fst j then (h, [])
           else if job_key j \<in> set (h_tomb h)
           then sched_drain accepts now clocks (h\<lparr> h_heap := rest \<rparr>)
           else if \<not> accepts (job_key j)
           then (h\<lparr> h_seq := h_seq h + 1,
                    h_heap := heappush (now + 5, h_seq h + 1, job_key j) rest \<rparr>, [])
           else let t = (case clocks of [] \<Rightarrow> now | u # _ \<Rightarrow> u);
                    (h', out) = sched_drain accepts t (tl clocks) (h\<lparr> h_heap := rest \<rparr>)
                in (h', job_key j # out)))"
  by pat_completeness auto
termination
  by (relation "measure (\<lambda>(_, _, _, h). length (h_heap h))")
    (auto simp: heappop_def split: list.splits)

declare sched_drain.simps [simp del]

definition prune_due :: "sched \<Rightarrow> bool" where
  "prune_due h \<longleftrightarrow> 100 < length (h_tomb h) \<and> 2 * max (length (h_tomb h)) 1 < length (h_heap h)"

definition sched_pass :: "(did \<times> sid \<Rightarrow> bool) \<Rightarrow> ts \<Rightarrow> ts list \<Rightarrow> sched \<Rightarrow> sched \<times> (did \<times> sid) list" where
  "sched_pass accepts now clocks h =
     (let (h', out) = sched_drain accepts now clocks h
      in ((if prune_due h' then sched_prune h' else h'), out))"

lemma sched_drain_Nil: "h_heap h = [] \<Longrightarrow> sched_drain accepts now clocks h = (h, [])"
  by (subst sched_drain.simps) (simp add: heappop_def)

lemma sched_drain_Cons:
  assumes "h_heap h = j # rest"
  shows "sched_drain accepts now clocks h =
     (if now < fst j then (h, [])
      else if job_key j \<in> set (h_tomb h) then sched_drain accepts now clocks (h\<lparr> h_heap := rest \<rparr>)
      else if \<not> accepts (job_key j)
      then (h\<lparr> h_seq := h_seq h + 1, h_heap := heappush (now + 5, h_seq h + 1, job_key j) rest \<rparr>, [])
      else let r = sched_drain accepts (case clocks of [] \<Rightarrow> now | u # _ \<Rightarrow> u) (tl clocks) (h\<lparr> h_heap := rest \<rparr>)
           in (fst r, job_key j # snd r))"
  by (subst sched_drain.simps) (simp add: heappop_def assms split_beta Let_def)

section \<open>Laws\<close>

definition sched_ok :: "sched \<Rightarrow> bool" where
  "sched_ok h \<longleftrightarrow> sorted (h_heap h) \<and> distinct (h_tomb h) \<and> (\<forall>j \<in> set (h_heap h). fst (snd j) \<le> h_seq h)
     \<and> distinct (map (\<lambda>j. fst (snd j)) (h_heap h))"

lemma sched_ok_init [simp]: "sched_ok init_sched"
  by (simp add: sched_ok_def init_sched_def)

lemma set_heappush [simp]: "set (heappush x h) = insert x (set h)"
  by (simp add: heappush_def set_insort_key)

lemma distinct_map_insort:
  "distinct (map f (insort x xs)) \<longleftrightarrow> f x \<notin> f ` set xs \<and> distinct (map f xs)"
proof -
  have "mset (map f (insort x xs)) = mset (map f (x # xs))" by simp
  then have "distinct (map f (insort x xs)) = distinct (map f (x # xs))"
    by (rule mset_eq_imp_distinct_iff)
  then show ?thesis by simp
qed

lemma sched_ok_push:
  assumes "sched_ok h"
  shows "sched_ok (h\<lparr> h_seq := h_seq h + 1, h_heap := heappush (t, h_seq h + 1, k) (h_heap h) \<rparr>)"
proof -
  have le: "fst (snd j) \<le> h_seq h" if "j \<in> set (h_heap h)" for j
    using assms that by (simp add: sched_ok_def)
  have "h_seq h + 1 \<notin> (\<lambda>j. fst (snd j)) ` set (h_heap h)" using le by fastforce
  then show ?thesis
    using assms le by (auto simp: sched_ok_def distinct_map_insort heappush_def set_insort_key
        sorted_insort le_SucI)
qed

lemma sched_ok_schedule: "sched_ok h \<Longrightarrow> sched_ok (sched_schedule now d i delay h)"
  using sched_ok_push [of h "now + delay" "(d, i)"]
  by (simp add: sched_ok_def sched_schedule_def Let_def)

lemma sched_ok_cancel: "sched_ok h \<Longrightarrow> sched_ok (sched_cancel d i h)"
  by (simp add: sched_ok_def sched_cancel_def)

lemma sched_ok_prune:
  assumes "sched_ok h"
  shows "sched_ok (sched_prune h)"
proof -
  have "distinct (map f (filter P xs))" if "distinct (map f xs)" for f :: "job \<Rightarrow> nat" and P xs
    using that by (rule distinct_map_filter)
  moreover have "distinct (map f (sort xs)) = distinct (map f xs)" for f :: "job \<Rightarrow> nat" and xs :: "job list"
    by (metis mset_eq_imp_distinct_iff mset_map mset_sort)
  ultimately show ?thesis
    using assms by (auto simp: sched_ok_def sched_prune_def heapify_def)
qed

lemma sched_ok_pop: "sched_ok h \<Longrightarrow> h_heap h = j # rest \<Longrightarrow> sched_ok (h\<lparr> h_heap := rest \<rparr>)"
  by (auto simp: sched_ok_def)

lemma sched_ok_drain: "sched_ok h \<Longrightarrow> sched_ok (fst (sched_drain accepts now clocks h))"
proof (induction accepts now clocks h rule: sched_drain.induct)
  case (1 accepts now clocks h)
  show ?case
  proof (cases "h_heap h")
    case Nil
    then show ?thesis using 1 by (subst sched_drain.simps) (simp add: heappop_def)
  next
    case (Cons j rest)
    have pop: "heappop (h_heap h) = Some (j, rest)" by (simp add: heappop_def Cons)
    note ok = sched_ok_pop [OF "1.prems" Cons]
    show ?thesis
      using 1 ok sched_ok_push [OF ok, of "now + 5" "job_key j"]
      by (subst sched_drain.simps) (simp add: pop split_beta Let_def)
  qed
qed

text \<open>Cancelled jobs are never submitted, and nothing is submitted before its time.\<close>

lemma drain_not_cancelled:
  "k \<in> set (snd (sched_drain accepts now clocks h)) \<Longrightarrow> k \<notin> set (h_tomb h)"
proof (induction accepts now clocks h rule: sched_drain.induct)
  case (1 accepts now clocks h)
  show ?case
  proof (cases "h_heap h")
    case Nil
    then show ?thesis using 1(3) by (subst (asm) sched_drain.simps) (simp add: heappop_def)
  next
    case (Cons j rest)
    have pop: "heappop (h_heap h) = Some (j, rest)" by (simp add: heappop_def Cons)
    show ?thesis
      using 1(3) 1(1) [OF pop refl] 1(2) [OF pop refl]
      by (subst (asm) sched_drain.simps) (auto simp: pop split_beta Let_def split: if_splits)
  qed
qed

definition due_keys :: "ts \<Rightarrow> sched \<Rightarrow> (did \<times> sid) list" where
  "due_keys now h = map job_key (filter (\<lambda>j. fst j \<le> now \<and> job_key j \<notin> set (h_tomb h)) (h_heap h))"

text \<open>
  With a clock that stands still during the pass and an executor that takes every job, a pass
  submits exactly the due jobs that are not cancelled, in the order of their run times, and keeps
  every job that is not yet due.
\<close>

lemma sorted_fst_filter:
  assumes "sorted (j # rest)" "now < fst j"
  shows "filter (\<lambda>x. fst x \<le> now \<and> P x) (j # rest) = []" "filter (\<lambda>x. now < fst x) (j # rest) = j # rest"
proof -
  have late: "now < fst x" if "x \<in> set (j # rest)" for x
  proof -
    have "j \<le> x" using assms(1) that by auto
    then have "fst j \<le> fst x" by (cases j; cases x) (auto simp: less_eq_prod_def)
    with assms(2) show ?thesis by simp
  qed
  show "filter (\<lambda>x. fst x \<le> now \<and> P x) (j # rest) = []"
    unfolding filter_empty_conv using late by (meson leD)
  show "filter (\<lambda>x. now < fst x) (j # rest) = j # rest" using late by (intro filter_True) blast
qed

lemma drain_complete:
  assumes "sorted (h_heap h)" "\<And>k. accepts k" "\<forall>t \<in> set clocks. t = now"
  shows "snd (sched_drain accepts now clocks h) = due_keys now h
    \<and> h_heap (fst (sched_drain accepts now clocks h)) = filter (\<lambda>j. now < fst j) (h_heap h)
    \<and> h_tomb (fst (sched_drain accepts now clocks h)) = h_tomb h"
  using assms
proof (induction accepts now clocks h rule: sched_drain.induct)
  case (1 accepts now clocks h)
  show ?case
  proof (cases "h_heap h")
    case Nil
    then show ?thesis by (simp add: sched_drain_Nil due_keys_def)
  next
    case (Cons j rest)
    have pop: "heappop (h_heap h) = Some (j, rest)" by (simp add: heappop_def Cons)
    have srt: "sorted rest" using 1(3) Cons by simp
    have clk: "(case clocks of [] \<Rightarrow> now | u # _ \<Rightarrow> u) = now" "\<forall>t \<in> set (tl clocks). t = now"
      using 1(5) by (cases clocks; auto)+
    show ?thesis
    proof (cases "now < fst j")
      case True
      then show ?thesis
        using sorted_fst_filter [of j rest now] 1(3)
        by (simp add: sched_drain_Cons [OF Cons] due_keys_def Cons)
    next
      case False
      show ?thesis
      proof (cases "job_key j \<in> set (h_tomb h)")
        case True
        from 1(1) [OF pop refl False True] srt 1(4,5) False True show ?thesis
          by (simp add: sched_drain_Cons [OF Cons] due_keys_def Cons)
      next
        case nt: False
        from 1(2) [OF pop refl False nt _ refl] srt 1(4) clk False nt show ?thesis
          by (simp add: sched_drain_Cons [OF Cons] due_keys_def Cons Let_def)
      qed
    qed
  qed
qed

text \<open>Pruning drops the cancelled jobs only, and a pruned scheduler submits the same jobs.\<close>

lemma prune_due_keys: "sched_ok h \<Longrightarrow> mset (due_keys now (sched_prune h)) = mset (due_keys now h)"
  by (simp add: due_keys_def sched_prune_def heapify_def mset_filter filter_filter_mset conj_commute)

text \<open>A rejected job stays in the queue.\<close>

lemma rejected_kept:
  assumes "heappop (h_heap h) = Some (j, rest)" "fst j \<le> now" "job_key j \<notin> set (h_tomb h)"
    "\<not> accepts (job_key j)"
  shows "\<exists>j' \<in> set (h_heap (fst (sched_drain accepts now clocks h))). job_key j' = job_key j \<and> fst j' = now + 5"
  using assms by (subst sched_drain.simps) (auto simp: job_key_def)

text \<open>
  Scheduling a cancelled sensor again drops its tombstone, and with it every job of the sensor that
  is still queued comes back to life.
\<close>

definition live_jobs :: "did \<Rightarrow> sid \<Rightarrow> sched \<Rightarrow> job list" where
  "live_jobs d i h = (if (d, i) \<in> set (h_tomb h) then [] else filter (\<lambda>j. job_key j = (d, i)) (h_heap h))"

lemma length_filter_insort: "length (filter P (insort x xs)) = (if P x then 1 else 0) + length (filter P xs)"
  by (induction xs) auto

lemma reschedule_revives:
  "length (live_jobs d i (sched_schedule now d i delay (sched_cancel d i h)))
     = 1 + length (filter (\<lambda>j. job_key j = (d, i)) (h_heap h))"
  by (simp add: live_jobs_def sched_schedule_def sched_cancel_def heappush_def Let_def length_filter_insort
      job_key_def)

lemma cancel_kills: "live_jobs d i (sched_cancel d i h) = []"
  by (simp add: live_jobs_def sched_cancel_def)

end
