(* ===== verification/Monitor.thy ===== *)
theory Monitor
  imports Cycle AlertEngine ProbeAssign Scheduler
begin

text \<open>
  The monitor (\<open>MonitorState\<close> in \<open>core/state.py\<close>): the device and sensor registry, starting and
  stopping of probe chains, the probe cycle around \<open>cycle_body\<close>, probe assignment and the startup
  grace window. A probe cycle is split where the code lets other threads run: \<open>run_begin\<close> checks the
  preconditions, \<open>run_end\<close> injects the result of the probe and reschedules. Likewise an edit of a
  sensor has a part before and a part after the wait for the running cycle. The result of a probe is
  an argument: the probes are network I/O.
\<close>

section \<open>State and environment\<close>

record monitor =
  m_devices :: "(did, device) dict"
  m_did_ctr :: nat
  m_shutting_down :: bool
  m_sched :: sched
  m_ready :: "(did \<times> sid) list"           \<comment> \<open>submitted to the executor, not started\<close>
  m_inflight :: "(did \<times> sid) list"        \<comment> \<open>past the precondition check, probe running\<close>
  m_grace_active :: bool
  m_grace_min_end :: ts
  m_grace_hardcap :: ts
  m_parked :: parked_dict
  m_bind :: site_bindings
  m_engine :: engine
  m_bumps :: "string list"                \<comment> \<open>\<open>_bump_probe_config\<close> calls\<close>
  m_out :: "effect list"

record mon_env =
  x_alert :: alert_env
  x_anom :: anom_settings
  x_max_sample_ts :: "did \<Rightarrow> sid \<Rightarrow> ts"    \<comment> \<open>newest persisted sample\<close>
  x_mono :: ts                            \<comment> \<open>\<open>time.monotonic()\<close>\<close>
  x_grace_s :: int                        \<comment> \<open>the setting \<open>startup_grace_s\<close>, parsed\<close>

definition find_sensor :: "did \<Rightarrow> sid \<Rightarrow> monitor \<Rightarrow> (device \<times> sensor) option" where
  "find_sensor d i m = (case dget (m_devices m) d of
       None \<Rightarrow> None
     | Some dev \<Rightarrow> map_option (Pair dev) (dget (d_sensors dev) i))"

definition put_device :: "did \<Rightarrow> device \<Rightarrow> monitor \<Rightarrow> monitor" where
  "put_device d dev m = m\<lparr> m_devices := dput d dev (m_devices m) \<rparr>"

definition m_emit :: "effect list \<Rightarrow> monitor \<Rightarrow> monitor" where
  "m_emit es m = m\<lparr> m_out := m_out m @ es \<rparr>"

text \<open>Store a sensor; the second form is for writes that change what the status reads.\<close>

definition store_sensor :: "did \<Rightarrow> device \<Rightarrow> sid \<Rightarrow> sensor \<Rightarrow> monitor \<Rightarrow> monitor" where
  "store_sensor d dev i s m = put_device d (put_sensor i s dev) m"

definition store_sensor_inval :: "did \<Rightarrow> device \<Rightarrow> sid \<Rightarrow> sensor \<Rightarrow> monitor \<Rightarrow> monitor" where
  "store_sensor_inval d dev i s m = put_device d (invalidate_status (put_sensor i s dev)) m"

section \<open>Registry\<close>

definition add_device :: "string \<Rightarrow> string \<Rightarrow> string \<Rightarrow> string \<Rightarrow> monitor \<Rightarrow> monitor \<times> did" where
  "add_device name host grp site m =
     (let n = m_did_ctr m + 1; d = CHR ''d'' # str_of_nat n
      in (put_device d (new_device d name host grp site) (m\<lparr> m_did_ctr := n \<rparr>), d))"

definition remove_device :: "did \<Rightarrow> monitor \<Rightarrow> monitor \<times> bool" where
  "remove_device d m = (case dget (m_devices m) d of
       None \<Rightarrow> (m, False)
     | Some dev \<Rightarrow>
         (m\<lparr> m_devices := ddel d (m_devices m),
             m_sched := fold (\<lambda>i. sched_cancel d i) (map fst (d_sensors dev)) (m_sched m) \<rparr>, True))"

text \<open>The mute flag and the certificate limits are no parameters of \<open>add_sensor\<close>: they start off.\<close>

definition add_sensor :: "did \<Rightarrow> string \<Rightarrow> sensor_cfg \<Rightarrow> monitor \<Rightarrow> monitor \<times> sid option" where
  "add_sensor d host c m = (case dget (m_devices m) d of
       None \<Rightarrow> (m, None)
     | Some dev \<Rightarrow>
         (let (dev1, i) = next_sid dev;
              s = new_sensor d i (c\<lparr> c_host := (if host \<noteq> [] then host else d_host dev),
                       c_alerts_muted := False, c_cert_warn_days := 0, c_cert_crit_days := 0 \<rparr>);
              s1 = s\<lparr> s_cfg := (s_cfg s)\<lparr> c_host_override := (host \<noteq> []) \<rparr> \<rparr>
          in (put_device d (put_sensor i s1 dev1) m, Some i)))"

definition remove_sensor :: "did \<Rightarrow> sid \<Rightarrow> monitor \<Rightarrow> monitor \<times> bool" where
  "remove_sensor d i m = (case find_sensor d i m of
       None \<Rightarrow> (m, False)
     | Some (dev, s) \<Rightarrow>
         (put_device d (invalidate_status (dev\<lparr> d_sensors := ddel i (d_sensors dev) \<rparr>))
            (m\<lparr> m_sched := sched_cancel d i (m_sched m) \<rparr>), True))"

section \<open>Chains\<close>

definition start_sensor :: "mon_env \<Rightarrow> did \<Rightarrow> sid \<Rightarrow> real \<Rightarrow> monitor \<Rightarrow> monitor" where
  "start_sensor x d i first_delay m = (case find_sensor d i m of
       None \<Rightarrow> m
     | Some (dev, s) \<Rightarrow>
         (if s_running s then m
          else let (b, eff) = effective_probe (Some dev) (Some s) (m_bind m);
                   s1 = s\<lparr> s_running := True, s_stopped := False,
                           s_sched_mode := (if eff \<noteq> [] then Remote else Central) \<rparr>;
                   m1 = store_sensor_inval d dev i s1 (m\<lparr> m_bind := b \<rparr>)
               in if eff \<noteq> [] then m1\<lparr> m_bumps := m_bumps m1 @ [eff] \<rparr>
                  else if s_stype s = ''vmware''
                  then m1\<lparr> m_sched := sched_schedule (x_mono x) d i (max 12 first_delay) (m_sched m1) \<rparr>
                  else if 0 < first_delay
                  then m1\<lparr> m_sched := sched_schedule (x_mono x) d i first_delay (m_sched m1) \<rparr>
                  else m1\<lparr> m_ready := m_ready m1 @ [(d, i)] \<rparr>))"

definition stop_sensor :: "did \<Rightarrow> sid \<Rightarrow> monitor \<Rightarrow> monitor" where
  "stop_sensor d i m = (case find_sensor d i m of
       None \<Rightarrow> m\<lparr> m_sched := sched_cancel d i (m_sched m) \<rparr>
     | Some (dev, s) \<Rightarrow>
         (let (b, eff) = effective_probe (Some dev) (Some s) (m_bind m);
              m1 = store_sensor_inval d dev i (s\<lparr> s_running := False \<rparr>) (m\<lparr> m_bind := b \<rparr>);
              m2 = m1\<lparr> m_sched := sched_cancel d i (m_sched m1) \<rparr>
          in if eff \<noteq> [] then m2\<lparr> m_bumps := m_bumps m2 @ [eff] \<rparr> else m2))"

definition sids_of :: "did \<Rightarrow> monitor \<Rightarrow> sid list" where
  "sids_of d m = (case dget (m_devices m) d of None \<Rightarrow> [] | Some dev \<Rightarrow> map fst (d_sensors dev))"

definition start_device :: "mon_env \<Rightarrow> did \<Rightarrow> monitor \<Rightarrow> monitor" where
  "start_device x d m = fold (\<lambda>i. start_sensor x d i 0) (sids_of d m) m"

text \<open>The broadcast of a stopped device: every sensor, then the status, read through the cache.\<close>

definition announce_device :: "did \<Rightarrow> monitor \<Rightarrow> monitor" where
  "announce_device d m = (case dget (m_devices m) d of
       None \<Rightarrow> m_emit [EDeviceStatus d Unknown] m
     | Some dev \<Rightarrow>
         (let (dev1, st) = device_status dev
          in m_emit (map (\<lambda>x. ESensor (snd x)) (d_sensors dev) @ [EDeviceStatus d st])
               (put_device d dev1 m)))"

definition stop_device :: "did \<Rightarrow> bool \<Rightarrow> monitor \<Rightarrow> monitor" where
  "stop_device d resolve m =
     (let sids = sids_of d m;
          m1 = announce_device d (fold (stop_sensor d) sids m)
      in if resolve then m_emit (map (\<lambda>i. EResolveFlaps d i) sids) m1 else m1)"

definition start_sensors_staggered :: "mon_env \<Rightarrow> (did \<times> sid) list \<Rightarrow> monitor \<Rightarrow> monitor \<times> nat" where
  "start_sensors_staggered x pairs m =
     (let n = length pairs; window = (if 1 < n then 30 else 0)
      in if n = 0 then (m, 0)
         else (fold (\<lambda>(k, (d, i)). start_sensor x d i (of_nat k / of_nat n * window))
                 (enumerate 0 pairs) m, n))"

definition all_pairs :: "monitor \<Rightarrow> (did \<times> sid) list" where
  "all_pairs m = concat (map (\<lambda>(d, dev). map (Pair d) (map fst (d_sensors dev))) (m_devices m))"

definition start_all :: "mon_env \<Rightarrow> monitor \<Rightarrow> monitor" where
  "start_all x m = fst (start_sensors_staggered x (all_pairs m) m)"

definition stop_all :: "bool \<Rightarrow> monitor \<Rightarrow> monitor" where
  "stop_all resolve m = fold (\<lambda>d. stop_device d resolve) (map fst (m_devices m)) m"

section \<open>Editing a sensor\<close>

text \<open>
  One keyword argument of \<open>update_sensor\<close>; \<open>None\<close> is the empty string, which clears a nullable limit
  and leaves any other number as it is.
\<close>

datatype edit =
    EdName string | EdStype string | EdHost string | EdInterval "int option"
  | EdWarnMs "real option" | EdCritMs "real option" | EdLossWarn "int option" | EdLossCrit "int option"
  | EdMuted bool | EdSnmpUnit string | EdSnmpOid string | EdVmwareMetric string
  | EdCertWarn "int option" | EdCertCrit "int option"
  | EdAnomEnabled "bool option" | EdAnomSens "int option" | EdAnomMin "int option" | EdProbeId string

definition keep_or :: "'a option \<Rightarrow> 'a \<Rightarrow> 'a" where
  "keep_or v old = (case v of Some x \<Rightarrow> x | None \<Rightarrow> old)"

fun apply_edit :: "string \<Rightarrow> edit \<Rightarrow> sensor_cfg \<Rightarrow> sensor_cfg" where
  "apply_edit h (EdName v) c = c\<lparr> c_name := v \<rparr>"
| "apply_edit h (EdStype v) c = c\<lparr> c_stype := v \<rparr>"
| "apply_edit h (EdHost v) c = (if v \<noteq> [] then c\<lparr> c_host := v, c_host_override := True \<rparr>
     else c\<lparr> c_host := h, c_host_override := False \<rparr>)"
| "apply_edit h (EdInterval v) c = c\<lparr> c_interval := keep_or v (c_interval c) \<rparr>"
| "apply_edit h (EdWarnMs v) c = c\<lparr> c_warn_ms := v \<rparr>"
| "apply_edit h (EdCritMs v) c = c\<lparr> c_crit_ms := v \<rparr>"
| "apply_edit h (EdLossWarn v) c = c\<lparr> c_loss_warn_pct := keep_or v (c_loss_warn_pct c) \<rparr>"
| "apply_edit h (EdLossCrit v) c = c\<lparr> c_loss_crit_pct := keep_or v (c_loss_crit_pct c) \<rparr>"
| "apply_edit h (EdMuted v) c = c\<lparr> c_alerts_muted := v \<rparr>"
| "apply_edit h (EdSnmpUnit v) c = c\<lparr> c_snmp_unit := v \<rparr>"
| "apply_edit h (EdSnmpOid v) c = c\<lparr> c_snmp_oid := v \<rparr>"
| "apply_edit h (EdVmwareMetric v) c = c\<lparr> c_vmware_metric := v \<rparr>"
| "apply_edit h (EdCertWarn v) c = c\<lparr> c_cert_warn_days := keep_or v (c_cert_warn_days c) \<rparr>"
| "apply_edit h (EdCertCrit v) c = c\<lparr> c_cert_crit_days := keep_or v (c_cert_crit_days c) \<rparr>"
| "apply_edit h (EdAnomEnabled v) c = c\<lparr> c_anomaly_enabled := keep_or v (c_anomaly_enabled c) \<rparr>"
| "apply_edit h (EdAnomSens v) c = c\<lparr> c_anomaly_sensitivity := keep_or v (c_anomaly_sensitivity c) \<rparr>"
| "apply_edit h (EdAnomMin v) c = c\<lparr> c_anomaly_min_samples := keep_or v (c_anomaly_min_samples c) \<rparr>"
| "apply_edit h (EdProbeId v) c = c\<lparr> c_probe_id := v \<rparr>"

definition baseline_stale :: "sensor_cfg \<Rightarrow> sensor_cfg \<Rightarrow> bool" where
  "baseline_stale old new \<longleftrightarrow> c_anomaly_enabled new \<and>
     (\<not> c_anomaly_enabled old \<or> int_or (c_anomaly_sensitivity new) 2 \<noteq> int_or (c_anomaly_sensitivity old) 2)"

definition edit_sensor :: "mon_env \<Rightarrow> string \<Rightarrow> edit list \<Rightarrow> sensor \<Rightarrow> sensor" where
  "edit_sensor x h es s =
     (let c = fold (apply_edit h) es (s_cfg s);
          s1 = s\<lparr> s_cfg := c \<rparr>
      in if baseline_stale (s_cfg s) c
         then s1\<lparr> s_anom := reset_baseline (c_anomaly_enabled c) (v_now (x_alert x)) (s_anom s1) \<rparr> else s1)"

definition update_begin :: "did \<Rightarrow> sid \<Rightarrow> monitor \<Rightarrow> monitor" where
  "update_begin d i m = (case find_sensor d i m of
       None \<Rightarrow> m
     | Some (dev, s) \<Rightarrow> store_sensor_inval d dev i (s\<lparr> s_running := False, s_stopped := False \<rparr>) m)"

definition update_apply :: "mon_env \<Rightarrow> did \<Rightarrow> sid \<Rightarrow> edit list \<Rightarrow> bool \<Rightarrow> monitor \<Rightarrow> monitor" where
  "update_apply x d i es was_running m = (case find_sensor d i m of
       None \<Rightarrow> m
     | Some (dev, s) \<Rightarrow>
         (let m1 = store_sensor_inval d dev i (edit_sensor x (d_host dev) es s) m
          in if was_running then start_sensor x d i 0 m1 else m1))"

text \<open>The whole edit when nothing else runs in between.\<close>

definition update_sensor :: "mon_env \<Rightarrow> did \<Rightarrow> sid \<Rightarrow> edit list \<Rightarrow> monitor \<Rightarrow> monitor \<times> bool" where
  "update_sensor x d i es m = (case find_sensor d i m of
       None \<Rightarrow> (m, False)
     | Some (dev, s) \<Rightarrow> (update_apply x d i es (s_running s) (update_begin d i m), True))"

section \<open>One probe result\<close>

definition device_muted :: "mon_env \<Rightarrow> device \<Rightarrow> sensor \<Rightarrow> bool" where
  "device_muted x dev s = alerts_muted (x_alert x) dev s"

definition log_type :: "thr \<Rightarrow> string" where
  "log_type t = (if t = TCrit then ''err'' else if t = TWarn then ''warn'' else ''ok'')"

text \<open>The log line of a success: the rate of a counter, otherwise the text of the probe.\<close>

definition log_msg :: "probe_result \<Rightarrow> sensor \<Rightarrow> value_disp" where
  "log_msg r s = (case s_last_value s of
       Some v \<Rightarrow> if s_stype s = ''snmp'' \<and> s_last_rate s \<noteq> None \<and> value_truthy (Some v)
                 then v else VRaw (r_detail r)
     | None \<Rightarrow> VRaw (r_detail r))"

text \<open>The state machine proper, on a result that passed the guards.\<close>

definition evaluate_result :: "mon_env \<Rightarrow> probe_result \<Rightarrow> ts \<Rightarrow> source \<Rightarrow> device \<Rightarrow> sensor \<Rightarrow> monitor
    \<Rightarrow> monitor" where
  "evaluate_result x r now src dev s m =
     (let d = d_device_id dev; i = s_sensor_id s; muted = device_muted x dev s;
          p = cycle_body (x_anom x) muted src r now (v_now (x_alert x))
                \<lparr> p_dev = dev, p_s = s, p_in_grace = m_grace_active m, p_parked = m_parked m, p_out = [] \<rparr>;
          (s1, e1) = (if \<not> muted \<and> \<not> grace_has d i (p_parked p)
                      then evaluate_and_fire (x_alert x) (p_dev p) (p_s p, m_engine m)
                      else (p_s p, m_engine m));
          s2 = s1\<lparr> s_thr_history := deque_append (s_thr_history s1) (s_threshold_state s1) \<rparr>;
          (dev2, st) = device_status (put_sensor i s2 (p_dev p));
          batch = (if r_ok r then [ELog d i (log_msg r s2) (log_type (s_threshold_state s2))] else [])
                  @ [ESensor s2, EDeviceStatus d st]
      in m_emit (p_out p @ batch)
           (put_device d dev2 (m\<lparr> m_parked := p_parked p, m_engine := e1 \<rparr>)))"

text \<open>
  \<open>_process_result\<close>. A dropped remote replay still leaves the seeded timestamp behind.
\<close>

definition last_ts :: "mon_env \<Rightarrow> sensor \<Rightarrow> ts" where
  "last_ts x s = (case s_last_processed_ts s of
       Some t \<Rightarrow> t | None \<Rightarrow> x_max_sample_ts x (s_device_id s) (s_sensor_id s))"

definition process_result :: "mon_env \<Rightarrow> did \<Rightarrow> sid \<Rightarrow> probe_result \<Rightarrow> ts \<Rightarrow> source \<Rightarrow> bool \<Rightarrow> monitor
    \<Rightarrow> monitor \<times> bool" where
  "process_result x d i r now src state_eval m =
     (if m_shutting_down m then (m, False)
      else case find_sensor d i m of
             None \<Rightarrow> (m, False)
           | Some (dev, s) \<Rightarrow>
               (if \<not> s_running s then (m, False)
                else if src = Probe \<and> now \<le> last_ts x s
                then (store_sensor d dev i (s\<lparr> s_last_processed_ts := Some (last_ts x s) \<rparr>) m, False)
                else let s1 = s\<lparr> s_last_processed_ts := Some now \<rparr>
                     in if \<not> state_eval
                        then (m_emit [ESample d i (r_ok r) (r_ms r) (r_value r) now (r_rate r)]
                                (store_sensor d dev i s1 m), True)
                        else (evaluate_result x r now src dev s1 m, True)))"

section \<open>A probe chain\<close>

definition take_job :: "did \<times> sid \<Rightarrow> monitor \<Rightarrow> monitor" where
  "take_job k m = m\<lparr> m_ready := remove1 k (m_ready m) \<rparr>"

text \<open>The precondition check of \<open>_run_once_inner\<close>; a sensor that passes it is in flight.\<close>

definition run_begin :: "did \<Rightarrow> sid \<Rightarrow> monitor \<Rightarrow> monitor" where
  "run_begin d i m0 =
     (let m = take_job (d, i) m0
      in case find_sensor d i m of
           None \<Rightarrow> m
         | Some (dev, s) \<Rightarrow>
             (if \<not> s_running s then store_sensor d dev i (s\<lparr> s_stopped := True \<rparr>) m
              else let (b, eff) = effective_probe (Some dev) (Some s) (m_bind m)
                   in if eff \<noteq> []
                      then store_sensor d dev i (s\<lparr> s_sched_mode := Remote, s_stopped := True \<rparr>)
                             (m\<lparr> m_bind := b \<rparr>)
                      else m\<lparr> m_bind := b, m_inflight := (d, i) # m_inflight m \<rparr>))"

text \<open>After the result: schedule the next cycle, or end the chain.\<close>

definition reschedule :: "mon_env \<Rightarrow> did \<Rightarrow> sid \<Rightarrow> monitor \<Rightarrow> monitor" where
  "reschedule x d i m = (case find_sensor d i m of
       None \<Rightarrow> m_emit [ELog d i (VRaw ''[STOP]'') ''info''] m
     | Some (dev, s) \<Rightarrow>
         (let (b, eff) = effective_probe (Some dev) (Some s) (m_bind m); m1 = m\<lparr> m_bind := b \<rparr>
          in if s_running s \<and> eff = []
             then m1\<lparr> m_sched := sched_schedule (x_mono x) d i (of_int (c_interval (s_cfg s))) (m_sched m1) \<rparr>
             else if s_running s
             then store_sensor d dev i (s\<lparr> s_sched_mode := Remote, s_stopped := True \<rparr>) m1
             else m_emit [ELog d i (VRaw ''[STOP]'') ''info''] (store_sensor d dev i (s\<lparr> s_stopped := True \<rparr>) m)))"

definition run_end :: "mon_env \<Rightarrow> did \<Rightarrow> sid \<Rightarrow> probe_result \<Rightarrow> ts \<Rightarrow> monitor \<Rightarrow> monitor" where
  "run_end x d i r now m =
     (if (d, i) \<notin> set (m_inflight m) then m
      else reschedule x d i (fst (process_result x d i r now Local True
             (m\<lparr> m_inflight := remove1 (d, i) (m_inflight m) \<rparr>))))"

definition sched_tick :: "(did \<times> sid \<Rightarrow> bool) \<Rightarrow> ts \<Rightarrow> ts list \<Rightarrow> monitor \<Rightarrow> monitor" where
  "sched_tick accepts now clocks m =
     (let (h, out) = sched_pass accepts now clocks (m_sched m)
      in m\<lparr> m_sched := h, m_ready := m_ready m @ out \<rparr>)"

section \<open>Probe assignment\<close>

definition apply_one :: "mon_env \<Rightarrow> did \<times> sid \<Rightarrow> monitor \<Rightarrow> monitor" where
  "apply_one x k m = (case find_sensor (fst k) (snd k) m of
       None \<Rightarrow> m
     | Some (dev, s) \<Rightarrow>
         (let (b, eff) = effective_probe (Some dev) (Some s) (m_bind m); m1 = m\<lparr> m_bind := b \<rparr>;
              new_mode = (if eff \<noteq> [] then Remote else Central)
          in if new_mode = s_sched_mode s then m1
             else if new_mode = Remote
             then store_sensor (fst k) dev (snd k) (s\<lparr> s_sched_mode := Remote \<rparr>)
                    (m1\<lparr> m_sched := sched_cancel (fst k) (snd k) (m_sched m1) \<rparr>)
             else if s_running s
             then start_sensor x (fst k) (snd k) 0 (stop_sensor (fst k) (snd k) m1)
             else store_sensor (fst k) dev (snd k) (s\<lparr> s_sched_mode := Central \<rparr>) m1))"

definition apply_probe_assignment :: "mon_env \<Rightarrow> (did \<times> sid) list \<Rightarrow> monitor \<Rightarrow> monitor" where
  "apply_probe_assignment x pairs m = fold (apply_one x) pairs m"

section \<open>Startup grace\<close>

definition begin_startup_grace :: "mon_env \<Rightarrow> ts \<Rightarrow> monitor \<Rightarrow> monitor" where
  "begin_startup_grace x now m =
     (let g = max 0 (x_grace_s x)
      in if g = 0 then m
         else m\<lparr> m_grace_active := True, m_grace_min_end := now + of_int g,
                 m_grace_hardcap := now + of_int (max (g * 2) 180) \<rparr>)"

definition first_cycle_done :: "monitor \<Rightarrow> bool" where
  "first_cycle_done m \<longleftrightarrow>
     list_all (\<lambda>(d, dev). list_all (\<lambda>(i, s). \<not> (s_running s \<and> s_total s < 1)) (d_sensors dev)) (m_devices m)"

definition flush_grace :: "monitor \<Rightarrow> monitor" where
  "flush_grace m = m_emit (flush_entries (m_devices m) (m_parked m))
     (m\<lparr> m_grace_active := False, m_parked := [] \<rparr>)"

text \<open>The timer callback; \<open>True\<close> asks for another call three seconds later.\<close>

definition maybe_flush_grace :: "ts \<Rightarrow> monitor \<Rightarrow> monitor \<times> bool" where
  "maybe_flush_grace now m =
     (if \<not> m_grace_active m then (m, False)
      else if now < m_grace_hardcap m \<and> \<not> first_cycle_done m then (m, True)
      else (flush_grace m, False))"

end
