(* ===== verification/CycleLaws.thy ===== *)
theory CycleLaws
  imports Cycle
begin

text \<open>
  Laws of one probe cycle: what it leaves alone and when it drops the status cache (\<open>keeps\<close>), the
  well-formedness of a sensor (\<open>sensor_wf\<close>: bounded histories, counters, baseline), the debounce of
  the down state and the startup grace.
\<close>

section \<open>What a cycle leaves alone\<close>

definition keeps :: "pstate \<Rightarrow> pstate \<Rightarrow> bool" where
  "keeps p p' \<longleftrightarrow>
     s_device_id (p_s p') = s_device_id (p_s p) \<and> s_sensor_id (p_s p') = s_sensor_id (p_s p)
     \<and> s_cfg (p_s p') = s_cfg (p_s p) \<and> s_running (p_s p') = s_running (p_s p)
     \<and> s_sched_mode (p_s p') = s_sched_mode (p_s p)
     \<and> s_last_processed_ts (p_s p') = s_last_processed_ts (p_s p)
     \<and> p_in_grace p' = p_in_grace p
     \<and> (p_dev p' = p_dev p \<and> status_view (p_s p') = status_view (p_s p)
        \<or> p_dev p' = invalidate_status (p_dev p))"

lemma invalidate_idem [simp]: "invalidate_status (invalidate_status d) = invalidate_status d"
  by (simp add: invalidate_status_def)

lemma keeps_refl [simp]: "keeps p p"
  by (simp add: keeps_def)

lemma keeps_trans: "keeps p q \<Longrightarrow> keeps q r \<Longrightarrow> keeps p r"
  unfolding keeps_def by (elim conjE disjE) simp_all

lemma keeps_emit [simp]: "keeps p (emit es q) = keeps p q" "keeps (emit es p) q = keeps p q"
  by (simp_all add: keeps_def)

lemma keeps_if: "keeps p a \<Longrightarrow> keeps p b \<Longrightarrow> keeps p (if c then a else b)"
  by simp

lemma keeps_parked [simp]: "keeps p (q\<lparr> p_parked := m \<rparr>) = keeps p q"
  by (simp add: keeps_def)

text \<open>An update of fields the status does not read, and one that invalidates.\<close>

definition quiet_upd :: "(sensor \<Rightarrow> sensor) \<Rightarrow> bool" where
  "quiet_upd f \<longleftrightarrow> (\<forall>s. s_device_id (f s) = s_device_id s \<and> s_sensor_id (f s) = s_sensor_id s
     \<and> s_cfg (f s) = s_cfg s \<and> s_running (f s) = s_running s \<and> s_sched_mode (f s) = s_sched_mode s
     \<and> s_last_processed_ts (f s) = s_last_processed_ts s
     \<and> status_view (f s) = status_view s)"

definition loud_upd :: "(sensor \<Rightarrow> sensor) \<Rightarrow> bool" where
  "loud_upd f \<longleftrightarrow> (\<forall>s. s_device_id (f s) = s_device_id s \<and> s_sensor_id (f s) = s_sensor_id s
     \<and> s_cfg (f s) = s_cfg s \<and> s_running (f s) = s_running s \<and> s_sched_mode (f s) = s_sched_mode s
     \<and> s_last_processed_ts (f s) = s_last_processed_ts s)"

lemma keeps_quiet: "quiet_upd f \<Longrightarrow> keeps p (upd_s f p)"
  by (simp add: keeps_def quiet_upd_def)

lemma keeps_loud: "loud_upd f \<Longrightarrow> keeps p (upd_dev invalidate_status (upd_s f p))"
  by (simp add: keeps_def loud_upd_def)

lemma keeps_drive: "keeps p (drive_threshold t now p)"
  unfolding drive_threshold_def
  by (auto intro!: keeps_loud simp: loud_upd_def Let_def)

lemma keeps_typed: "keeps p (typed_step muted r now p)"
proof -
  have snmp: "quiet_upd (\<lambda>s. s\<lparr> s_snmp := f (s_snmp s) \<rparr>)" for f
    by (simp add: quiet_upd_def status_view_def)
  have tr: "keeps p (enum_transition prev cur now p)" for prev cur
    by (simp add: enum_transition_def Let_def keeps_drive)
  have "keeps p (enum_step raw now p)" for raw
    unfolding enum_step_def Let_def
    by (auto split: option.splits intro!: keeps_trans [OF _ keeps_quiet [OF snmp]] tr)
  moreover have "keeps p (ticks_step raw now p)" for raw
    unfolding ticks_step_def Let_def
    by (auto split: option.splits intro!: keeps_trans [OF _ keeps_quiet [OF snmp]])
  moreover have "keeps p (text_step raw now p)" for raw
    unfolding text_step_def Let_def
    by (auto split: option.splits intro!: keeps_trans [OF _ keeps_quiet [OF snmp]])
  ultimately show ?thesis
    by (auto simp: typed_step_def Let_def split: option.splits category.splits)
qed

definition vals_only :: "sensor \<Rightarrow> sensor \<Rightarrow> bool" where
  "vals_only s t \<longleftrightarrow>
     t = s\<lparr> s_snmp := s_snmp t, s_last_value := s_last_value t, s_last_detail := s_last_detail t \<rparr>"

lemma vals_only_set_rate: "vals_only s t \<Longrightarrow> vals_only s (set_rate r t)"
  unfolding vals_only_def set_rate_def by (cases s, cases t) simp

lemma vals_only_upd:
  "vals_only s s" "vals_only s t \<Longrightarrow> vals_only s (t\<lparr> s_snmp := n \<rparr>)"
  "vals_only s t \<Longrightarrow> vals_only s (t\<lparr> s_last_value := v \<rparr>)"
  "vals_only s t \<Longrightarrow> vals_only s (t\<lparr> s_last_detail := d \<rparr>)"
  unfolding vals_only_def by ((cases s, cases t)?, simp)+

lemmas vals_onlyI = vals_only_set_rate vals_only_upd

lemma vals_only_counter:
  assumes "vals_only s t"
  shows "vals_only s (counter_probe r t)" "vals_only s (counter_local styp raw now t)"
proof -
  show "vals_only s (counter_probe r t)"
    unfolding counter_probe_def by (cases r) (simp_all add: vals_onlyI assms)
  show "vals_only s (counter_local styp raw now t)"
  proof (cases "parse_int raw")
    case None
    then show ?thesis by (simp add: counter_local_def vals_onlyI assms)
  next
    case (Some cur)
    have "vals_only s (case (n_prev (s_snmp t), n_prev_ts (s_snmp t)) of
        (Some prev, Some prev_ts) \<Rightarrow> set_rate (counter_rate styp prev prev_ts cur now) t
      | _ \<Rightarrow> (set_rate None t)\<lparr> s_last_detail := em_dash \<rparr>)"
      by (cases "n_prev (s_snmp t)"; cases "n_prev_ts (s_snmp t)") (simp_all add: vals_onlyI assms)
    then show ?thesis by (simp only: counter_local_def Some option.case Let_def) (rule vals_onlyI)
  qed
qed

lemma vals_only_value_update: "vals_only s (value_update src r now s)"
  by (simp add: value_update_def Let_def vals_onlyI vals_only_counter)

lemma vals_onlyD:
  assumes "vals_only s t"
  shows "s_device_id t = s_device_id s"
    "s_sensor_id t = s_sensor_id s"
    "s_cfg t = s_cfg s"
    "s_running t = s_running s"
    "s_sched_mode t = s_sched_mode s"
    "s_last_processed_ts t = s_last_processed_ts s"
    "s_alive t = s_alive s"
    "s_threshold_state t = s_threshold_state s"
    "s_alerted_down t = s_alerted_down s"
    "s_down_since_ts t = s_down_since_ts s"
    "s_consec_fail t = s_consec_fail s"
    "s_consec_ok t = s_consec_ok s"
    "s_history t = s_history s"
    "s_thr_history t = s_thr_history s"
    "s_total t = s_total s"
    "s_success t = s_success s"
    "s_anom t = s_anom s"
    "s_threshold_triggered_ts t = s_threshold_triggered_ts s"
  by (subst assms [unfolded vals_only_def], simp)+

lemmas value_update_frame [frame_simps] = vals_onlyD [OF vals_only_value_update]

lemma keeps_success_values: "keeps p (success_values src r now p)"
  by (auto simp: success_values_def keeps_def status_view_def Let_def frame_simps)

lemma keeps_recover: "keeps p (recover muted now p)"
proof -
  have "quiet_upd end_incident"
    by (simp add: quiet_upd_def end_incident_def Let_def status_view_def)
  then show ?thesis
    unfolding recover_def Let_def split_beta
    by (intro keeps_trans [OF _ keeps_quiet]) auto
qed

lemma keeps_debounce: "keeps p (success_debounce muted r now p)"
proof -
  have "quiet_upd (\<lambda>s. s\<lparr> s_history := deque_append (s_history s) (r_ms r), s_consec_fail := 0,
      s_consec_ok := s_consec_ok s + 1 \<rparr>)" "quiet_upd (\<lambda>s. s\<lparr> s_recovery_pending := False \<rparr>)"
    by (simp_all add: quiet_upd_def status_view_def)
  then show ?thesis
    unfolding success_debounce_def Let_def
    by (auto intro: keeps_trans [OF keeps_quiet] keeps_recover keeps_quiet)
qed

lemma keeps_success: "keeps p (success_step muted src r now p)"
  unfolding success_step_def
  by (rule keeps_trans [OF keeps_trans [OF keeps_success_values keeps_typed] keeps_debounce])

lemma keeps_fail: "keeps p (fail_step muted r now p)"
proof -
  have 1: "keeps p (fail_values r now p)"
    by (auto simp: fail_values_def keeps_def status_view_def Let_def)
  have q: "quiet_upd (\<lambda>s. s\<lparr> s_alerted_down := True, s_down_since_ts := Some now \<rparr>)"
    by (simp add: quiet_upd_def status_view_def)
  have "keeps p (go_down muted r now p)" for p
    unfolding go_down_def Let_def by (intro keeps_trans [OF _ keeps_quiet [OF q]]) auto
  with 1 show ?thesis by (auto simp: fail_step_def Let_def intro: keeps_trans)
qed

lemma keeps_worse: "keeps p (thr_worse prev t now p)"
proof -
  have "quiet_upd (\<lambda>s. s\<lparr> s_threshold_recovery_pending := False, s_threshold_triggered_ts := Some now \<rparr>)"
    by (simp add: quiet_upd_def status_view_def)
  then show ?thesis by (auto simp: thr_worse_def Let_def intro: keeps_quiet)
qed

lemma keeps_recovered: "keeps p (thr_recovered prev now p)"
proof -
  have "quiet_upd (\<lambda>s. let s1 = s\<lparr> s_threshold_recovery_pending := True, s_threshold_triggered_ts := None \<rparr>
      in if \<not> s_alerted_down s1 then s1\<lparr> s_ack_by := [], s_ack_at := 0 \<rparr> else s1)"
    by (simp add: quiet_upd_def status_view_def Let_def)
  then show ?thesis by (auto simp: thr_recovered_def Let_def split_beta intro: keeps_quiet)
qed

lemma keeps_transition: "keeps p (thr_transition muted t now p)"
proof -
  have l: "loud_upd (\<lambda>s. s\<lparr> s_threshold_state := t, s_consec_threshold := 1 \<rparr>)"
    by (simp add: loud_upd_def)
  have q: "quiet_upd (\<lambda>s. let s1 = s\<lparr> s_consec_threshold := s_consec_threshold s + 1 \<rparr>
      in if s_threshold_state s1 = TOk \<and> s_threshold_recovery_pending s1 \<and> 60 \<le> s_consec_threshold s1
         then s1\<lparr> s_threshold_recovery_pending := False \<rparr> else s1)"
    by (simp add: quiet_upd_def status_view_def Let_def)
  let ?p1 = "upd_dev invalidate_status (upd_s (\<lambda>s. s\<lparr> s_threshold_state := t, s_consec_threshold := 1 \<rparr>) p)"
  have "keeps p (thr_worse prev t now ?p1)" "keeps p (thr_recovered prev now ?p1)" for prev
    using keeps_trans [OF keeps_loud [OF l]] keeps_worse keeps_recovered by blast+
  then show ?thesis
    unfolding thr_transition_def Let_def
    by (intro keeps_if keeps_loud [OF l] keeps_quiet [OF q, unfolded Let_def])
qed

lemma keeps_eval:
  "keeps p (p\<lparr> p_s := fst (threshold_eval st now ok (p_s p)) \<rparr>)"
proof -
  have "s_sched_mode (fst (threshold_eval st now ok s)) = s_sched_mode s"
    "s_last_processed_ts (fst (threshold_eval st now ok s)) = s_last_processed_ts s" for s
    by (auto simp: threshold_eval_def anomaly_thr_def cert_thr_def Let_def split: option.splits prod.splits)
  then show ?thesis by (simp add: keeps_def frame_simps status_view_def)
qed

lemma keeps_start: "keeps p (start_cycle r p)"
proof -
  have "quiet_upd (\<lambda>s. s\<lparr> s_total := s_total s + 1, s_cert_days := r_cert_days r \<rparr>)"
    by (simp add: quiet_upd_def status_view_def)
  then have "keeps q (upd_s (\<lambda>s. s\<lparr> s_total := s_total s + 1, s_cert_days := r_cert_days r \<rparr>) q)" for q
    by (rule keeps_quiet)
  from this [of "emit [ELog (d_device_id (p_dev p)) (s_sensor_id (p_s p)) (VRaw ''[START]'') ''info''] p"] this [of p]
  show ?thesis by (simp add: start_cycle_def Let_def)
qed

lemma keeps_cycle: "keeps p (cycle_body st muted src r now clock p)"
proof -
  let ?p1 = "start_cycle r p"
  let ?p2 = "if r_ok r then success_step muted src r now ?p1 else fail_step muted r now ?p1"
  let ?p3 = "emit [sample_effect ?p2 r now] ?p2"
  let ?e = "threshold_eval st clock (r_ok r) (p_s ?p3)"
  have 2: "keeps p ?p2" by (intro keeps_if keeps_trans [OF keeps_start keeps_success] keeps_trans [OF keeps_start keeps_fail])
  then have 3: "keeps p (?p3\<lparr> p_s := fst ?e \<rparr>)" by (intro keeps_trans [OF _ keeps_eval]) simp
  have "cycle_body st muted src r now clock p = thr_transition muted (snd ?e) now (?p3\<lparr> p_s := fst ?e \<rparr>)"
    by (simp add: cycle_body_def Let_def split_beta)
  then show ?thesis using keeps_trans [OF 3 keeps_transition] by (simp only:)
qed

section \<open>The debounce, against its specification\<close>

text \<open>
  The specification: an automaton over probe verdicts. \<open>fa\<close> consecutive failures open an incident,
  \<open>ra\<close> consecutive successes close it.
\<close>

record deb =
  deb_down :: bool
  deb_fails :: nat
  deb_oks :: nat

definition deb_step :: "int \<Rightarrow> int \<Rightarrow> bool \<Rightarrow> deb \<Rightarrow> deb" where
  "deb_step fa ra ok a =
     (if ok
      then (if deb_down a \<and> ra \<le> int (deb_oks a + 1)
            then \<lparr> deb_down = False, deb_fails = 0, deb_oks = 0 \<rparr>
            else a\<lparr> deb_fails := 0, deb_oks := deb_oks a + 1 \<rparr>)
      else a\<lparr> deb_down := deb_down a \<or> fa \<le> int (deb_fails a + 1),
              deb_fails := deb_fails a + 1, deb_oks := 0 \<rparr>)"

definition deb_of :: "sensor \<Rightarrow> deb" where
  "deb_of s = \<lparr> deb_down = s_alerted_down s, deb_fails = s_consec_fail s, deb_oks = s_consec_ok s \<rparr>"

text \<open>The part of the sensor the threshold transition leaves alone.\<close>

lemma transition_frame [frame_simps]:
  "s_alerted_down (p_s (thr_transition muted t now p)) = s_alerted_down (p_s p)"
  "s_consec_fail (p_s (thr_transition muted t now p)) = s_consec_fail (p_s p)"
  "s_consec_ok (p_s (thr_transition muted t now p)) = s_consec_ok (p_s p)"
  "s_down_since_ts (p_s (thr_transition muted t now p)) = s_down_since_ts (p_s p)"
  "s_history (p_s (thr_transition muted t now p)) = s_history (p_s p)"
  "s_thr_history (p_s (thr_transition muted t now p)) = s_thr_history (p_s p)"
  "s_total (p_s (thr_transition muted t now p)) = s_total (p_s p)"
  "s_success (p_s (thr_transition muted t now p)) = s_success (p_s p)"
  "s_anom (p_s (thr_transition muted t now p)) = s_anom (p_s p)"
  "s_alive (p_s (thr_transition muted t now p)) = s_alive (p_s p)"
  "s_threshold_state (p_s (thr_transition muted t now p)) = t"
  by (auto simp: thr_transition_def thr_worse_def thr_recovered_def Let_def split_beta)

lemma recover_s: "p_s (recover muted now p) = end_incident (p_s p)"
  by (simp add: recover_def Let_def split_beta)

lemma go_down_s:
  "p_s (go_down muted r now p) = (p_s p)\<lparr> s_alerted_down := True, s_down_since_ts := Some now \<rparr>"
  by (simp add: go_down_def Let_def)

lemma typed_step_other: "s_stype (p_s p) \<noteq> ''snmp'' \<Longrightarrow> typed_step muted r now p = p"
  by (simp add: typed_step_def Let_def)

lemma success_values_s [frame_simps]:
  "s_stype (p_s (success_values src r now p)) = s_stype (p_s p)"
  "s_alerted_down (p_s (success_values src r now p)) = s_alerted_down (p_s p)"
  "s_consec_fail (p_s (success_values src r now p)) = s_consec_fail (p_s p)"
  "s_consec_ok (p_s (success_values src r now p)) = s_consec_ok (p_s p)"
  "s_down_since_ts (p_s (success_values src r now p)) = s_down_since_ts (p_s p)"
  "s_cfg (p_s (success_values src r now p)) = s_cfg (p_s p)"
  "s_history (p_s (success_values src r now p)) = s_history (p_s p)"
  "s_thr_history (p_s (success_values src r now p)) = s_thr_history (p_s p)"
  "s_total (p_s (success_values src r now p)) = s_total (p_s p)"
  "s_success (p_s (success_values src r now p)) = s_success (p_s p) + 1"
  "s_anom (p_s (success_values src r now p)) = s_anom (p_s p)"
  "s_alive (p_s (success_values src r now p)) = Some True"
  by (simp_all add: success_values_def Let_def frame_simps)

lemma start_cycle_s:
  "p_s (start_cycle r p) = (p_s p)\<lparr> s_total := s_total (p_s p) + 1, s_cert_days := r_cert_days r \<rparr>"
  by (simp add: start_cycle_def Let_def)

definition branch :: "bool \<Rightarrow> source \<Rightarrow> probe_result \<Rightarrow> ts \<Rightarrow> pstate \<Rightarrow> pstate" where
  "branch muted src r now p =
     (if r_ok r then success_step muted src r now p else fail_step muted r now p)"

lemma cycle_body_unfold:
  "cycle_body st muted src r now clock p =
     (let q = branch muted src r now (start_cycle r p); e = threshold_eval st clock (r_ok r) (p_s q)
      in thr_transition muted (snd e) now ((emit [sample_effect q r now] q)\<lparr> p_s := fst e \<rparr>))"
  by (simp add: cycle_body_def branch_def Let_def split_beta)

lemma deb_of_success:
  assumes "s_stype (p_s p) \<noteq> ''snmp''"
  shows "deb_of (p_s (success_step muted src r now p)) =
    deb_step (c_fail_after (s_cfg (p_s p))) (c_recover_after (s_cfg (p_s p))) True (deb_of (p_s p))"
proof -
  let ?q = "success_values src r now p"
  have "typed_step muted r now ?q = ?q" using assms by (simp add: typed_step_other frame_simps)
  then show ?thesis
    by (simp add: success_step_def success_debounce_def Let_def recover_s end_incident_def deb_of_def
        deb_step_def frame_simps)
qed

lemma deb_of_fail:
  "deb_of (p_s (fail_step muted r now p)) =
    deb_step (c_fail_after (s_cfg (p_s p))) (c_recover_after (s_cfg (p_s p))) False (deb_of (p_s p))"
  by (auto simp: fail_step_def fail_values_def Let_def go_down_s deb_of_def deb_step_def)

theorem cycle_debounce:
  assumes "s_stype (p_s p) \<noteq> ''snmp''"
  shows "deb_of (p_s (cycle_body st muted src r now clock p)) =
    deb_step (c_fail_after (s_cfg (p_s p))) (c_recover_after (s_cfg (p_s p))) (r_ok r) (deb_of (p_s p))"
proof -
  have s: "deb_of (p_s (start_cycle r p)) = deb_of (p_s p)" "s_cfg (p_s (start_cycle r p)) = s_cfg (p_s p)"
    by (simp_all add: start_cycle_s deb_of_def)
  have t: "deb_of (fst (threshold_eval st clock ok x)) = deb_of x" for ok x
    by (simp add: deb_of_def frame_simps)
  have u: "deb_of (p_s (thr_transition muted th now q)) = deb_of (p_s q)" for th q
    by (simp add: deb_of_def frame_simps)
  show ?thesis
    using assms
    by (simp add: cycle_body_unfold Let_def u t branch_def deb_of_success deb_of_fail s)
qed

text \<open>What the automaton promises.\<close>

definition deb_run :: "int \<Rightarrow> int \<Rightarrow> bool list \<Rightarrow> deb \<Rightarrow> deb" where
  "deb_run fa ra vs a = fold (deb_step fa ra) vs a"

lemma deb_fails_run:
  "deb_fails (deb_run fa ra (replicate n False) a) = deb_fails a + n
   \<and> (deb_down (deb_run fa ra (replicate n False) a) \<longleftrightarrow>
        deb_down a \<or> (0 < n \<and> fa \<le> int (deb_fails a + n)))"
proof (induction n arbitrary: a)
  case 0
  then show ?case by (simp add: deb_run_def)
next
  case (Suc n)
  have "deb_run fa ra (replicate (Suc n) False) a = deb_run fa ra (replicate n False) (deb_step fa ra False a)"
    by (simp add: deb_run_def)
  then show ?case using Suc [of "deb_step fa ra False a"] by (auto simp: deb_step_def)
qed

lemma deb_oks_run:
  assumes "\<not> deb_down a"
  shows "\<not> deb_down (deb_run fa ra (replicate n True) a)"
  using assms
proof (induction n arbitrary: a)
  case (Suc n)
  then show ?case using Suc.IH [of "deb_step fa ra True a"] by (simp add: deb_run_def deb_step_def)
qed (simp add: deb_run_def)

lemma deb_recovers:
  assumes "ra \<le> int (deb_oks a + n)" "0 < n"
  shows "\<not> deb_down (deb_run fa ra (replicate n True) a)"
  using assms
proof (induction n arbitrary: a)
  case (Suc n)
  have unf: "deb_run fa ra (replicate (Suc n) True) a = deb_run fa ra (replicate n True) (deb_step fa ra True a)"
    by (simp add: deb_run_def)
  show ?case
  proof (cases "deb_down (deb_step fa ra True a)")
    case False
    then show ?thesis unfolding unf by (rule deb_oks_run)
  next
    case True
    then have a: "deb_oks (deb_step fa ra True a) = deb_oks a + 1" "deb_down a" "\<not> ra \<le> int (deb_oks a + 1)"
      by (auto simp: deb_step_def split: if_splits)
    then have "0 < n" using Suc.prems(1) by (cases n) auto
    moreover have "ra \<le> int (deb_oks (deb_step fa ra True a) + n)" using Suc.prems(1) a(1) by simp
    ultimately show ?thesis unfolding unf by (intro Suc.IH)
  qed
qed simp

text \<open>Consecutive cycles of one sensor: the results with their timestamps and the wall clock.\<close>

fun cycles :: "anom_settings \<Rightarrow> bool \<Rightarrow> source \<Rightarrow> (probe_result \<times> ts \<times> ts) list \<Rightarrow> pstate \<Rightarrow> pstate" where
  "cycles st muted src [] p = p"
| "cycles st muted src ((r, now, clock) # rs) p = cycles st muted src rs (cycle_body st muted src r now clock p)"

lemma cycle_cfg: "s_cfg (p_s (cycle_body st muted src r now clock p)) = s_cfg (p_s p)"
  using keeps_cycle [of p st muted src r now clock] by (simp add: keeps_def)

lemma cycles_debounce:
  assumes "s_stype (p_s p) \<noteq> ''snmp''"
  shows "deb_of (p_s (cycles st muted src rs p)) = deb_run (c_fail_after (s_cfg (p_s p)))
    (c_recover_after (s_cfg (p_s p))) (map (\<lambda>(r, _). r_ok r) rs) (deb_of (p_s p))"
  using assms
proof (induction rs arbitrary: p)
  case (Cons x rs)
  obtain r now clock where x: "x = (r, now, clock)" by (cases x)
  show ?case
    using Cons.IH [of "cycle_body st muted src r now clock p"] Cons.prems
    by (simp add: x cycle_cfg cycle_debounce deb_run_def)
qed (simp add: deb_run_def)

section \<open>Flaps\<close>

definition down_evt :: "effect \<Rightarrow> bool" where
  "down_evt e \<longleftrightarrow> (case e of EFlap n f \<Rightarrow> n = ''flap_down'' | _ \<Rightarrow> False)"

definition downs :: "pstate \<Rightarrow> effect list" where
  "downs p = filter down_evt (p_out p)"

lemma down_evt_simps [simp]:
  "down_evt (EFlap n f) = (n = ''flap_down'')" "\<not> down_evt (ELog a b msg d)" "\<not> down_evt (ELogFlap f)"
  "\<not> down_evt (EAutoResolve a b k l)" "\<not> down_evt (EWebhook u f)" "\<not> down_evt (ELogErr a b c k)"
  "\<not> down_evt (ESample a b ok ms v t rt)" "\<not> down_evt (ESensor s)" "\<not> down_evt (EDeviceStatus a st)"
  by (simp_all add: down_evt_def)

lemma downs_transition: "downs (thr_transition muted t now p) = downs p"
  by (auto simp: thr_transition_def thr_worse_def thr_recovered_def downs_def thr_event_def Let_def
      split_beta split: option.split)

lemma downs_success:
  assumes "s_stype (p_s p) \<noteq> ''snmp''"
  shows "downs (success_step muted src r now p) = downs p"
proof -
  let ?q = "success_values src r now p"
  have "typed_step muted r now ?q = ?q" using assms by (simp add: typed_step_other frame_simps)
  moreover have "downs ?q = downs p" by (simp add: success_values_def downs_def Let_def)
  ultimately show ?thesis
    by (auto simp: success_step_def success_debounce_def recover_def downs_def Let_def split_beta)
qed

lemma downs_webhook [simp]: "filter down_evt (webhook_for p f) = []"
  by (simp add: webhook_for_def)

lemma downs_fail:
  "length (downs (fail_step muted r now p)) = length (downs p) +
     (if \<not> s_alerted_down (p_s p) \<and> s_alerted_down (p_s (fail_step muted r now p))
         \<and> \<not> muted \<and> \<not> p_in_grace p then 1 else 0)"
  by (auto simp: fail_step_def fail_values_def go_down_def downs_def Let_def)

text \<open>
  A cycle reports a down flap exactly when the incident opens, unless the sensor is muted or the
  startup grace parks it.
\<close>

theorem cycle_down_flap:
  assumes "s_stype (p_s p) \<noteq> ''snmp''"
  shows "length (downs (cycle_body st muted src r now clock p)) = length (downs p) +
     (if \<not> s_alerted_down (p_s p) \<and> s_alerted_down (p_s (cycle_body st muted src r now clock p))
         \<and> \<not> muted \<and> \<not> p_in_grace p then 1 else 0)"
proof -
  let ?p1 = "start_cycle r p"
  have p1: "downs ?p1 = downs p" "s_stype (p_s ?p1) = s_stype (p_s p)"
    "s_alerted_down (p_s ?p1) = s_alerted_down (p_s p)" "p_in_grace ?p1 = p_in_grace p"
    by (simp_all add: start_cycle_def downs_def Let_def)
  have emit: "downs (q\<lparr> p_s := x, p_out := p_out q @ [sample_effect q r now] \<rparr>) = downs q" for q x
    by (simp add: downs_def sample_effect_def)
  have body: "downs (cycle_body st muted src r now clock p) = downs (branch muted src r now ?p1)"
    "s_alerted_down (p_s (cycle_body st muted src r now clock p))
       = s_alerted_down (p_s (branch muted src r now ?p1))"
    by (simp_all add: cycle_body_unfold Let_def downs_transition frame_simps)
      (simp add: downs_def sample_effect_def)
  show ?thesis
  proof (cases "r_ok r")
    case True
    have "s_alerted_down (p_s ?p1) = False \<Longrightarrow> s_alerted_down (p_s (success_step muted src r now ?p1)) = False"
      using deb_of_success [of ?p1 muted src r now] assms p1(2)
      by (auto simp: deb_of_def deb_step_def split: if_splits)
    then show ?thesis using True downs_success [of ?p1] assms p1
      by (cases "s_alerted_down (p_s p)") (simp_all add: body branch_def)
  next
    case False
    then show ?thesis using downs_fail [of muted r now ?p1] p1 by (simp add: body branch_def)
  qed
qed

section \<open>Well-formed sensors\<close>

definition sensor_wf :: "sensor \<Rightarrow> bool" where
  "sensor_wf s \<longleftrightarrow> s_success s \<le> s_total s \<and> length (s_history s) \<le> sensor_MAX
     \<and> length (s_thr_history s) \<le> sensor_MAX \<and> anom_wf (s_anom s)"

lemma sensor_wf_new [simp]: "sensor_wf (new_sensor d i c)"
  by (simp add: sensor_wf_def new_sensor_def sensor_MAX_def)

lemma typed_step_wf_fields:
  "s_success (p_s (typed_step muted r now p)) = s_success (p_s p)"
  "s_total (p_s (typed_step muted r now p)) = s_total (p_s p)"
  "s_history (p_s (typed_step muted r now p)) = s_history (p_s p)"
  "s_thr_history (p_s (typed_step muted r now p)) = s_thr_history (p_s p)"
  "s_anom (p_s (typed_step muted r now p)) = s_anom (p_s p)"
  "s_alive (p_s (typed_step muted r now p)) = s_alive (p_s p)"
proof -
  define W where "W s = (s_success s, s_total s, s_history s, s_thr_history s, s_anom s, s_alive s)"
    for s :: sensor
  have d: "W (p_s (drive_threshold t now p)) = W (p_s p)" for t p
    by (simp add: drive_threshold_def Let_def W_def)
  have e: "W (p_s (enum_transition prev cur now p)) = W (p_s p)" for prev cur p
    by (simp add: enum_transition_def Let_def d)
  have sn: "W (s\<lparr> s_snmp := n \<rparr>) = W s" for s n by (simp add: W_def)
  have "W (p_s (enum_step raw now p)) = W (p_s p)" for raw p
    by (simp add: enum_step_def Let_def sn e split: option.split)
  moreover have "W (p_s (ticks_step raw now p)) = W (p_s p)" for raw p
    by (simp add: ticks_step_def Let_def sn split: option.split)
  moreover have "W (p_s (text_step raw now p)) = W (p_s p)" for raw p
    by (simp add: text_step_def Let_def sn split: option.split)
  ultimately have "W (p_s (typed_step muted r now p)) = W (p_s p)"
    by (simp add: typed_step_def Let_def split: option.split category.split)
  then show "s_success (p_s (typed_step muted r now p)) = s_success (p_s p)"
    "s_total (p_s (typed_step muted r now p)) = s_total (p_s p)"
    "s_history (p_s (typed_step muted r now p)) = s_history (p_s p)"
    "s_thr_history (p_s (typed_step muted r now p)) = s_thr_history (p_s p)"
    "s_anom (p_s (typed_step muted r now p)) = s_anom (p_s p)"
    "s_alive (p_s (typed_step muted r now p)) = s_alive (p_s p)"
    by (simp_all add: W_def)
qed

text \<open>One success more than before fits under the raised total.\<close>

definition wf_slack :: "nat \<Rightarrow> sensor \<Rightarrow> bool" where
  "wf_slack k s \<longleftrightarrow> s_success s + k \<le> s_total s \<and> length (s_history s) \<le> sensor_MAX
     \<and> length (s_thr_history s) \<le> sensor_MAX \<and> anom_wf (s_anom s)"

lemma branch_wf:
  assumes "wf_slack 1 (p_s p)"
  shows "wf_slack 0 (p_s (branch muted src r now p))"
  using assms length_deque_append
  by (auto simp: branch_def success_step_def success_debounce_def fail_step_def fail_values_def
      go_down_s recover_s end_incident_def typed_step_wf_fields frame_simps wf_slack_def Let_def)

lemma threshold_eval_wf:
  assumes "anom_wf (s_anom s)"
  shows "anom_wf (s_anom (fst (threshold_eval st now ok s)))"
proof -
  have "anom_wf (s_anom (fst (anomaly_thr st now ok s t)))" for t
  proof (cases "s_last_ms s")
    case None
    then show ?thesis using assms by (simp add: anomaly_thr_def Let_def)
  next
    case (Some v)
    have "anom_wf (fst (evaluate_anomaly st now (s_cfg s) v (s_anom s)))"
      by (rule evaluate_anomaly_wf [OF assms])
    then show ?thesis using assms Some by (simp add: anomaly_thr_def Let_def split_beta)
  qed
  moreover have "s_anom (fst (cert_thr ok u t)) = s_anom u" for u t
    by (simp add: cert_thr_def Let_def split: option.split)
  ultimately show ?thesis by (simp add: threshold_eval_def split_beta Let_def)
qed

theorem cycle_wf:
  assumes "sensor_wf (p_s p)"
  shows "sensor_wf (p_s (cycle_body st muted src r now clock p))"
proof -
  have "wf_slack 1 (p_s (start_cycle r p))"
    using assms by (simp add: start_cycle_s sensor_wf_def wf_slack_def)
  from branch_wf [OF this, of muted src r now]
  have "wf_slack 0 (p_s (branch muted src r now (start_cycle r p)))" .
  then show ?thesis
    by (simp add: cycle_body_unfold Let_def sensor_wf_def wf_slack_def frame_simps threshold_eval_wf)
qed

text \<open>The incident timestamp and the down flag of a non-SNMP sensor go together.\<close>

definition incident_ok :: "sensor \<Rightarrow> bool" where
  "incident_ok s \<longleftrightarrow> (s_alerted_down s \<longleftrightarrow> s_down_since_ts s \<noteq> None)"

lemma cycle_incident_ok:
  assumes "incident_ok (p_s p)" "s_stype (p_s p) \<noteq> ''snmp''"
  shows "incident_ok (p_s (cycle_body st muted src r now clock p))"
proof -
  let ?p1 = "start_cycle r p"
  let ?q = "success_values src r now ?p1"
  have ty: "typed_step muted r now ?q = ?q"
    using assms(2) by (simp add: typed_step_other frame_simps start_cycle_s)
  have "incident_ok (p_s (branch muted src r now ?p1))"
    using assms(1)
    by (auto simp: branch_def success_step_def ty success_debounce_def fail_step_def fail_values_def
        go_down_s recover_s end_incident_def frame_simps start_cycle_s incident_ok_def Let_def)
  then show ?thesis by (simp add: cycle_body_unfold Let_def incident_ok_def frame_simps)
qed

lemma cycle_alive: "s_alive (p_s (cycle_body st muted src r now clock p)) = Some (r_ok r)"
proof -
  have "s_alive (p_s (branch muted src r now q)) = Some (r_ok r)" for q
    by (auto simp: branch_def success_step_def success_debounce_def fail_step_def fail_values_def
        go_down_s recover_s end_incident_def frame_simps typed_step_wf_fields Let_def)
  then show ?thesis by (simp add: cycle_body_unfold Let_def frame_simps)
qed

section \<open>Which rows a cycle resolves\<close>

text \<open>
  A warning of the anomaly detector is logged with the direction \<open>anomaly_warn\<close>; no cycle resolves rows
  of that direction.
\<close>

definition spares_anomaly :: "effect \<Rightarrow> bool" where
  "spares_anomaly e \<longleftrightarrow> (case e of EAutoResolve _ _ _ ds \<Rightarrow> ''anomaly_warn'' \<notin> set ds | _ \<Rightarrow> True)"

lemma spares_simps [simp]:
  "spares_anomaly (EAutoResolve d i t ds) \<longleftrightarrow> ''anomaly_warn'' \<notin> set ds" "spares_anomaly (EFlap n f)"
  "spares_anomaly (ELog a b msg d)" "spares_anomaly (ELogFlap f)" "spares_anomaly (EWebhook u f)"
  "spares_anomaly (ELogErr a b c k)" "spares_anomaly (ESample a b ok ms v tm rt)"
  by (simp_all add: spares_anomaly_def)

lemma spares_steps:
  assumes "list_all spares_anomaly (p_out p)"
  shows "list_all spares_anomaly (p_out (typed_step muted r now p))"
    and "list_all spares_anomaly (p_out (recover muted now p))"
    and "list_all spares_anomaly (p_out (fail_step muted r now p))"
    and "list_all spares_anomaly (p_out (thr_transition muted t now p))"
    and "list_all spares_anomaly (p_out (start_cycle r p))"
    and "list_all spares_anomaly (p_out (success_values src r now p))"
  using assms
  by (simp_all add: typed_step_def enum_step_def enum_transition_def ticks_step_def text_step_def
      webhook_for_def recover_def fail_step_def fail_values_def go_down_def thr_transition_def thr_worse_def
      thr_recovered_def thr_dir_def start_cycle_def success_values_def frame_simps Let_def split_beta
      split: option.split category.split)

lemma cycle_spares:
  assumes "list_all spares_anomaly (p_out p)"
  shows "list_all spares_anomaly (p_out (cycle_body st muted src r now clock p))"
proof -
  have "list_all spares_anomaly (p_out (success_debounce muted r now q))"
    if "list_all spares_anomaly (p_out q)" for q
    using that by (simp add: success_debounce_def Let_def spares_steps(2))
  then have b: "list_all spares_anomaly (p_out (branch muted src r now q))"
    if "list_all spares_anomaly (p_out q)" for q
    using that by (simp add: branch_def success_step_def spares_steps)
  show ?thesis
    unfolding cycle_body_unfold Let_def
    by (intro spares_steps(4)) (simp add: b spares_steps(5) [OF assms] sample_effect_def)
qed

end
