(* ===== verification/EngineLaws.thy ===== *)
theory EngineLaws
  imports AlertEngine
begin

text \<open>
  What the alert engine guarantees. One evaluation is a fold over the stages of the applicable
  profiles; \<open>engine_rule\<close> is the proof rule for such a fold, interpreted once per invariant.
\<close>

section \<open>What firing one stage does\<close>

lemma fire_cases:
  fixes dev :: device and s :: sensor and g :: stage and dur :: "ts option"
  defines "cx \<equiv> build_ctx dev s (sg_trigger_state g) dur"
  obtains (suppressed) k reason m where
      "fire v dev s p g session rc dur ff e = note_suppressed v k p g cx reason (e\<lparr> e_rca := m \<rparr>)"
    | (delivered) m where
      "fire v dev s p g session rc dur ff e = deliver v rc ff p g cx session (e\<lparr> e_rca := m \<rparr>)"
      "\<not> fst (check_maintenance (v_now v) (v_clock v) (v_windows v) cx)"
proof -
  obtain supp nm where cm: "check_maintenance (v_now v) (v_clock v) (v_windows v) cx = (supp, nm)"
    by fastforce
  have id: "e = e\<lparr> e_rca := e_rca e \<rparr>" by simp
  show thesis
  proof (cases supp)
    case True
    show thesis
      by (rule suppressed [of _ _ "e_rca e"], subst id [symmetric])
        (simp add: fire_def Let_def cm True flip: cx_def)
  next
    case False
    show thesis
    proof (cases rc)
      case True
      show thesis
        by (rule delivered [of "e_rca e"]; (subst id [symmetric])?)
          (use False True in \<open>simp_all add: fire_def Let_def cm rca_gate_def flip: cx_def\<close>)
    next
      case rc: False
      obtain m r where mr: "suppressed_root_for (v_rca_enabled v) (v_now v) (v_rca v) (cx_did cx) (e_rca e) = (m, r)"
        by fastforce
      show thesis
      proof (cases r)
        case None
        show thesis
          by (rule delivered [of m])
            (use False rc None in \<open>simp_all add: fire_def Let_def cm rca_gate_def mr flip: cx_def\<close>)
      next
        case (Some root)
        show thesis
          by (rule suppressed [of _ _ m])
            (use False rc Some in \<open>simp add: fire_def Let_def cm rca_gate_def mr flip: cx_def\<close>)
      qed
    qed
  qed
qed

lemma build_ctx_ids [simp]:
  "cx_did (build_ctx dev s tr dur) = d_device_id dev" "cx_sid (build_ctx dev s tr dur) = s_sensor_id s"
  "cx_grp (build_ctx dev s tr dur) = d_group dev" "cx_site (build_ctx dev s tr dur) = d_site dev"
  by (simp_all add: build_ctx_def)

lemma note_suppressed_frame [simp]:
  "e_sent (note_suppressed v k p g cx reason e) = e_sent e"
  "e_stages (note_suppressed v k p g cx reason e) = e_stages e"
  "e_templates (note_suppressed v k p g cx reason e) = e_templates e"
  "e_cascade (note_suppressed v k p g cx reason e) = e_cascade e"
  "e_rca (note_suppressed v k p g cx reason e) = e_rca e"
  by (simp_all add: note_suppressed_def)

lemma note_suppressed_events:
  "e_events (note_suppressed v k p g cx reason e) = e_events e \<or>
   e_events (note_suppressed v k p g cx reason e) = db_log_event (v_now v)
     (v_flap_ack v (cx_did cx) (cx_sid cx)) (pf_id p) (sg_id g) (pf_name p) cx Suppressed reason (e_events e)"
  by (simp add: note_suppressed_def)

definition action_msgs :: "stage \<Rightarrow> actx \<Rightarrow> template_db \<Rightarrow> dispatched list" where
  "action_msgs g cx db = List.map_filter (\<lambda>a.
       map_option (\<lambda>t. \<lparr> dp_stage = sg_id g, dp_template = a, dp_atype = tp_atype t, dp_ctx = cx \<rparr>)
         (db_get_action_template a db)) (sg_action_ids g)"

lemma deliver_fields:
  defines "gated rc ff p g cx e \<equiv> ack_gate rc p (cx_did cx) (cx_sid cx) e
      \<or> dup_gate rc ff g (cx_did cx) (cx_sid cx) e"
  shows "e_sent (deliver v rc ff p g cx session e)
       = e_sent e @ (if gated rc ff p g cx e then [] else action_msgs g cx (e_templates e))"
    "e_templates (deliver v rc ff p g cx session e) = e_templates e"
    "e_cascade (deliver v rc ff p g cx session e) = e_cascade e"
    "e_rca (deliver v rc ff p g cx session e) = e_rca e"
    "e_stages (deliver v rc ff p g cx session e) = db_record_stage_fire (v_backend v) (v_now v)
       (sig (sg_id g) (cx_did cx) (cx_sid cx)) session (e_stages e)"
    "e_events (deliver v rc ff p g cx session e) =
       (if rc then db_resolve_events_by_sensor (v_now v) (cx_did cx) (cx_sid cx) (e_events e)
        else db_log_event (v_now v) (v_flap_ack v (cx_did cx) (cx_sid cx)) (pf_id p) (sg_id g)
               (pf_name p) cx Active [] (e_events e))"
  by (auto simp: deliver_def settle_def send_actions_def action_msgs_def gated_def Let_def)

text \<open>Inside a maintenance window nothing is dispatched and nothing is marked as fired.\<close>

lemma fire_in_window:
  assumes "fst (check_maintenance (v_now v) (v_clock v) (v_windows v)
      (build_ctx dev s (sg_trigger_state g) dur))"
  shows "e_sent (fire v dev s p g session rc dur ff e) = e_sent e
    \<and> e_stages (fire v dev s p g session rc dur ff e) = e_stages e"
  by (rule fire_cases [of v dev s p g session rc dur ff e]) (use assms in simp_all)

section \<open>The fold over profiles and stages\<close>

definition flat_stages :: "profile list \<Rightarrow> (profile \<times> stage) list" where
  "flat_stages ps = concat (map (\<lambda>p. map (Pair p) (pf_stages p)) (filter live_profile ps))"

lemma fold_map_comp: "fold f (map g xs) = fold (\<lambda>x. f (g x)) xs"
  by (induction xs) simp_all

lemma evaluate_profiles_flat:
  "evaluate_profiles v dev s cur started ps a =
     fold (\<lambda>(p, g). one_stage v dev s p (pf_stages p) cur started g) (flat_stages ps) a"
proof (induction ps arbitrary: a)
  case Nil
  then show ?case by (simp add: evaluate_profiles_def flat_stages_def)
next
  case (Cons p ps)
  then show ?case
    by (simp add: evaluate_profiles_def flat_stages_def evaluate_profile_stages_def fold_map_comp
        fold_append)
qed

lemma flat_stages_mem:
  "(p, g) \<in> set (flat_stages ps) \<longleftrightarrow> p \<in> set ps \<and> live_profile p \<and> g \<in> set (pf_stages p)"
  by (auto simp: flat_stages_def)

definition allowed :: "alert_env \<Rightarrow> sensor \<Rightarrow> bool \<Rightarrow> stage \<Rightarrow> bool" where
  "allowed v s rc g \<longleftrightarrow> sg_action_ids g \<noteq> [] \<and>
     (if rc then trig_state (sg_trigger_state g) = None \<and> fst (classify s) = COk
      else trig_state (sg_trigger_state g) = Some (fst (classify s))
         \<and> of_int (sg_delay_s g) \<le> v_now v - snd (classify s))"

lemma one_stage_cases:
  assumes "classify s = (cur, started)"
  obtains (same) "k_eng (one_stage v dev s p stages cur started g a) = k_eng a"
  | (state) ff where "allowed v s False g" "k_has_fired (one_stage v dev s p stages cur started g a)"
      "should_fire g (v_now v) (session_key started) (db_get_stage_state (e_stages (k_eng a))
         (sig (sg_id g) (d_device_id dev) (s_sensor_id s)))"
      "k_eng (one_stage v dev s p stages cur started g a) =
         fire v dev s p g (session_key started) False None ff (k_eng a)"
  | (recov) dur where "allowed v s True g"
      "k_fired_recovery (one_stage v dev s p stages cur started g a)"
      "had_prior_fire stages (trig_target (sg_trigger_state g)) (d_device_id dev) (s_sensor_id s)
         (e_stages (k_eng a))"
      "k_eng (one_stage v dev s p stages cur started g a) = fire v dev s p g [] True dur False (k_eng a)"
proof (cases "sg_action_ids g = []")
  case True
  then show thesis using same by (simp add: one_stage_def)
next
  case acts: False
  show thesis
  proof (cases "trig_state (sg_trigger_state g)")
    case None
    show thesis
    proof (cases "k_eng (one_stage v dev s p stages cur started g a) = k_eng a")
      case True
      then show thesis by (rule same)
    next
      case False
      show thesis
        by (rule recov) (use False acts None assms in \<open>auto simp: one_stage_def recovery_stage_def
            allowed_def Let_def split: if_splits\<close>)
    qed
  next
    case (Some c)
    show thesis
    proof (cases "k_eng (one_stage v dev s p stages cur started g a) = k_eng a")
      case True
      then show thesis by (rule same)
    next
      case False
      show thesis
        by (rule state) (use False acts Some assms in \<open>auto simp: one_stage_def state_stage_def
            allowed_def Let_def split: if_splits\<close>)
    qed
  qed
qed

text \<open>The proof rule: what every firing keeps, the evaluation keeps.\<close>

locale engine_rule =
  fixes v :: alert_env and dev :: device and s :: sensor and ps :: "profile list"
    and P :: "engine \<Rightarrow> bool"
  assumes fire_ok: "p \<in> set ps \<Longrightarrow> live_profile p \<Longrightarrow> g \<in> set (pf_stages p) \<Longrightarrow> allowed v s rc g
      \<Longrightarrow> P e \<Longrightarrow> P (fire v dev s p g session rc dur ff e)"
begin

lemma stage_ok:
  assumes "(p, g) \<in> set (flat_stages ps)" "classify s = (cur, started)" "P (k_eng a)"
  shows "P (k_eng (one_stage v dev s p stages cur started g a))"
  by (rule one_stage_cases [OF assms(2), of v dev p stages g a])
    (use assms in \<open>auto simp: flat_stages_mem intro: fire_ok\<close>)

lemma fold_ok:
  assumes "set xs \<subseteq> set (flat_stages ps)" "classify s = (cur, started)" "P (k_eng a)"
  shows "P (k_eng (fold (\<lambda>(p, g). one_stage v dev s p (pf_stages p) cur started g) xs a))"
  using assms(1,3)
proof (induction xs arbitrary: a)
  case (Cons x xs)
  obtain p g where x: "x = (p, g)" by fastforce
  have "P (k_eng (one_stage v dev s p (pf_stages p) cur started g a))"
    using Cons.prems x by (intro stage_ok [OF _ assms(2)]) auto
  then show ?case using Cons by (simp add: x)
qed simp

lemma profiles_ok:
  assumes "classify s = (cur, started)" "P (k_eng a)"
  shows "P (k_eng (evaluate_profiles v dev s cur started ps a))"
  unfolding evaluate_profiles_flat by (rule fold_ok [OF _ assms]) simp

end

section \<open>One open event per sensor\<close>

lemma evt_ok_fire:
  assumes "evt_ok (e_events e)"
  shows "evt_ok (e_events (fire v dev s p g session rc dur ff e))"
proof (rule fire_cases [of v dev s p g session rc dur ff e])
  fix k reason m
  assume "fire v dev s p g session rc dur ff e = note_suppressed v k p g
    (build_ctx dev s (sg_trigger_state g) dur) reason (e\<lparr> e_rca := m \<rparr>)"
  then show ?thesis
    using note_suppressed_events [of v k p g "build_ctx dev s (sg_trigger_state g) dur" reason "e\<lparr> e_rca := m \<rparr>"]
      assms by (auto simp: evt_ok_log_event)
next
  fix m
  assume "fire v dev s p g session rc dur ff e = deliver v rc ff p g
    (build_ctx dev s (sg_trigger_state g) dur) session (e\<lparr> e_rca := m \<rparr>)"
  then show ?thesis using assms by (simp add: deliver_fields evt_ok_log_event evt_ok_resolves)
qed

interpretation evt: engine_rule v dev s ps "\<lambda>e. evt_ok (e_events e)"
  for v dev s ps
  by unfold_locales (rule evt_ok_fire)

section \<open>Other sensors are left alone\<close>

definition rows_of :: "did \<Rightarrow> sid \<Rightarrow> evt_table \<Rightarrow> aevent list" where
  "rows_of d i t = filter (\<lambda>r. ae_did r = d \<and> ae_sid r = i) (et_rows t)"

definition elsewhere :: "device \<Rightarrow> sensor \<Rightarrow> did \<Rightarrow> sid \<Rightarrow> bool" where
  "elsewhere dev s d i \<longleftrightarrow> (d, i) \<noteq> (d_device_id dev, s_sensor_id s)
     \<and> plain_id d \<and> plain_id i \<and> plain_id (d_device_id dev) \<and> plain_id (s_sensor_id s)"

lemma filter_map_id: "\<forall>x \<in> set xs. P (f x) = P x \<and> (P x \<longrightarrow> f x = x) \<Longrightarrow> filter P (map f xs) = filter P xs"
  by (induction xs) auto

lemma rows_of_upd_where:
  assumes "\<And>r. r \<in> set (et_rows t) \<Longrightarrow> P r \<Longrightarrow> (ae_did r, ae_sid r) \<noteq> (d, i)"
    and "\<And>r. ae_did (f r) = ae_did r" "\<And>r. ae_sid (f r) = ae_sid r"
  shows "rows_of d i (upd_where P f t) = rows_of d i t"
  unfolding rows_of_def upd_where_def
  by (simp, rule filter_map_id) (use assms in auto)

lemma rows_of_resolve:
  "(d', i') \<noteq> (d, i) \<Longrightarrow> rows_of d' i' (db_resolve_events_by_sensor now d i t) = rows_of d' i' t"
  unfolding db_resolve_events_by_sensor_def by (rule rows_of_upd_where) (auto simp: open_for_def)

lemma distinct_ids_eq:
  "distinct (map ae_id rs) \<Longrightarrow> a \<in> set rs \<Longrightarrow> b \<in> set rs \<Longrightarrow> ae_id a = ae_id b \<Longrightarrow> a = b"
  by (simp add: distinct_map inj_on_def)

lemma rows_of_log_event:
  assumes "evt_ok t" "(d, i) \<noteq> (cx_did cx, cx_sid cx)"
  shows "rows_of d i (db_log_event now ack pid gid nm cx st reason t) = rows_of d i t"
proof (cases "if st = Active then newest_open (cx_did cx) (cx_sid cx) t else None")
  case None
  then show ?thesis using assms(2) by (auto simp: db_log_event_def rows_of_def evt_insert_def)
next
  case (Some ex)
  then have ex: "open_for (cx_did cx) (cx_sid cx) ex" "ex \<in> set (et_rows t)"
    using newest_open_Some by (auto split: if_splits)
  have "rows_of d i (upd_where (\<lambda>e. ae_id e = ae_id ex) (refire pid gid nm cx) t) = rows_of d i t"
  proof (rule rows_of_upd_where)
    fix r assume "r \<in> set (et_rows t)" "ae_id r = ae_id ex"
    then have "r = ex" using assms(1) ex(2) by (auto simp: evt_ok_def intro: distinct_ids_eq)
    then show "(ae_did r, ae_sid r) \<noteq> (d, i)" using ex(1) assms(2) by (auto simp: open_for_def)
  qed simp_all
  then show ?thesis using Some by (simp add: db_log_event_def)
qed

definition untouched :: "did \<Rightarrow> sid \<Rightarrow> engine \<Rightarrow> engine \<Rightarrow> bool" where
  "untouched d i e0 e \<longleftrightarrow> rows_of d i (e_events e) = rows_of d i (e_events e0)
     \<and> (\<forall>n. db_get_stage_state (e_stages e) (sig n d i) = db_get_stage_state (e_stages e0) (sig n d i))"

lemma record_other_sig:
  assumes "elsewhere dev s d i"
  shows "db_get_stage_state (db_record_stage_fire b now (sig n (d_device_id dev) (s_sensor_id s)) session t)
      (sig m d i) = db_get_stage_state t (sig m d i)"
proof -
  have "sig m d i \<noteq> sig n (d_device_id dev) (s_sensor_id s)"
    using assms sig_inj [of m d i n "d_device_id dev" "s_sensor_id s"] by (auto simp: elsewhere_def)
  then show ?thesis by (rule stage_store.get_fire_other [OF stage_store_backend])
qed

lemma untouched_fire:
  assumes el: "elsewhere dev s d i" and ok: "evt_ok (e_events e)" and un: "untouched d i e0 e"
  shows "untouched d i e0 (fire v dev s p g session rc dur ff e)"
proof (rule fire_cases [of v dev s p g session rc dur ff e])
  let ?cx = "build_ctx dev s (sg_trigger_state g) dur"
  have ne: "(d, i) \<noteq> (cx_did ?cx, cx_sid ?cx)" using el by (simp add: elsewhere_def)
  {
    fix k reason m
    assume "fire v dev s p g session rc dur ff e = note_suppressed v k p g ?cx reason (e\<lparr> e_rca := m \<rparr>)"
    then show ?thesis
      using note_suppressed_events [of v k p g ?cx reason "e\<lparr> e_rca := m \<rparr>"] un
        rows_of_log_event [OF ok ne] by (auto simp: untouched_def)
  next
    fix m
    assume "fire v dev s p g session rc dur ff e = deliver v rc ff p g ?cx session (e\<lparr> e_rca := m \<rparr>)"
    then show ?thesis
      using un rows_of_log_event [OF ok ne] rows_of_resolve [OF ne] record_other_sig [OF el]
      by (simp add: untouched_def deliver_fields)
  }
qed

interpretation others: engine_rule v dev s ps
  "\<lambda>e. evt_ok (e_events e) \<and> (elsewhere dev s d i \<longrightarrow> untouched d i e0 e)"
  for v dev s ps d i e0
  by unfold_locales (simp add: evt_ok_fire untouched_fire)

section \<open>Only what a matching stage asks for is dispatched\<close>

definition legit :: "alert_env \<Rightarrow> device \<Rightarrow> sensor \<Rightarrow> profile list \<Rightarrow> dispatched \<Rightarrow> bool" where
  "legit v dev s ps x \<longleftrightarrow>
     (\<exists>p \<in> set ps. live_profile p \<and> (\<exists>g \<in> set (pf_stages p). sg_id g = dp_stage x
        \<and> dp_template x \<in> set (sg_action_ids g)
        \<and> (trig_state (sg_trigger_state g) = Some (fst (classify s))
           \<or> trig_state (sg_trigger_state g) = None \<and> fst (classify s) = COk)))
     \<and> cx_did (dp_ctx x) = d_device_id dev \<and> cx_sid (dp_ctx x) = s_sensor_id s
     \<and> \<not> fst (check_maintenance (v_now v) (v_clock v) (v_windows v) (dp_ctx x))"

definition sent_ok :: "engine \<Rightarrow> (dispatched \<Rightarrow> bool) \<Rightarrow> engine \<Rightarrow> bool" where
  "sent_ok e0 Q e \<longleftrightarrow> (\<exists>xs. e_sent e = e_sent e0 @ xs \<and> (\<forall>x \<in> set xs. Q x))"

lemma sent_okI: "sent_ok e0 Q e \<Longrightarrow> e_sent e' = e_sent e @ ys \<Longrightarrow> (\<forall>y \<in> set ys. Q y) \<Longrightarrow> sent_ok e0 Q e'"
  unfolding sent_ok_def by (metis UnE append.assoc set_append)

lemma set_map_filter: "y \<in> set (List.map_filter f xs) \<longleftrightarrow> (\<exists>x \<in> set xs. f x = Some y)"
  by (induction xs) (auto simp: map_filter_simps split: option.splits)

lemma action_msgs_mem:
  "y \<in> set (action_msgs g cx db) \<Longrightarrow> dp_stage y = sg_id g \<and> dp_template y \<in> set (sg_action_ids g) \<and> dp_ctx y = cx"
  by (auto simp: action_msgs_def set_map_filter)

lemma sent_ok_fire:
  assumes "p \<in> set ps" "live_profile p" "g \<in> set (pf_stages p)" "allowed v s rc g"
    and "sent_ok e0 (legit v dev s ps) e"
  shows "sent_ok e0 (legit v dev s ps) (fire v dev s p g session rc dur ff e)"
proof (rule fire_cases [of v dev s p g session rc dur ff e])
  let ?cx = "build_ctx dev s (sg_trigger_state g) dur"
  {
    fix k reason m
    assume "fire v dev s p g session rc dur ff e = note_suppressed v k p g ?cx reason (e\<lparr> e_rca := m \<rparr>)"
    then show ?thesis by (intro sent_okI [OF assms(5), of _ "[]"]) simp_all
  next
    fix m
    assume f: "fire v dev s p g session rc dur ff e = deliver v rc ff p g ?cx session (e\<lparr> e_rca := m \<rparr>)"
      and w: "\<not> fst (check_maintenance (v_now v) (v_clock v) (v_windows v) ?cx)"
    have "legit v dev s ps y" if "y \<in> set (action_msgs g ?cx (e_templates e))" for y
      using action_msgs_mem [OF that] assms(1-4) w
      by (auto simp: legit_def allowed_def split: if_splits)
    then show ?thesis
      by (intro sent_okI [OF assms(5), of _ "drop (length (e_sent e))
            (e_sent (fire v dev s p g session rc dur ff e))"]) (auto simp: f deliver_fields)
  }
qed

interpretation sound: engine_rule v dev s ps "sent_ok e0 (legit v dev s ps)"
  for v dev s ps e0
  by unfold_locales (rule sent_ok_fire)

section \<open>Whole evaluations\<close>

definition profiles_for :: "device \<Rightarrow> sensor \<Rightarrow> engine \<Rightarrow> profile list" where
  "profiles_for dev s e = snd (resolve_profiles dev (s_sensor_id s) (e_cascade e))"

definition run_stages :: "alert_env \<Rightarrow> device \<Rightarrow> sensor \<Rightarrow> engine \<Rightarrow> stage_acc" where
  "run_stages v dev s e = evaluate_profiles v dev s (fst (classify s)) (snd (classify s)) (profiles_for dev s e)
     \<lparr> k_fired_recovery = False, k_has_fired = s_alert_has_fired s,
       k_eng = e\<lparr> e_cascade := fst (resolve_profiles dev (s_sensor_id s) (e_cascade e)) \<rparr> \<rparr>"

lemma evaluate_unfold:
  "evaluate_and_fire v dev (s, e) =
     (if alerts_muted v dev s then (s, e)
      else if filter live_profile (profiles_for dev s e) = []
      then (s, e\<lparr> e_cascade := fst (resolve_profiles dev (s_sensor_id s) (e_cascade e)) \<rparr>)
      else let a = run_stages v dev s e; s1 = s\<lparr> s_alert_has_fired := k_has_fired a \<rparr>
           in if fst (classify s) \<noteq> COk then (s1, k_eng a)
              else post_recovery v (hd (profiles_for dev s e)) (k_fired_recovery a) (d_device_id dev)
                     (s_sensor_id s) (s1, k_eng a))"
  by (simp add: evaluate_and_fire_def run_stages_def profiles_for_def split_beta Let_def)

lemma post_recovery_eng:
  "snd (post_recovery v p fr d i (s, e)) = e \<or> snd (post_recovery v p fr d i (s, e)) = do_cleanup v d i e"
  by (simp add: post_recovery_def)

lemma evaluate_rule:
  assumes "engine_rule v dev s (profiles_for dev s e) P" "P e"
    and "\<And>c. P (e\<lparr> e_cascade := c \<rparr>)"
    and "\<And>e. P e \<Longrightarrow> P (do_cleanup v (d_device_id dev) (s_sensor_id s) e)"
  shows "P (snd (evaluate_and_fire v dev (s, e)))"
proof -
  have run: "P (k_eng (run_stages v dev s e))"
    unfolding run_stages_def
    by (rule engine_rule.profiles_ok [OF assms(1)]) (simp_all add: assms(3))
  have "P (snd (post_recovery v p fr (d_device_id dev) (s_sensor_id s) (s1, k_eng (run_stages v dev s e))))"
    for p fr s1
    using post_recovery_eng [of v p fr "d_device_id dev" "s_sensor_id s" s1 "k_eng (run_stages v dev s e)"]
      run assms(4) by auto
  with run assms(2,3) show ?thesis by (simp add: evaluate_unfold Let_def)
qed

lemma evaluate_evt_ok:
  assumes "evt_ok (e_events e)"
  shows "evt_ok (e_events (snd (evaluate_and_fire v dev (s, e))))"
  by (rule evaluate_rule [where P = "\<lambda>e. evt_ok (e_events e)", OF evt.engine_rule_axioms])
    (simp_all add: assms do_cleanup_def evt_ok_resolves)

lemma untouched_cleanup:
  assumes "elsewhere dev s d i" "untouched d i e0 e"
  shows "untouched d i e0 (do_cleanup v (d_device_id dev) (s_sensor_id s) e)"
proof -
  have ne: "(d, i) \<noteq> (d_device_id dev, s_sensor_id s)"
    and pl: "plain_id (d_device_id dev)" "plain_id (s_sensor_id s)" "plain_id d" "plain_id i"
    using assms(1) by (simp_all add: elsewhere_def)
  show ?thesis
    using assms(2) ne rows_of_resolve [OF ne] get_clear [OF pl]
    by (auto simp: untouched_def do_cleanup_def)
qed

lemma evaluate_untouched:
  assumes "evt_ok (e_events e)" "elsewhere dev s d i"
  shows "untouched d i e (snd (evaluate_and_fire v dev (s, e)))"
proof -
  let ?P = "\<lambda>x. evt_ok (e_events x) \<and> (elsewhere dev s d i \<longrightarrow> untouched d i e x)"
  have "?P (snd (evaluate_and_fire v dev (s, e)))"
  proof (rule evaluate_rule [where P = ?P, OF others.engine_rule_axioms])
    fix x assume "?P x"
    then show "?P (do_cleanup v (d_device_id dev) (s_sensor_id s) x)"
      using untouched_cleanup by (simp add: do_cleanup_def evt_ok_resolves)
  qed (use assms in \<open>simp_all add: untouched_def\<close>)
  with assms(2) show ?thesis by simp
qed

lemma evaluate_sound:
  "sent_ok e (legit v dev s (profiles_for dev s e)) (snd (evaluate_and_fire v dev (s, e)))"
  by (rule evaluate_rule [OF sound.engine_rule_axioms]) (auto simp: sent_ok_def do_cleanup_def)

text \<open>After an evaluation of a healthy sensor no event stays open for it.\<close>

lemma one_stage_has_fired:
  "k_has_fired a \<Longrightarrow> k_has_fired (one_stage v dev s p stages cur started g a)"
  by (simp add: one_stage_def state_stage_def recovery_stage_def Let_def)

lemma fold_has_fired:
  "k_has_fired a \<Longrightarrow> k_has_fired (fold (\<lambda>(p, g). one_stage v dev s p (pf_stages p) cur started g) xs a)"
  by (induction xs arbitrary: a) (auto simp: one_stage_has_fired)

lemma evaluate_closes:
  assumes "\<not> alerts_muted v dev s" "filter live_profile (profiles_for dev s e) \<noteq> []"
    "fst (classify s) = COk" "s_alert_has_fired s \<or> \<not> s_alert_cleanup_checked s"
  shows "\<not> db_has_active_event (d_device_id dev) (s_sensor_id s)
      (e_events (snd (evaluate_and_fire v dev (s, e))))"
proof -
  let ?a = "run_stages v dev s e" and ?d = "d_device_id dev" and ?i = "s_sensor_id s"
  have fired: "s_alert_has_fired s \<Longrightarrow> k_has_fired ?a"
    by (simp add: run_stages_def evaluate_profiles_flat fold_has_fired)
  have "\<not> db_has_active_event ?d ?i (e_events (do_cleanup v ?d ?i x))" for x
    by (simp add: do_cleanup_def resolve_by_sensor_active)
  then show ?thesis
    using assms fired
    by (auto simp: evaluate_unfold Let_def post_recovery_def cleanup_needed_def)
qed

section \<open>At most once per session\<close>

lemma sig_stage_inj: "sig m d i = sig n d i \<longleftrightarrow> m = n"
  using str_of_int_inj by (auto simp: sig_def)

lemma fire_effects:
  obtains xs where "e_sent (fire v dev s p g session rc dur ff e) = e_sent e @ xs"
    "\<forall>x \<in> set xs. dp_stage x = sg_id g"
    "\<forall>n. n \<noteq> sg_id g \<longrightarrow> db_get_stage_state (e_stages (fire v dev s p g session rc dur ff e))
        (sig n (d_device_id dev) (s_sensor_id s))
      = db_get_stage_state (e_stages e) (sig n (d_device_id dev) (s_sensor_id s))"
proof (rule fire_cases [of v dev s p g session rc dur ff e])
  let ?cx = "build_ctx dev s (sg_trigger_state g) dur"
  {
    fix k reason m
    assume "fire v dev s p g session rc dur ff e = note_suppressed v k p g ?cx reason (e\<lparr> e_rca := m \<rparr>)"
    then show thesis by (intro that [of "[]"]) simp_all
  next
    fix m
    assume f: "fire v dev s p g session rc dur ff e = deliver v rc ff p g ?cx session (e\<lparr> e_rca := m \<rparr>)"
    show thesis
    proof (rule that [of "drop (length (e_sent e)) (e_sent (fire v dev s p g session rc dur ff e))"])
      show "\<forall>n. n \<noteq> sg_id g \<longrightarrow> db_get_stage_state (e_stages (fire v dev s p g session rc dur ff e))
          (sig n (d_device_id dev) (s_sensor_id s))
        = db_get_stage_state (e_stages e) (sig n (d_device_id dev) (s_sensor_id s))"
        by (simp add: f deliver_fields stage_store.get_fire_other [OF stage_store_backend] sig_stage_inj)
    qed (auto simp: f deliver_fields dest: action_msgs_mem)
  }
qed

definition stage_quiet :: "int \<Rightarrow> device \<Rightarrow> sensor \<Rightarrow> stage_state \<Rightarrow> engine \<Rightarrow> engine \<Rightarrow> bool" where
  "stage_quiet n dev s r e0 e \<longleftrightarrow>
     db_get_stage_state (e_stages e) (sig n (d_device_id dev) (s_sensor_id s)) = Some r
     \<and> sent_ok e0 (\<lambda>x. dp_stage x \<noteq> n) e"

lemma stage_quiet_fire:
  assumes "stage_quiet n dev s r e0 e" "sg_id g \<noteq> n"
  shows "stage_quiet n dev s r e0 (fire v dev s p g session rc dur ff e)"
  by (rule fire_effects [of v dev s p g session rc dur ff e])
    (use assms in \<open>auto simp: stage_quiet_def intro: sent_okI\<close>)

lemma stage_quiet_one:
  assumes "stage_quiet n dev s r e0 (k_eng a)" "classify s = (cur, started)" "cur \<noteq> COk"
    and "st_active_session r = session_key started"
    and "sg_id g = n \<Longrightarrow> sg_repeat_min g \<le> 0 \<or> v_now v - st_last_fire_ts r < of_int (sg_repeat_min g) * 60"
  shows "stage_quiet n dev s r e0 (k_eng (one_stage v dev s p stages cur started g a))"
proof (rule one_stage_cases [OF assms(2), of v dev p stages g a])
  assume sf: "should_fire g (v_now v) (session_key started) (db_get_stage_state (e_stages (k_eng a))
      (sig (sg_id g) (d_device_id dev) (s_sensor_id s)))"
  fix ff assume "k_eng (one_stage v dev s p stages cur started g a) =
      fire v dev s p g (session_key started) False None ff (k_eng a)"
  moreover have "sg_id g \<noteq> n"
  proof
    assume "sg_id g = n"
    then show False using sf assms(1,4,5) by (auto simp: stage_quiet_def should_fire_def)
  qed
  ultimately show ?thesis using stage_quiet_fire [OF assms(1)] by simp
next
  assume "allowed v s True g"
  then show ?thesis using assms(2,3) by (simp add: allowed_def)
qed (use assms(1) in simp_all)

lemma stage_quiet_fold:
  assumes "classify s = (cur, started)" "cur \<noteq> COk" "st_active_session r = session_key started"
    and "\<forall>(p, g) \<in> set xs. sg_id g = n \<longrightarrow> sg_repeat_min g \<le> 0
           \<or> v_now v - st_last_fire_ts r < of_int (sg_repeat_min g) * 60"
    and "stage_quiet n dev s r e0 (k_eng a)"
  shows "stage_quiet n dev s r e0 (k_eng (fold (\<lambda>(p, g). one_stage v dev s p (pf_stages p) cur started g) xs a))"
  using assms(4,5)
proof (induction xs arbitrary: a)
  case (Cons x xs)
  obtain p g where x: "x = (p, g)" by fastforce
  have "stage_quiet n dev s r e0 (k_eng (one_stage v dev s p (pf_stages p) cur started g a))"
    using Cons.prems by (intro stage_quiet_one assms) (auto simp: x)
  then show ?case using Cons by (simp add: x)
qed simp

lemma evaluate_quiet:
  assumes "fst (classify s) \<noteq> COk"
    and "db_get_stage_state (e_stages e) (sig n (d_device_id dev) (s_sensor_id s)) = Some r"
    and "st_active_session r = session_key (snd (classify s))"
    and "\<forall>p \<in> set (profiles_for dev s e). \<forall>g \<in> set (pf_stages p). sg_id g = n \<longrightarrow>
           sg_repeat_min g \<le> 0 \<or> v_now v - st_last_fire_ts r < of_int (sg_repeat_min g) * 60"
  shows "sent_ok e (\<lambda>x. dp_stage x \<noteq> n) (snd (evaluate_and_fire v dev (s, e)))"
proof -
  obtain cur started where c: "classify s = (cur, started)" by fastforce
  have flat: "\<forall>(p, g) \<in> set (flat_stages (profiles_for dev s e)). sg_id g = n \<longrightarrow>
      sg_repeat_min g \<le> 0 \<or> v_now v - st_last_fire_ts r < of_int (sg_repeat_min g) * 60"
  proof (rule ballI)
    fix x assume x: "x \<in> set (flat_stages (profiles_for dev s e))"
    obtain p g where pg: "x = (p, g)" by fastforce
    with x have "p \<in> set (profiles_for dev s e)" "g \<in> set (pf_stages p)"
      by (simp_all add: flat_stages_mem)
    then show "case x of (p, g) \<Rightarrow> sg_id g = n \<longrightarrow> sg_repeat_min g \<le> 0
        \<or> v_now v - st_last_fire_ts r < of_int (sg_repeat_min g) * 60"
      unfolding pg prod.case using assms(4) by blast
  qed
  have "stage_quiet n dev s r e (k_eng (run_stages v dev s e))"
    unfolding run_stages_def evaluate_profiles_flat c fst_conv snd_conv
    by (rule stage_quiet_fold [OF c _ _ flat]) (use assms(1-3) c in \<open>simp_all add: stage_quiet_def sent_ok_def\<close>)
  then show ?thesis
    using assms(1) by (auto simp: evaluate_unfold Let_def stage_quiet_def sent_ok_def)
qed

section \<open>No alert is lost\<close>

text \<open>Nothing stands between a firing stage and its actions: no window, no root cause, no ACK.\<close>

definition rca_silent :: "alert_env \<Rightarrow> did \<Rightarrow> engine \<Rightarrow> bool" where
  "rca_silent v d e \<longleftrightarrow> v_rca_enabled v \<longrightarrow>
     dget (me_suppress (e_rca e)) d = None \<and> dget (snd (compute_full (v_rca v))) d = None"

definition no_ack :: "did \<Rightarrow> sid \<Rightarrow> engine \<Rightarrow> bool" where
  "no_ack d i e \<longleftrightarrow> (\<forall>r \<in> set (rows_of d i (e_events e)). ae_state r \<noteq> Acknowledged)"

definition open_road :: "alert_env \<Rightarrow> device \<Rightarrow> sensor \<Rightarrow> bool" where
  "open_road v dev s \<longleftrightarrow> v_flap_ack v (d_device_id dev) (s_sensor_id s) = None
     \<and> \<not> fst (check_maintenance (v_now v) (v_clock v) (v_windows v) (build_ctx dev s TrigDown None))"

lemma check_windows_ctx:
  "cx_did a = cx_did b \<Longrightarrow> cx_grp a = cx_grp b \<Longrightarrow> cx_site a = cx_site b
   \<Longrightarrow> check_windows lc a ws = check_windows lc b ws"
  by (induction ws) (simp_all add: scope_matches_def)

lemma check_maintenance_ctx:
  "check_maintenance t lc db (build_ctx dev s tr dur) = check_maintenance t lc db (build_ctx dev s tr' dur')"
  unfolding check_maintenance_def by (rule check_windows_ctx) simp_all

lemma rca_gate_silent:
  assumes "rca_silent v d e"
  shows "\<exists>m. rca_gate v rc d e = (e\<lparr> e_rca := m \<rparr>, None) \<and> rca_silent v d (e\<lparr> e_rca := m \<rparr>)"
proof (cases "rc \<or> \<not> v_rca_enabled v")
  case True
  then show ?thesis using assms
    by (intro exI [of _ "e_rca e"]) (auto simp: rca_gate_def suppressed_root_for_def)
next
  case False
  let ?m = "rca_refresh (v_now v) (v_rca v) (e_rca e)"
  have "dget (me_suppress ?m) d = None"
    using assms False rca_refresh_fresh [of "v_now v" "v_rca v" "e_rca e"] by (auto simp: rca_silent_def)
  then show ?thesis using assms False
    by (intro exI [of _ ?m]) (simp add: rca_gate_def suppressed_root_for_def rca_silent_def Let_def)
qed

lemma fire_open_road:
  assumes "open_road v dev s" "rca_silent v (d_device_id dev) e"
  obtains m where "rca_silent v (d_device_id dev) (e\<lparr> e_rca := m \<rparr>)"
    "fire v dev s p g session rc dur ff e = deliver v rc ff p g
       (build_ctx dev s (sg_trigger_state g) dur) session (e\<lparr> e_rca := m \<rparr>)"
proof -
  let ?cx = "build_ctx dev s (sg_trigger_state g) dur"
  obtain nm where "check_maintenance (v_now v) (v_clock v) (v_windows v) ?cx = (False, nm)"
    using assms(1) check_maintenance_ctx [of "v_now v" "v_clock v" "v_windows v" dev s TrigDown None
        "sg_trigger_state g" dur]
    by (cases "check_maintenance (v_now v) (v_clock v) (v_windows v) ?cx") (auto simp: open_road_def)
  moreover obtain m where "rca_gate v rc (d_device_id dev) e = (e\<lparr> e_rca := m \<rparr>, None)"
      "rca_silent v (d_device_id dev) (e\<lparr> e_rca := m \<rparr>)"
    using rca_gate_silent [OF assms(2)] by blast
  ultimately show thesis by (intro that [of m]) (simp_all add: fire_def Let_def)
qed

lemma no_ack_upd:
  assumes "no_ack d i e" "\<And>r. ae_did (f r) = ae_did r" "\<And>r. ae_sid (f r) = ae_sid r"
    "\<And>r. ae_state (f r) = Acknowledged \<Longrightarrow> ae_state r = Acknowledged"
  shows "\<forall>r \<in> set (rows_of d i (upd_where P f (e_events e))). ae_state r \<noteq> Acknowledged"
  using assms by (fastforce simp: no_ack_def rows_of_def upd_where_def)

lemma no_ack_deliver:
  assumes "no_ack (cx_did cx) (cx_sid cx) e" "v_flap_ack v (cx_did cx) (cx_sid cx) = None"
  shows "no_ack (cx_did cx) (cx_sid cx) (deliver v rc ff p g cx session e)"
proof (cases rc)
  case True
  then show ?thesis
    using no_ack_upd [OF assms(1), of "\<lambda>e. e\<lparr> ae_state := Resolved, ae_resolved_at := v_now v \<rparr>"]
    by (simp add: no_ack_def deliver_fields db_resolve_events_by_sensor_def)
next
  case False
  show ?thesis
  proof (cases "newest_open (cx_did cx) (cx_sid cx) (e_events e)")
    case None
    then show ?thesis using False assms
      by (auto simp: no_ack_def deliver_fields db_log_event_def evt_insert_def rows_of_def)
  next
    case (Some ex)
    then show ?thesis using False
        no_ack_upd [OF assms(1), of "refire (pf_id p) (sg_id g) (pf_name p) cx"]
      by (simp add: no_ack_def deliver_fields db_log_event_def)
  qed
qed

definition ready :: "alert_env \<Rightarrow> device \<Rightarrow> sensor \<Rightarrow> int \<Rightarrow> template_db \<Rightarrow> engine \<Rightarrow> bool" where
  "ready v dev s n tpl e \<longleftrightarrow> rca_silent v (d_device_id dev) e \<and> no_ack (d_device_id dev) (s_sensor_id s) e
     \<and> e_templates e = tpl
     \<and> db_get_stage_state (e_stages e) (sig n (d_device_id dev) (s_sensor_id s)) = None"

lemma ready_fire:
  assumes "open_road v dev s" "ready v dev s n tpl e" "sg_id g \<noteq> n"
  shows "ready v dev s n tpl (fire v dev s p g session rc dur ff e)"
proof -
  let ?cx = "build_ctx dev s (sg_trigger_state g) dur"
  obtain m where m: "rca_silent v (d_device_id dev) (e\<lparr> e_rca := m \<rparr>)"
    "fire v dev s p g session rc dur ff e = deliver v rc ff p g ?cx session (e\<lparr> e_rca := m \<rparr>)"
    using fire_open_road [OF assms(1), of e p g session rc dur ff] assms(2) by (auto simp: ready_def)
  have "no_ack (d_device_id dev) (s_sensor_id s) (e\<lparr> e_rca := m \<rparr>)"
    using assms(2) by (simp add: ready_def no_ack_def)
  then have "no_ack (d_device_id dev) (s_sensor_id s) (deliver v rc ff p g ?cx session (e\<lparr> e_rca := m \<rparr>))"
    using no_ack_deliver [of ?cx _ v rc ff p g session] assms(1) by (simp add: open_road_def)
  then show ?thesis
    using assms(2,3) m by (simp add: ready_def deliver_fields rca_silent_def
        stage_store.get_fire_other [OF stage_store_backend] sig_stage_inj)
qed

lemma ready_one:
  assumes "open_road v dev s" "ready v dev s n tpl (k_eng a)" "sg_id g \<noteq> n" "classify s = (cur, started)"
  shows "ready v dev s n tpl (k_eng (one_stage v dev s p stages cur started g a))"
  by (rule one_stage_cases [OF assms(4), of v dev p stages g a])
    (use assms ready_fire in simp_all)

lemma ready_fold:
  assumes "open_road v dev s" "classify s = (cur, started)"
  shows "ready v dev s n tpl (k_eng a) \<Longrightarrow> n \<notin> set (map (sg_id \<circ> snd) xs) \<Longrightarrow>
    ready v dev s n tpl (k_eng (fold (\<lambda>(p, g). one_stage v dev s p (pf_stages p) cur started g) xs a))"
proof (induction xs arbitrary: a)
  case (Cons x xs)
  obtain p g where x: "x = (p, g)" by fastforce
  have "ready v dev s n tpl (k_eng (one_stage v dev s p (pf_stages p) cur started g a))"
    by (rule ready_one [OF assms(1) Cons.prems(1) _ assms(2)]) (use Cons.prems(2) x in auto)
  then show ?case using Cons by (simp add: x)
qed simp

lemma fold_sent_grows:
  assumes "classify s = (cur, started)"
  shows "set (e_sent (k_eng a)) \<subseteq>
    set (e_sent (k_eng (fold (\<lambda>(p, g). one_stage v dev s p (pf_stages p) cur started g) xs a)))"
proof (induction xs arbitrary: a)
  case (Cons x xs)
  obtain p g where x: "x = (p, g)" by fastforce
  have grows: "set (e_sent e) \<subseteq> set (e_sent (fire v dev s p g session rc dur ff e))" for session rc dur ff e
    by (rule fire_effects [of v dev s p g session rc dur ff e]) simp
  have "set (e_sent (k_eng a)) \<subseteq> set (e_sent (k_eng (one_stage v dev s p (pf_stages p) cur started g a)))"
    by (rule one_stage_cases [OF assms, of v dev p "pf_stages p" g a]) (use grows in simp_all)
  then show ?case using Cons [of "one_stage v dev s p (pf_stages p) cur started g a"] by (simp add: x)
qed simp

lemma one_stage_fires:
  assumes "open_road v dev s" "ready v dev s (sg_id g) tpl (k_eng a)" "classify s = (cur, started)"
    and "allowed v s False g"
  shows "set (action_msgs g (build_ctx dev s (sg_trigger_state g) None) tpl)
    \<subseteq> set (e_sent (k_eng (one_stage v dev s p stages cur started g a)))"
proof -
  let ?cx = "build_ctx dev s (sg_trigger_state g) None" and ?e = "k_eng a"
  have r: "rca_silent v (d_device_id dev) ?e" "no_ack (d_device_id dev) (s_sensor_id s) ?e"
    "e_templates ?e = tpl" "db_get_stage_state (e_stages ?e) (sig (sg_id g) (d_device_id dev) (s_sensor_id s)) = None"
    using assms(2) by (simp_all add: ready_def)
  have one: "k_eng (one_stage v dev s p stages cur started g a) =
      fire v dev s p g (session_key started) False None True ?e"
    using assms(3,4) r(4)
    by (simp add: one_stage_def state_stage_def allowed_def Let_def should_fire_def first_in_session_def)
  obtain m where m: "fire v dev s p g (session_key started) False None True ?e =
      deliver v False True p g ?cx (session_key started) (?e\<lparr> e_rca := m \<rparr>)"
    using fire_open_road [OF assms(1) r(1), of p g "session_key started" False None True] by blast
  have "\<not> ack_gate False p (d_device_id dev) (s_sensor_id s) (?e\<lparr> e_rca := m \<rparr>)"
    using r(2) by (auto simp: ack_gate_def db_has_acked_event_def list_ex_iff no_ack_def rows_of_def)
  moreover have "\<not> dup_gate False True g (d_device_id dev) (s_sensor_id s) (?e\<lparr> e_rca := m \<rparr>)"
    using r(4) by (simp add: dup_gate_def fired_before_def)
  ultimately show ?thesis by (simp add: one m deliver_fields r(3))
qed

lemma evaluate_dispatches:
  assumes "\<not> alerts_muted v dev s" "open_road v dev s" "rca_silent v (d_device_id dev) e"
    "no_ack (d_device_id dev) (s_sensor_id s) e" "fst (classify s) \<noteq> COk"
    and pg: "p \<in> set (profiles_for dev s e)" "live_profile p" "g \<in> set (pf_stages p)"
    and ids: "distinct (map (sg_id \<circ> snd) (flat_stages (profiles_for dev s e)))"
    and "allowed v s False g"
    "db_get_stage_state (e_stages e) (sig (sg_id g) (d_device_id dev) (s_sensor_id s)) = None"
  shows "set (action_msgs g (build_ctx dev s (sg_trigger_state g) None) (e_templates e))
    \<subseteq> set (e_sent (snd (evaluate_and_fire v dev (s, e))))"
proof -
  obtain cur started where c: "classify s = (cur, started)" by fastforce
  let ?f = "\<lambda>(p, g). one_stage v dev s p (pf_stages p) cur started g"
  define a0 where "a0 = \<lparr> k_fired_recovery = False, k_has_fired = s_alert_has_fired s,
       k_eng = e\<lparr> e_cascade := fst (resolve_profiles dev (s_sensor_id s) (e_cascade e)) \<rparr> \<rparr>"
  obtain xs ys where split: "flat_stages (profiles_for dev s e) = xs @ (p, g) # ys"
    using pg flat_stages_mem by (metis split_list)
  have n: "sg_id g \<notin> set (map (sg_id \<circ> snd) xs)" using ids by (auto simp: split)
  have "ready v dev s (sg_id g) (e_templates e) (k_eng a0)"
    using assms by (simp add: ready_def a0_def rca_silent_def no_ack_def)
  then have "ready v dev s (sg_id g) (e_templates e) (k_eng (fold ?f xs a0))"
    by (rule ready_fold [OF assms(2) c]) (rule n)
  from one_stage_fires [OF assms(2) this c assms(10), of p "pf_stages p"]
    fold_sent_grows [OF c, of "?f (p, g) (fold ?f xs a0)" v dev ys]
  have "set (action_msgs g (build_ctx dev s (sg_trigger_state g) None) (e_templates e))
    \<subseteq> set (e_sent (k_eng (run_stages v dev s e)))"
    by (simp add: run_stages_def evaluate_profiles_flat c split a0_def)
  moreover have "filter live_profile (profiles_for dev s e) \<noteq> []"
    using pg(1,2) by (auto simp: filter_empty_conv)
  ultimately show ?thesis using assms(1,5) by (simp add: evaluate_unfold Let_def)
qed

end
