(* ===== verification/MonitorLaws.thy ===== *)
theory MonitorLaws
  imports Monitor CycleLaws EngineLaws
begin

text \<open>
  The monitor as a transition system: every operation is a step, the reachable states are those of
  any interleaving of them, and the invariants hold in all of them. \<open>registry_ok\<close>: identifiers agree
  with their keys, the status cache of every device is coherent, every sensor is well formed.
  \<open>chain_ok\<close>: a running sensor that is probed centrally always has a pending probe.
\<close>

section \<open>Steps\<close>

datatype op =
    OpAddDevice string string string string
  | OpRemoveDevice did
  | OpAddSensor did string sensor_cfg
  | OpRemoveSensor did sid
  | OpStart did sid real
  | OpStop did sid
  | OpStartDevice did
  | OpStopDevice did bool
  | OpStartAll
  | OpStopAll bool
  | OpEditBegin did sid
  | OpEditApply did sid "edit list" bool
  | OpRunBegin did sid
  | OpRunEnd did sid probe_result ts
  | OpRemote did sid probe_result ts bool
  | OpTick "did \<times> sid \<Rightarrow> bool" ts "ts list"
  | OpBindSite string string
  | OpAssign "(did \<times> sid) list"
  | OpGraceBegin ts
  | OpGraceTimer ts
  | OpShutdown
  | OpAck nat ts string
  | OpResolve nat ts
  | OpAckSensor did sid ts string
  | OpResolveSensor did sid ts
  | OpResolveAll ts
  | OpCleanEvents ts int

definition on_events :: "(evt_table \<Rightarrow> evt_table) \<Rightarrow> monitor \<Rightarrow> monitor" where
  "on_events f m = m\<lparr> m_engine := (m_engine m)\<lparr> e_events := f (e_events (m_engine m)) \<rparr> \<rparr>"

fun exec :: "mon_env \<Rightarrow> op \<Rightarrow> monitor \<Rightarrow> monitor" where
  "exec x (OpAddDevice n h g s) m = fst (add_device n h g s m)"
| "exec x (OpRemoveDevice d) m = fst (remove_device d m)"
| "exec x (OpAddSensor d h c) m = fst (add_sensor d h c m)"
| "exec x (OpRemoveSensor d i) m = fst (remove_sensor d i m)"
| "exec x (OpStart d i t) m = start_sensor x d i t m"
| "exec x (OpStop d i) m = stop_sensor d i m"
| "exec x (OpStartDevice d) m = start_device x d m"
| "exec x (OpStopDevice d b) m = stop_device d b m"
| "exec x OpStartAll m = start_all x m"
| "exec x (OpStopAll b) m = stop_all b m"
| "exec x (OpEditBegin d i) m = update_begin d i m"
| "exec x (OpEditApply d i es w) m = update_apply x d i es w m"
| "exec x (OpRunBegin d i) m = run_begin d i m"
| "exec x (OpRunEnd d i r t) m = run_end x d i r t m"
| "exec x (OpRemote d i r t b) m = fst (process_result x d i r t Probe b m)"
| "exec x (OpTick a t ts) m = sched_tick a t ts m"
| "exec x (OpBindSite n p) m = m\<lparr> m_bind := bind_site n p (m_bind m) \<rparr>"
| "exec x (OpAssign ps) m = apply_probe_assignment x ps m"
| "exec x (OpGraceBegin t) m = begin_startup_grace x t m"
| "exec x (OpGraceTimer t) m = fst (maybe_flush_grace t m)"
| "exec x OpShutdown m = m\<lparr> m_shutting_down := True \<rparr>"
| "exec x (OpAck k now user) m = on_events (db_ack_event now k user) m"
| "exec x (OpResolve k now) m = on_events (db_resolve_event now k) m"
| "exec x (OpAckSensor d i now user) m = on_events (db_ack_events_by_sensor now d i user) m"
| "exec x (OpResolveSensor d i now) m = on_events (db_resolve_events_by_sensor now d i) m"
| "exec x (OpResolveAll now) m = on_events (\<lambda>t. fst (db_resolve_all_active now t)) m"
| "exec x (OpCleanEvents now days) m = on_events (db_clean_alert_events now days) m"

text \<open>
  An operation on a job that is not due is no step: only submitted jobs start. And an acknowledgement
  by number is a step when the row it names is open: the statement of \<open>db_ack_event\<close> does not look,
  and \<open>ack_reopens\<close> below shows what it does to a row that is resolved.
\<close>

fun startable :: "op \<Rightarrow> monitor \<Rightarrow> bool" where
  "startable (OpRunBegin d i) m \<longleftrightarrow> (d, i) \<in> set (m_ready m)"
| "startable (OpAck k now user) m \<longleftrightarrow> list_all (\<lambda>e. ae_id e = k \<longrightarrow> is_open e) (et_rows (e_events (m_engine m)))"
| "startable _ m = True"

inductive step :: "monitor \<Rightarrow> monitor \<Rightarrow> bool" where
  oper: "startable opr m \<Longrightarrow> step m (exec x opr m)"

inductive_cases stepE: "step m m'"

definition init_monitor :: "profile_db \<Rightarrow> template_db \<Rightarrow> site_bindings \<Rightarrow> monitor" where
  "init_monitor pdb tdb b =
     \<lparr> m_devices = [], m_did_ctr = 0, m_shutting_down = False, m_sched = init_sched, m_ready = [],
       m_inflight = [], m_grace_active = False, m_grace_min_end = 0, m_grace_hardcap = 0,
       m_parked = [], m_bind = b,
       m_engine = \<lparr> e_cascade = init_cascade pdb, e_templates = tdb, e_stages = [],
                    e_events = empty_events, e_supp = [],
                    e_rca = \<lparr> me_ts = 0, me_incidents = [], me_suppress = [] \<rparr>, e_sent = [] \<rparr>,
       m_bumps = [], m_out = [] \<rparr>"

inductive reachable :: "monitor \<Rightarrow> bool" where
  init: "reachable (init_monitor pdb tdb b)"
| step: "reachable m \<Longrightarrow> step m m' \<Longrightarrow> reachable m'"

section \<open>The registry\<close>

text \<open>
  \<open>add_sensor\<close> does not drop the cached status, so a device shown as unknown because it had no sensors
  stays unknown although its only sensors are stopped; every other cached status is the live one.
\<close>

definition any_running :: "device \<Rightarrow> bool" where
  "any_running dev \<longleftrightarrow> list_ex s_running (map snd (d_sensors dev))"

definition cache_weak :: "device \<Rightarrow> bool" where
  "cache_weak dev \<longleftrightarrow> (\<forall>st. d_cached_status dev = Some st \<longrightarrow>
     st = live_status dev \<or> st = Unknown \<and> \<not> any_running dev)"

definition sids_ok :: "device \<Rightarrow> bool" where
  "sids_ok dev \<longleftrightarrow> (\<forall>i \<in> set (map fst (d_sensors dev)). \<exists>k \<le> d_sid_ctr dev. i = CHR ''s'' # str_of_nat k)"

definition device_ok :: "did \<Rightarrow> device \<Rightarrow> bool" where
  "device_ok d dev \<longleftrightarrow> d_device_id dev = d \<and> distinct (map fst (d_sensors dev)) \<and> cache_weak dev \<and> sids_ok dev
     \<and> (\<forall>i s. dget (d_sensors dev) i = Some s \<longrightarrow> s_sensor_id s = i \<and> s_device_id s = d \<and> sensor_wf s)"

definition registry_ok :: "monitor \<Rightarrow> bool" where
  "registry_ok m \<longleftrightarrow> distinct (map fst (m_devices m))
     \<and> (\<forall>d dev. dget (m_devices m) d = Some dev \<longrightarrow> device_ok d dev)"

definition sensor_ok :: "did \<Rightarrow> sid \<Rightarrow> sensor \<Rightarrow> bool" where
  "sensor_ok d i s \<longleftrightarrow> s_sensor_id s = i \<and> s_device_id s = d \<and> sensor_wf s"

lemma find_sensor_Some:
  "find_sensor d i m = Some (dev, s) \<longleftrightarrow> dget (m_devices m) d = Some dev \<and> dget (d_sensors dev) i = Some s"
  by (auto simp: find_sensor_def split: option.splits)

lemma registry_put: "registry_ok m \<Longrightarrow> device_ok d dev \<Longrightarrow> registry_ok (put_device d dev m)"
  by (simp add: registry_ok_def put_device_def distinct_dput dict_simps)

lemma any_running_view: "any_running dev = list_ex fst (map status_view (map snd (d_sensors dev)))"
proof -
  have "list_ex s_running xs = list_ex fst (map status_view xs)" for xs :: "sensor list"
    by (induction xs) (auto simp: status_view_def)
  then show ?thesis by (simp add: any_running_def)
qed

lemma cache_weak_put_same_view:
  assumes "cache_weak dev" "dget (d_sensors dev) i = Some s0" "distinct (map fst (d_sensors dev))"
    "status_view s = status_view s0"
  shows "cache_weak (put_sensor i s dev)"
proof -
  have "any_running (put_sensor i s dev) = any_running dev"
    using map_snd_update_view [OF assms(2-4)] by (simp add: any_running_view put_sensor_def)
  then show ?thesis
    using assms(1) live_status_put_same_view [OF assms(2-4)]
    by (simp add: cache_weak_def) (simp add: put_sensor_def)
qed

lemma cache_weak_None [simp]: "cache_weak (invalidate_status dev)"
  by (simp add: cache_weak_def invalidate_status_def)

lemma sids_ok_put:
  assumes "sids_ok dev" "dget (d_sensors dev) i = Some s0"
  shows "sids_ok (put_sensor i s dev)"
proof -
  have "i \<in> fst ` set (d_sensors dev)" using imageI [OF map_of_SomeD [OF assms(2)], of fst] by simp
  then have "set (map fst (dput i s (d_sensors dev))) = set (map fst (d_sensors dev))"
    by (simp add: dom_update insert_absorb)
  then show ?thesis using assms(1) by (simp only: sids_ok_def put_sensor_def) simp
qed

lemma sids_ok_inval [simp]: "sids_ok (invalidate_status dev) = sids_ok dev"
  by (simp add: sids_ok_def invalidate_status_def)

lemma put_sensor_fields [simp]:
  "d_device_id (put_sensor i s dev) = d_device_id dev"
  "d_sensors (put_sensor i s dev) = dput i s (d_sensors dev)"
  "d_sid_ctr (put_sensor i s dev) = d_sid_ctr dev"
  "d_cached_status (put_sensor i s dev) = d_cached_status dev"
  by (simp_all add: put_sensor_def)

lemma inval_fields [simp]:
  "d_device_id (invalidate_status dev) = d_device_id dev"
  "d_sensors (invalidate_status dev) = d_sensors dev"
  "d_sid_ctr (invalidate_status dev) = d_sid_ctr dev"
  by (simp_all add: invalidate_status_def)

lemma device_ok_inval:
  assumes "device_ok d dev" "sensor_ok d i s" "dget (d_sensors dev) i = Some s0"
  shows "device_ok d (invalidate_status (put_sensor i s dev))"
  using assms sids_ok_put [of dev i s0 s]
  by (auto simp: device_ok_def sensor_ok_def distinct_dput dict_simps)

lemma device_ok_view:
  assumes "device_ok d dev" "sensor_ok d i s" "dget (d_sensors dev) i = Some s0"
    "status_view s = status_view s0"
  shows "device_ok d (put_sensor i s dev)"
proof -
  have "cache_weak (put_sensor i s dev)"
    by (rule cache_weak_put_same_view [OF _ assms(3) _ assms(4)]) (use assms(1) in \<open>simp_all add: device_ok_def\<close>)
  then show ?thesis
    using assms sids_ok_put [of dev i s0 s]
    by (auto simp: device_ok_def sensor_ok_def distinct_dput dict_simps)
qed

lemma find_sensor_ok:
  "registry_ok m \<Longrightarrow> find_sensor d i m = Some (dev, s) \<Longrightarrow> device_ok d dev \<and> sensor_ok d i s"
  by (auto simp: find_sensor_Some registry_ok_def device_ok_def sensor_ok_def)

lemma registry_store_inval:
  assumes "registry_ok m" "find_sensor d i m = Some (dev, s0)" "sensor_ok d i s"
  shows "registry_ok (store_sensor_inval d dev i s m)"
proof -
  have "device_ok d (invalidate_status (put_sensor i s dev))"
    by (rule device_ok_inval [OF _ assms(3)])
      (use find_sensor_ok [OF assms(1,2)] assms(2) in \<open>auto simp: find_sensor_Some\<close>)
  then show ?thesis unfolding store_sensor_inval_def by (rule registry_put [OF assms(1)])
qed

lemma registry_store:
  assumes "registry_ok m" "find_sensor d i m = Some (dev, s0)" "sensor_ok d i s"
    "status_view s = status_view s0"
  shows "registry_ok (store_sensor d dev i s m)"
proof -
  have "device_ok d (put_sensor i s dev)"
    by (rule device_ok_view [OF _ assms(3) _ assms(4)])
      (use find_sensor_ok [OF assms(1,2)] assms(2) in \<open>auto simp: find_sensor_Some\<close>)
  then show ?thesis unfolding store_sensor_def by (rule registry_put [OF assms(1)])
qed

lemma registry_frame [simp]:
  "registry_ok (m\<lparr> m_bind := b \<rparr>) = registry_ok m" "registry_ok (m\<lparr> m_sched := h \<rparr>) = registry_ok m"
  "registry_ok (m\<lparr> m_ready := q \<rparr>) = registry_ok m" "registry_ok (m\<lparr> m_inflight := q \<rparr>) = registry_ok m"
  "registry_ok (m\<lparr> m_bumps := bs \<rparr>) = registry_ok m" "registry_ok (m\<lparr> m_did_ctr := n \<rparr>) = registry_ok m"
  "registry_ok (m\<lparr> m_parked := pk \<rparr>) = registry_ok m" "registry_ok (m\<lparr> m_engine := e \<rparr>) = registry_ok m"
  "registry_ok (m\<lparr> m_grace_active := ga \<rparr>) = registry_ok m"
  "registry_ok (m\<lparr> m_grace_min_end := t \<rparr>) = registry_ok m"
  "registry_ok (m\<lparr> m_grace_hardcap := t \<rparr>) = registry_ok m"
  "registry_ok (m\<lparr> m_shutting_down := sd \<rparr>) = registry_ok m"
  "registry_ok (m_emit es m) = registry_ok m" "registry_ok (on_events f m) = registry_ok m"
  by (simp_all add: registry_ok_def m_emit_def on_events_def)

lemma find_sensor_frame [simp]:
  "find_sensor d i (m\<lparr> m_bind := b \<rparr>) = find_sensor d i m"
  "find_sensor d i (m\<lparr> m_sched := h \<rparr>) = find_sensor d i m"
  "find_sensor d i (m\<lparr> m_ready := q \<rparr>) = find_sensor d i m"
  "find_sensor d i (m\<lparr> m_inflight := q \<rparr>) = find_sensor d i m"
  "find_sensor d i (m\<lparr> m_bumps := bs \<rparr>) = find_sensor d i m"
  "find_sensor d i (m\<lparr> m_did_ctr := n \<rparr>) = find_sensor d i m"
  "find_sensor d i (m\<lparr> m_parked := pk \<rparr>) = find_sensor d i m"
  "find_sensor d i (m\<lparr> m_engine := e \<rparr>) = find_sensor d i m"
  "find_sensor d i (m\<lparr> m_grace_active := ga \<rparr>) = find_sensor d i m"
  "find_sensor d i (m\<lparr> m_grace_min_end := t \<rparr>) = find_sensor d i m"
  "find_sensor d i (m\<lparr> m_grace_hardcap := t \<rparr>) = find_sensor d i m"
  "find_sensor d i (m\<lparr> m_shutting_down := sd \<rparr>) = find_sensor d i m"
  "find_sensor d i (m_emit es m) = find_sensor d i m"
  by (simp_all add: find_sensor_def m_emit_def)

text \<open>Updates of a sensor that keep its identity and its bounded data.\<close>

lemma sensor_ok_upd [simp]:
  "sensor_ok d i (s\<lparr> s_running := b \<rparr>) = sensor_ok d i s"
  "sensor_ok d i (s\<lparr> s_stopped := b \<rparr>) = sensor_ok d i s"
  "sensor_ok d i (s\<lparr> s_sched_mode := md \<rparr>) = sensor_ok d i s"
  "sensor_ok d i (s\<lparr> s_last_processed_ts := t \<rparr>) = sensor_ok d i s"
  "sensor_ok d i (s\<lparr> s_cfg := c \<rparr>) = sensor_ok d i s"
  by (simp_all add: sensor_ok_def sensor_wf_def)

lemma status_view_upd [simp]:
  "status_view (s\<lparr> s_stopped := b \<rparr>) = status_view s"
  "status_view (s\<lparr> s_sched_mode := md \<rparr>) = status_view s"
  "status_view (s\<lparr> s_last_processed_ts := t \<rparr>) = status_view s"
  "status_view (s\<lparr> s_thr_history := h \<rparr>) = status_view s"
  by (simp_all add: status_view_def)

lemma registry_start:
  assumes "registry_ok m"
  shows "registry_ok (start_sensor x d i t m)"
proof (cases "find_sensor d i m")
  case None
  then show ?thesis using assms by (simp add: start_sensor_def)
next
  case (Some ds)
  obtain dev s where ds: "find_sensor d i m = Some (dev, s)" using Some by (cases ds) simp
  have ok: "sensor_ok d i s" using find_sensor_ok [OF assms ds] by simp
  have "registry_ok (store_sensor_inval d dev i (s\<lparr> s_running := True, s_stopped := False, s_sched_mode := md \<rparr>)
      (m\<lparr> m_bind := b \<rparr>))" for md b
    by (rule registry_store_inval [of _ d i dev s]) (use assms ds ok in simp_all)
  then show ?thesis using assms by (simp add: start_sensor_def ds split_beta Let_def)
qed

lemma registry_stop:
  assumes "registry_ok m"
  shows "registry_ok (stop_sensor d i m)"
proof (cases "find_sensor d i m")
  case None
  then show ?thesis using assms by (simp add: stop_sensor_def)
next
  case (Some ds)
  obtain dev s where ds: "find_sensor d i m = Some (dev, s)" using Some by (cases ds) simp
  have ok: "sensor_ok d i s" using find_sensor_ok [OF assms ds] by simp
  have "registry_ok (store_sensor_inval d dev i (s\<lparr> s_running := False \<rparr>) (m\<lparr> m_bind := b \<rparr>))" for b
    by (rule registry_store_inval [of _ d i dev s]) (use assms ds ok in simp_all)
  then show ?thesis using assms by (simp add: stop_sensor_def ds split_beta Let_def)
qed

lemma fold_keeps: "P a \<Longrightarrow> (\<And>x a. P a \<Longrightarrow> P (f x a)) \<Longrightarrow> P (fold f xs a)"
  by (induction xs arbitrary: a) auto

lemma dget_sound: "distinct (map fst m) \<Longrightarrow> (k, v) \<in> set m \<longleftrightarrow> dget m k = Some v"
  by auto

lemma registry_add_device:
  assumes "registry_ok m"
  shows "registry_ok (fst (add_device n h g st m))"
proof -
  have "device_ok d (new_device d n h g st)" for d
    by (simp add: device_ok_def new_device_def cache_weak_def sids_ok_def)
  then show ?thesis using assms by (simp add: add_device_def Let_def registry_put)
qed

lemma registry_remove_device:
  assumes "registry_ok m"
  shows "registry_ok (fst (remove_device d m))"
proof (cases "dget (m_devices m) d")
  case None
  then show ?thesis using assms by (simp add: remove_device_def)
next
  case (Some dev)
  have "dget (ddel d (m_devices m)) e = (if e = d then None else dget (m_devices m) e)" for e
    by (rule dict.get_del)
  then show ?thesis
    using assms by (simp add: remove_device_def Some registry_ok_def distinct_ddel)
qed

lemma str_of_nat_inj: "str_of_nat a = str_of_nat b \<Longrightarrow> a = b"
  using digits_val_str_of_nat by (metis of_nat_eq_iff)

lemma live_status_append_stopped:
  assumes "\<not> s_running s" "i \<notin> set (map fst (d_sensors dev))"
  shows "any_running (put_sensor i s dev) = any_running dev"
    "live_status (put_sensor i s dev) = live_status dev
     \<or> live_status dev = Unknown \<and> \<not> any_running dev"
proof -
  have put: "dput i s xs = xs @ [(i, s)]" if "i \<notin> set (map fst xs)" for xs :: "(sid, sensor) dict"
    using that by (induction xs) auto
  show "any_running (put_sensor i s dev) = any_running dev"
    using assms by (simp add: any_running_def put)
  show "live_status (put_sensor i s dev) = live_status dev
     \<or> live_status dev = Unknown \<and> \<not> any_running dev"
    using assms by (cases "d_sensors dev = []")
      (simp_all add: live_status_def compute_status_def any_running_def put Let_def)
qed

lemma registry_add_sensor:
  assumes "registry_ok m"
  shows "registry_ok (fst (add_sensor d h c m))"
proof (cases "dget (m_devices m) d")
  case None
  then show ?thesis using assms by (simp add: add_sensor_def)
next
  case (Some dev)
  define i where "i = CHR ''s'' # str_of_nat (d_sid_ctr dev + 1)"
  define dev1 where "dev1 = dev\<lparr> d_sid_ctr := d_sid_ctr dev + 1 \<rparr>"
  have n: "next_sid dev = (dev1, i)" by (simp add: next_sid_def dev1_def i_def Let_def)
  have dev: "device_ok d dev" using assms Some by (simp add: registry_ok_def)
  then have 1: "d_device_id dev1 = d" "distinct (map fst (d_sensors dev1))"
    "\<forall>i s. dget (d_sensors dev1) i = Some s \<longrightarrow> s_sensor_id s = i \<and> s_device_id s = d \<and> sensor_wf s"
    by (simp_all add: device_ok_def dev1_def)
  have cw: "cache_weak dev1"
    using dev by (simp add: device_ok_def cache_weak_def dev1_def live_status_def any_running_def)
  have fresh: "i \<notin> set (map fst (d_sensors dev1))"
  proof
    assume "i \<in> set (map fst (d_sensors dev1))"
    then obtain k where "k \<le> d_sid_ctr dev" "str_of_nat k = str_of_nat (d_sid_ctr dev + 1)"
      using dev by (auto simp: device_ok_def sids_ok_def dev1_def i_def)
    then show False using str_of_nat_inj by fastforce
  qed
  define s0 where "s0 = new_sensor d i (c\<lparr> c_host := (if h \<noteq> [] then h else d_host dev),
     c_alerts_muted := False, c_cert_warn_days := 0, c_cert_crit_days := 0 \<rparr>)"
  define s where "s = s0\<lparr> s_cfg := (s_cfg s0)\<lparr> c_host_override := (h \<noteq> []) \<rparr> \<rparr>"
  have s: "sensor_ok d i s" "\<not> s_running s"
  proof -
    have "sensor_wf s0" unfolding s0_def by (rule sensor_wf_new)
    then have "sensor_wf s" by (simp add: sensor_wf_def s_def)
    then show "sensor_ok d i s" by (simp add: sensor_ok_def s_def) (simp add: s0_def new_sensor_def)
    show "\<not> s_running s" by (simp add: s_def s0_def new_sensor_def)
  qed
  have "cache_weak (put_sensor i s dev1)"
    using cw live_status_append_stopped [OF s(2) fresh] unfolding cache_weak_def put_sensor_fields by metis
  moreover have "sids_ok (put_sensor i s dev1)"
    unfolding sids_ok_def
  proof (rule ballI)
    fix j assume "j \<in> set (map fst (d_sensors (put_sensor i s dev1)))"
    then have "j = i \<or> j \<in> set (map fst (d_sensors dev))" by (auto simp: dom_update dev1_def)
    then have "\<exists>k \<le> d_sid_ctr dev + 1. j = CHR ''s'' # str_of_nat k"
    proof
      assume "j \<in> set (map fst (d_sensors dev))"
      then obtain k where "k \<le> d_sid_ctr dev" "j = CHR ''s'' # str_of_nat k"
        using dev by (auto simp: device_ok_def sids_ok_def)
      then show ?thesis by (intro exI [of _ k]) simp
    qed (auto simp: i_def)
    then show "\<exists>k \<le> d_sid_ctr (put_sensor i s dev1). j = CHR ''s'' # str_of_nat k"
      by (simp add: dev1_def)
  qed
  ultimately have "device_ok d (put_sensor i s dev1)"
    using 1 s(1) by (simp add: device_ok_def sensor_ok_def distinct_dput dict_simps)
  then show ?thesis
    using registry_put [OF assms] by (simp add: add_sensor_def Some n Let_def s_def s0_def)
qed

lemma registry_remove_sensor:
  assumes "registry_ok m"
  shows "registry_ok (fst (remove_sensor d i m))"
proof (cases "find_sensor d i m")
  case None
  then show ?thesis using assms by (simp add: remove_sensor_def)
next
  case (Some ds)
  obtain dev s where ds: "find_sensor d i m = Some (dev, s)" using Some by (cases ds) simp
  have dev: "device_ok d dev" using find_sensor_ok [OF assms ds] by simp
  have get: "dget (ddel i (d_sensors dev)) j = (if j = i then None else dget (d_sensors dev) j)" for j
    by (rule dict.get_del)
  have "set (map fst (ddel i (d_sensors dev))) \<subseteq> set (map fst (d_sensors dev))"
    by (auto simp: delete_keys)
  moreover have "\<forall>j \<in> set (map fst (d_sensors dev)). \<exists>k \<le> d_sid_ctr dev. j = CHR ''s'' # str_of_nat k"
    using dev unfolding device_ok_def sids_ok_def by blast
  ultimately have "\<forall>j \<in> set (map fst (ddel i (d_sensors dev))). \<exists>k \<le> d_sid_ctr dev. j = CHR ''s'' # str_of_nat k"
    by blast
  then have "sids_ok (dev\<lparr> d_sensors := ddel i (d_sensors dev) \<rparr>)" by (simp only: sids_ok_def) simp
  then have "device_ok d (invalidate_status (dev\<lparr> d_sensors := ddel i (d_sensors dev) \<rparr>))"
    using dev get by (auto simp: device_ok_def distinct_ddel split: if_splits)
  then have "registry_ok (put_device d (invalidate_status (dev\<lparr> d_sensors := ddel i (d_sensors dev) \<rparr>))
      (m\<lparr> m_sched := h \<rparr>))" for h
    by (intro registry_put) (simp_all add: assms)
  then show ?thesis by (simp add: remove_sensor_def ds)
qed

lemma device_ok_status:
  assumes "device_ok d dev"
  shows "device_ok d (fst (device_status dev))"
  using assms
  by (auto simp: device_ok_def device_status_def cache_weak_def live_status_def any_running_def
      sids_ok_def Let_def split: option.splits)

lemma registry_announce: "registry_ok m \<Longrightarrow> registry_ok (announce_device d m)"
proof (cases "dget (m_devices m) d")
  case (Some dev)
  assume m: "registry_ok m"
  then have "device_ok d (fst (device_status dev))" using Some by (intro device_ok_status) (simp add: registry_ok_def)
  then show ?thesis using m registry_put by (simp add: announce_device_def Some split_beta Let_def)
qed (simp add: announce_device_def)

lemma registry_stop_device: "registry_ok m \<Longrightarrow> registry_ok (stop_device d b m)"
proof -
  assume "registry_ok m"
  then have "registry_ok (fold (stop_sensor d) (sids_of d m) m)"
    by (rule fold_keeps) (rule registry_stop)
  then show ?thesis by (simp add: stop_device_def Let_def registry_announce)
qed

lemma registry_start_device: "registry_ok m \<Longrightarrow> registry_ok (start_device x d m)"
  unfolding start_device_def by (erule fold_keeps) (rule registry_start)

lemma staggered_keeps:
  assumes "P m" "\<And>d i t m. P m \<Longrightarrow> P (start_sensor x d i t m)"
  shows "P (fst (start_sensors_staggered x ps m))"
proof -
  have "P (fold (\<lambda>(k, (d, i)). start_sensor x d i (f k)) es m)" for f :: "nat \<Rightarrow> real" and es
    by (rule fold_keeps [where P = P]) (simp_all add: assms split_beta)
  then show ?thesis using assms(1) by (simp add: start_sensors_staggered_def Let_def)
qed

lemma registry_staggered: "registry_ok m \<Longrightarrow> registry_ok (fst (start_sensors_staggered x ps m))"
  by (rule staggered_keeps [where P = registry_ok]) (simp_all add: registry_start)

lemma registry_stop_all: "registry_ok m \<Longrightarrow> registry_ok (stop_all b m)"
  unfolding stop_all_def by (erule fold_keeps) (rule registry_stop_device)

lemma registry_edit:
  assumes "registry_ok m"
  shows "registry_ok (update_begin d i m)" "registry_ok (update_apply x d i es w m)"
proof -
  have "registry_ok (update_begin d i m) \<and> registry_ok (update_apply x d i es w m)"
  proof (cases "find_sensor d i m")
    case None
    then show ?thesis using assms by (simp add: update_begin_def update_apply_def)
  next
    case (Some ds)
    obtain dev s where ds: "find_sensor d i m = Some (dev, s)" using Some by (cases ds) simp
    have ok: "sensor_ok d i s" using find_sensor_ok [OF assms ds] by simp
    then have "sensor_ok d i (edit_sensor x h es s)" for h
      by (simp add: edit_sensor_def Let_def sensor_ok_def sensor_wf_def)
    then show ?thesis
      using registry_store_inval [OF assms ds] registry_start ok
      by (simp add: update_begin_def update_apply_def ds Let_def)
  qed
  then show "registry_ok (update_begin d i m)" "registry_ok (update_apply x d i es w m)" by simp_all
qed

section \<open>One result\<close>

definition fired_only :: "sensor \<Rightarrow> sensor \<Rightarrow> bool" where
  "fired_only s t \<longleftrightarrow> t = s\<lparr> s_alert_has_fired := s_alert_has_fired t,
     s_alert_cleanup_checked := s_alert_cleanup_checked t \<rparr>"

lemma fired_only_simps [simp]:
  "fired_only s s" "fired_only s (s\<lparr> s_alert_has_fired := a \<rparr>)"
  "fired_only s (s\<lparr> s_alert_has_fired := a, s_alert_cleanup_checked := b \<rparr>)"
  "fired_only s (s\<lparr> s_alert_cleanup_checked := b \<rparr>)"
  by (simp_all add: fired_only_def)

lemma fired_only_post: "fired_only s (fst (post_recovery v p fr d i (s\<lparr> s_alert_has_fired := h \<rparr>, e)))"
  by (simp add: post_recovery_def Let_def fired_only_def)

lemma evaluate_sensor: "fired_only s (fst (evaluate_and_fire v dev (s, e)))"
  by (simp add: evaluate_unfold Let_def fired_only_post)

text \<open>The cycle and the engine, as \<open>evaluate_result\<close> runs them.\<close>

definition cycle_of :: "mon_env \<Rightarrow> probe_result \<Rightarrow> ts \<Rightarrow> source \<Rightarrow> device \<Rightarrow> sensor \<Rightarrow> monitor \<Rightarrow> pstate" where
  "cycle_of x r now src dev s m =
     cycle_body (x_anom x) (device_muted x dev s) src r now (v_now (x_alert x))
       \<lparr> p_dev = dev, p_s = s, p_in_grace = m_grace_active m, p_parked = m_parked m, p_out = [] \<rparr>"

definition engine_of :: "mon_env \<Rightarrow> probe_result \<Rightarrow> ts \<Rightarrow> source \<Rightarrow> device \<Rightarrow> sensor \<Rightarrow> monitor \<Rightarrow> sensor \<times> engine" where
  "engine_of x r now src dev s m =
     (let p = cycle_of x r now src dev s m
      in if \<not> device_muted x dev s \<and> \<not> grace_has (d_device_id dev) (s_sensor_id s) (p_parked p)
         then evaluate_and_fire (x_alert x) (p_dev p) (p_s p, m_engine m) else (p_s p, m_engine m))"

definition final_sensor :: "mon_env \<Rightarrow> probe_result \<Rightarrow> ts \<Rightarrow> source \<Rightarrow> device \<Rightarrow> sensor \<Rightarrow> monitor \<Rightarrow> sensor" where
  "final_sensor x r now src dev s m =
     (let s1 = fst (engine_of x r now src dev s m)
      in s1\<lparr> s_thr_history := deque_append (s_thr_history s1) (s_threshold_state s1) \<rparr>)"

definition final_device :: "mon_env \<Rightarrow> probe_result \<Rightarrow> ts \<Rightarrow> source \<Rightarrow> device \<Rightarrow> sensor \<Rightarrow> monitor \<Rightarrow> device" where
  "final_device x r now src dev s m =
     put_sensor (s_sensor_id s) (final_sensor x r now src dev s m) (p_dev (cycle_of x r now src dev s m))"

lemma evaluate_result_unfold:
  "evaluate_result x r now src dev s m =
     m_emit (p_out (cycle_of x r now src dev s m)
         @ (if r_ok r then [ELog (d_device_id dev) (s_sensor_id s) (log_msg r (final_sensor x r now src dev s m))
              (log_type (s_threshold_state (final_sensor x r now src dev s m)))] else [])
         @ [ESensor (final_sensor x r now src dev s m),
            EDeviceStatus (d_device_id dev) (snd (device_status (final_device x r now src dev s m)))])
       (put_device (d_device_id dev) (fst (device_status (final_device x r now src dev s m)))
         (m\<lparr> m_parked := p_parked (cycle_of x r now src dev s m),
             m_engine := snd (engine_of x r now src dev s m) \<rparr>))"
  by (simp add: evaluate_result_def cycle_of_def engine_of_def final_sensor_def final_device_def Let_def
      split_beta)

lemma engine_of_sensor:
  "fired_only (p_s (cycle_of x r now src dev s m)) (fst (engine_of x r now src dev s m))"
  by (simp add: engine_of_def Let_def evaluate_sensor)

lemma final_sensor_fields:
  "s_running (final_sensor x r now src dev s m) = s_running s"
  "s_sched_mode (final_sensor x r now src dev s m) = s_sched_mode s"
  "s_cfg (final_sensor x r now src dev s m) = s_cfg s"
  "s_last_processed_ts (final_sensor x r now src dev s m) = s_last_processed_ts s"
  "status_view (final_sensor x r now src dev s m) = status_view (p_s (cycle_of x r now src dev s m))"
  "sensor_ok d i s \<Longrightarrow> sensor_ok d i (final_sensor x r now src dev s m)"
proof -
  let ?q = "p_s (cycle_of x r now src dev s m)"
  obtain a b where e: "fst (engine_of x r now src dev s m) = ?q\<lparr> s_alert_has_fired := a, s_alert_cleanup_checked := b \<rparr>"
    using engine_of_sensor unfolding fired_only_def by blast
  have k: "s_device_id ?q = s_device_id s" "s_sensor_id ?q = s_sensor_id s" "s_cfg ?q = s_cfg s"
    "s_running ?q = s_running s" "s_sched_mode ?q = s_sched_mode s" "s_last_processed_ts ?q = s_last_processed_ts s"
    using keeps_cycle [of "\<lparr> p_dev = dev, p_s = s, p_in_grace = m_grace_active m, p_parked = m_parked m, p_out = [] \<rparr>"
        "x_anom x" "device_muted x dev s" src r now "v_now (x_alert x)"]
    by (simp_all add: cycle_of_def keeps_def)
  show "s_running (final_sensor x r now src dev s m) = s_running s"
    "s_sched_mode (final_sensor x r now src dev s m) = s_sched_mode s"
    "s_cfg (final_sensor x r now src dev s m) = s_cfg s"
    "s_last_processed_ts (final_sensor x r now src dev s m) = s_last_processed_ts s"
    using k by (simp_all add: final_sensor_def e Let_def)
  show "status_view (final_sensor x r now src dev s m) = status_view ?q"
    by (simp add: final_sensor_def e Let_def status_view_def)
  assume ok: "sensor_ok d i s"
  then have "sensor_wf ?q"
    using cycle_wf [of "\<lparr> p_dev = dev, p_s = s, p_in_grace = m_grace_active m, p_parked = m_parked m, p_out = [] \<rparr>"]
    by (simp add: cycle_of_def sensor_ok_def)
  then show "sensor_ok d i (final_sensor x r now src dev s m)"
    using ok k by (simp add: final_sensor_def e Let_def sensor_ok_def sensor_wf_def length_deque_append)
qed

lemma put_sensor_invalidate: "put_sensor i s (invalidate_status dev) = invalidate_status (put_sensor i s dev)"
  by (simp add: put_sensor_def invalidate_status_def)

lemma final_device_ok:
  assumes "device_ok d dev" "sensor_ok d i s" "dget (d_sensors dev) i = Some s0"
    "status_view s = status_view s0"
  shows "device_ok d (final_device x r now src dev s m)"
proof -
  let ?q = "cycle_of x r now src dev s m" and ?f = "final_sensor x r now src dev s m"
  have i: "s_sensor_id s = i" using assms(2) by (simp add: sensor_ok_def)
  have ok: "sensor_ok d i ?f" by (rule final_sensor_fields(6) [OF assms(2)])
  have "p_dev ?q = dev \<and> status_view (p_s ?q) = status_view s \<or> p_dev ?q = invalidate_status dev"
    using keeps_cycle [of "\<lparr> p_dev = dev, p_s = s, p_in_grace = m_grace_active m, p_parked = m_parked m, p_out = [] \<rparr>"
        "x_anom x" "device_muted x dev s" src r now "v_now (x_alert x)"]
    by (simp add: cycle_of_def keeps_def)
  then show ?thesis
  proof
    assume q: "p_dev ?q = dev \<and> status_view (p_s ?q) = status_view s"
    then have "status_view ?f = status_view s0" using assms(4) by (simp add: final_sensor_fields(5))
    then have "device_ok d (put_sensor i ?f dev)" by (rule device_ok_view [OF assms(1) ok assms(3)])
    then show ?thesis using q by (simp add: final_device_def i)
  next
    assume "p_dev ?q = invalidate_status dev"
    then show ?thesis
      using device_ok_inval [OF assms(1) ok assms(3)] by (simp add: final_device_def i put_sensor_invalidate)
  qed
qed

lemma registry_process:
  assumes "registry_ok m"
  shows "registry_ok (fst (process_result x d i r now src b m))"
proof (cases "find_sensor d i m")
  case None
  then show ?thesis using assms by (simp add: process_result_def)
next
  case (Some ds)
  obtain dev s where ds: "find_sensor d i m = Some (dev, s)" using Some by (cases ds) simp
  have ok: "device_ok d dev" "sensor_ok d i s" using find_sensor_ok [OF assms ds] by simp_all
  have st: "registry_ok (store_sensor d dev i (s\<lparr> s_last_processed_ts := t \<rparr>) m)" for t
    by (rule registry_store [OF assms ds]) (simp_all add: ok)
  let ?s1 = "s\<lparr> s_last_processed_ts := Some now \<rparr>"
  have "device_ok d (final_device x r now src dev ?s1 m)"
    by (rule final_device_ok [OF ok(1), of i ?s1 s]) (use ok ds in \<open>simp_all add: find_sensor_Some\<close>)
  then have "device_ok d (fst (device_status (final_device x r now src dev ?s1 m)))"
    by (rule device_ok_status)
  moreover have "d_device_id dev = d" using ok(1) by (simp add: device_ok_def)
  ultimately have "registry_ok (evaluate_result x r now src dev ?s1 m)"
    using assms by (simp add: evaluate_result_unfold registry_put)
  then show ?thesis using assms st by (simp add: process_result_def ds Let_def)
qed

lemma registry_run:
  assumes "registry_ok m"
  shows "registry_ok (run_begin d i m)" "registry_ok (reschedule x d i m)" "registry_ok (run_end x d i r t m)"
proof -
  have resch: "registry_ok (reschedule x d i m)" if "registry_ok m" for m
  proof (cases "find_sensor d i m")
    case None
    then show ?thesis using that by (simp add: reschedule_def)
  next
    case (Some ds)
    obtain dev s where ds: "find_sensor d i m = Some (dev, s)" using Some by (cases ds) simp
    have ok: "sensor_ok d i s" using find_sensor_ok [OF that ds] by simp
    have st: "registry_ok (store_sensor d dev i (s\<lparr> s_sched_mode := Remote, s_stopped := True \<rparr>) (m\<lparr> m_bind := b \<rparr>))"
      "registry_ok (store_sensor d dev i (s\<lparr> s_stopped := True \<rparr>) m)" for b
      by (rule registry_store [of _ d i dev s]; simp add: that ds ok)+
    then show ?thesis using that by (simp add: reschedule_def ds split_beta Let_def)
  qed
  then show "registry_ok (reschedule x d i m)" using assms .
  show "registry_ok (run_begin d i m)"
  proof (cases "find_sensor d i m")
    case None
    then show ?thesis using assms by (simp add: run_begin_def take_job_def)
  next
    case (Some ds)
    obtain dev s where ds: "find_sensor d i m = Some (dev, s)" using Some by (cases ds) simp
    have ok: "sensor_ok d i s" using find_sensor_ok [OF assms ds] by simp
    have st: "registry_ok (store_sensor d dev i (s\<lparr> s_stopped := True \<rparr>) (m\<lparr> m_ready := q \<rparr>))"
      "registry_ok (store_sensor d dev i (s\<lparr> s_sched_mode := Remote, s_stopped := True \<rparr>)
         (m\<lparr> m_ready := q, m_bind := b \<rparr>))" for q b
      by (rule registry_store [of _ d i dev s]; simp add: assms ds ok)+
    then show ?thesis using assms by (simp add: run_begin_def take_job_def ds split_beta Let_def)
  qed
  show "registry_ok (run_end x d i r t m)"
    using assms by (simp add: run_end_def resch registry_process)
qed

lemma registry_assign:
  assumes "registry_ok m"
  shows "registry_ok (apply_probe_assignment x ps m)"
proof -
  have "registry_ok (apply_one x k m)" if "registry_ok m" for k m
  proof (cases "find_sensor (fst k) (snd k) m")
    case None
    then show ?thesis using that by (simp add: apply_one_def)
  next
    case (Some ds)
    obtain dev s where ds: "find_sensor (fst k) (snd k) m = Some (dev, s)" using Some by (cases ds) simp
    have ok: "sensor_ok (fst k) (snd k) s" using find_sensor_ok [OF that ds] by simp
    have st: "registry_ok (store_sensor (fst k) dev (snd k) (s\<lparr> s_sched_mode := md \<rparr>) (m\<lparr> m_bind := b \<rparr>))"
      "registry_ok (store_sensor (fst k) dev (snd k) (s\<lparr> s_sched_mode := md \<rparr>) (m\<lparr> m_bind := b, m_sched := h \<rparr>))"
      for md b h
      by (rule registry_store [of _ "fst k" "snd k" dev s]; simp add: that ds ok)+
    then show ?thesis
      using that by (simp add: apply_one_def ds split_beta Let_def registry_start registry_stop)
  qed
  with assms show ?thesis unfolding apply_probe_assignment_def by (rule fold_keeps)
qed

lemma registry_grace:
  assumes "registry_ok m"
  shows "registry_ok (begin_startup_grace x t m)" "registry_ok (fst (maybe_flush_grace t m))"
  using assms by (simp_all add: begin_startup_grace_def maybe_flush_grace_def flush_grace_def Let_def)

lemma registry_exec: "registry_ok m \<Longrightarrow> registry_ok (exec x opr m)"
  by (cases opr)
    (simp_all add: registry_add_device registry_remove_device registry_add_sensor registry_remove_sensor
      registry_start registry_stop registry_start_device registry_stop_device start_all_def registry_staggered
      registry_stop_all registry_edit registry_run registry_process registry_assign registry_grace
      sched_tick_def split_beta Let_def)

section \<open>Probe chains\<close>

definition needs_probe :: "did \<Rightarrow> sid \<Rightarrow> monitor \<Rightarrow> bool" where
  "needs_probe d i m \<longleftrightarrow>
     (\<exists>dev s. find_sensor d i m = Some (dev, s) \<and> s_running s \<and> s_sched_mode s = Central)"

definition has_job :: "did \<Rightarrow> sid \<Rightarrow> monitor \<Rightarrow> bool" where
  "has_job d i m \<longleftrightarrow> (d, i) \<in> set (m_ready m) \<union> set (m_inflight m) \<or> live_jobs d i (m_sched m) \<noteq> []"

definition chain_ok :: "monitor \<Rightarrow> bool" where
  "chain_ok m \<longleftrightarrow> sorted (h_heap (m_sched m)) \<and> (\<forall>d i. needs_probe d i m \<longrightarrow> has_job d i m)"

lemma needs_frame [simp]:
  "needs_probe d i (m\<lparr> m_bind := b \<rparr>) = needs_probe d i m" "needs_probe d i (m\<lparr> m_sched := h \<rparr>) = needs_probe d i m"
  "needs_probe d i (m\<lparr> m_ready := q \<rparr>) = needs_probe d i m" "needs_probe d i (m\<lparr> m_inflight := q \<rparr>) = needs_probe d i m"
  "needs_probe d i (m\<lparr> m_bumps := bs \<rparr>) = needs_probe d i m" "needs_probe d i (m\<lparr> m_did_ctr := n \<rparr>) = needs_probe d i m"
  "needs_probe d i (m\<lparr> m_parked := pk \<rparr>) = needs_probe d i m" "needs_probe d i (m\<lparr> m_engine := e \<rparr>) = needs_probe d i m"
  "needs_probe d i (m\<lparr> m_grace_active := ga \<rparr>) = needs_probe d i m"
  "needs_probe d i (m\<lparr> m_grace_min_end := t \<rparr>) = needs_probe d i m"
  "needs_probe d i (m\<lparr> m_grace_hardcap := t \<rparr>) = needs_probe d i m"
  "needs_probe d i (m\<lparr> m_shutting_down := sd \<rparr>) = needs_probe d i m"
  "needs_probe d i (m_emit es m) = needs_probe d i m"
  by (simp_all add: needs_probe_def)

lemma has_job_frame [simp]:
  "has_job d i (m\<lparr> m_bind := b \<rparr>) = has_job d i m" "has_job d i (m\<lparr> m_bumps := bs \<rparr>) = has_job d i m"
  "has_job d i (m\<lparr> m_did_ctr := n \<rparr>) = has_job d i m" "has_job d i (m\<lparr> m_parked := pk \<rparr>) = has_job d i m"
  "has_job d i (m\<lparr> m_engine := en \<rparr>) = has_job d i m" "has_job d i (m\<lparr> m_grace_active := ga \<rparr>) = has_job d i m"
  "has_job d i (m\<lparr> m_grace_min_end := t \<rparr>) = has_job d i m"
  "has_job d i (m\<lparr> m_grace_hardcap := t \<rparr>) = has_job d i m"
  "has_job d i (m\<lparr> m_shutting_down := sd \<rparr>) = has_job d i m"
  "has_job d i (m_emit es m) = has_job d i m" "has_job d i (put_device e dev m) = has_job d i m"
  "has_job d i (store_sensor e dev j s m) = has_job d i m"
  "has_job d i (store_sensor_inval e dev j s m) = has_job d i m"
  by (simp_all add: has_job_def m_emit_def put_device_def store_sensor_def store_sensor_inval_def)

lemma sched_frame [simp]:
  "m_sched (m_emit es m) = m_sched m" "m_sched (put_device e dev m) = m_sched m"
  "m_sched (store_sensor e dev j s m) = m_sched m" "m_sched (store_sensor_inval e dev j s m) = m_sched m"
  "m_ready (store_sensor e dev j s m) = m_ready m" "m_ready (store_sensor_inval e dev j s m) = m_ready m"
  "m_inflight (store_sensor e dev j s m) = m_inflight m" "m_inflight (store_sensor_inval e dev j s m) = m_inflight m"
  by (simp_all add: m_emit_def put_device_def store_sensor_def store_sensor_inval_def)

lemma needs_put:
  "needs_probe d i (put_device e dev m) =
     (if d = e then (\<exists>s. dget (d_sensors dev) i = Some s \<and> s_running s \<and> s_sched_mode s = Central)
      else needs_probe d i m)"
  by (simp add: needs_probe_def find_sensor_def put_device_def dict_simps map_option_case split: option.split)

lemma needs_store:
  assumes "find_sensor e j m = Some (dev, s0)"
  shows "needs_probe d i (store_sensor e dev j s m) =
      (if (d, i) = (e, j) then s_running s \<and> s_sched_mode s = Central else needs_probe d i m)"
    "needs_probe d i (store_sensor_inval e dev j s m) =
      (if (d, i) = (e, j) then s_running s \<and> s_sched_mode s = Central else needs_probe d i m)"
proof -
  have dev: "dget (m_devices m) e = Some dev" using assms by (simp add: find_sensor_Some)
  have at: "needs_probe e i m = (\<exists>s. dget (d_sensors dev) i = Some s \<and> s_running s \<and> s_sched_mode s = Central)"
    by (simp add: needs_probe_def find_sensor_def dev map_option_case split: option.split)
  show "needs_probe d i (store_sensor e dev j s m) =
      (if (d, i) = (e, j) then s_running s \<and> s_sched_mode s = Central else needs_probe d i m)"
    by (simp add: store_sensor_def needs_put dict_simps at)
  show "needs_probe d i (store_sensor_inval e dev j s m) =
      (if (d, i) = (e, j) then s_running s \<and> s_sched_mode s = Central else needs_probe d i m)"
    by (simp add: store_sensor_inval_def needs_put dict_simps at)
qed

lemma live_schedule:
  "live_jobs d i (sched_schedule now e j t h) \<noteq> [] \<longleftrightarrow> (d, i) = (e, j) \<or> live_jobs d i h \<noteq> []"
proof -
  have "filter P (insort x xs) \<noteq> [] \<longleftrightarrow> P x \<or> filter P xs \<noteq> []" for P and x :: job and xs
    by (induction xs) auto
  then show ?thesis by (auto simp: live_jobs_def sched_schedule_def heappush_def job_key_def Let_def)
qed

lemma live_cancel: "(d, i) \<noteq> (e, j) \<Longrightarrow> live_jobs d i (sched_cancel e j h) = live_jobs d i h"
  by (auto simp: live_jobs_def sched_cancel_def)

lemma sorted_sched:
  "sorted (h_heap h) \<Longrightarrow> sorted (h_heap (sched_schedule now d i t h))"
  "h_heap (sched_cancel d i h) = h_heap h"
  by (simp_all add: sched_schedule_def sched_cancel_def Let_def heap.ok_push)

text \<open>A pass of the scheduler moves jobs to the executor or keeps them.\<close>

lemma drain_jobs:
  assumes "live_jobs d i h \<noteq> []"
  shows "(d, i) \<in> set (snd (sched_drain accepts now clocks h))
    \<or> live_jobs d i (fst (sched_drain accepts now clocks h)) \<noteq> []"
  using assms
proof (induction accepts now clocks h rule: sched_drain.induct)
  case (1 accepts now clocks h)
  show ?case
  proof (cases "h_heap h")
    case Nil
    then show ?thesis using 1(3) by (simp add: sched_drain_Nil)
  next
    case (Cons j rest)
    have pop: "heappop (h_heap h) = Some (j, rest)" by (simp add: heappop_def Cons)
    let ?h = "h\<lparr> h_heap := rest \<rparr>"
    have nt: "(d, i) \<notin> set (h_tomb h)" using 1(3) by (auto simp: live_jobs_def)
    have here: "live_jobs d i ?h \<noteq> []" if "job_key j \<noteq> (d, i)"
      using 1(3) that by (simp add: live_jobs_def Cons nt)
    show ?thesis
    proof (cases "now < fst j")
      case True
      then show ?thesis using 1(3) by (simp add: sched_drain_Cons [OF Cons])
    next
      case due: False
      show ?thesis
      proof (cases "job_key j \<in> set (h_tomb h)")
        case True
        with nt have "job_key j \<noteq> (d, i)" by auto
        then show ?thesis using 1(1) [OF pop refl due True] here
          by (simp add: sched_drain_Cons [OF Cons] due True)
      next
        case live: False
        show ?thesis
        proof (cases "accepts (job_key j)")
          case False
          have "live_jobs d i (h\<lparr> h_seq := q, h_heap := heappush (u, q, job_key j) rest \<rparr>) \<noteq> []" for q u
          proof -
            have "j \<in> set (filter (\<lambda>x. job_key x = (d, i)) (j # rest)) \<or> filter (\<lambda>x. job_key x = (d, i)) rest \<noteq> []"
              using 1(3) nt by (auto simp: live_jobs_def Cons split: if_splits)
            then have "\<exists>x \<in> set (heappush (u, q, job_key j) rest). job_key x = (d, i)"
              by (auto simp: job_key_def filter_empty_conv split: if_splits)
            then show ?thesis using nt by (auto simp: live_jobs_def filter_empty_conv)
          qed
          then show ?thesis by (simp add: sched_drain_Cons [OF Cons] due live False)
        next
          case True
          then show ?thesis
            using 1(2) [OF pop refl due live _ refl] here
            by (cases "job_key j = (d, i)") (auto simp: sched_drain_Cons [OF Cons] due live nt Let_def)
        qed
      qed
    qed
  qed
qed

lemma prune_jobs: "live_jobs d i h \<noteq> [] \<Longrightarrow> live_jobs d i (sched_prune h) \<noteq> []"
proof -
  assume "live_jobs d i h \<noteq> []"
  then obtain j where j: "j \<in> set (h_heap h)" "job_key j = (d, i)" "(d, i) \<notin> set (h_tomb h)"
    by (auto simp: live_jobs_def filter_empty_conv split: if_splits)
  then have "j \<in> set (h_heap (sched_prune h))" "(d, i) \<notin> set (h_tomb (sched_prune h))"
    by (simp_all add: sched_prune_def heapify_def)
  with j(2) show ?thesis by (force simp: live_jobs_def filter_empty_conv)
qed

lemma pass_jobs:
  assumes "live_jobs d i h \<noteq> []"
  shows "(d, i) \<in> set (snd (sched_pass accepts now clocks h))
    \<or> live_jobs d i (fst (sched_pass accepts now clocks h)) \<noteq> []"
  using drain_jobs [OF assms, of accepts now clocks] prune_jobs
  by (auto simp: sched_pass_def split_beta Let_def)

text \<open>One lemma per operation; every one keeps \<open>chain_ok\<close>.\<close>

lemma chain_okI:
  "sorted (h_heap (m_sched m)) \<Longrightarrow> (\<And>d i. needs_probe d i m \<Longrightarrow> has_job d i m) \<Longrightarrow> chain_ok m"
  by (simp add: chain_ok_def)

lemma chain_okD: "chain_ok m \<Longrightarrow> needs_probe d i m \<Longrightarrow> has_job d i m"
  "chain_ok m \<Longrightarrow> sorted (h_heap (m_sched m))"
  by (simp_all add: chain_ok_def)

lemma has_job_sched:
  "has_job d i (m\<lparr> m_sched := h \<rparr>) \<longleftrightarrow> (d, i) \<in> set (m_ready m) \<union> set (m_inflight m) \<or> live_jobs d i h \<noteq> []"
  by (simp add: has_job_def)

lemma has_job_cancel: "(d, i) \<noteq> (e, j) \<Longrightarrow> has_job d i m \<Longrightarrow> has_job d i (m\<lparr> m_sched := sched_cancel e j (m_sched m) \<rparr>)"
  using live_cancel [of d i e j] by (auto simp: has_job_def)

lemma chain_start:
  assumes "chain_ok m"
  shows "chain_ok (start_sensor x d i t m)"
proof (cases "find_sensor d i m")
  case None
  then show ?thesis using assms by (simp add: start_sensor_def)
next
  case (Some ds)
  obtain dev s where ds: "find_sensor d i m = Some (dev, s)" using Some by (cases ds) simp
  show ?thesis
  proof (cases "s_running s")
    case True
    then show ?thesis using assms by (simp add: start_sensor_def ds)
  next
    case False
    obtain b eff where eff: "effective_probe (Some dev) (Some s) (m_bind m) = (b, eff)" by fastforce
    let ?s = "s\<lparr> s_running := True, s_stopped := False, s_sched_mode := (if eff \<noteq> [] then Remote else Central) \<rparr>"
    let ?m1 = "store_sensor_inval d dev i ?s (m\<lparr> m_bind := b \<rparr>)"
    have n: "needs_probe e j ?m1 = (if (e, j) = (d, i) then eff = [] else needs_probe e j m)" for e j
      using needs_store(2) [of d i "m\<lparr> m_bind := b \<rparr>" dev s] ds by simp
    have old: "needs_probe e j m \<Longrightarrow> has_job e j m" for e j by (rule chain_okD(1) [OF assms])
    have srt: "sorted (h_heap (m_sched m))" by (rule chain_okD(2) [OF assms])
    have sch: "chain_ok (?m1\<lparr> m_sched := sched_schedule (x_mono x) d i u (m_sched ?m1) \<rparr>)" for u
      using srt n old
      by (intro chain_okI) (auto simp: sorted_sched has_job_def live_schedule store_sensor_inval_def put_device_def
          split: if_splits)
    have rdy: "chain_ok (?m1\<lparr> m_ready := m_ready ?m1 @ [(d, i)] \<rparr>)"
      using srt n old
      by (intro chain_okI) (auto simp: has_job_def store_sensor_inval_def put_device_def split: if_splits)
    have rem: "chain_ok (?m1\<lparr> m_bumps := bs \<rparr>)" if "eff \<noteq> []" for bs
      using srt n old that
      by (intro chain_okI) (auto split: if_splits)
    show ?thesis
      by (cases "eff = []") (use sch rdy rem False in \<open>simp_all add: start_sensor_def ds eff Let_def\<close>)
  qed
qed

lemma chain_stop:
  assumes "chain_ok m"
  shows "chain_ok (stop_sensor d i m)"
proof (cases "find_sensor d i m")
  case None
  then have "\<not> needs_probe d i m" by (simp add: needs_probe_def)
  then have "chain_ok (m\<lparr> m_sched := sched_cancel d i (m_sched m) \<rparr>)"
    using chain_okD [OF assms] by (intro chain_okI) (auto simp: sorted_sched intro!: has_job_cancel)
  then show ?thesis by (simp add: stop_sensor_def None)
next
  case (Some ds)
  obtain dev s where ds: "find_sensor d i m = Some (dev, s)" using Some by (cases ds) simp
  define m0 where "m0 b = (store_sensor_inval d dev i (s\<lparr> s_running := False \<rparr>) (m\<lparr> m_bind := b \<rparr>))
      \<lparr> m_sched := sched_cancel d i (m_sched m) \<rparr>" for b
  have ok: "chain_ok (m0 b)" for b
  proof (rule chain_okI)
    fix e j
    assume "needs_probe e j (m0 b)"
    then have "(e, j) \<noteq> (d, i)" "needs_probe e j m"
      using needs_store(2) [of d i "m\<lparr> m_bind := b \<rparr>" dev s e j "s\<lparr> s_running := False \<rparr>"] ds
      by (auto simp: m0_def split: if_splits)
    then show "has_job e j (m0 b)"
      using chain_okD(1) [OF assms, of e j] live_cancel [of e j d i]
      by (auto simp: m0_def has_job_def store_sensor_inval_def put_device_def)
  qed (use chain_okD(2) [OF assms] in \<open>simp add: m0_def sorted_sched\<close>)
  then have "chain_ok ((m0 b)\<lparr> m_bumps := bs \<rparr>)" for b bs
    by (simp add: chain_ok_def)
  then show ?thesis
    using ok by (simp add: stop_sensor_def ds split_beta Let_def flip: m0_def)
qed

text \<open>Operations that leave the scheduler, the executor and the chains' conditions alone.\<close>

lemma chain_same:
  assumes "chain_ok m" "m_sched m' = m_sched m" "set (m_ready m) \<subseteq> set (m_ready m')"
    "m_inflight m' = m_inflight m" "\<And>d i. needs_probe d i m' \<Longrightarrow> needs_probe d i m"
  shows "chain_ok m'"
proof (rule chain_okI)
  show "sorted (h_heap (m_sched m'))" using chain_okD(2) [OF assms(1)] assms(2) by simp
next
  fix d i assume "needs_probe d i m'"
  then have "has_job d i m" using chain_okD(1) [OF assms(1)] assms(5) by blast
  then show "has_job d i m'" using assms(2-4) unfolding has_job_def by auto
qed

lemma chain_store:
  assumes "chain_ok m" "find_sensor d i m = Some (dev, s0)"
    "s_running s \<and> s_sched_mode s = Central \<Longrightarrow> s_running s0 \<and> s_sched_mode s0 = Central"
  shows "chain_ok (store_sensor d dev i s m)" "chain_ok (store_sensor_inval d dev i s m)"
proof -
  have old: "has_job e j m"
    if "if (e, j) = (d, i) then s_running s \<and> s_sched_mode s = Central else needs_probe e j m" for e j
  proof -
    have "needs_probe e j m" using that assms(2,3) by (auto simp: needs_probe_def split: if_splits)
    then show ?thesis by (rule chain_okD(1) [OF assms(1)])
  qed
  show "chain_ok (store_sensor d dev i s m)"
    by (rule chain_okI; use chain_okD(2) [OF assms(1)] old in \<open>simp add: needs_store [OF assms(2)]\<close>)
  show "chain_ok (store_sensor_inval d dev i s m)"
    by (rule chain_okI; use chain_okD(2) [OF assms(1)] old in \<open>simp add: needs_store [OF assms(2)]\<close>)
qed

lemma chain_frame [simp]:
  "chain_ok (m\<lparr> m_bind := b \<rparr>) = chain_ok m" "chain_ok (m_emit es m) = chain_ok m"
  "chain_ok (m\<lparr> m_grace_active := ga, m_grace_min_end := t, m_grace_hardcap := u \<rparr>) = chain_ok m"
  "chain_ok (m\<lparr> m_grace_active := ga, m_parked := pk \<rparr>) = chain_ok m"
  "chain_ok (m\<lparr> m_parked := pk, m_engine := en \<rparr>) = chain_ok m"
  "chain_ok (m\<lparr> m_shutting_down := sd \<rparr>) = chain_ok m"
  "chain_ok (m\<lparr> m_did_ctr := n \<rparr>) = chain_ok m" "chain_ok (on_events f m) = chain_ok m"
  by (simp_all add: chain_ok_def on_events_def)

lemma chain_put_device:
  assumes "chain_ok m" "\<And>i s. dget (d_sensors dev) i = Some s \<Longrightarrow> s_running s \<Longrightarrow> s_sched_mode s = Central
      \<Longrightarrow> needs_probe d i m"
  shows "chain_ok (put_device d dev m)"
  using chain_okD [OF assms(1)] assms(2) by (auto intro!: chain_okI simp: needs_put split: if_splits)

lemma chain_registry:
  assumes "chain_ok m"
  shows "chain_ok (fst (add_device n h g st m))" "chain_ok (fst (add_sensor d h c m))"
    "chain_ok (fst (remove_sensor d i m))" "chain_ok (fst (remove_device d m))"
proof -
  show "chain_ok (fst (add_device n h g st m))"
    using assms by (simp add: add_device_def Let_def) (rule chain_put_device, simp_all add: new_device_def)
  show "chain_ok (fst (add_sensor d h c m))"
  proof (cases "dget (m_devices m) d")
    case None
    then show ?thesis using assms by (simp add: add_sensor_def)
  next
    case (Some dev)
    have at: "needs_probe d i m \<longleftrightarrow> (\<exists>s. dget (d_sensors dev) i = Some s \<and> s_running s \<and> s_sched_mode s = Central)" for i
      by (simp add: needs_probe_def find_sensor_def Some map_option_case split: option.split)
    have "chain_ok (put_device d (put_sensor i s dev1) m)"
      if "\<not> s_running s" "d_sensors dev1 = d_sensors dev" for i s dev1
      by (rule chain_put_device [OF assms]) (use that in \<open>auto simp: at dict_simps split: if_splits\<close>)
    moreover have "\<not> s_running (new_sensor d i c)" for i c by (simp add: new_sensor_def)
    ultimately show ?thesis by (simp add: add_sensor_def Some next_sid_def Let_def)
  qed
  show "chain_ok (fst (remove_sensor d i m))"
  proof (cases "find_sensor d i m")
    case None
    then show ?thesis using assms by (simp add: remove_sensor_def)
  next
    case (Some ds)
    obtain dev s where ds: "find_sensor d i m = Some (dev, s)" using Some by (cases ds) simp
    let ?dev = "invalidate_status (dev\<lparr> d_sensors := ddel i (d_sensors dev) \<rparr>)"
    have dev: "dget (m_devices m) d = Some dev" using ds by (simp add: find_sensor_Some)
    have at: "needs_probe d j m \<longleftrightarrow> (\<exists>s. dget (d_sensors dev) j = Some s \<and> s_running s \<and> s_sched_mode s = Central)" for j
      by (simp add: needs_probe_def find_sensor_def dev map_option_case split: option.split)
    have del: "dget (ddel i (d_sensors dev)) j = (if j = i then None else dget (d_sensors dev) j)" for j
      by (rule dict.get_del)
    have "chain_ok (put_device d ?dev (m\<lparr> m_sched := sched_cancel d i (m_sched m) \<rparr>))"
    proof (rule chain_okI)
      fix e j
      assume "needs_probe e j (put_device d ?dev (m\<lparr> m_sched := sched_cancel d i (m_sched m) \<rparr>))"
      then have "(e, j) \<noteq> (d, i)" "needs_probe e j m" by (auto simp: needs_put at del split: if_splits)
      then show "has_job e j (put_device d ?dev (m\<lparr> m_sched := sched_cancel d i (m_sched m) \<rparr>))"
        using chain_okD(1) [OF assms, of e j] live_cancel [of e j d i]
        by (auto simp: has_job_def put_device_def)
    qed (use chain_okD(2) [OF assms] in \<open>simp add: sorted_sched\<close>)
    then show ?thesis by (simp add: remove_sensor_def ds)
  qed
  show "chain_ok (fst (remove_device d m))"
  proof (cases "dget (m_devices m) d")
    case None
    then show ?thesis using assms by (simp add: remove_device_def)
  next
    case (Some dev)
    let ?h = "fold (\<lambda>i. sched_cancel d i) (map fst (d_sensors dev)) (m_sched m)"
    have live: "live_jobs e j (fold (\<lambda>i. sched_cancel d i) ks h) = live_jobs e j h" if "e \<noteq> d" for e j ks h
      using that by (induction ks arbitrary: h) (simp_all add: live_cancel)
    have srt: "h_heap (fold (\<lambda>i. sched_cancel d i) ks h) = h_heap h" for ks h
      by (induction ks arbitrary: h) (simp_all add: sorted_sched)
    have del: "dget (ddel d (m_devices m)) e = (if e = d then None else dget (m_devices m) e)" for e
      by (rule dict.get_del)
    have "chain_ok (m\<lparr> m_devices := ddel d (m_devices m), m_sched := ?h \<rparr>)"
    proof (rule chain_okI)
      fix e j
      assume "needs_probe e j (m\<lparr> m_devices := ddel d (m_devices m), m_sched := ?h \<rparr>)"
      then have "e \<noteq> d" "needs_probe e j m"
        by (auto simp: needs_probe_def find_sensor_def del split: if_splits)
      then show "has_job e j (m\<lparr> m_devices := ddel d (m_devices m), m_sched := ?h \<rparr>)"
        using chain_okD(1) [OF assms, of e j] by (auto simp: has_job_def live)
    qed (use chain_okD(2) [OF assms] in \<open>simp add: srt\<close>)
    then show ?thesis by (simp add: remove_device_def Some)
  qed
qed

lemma chain_announce: "chain_ok m \<Longrightarrow> chain_ok (announce_device d m)"
proof (cases "dget (m_devices m) d")
  case (Some dev)
  assume m: "chain_ok m"
  have "d_sensors (fst (device_status dev)) = d_sensors dev"
    by (simp add: device_status_def Let_def split: option.split)
  then have "chain_ok (put_device d (fst (device_status dev)) m)"
    by (intro chain_put_device [OF m]) (auto simp: needs_probe_def find_sensor_def Some)
  then show ?thesis by (simp add: announce_device_def Some split_beta Let_def)
qed (simp add: announce_device_def)

lemma chain_devices:
  assumes "chain_ok m"
  shows "chain_ok (start_device x d m)" "chain_ok (stop_device d b m)" "chain_ok (start_all x m)"
    "chain_ok (stop_all b m)"
proof -
  have stop: "chain_ok (stop_device d b m)" if "chain_ok m" for d m
  proof -
    have "chain_ok (fold (stop_sensor d) (sids_of d m) m)" using that by (rule fold_keeps) (rule chain_stop)
    then show ?thesis by (simp add: stop_device_def Let_def chain_announce)
  qed
  show "chain_ok (start_device x d m)"
    unfolding start_device_def using assms by (rule fold_keeps) (rule chain_start)
  show "chain_ok (stop_device d b m)" using stop assms .
  show "chain_ok (start_all x m)"
    unfolding start_all_def by (rule staggered_keeps [where P = chain_ok]) (simp_all add: assms chain_start)
  show "chain_ok (stop_all b m)"
    unfolding stop_all_def using assms by (rule fold_keeps) (rule stop)
qed

lemma chain_edit:
  assumes "chain_ok m"
  shows "chain_ok (update_begin d i m)" "chain_ok (update_apply x d i es w m)"
proof -
  have "chain_ok (update_begin d i m) \<and> chain_ok (update_apply x d i es w m)"
  proof (cases "find_sensor d i m")
    case None
    then show ?thesis using assms by (simp add: update_begin_def update_apply_def)
  next
    case (Some ds)
    obtain dev s where ds: "find_sensor d i m = Some (dev, s)" using Some by (cases ds) simp
    have "s_running (edit_sensor x h es s) = s_running s" "s_sched_mode (edit_sensor x h es s) = s_sched_mode s" for h
      by (simp_all add: edit_sensor_def Let_def)
    then have e: "chain_ok (store_sensor_inval d dev i (edit_sensor x h es s) m)" for h
      by (intro chain_store(2) [OF assms ds]) simp
    have "chain_ok (store_sensor_inval d dev i (s\<lparr> s_running := False, s_stopped := False \<rparr>) m)"
      by (rule chain_store(2) [OF assms ds]) simp
    with e show ?thesis by (simp add: update_begin_def update_apply_def ds Let_def chain_start)
  qed
  then show "chain_ok (update_begin d i m)" "chain_ok (update_apply x d i es w m)" by simp_all
qed

lemma find_sensor_ids: "registry_ok m \<Longrightarrow> find_sensor d i m = Some (dev, s) \<Longrightarrow>
    d_device_id dev = d \<and> s_sensor_id s = i \<and> s_device_id s = d"
  using find_sensor_ok by (fastforce simp: device_ok_def sensor_ok_def)

lemma process_frame:
  "m_sched (fst (process_result x d i r now src b m)) = m_sched m"
  "m_ready (fst (process_result x d i r now src b m)) = m_ready m"
  "m_inflight (fst (process_result x d i r now src b m)) = m_inflight m"
  "m_bind (fst (process_result x d i r now src b m)) = m_bind m"
  by (auto simp: process_result_def evaluate_result_unfold m_emit_def put_device_def store_sensor_def Let_def
      split: option.split)

lemma final_device_sensors:
  assumes "device_ok d dev" "sensor_ok d i s"
  shows "d_sensors (fst (device_status (final_device x r now src dev s m)))
    = dput i (final_sensor x r now src dev s m) (d_sensors dev)"
proof -
  have "d_sensors (p_dev (cycle_of x r now src dev s m)) = d_sensors dev"
    using keeps_cycle [of "\<lparr> p_dev = dev, p_s = s, p_in_grace = m_grace_active m, p_parked = m_parked m, p_out = [] \<rparr>"
        "x_anom x" "device_muted x dev s" src r now "v_now (x_alert x)"]
    by (auto simp: cycle_of_def keeps_def)
  moreover have "d_sensors (fst (device_status e)) = d_sensors e" for e
    by (simp add: device_status_def Let_def split: option.split)
  ultimately show ?thesis using assms(2) by (simp add: final_device_def sensor_ok_def)
qed

text \<open>What a result changes in the registry: the sensor's running flag and mode stay.\<close>

lemma process_needs:
  assumes "registry_ok m"
  shows "needs_probe e j (fst (process_result x d i r now src b m)) = needs_probe e j m"
proof (cases "find_sensor d i m")
  case None
  then show ?thesis by (simp add: process_result_def)
next
  case (Some ds)
  obtain dev s where ds: "find_sensor d i m = Some (dev, s)" using Some by (cases ds) simp
  have ok: "device_ok d dev" "sensor_ok d i s" using find_sensor_ok [OF assms ds] by simp_all
  have dev: "dget (m_devices m) d = Some dev" "dget (d_sensors dev) i = Some s" "d_device_id dev = d"
    using ds ok(1) by (simp_all add: find_sensor_Some device_ok_def)
  let ?s1 = "s\<lparr> s_last_processed_ts := Some now \<rparr>"
  have at: "needs_probe d j m = (\<exists>s. dget (d_sensors dev) j = Some s \<and> s_running s \<and> s_sched_mode s = Central)" for j
    by (simp add: needs_probe_def find_sensor_def dev map_option_case split: option.split)
  have st: "needs_probe e j (store_sensor d dev i (s\<lparr> s_last_processed_ts := t \<rparr>) m) = needs_probe e j m" for t
    using dev by (auto simp: needs_store [OF ds] at)
  have "needs_probe e j (evaluate_result x r now src dev ?s1 m) = needs_probe e j m"
    using dev ok by (auto simp: evaluate_result_unfold needs_put final_device_sensors dict_simps at
        final_sensor_fields)
  then show ?thesis using st by (simp add: process_result_def ds Let_def)
qed

lemma chain_process:
  assumes "registry_ok m" "chain_ok m"
  shows "chain_ok (fst (process_result x d i r now src b m))"
  by (rule chain_same [OF assms(2)]) (simp_all add: process_frame process_needs [OF assms(1)])

text \<open>Between the start of a cycle and its rescheduling the chain of one sensor may be broken.\<close>

definition chain_but :: "did \<Rightarrow> sid \<Rightarrow> monitor \<Rightarrow> bool" where
  "chain_but d i m \<longleftrightarrow> sorted (h_heap (m_sched m))
     \<and> (\<forall>e j. (e, j) \<noteq> (d, i) \<longrightarrow> needs_probe e j m \<longrightarrow> has_job e j m)"

lemma chain_but_ok: "chain_but d i m \<Longrightarrow> (needs_probe d i m \<Longrightarrow> has_job d i m) \<Longrightarrow> chain_ok m"
proof (rule chain_okI)
  fix e j assume "chain_but d i m" "needs_probe d i m \<Longrightarrow> has_job d i m" "needs_probe e j m"
  then show "has_job e j m" by (cases "(e, j) = (d, i)") (simp_all add: chain_but_def)
qed (simp add: chain_but_def)

lemma chain_but_store:
  assumes "chain_but d i m" "find_sensor d i m = Some (dev, s0)" "\<not> (s_running s \<and> s_sched_mode s = Central)"
  shows "chain_ok (store_sensor d dev i s m)"
proof (rule chain_okI)
  show "sorted (h_heap (m_sched (store_sensor d dev i s m)))" using assms(1) by (simp add: chain_but_def)
next
  fix e j assume "needs_probe e j (store_sensor d dev i s m)"
  then have "(e, j) \<noteq> (d, i)" "needs_probe e j m"
    using assms(3) unfolding needs_store(1) [OF assms(2)] by (auto split: if_splits)
  then show "has_job e j (store_sensor d dev i s m)" using assms(1) by (simp add: chain_but_def)
qed

lemma chain_but_frame [simp]:
  "chain_but d i (m\<lparr> m_bind := b \<rparr>) = chain_but d i m"
  by (simp add: chain_but_def)

lemma chain_reschedule:
  assumes "chain_but d i m"
  shows "chain_ok (reschedule x d i m)"
proof (cases "find_sensor d i m")
  case None
  then have "\<not> needs_probe d i m" by (simp add: needs_probe_def)
  then have "chain_ok m" using chain_but_ok [OF assms] by blast
  then show ?thesis by (simp add: reschedule_def None)
next
  case (Some ds)
  obtain dev s where ds: "find_sensor d i m = Some (dev, s)" using Some by (cases ds) simp
  have st: "chain_ok (store_sensor d dev i (s\<lparr> s_sched_mode := Remote, s_stopped := True \<rparr>) (m\<lparr> m_bind := b \<rparr>))" for b
    by (rule chain_but_store [of _ _ _ _ s]) (use assms ds in simp_all)
  have st2: "chain_ok (store_sensor d dev i (s\<lparr> s_stopped := True \<rparr>) m)" if "\<not> s_running s"
    by (rule chain_but_store [OF assms ds]) (use that in simp)
  have sch: "chain_ok (m\<lparr> m_bind := b, m_sched := sched_schedule t d i u (m_sched m) \<rparr>)" for b t u
    using assms by (auto simp: chain_ok_def chain_but_def sorted_sched has_job_def live_schedule)
  show ?thesis using st st2 sch by (simp add: reschedule_def ds split_beta Let_def)
qed

lemma chain_run_end:
  assumes "registry_ok m" "chain_ok m"
  shows "chain_ok (run_end x d i r t m)"
proof -
  let ?m = "m\<lparr> m_inflight := remove1 (d, i) (m_inflight m) \<rparr>"
  have r: "registry_ok ?m" using assms(1) by simp
  have "chain_but d i ?m"
    using assms(2) by (auto simp: chain_but_def chain_ok_def has_job_def in_set_remove1)
  then have "chain_but d i (fst (process_result x d i r t Local True ?m))"
    by (simp add: chain_but_def process_needs [OF r] process_frame has_job_def)
  then show ?thesis using assms(2) by (simp add: run_end_def chain_reschedule)
qed

lemma chain_run_begin:
  assumes "chain_ok m"
  shows "chain_ok (run_begin d i m)"
proof -
  let ?m = "take_job (d, i) m"
  have but: "chain_but d i ?m"
    using assms by (auto simp: chain_but_def chain_ok_def has_job_def take_job_def in_set_remove1)
  show ?thesis
  proof (cases "find_sensor d i ?m")
    case None
    then have "\<not> needs_probe d i ?m" by (simp add: needs_probe_def)
    then have "chain_ok ?m" using chain_but_ok [OF but] by blast
    then show ?thesis using None by (simp add: run_begin_def Let_def)
  next
    case (Some ds)
    obtain dev s where ds: "find_sensor d i ?m = Some (dev, s)" using Some by (cases ds) simp
    have st: "chain_ok (store_sensor d dev i (s\<lparr> s_sched_mode := Remote, s_stopped := True \<rparr>) (?m\<lparr> m_bind := b \<rparr>))" for b
      by (rule chain_but_store [of _ _ _ _ s]) (use but ds in simp_all)
    have st2: "chain_ok (store_sensor d dev i (s\<lparr> s_stopped := True \<rparr>) ?m)" if "\<not> s_running s"
      by (rule chain_but_store [OF but ds]) (use that in simp)
    have fl: "chain_ok (?m\<lparr> m_bind := b, m_inflight := (d, i) # m_inflight ?m \<rparr>)" for b
      using but by (auto simp: chain_ok_def chain_but_def has_job_def)
    show ?thesis using st st2 fl by (simp add: run_begin_def ds split_beta Let_def)
  qed
qed

lemma chain_assign:
  assumes "chain_ok m"
  shows "chain_ok (apply_probe_assignment x ps m)"
proof -
  have "chain_ok (apply_one x k m)" if m: "chain_ok m" for k m
  proof (cases "find_sensor (fst k) (snd k) m")
    case None
    then show ?thesis using that by (simp add: apply_one_def)
  next
    case (Some ds)
    obtain d i where k: "k = (d, i)" by fastforce
    obtain dev s where ds: "find_sensor d i m = Some (dev, s)" using Some k by (cases ds) simp
    have rem: "chain_ok (store_sensor d dev i (s\<lparr> s_sched_mode := Remote \<rparr>)
        (m\<lparr> m_bind := b, m_sched := sched_cancel d i (m_sched m) \<rparr>))" for b
    proof (rule chain_okI)
      fix e j
      assume "needs_probe e j (store_sensor d dev i (s\<lparr> s_sched_mode := Remote \<rparr>)
        (m\<lparr> m_bind := b, m_sched := sched_cancel d i (m_sched m) \<rparr>))"
      then have "(e, j) \<noteq> (d, i)" "needs_probe e j m"
        using needs_store(1) [of d i "m\<lparr> m_bind := b, m_sched := sched_cancel d i (m_sched m) \<rparr>" dev s e j
            "s\<lparr> s_sched_mode := Remote \<rparr>"] ds by (auto split: if_splits)
      then show "has_job e j (store_sensor d dev i (s\<lparr> s_sched_mode := Remote \<rparr>)
        (m\<lparr> m_bind := b, m_sched := sched_cancel d i (m_sched m) \<rparr>))"
        using chain_okD(1) [OF m, of e j] live_cancel [of e j d i] by (auto simp: has_job_def)
    qed (use chain_okD(2) [OF m] in \<open>simp add: sorted_sched\<close>)
    have cen: "chain_ok (store_sensor d dev i (s\<lparr> s_sched_mode := Central \<rparr>) (m\<lparr> m_bind := b \<rparr>))"
      if "\<not> s_running s" for b
      by (rule chain_store(1) [of _ _ _ _ s]) (use m ds that in simp_all)
    show ?thesis
      using m rem cen by (simp add: k apply_one_def ds split_beta Let_def chain_start chain_stop)
  qed
  with assms show ?thesis unfolding apply_probe_assignment_def by (rule fold_keeps)
qed

lemma drain_sorted: "sorted (h_heap h) \<Longrightarrow> sorted (h_heap (fst (sched_drain accepts now clocks h)))"
proof (induction accepts now clocks h rule: sched_drain.induct)
  case (1 accepts now clocks h)
  show ?case
  proof (cases "h_heap h")
    case Nil
    then show ?thesis using 1 by (simp add: sched_drain_Nil)
  next
    case (Cons j rest)
    have pop: "heappop (h_heap h) = Some (j, rest)" by (simp add: heappop_def Cons)
    show ?thesis
      using 1(3) 1(1) [OF pop refl] 1(2) [OF pop refl _ _ _ refl]
      by (simp add: sched_drain_Cons [OF Cons] Cons Let_def heap.ok_push)
  qed
qed

lemma chain_tick:
  assumes "chain_ok m"
  shows "chain_ok (sched_tick a t ts m)"
proof -
  have "sorted (h_heap (fst (sched_pass a t ts (m_sched m))))"
    using drain_sorted [OF chain_okD(2) [OF assms], of a t ts]
    by (simp add: sched_pass_def split_beta Let_def sched_prune_def heapify_def)
  moreover have "has_job d i (sched_tick a t ts m)" if "needs_probe d i m" for d i
    using chain_okD(1) [OF assms that] pass_jobs [of d i "m_sched m" a t ts]
    by (auto simp: sched_tick_def split_beta Let_def has_job_def)
  moreover have "needs_probe d i (sched_tick a t ts m) = needs_probe d i m" for d i
    by (simp add: sched_tick_def split_beta Let_def)
  ultimately show ?thesis
    by (intro chain_okI) (simp_all add: sched_tick_def split_beta Let_def)
qed

lemma chain_exec:
  assumes "registry_ok m" "chain_ok m"
  shows "chain_ok (exec x opr m)"
  by (cases opr)
    (use assms in \<open>simp_all add: chain_registry chain_start chain_stop chain_devices chain_edit chain_run_begin
      chain_run_end chain_process chain_tick chain_assign begin_startup_grace_def maybe_flush_grace_def
      flush_grace_def Let_def\<close>)

section \<open>The parked incidents and the alert tables\<close>

lemma parked_wf_typed: "p_parked (typed_step muted r now p) = p_parked p"
proof -
  have e: "p_parked (enum_transition prev cur now p) = p_parked p" for prev cur p
    by (simp add: enum_transition_def Let_def frame_simps)
  show ?thesis
    by (simp add: typed_step_def enum_step_def ticks_step_def text_step_def Let_def e
        split: option.split category.split)
qed

lemma parked_wf_branch:
  assumes "parked_wf (p_parked p)"
  shows "parked_wf (p_parked (branch muted src r now p))"
proof -
  have v: "p_parked (success_values src r now p) = p_parked p" for p
    by (simp add: success_values_def Let_def)
  have "parked_wf (p_parked (recover muted now p))" if "parked_wf (p_parked p)" for p
    using parked_wf_unpark [OF that] that by (simp add: recover_def Let_def split_beta)
  then have "parked_wf (p_parked (success_step muted src r now p))"
    using assms by (simp add: success_step_def success_debounce_def Let_def parked_wf_typed v)
  moreover have "parked_wf (p_parked (fail_step muted r now p))"
    using assms by (simp add: fail_step_def fail_values_def go_down_def Let_def parked_wf_park)
  ultimately show ?thesis by (simp add: branch_def)
qed

lemma parked_wf_cycle:
  assumes "parked_wf (p_parked p)"
  shows "parked_wf (p_parked (cycle_body st muted src r now clock p))"
proof -
  have t: "parked_wf (p_parked (thr_transition muted t now q))" if "parked_wf (p_parked q)" for t q
    using that parked_wf_unpark [OF that] parked_wf_park(2) [OF that]
    by (simp add: thr_transition_def thr_worse_def thr_recovered_def Let_def split_beta)
  have "parked_wf (p_parked (branch muted src r now (start_cycle r p)))"
    by (rule parked_wf_branch) (use assms in \<open>simp add: start_cycle_def Let_def\<close>)
  then show ?thesis by (simp add: cycle_body_unfold Let_def t)
qed

definition tables_ok :: "monitor \<Rightarrow> bool" where
  "tables_ok m \<longleftrightarrow> parked_wf (m_parked m) \<and> evt_ok (e_events (m_engine m))"

lemma tables_frame [simp]:
  "tables_ok (m\<lparr> m_bind := b \<rparr>) = tables_ok m" "tables_ok (m\<lparr> m_sched := h \<rparr>) = tables_ok m"
  "tables_ok (m\<lparr> m_ready := q \<rparr>) = tables_ok m" "tables_ok (m\<lparr> m_inflight := q \<rparr>) = tables_ok m"
  "tables_ok (m\<lparr> m_bumps := bs \<rparr>) = tables_ok m" "tables_ok (m\<lparr> m_did_ctr := n \<rparr>) = tables_ok m"
  "tables_ok (m\<lparr> m_devices := ds \<rparr>) = tables_ok m"
  "tables_ok (m\<lparr> m_shutting_down := sd \<rparr>) = tables_ok m"
  "tables_ok (m\<lparr> m_grace_active := ga, m_grace_min_end := t, m_grace_hardcap := u \<rparr>) = tables_ok m"
  "tables_ok (m_emit es m) = tables_ok m" "tables_ok (put_device e dev m) = tables_ok m"
  "tables_ok (store_sensor e dev j s m) = tables_ok m" "tables_ok (store_sensor_inval e dev j s m) = tables_ok m"
  by (simp_all add: tables_ok_def m_emit_def put_device_def store_sensor_def store_sensor_inval_def)

lemma tables_start: "tables_ok (start_sensor x d i t m) = tables_ok m"
  by (simp add: start_sensor_def split_beta Let_def split: option.split)

lemma tables_stop: "tables_ok (stop_sensor d i m) = tables_ok m"
  by (simp add: stop_sensor_def split_beta Let_def split: option.split)

lemma tables_process:
  assumes "tables_ok m"
  shows "tables_ok (fst (process_result x d i r now src b m))"
proof -
  have "tables_ok (evaluate_result x r now src dev s m)" for dev s
  proof -
    have "parked_wf (p_parked (cycle_of x r now src dev s m))"
      unfolding cycle_of_def by (rule parked_wf_cycle) (use assms in \<open>simp add: tables_ok_def\<close>)
    moreover have "evt_ok (e_events (snd (engine_of x r now src dev s m)))"
      using assms by (simp add: engine_of_def Let_def tables_ok_def evaluate_evt_ok)
    ultimately show ?thesis by (simp add: evaluate_result_unfold) (simp add: tables_ok_def)
  qed
  then show ?thesis using assms by (simp add: process_result_def Let_def split: option.split)
qed

lemma tables_flush: "tables_ok m \<Longrightarrow> tables_ok (flush_grace m)"
  by (simp add: flush_grace_def) (simp add: tables_ok_def)

lemma tables_events:
  assumes "tables_ok m"
  shows "startable (OpAck k now user) m \<Longrightarrow> tables_ok (on_events (db_ack_event now k user) m)"
    "tables_ok (on_events (db_resolve_event now k) m)" "tables_ok (on_events (db_ack_events_by_sensor now d i user) m)"
    "tables_ok (on_events (db_resolve_events_by_sensor now d i) m)"
    "tables_ok (on_events (\<lambda>t. fst (db_resolve_all_active now t)) m)"
    "tables_ok (on_events (db_clean_alert_events now days) m)"
proof -
  show "tables_ok (on_events (db_ack_event now k user) m)" if "startable (OpAck k now user) m"
    using assms that by (simp add: tables_ok_def on_events_def evt_ok_ack)
qed (use assms in \<open>simp_all add: tables_ok_def on_events_def evt_ok_resolves evt_ok_ack_by_sensor evt_ok_clean\<close>)

lemma tables_exec:
  assumes "tables_ok m" "startable opr m"
  shows "tables_ok (exec x opr m)"
proof -
  have resch: "tables_ok (reschedule x d i m) = tables_ok m" for d i m
    by (simp add: reschedule_def split_beta Let_def split: option.split)
  have ann: "tables_ok (announce_device d m) = tables_ok m" for d m
    by (simp add: announce_device_def split_beta Let_def split: option.split)
  have stopd: "tables_ok (stop_device d b m)" if "tables_ok m" for d b m
  proof -
    have "tables_ok (fold (stop_sensor d) (sids_of d m) m)"
      using that by (rule fold_keeps) (simp add: tables_stop)
    then show ?thesis by (simp add: stop_device_def Let_def ann)
  qed
  have one: "tables_ok (apply_one x k m) = tables_ok m" for k m
    by (simp add: apply_one_def split_beta Let_def tables_start tables_stop split: option.split)
  have folds: "tables_ok (fold (apply_one x) ps m)" "tables_ok (fold (\<lambda>d. stop_device d b) ds m)"
    "tables_ok (fold (\<lambda>i. start_sensor x d i 0) js m)" for ps ds js b d
    by (rule fold_keeps; use assms one stopd tables_start in simp)+
  have st: "tables_ok (start_all x m)"
    unfolding start_all_def by (rule staggered_keeps [where P = tables_ok]) (simp_all add: assms tables_start)
  show ?thesis
    by (cases opr)
      (use assms in \<open>simp_all add: add_device_def remove_device_def add_sensor_def remove_sensor_def
        tables_start tables_stop start_device_def stopd st stop_all_def folds update_begin_def update_apply_def
        run_begin_def take_job_def run_end_def resch tables_process apply_probe_assignment_def sched_tick_def
        begin_startup_grace_def maybe_flush_grace_def tables_flush tables_events split_beta Let_def split: option.split\<close>)
qed

section \<open>Every reachable state\<close>

definition mon_ok :: "monitor \<Rightarrow> bool" where
  "mon_ok m \<longleftrightarrow> registry_ok m \<and> chain_ok m \<and> tables_ok m"

lemma mon_ok_init: "mon_ok (init_monitor pdb tdb b)"
  by (simp add: mon_ok_def registry_ok_def chain_ok_def tables_ok_def init_monitor_def needs_probe_def
      find_sensor_def init_sched_def)

lemma mon_ok_exec: "mon_ok m \<Longrightarrow> startable opr m \<Longrightarrow> mon_ok (exec x opr m)"
  by (simp add: mon_ok_def registry_exec chain_exec tables_exec)

lemma reachable_ok: "reachable m \<Longrightarrow> mon_ok m"
proof (induction rule: reachable.induct)
  case (init pdb tdb b)
  show ?case by (rule mon_ok_init)
next
  case (step m m')
  from step.hyps(2) show ?case
    by (cases rule: step.cases) (use step.IH mon_ok_exec in blast)+
qed

end
