(* ===== verification/Batcher.thy ===== *)
theory Batcher
  imports Maintenance "HOL-Library.Multiset" "HOL-Library.List_Lexorder" "HOL-Library.Char_ord"
begin

text \<open>
  Notification batching (\<open>monitoring/alert_batcher.py\<close>) and the dispatch functions of
  \<open>monitoring/alert_dispatchers.py\<close> it sits between. What leaves the module, and what it drops with a
  log line, is the list \<open>q_out\<close>; the senders behind it are \<open>smtp_alert\<close> and the delivery layer. The
  world is the record \<open>batch_env\<close>: the settings store, the users' and groups' addresses, the URL
  guard (it resolves names) and whether a batched send raises.
\<close>

section \<open>Configuration and world\<close>

datatype names = NText string | NList "string list"

record acfg =
  ac_to_users :: names
  ac_to_groups :: names
  ac_to_emails :: names
  ac_to :: names
  ac_subject :: string
  ac_url :: string
  ac_batch_aware :: bool

record batch_ctx =
  bc_count :: nat
  bc_alerts :: "actx list"
  bc_counts :: "(string \<times> nat) list"
  bc_label :: string
  bc_from :: ts
  bc_to :: ts

datatype outmsg =
    OneMail "string list" string actx
  | BatchMail "string list" string batch_ctx
  | OneHook string actx
  | BatchHook string batch_ctx
  | Direct string actx                       \<comment> \<open>syslog and browser\<close>
  | Skipped string "actx list"               \<comment> \<open>logged: no recipients, no URL, blocked URL\<close>

record batch_env =
  n_setting :: "string \<Rightarrow> string option"
  n_user_email :: "string \<Rightarrow> string option"
  n_group_emails :: "int \<Rightarrow> string list"
  n_safe_url :: "string \<Rightarrow> bool"
  n_batch_ok :: "outmsg \<Rightarrow> bool"

record qitem =
  qi_cfg :: acfg
  qi_ctx :: actx
  qi_ts :: ts
  qi_recovery :: bool

type_synonym bucket = "string \<times> string \<times> string"   \<comment> \<open>channel, destination, severity\<close>

record batcher =
  q_queues :: "(bucket, qitem list) dict"
  q_out :: "outmsg list"

definition init_batcher :: batcher where
  "init_batcher = \<lparr> q_queues = [], q_out = [] \<rparr>"

section \<open>Settings\<close>

record batch_settings =
  bs_enabled :: bool
  bs_window :: int
  bs_max :: int

definition int_setting :: "batch_env \<Rightarrow> string \<Rightarrow> int \<Rightarrow> int option" where
  "int_setting n k d = (case n_setting n k of
       None \<Rightarrow> Some d | Some v \<Rightarrow> if v = [] then Some d else parse_int v)"

definition read_settings :: "batch_env \<Rightarrow> batch_settings" where
  "read_settings n =
     (case (int_setting n ''alert_batch_window_s'' 60, int_setting n ''alert_batch_max_size'' 20) of
        (Some w, Some m) \<Rightarrow>
          \<lparr> bs_enabled = (strip (case n_setting n ''alert_batch_enabled'' of None \<Rightarrow> ''1'' | Some v \<Rightarrow> v) = ''1''),
            bs_window = max 5 (min 3600 w), bs_max = max 2 (min 500 m) \<rparr>
      | _ \<Rightarrow> \<lparr> bs_enabled = False, bs_window = 60, bs_max = 20 \<rparr>)"

section \<open>Recipients\<close>

definition csv :: "string \<Rightarrow> string list" where
  "csv t = filter (\<lambda>u. u \<noteq> []) (map strip (split_on (CHR '','') t))"

fun as_list :: "names \<Rightarrow> string list" where
  "as_list (NText t) = csv t"
| "as_list (NList xs) = xs"

fun falsy :: "names \<Rightarrow> bool" where
  "falsy (NText t) = (t = [])"
| "falsy (NList xs) = (xs = [])"

fun join :: "string \<Rightarrow> string list \<Rightarrow> string" where
  "join sep [] = []"
| "join sep [x] = x"
| "join sep (x # y # ys) = x @ sep @ join sep (y # ys)"

fun raw_text :: "names \<Rightarrow> string" where
  "raw_text (NText t) = t"
| "raw_text (NList xs) = join '','' xs"

text \<open>The set of addresses, sorted as every caller sorts it.\<close>

definition resolve_email_recipients :: "batch_env \<Rightarrow> acfg \<Rightarrow> string list" where
  "resolve_email_recipients n c =
     (let us = filter (\<lambda>e. e \<noteq> []) (List.map_filter (n_user_email n) (as_list (ac_to_users c)));
          gs = concat (map (\<lambda>g. case parse_int g of None \<Rightarrow> [] | Some i \<Rightarrow> n_group_emails n i)
                 (as_list (ac_to_groups c)));
          raw = csv (raw_text (if falsy (ac_to_emails c) then ac_to c else ac_to_emails c))
      in sort (remdups (us @ gs @ raw)))"

definition email_dest_key :: "batch_env \<Rightarrow> acfg \<Rightarrow> string" where
  "email_dest_key n c = join '','' (resolve_email_recipients n c) @ ''|'' @ strip (ac_subject c)"

definition webhook_dest_key :: "acfg \<Rightarrow> string" where
  "webhook_dest_key c = strip (ac_url c)"

section \<open>Senders\<close>

definition emit :: "outmsg \<Rightarrow> batcher \<Rightarrow> batcher" where
  "emit m b = b\<lparr> q_out := q_out b @ [m] \<rparr>"

definition dispatch_email :: "batch_env \<Rightarrow> acfg \<Rightarrow> actx \<Rightarrow> batcher \<Rightarrow> batcher" where
  "dispatch_email n c cx b =
     (let es = resolve_email_recipients n c
      in emit (if es = [] then Skipped ''email'' [cx] else OneMail es (strip (ac_subject c)) cx) b)"

definition dispatch_webhook :: "acfg \<Rightarrow> actx \<Rightarrow> batcher \<Rightarrow> batcher" where
  "dispatch_webhook c cx b =
     (let u = strip (ac_url c) in emit (if u = [] then Skipped ''webhook'' [cx] else OneHook u cx) b)"

text \<open>The batched senders; \<open>None\<close> is the exception that makes the caller fall back.\<close>

definition dispatch_email_batch :: "batch_env \<Rightarrow> acfg \<Rightarrow> batch_ctx \<Rightarrow> batcher \<Rightarrow> batcher option" where
  "dispatch_email_batch n c bx b =
     (let es = resolve_email_recipients n c; m = BatchMail es (strip (ac_subject c)) bx
      in if es = [] then Some (emit (Skipped ''email'' (bc_alerts bx)) b)
         else if n_batch_ok n m then Some (emit m b) else None)"

definition dispatch_webhook_batch :: "batch_env \<Rightarrow> acfg \<Rightarrow> batch_ctx \<Rightarrow> batcher \<Rightarrow> batcher option" where
  "dispatch_webhook_batch n c bx b =
     (let u = strip (ac_url c); m = BatchHook u bx
      in if u = [] \<or> \<not> n_safe_url n u then Some (emit (Skipped ''webhook'' (bc_alerts bx)) b)
         else if n_batch_ok n m then Some (emit m b) else None)"

definition dispatch_one :: "batch_env \<Rightarrow> string \<Rightarrow> acfg \<Rightarrow> actx \<Rightarrow> batcher \<Rightarrow> batcher" where
  "dispatch_one n ch c cx b =
     (if ch = ''email'' then dispatch_email n c cx b
      else if ch = ''webhook'' then dispatch_webhook c cx b
      else if ch = ''syslog'' \<or> ch = ''browser'' then emit (Direct ch cx) b
      else emit (Skipped ch [cx]) b)"

section \<open>Flushing\<close>

definition severity_of :: "actx \<Rightarrow> string" where
  "severity_of cx = lower (if cx_severity cx = [] then ''info'' else cx_severity cx)"

definition batch_sevs :: "string list" where
  "batch_sevs = [''critical'', ''warning'', ''recovery'', ''info'']"

definition batch_sev :: "actx \<Rightarrow> string" where
  "batch_sev cx = (if severity_of cx \<in> set batch_sevs then severity_of cx else ''info'')"

definition build_batch_ctx :: "qitem list \<Rightarrow> batch_ctx" where
  "build_batch_ctx qs =
     (let cs = map (\<lambda>s. (s, length (filter (\<lambda>q. batch_sev (qi_ctx q) = s) qs))) batch_sevs
      in \<lparr> bc_count = length qs, bc_alerts = map qi_ctx qs, bc_counts = cs,
           bc_label = join '', '' (map (\<lambda>(s, k). str_of_int (int k) @ '' '' @ s) (filter (\<lambda>(s, k). k \<noteq> 0) cs)),
           bc_from = qi_ts (hd qs), bc_to = qi_ts (last qs) \<rparr>)"

definition fallback_individual :: "batch_env \<Rightarrow> string \<Rightarrow> qitem list \<Rightarrow> batcher \<Rightarrow> batcher" where
  "fallback_individual n ch qs b = foldl (\<lambda>b q. dispatch_one n ch (qi_cfg q) (qi_ctx q) b) b qs"

definition dispatch_batch :: "batch_env \<Rightarrow> string \<Rightarrow> qitem list \<Rightarrow> batcher \<Rightarrow> batcher" where
  "dispatch_batch n ch qs b =
     (let c = qi_cfg (hd qs); bx = build_batch_ctx qs;
          r = (if ch = ''email'' then dispatch_email_batch n c bx b
               else if ch = ''webhook'' then dispatch_webhook_batch n c bx b else None)
      in case r of Some b' \<Rightarrow> b' | None \<Rightarrow> fallback_individual n ch qs b)"

definition flush_bucket :: "batch_env \<Rightarrow> bucket \<Rightarrow> qitem list \<Rightarrow> batcher \<Rightarrow> batcher" where
  "flush_bucket n key qs b =
     (case qs of [] \<Rightarrow> b
      | [q] \<Rightarrow> dispatch_one n (fst key) (qi_cfg q) (qi_ctx q) b
      | _ \<Rightarrow> dispatch_batch n (fst key) qs b)"

definition bucket_due :: "batch_settings \<Rightarrow> ts \<Rightarrow> qitem list \<Rightarrow> bool" where
  "bucket_due s now qs \<longleftrightarrow> bs_max s \<le> int (length qs) \<or> of_int (bs_window s) \<le> now - qi_ts (hd qs)"

definition flush_all :: "batch_env \<Rightarrow> (bucket \<times> qitem list) list \<Rightarrow> batcher \<Rightarrow> batcher" where
  "flush_all n bs b = foldl (\<lambda>b (k, qs). flush_bucket n k qs b) b bs"

definition tick_once :: "batch_env \<Rightarrow> ts \<Rightarrow> batcher \<Rightarrow> batcher" where
  "tick_once n now b =
     (let s = read_settings n;
          due = filter (\<lambda>(k, qs). qs \<noteq> [] \<and> bucket_due s now qs) (q_queues b)
      in flush_all n due (b\<lparr> q_queues := filter (\<lambda>(k, qs). qs \<noteq> [] \<and> \<not> bucket_due s now qs) (q_queues b) \<rparr>))"

definition drain_all :: "batch_env \<Rightarrow> batcher \<Rightarrow> batcher" where
  "drain_all n b = flush_all n (q_queues b) (b\<lparr> q_queues := [] \<rparr>)"

section \<open>Enqueueing and dispatch\<close>

definition enqueue :: "bucket \<Rightarrow> qitem \<Rightarrow> batcher \<Rightarrow> batcher" where
  "enqueue key q b =
     b\<lparr> q_queues := dput key ((case dget (q_queues b) key of None \<Rightarrow> [] | Some qs \<Rightarrow> qs) @ [q]) (q_queues b) \<rparr>"

definition try_enqueue_email :: "batch_env \<Rightarrow> ts \<Rightarrow> acfg \<Rightarrow> actx \<Rightarrow> batcher \<Rightarrow> batcher \<times> bool" where
  "try_enqueue_email n now c cx b =
     (let d = email_dest_key n c; sv = severity_of cx
      in if \<not> bs_enabled (read_settings n) then (b, False)
         else if d = [] then (b, False)
         else (enqueue (''email'', d, sv)
                 \<lparr> qi_cfg = c, qi_ctx = cx, qi_ts = now, qi_recovery = (sv = ''recovery'') \<rparr> b, True))"

definition try_enqueue_webhook :: "batch_env \<Rightarrow> ts \<Rightarrow> acfg \<Rightarrow> actx \<Rightarrow> batcher \<Rightarrow> batcher \<times> bool" where
  "try_enqueue_webhook n now c cx b =
     (let d = webhook_dest_key c; sv = severity_of cx
      in if \<not> ac_batch_aware c then (b, False)
         else if \<not> bs_enabled (read_settings n) then (b, False)
         else if d = [] then (b, False)
         else (enqueue (''webhook'', d, sv)
                 \<lparr> qi_cfg = c, qi_ctx = cx, qi_ts = now, qi_recovery = (sv = ''recovery'') \<rparr> b, True))"

definition dispatch :: "batch_env \<Rightarrow> ts \<Rightarrow> string \<Rightarrow> acfg \<Rightarrow> actx \<Rightarrow> batcher \<Rightarrow> batcher" where
  "dispatch n now ty c cx b =
     (if ty \<notin> set [''email'', ''webhook'', ''syslog'', ''browser''] then b
      else let (b', taken) = (if ty = ''email'' then try_enqueue_email n now c cx b
                              else if ty = ''webhook'' then try_enqueue_webhook n now c cx b
                              else (b, False))
           in if taken then b' else dispatch_one n ty c cx b')"

definition get_stats :: "batcher \<Rightarrow> nat \<times> nat" where
  "get_stats b = (length (q_queues b), sum_list (map (\<lambda>(k, qs). length qs) (q_queues b)))"

datatype batch_op = Dispatch string acfg actx ts | Tick ts | Shutdown

fun bexec :: "batch_env \<Rightarrow> batch_op \<Rightarrow> batcher \<Rightarrow> batcher" where
  "bexec n (Dispatch ty c cx now) b = dispatch n now ty c cx b"
| "bexec n (Tick now) b = tick_once n now b"
| "bexec n Shutdown b = drain_all n b"

section \<open>No alert is lost or sent twice\<close>

text \<open>The alerts a message carries, with the channel they leave on.\<close>

fun carried :: "outmsg \<Rightarrow> (string \<times> actx) multiset" where
  "carried (OneMail es s cx) = {#(''email'', cx)#}"
| "carried (BatchMail es s bx) = image_mset (Pair ''email'') (mset (bc_alerts bx))"
| "carried (OneHook u cx) = {#(''webhook'', cx)#}"
| "carried (BatchHook u bx) = image_mset (Pair ''webhook'') (mset (bc_alerts bx))"
| "carried (Direct ch cx) = {#(ch, cx)#}"
| "carried (Skipped ch cxs) = image_mset (Pair ch) (mset cxs)"

definition waiting :: "(bucket \<times> qitem list) list \<Rightarrow> (string \<times> actx) multiset" where
  "waiting m = \<Sum>\<^sub># (mset (map (\<lambda>(k, qs). image_mset (\<lambda>q. (fst k, qi_ctx q)) (mset qs)) m))"

definition handed :: "batcher \<Rightarrow> (string \<times> actx) multiset" where
  "handed b = \<Sum>\<^sub># (mset (map carried (q_out b)))"

lemma waiting_Nil [simp]: "waiting [] = {#}"
  by (simp add: waiting_def)

lemma handed_emit [simp]: "handed (emit m b) = carried m + handed b"
  by (simp add: handed_def emit_def)

lemma emit_queues [simp]: "q_queues (emit m b) = q_queues b"
  by (simp add: emit_def)

lemma handed_queues [simp]: "handed (b\<lparr> q_queues := m \<rparr>) = handed b"
  by (simp add: handed_def)

lemma dispatch_one_handed [simp]:
  "handed (dispatch_one n ch c cx b) = add_mset (ch, cx) (handed b)"
  "q_queues (dispatch_one n ch c cx b) = q_queues b"
  by (auto simp: dispatch_one_def dispatch_email_def dispatch_webhook_def Let_def)

lemma fallback_handed:
  "handed (fallback_individual n ch qs b) = image_mset (\<lambda>q. (ch, qi_ctx q)) (mset qs) + handed b
   \<and> q_queues (fallback_individual n ch qs b) = q_queues b"
  unfolding fallback_individual_def by (induction qs arbitrary: b) simp_all

lemma batch_alerts: "image_mset (Pair ch) (mset (bc_alerts (build_batch_ctx qs))) = image_mset (\<lambda>q. (ch, qi_ctx q)) (mset qs)"
  by (simp add: build_batch_ctx_def Let_def multiset.map_comp comp_def)

lemma batch_sent:
  "dispatch_email_batch n c (build_batch_ctx qs) b = Some b' \<Longrightarrow>
     handed b' = image_mset (\<lambda>q. (''email'', qi_ctx q)) (mset qs) + handed b \<and> q_queues b' = q_queues b"
  "dispatch_webhook_batch n c (build_batch_ctx qs) b = Some b' \<Longrightarrow>
     handed b' = image_mset (\<lambda>q. (''webhook'', qi_ctx q)) (mset qs) + handed b \<and> q_queues b' = q_queues b"
  by (auto simp: dispatch_email_batch_def dispatch_webhook_batch_def Let_def batch_alerts split: if_splits)

lemma dispatch_batch_handed:
  "handed (dispatch_batch n ch qs b) = image_mset (\<lambda>q. (ch, qi_ctx q)) (mset qs) + handed b
   \<and> q_queues (dispatch_batch n ch qs b) = q_queues b"
  unfolding dispatch_batch_def Let_def
  by (auto simp: fallback_handed split: option.splits dest!: batch_sent)

lemma flush_bucket_handed:
  "handed (flush_bucket n k qs b) = image_mset (\<lambda>q. (fst k, qi_ctx q)) (mset qs) + handed b
   \<and> q_queues (flush_bucket n k qs b) = q_queues b"
  by (auto simp: flush_bucket_def dispatch_batch_handed split: list.splits)

lemma flush_all_handed:
  "handed (flush_all n bs b) = waiting bs + handed b \<and> q_queues (flush_all n bs b) = q_queues b"
  unfolding flush_all_def
  by (induction bs arbitrary: b) (auto simp: waiting_def flush_bucket_handed split_beta)

lemma waiting_split: "waiting m = waiting (filter P m) + waiting (filter (\<lambda>x. \<not> P x) m)"
  by (induction m) (auto simp: waiting_def)

lemma waiting_nonempty: "waiting (filter (\<lambda>(k, qs). qs \<noteq> [] \<and> P k qs) m) = waiting (filter (\<lambda>(k, qs). P k qs) m)"
  by (induction m) (auto simp: waiting_def)

lemma tick_once_conserves:
  "handed (tick_once n now b) + waiting (q_queues (tick_once n now b)) = handed b + waiting (q_queues b)"
proof -
  let ?s = "read_settings n"
  have "waiting (q_queues b) = waiting (filter (\<lambda>(k, qs). bucket_due ?s now qs) (q_queues b))
      + waiting (filter (\<lambda>(k, qs). \<not> bucket_due ?s now qs) (q_queues b))"
    using waiting_split [of "q_queues b" "\<lambda>(k, qs). bucket_due ?s now qs"] by (simp add: split_def)
  then show ?thesis
    by (simp add: tick_once_def Let_def flush_all_handed waiting_nonempty)
qed

lemma drain_all_conserves: "handed (drain_all n b) = handed b + waiting (q_queues b) \<and> q_queues (drain_all n b) = []"
  by (simp add: drain_all_def flush_all_handed)

lemma waiting_enqueue:
  "waiting (dput k (old @ [q]) m) + (case dget m k of None \<Rightarrow> {#} | Some qs \<Rightarrow> image_mset (\<lambda>q. (fst k, qi_ctx q)) (mset qs))
     = waiting m + image_mset (\<lambda>q. (fst k, qi_ctx q)) (mset old) + {#(fst k, qi_ctx q)#}"
  by (induction m) (auto simp: waiting_def)

lemma enqueue_waiting: "waiting (q_queues (enqueue k q b)) = add_mset (fst k, qi_ctx q) (waiting (q_queues b))"
  using waiting_enqueue [of k "case dget (q_queues b) k of None \<Rightarrow> [] | Some qs \<Rightarrow> qs" q "q_queues b"]
  by (cases "dget (q_queues b) k") (simp_all add: enqueue_def)

lemma enqueue_handed [simp]: "handed (enqueue k q b) = handed b"
  by (simp add: enqueue_def)

definition known_type :: "string \<Rightarrow> bool" where
  "known_type ty \<longleftrightarrow> ty \<in> set [''email'', ''webhook'', ''syslog'', ''browser'']"

lemma dispatch_conserves:
  "handed (dispatch n now ty c cx b) + waiting (q_queues (dispatch n now ty c cx b))
     = (if known_type ty then {#(ty, cx)#} else {#}) + handed b + waiting (q_queues b)"
  by (auto simp: dispatch_def known_type_def try_enqueue_email_def try_enqueue_webhook_def Let_def
      enqueue_waiting)

fun asked :: "batch_op list \<Rightarrow> (string \<times> actx) multiset" where
  "asked [] = {#}"
| "asked (Dispatch ty c cx now # xs) = (if known_type ty then {#(ty, cx)#} else {#}) + asked xs"
| "asked (_ # xs) = asked xs"

lemma brun_conserves:
  "handed (foldl (\<lambda>b x. bexec n x b) b ops) + waiting (q_queues (foldl (\<lambda>b x. bexec n x b) b ops))
     = asked ops + handed b + waiting (q_queues b)"
proof (induction ops arbitrary: b)
  case (Cons x xs)
  have "handed (bexec n x b) + waiting (q_queues (bexec n x b)) = asked [x] + handed b + waiting (q_queues b)"
    by (cases x) (simp_all add: dispatch_conserves tick_once_conserves drain_all_conserves union_ac)
  moreover have "asked (x # xs) = asked [x] + asked xs" by (cases x) simp_all
  ultimately show ?case using Cons.IH [of "bexec n x b"] by (simp add: union_ac)
qed simp

text \<open>Bounds of the settings, and the counts of a batch add up.\<close>

lemma read_settings_bounds: "5 \<le> bs_window (read_settings n) \<and> bs_window (read_settings n) \<le> 3600
    \<and> 2 \<le> bs_max (read_settings n) \<and> bs_max (read_settings n) \<le> 500"
  by (auto simp: read_settings_def split: option.splits)

lemma batch_sev_in: "batch_sev cx \<in> set batch_sevs"
  by (simp add: batch_sev_def batch_sevs_def)

lemma sum_counts:
  assumes "distinct ks" "\<forall>x \<in> set xs. f x \<in> set ks"
  shows "sum_list (map (\<lambda>s. length (filter (\<lambda>x. f x = s) xs)) ks) = length xs"
  using assms(2)
proof (induction xs)
  case (Cons x xs)
  have "sum_list (map (\<lambda>s. length (filter (\<lambda>y. f y = s) (x # xs))) ks)
      = sum_list (map (\<lambda>s. (if f x = s then 1 else 0) + length (filter (\<lambda>y. f y = s) xs)) ks)"
    by (rule arg_cong [where f = sum_list], rule map_cong) auto
  also have "\<dots> = sum_list (map (\<lambda>s. if f x = s then 1 else 0) ks) + length xs"
    using Cons by (simp add: sum_list_addf)
  also have "sum_list (map (\<lambda>s. if f x = s then (1::nat) else 0) ks) = 1"
    using assms(1) Cons.prems by (simp add: sum_list_distinct_conv_sum_set sum.If_cases Int_insert_right)
  finally show ?case by simp
qed simp

lemma batch_counts_total:
  "sum_list (map snd (bc_counts (build_batch_ctx qs))) = bc_count (build_batch_ctx qs)"
  using sum_counts [of batch_sevs qs "\<lambda>q. batch_sev (qi_ctx q)"] batch_sev_in
  by (simp add: build_batch_ctx_def Let_def comp_def batch_sevs_def)

text \<open>After a tick no bucket is full or past its window.\<close>

lemma tick_leaves:
  "(k, qs) \<in> set (q_queues (tick_once n now b)) \<Longrightarrow>
     qs \<noteq> [] \<and> int (length qs) < bs_max (read_settings n) \<and> now - qi_ts (hd qs) < of_int (bs_window (read_settings n))"
  by (auto simp: tick_once_def Let_def flush_all_handed bucket_due_def)

text \<open>The check for an empty e-mail destination never succeeds: the key holds at least the bar.\<close>

lemma email_dest_key_ne: "email_dest_key n c \<noteq> []"
  by (simp add: email_dest_key_def)

end
