(* ===== verification/Delivery.thy ===== *)
theory Delivery
  imports Prelude "HOL-Library.Multiset" "HOL-Library.Product_Lexorder"
begin

text \<open>
  Notification delivery (\<open>monitoring/delivery_retry.py\<close>): a circuit breaker for each destination, the
  bounded queue of pending retries and the attempt that ties them together. A send runs outside the
  lock, so an attempt has two steps: the gate (age check and breaker) and the outcome. \<open>d_flying\<close> holds
  the items whose send function is running on some thread, \<open>d_log\<close> how each finished item ended;
  the code keeps the first on its threads' stacks and writes the second to its log.
\<close>

section \<open>State\<close>

record breaker =
  b_fails :: nat
  b_opened :: ts
  b_probing :: bool

record item =
  it_id :: nat            \<comment> \<open>identity of the item object\<close>
  it_channel :: string
  it_dest :: string
  it_attempt :: nat
  it_created :: ts

datatype verdict = Delivered | Expired | Overflown | Exhausted

type_synonym retry = "ts \<times> nat \<times> item"      \<comment> \<open>\<open>(due_ts, seq, item)\<close>\<close>

record delivery =
  d_breakers :: "(string, breaker) dict"
  d_heap :: "retry list"
  d_seq :: nat
  d_flying :: "item list"
  d_log :: "(verdict \<times> item) list"

definition backoff_s :: "nat list" where "backoff_s = [30, 120, 480]"
definition retry_max :: nat where "retry_max = length backoff_s"
definition queue_cap :: nat where "queue_cap = 500"
definition max_item_age :: real where "max_item_age = 3600"
definition brk_threshold :: nat where "brk_threshold = 5"
definition brk_cooldown :: real where "brk_cooldown = 600"
definition brk_recheck :: real where "brk_recheck = 60"

definition init_delivery :: delivery where
  "init_delivery = \<lparr> d_breakers = [], d_heap = [], d_seq = 0, d_flying = [], d_log = [] \<rparr>"

section \<open>The circuit breaker\<close>

definition new_breaker :: breaker where
  "new_breaker = \<lparr> b_fails = 0, b_opened = 0, b_probing = False \<rparr>"

definition breaker_of :: "string \<Rightarrow> (string, breaker) dict \<Rightarrow> breaker" where
  "breaker_of k m = (case dget m k of Some b \<Rightarrow> b | None \<Rightarrow> new_breaker)"

definition brk_allows :: "ts \<Rightarrow> breaker \<Rightarrow> breaker \<times> bool" where
  "brk_allows now b =
     (if b_fails b < brk_threshold then (b, True)
      else if brk_cooldown \<le> now - b_opened b \<and> \<not> b_probing b then (b\<lparr> b_probing := True \<rparr>, True)
      else (b, False))"

definition brk_success :: "breaker \<Rightarrow> breaker" where
  "brk_success b = b\<lparr> b_fails := 0, b_opened := 0, b_probing := False \<rparr>"

definition brk_failure :: "ts \<Rightarrow> breaker \<Rightarrow> breaker" where
  "brk_failure now b =
     (let n = b_fails b + 1
      in b\<lparr> b_fails := n, b_probing := False,
            b_opened := (if brk_threshold \<le> n then now else b_opened b) \<rparr>)"

definition breaker_allows :: "ts \<Rightarrow> string \<Rightarrow> delivery \<Rightarrow> delivery \<times> bool" where
  "breaker_allows now k d =
     (let (b, ok) = brk_allows now (breaker_of k (d_breakers d))
      in (d\<lparr> d_breakers := dput k b (d_breakers d) \<rparr>, ok))"

definition record_success :: "string \<Rightarrow> delivery \<Rightarrow> delivery" where
  "record_success k d =
     d\<lparr> d_breakers := dput k (brk_success (breaker_of k (d_breakers d))) (d_breakers d) \<rparr>"

definition record_failure :: "ts \<Rightarrow> string \<Rightarrow> delivery \<Rightarrow> delivery" where
  "record_failure now k d =
     d\<lparr> d_breakers := dput k (brk_failure now (breaker_of k (d_breakers d))) (d_breakers d) \<rparr>"

definition breaker_states :: "delivery \<Rightarrow> (string \<times> bool \<times> nat) list" where
  "breaker_states d = map (\<lambda>(k, b). (k, brk_threshold \<le> b_fails b, b_fails b)) (d_breakers d)"

section \<open>The retry queue\<close>

definition retry_key :: "retry \<Rightarrow> ts \<times> nat" where
  "retry_key r = (fst r, fst (snd r))"

definition retry_item :: "retry \<Rightarrow> item" where
  "retry_item r = snd (snd r)"

text \<open>The first pending entry with the least creation time.\<close>

fun oldest :: "retry list \<Rightarrow> retry option" where
  "oldest [] = None"
| "oldest (r # rs) = (case oldest rs of
       None \<Rightarrow> Some r
     | Some q \<Rightarrow> if it_created (retry_item q) < it_created (retry_item r) then Some q else Some r)"

definition make_room :: "delivery \<Rightarrow> delivery" where
  "make_room d =
     (if queue_cap \<le> length (d_heap d)
      then case oldest (d_heap d) of
             None \<Rightarrow> d
           | Some r \<Rightarrow> d\<lparr> d_heap := remove1 r (d_heap d), d_log := (Overflown, retry_item r) # d_log d \<rparr>
      else d)"

definition schedule_at :: "item \<Rightarrow> ts \<Rightarrow> delivery \<Rightarrow> delivery" where
  "schedule_at it due d =
     (let d' = make_room d; q = d_seq d' + 1
      in d'\<lparr> d_seq := q, d_heap := insort_key retry_key (due, q, it) (d_heap d') \<rparr>)"

section \<open>An attempt\<close>

definition attempt_gate :: "ts \<Rightarrow> item \<Rightarrow> delivery \<Rightarrow> delivery" where
  "attempt_gate now it d =
     (if max_item_age < now - it_created it then d\<lparr> d_log := (Expired, it) # d_log d \<rparr>
      else let (d', ok) = breaker_allows now (it_dest it) d
           in if ok then d'\<lparr> d_flying := it # d_flying d' \<rparr>
              else schedule_at it (now + brk_recheck) d')"

definition attempt_done :: "bool \<Rightarrow> ts \<Rightarrow> item \<Rightarrow> delivery \<Rightarrow> delivery" where
  "attempt_done ok now it d0 =
     (let d = d0\<lparr> d_flying := remove1 it (d_flying d0) \<rparr>
      in if ok then (record_success (it_dest it) d)\<lparr> d_log := (Delivered, it) # d_log d \<rparr>
         else let d' = record_failure now (it_dest it) d;
                  it' = it\<lparr> it_attempt := it_attempt it + 1 \<rparr>
              in if it_attempt it' \<le> retry_max
                 then schedule_at it' (now + real (backoff_s ! (it_attempt it' - 1))) d'
                 else d'\<lparr> d_log := (Exhausted, it') # d_log d' \<rparr>)"

text \<open>The worker takes the head of the queue once it is due.\<close>

definition worker_step :: "ts \<Rightarrow> delivery \<Rightarrow> delivery" where
  "worker_step now d =
     (case d_heap d of
        [] \<Rightarrow> d
      | r # rest \<Rightarrow> if now < fst r then d else attempt_gate now (retry_item r) (d\<lparr> d_heap := rest \<rparr>))"

definition new_item :: "nat \<Rightarrow> string \<Rightarrow> string \<Rightarrow> ts \<Rightarrow> item" where
  "new_item n ch dest now =
     \<lparr> it_id = n, it_channel = ch, it_dest = dest, it_attempt = 0, it_created = now \<rparr>"

text \<open>
  The steps of the pool's threads, the flusher and the worker: a submission runs its gate when the
  pool gets to it, a running send ends either way, the worker looks at the queue.
\<close>

datatype dop =
    Submit nat string string ts ts      \<comment> \<open>identity, channel, destination, creation and gate times\<close>
  | Finish item bool ts
  | Worker ts

fun dexec :: "dop \<Rightarrow> delivery \<Rightarrow> delivery" where
  "dexec (Submit n ch dest t now) d = attempt_gate now (new_item n ch dest t) d"
| "dexec (Finish it ok now) d = (if it \<in> set (d_flying d) then attempt_done ok now it d else d)"
| "dexec (Worker now) d = worker_step now d"

definition drun :: "dop list \<Rightarrow> delivery" where
  "drun ops = foldl (\<lambda>d x. dexec x d) init_delivery ops"

section \<open>The breaker's law\<close>

datatype brk_op = BAllow ts | BFail ts | BOk

fun brk_time :: "brk_op \<Rightarrow> ts option" where
  "brk_time (BAllow t) = Some t" | "brk_time (BFail t) = Some t" | "brk_time BOk = None"

text \<open>The times at which a sequence of calls lets a send through.\<close>

fun grants :: "brk_op list \<Rightarrow> breaker \<Rightarrow> ts list" where
  "grants [] b = []"
| "grants (BAllow t # xs) b =
     (let r = brk_allows t b in if snd r then t # grants xs (fst r) else grants xs (fst r))"
| "grants (BFail t # xs) b = grants xs (brk_failure t b)"
| "grants (BOk # xs) b = grants xs (brk_success b)"

fun spaced :: "real \<Rightarrow> ts list \<Rightarrow> bool" where
  "spaced g (a # b # ts) = (a + g \<le> b \<and> spaced g (b # ts))"
| "spaced g _ = True"

lemma spaced_Cons: "spaced g ts \<Longrightarrow> (ts \<noteq> [] \<Longrightarrow> a + g \<le> hd ts) \<Longrightarrow> spaced g (a # ts)"
  by (cases ts) simp_all

lemma sorted_wrt_times:
  assumes "sorted (a # List.map_filter brk_time xs)" "x \<in> set xs" "brk_time x = Some t"
  shows "a \<le> t"
  using assms by (force simp: List.map_filter_def)

lemma open_grants_after:
  assumes "sorted (now # List.map_filter brk_time xs)" "BOk \<notin> set xs" "brk_threshold \<le> b_fails b"
    and "\<not> b_probing b \<Longrightarrow> a \<le> b_opened b"
  shows "spaced brk_cooldown (grants xs b) \<and> (b_probing b \<or> a \<le> b_opened b \<longrightarrow> a \<le> now \<longrightarrow>
    grants xs b \<noteq> [] \<longrightarrow> a + brk_cooldown \<le> hd (grants xs b))"
  using assms
proof (induction xs arbitrary: b now a)
  case Nil
  then show ?case by simp
next
  case (Cons x xs)
  show ?case
  proof (cases x)
    case BOk
    then show ?thesis using Cons.prems by simp
  next
    case (BFail t)
    let ?b = "brk_failure t b"
    have t: "now \<le> t" and s: "sorted (t # List.map_filter brk_time xs)"
      using Cons.prems(1) by (simp_all add: BFail List.map_filter_simps)
    have f: "brk_threshold \<le> b_fails ?b" "b_opened ?b = t" "\<not> b_probing ?b"
      using Cons.prems(3) by (simp_all add: brk_failure_def Let_def)
    have "spaced brk_cooldown (grants xs ?b) \<and> (grants xs ?b \<noteq> [] \<longrightarrow> t + brk_cooldown \<le> hd (grants xs ?b))"
      using Cons.IH [OF s _ f(1), of t] Cons.prems(2) f(2,3) by simp
    then show ?thesis using t by (auto simp: BFail)
  next
    case (BAllow t)
    have t: "now \<le> t" and s: "sorted (t # List.map_filter brk_time xs)"
      using Cons.prems(1) by (simp_all add: BAllow List.map_filter_simps)
    have ok: "BOk \<notin> set xs" using Cons.prems(2) by simp
    show ?thesis
    proof (cases "snd (brk_allows t b)")
      case True
      let ?b = "b\<lparr> b_probing := True \<rparr>"
      from True Cons.prems(3) have c: "brk_cooldown \<le> t - b_opened b" "\<not> b_probing b" and r: "fst (brk_allows t b) = ?b"
        by (auto simp: brk_allows_def split: if_splits)
      have "spaced brk_cooldown (grants xs ?b) \<and> (grants xs ?b \<noteq> [] \<longrightarrow> t + brk_cooldown \<le> hd (grants xs ?b))"
        using Cons.IH [OF s ok, of ?b t] Cons.prems(3) by simp
      then show ?thesis
        using True r c Cons.prems(4) by (auto simp: BAllow Let_def intro: spaced_Cons)
    next
      case False
      then have r: "fst (brk_allows t b) = b" by (auto simp: brk_allows_def split: if_splits)
      have "spaced brk_cooldown (grants xs b) \<and> (b_probing b \<or> a \<le> b_opened b \<longrightarrow> a \<le> t \<longrightarrow>
        grants xs b \<noteq> [] \<longrightarrow> a + brk_cooldown \<le> hd (grants xs b))"
        using Cons.IH [OF s ok Cons.prems(3,4)] by simp
      then show ?thesis using False r t by (auto simp: BAllow Let_def)
    qed
  qed
qed

text \<open>
  While a destination keeps failing, an open breaker lets at most one send through in each
  cooldown period, however the threads interleave.
\<close>

lemma open_grants_spaced:
  assumes "sorted (List.map_filter brk_time xs)" "BOk \<notin> set xs" "brk_threshold \<le> b_fails b"
  shows "spaced brk_cooldown (grants xs b)"
proof (cases "List.map_filter brk_time xs")
  case Nil
  have "sorted (0 # List.map_filter brk_time xs)" using Nil by simp
  then show ?thesis using open_grants_after [OF _ assms(2,3), of 0 "b_opened b"] by blast
next
  case (Cons t ts)
  have "sorted (t # List.map_filter brk_time xs)" using assms(1) Cons by simp
  then show ?thesis using open_grants_after [OF _ assms(2,3), of t "b_opened b"] by blast
qed

text \<open>A success closes the breaker at once, and it takes five failures in a row to open it.\<close>

lemma closed_allows: "b_fails b < brk_threshold \<Longrightarrow> brk_allows now b = (b, True)"
  by (simp add: brk_allows_def)

lemma success_reopens: "brk_allows now (brk_success b) = (brk_success b, True)"
  by (simp add: brk_allows_def brk_success_def brk_threshold_def)

lemma failures_count: "b_fails (foldl (\<lambda>b t. brk_failure t b) b ts) = b_fails b + length ts"
  by (induction ts arbitrary: b) (simp_all add: brk_failure_def Let_def)

section \<open>Bounds and conservation\<close>

definition ticket :: "item \<Rightarrow> nat" where
  "ticket it = it_id it"

definition tickets :: "delivery \<Rightarrow> nat multiset" where
  "tickets d = image_mset (ticket \<circ> retry_item) (mset (d_heap d)) + image_mset ticket (mset (d_flying d))
     + image_mset (ticket \<circ> snd) (mset (d_log d))"

definition delivery_ok :: "delivery \<Rightarrow> bool" where
  "delivery_ok d \<longleftrightarrow> length (d_heap d) \<le> queue_cap \<and> sorted (map retry_key (d_heap d))
     \<and> (\<forall>r \<in> set (d_heap d). it_attempt (retry_item r) \<le> retry_max)
     \<and> (\<forall>it \<in> set (d_flying d). it_attempt it \<le> retry_max)
     \<and> (\<forall>(v, it) \<in> set (d_log d). it_attempt it \<le> retry_max + 1)"

lemma oldest_Some: "oldest rs = Some r \<Longrightarrow> r \<in> set rs \<and> (\<forall>q \<in> set rs. it_created (retry_item r) \<le> it_created (retry_item q))"
proof (induction rs arbitrary: r)
  case (Cons x xs)
  show ?case
  proof (cases "oldest xs")
    case None
    then have "xs = []" by (cases xs) (auto split: option.splits if_splits)
    with Cons.prems show ?thesis by simp
  next
    case (Some q)
    from Cons.IH [OF this] Cons.prems Some show ?thesis by (auto split: if_splits intro: order_trans)
  qed
qed simp

lemma oldest_None: "oldest rs = None \<longleftrightarrow> rs = []"
  by (cases rs) (auto split: option.splits)

lemma breaker_frame [simp]:
  "d_heap (fst (breaker_allows now k d)) = d_heap d" "d_flying (fst (breaker_allows now k d)) = d_flying d"
  "d_log (fst (breaker_allows now k d)) = d_log d" "d_heap (record_success k d) = d_heap d"
  "d_flying (record_success k d) = d_flying d" "d_log (record_success k d) = d_log d"
  "d_heap (record_failure now k d) = d_heap d" "d_flying (record_failure now k d) = d_flying d"
  "d_log (record_failure now k d) = d_log d"
  by (simp_all add: breaker_allows_def record_success_def record_failure_def split_beta Let_def)

lemma tickets_eq:
  "d_heap d = d_heap d' \<Longrightarrow> d_flying d = d_flying d' \<Longrightarrow> d_log d = d_log d' \<Longrightarrow> tickets d = tickets d'"
  "d_heap d = d_heap d' \<Longrightarrow> d_flying d = d_flying d' \<Longrightarrow> d_log d = d_log d' \<Longrightarrow> delivery_ok d = delivery_ok d'"
  by (simp_all add: tickets_def delivery_ok_def)

lemma image_mset_remove: "x \<in> set xs \<Longrightarrow> image_mset f (mset xs) = add_mset (f x) (image_mset f (mset xs - {#x#}))"
  by (metis image_mset_add_mset insert_DiffM set_mset_mset)

lemma make_room_tickets: "tickets (make_room d) = tickets d"
proof (cases "oldest (d_heap d)")
  case None
  then show ?thesis by (simp add: make_room_def)
next
  case (Some r)
  then show ?thesis
    using image_mset_remove [of r "d_heap d" "ticket \<circ> retry_item"] oldest_Some [OF Some]
    by (simp add: make_room_def tickets_def)
qed

lemma make_room_ok:
  assumes "delivery_ok d"
  shows "delivery_ok (make_room d)" "length (d_heap (make_room d)) < queue_cap"
proof -
  have cap: "0 < queue_cap" by (simp add: queue_cap_def)
  show "length (d_heap (make_room d)) < queue_cap"
  proof (cases "oldest (d_heap d)")
    case None
    then show ?thesis using cap by (simp add: make_room_def oldest_None)
  next
    case (Some r)
    then show ?thesis
      using assms cap oldest_Some [OF Some] by (auto simp: make_room_def delivery_ok_def length_remove1)
  qed
  show "delivery_ok (make_room d)"
  proof (cases "oldest (d_heap d)")
    case None
    then show ?thesis using assms by (simp add: make_room_def)
  next
    case (Some r)
    have "sorted (map retry_key (remove1 r (d_heap d)))"
      using assms by (intro sorted_map_remove1) (simp add: delivery_ok_def)
    moreover have "it_attempt (retry_item r) \<le> retry_max"
      using assms oldest_Some [OF Some] by (simp add: delivery_ok_def)
    ultimately show ?thesis
      using assms Some
      by (auto simp: make_room_def delivery_ok_def length_remove1 le_SucI dest: in_set_remove1 notin_set_remove1)
  qed
qed

lemma schedule_at_tickets: "tickets (schedule_at it due d) = add_mset (ticket it) (tickets d)"
  using make_room_tickets [of d] by (simp add: schedule_at_def tickets_def Let_def retry_item_def)

lemma schedule_at_ok:
  assumes "delivery_ok d" "it_attempt it \<le> retry_max"
  shows "delivery_ok (schedule_at it due d)"
  using make_room_ok [OF assms(1)] assms(2)
  by (auto simp: schedule_at_def delivery_ok_def Let_def set_insort_key sorted_insort_key retry_item_def)

lemma attempt_gate_tickets: "tickets (attempt_gate now it d) = add_mset (ticket it) (tickets d)"
proof (cases "max_item_age < now - it_created it")
  case True
  then show ?thesis by (simp add: attempt_gate_def tickets_def)
next
  case False
  let ?d = "fst (breaker_allows now (it_dest it) d)"
  have "tickets ?d = tickets d" by (rule tickets_eq) simp_all
  then show ?thesis
    using False schedule_at_tickets [of it _ ?d]
    by (simp add: attempt_gate_def split_beta Let_def) (simp add: tickets_def)
qed

lemma attempt_gate_ok:
  assumes "delivery_ok d" "it_attempt it \<le> retry_max"
  shows "delivery_ok (attempt_gate now it d)"
proof (cases "max_item_age < now - it_created it")
  case True
  then show ?thesis using assms by (simp add: attempt_gate_def delivery_ok_def)
next
  case False
  let ?d = "fst (breaker_allows now (it_dest it) d)"
  have "delivery_ok ?d" using assms(1) tickets_eq(2) [of ?d d] by simp
  then show ?thesis
    using False assms(2) schedule_at_ok [of ?d it]
    by (simp add: attempt_gate_def split_beta Let_def) (simp add: delivery_ok_def)
qed

lemma attempt_done_tickets:
  assumes "it \<in> set (d_flying d)"
  shows "tickets (attempt_done ok now it d) = tickets d"
proof -
  let ?d = "d\<lparr> d_flying := remove1 it (d_flying d) \<rparr>"
  let ?f = "record_failure now (it_dest it) ?d"
  have t: "tickets d = add_mset (ticket it) (tickets ?d)"
    using image_mset_remove [OF assms, of ticket] by (simp add: tickets_def)
  have f: "tickets ?f = tickets ?d" by (rule tickets_eq) simp_all
  have s: "tickets (record_success (it_dest it) ?d) = tickets ?d" by (rule tickets_eq) simp_all
  have k: "ticket (it\<lparr> it_attempt := n \<rparr>) = ticket it" for n by (simp add: ticket_def)
  have l: "tickets (x\<lparr> d_log := (v, i) # d_log y \<rparr>) = add_mset (ticket i) (tickets x)" if "d_log y = d_log x" for x y v i
    using that by (simp add: tickets_def)
  show ?thesis
  proof (cases ok)
    case True
    then show ?thesis using t s by (simp add: attempt_done_def Let_def l)
  next
    case False
    then show ?thesis
      using t f by (simp add: attempt_done_def Let_def schedule_at_tickets k l)
  qed
qed

lemma attempt_done_ok:
  assumes "delivery_ok d" "it \<in> set (d_flying d)"
  shows "delivery_ok (attempt_done ok now it d)"
proof -
  let ?d = "d\<lparr> d_flying := remove1 it (d_flying d) \<rparr>"
  let ?f = "record_failure now (it_dest it) ?d"
  have d: "delivery_ok ?d" using assms(1) by (auto simp: delivery_ok_def dest: notin_set_remove1)
  have f: "delivery_ok ?f" using d tickets_eq(2) [of ?f ?d] by simp
  have s: "delivery_ok (record_success (it_dest it) ?d)" using d tickets_eq(2) [of "record_success (it_dest it) ?d" ?d] by simp
  have i: "it_attempt it \<le> retry_max" using assms by (simp add: delivery_ok_def)
  show ?thesis
  proof (cases ok)
    case True
    then show ?thesis using s i by (simp add: attempt_done_def Let_def) (simp add: delivery_ok_def)
  next
    case False
    have "delivery_ok (?f\<lparr> d_log := (Exhausted, it\<lparr> it_attempt := it_attempt it + 1 \<rparr>) # d_log ?f \<rparr>)"
      using f i by (simp add: delivery_ok_def)
    then show ?thesis
      using False f schedule_at_ok [OF f, of "it\<lparr> it_attempt := it_attempt it + 1 \<rparr>"]
      by (simp add: attempt_done_def Let_def)
  qed
qed

lemma worker_step_laws:
  assumes "delivery_ok d"
  shows "delivery_ok (worker_step now d)" "tickets (worker_step now d) = tickets d"
proof -
  have "delivery_ok (worker_step now d) \<and> tickets (worker_step now d) = tickets d"
  proof (cases "d_heap d")
    case Nil
    then show ?thesis using assms by (simp add: worker_step_def)
  next
    case (Cons r rest)
    let ?d = "d\<lparr> d_heap := rest \<rparr>"
    have "delivery_ok ?d" "it_attempt (retry_item r) \<le> retry_max"
      using assms Cons by (auto simp: delivery_ok_def)
    moreover have "tickets d = add_mset (ticket (retry_item r)) (tickets ?d)" using Cons by (simp add: tickets_def)
    ultimately show ?thesis
      using assms by (simp add: worker_step_def Cons attempt_gate_ok attempt_gate_tickets)
  qed
  then show "delivery_ok (worker_step now d)" "tickets (worker_step now d) = tickets d" by auto
qed

fun submitted :: "dop list \<Rightarrow> nat list" where
  "submitted [] = []"
| "submitted (Submit n ch dest t now # xs) = n # submitted xs"
| "submitted (_ # xs) = submitted xs"

lemma dexec_laws:
  assumes "delivery_ok d"
  shows "delivery_ok (dexec x d) \<and> tickets (dexec x d) = mset (submitted [x]) + tickets d"
proof (cases x)
  case (Submit n ch dest t now)
  then show ?thesis
    using assms by (simp add: attempt_gate_ok attempt_gate_tickets new_item_def) (simp add: ticket_def)
next
  case (Finish it ok now)
  then show ?thesis using assms by (simp add: attempt_done_ok attempt_done_tickets)
next
  case (Worker now)
  then show ?thesis using assms by (simp add: worker_step_laws)
qed

lemma submitted_Cons: "mset (submitted (x # xs)) = mset (submitted [x]) + mset (submitted xs)"
  by (cases x) simp_all

lemma drun_laws_from:
  "delivery_ok d \<Longrightarrow> delivery_ok (foldl (\<lambda>d x. dexec x d) d ops)
     \<and> tickets (foldl (\<lambda>d x. dexec x d) d ops) = mset (submitted ops) + tickets d"
proof (induction ops arbitrary: d)
  case (Cons x xs)
  from dexec_laws [OF Cons.prems] Cons.IH [of "dexec x d"] submitted_Cons [of x xs] show ?case by simp
qed simp

lemma init_delivery_ok [simp]: "delivery_ok init_delivery" "tickets init_delivery = {#}"
  by (simp_all add: delivery_ok_def tickets_def init_delivery_def)

lemmas drun_laws = drun_laws_from [OF init_delivery_ok(1), unfolded init_delivery_ok(2) add_0_right, folded drun_def]

text \<open>An item ends for good after at most four sends: the first one and the three retries.\<close>

lemma exhausted_after:
  assumes "it_attempt it = retry_max" "it \<in> set (d_flying d)"
  shows "(Exhausted, it\<lparr> it_attempt := retry_max + 1 \<rparr>) \<in> set (d_log (attempt_done False now it d))"
  using assms by (simp add: attempt_done_def Let_def)

lemma backoff_schedule:
  assumes "it_attempt it < retry_max"
  shows "\<exists>r \<in> set (d_heap (attempt_done False now it d)).
    retry_item r = it\<lparr> it_attempt := it_attempt it + 1 \<rparr> \<and> fst r = now + real (backoff_s ! it_attempt it)"
  using assms by (auto simp: attempt_done_def Let_def schedule_at_def set_insort_key retry_item_def)

end
