(* ===== verification/Probes.thy ===== *)
theory Probes
  imports Prelude "HOL-Library.List_Lexorder" "HOL-Library.Char_ord"
begin

text \<open>
  Distributed probes: the registry of remote agents and their task queue (\<open>db/probes.py\<close>), the
  one-time enrolment token, the enrolment rate limit and the task messages of the agent API
  (\<open>routes/agent.py\<close>), and the liveness watchdog (\<open>monitoring/probe_watchdog.py\<close>). Tables are
  dictionaries by primary key; a database call that raises is not modelled. Random tokens enter as
  their hashes, and the identifier of a new probe as an argument.
\<close>

section \<open>Rows\<close>

record probe =
  pr_id :: string
  pr_name :: string
  pr_description :: string
  pr_status :: string
  pr_enroll_hash :: "string option"
  pr_enroll_expires :: "ts option"
  pr_token_id :: "int option"
  pr_config_version :: int
  pr_last_seen :: ts
  pr_ip :: string
  pr_agent_version :: string
  pr_protocol :: int
  pr_os :: string
  pr_caps :: string
  pr_spool :: int
  pr_skew :: real
  pr_offline_alerted :: int
  pr_build :: string
  pr_supervisor :: int
  pr_upd_state :: string
  pr_upd_target :: string
  pr_upd_campaign :: "int option"
  pr_upd_attempt :: string
  pr_upd_changed :: ts
  pr_upd_error :: string
  pr_created_at :: ts
  pr_created_by :: string

record task =
  tk_id :: int
  tk_probe :: string
  tk_type :: string
  tk_payload :: string
  tk_state :: string
  tk_progress :: string
  tk_error :: string
  tk_created_by :: string
  tk_created :: ts
  tk_dispatched :: ts
  tk_finished :: ts

record update_report =
  ur_probe :: string
  ur_campaign :: "int option"
  ur_attempt :: string
  ur_outcome :: string
  ur_target :: string
  ur_reason :: string
  ur_ts :: ts

record probe_db =
  pd_probes :: "(string, probe) dict"
  pd_tasks :: "(int, task) dict"
  pd_next_task :: int
  pd_reports :: "update_report list"

section \<open>Registry\<close>

definition db_get_probe :: "string \<Rightarrow> probe_db \<Rightarrow> probe option" where
  "db_get_probe k db = dget (pd_probes db) k"

definition db_list_probes :: "probe_db \<Rightarrow> probe list" where
  "db_list_probes db = sort_key pr_name (map snd (pd_probes db))"

definition upd_probe :: "string \<Rightarrow> (probe \<Rightarrow> probe) \<Rightarrow> probe_db \<Rightarrow> probe_db" where
  "upd_probe k f db = (case dget (pd_probes db) k of
       None \<Rightarrow> db | Some p \<Rightarrow> db\<lparr> pd_probes := dput k (f p) (pd_probes db) \<rparr>)"

definition db_create_probe :: "string \<Rightarrow> string \<Rightarrow> string \<Rightarrow> string \<Rightarrow> ts \<Rightarrow> probe_db \<Rightarrow> probe_db \<times> probe option" where
  "db_create_probe k name desc user now db =
     (if dget (pd_probes db) k \<noteq> None then (db, None)
      else let p = \<lparr> pr_id = k, pr_name = name, pr_description = desc, pr_status = ''pending'',
                pr_enroll_hash = None, pr_enroll_expires = None, pr_token_id = None, pr_config_version = 1,
                pr_last_seen = 0, pr_ip = [], pr_agent_version = [], pr_protocol = 0, pr_os = [],
                pr_caps = ''{}'', pr_spool = 0, pr_skew = 0, pr_offline_alerted = 0, pr_build = [],
                pr_supervisor = 0, pr_upd_state = [], pr_upd_target = [], pr_upd_campaign = None,
                pr_upd_attempt = [], pr_upd_changed = 0, pr_upd_error = [], pr_created_at = now,
                pr_created_by = user \<rparr>
           in (db\<lparr> pd_probes := dput k p (pd_probes db) \<rparr>, Some p))"

definition db_update_probe :: "string \<Rightarrow> string \<Rightarrow> string \<Rightarrow> probe_db \<Rightarrow> probe_db" where
  "db_update_probe k name desc = upd_probe k (\<lambda>p. p\<lparr> pr_name := name, pr_description := desc \<rparr>)"

definition db_delete_probe :: "string \<Rightarrow> probe_db \<Rightarrow> probe_db" where
  "db_delete_probe k db =
     db\<lparr> pd_tasks := filter (\<lambda>(i, t). tk_probe t \<noteq> k) (pd_tasks db), pd_probes := ddel k (pd_probes db) \<rparr>"

definition db_set_probe_enrolled :: "string \<Rightarrow> int \<Rightarrow> probe_db \<Rightarrow> probe_db" where
  "db_set_probe_enrolled k t = upd_probe k (\<lambda>p. p\<lparr> pr_status := ''enrolled'', pr_token_id := Some t \<rparr>)"

definition db_set_probe_status :: "string \<Rightarrow> string \<Rightarrow> probe_db \<Rightarrow> probe_db" where
  "db_set_probe_status k st = upd_probe k (\<lambda>p. p\<lparr> pr_status := st \<rparr>)"

definition db_bump_config_version :: "string \<Rightarrow> probe_db \<Rightarrow> probe_db \<times> int" where
  "db_bump_config_version k db =
     (let db' = upd_probe k (\<lambda>p. p\<lparr> pr_config_version := pr_config_version p + 1 \<rparr>) db
      in (db', case db_get_probe k db' of Some p \<Rightarrow> pr_config_version p | None \<Rightarrow> 0))"

definition db_set_probe_update_state :: "ts \<Rightarrow> string \<Rightarrow> string \<Rightarrow> string option \<Rightarrow> int option \<Rightarrow> string option
    \<Rightarrow> string \<Rightarrow> probe_db \<Rightarrow> probe_db" where
  "db_set_probe_update_state now k st target cid att err = upd_probe k (\<lambda>p.
     p\<lparr> pr_upd_state := st, pr_upd_changed := now,
        pr_upd_target := (case target of Some t \<Rightarrow> t | None \<Rightarrow> pr_upd_target p),
        pr_upd_campaign := (case cid of Some c \<Rightarrow> Some c | None \<Rightarrow> pr_upd_campaign p),
        pr_upd_attempt := (case att of Some a \<Rightarrow> a | None \<Rightarrow> pr_upd_attempt p),
        pr_upd_error := take 500 err \<rparr>)"

definition db_record_update_report :: "update_report \<Rightarrow> probe_db \<Rightarrow> probe_db" where
  "db_record_update_report r db = db\<lparr> pd_reports := pd_reports db @
     [r\<lparr> ur_attempt := take 64 (ur_attempt r), ur_outcome := take 32 (ur_outcome r),
         ur_target := take 64 (ur_target r), ur_reason := take 500 (ur_reason r) \<rparr>] \<rparr>"

section \<open>Enrolment tokens\<close>

definition db_set_enroll_token :: "string \<Rightarrow> string \<Rightarrow> ts \<Rightarrow> string \<Rightarrow> probe_db \<Rightarrow> probe_db" where
  "db_set_enroll_token k h expires st =
     upd_probe k (\<lambda>p. p\<lparr> pr_enroll_hash := Some h, pr_enroll_expires := Some expires, pr_status := st \<rparr>)"

text \<open>
  \<open>db_consume_enroll_token\<close> reads the row, checks it, and clears the token by a conditional update:
  two calls can both pass the read, so the two halves are separate steps.
\<close>

definition token_lookup :: "ts \<Rightarrow> string \<Rightarrow> probe_db \<Rightarrow> probe option" where
  "token_lookup now h db =
     (case find (\<lambda>p. pr_enroll_hash p = Some h) (map snd (pd_probes db)) of
        None \<Rightarrow> None
      | Some p \<Rightarrow>
          (if pr_status p = ''revoked'' then None
           else case pr_enroll_expires p of
                  None \<Rightarrow> None
                | Some e \<Rightarrow> if e < now then None else Some p))"

definition token_commit :: "string \<Rightarrow> string \<Rightarrow> probe_db \<Rightarrow> probe_db \<times> bool" where
  "token_commit k h db = (case dget (pd_probes db) k of
       None \<Rightarrow> (db, False)
     | Some p \<Rightarrow> if pr_enroll_hash p = Some h
                 then (db\<lparr> pd_probes := dput k (p\<lparr> pr_enroll_hash := None, pr_enroll_expires := None \<rparr>)
                         (pd_probes db) \<rparr>, True)
                 else (db, False))"

definition db_consume_enroll_token :: "ts \<Rightarrow> string \<Rightarrow> probe_db \<Rightarrow> probe_db \<times> probe option" where
  "db_consume_enroll_token now h db = (case token_lookup now h db of
       None \<Rightarrow> (db, None)
     | Some p \<Rightarrow> (let (db', won) = token_commit (pr_id p) h db in (db', if won then Some p else None)))"

section \<open>Check-in\<close>

text \<open>The status fields of a check-in, \<open>None\<close> where the agent sent none.\<close>

record chk_fields =
  ck_agent_version :: "string option"
  ck_protocol :: "int option"
  ck_os :: "string option"
  ck_caps :: "string option"
  ck_spool :: "int option"
  ck_skew :: "real option"
  ck_offline_alerted :: "int option"
  ck_build :: "string option"
  ck_supervisor :: "int option"

definition set_opt :: "'a option \<Rightarrow> 'a \<Rightarrow> 'a" where
  "set_opt x old = (case x of Some v \<Rightarrow> v | None \<Rightarrow> old)"

definition db_probe_checkin :: "ts \<Rightarrow> string \<Rightarrow> string \<Rightarrow> chk_fields \<Rightarrow> probe_db \<Rightarrow> probe_db" where
  "db_probe_checkin now k ip f = upd_probe k (\<lambda>p.
     p\<lparr> pr_last_seen := now, pr_ip := ip,
        pr_agent_version := set_opt (ck_agent_version f) (pr_agent_version p),
        pr_protocol := set_opt (ck_protocol f) (pr_protocol p),
        pr_os := set_opt (ck_os f) (pr_os p),
        pr_caps := set_opt (ck_caps f) (pr_caps p),
        pr_spool := set_opt (ck_spool f) (pr_spool p),
        pr_skew := set_opt (ck_skew f) (pr_skew p),
        pr_offline_alerted := set_opt (ck_offline_alerted f) (pr_offline_alerted p),
        pr_build := set_opt (ck_build f) (pr_build p),
        pr_supervisor := set_opt (ck_supervisor f) (pr_supervisor p) \<rparr>)"

section \<open>Tasks\<close>

definition task_states :: "string list" where
  "task_states = [''pending'', ''dispatched'', ''running'', ''done'', ''error'', ''cancelled'', ''expired'']"

definition upd_task :: "int \<Rightarrow> (task \<Rightarrow> task) \<Rightarrow> probe_db \<Rightarrow> probe_db" where
  "upd_task i f db = (case dget (pd_tasks db) i of
       None \<Rightarrow> db | Some t \<Rightarrow> db\<lparr> pd_tasks := dput i (f t) (pd_tasks db) \<rparr>)"

definition db_create_task :: "ts \<Rightarrow> string \<Rightarrow> string \<Rightarrow> string \<Rightarrow> string \<Rightarrow> probe_db \<Rightarrow> probe_db \<times> int" where
  "db_create_task now k ty payload user db =
     (let i = pd_next_task db
      in (db\<lparr> pd_next_task := i + 1, pd_tasks := dput i
                \<lparr> tk_id = i, tk_probe = k, tk_type = ty, tk_payload = payload, tk_state = ''pending'',
                  tk_progress = ''{}'', tk_error = [], tk_created_by = user, tk_created = now,
                  tk_dispatched = 0, tk_finished = 0 \<rparr> (pd_tasks db) \<rparr>, i))"

definition db_get_task :: "int \<Rightarrow> probe_db \<Rightarrow> task option" where
  "db_get_task i db = dget (pd_tasks db) i"

text \<open>Pending tasks of the probe, in the order of their ids, flipped to \<open>dispatched\<close>.\<close>

definition pending_of :: "string \<Rightarrow> probe_db \<Rightarrow> task list" where
  "pending_of k db = sort_key tk_id (filter (\<lambda>t. tk_probe t = k \<and> tk_state t = ''pending'') (map snd (pd_tasks db)))"

definition mark_dispatched :: "ts \<Rightarrow> task \<Rightarrow> task" where
  "mark_dispatched now t = (if tk_state t = ''pending'' then t\<lparr> tk_state := ''dispatched'', tk_dispatched := now \<rparr> else t)"

definition db_dispatch_pending_tasks :: "ts \<Rightarrow> string \<Rightarrow> probe_db \<Rightarrow> probe_db \<times> task list" where
  "db_dispatch_pending_tasks now k db =
     (let ts = pending_of k db
      in (foldl (\<lambda>db t. upd_task (tk_id t) (mark_dispatched now) db) db ts,
          map (\<lambda>t. t\<lparr> tk_state := ''dispatched'' \<rparr>) ts))"

definition db_set_task_state :: "ts \<Rightarrow> int \<Rightarrow> string \<Rightarrow> string \<Rightarrow> string option \<Rightarrow> probe_db \<Rightarrow> probe_db" where
  "db_set_task_state now i st err prog db =
     (if st \<notin> set task_states then db
      else upd_task i (\<lambda>t. t\<lparr> tk_state := st,
              tk_error := (if err = [] then tk_error t else take 512 err),
              tk_progress := (case prog of Some p \<Rightarrow> p | None \<Rightarrow> tk_progress t),
              tk_finished := (if st \<in> {''done'', ''error'', ''cancelled'', ''expired''} then now else tk_finished t) \<rparr>) db)"

definition db_expire_stale_tasks :: "ts \<Rightarrow> real \<Rightarrow> probe_db \<Rightarrow> probe_db" where
  "db_expire_stale_tasks now age db =
     db\<lparr> pd_tasks := map (\<lambda>(i, t). (i, if tk_state t \<in> {''pending'', ''dispatched''} \<and> tk_created t < now - age
           then t\<lparr> tk_state := ''expired'', tk_finished := now \<rparr> else t)) (pd_tasks db) \<rparr>"

text \<open>One task entry of a check-in (\<open>_apply_task_progress\<close>): progress, or an error.\<close>

definition apply_task_entry :: "ts \<Rightarrow> string \<Rightarrow> int \<times> string \<times> string option \<times> string \<Rightarrow> probe_db \<Rightarrow> probe_db" where
  "apply_task_entry now k e db =
     (let (i, st, prog, err) = e
      in case db_get_task i db of
           None \<Rightarrow> db
         | Some t \<Rightarrow>
             (if tk_probe t \<noteq> k then db
              else if st = ''running'' \<and> tk_state t \<in> {''dispatched'', ''running''}
              then db_set_task_state now i ''running'' [] (map_option (take 2048) prog) db
              else if st = ''error'' \<and> tk_state t \<notin> {''done'', ''error'', ''cancelled''}
              then db_set_task_state now i ''error'' (take 512 (if err = [] then ''task failed'' else err)) None db
              else db))"

definition apply_task_progress :: "ts \<Rightarrow> string \<Rightarrow> (int \<times> string \<times> string option \<times> string) list \<Rightarrow> probe_db
    \<Rightarrow> probe_db" where
  "apply_task_progress now k es db = foldl (\<lambda>db e. apply_task_entry now k e db) db (take 50 es)"

text \<open>\<open>POST /api/agent/tasks/<id>/result\<close>: the status code and the new table.\<close>

definition task_result :: "ts \<Rightarrow> string \<Rightarrow> int \<Rightarrow> nat \<Rightarrow> bool \<Rightarrow> string \<Rightarrow> probe_db \<Rightarrow> probe_db \<times> nat" where
  "task_result now k i nrows fin err db = (case db_get_task i db of
       None \<Rightarrow> (db, 404)
     | Some t \<Rightarrow>
         (if tk_probe t \<noteq> k then (db, 404)
          else if tk_state t \<in> {''done'', ''cancelled'', ''expired''} then (db, 409)
          else if 2000 < nrows then (db, 400)
          else if fin \<or> err \<noteq> []
          then (db_set_task_state now i (if err \<noteq> [] then ''error'' else ''done'') (take 512 err) None db, 200)
          else if tk_state t \<noteq> ''running'' then (db_set_task_state now i ''running'' [] None db, 200)
          else (db, 200)))"

section \<open>Enrolment rate limit\<close>

definition enroll_window :: real where "enroll_window = 60"
definition enroll_max :: nat where "enroll_max = 5"

definition enroll_rate_limited :: "ts \<Rightarrow> string \<Rightarrow> (string, ts list) dict \<Rightarrow> (string, ts list) dict \<times> bool" where
  "enroll_rate_limited now ip m =
     (let mine = filter (\<lambda>t. now - t < enroll_window) (case dget m ip of Some l \<Rightarrow> l | None \<Rightarrow> []);
          m1 = filter (\<lambda>(k, v). v \<noteq> [] \<or> k = ip) (dput ip mine m)
      in if enroll_max \<le> length mine then (m1, True) else (dput ip (mine @ [now]) m1, False))"

section \<open>The watchdog\<close>

datatype probe_event = ProbeOffline string | ProbeOnline string

definition offline_after :: real where "offline_after = 35"
definition task_expire_s :: real where "task_expire_s = 3600"

definition startup_holdoff :: "real option \<Rightarrow> real" where
  "startup_holdoff grace = max (offline_after + 10) (case grace of Some g \<Rightarrow> g | None \<Rightarrow> 60)"

definition sweep_one :: "ts \<Rightarrow> probe_db \<times> probe_event list \<Rightarrow> probe \<Rightarrow> probe_db \<times> probe_event list" where
  "sweep_one now st p =
     (if pr_status p \<noteq> ''enrolled'' then st
      else if pr_last_seen p = 0 then st
      else if now - pr_last_seen p > offline_after \<and> pr_offline_alerted p = 0
      then (upd_probe (pr_id p) (\<lambda>q. q\<lparr> pr_offline_alerted := 1 \<rparr>) (fst st), snd st @ [ProbeOffline (pr_id p)])
      else st)"

definition sweep :: "ts \<Rightarrow> real \<Rightarrow> real option \<Rightarrow> probe_db \<Rightarrow> probe_db \<times> probe_event list" where
  "sweep now uptime grace db =
     (let (db1, out) = foldl (sweep_one now) (db, []) (if uptime < startup_holdoff grace then [] else db_list_probes db)
      in (db_expire_stale_tasks now task_expire_s db1, out))"

text \<open>The registry part of a check-in that reached the handler (\<open>p\<close> is the row read on entry).\<close>

definition checkin_registry :: "ts \<Rightarrow> probe \<Rightarrow> string \<Rightarrow> chk_fields \<Rightarrow> probe_db \<Rightarrow> probe_db \<times> probe_event list" where
  "checkin_registry now p ip f db =
     (let was = (now - pr_last_seen p > 60 \<or> pr_offline_alerted p \<noteq> 0);
          f' = (if pr_offline_alerted p \<noteq> 0 then f\<lparr> ck_offline_alerted := Some 0 \<rparr> else f)
      in (db_probe_checkin now (pr_id p) ip f' db, if was then [ProbeOnline (pr_id p)] else []))"

section \<open>Laws\<close>

definition registry_wf :: "probe_db \<Rightarrow> bool" where
  "registry_wf db \<longleftrightarrow> distinct (map fst (pd_probes db)) \<and> (\<forall>(k, p) \<in> set (pd_probes db). pr_id p = k)"

lemma upd_probe_get:
  "db_get_probe j (upd_probe k f db) = (if j = k then map_option f (db_get_probe k db) else db_get_probe j db)"
  by (simp add: upd_probe_def db_get_probe_def dict_simps split: option.splits)

lemma set_dput: "set (dput k v m) \<subseteq> insert (k, v) (set m)"
  by (induction m) auto

lemma upd_probe_wf:
  assumes "registry_wf db" "\<And>p. pr_id (f p) = pr_id p"
  shows "registry_wf (upd_probe k f db)"
proof (cases "dget (pd_probes db) k")
  case None
  then show ?thesis using assms by (simp add: upd_probe_def)
next
  case (Some p)
  have "pr_id p = k" using assms(1) map_of_SomeD [OF Some] by (auto simp: registry_wf_def)
  then show ?thesis
    using assms set_dput [of k "f p" "pd_probes db"]
    by (auto simp: registry_wf_def upd_probe_def Some distinct_dput)
qed

text \<open>The token is used once: whoever commits second, after any interleaving, is refused.\<close>

lemma token_commit_once:
  assumes "token_commit k h db = (db', True)"
  shows "token_commit k h db' = (db', False)" and "db_get_probe k db' \<noteq> None"
  using assms by (auto simp: token_commit_def db_get_probe_def dict_simps split: option.splits if_splits)

text \<open>A trace of committing calls and arming ones: as many successes as arms, at most one more.\<close>

datatype tok_op = TArm string string ts string | TCommit string string | TTouch string "probe \<Rightarrow> probe"

fun tok_exec :: "tok_op \<Rightarrow> probe_db \<Rightarrow> probe_db" where
  "tok_exec (TArm k h e st) db = db_set_enroll_token k h e st db"
| "tok_exec (TCommit k h) db = fst (token_commit k h db)"
| "tok_exec (TTouch k f) db = upd_probe k (\<lambda>p. (f p)\<lparr> pr_enroll_hash := pr_enroll_hash p, pr_id := pr_id p \<rparr>) db"

fun wins :: "string \<Rightarrow> string \<Rightarrow> tok_op list \<Rightarrow> probe_db \<Rightarrow> nat" where
  "wins k h [] db = 0"
| "wins k h (x # xs) db = (if x = TCommit k h \<and> snd (token_commit k h db) then 1 else 0) + wins k h xs (tok_exec x db)"

fun arms :: "string \<Rightarrow> string \<Rightarrow> tok_op list \<Rightarrow> nat" where
  "arms k h [] = 0"
| "arms k h (TArm j g e st # xs) = (if j = k \<and> g = h then 1 else 0) + arms k h xs"
| "arms k h (_ # xs) = arms k h xs"

definition armed :: "string \<Rightarrow> string \<Rightarrow> probe_db \<Rightarrow> nat" where
  "armed k h db = (case db_get_probe k db of Some p \<Rightarrow> if pr_enroll_hash p = Some h then 1 else 0 | None \<Rightarrow> 0)"

lemma wins_step:
  "(if x = TCommit k h \<and> snd (token_commit k h db) then 1 else 0) + armed k h (tok_exec x db)
     \<le> arms k h [x] + armed k h db"
proof (cases x)
  case (TArm j g e st)
  then show ?thesis
    by (auto simp: armed_def db_set_enroll_token_def upd_probe_get split: option.splits)
next
  case (TCommit j g)
  then show ?thesis
    by (auto simp: armed_def token_commit_def db_get_probe_def dict_simps split: option.splits)
next
  case (TTouch j f)
  then show ?thesis
    by (auto simp: armed_def upd_probe_get split: option.splits)
qed

lemma arms_Cons: "arms k h (x # xs) = arms k h [x] + arms k h xs"
  by (cases x) simp_all

lemma token_single_use: "wins k h xs db \<le> arms k h xs + armed k h db"
proof (induction xs arbitrary: db)
  case (Cons x xs)
  from Cons [of "tok_exec x db"] wins_step [of x k h db] arms_Cons [of k h x xs] show ?case
    by (simp only: wins.simps)
qed simp

lemma consume_returns:
  assumes "registry_wf db" "db_consume_enroll_token now h db = (db', Some p)"
  shows "db_get_probe (pr_id p) db = Some p \<and> pr_enroll_hash p = Some h \<and> pr_status p \<noteq> ''revoked''
    \<and> (\<exists>e. pr_enroll_expires p = Some e \<and> now \<le> e)
    \<and> map_option pr_enroll_hash (db_get_probe (pr_id p) db') = Some None"
proof -
  from assms(2) have l: "token_lookup now h db = Some p" and w: "token_commit (pr_id p) h db = (db', True)"
    by (auto simp: db_consume_enroll_token_def split: option.splits prod.splits if_splits)
  from l have f: "find (\<lambda>p. pr_enroll_hash p = Some h) (map snd (pd_probes db)) = Some p"
    and r: "pr_status p \<noteq> ''revoked''" "\<exists>e. pr_enroll_expires p = Some e \<and> now \<le> e"
    by (auto simp: token_lookup_def split: option.splits if_splits)
  from find_SomeD [OF f] obtain k where k: "(k, p) \<in> set (pd_probes db)" "pr_enroll_hash p = Some h" by auto
  with assms(1) have "db_get_probe (pr_id p) db = Some p"
    by (auto simp: registry_wf_def db_get_probe_def)
  then show ?thesis using k r w by (auto simp: token_commit_def db_get_probe_def dict_simps)
qed

text \<open>A finished task stays finished whatever agents send and however often the watchdog runs.\<close>

definition closed_state :: "string \<Rightarrow> bool" where
  "closed_state st \<longleftrightarrow> st \<in> {''done'', ''cancelled''}"

lemma upd_task_get:
  "db_get_task j (upd_task i f db) = (if j = i then map_option f (db_get_task i db) else db_get_task j db)"
  by (simp add: upd_task_def db_get_task_def dict_simps split: option.splits)

lemma set_task_state_get:
  "j \<noteq> i \<Longrightarrow> db_get_task j (db_set_task_state now i st err prog db) = db_get_task j db"
  by (simp add: db_set_task_state_def upd_task_get)

lemma apply_task_entry_closed:
  assumes "db_get_task j db = Some t" "closed_state (tk_state t)"
  shows "db_get_task j (apply_task_entry now k e db) = Some t"
proof (cases e)
  case (fields i st prog err)
  then show ?thesis
    using assms set_task_state_get
    by (cases "i = j") (auto simp: apply_task_entry_def closed_state_def split: option.splits)
qed

lemma apply_task_progress_closed:
  assumes "db_get_task j db = Some t" "closed_state (tk_state t)"
  shows "db_get_task j (apply_task_progress now k es db) = Some t"
proof -
  have "db_get_task j db = Some t \<Longrightarrow> db_get_task j (foldl (\<lambda>db e. apply_task_entry now k e db) db xs) = Some t" for xs db
    by (induction xs arbitrary: db) (simp_all add: apply_task_entry_closed assms(2))
  then show ?thesis using assms(1) by (simp add: apply_task_progress_def)
qed

lemma task_result_closed:
  assumes "db_get_task j db = Some t" "closed_state (tk_state t)"
  shows "db_get_task j (fst (task_result now k i nrows fin err db)) = Some t"
proof (cases "i = j")
  case True
  then show ?thesis using assms by (auto simp: task_result_def closed_state_def)
next
  case False
  then show ?thesis
    using assms set_task_state_get [of j i] by (auto simp: task_result_def split: option.splits)
qed

lemma expire_closed:
  assumes "db_get_task j db = Some t" "closed_state (tk_state t)"
  shows "db_get_task j (db_expire_stale_tasks now age db) = Some t"
  using assms by (auto simp: db_get_task_def db_expire_stale_tasks_def map_of_map closed_state_def)

lemma mark_dispatched_closed: "closed_state (tk_state t) \<Longrightarrow> mark_dispatched now t = t"
  by (auto simp: mark_dispatched_def closed_state_def)

lemma dispatch_closed:
  assumes "db_get_task j db = Some t" "closed_state (tk_state t)"
  shows "db_get_task j (fst (db_dispatch_pending_tasks now k db)) = Some t"
proof -
  have "db_get_task j db = Some t \<Longrightarrow>
      db_get_task j (foldl (\<lambda>db t. upd_task (tk_id t) (mark_dispatched now) db) db ts) = Some t" for ts db
    by (induction ts arbitrary: db) (simp, metis (no_types, lifting) assms(2) foldl_Cons mark_dispatched_closed
        map_option_eq_Some upd_task_get)
  then show ?thesis using assms(1) by (simp add: db_dispatch_pending_tasks_def Let_def)
qed

text \<open>A task is handed out once: after the hand-out the probe has no pending task left.\<close>

definition tasks_wf :: "probe_db \<Rightarrow> bool" where
  "tasks_wf db \<longleftrightarrow> distinct (map fst (pd_tasks db)) \<and> (\<forall>(i, t) \<in> set (pd_tasks db). tk_id t = i)"

lemma tasks_wf_get: "tasks_wf db \<Longrightarrow> t \<in> set (map snd (pd_tasks db)) \<longleftrightarrow> db_get_task (tk_id t) db = Some t"
  unfolding tasks_wf_def db_get_task_def by (rule keyed_mem) auto

lemma upd_task_wf:
  assumes "tasks_wf db" "\<And>t. tk_id (f t) = tk_id t"
  shows "tasks_wf (upd_task i f db)"
proof (cases "dget (pd_tasks db) i")
  case None
  then show ?thesis using assms by (simp add: upd_task_def)
next
  case (Some t)
  have "tk_id t = i" using assms(1) map_of_SomeD [OF Some] by (auto simp: tasks_wf_def)
  then show ?thesis
    using assms set_dput [of i "f t" "pd_tasks db"]
    by (auto simp: tasks_wf_def upd_task_def Some distinct_dput)
qed

lemma mark_fold:
  assumes "tasks_wf db"
  shows "tasks_wf (foldl (\<lambda>db t. upd_task (tk_id t) (mark_dispatched now) db) db ts)
    \<and> (\<forall>j. db_get_task j (foldl (\<lambda>db t. upd_task (tk_id t) (mark_dispatched now) db) db ts)
          = (if j \<in> tk_id ` set ts then map_option (mark_dispatched now) (db_get_task j db) else db_get_task j db))"
  using assms
proof (induction ts arbitrary: db)
  case (Cons t ts)
  let ?d = "upd_task (tk_id t) (mark_dispatched now) db"
  have wf: "tasks_wf ?d" using Cons.prems by (intro upd_task_wf) (simp_all add: mark_dispatched_def)
  have idem: "mark_dispatched now (mark_dispatched now u) = mark_dispatched now u" for u
    by (simp add: mark_dispatched_def)
  from Cons.IH [OF wf] wf show ?case
    by (auto simp: upd_task_get option.map_comp comp_def idem)
qed simp

lemma mark_not_pending: "tk_state (mark_dispatched now t) \<noteq> ''pending''"
  by (simp add: mark_dispatched_def)

lemma dispatch_empties:
  assumes "tasks_wf db"
  shows "snd (db_dispatch_pending_tasks now' k (fst (db_dispatch_pending_tasks now k db))) = []"
proof -
  let ?db = "fst (db_dispatch_pending_tasks now k db)"
  note mf = mark_fold [OF assms, of now "pending_of k db"]
  have wf: "tasks_wf ?db" and g: "db_get_task j ?db
      = (if j \<in> tk_id ` set (pending_of k db) then map_option (mark_dispatched now) (db_get_task j db) else db_get_task j db)" for j
    using mf by (simp_all add: db_dispatch_pending_tasks_def Let_def)
  have "\<not> (tk_probe t = k \<and> tk_state t = ''pending'')" if "t \<in> set (map snd (pd_tasks ?db))" for t
  proof (cases "tk_id t \<in> tk_id ` set (pending_of k db)")
    case True
    then have "map_option (mark_dispatched now) (db_get_task (tk_id t) db) = Some t"
      using g [of "tk_id t"] tasks_wf_get [OF wf, of t] that by (simp only: if_True)
    then show ?thesis using mark_not_pending by (cases "db_get_task (tk_id t) db") auto
  next
    case False
    then have "db_get_task (tk_id t) db = Some t" using g tasks_wf_get [OF wf, of t] that by simp
    with False tasks_wf_get [OF assms, of t] show ?thesis by (auto simp: pending_of_def)
  qed
  then have "pending_of k ?db = []" by (auto simp: pending_of_def filter_empty_conv)
  then show ?thesis by (simp add: db_dispatch_pending_tasks_def Let_def)
qed

text \<open>The watchdog reports a silence once: a second sweep before the next check-in is quiet.\<close>

definition silent :: "ts \<Rightarrow> probe \<Rightarrow> bool" where
  "silent now p \<longleftrightarrow> pr_status p = ''enrolled'' \<and> pr_last_seen p \<noteq> 0 \<and> offline_after < now - pr_last_seen p
     \<and> pr_offline_alerted p = 0"

lemma sweep_one_alt:
  "sweep_one now st p = (if silent now p
     then (upd_probe (pr_id p) (\<lambda>q. q\<lparr> pr_offline_alerted := 1 \<rparr>) (fst st), snd st @ [ProbeOffline (pr_id p)]) else st)"
  by (auto simp: sweep_one_def silent_def)

lemma sweep_fold_out:
  "snd (foldl (sweep_one now) (db, out) ps) = out @ map (\<lambda>p. ProbeOffline (pr_id p)) (filter (silent now) ps)"
  by (induction ps arbitrary: db out) (simp_all add: sweep_one_alt)

lemma sweep_fold_db:
  "db_get_probe k (fst (foldl (sweep_one now) (db, out) ps))
     = (if k \<in> pr_id ` set (filter (silent now) ps) then map_option (\<lambda>q. q\<lparr> pr_offline_alerted := 1 \<rparr>) (db_get_probe k db)
        else db_get_probe k db)"
proof (induction ps arbitrary: db out)
  case (Cons p ps)
  have "map_option (\<lambda>q. q\<lparr> pr_offline_alerted := 1 \<rparr>) (map_option (\<lambda>q. q\<lparr> pr_offline_alerted := 1 \<rparr>) x)
      = map_option (\<lambda>q. q\<lparr> pr_offline_alerted := 1 \<rparr>) x" for x :: "probe option"
    by (cases x) simp_all
  with Cons show ?case by (simp add: sweep_one_alt upd_probe_get)
qed simp

lemma sweep_out:
  "snd (sweep now up grace db) = (if up < startup_holdoff grace then []
     else map (\<lambda>p. ProbeOffline (pr_id p)) (filter (silent now) (db_list_probes db)))"
  by (simp add: sweep_def split_beta Let_def sweep_fold_out)

lemma get_in_list: "registry_wf db \<Longrightarrow> p \<in> set (db_list_probes db) \<longleftrightarrow> db_get_probe (pr_id p) db = Some p"
  unfolding registry_wf_def db_get_probe_def db_list_probes_def set_sort by (rule keyed_mem) auto

lemma sweep_probes: "pd_probes (fst (sweep now up grace db))
    = pd_probes (fst (foldl (sweep_one now) (db, []) (if up < startup_holdoff grace then [] else db_list_probes db)))"
  by (simp add: sweep_def split_beta Let_def db_expire_stale_tasks_def)

lemma sweep_wf: "registry_wf db \<Longrightarrow> registry_wf (fst (sweep now up grace db))"
proof -
  have "registry_wf db \<Longrightarrow> registry_wf (fst (foldl (sweep_one now) (db, out) ps))" for db out ps
    by (induction ps arbitrary: db out) (simp_all add: sweep_one_alt upd_probe_wf)
  moreover assume "registry_wf db"
  ultimately show ?thesis unfolding registry_wf_def sweep_probes by blast
qed

lemma sweep_once:
  assumes "registry_wf db" "startup_holdoff grace \<le> up"
  shows "filter (silent now) (db_list_probes (fst (sweep now up grace db))) = []"
proof -
  let ?db = "fst (sweep now up grace db)"
  have g: "db_get_probe k ?db = (if k \<in> pr_id ` set (filter (silent now) (db_list_probes db))
      then map_option (\<lambda>q. q\<lparr> pr_offline_alerted := 1 \<rparr>) (db_get_probe k db) else db_get_probe k db)" for k
    using sweep_fold_db [of k now db "[]" "db_list_probes db"] assms(2)
    by (simp add: db_get_probe_def sweep_probes)
  have "\<not> silent now p" if "p \<in> set (db_list_probes ?db)" for p
  proof (cases "pr_id p \<in> pr_id ` set (filter (silent now) (db_list_probes db))")
    case True
    then have "map_option (\<lambda>q. q\<lparr> pr_offline_alerted := 1 \<rparr>) (db_get_probe (pr_id p) db) = Some p"
      using g [of "pr_id p"] get_in_list [OF sweep_wf [OF assms(1)], of p now up grace] that by (simp only: if_True)
    then show ?thesis by (cases "db_get_probe (pr_id p) db") (auto simp: silent_def)
  next
    case False
    then have "db_get_probe (pr_id p) db = Some p"
      using g [of "pr_id p"] get_in_list [OF sweep_wf [OF assms(1)], of p now up grace] that by simp
    then have "p \<in> set (db_list_probes db)" using get_in_list [OF assms(1)] by blast
    with False show ?thesis by auto
  qed
  then show ?thesis by (simp add: filter_empty_conv)
qed

lemma sweep_reports:
  assumes "registry_wf db" "startup_holdoff grace \<le> up"
  shows "ProbeOffline k \<in> set (snd (sweep now up grace db)) \<longleftrightarrow> (\<exists>p. db_get_probe k db = Some p \<and> silent now p)"
proof -
  have "pr_id p = k" if "db_get_probe k db = Some p" for p
    using assms(1) map_of_SomeD [OF that [unfolded db_get_probe_def]] by (auto simp: registry_wf_def)
  then show ?thesis
    using assms get_in_list [OF assms(1)] by (auto simp: sweep_out)
qed

text \<open>The rate limit: among the accepted attempts of one address, no six lie within a minute.\<close>

fun accepted :: "(ts \<times> string) list \<Rightarrow> (string, ts list) dict \<Rightarrow> (ts \<times> string) list" where
  "accepted [] m = []"
| "accepted ((t, ip) # xs) m =
     (let r = enroll_rate_limited t ip m in (if snd r then [] else [(t, ip)]) @ accepted xs (fst r))"

definition recent :: "ts \<Rightarrow> ts list \<Rightarrow> ts list" where
  "recent now l = filter (\<lambda>t. now - t < enroll_window) l"

definition log_of :: "(string, ts list) dict \<Rightarrow> string \<Rightarrow> ts list" where
  "log_of m ip = (case dget m ip of Some l \<Rightarrow> l | None \<Rightarrow> [])"

lemma filter_dget:
  "distinct (map fst m) \<Longrightarrow> dget (filter (\<lambda>(k, v). P k v) m) j = (case dget m j of Some v \<Rightarrow> if P j v then Some v else None | None \<Rightarrow> None)"
proof (induction m)
  case (Cons x xs)
  obtain k v where x: "x = (k, v)" by (cases x)
  have n: "dget xs k = None" using Cons.prems x by (simp add: map_of_eq_None_iff)
  from Cons x n show ?case by (cases "j = k") auto
qed simp

lemma limiter_step:
  assumes "distinct (map fst m)"
  shows "distinct (map fst (fst (enroll_rate_limited now ip m)))"
    and "snd (enroll_rate_limited now ip m) \<longleftrightarrow> enroll_max \<le> length (recent now (log_of m ip))"
    and "log_of (fst (enroll_rate_limited now ip m)) j
       = (if j = ip then recent now (log_of m ip) @ (if snd (enroll_rate_limited now ip m) then [] else [now])
          else log_of m j)"
proof -
  let ?mine = "recent now (log_of m ip)"
  let ?m1 = "filter (\<lambda>(k, v). v \<noteq> [] \<or> k = ip) (dput ip ?mine m)"
  have d: "distinct (map fst (dput ip ?mine m))" using assms by (rule distinct_dput)
  have d1: "distinct (map fst ?m1)" using d by (rule distinct_map_filter)
  have e: "enroll_rate_limited now ip m
      = (if enroll_max \<le> length ?mine then (?m1, True) else (dput ip (?mine @ [now]) ?m1, False))"
    by (simp add: enroll_rate_limited_def recent_def log_of_def Let_def)
  show "distinct (map fst (fst (enroll_rate_limited now ip m)))" using d1 e by (simp add: distinct_dput)
  show "snd (enroll_rate_limited now ip m) \<longleftrightarrow> enroll_max \<le> length ?mine" using e by simp
  have g: "dget ?m1 j = (case dget (dput ip ?mine m) j of Some v \<Rightarrow> if v \<noteq> [] \<or> j = ip then Some v else None | None \<Rightarrow> None)" for j
    using filter_dget [OF d, of "\<lambda>k v. v \<noteq> [] \<or> k = ip" j] .
  show "log_of (fst (enroll_rate_limited now ip m)) j = (if j = ip then ?mine @ (if snd (enroll_rate_limited now ip m) then [] else [now])
      else log_of m j)"
    using g [of j] e by (cases "j = ip") (auto simp: log_of_def dict_simps split: option.splits)
qed

definition times_of :: "string \<Rightarrow> (ts \<times> string) list \<Rightarrow> ts list" where
  "times_of ip acc = map fst (filter (\<lambda>a. snd a = ip) acc)"

definition limited :: "(ts \<times> string) list \<Rightarrow> bool" where
  "limited acc \<longleftrightarrow> (\<forall>n < length acc. length (recent (fst (acc ! n)) (times_of (snd (acc ! n)) (take (Suc n) acc))) \<le> enroll_max)"

lemma limited_snoc:
  "limited (acc @ [(t, ip)]) \<longleftrightarrow> limited acc \<and> length (recent t (times_of ip (acc @ [(t, ip)]))) \<le> enroll_max"
  by (auto simp: limited_def less_Suc_eq nth_append)

lemma recent_recent: "now \<le> t \<Longrightarrow> recent t (recent now l) = recent t l"
  by (induction l) (auto simp: recent_def)

lemma recent_Nil: "recent t [] = []"
  by (simp add: recent_def)

lemma recent_append: "recent t (a @ b) = recent t a @ recent t b"
  by (simp add: recent_def)

lemma accepted_limited:
  assumes "distinct (map fst m)" "limited acc" "sorted (now # map fst xs)"
    and "\<And>t ip. now \<le> t \<Longrightarrow> recent t (log_of m ip) = recent t (times_of ip acc)"
  shows "limited (acc @ accepted xs m)"
  using assms
proof (induction xs arbitrary: m acc now)
  case Nil
  then show ?case by simp
next
  case (Cons x xs)
  obtain t ip where x: "x = (t, ip)" by (cases x)
  let ?r = "enroll_rate_limited t ip m"
  let ?acc = "acc @ (if snd ?r then [] else [(t, ip)])"
  note st = limiter_step [OF Cons.prems(1), of t ip]
  have le: "now \<le> t" and so: "sorted (t # map fst xs)" using Cons.prems(3) x by simp_all
  have lim: "limited ?acc"
  proof (cases "snd ?r")
    case True
    then show ?thesis using Cons.prems(2) by simp
  next
    case False
    then have "length (recent t (times_of ip acc)) < enroll_max"
      using st(2) Cons.prems(4) [OF le, of ip] by simp
    then have "length (recent t (times_of ip (acc @ [(t, ip)]))) \<le> enroll_max"
      by (simp add: times_of_def recent_append) (simp add: recent_def)
    then show ?thesis using False Cons.prems(2) by (simp add: limited_snoc)
  qed
  have log: "recent u (log_of (fst ?r) j) = recent u (times_of j ?acc)" if u: "t \<le> u" for u j
    using st(3) [of j] Cons.prems(4) [of u j] le u
    by (cases "snd ?r") (auto simp: recent_append recent_recent times_of_def recent_Nil)
  have "limited (?acc @ accepted xs (fst ?r))" by (rule Cons.IH [OF st(1) lim so log])
  then show ?case by (simp add: x Let_def)
qed

lemma enroll_limit:
  assumes "sorted (map fst xs)"
  shows "limited (accepted xs [])"
proof (cases xs)
  case (Cons x ys)
  have "sorted (fst x # map fst xs)" using assms Cons by simp
  then have "limited ([] @ accepted xs [])"
    by (rule accepted_limited [rotated 2]) (simp_all add: limited_def log_of_def times_of_def)
  then show ?thesis by simp
qed (simp add: limited_def)

end
