(* ===== verification/Rollout.thy ===== *)
theory Rollout
  imports Probes
begin

text \<open>
  Staged rollout of agent updates: the campaign tables of \<open>db/probes.py\<close>, the engine
  \<open>monitoring/update_orchestrator.py\<close> that the watchdog drives, the launch and abort routes
  (\<open>routes/probes.py\<close>) and the agents' reports (\<open>routes/agent.py\<close>). One pass over one campaign is a
  step; \<open>ro_sent\<close> records the update tasks the engine created, by campaign and probe. The release
  payload (its build id and hash) is an argument of the launch.
\<close>

section \<open>Tables\<close>

record campaign =
  cg_id :: int
  cg_name :: string
  cg_target :: string
  cg_sha :: string
  cg_canary :: int
  cg_batch :: int
  cg_halt :: bool
  cg_window :: int
  cg_probation :: int
  cg_state :: string
  cg_note :: string
  cg_by :: string
  cg_created :: ts
  cg_started :: ts
  cg_finished :: ts

record cprobe =
  cp_campaign :: int
  cp_probe :: string
  cp_state :: string
  cp_attempt :: string
  cp_queued :: ts
  cp_started :: ts
  cp_finished :: ts
  cp_error :: string

record rollout =
  ro_db :: probe_db
  ro_campaigns :: "(int, campaign) dict"
  ro_next :: int
  ro_rows :: "cprobe list"              \<comment> \<open>\<open>campaign_probes\<close>, in the order of the ids\<close>
  ro_sent :: "(int \<times> string) list"

definition db_create_campaign :: "ts \<Rightarrow> string \<Rightarrow> string \<Rightarrow> string \<Rightarrow> int \<Rightarrow> int \<Rightarrow> bool \<Rightarrow> int \<Rightarrow> int \<Rightarrow> string
    \<Rightarrow> string \<Rightarrow> rollout \<Rightarrow> rollout \<times> int" where
  "db_create_campaign now name build sha canary batch halt window probation note user r =
     (let i = ro_next r
      in (r\<lparr> ro_next := i + 1, ro_campaigns := dput i
               \<lparr> cg_id = i, cg_name = name, cg_target = build, cg_sha = sha, cg_canary = canary,
                 cg_batch = batch, cg_halt = halt, cg_window = window, cg_probation = probation,
                 cg_state = ''running'', cg_note = note, cg_by = user, cg_created = now,
                 cg_started = now, cg_finished = 0 \<rparr> (ro_campaigns r) \<rparr>, i))"

definition db_add_campaign_probes :: "ts \<Rightarrow> int \<Rightarrow> string list \<Rightarrow> rollout \<Rightarrow> rollout" where
  "db_add_campaign_probes now cid ks r =
     r\<lparr> ro_rows := ro_rows r @ map (\<lambda>k. \<lparr> cp_campaign = cid, cp_probe = k, cp_state = ''queued'',
           cp_attempt = [], cp_queued = now, cp_started = 0, cp_finished = 0, cp_error = [] \<rparr>) ks \<rparr>"

definition db_list_campaigns :: "nat \<Rightarrow> rollout \<Rightarrow> campaign list" where
  "db_list_campaigns n r = take n (sort_key (\<lambda>c. - cg_created c) (map snd (ro_campaigns r)))"

definition db_set_campaign_state :: "ts \<Rightarrow> int \<Rightarrow> string \<Rightarrow> bool \<Rightarrow> rollout \<Rightarrow> rollout" where
  "db_set_campaign_state now cid st fin r = (case dget (ro_campaigns r) cid of
       None \<Rightarrow> r
     | Some c \<Rightarrow> r\<lparr> ro_campaigns := dput cid
         (c\<lparr> cg_state := st, cg_finished := (if fin then now else cg_finished c) \<rparr>) (ro_campaigns r) \<rparr>)"

definition db_list_campaign_probes :: "int \<Rightarrow> rollout \<Rightarrow> cprobe list" where
  "db_list_campaign_probes cid r = filter (\<lambda>x. cp_campaign x = cid) (ro_rows r)"

definition db_campaign_probes_in_state :: "int \<Rightarrow> string \<Rightarrow> rollout \<Rightarrow> cprobe list" where
  "db_campaign_probes_in_state cid st r = filter (\<lambda>x. cp_campaign x = cid \<and> cp_state x = st) (ro_rows r)"

definition db_set_campaign_probe_state :: "ts \<Rightarrow> int \<Rightarrow> string \<Rightarrow> string \<Rightarrow> string option \<Rightarrow> string option
    \<Rightarrow> bool \<Rightarrow> bool \<Rightarrow> rollout \<Rightarrow> rollout" where
  "db_set_campaign_probe_state now cid k st att err started fin r =
     r\<lparr> ro_rows := map (\<lambda>x. if cp_campaign x = cid \<and> cp_probe x = k
           then x\<lparr> cp_state := st,
                   cp_attempt := (case att of Some a \<Rightarrow> a | None \<Rightarrow> cp_attempt x),
                   cp_error := (case err of Some e \<Rightarrow> take 500 e | None \<Rightarrow> cp_error x),
                   cp_started := (if started then now else cp_started x),
                   cp_finished := (if fin then now else cp_finished x) \<rparr>
           else x) (ro_rows r) \<rparr>"

definition on_db :: "(probe_db \<Rightarrow> probe_db) \<Rightarrow> rollout \<Rightarrow> rollout" where
  "on_db f r = r\<lparr> ro_db := f (ro_db r) \<rparr>"

section \<open>One pass of the engine\<close>

definition online_s :: real where "online_s = 60"

definition online :: "ts \<Rightarrow> probe option \<Rightarrow> bool" where
  "online now p = (case p of None \<Rightarrow> False | Some q \<Rightarrow> now - pr_last_seen q \<le> online_s)"

definition canary_n :: "campaign \<Rightarrow> int" where "canary_n c = max 1 (int_or (cg_canary c) 1)"
definition batch_n :: "campaign \<Rightarrow> int" where "batch_n c = max 1 (int_or (cg_batch c) 5)"
definition window_n :: "campaign \<Rightarrow> int" where "window_n c = int_or (cg_window c) 86400"
definition probation_n :: "campaign \<Rightarrow> int" where "probation_n c = int_or (cg_probation c) 120"

definition started_of :: "ts \<Rightarrow> campaign \<Rightarrow> ts" where
  "started_of now c = (if cg_started c \<noteq> 0 then cg_started c
     else if cg_created c \<noteq> 0 then cg_created c else now)"

text \<open>Dispatched rows that are silent past the deadline.\<close>

definition gone_dark :: "ts \<Rightarrow> campaign \<Rightarrow> probe_db \<Rightarrow> cprobe \<Rightarrow> bool" where
  "gone_dark now c db x \<longleftrightarrow>
     now > (if cp_started x = 0 then now else cp_started x) + of_int (probation_n c * 2 + 120)
     \<and> \<not> online now (db_get_probe (cp_probe x) db)"

definition fail_offline :: "ts \<Rightarrow> int \<Rightarrow> cprobe \<Rightarrow> rollout \<Rightarrow> rollout" where
  "fail_offline now cid x r =
     on_db (db_set_probe_update_state now (cp_probe x) ''failed_offline'' None None None [])
       (db_set_campaign_probe_state now cid (cp_probe x) ''failed_offline'' None
          (Some ''no checkin after update within deadline'') False True r)"

definition fail_dark :: "ts \<Rightarrow> campaign \<Rightarrow> cprobe list \<Rightarrow> rollout \<Rightarrow> rollout" where
  "fail_dark now c xs r = foldl (\<lambda>r x. if gone_dark now c (ro_db r) x then fail_offline now (cg_id c) x r else r) r xs"

definition expire_queued :: "ts \<Rightarrow> int \<Rightarrow> cprobe list \<Rightarrow> rollout \<Rightarrow> rollout" where
  "expire_queued now cid xs r = foldl (\<lambda>r x. db_set_campaign_probe_state now cid (cp_probe x) ''expired'' None
     (Some ''probe offline for entire campaign window'') False True r) r xs"

definition eligible :: "ts \<Rightarrow> probe_db \<Rightarrow> string \<Rightarrow> bool" where
  "eligible now db k \<longleftrightarrow> (case db_get_probe k db of
       None \<Rightarrow> False | Some p \<Rightarrow> online now (Some p) \<and> pr_supervisor p \<noteq> 0)"

definition attempt_id :: "ts \<Rightarrow> int \<Rightarrow> string \<Rightarrow> string" where
  "attempt_id now cid k = ''c'' @ str_of_int cid @ ''-'' @ str_of_int (py_int now) @ ''-'' @ k"

text \<open>\<open>json.dumps\<close> of the task payload; build ids and hashes are plain hexadecimal text.\<close>

definition update_payload :: "campaign \<Rightarrow> string \<Rightarrow> string" where
  "update_payload c att =
     (let q = [CHR 0x22]
      in ''{'' @ q @ ''build_id'' @ q @ '': '' @ q @ cg_target c @ q @ '', ''
         @ q @ ''package_sha256'' @ q @ '': '' @ q @ cg_sha c @ q @ '', ''
         @ q @ ''probation_window'' @ q @ '': '' @ str_of_int (probation_n c) @ '', ''
         @ q @ ''campaign_id'' @ q @ '': '' @ str_of_int (cg_id c) @ '', ''
         @ q @ ''attempt_id'' @ q @ '': '' @ q @ att @ q @ ''}'')"

definition send_update :: "ts \<Rightarrow> campaign \<Rightarrow> string \<Rightarrow> rollout \<Rightarrow> rollout" where
  "send_update now c k r =
     (let att = attempt_id now (cg_id c) k;
          r1 = on_db (\<lambda>db. fst (db_create_task now k ''agent_update'' (update_payload c att) (cg_by c) db)) r;
          r2 = db_set_campaign_probe_state now (cg_id c) k ''dispatched'' (Some att) None True False r1;
          r3 = on_db (db_set_probe_update_state now k ''queued'' (Some (cg_target c)) (Some (cg_id c)) (Some att) []) r2
      in r3\<lparr> ro_sent := ro_sent r3 @ [(cg_id c, k)] \<rparr>)"

fun dispatch_rows :: "ts \<Rightarrow> campaign \<Rightarrow> int \<Rightarrow> cprobe list \<Rightarrow> rollout \<Rightarrow> rollout" where
  "dispatch_rows now c budget [] r = r"
| "dispatch_rows now c budget (x # xs) r =
     (if budget \<le> 0 then r
      else if eligible now (ro_db r) (cp_probe x)
      then dispatch_rows now c (budget - 1) xs (send_update now c (cp_probe x) r)
      else dispatch_rows now c budget xs r)"

definition in_state :: "string \<Rightarrow> cprobe list \<Rightarrow> cprobe list" where
  "in_state st xs = filter (\<lambda>x. cp_state x = st) xs"

text \<open>Steps 3 to 6: expire, finish, or dispatch within the budget of the current phase.\<close>

definition advance_queued :: "ts \<Rightarrow> campaign \<Rightarrow> rollout \<Rightarrow> rollout" where
  "advance_queued now c r =
     (let rows = db_list_campaign_probes (cg_id c) r;
          queued = in_state ''queued'' rows; dispatched = in_state ''dispatched'' rows;
          succeeded = in_state ''succeeded'' rows;
          over = (now - started_of now c > of_int (window_n c));
          r1 = (if over then expire_queued now (cg_id c) queued r else r);
          queued1 = (if over then [] else queued);
          budget = (if int (length succeeded) < canary_n c
                    then canary_n c - int (length dispatched) - int (length succeeded)
                    else batch_n c - int (length dispatched))
      in if queued1 = [] \<and> dispatched = [] then db_set_campaign_state now (cg_id c) ''done'' True r1
         else dispatch_rows now c budget queued1 r1)"

definition failures :: "cprobe list \<Rightarrow> cprobe list" where
  "failures rows = in_state ''rolled_back'' rows @ in_state ''failed_offline'' rows"

definition advance :: "ts \<Rightarrow> campaign \<Rightarrow> rollout \<Rightarrow> rollout" where
  "advance now c r =
     (let rows = db_list_campaign_probes (cg_id c) r; dark = in_state ''dispatched'' rows
      in if cg_halt c \<and> failures rows \<noteq> [] then db_set_campaign_state now (cg_id c) ''halted'' False r
         else let r1 = fail_dark now c dark r;
                  transitioned = list_ex (gone_dark now c (ro_db r)) dark
              in if transitioned \<and> cg_halt c then db_set_campaign_state now (cg_id c) ''halted'' False r1
                 else advance_queued now c r1)"

definition campaign_tick :: "ts \<Rightarrow> rollout \<Rightarrow> rollout" where
  "campaign_tick now r =
     foldl (\<lambda>r c. advance now c r) r (filter (\<lambda>c. cg_state c = ''running'') (db_list_campaigns 200 r))"

section \<open>Launch, abort, report\<close>

definition launch_campaign :: "ts \<Rightarrow> string \<Rightarrow> string \<Rightarrow> string \<Rightarrow> string list \<Rightarrow> int \<Rightarrow> int \<Rightarrow> bool \<Rightarrow> int \<Rightarrow> int
    \<Rightarrow> string \<Rightarrow> string \<Rightarrow> rollout \<Rightarrow> rollout \<times> int option" where
  "launch_campaign now name build sha ids canary batch halt window probation note user r =
     (let valid = filter (\<lambda>k. case db_get_probe k (ro_db r) of None \<Rightarrow> False
                | Some p \<Rightarrow> pr_supervisor p \<noteq> 0 \<and> pr_status p = ''enrolled'') (take 1000 ids)
      in if valid = [] then (r, None)
         else let nm = take 120 (if name = [] then ''Update to '' @ build else name);
                  (r1, cid) = db_create_campaign now nm build sha
                    (max 1 (min (int_or canary 1) (int (length valid)))) (max 1 (min (int_or batch 5) 500)) halt
                    (max 300 (min (int_or window 86400) (30 * 86400))) (max 30 (min (int_or probation 120) 900))
                    (take 500 note) user r
              in (db_add_campaign_probes now cid valid r1, Some cid))"

definition abort_campaign :: "ts \<Rightarrow> int \<Rightarrow> rollout \<Rightarrow> rollout" where
  "abort_campaign now cid r = (case dget (ro_campaigns r) cid of
       None \<Rightarrow> r
     | Some c \<Rightarrow> if cg_state c = ''running'' then db_set_campaign_state now cid ''aborted'' False r else r)"

definition report_update :: "ts \<Rightarrow> string \<Rightarrow> update_report \<Rightarrow> rollout \<Rightarrow> rollout" where
  "report_update now k rep r =
     (let out = take 32 (ur_outcome rep);
          fin = (if out = ''success'' then ''succeeded'' else out);
          r1 = on_db (db_set_probe_update_state now k fin (Some (take 64 (ur_target rep))) None None
                 (if out = ''success'' then [] else take 500 (ur_reason rep)))
               (on_db (db_record_update_report (rep\<lparr> ur_probe := k \<rparr>)) r)
      in case ur_campaign rep of
           None \<Rightarrow> r1
         | Some cid \<Rightarrow> if cid = 0 then r1 else
             db_set_campaign_probe_state now cid k (if out = ''success'' then ''succeeded'' else ''rolled_back'')
               None (Some (ur_reason rep)) False True r1)"

datatype rop =
    RLaunch ts string string string "string list" int int bool int int string string
  | RTick ts
  | RReport ts string update_report
  | RAbort ts int
  | RRegistry "probe_db \<Rightarrow> probe_db"      \<comment> \<open>check-ins, enrolments, other tasks\<close>

fun rexec :: "rop \<Rightarrow> rollout \<Rightarrow> rollout" where
  "rexec (RLaunch now name build sha ids ca ba ha wi pr note user) r =
     fst (launch_campaign now name build sha ids ca ba ha wi pr note user r)"
| "rexec (RTick now) r = campaign_tick now r"
| "rexec (RReport now k rep) r = report_update now k rep r"
| "rexec (RAbort now cid) r = abort_campaign now cid r"
| "rexec (RRegistry f) r = on_db f r"

end
