(* ===== verification/RolloutLaws.thy ===== *)
theory RolloutLaws
  imports Rollout "HOL-Library.Multiset"
begin

text \<open>
  Safety of the staged rollout. A campaign's rows are viewed as an association list from probe to
  state; the engine's loops move rows from one state to another, which the view makes arithmetic on
  counts. The invariant \<open>camp_ok\<close> bounds what is in flight and what has been sent, and holds along
  every sequence of launches, ticks, reports, aborts and registry changes.
\<close>

section \<open>The view of a campaign\<close>

type_synonym view = "(string \<times> string) list"

definition view :: "int \<Rightarrow> rollout \<Rightarrow> view" where
  "view cid r = map (\<lambda>x. (cp_probe x, cp_state x)) (db_list_campaign_probes cid r)"

definition cnt :: "string \<Rightarrow> view \<Rightarrow> nat" where
  "cnt st l = length (filter (\<lambda>p. snd p = st) l)"

definition upd :: "string \<Rightarrow> string \<Rightarrow> view \<Rightarrow> view" where
  "upd k st l = map (\<lambda>p. if fst p = k then (k, st) else p) l"

definition sent :: "int \<Rightarrow> rollout \<Rightarrow> nat" where
  "sent cid r = length (filter (\<lambda>p. fst p = cid) (ro_sent r))"

text \<open>\<open>n\<close> rows moved from one state to another.\<close>

definition moved :: "string \<Rightarrow> string \<Rightarrow> nat \<Rightarrow> view \<Rightarrow> view \<Rightarrow> bool" where
  "moved a b n l l' \<longleftrightarrow> map fst l' = map fst l
     \<and> (\<forall>s. cnt s l' + (if s = a then n else 0) = cnt s l + (if s = b then n else 0))"

lemma cnt_simps [simp]: "cnt s [] = 0" "cnt s (p # l) = (if snd p = s then 1 else 0) + cnt s l"
  by (simp_all add: cnt_def)

lemma upd_simps [simp]: "upd k b [] = []" "upd k b (p # l) = (if fst p = k then (k, b) else p) # upd k b l"
  by (simp_all add: upd_def)

lemma moved_at:
  "moved a b n l l' \<Longrightarrow> cnt s l' + (if s = a then n else 0) = cnt s l + (if s = b then n else 0)"
  by (simp add: moved_def)

lemma moved_dom: "moved a b n l l' \<Longrightarrow> map fst l' = map fst l"
  by (simp add: moved_def)

lemma moved_refl: "moved a b 0 l l"
  by (simp add: moved_def)

lemma moved_trans: "moved a b n l l' \<Longrightarrow> moved a b m l' l'' \<Longrightarrow> moved a b (n + m) l l''"
  unfolding moved_def
proof (intro conjI allI)
  fix s
  assume a: "map fst l' = map fst l \<and> (\<forall>s. cnt s l' + (if s = a then n else 0) = cnt s l + (if s = b then n else 0))"
    and b: "map fst l'' = map fst l' \<and> (\<forall>s. cnt s l'' + (if s = a then m else 0) = cnt s l' + (if s = b then m else 0))"
  from a b show "map fst l'' = map fst l" by simp
  from a b have "cnt s l' + (if s = a then n else 0) = cnt s l + (if s = b then n else 0)"
    "cnt s l'' + (if s = a then m else 0) = cnt s l' + (if s = b then m else 0)" by blast+
  then show "cnt s l'' + (if s = a then n + m else 0) = cnt s l + (if s = b then n + m else 0)"
    by (auto split: if_splits)
qed

lemma upd_absent: "k \<notin> fst ` set l \<Longrightarrow> upd k st l = l"
  by (induction l) auto

lemma upd_moved:
  assumes "distinct (map fst l)" "(k, a) \<in> set l"
  shows "moved a b 1 l (upd k b l)"
  using assms
proof (induction l)
  case (Cons p l)
  show ?case
  proof (cases "fst p = k")
    case True
    then have p: "p = (k, a)" using Cons.prems by (cases p) (auto simp: rev_image_eqI)
    have "upd k b l = l" using True Cons.prems(1) by (intro upd_absent) auto
    then show ?thesis by (simp add: p moved_def)
  next
    case False
    with Cons.prems have "moved a b 1 l (upd k b l)" by (intro Cons.IH) auto
    then show ?thesis using False by (simp add: moved_def)
  qed
qed simp

lemma upd_keeps: "(j, s) \<in> set l \<Longrightarrow> j \<noteq> k \<Longrightarrow> (j, s) \<in> set (upd k b l)"
  by (force simp: upd_def)

lemma rest_keeps:
  assumes "distinct (map cp_probe (x # xs))" "\<forall>y \<in> set (x # xs). (cp_probe y, a) \<in> set l"
  shows "\<forall>y \<in> set xs. (cp_probe y, a) \<in> set (upd (cp_probe x) b l)"
proof
  fix y
  assume "y \<in> set xs"
  then have "cp_probe y \<in> cp_probe ` set xs" by (rule imageI)
  with assms(1) have "cp_probe y \<noteq> cp_probe x" by auto
  then show "(cp_probe y, a) \<in> set (upd (cp_probe x) b l)"
    using assms(2) \<open>y \<in> set xs\<close> by (intro upd_keeps) auto
qed

lemma map_fst_upd: "map fst (upd k b l) = map fst l"
  by (induction l) auto

lemma view_on_db [simp]: "view cid (on_db f r) = view cid r" "sent cid (on_db f r) = sent cid r"
  "ro_campaigns (on_db f r) = ro_campaigns r" "ro_next (on_db f r) = ro_next r" "ro_sent (on_db f r) = ro_sent r"
  "ro_rows (on_db f r) = ro_rows r"
  by (simp_all add: on_db_def view_def sent_def db_list_campaign_probes_def)

lemma view_set_state:
  "view j (db_set_campaign_probe_state now cid k st att err sd fin r)
     = (if j = cid then upd k st (view cid r) else view j r)"
proof -
  define g :: "cprobe \<Rightarrow> cprobe" where "g x = (if cp_campaign x = cid \<and> cp_probe x = k
     then x\<lparr> cp_state := st,
             cp_attempt := (case att of Some a \<Rightarrow> a | None \<Rightarrow> cp_attempt x),
             cp_error := (case err of Some e \<Rightarrow> take 500 e | None \<Rightarrow> cp_error x),
             cp_started := (if sd then now else cp_started x),
             cp_finished := (if fin then now else cp_finished x) \<rparr> else x)" for x
  have g: "cp_campaign (g x) = cp_campaign x" "cp_probe (g x) = cp_probe x"
    "cp_state (g x) = (if cp_campaign x = cid \<and> cp_probe x = k then st else cp_state x)" for x
    by (simp_all add: g_def)
  have "map (\<lambda>x. (cp_probe x, cp_state x)) (filter (\<lambda>x. cp_campaign x = j) (map g rows))
      = (if j = cid then upd k st (map (\<lambda>x. (cp_probe x, cp_state x)) (filter (\<lambda>x. cp_campaign x = cid) rows))
         else map (\<lambda>x. (cp_probe x, cp_state x)) (filter (\<lambda>x. cp_campaign x = j) rows))" for rows
    by (cases "j = cid"; induction rows) (simp_all add: g)
  moreover have "ro_rows (db_set_campaign_probe_state now cid k st att err sd fin r) = map g (ro_rows r)"
    by (simp add: db_set_campaign_probe_state_def g_def)
  ultimately show ?thesis by (simp only: view_def db_list_campaign_probes_def)
qed

lemma set_state_frame [simp]:
  "ro_sent (db_set_campaign_probe_state now cid k st att err sd fin r) = ro_sent r"
  "ro_campaigns (db_set_campaign_probe_state now cid k st att err sd fin r) = ro_campaigns r"
  "ro_next (db_set_campaign_probe_state now cid k st att err sd fin r) = ro_next r"
  "ro_db (db_set_campaign_probe_state now cid k st att err sd fin r) = ro_db r"
  "map cp_campaign (ro_rows (db_set_campaign_probe_state now cid k st att err sd fin r)) = map cp_campaign (ro_rows r)"
  by (simp_all add: db_set_campaign_probe_state_def)

lemma campaign_state_frame [simp]:
  "view j (db_set_campaign_state now cid st fin r) = view j r"
  "ro_sent (db_set_campaign_state now cid st fin r) = ro_sent r"
  "ro_rows (db_set_campaign_state now cid st fin r) = ro_rows r"
  "ro_next (db_set_campaign_state now cid st fin r) = ro_next r"
  by (auto simp: db_set_campaign_state_def view_def db_list_campaign_probes_def split: option.splits)

lemma campaign_state_get:
  "dget (ro_campaigns (db_set_campaign_state now cid st fin r)) j
     = (if j = cid then map_option (\<lambda>c. c\<lparr> cg_state := st, cg_finished := (if fin then now else cg_finished c) \<rparr>)
          (dget (ro_campaigns r) cid) else dget (ro_campaigns r) j)"
  by (simp add: db_set_campaign_state_def dict_simps split: option.splits)

lemma in_state_view:
  "x \<in> set (in_state st (db_list_campaign_probes cid r)) \<Longrightarrow> (cp_probe x, st) \<in> set (view cid r)"
  by (auto simp: in_state_def view_def image_iff)

lemma in_state_distinct:
  assumes "distinct (map fst (view cid r))"
  shows "distinct (map cp_probe (in_state st (db_list_campaign_probes cid r)))"
proof -
  have "distinct (map cp_probe (db_list_campaign_probes cid r))"
    using assms by (simp add: view_def comp_def)
  then show ?thesis unfolding in_state_def by (rule distinct_map_filter)
qed

lemma in_state_length: "length (in_state st (db_list_campaign_probes cid r)) = cnt st (view cid r)"
  by (simp add: in_state_def cnt_def view_def filter_map comp_def)

section \<open>The loops\<close>

text \<open>What a pass over one campaign leaves alone.\<close>

definition only_camp :: "int \<Rightarrow> rollout \<Rightarrow> rollout \<Rightarrow> bool" where
  "only_camp cid r r' \<longleftrightarrow> ro_campaigns r' = ro_campaigns r \<and> ro_next r' = ro_next r
     \<and> map cp_campaign (ro_rows r') = map cp_campaign (ro_rows r)
     \<and> (\<forall>j. j \<noteq> cid \<longrightarrow> view j r' = view j r \<and> sent j r' = sent j r)"

lemma only_camp_refl [simp]: "only_camp cid r r"
  by (simp add: only_camp_def)

lemma only_camp_trans: "only_camp cid r r' \<Longrightarrow> only_camp cid r' r'' \<Longrightarrow> only_camp cid r r''"
  by (simp add: only_camp_def)

lemma only_camp_set: "only_camp cid r (on_db f (db_set_campaign_probe_state now cid k st att err sd fin r))"
  by (simp add: only_camp_def view_set_state sent_def)

lemma fail_dark_moved:
  assumes "distinct (map fst (view (cg_id c) r))" "distinct (map cp_probe xs)"
    "\<forall>x \<in> set xs. (cp_probe x, ''dispatched'') \<in> set (view (cg_id c) r)"
  shows "\<exists>n. moved ''dispatched'' ''failed_offline'' n (view (cg_id c) r) (view (cg_id c) (fail_dark now c xs r))
    \<and> only_camp (cg_id c) r (fail_dark now c xs r) \<and> ro_sent (fail_dark now c xs r) = ro_sent r"
  using assms
proof (induction xs arbitrary: r)
  case Nil
  then show ?case using moved_refl by (auto simp: fail_dark_def)
next
  case (Cons x xs)
  show ?case
  proof (cases "gone_dark now c (ro_db r) x")
    case False
    then have "fail_dark now c (x # xs) r = fail_dark now c xs r" by (simp add: fail_dark_def)
    then show ?thesis using Cons by simp
  next
    case True
    let ?r = "fail_offline now (cg_id c) x r"
    have e: "fail_dark now c (x # xs) r = fail_dark now c xs ?r" using True by (simp add: fail_dark_def)
    have v: "view (cg_id c) ?r = upd (cp_probe x) ''failed_offline'' (view (cg_id c) r)"
      by (simp add: fail_offline_def view_set_state)
    have m: "moved ''dispatched'' ''failed_offline'' 1 (view (cg_id c) r) (view (cg_id c) ?r)"
      unfolding v using Cons.prems by (intro upd_moved) auto
    have o: "only_camp (cg_id c) r ?r" "ro_sent ?r = ro_sent r"
      unfolding fail_offline_def by (rule only_camp_set, simp)
    have d: "distinct (map fst (view (cg_id c) ?r))" unfolding v map_fst_upd by (rule Cons.prems(1))
    have q: "\<forall>y \<in> set xs. (cp_probe y, ''dispatched'') \<in> set (view (cg_id c) ?r)"
      unfolding v by (rule rest_keeps [OF Cons.prems(2,3)])
    obtain n where "moved ''dispatched'' ''failed_offline'' n (view (cg_id c) ?r) (view (cg_id c) (fail_dark now c xs ?r))
        \<and> only_camp (cg_id c) ?r (fail_dark now c xs ?r) \<and> ro_sent (fail_dark now c xs ?r) = ro_sent ?r"
      using Cons.IH [OF d _ q] Cons.prems(2) by auto
    then show ?thesis
      unfolding e using moved_trans [OF m] only_camp_trans [OF o(1)] o(2) by metis
  qed
qed

lemma expire_moved:
  assumes "distinct (map fst (view cid r))" "distinct (map cp_probe xs)"
    "\<forall>x \<in> set xs. (cp_probe x, ''queued'') \<in> set (view cid r)"
  shows "\<exists>n. moved ''queued'' ''expired'' n (view cid r) (view cid (expire_queued now cid xs r))
    \<and> only_camp cid r (expire_queued now cid xs r) \<and> ro_sent (expire_queued now cid xs r) = ro_sent r"
  using assms
proof (induction xs arbitrary: r)
  case Nil
  then show ?case using moved_refl by (auto simp: expire_queued_def)
next
  case (Cons x xs)
  let ?r = "db_set_campaign_probe_state now cid (cp_probe x) ''expired'' None
     (Some ''probe offline for entire campaign window'') False True r"
  have e: "expire_queued now cid (x # xs) r = expire_queued now cid xs ?r" by (simp add: expire_queued_def)
  have v: "view cid ?r = upd (cp_probe x) ''expired'' (view cid r)" by (simp add: view_set_state)
  have m: "moved ''queued'' ''expired'' 1 (view cid r) (view cid ?r)"
    unfolding v using Cons.prems by (intro upd_moved) auto
  have o: "only_camp cid r ?r" "ro_sent ?r = ro_sent r"
    by (simp_all add: only_camp_def view_set_state sent_def)
  have d: "distinct (map fst (view cid ?r))" unfolding v map_fst_upd by (rule Cons.prems(1))
  have q: "\<forall>y \<in> set xs. (cp_probe y, ''queued'') \<in> set (view cid ?r)"
    unfolding v by (rule rest_keeps [OF Cons.prems(2,3)])
  obtain n where "moved ''queued'' ''expired'' n (view cid ?r) (view cid (expire_queued now cid xs ?r))
      \<and> only_camp cid ?r (expire_queued now cid xs ?r) \<and> ro_sent (expire_queued now cid xs ?r) = ro_sent ?r"
    using Cons.IH [OF d _ q] Cons.prems(2) by auto
  then show ?case
    unfolding e using moved_trans [OF m] only_camp_trans [OF o(1)] o(2) by metis
qed

lemma send_update_view:
  "view j (send_update now c k r) = (if j = cg_id c then upd k ''dispatched'' (view j r) else view j r)"
  "sent j (send_update now c k r) = sent j r + (if j = cg_id c then 1 else 0)"
proof -
  have x: "view j (q\<lparr> ro_sent := l \<rparr>) = view j q" for q l by (simp add: view_def db_list_campaign_probes_def)
  show "view j (send_update now c k r) = (if j = cg_id c then upd k ''dispatched'' (view j r) else view j r)"
    by (simp add: send_update_def Let_def x view_set_state)
  show "sent j (send_update now c k r) = sent j r + (if j = cg_id c then 1 else 0)"
    by (simp add: send_update_def Let_def sent_def)
qed

lemma send_update_only: "only_camp (cg_id c) r (send_update now c k r)"
  unfolding only_camp_def by (simp add: send_update_view) (simp add: send_update_def Let_def)

lemma dispatch_moved:
  assumes "distinct (map fst (view (cg_id c) r))" "distinct (map cp_probe xs)"
    "\<forall>x \<in> set xs. (cp_probe x, ''queued'') \<in> set (view (cg_id c) r)"
  shows "\<exists>n. moved ''queued'' ''dispatched'' n (view (cg_id c) r) (view (cg_id c) (dispatch_rows now c b xs r))
    \<and> only_camp (cg_id c) r (dispatch_rows now c b xs r)
    \<and> sent (cg_id c) (dispatch_rows now c b xs r) = sent (cg_id c) r + n \<and> int n \<le> max 0 b"
  using assms
proof (induction xs arbitrary: r b)
  case Nil
  then show ?case using moved_refl by auto
next
  case (Cons x xs)
  consider (stop) "b \<le> 0" | (skip) "0 < b" "\<not> eligible now (ro_db r) (cp_probe x)"
    | (go) "0 < b" "eligible now (ro_db r) (cp_probe x)" by linarith
  then show ?case
  proof cases
    case stop
    then show ?thesis using moved_refl by auto
  next
    case skip
    then have "dispatch_rows now c b (x # xs) r = dispatch_rows now c b xs r" by simp
    then show ?thesis using Cons by simp
  next
    case go
    let ?r = "send_update now c (cp_probe x) r"
    have e: "dispatch_rows now c b (x # xs) r = dispatch_rows now c (b - 1) xs ?r" using go by simp
    have v: "view (cg_id c) ?r = upd (cp_probe x) ''dispatched'' (view (cg_id c) r)" by (simp add: send_update_view)
    have m: "moved ''queued'' ''dispatched'' 1 (view (cg_id c) r) (view (cg_id c) ?r)"
      unfolding v using Cons.prems by (intro upd_moved) auto
    have d: "distinct (map fst (view (cg_id c) ?r))" unfolding v map_fst_upd by (rule Cons.prems(1))
    have q: "\<forall>y \<in> set xs. (cp_probe y, ''queued'') \<in> set (view (cg_id c) ?r)"
      unfolding v by (rule rest_keeps [OF Cons.prems(2,3)])
    obtain n where n: "moved ''queued'' ''dispatched'' n (view (cg_id c) ?r) (view (cg_id c) (dispatch_rows now c (b - 1) xs ?r))"
      and o: "only_camp (cg_id c) ?r (dispatch_rows now c (b - 1) xs ?r)"
      and s: "sent (cg_id c) (dispatch_rows now c (b - 1) xs ?r) = sent (cg_id c) ?r + n" "int n \<le> max 0 (b - 1)"
      using Cons.IH [OF d _ q, of "b - 1"] Cons.prems(2) by auto
    have "sent (cg_id c) (dispatch_rows now c (b - 1) xs ?r) = sent (cg_id c) r + (1 + n)"
      using s(1) by (simp add: send_update_view)
    moreover have "int (1 + n) \<le> max 0 b" using s(2) go(1) by simp
    ultimately show ?thesis
      unfolding e using moved_trans [OF m n] only_camp_trans [OF send_update_only o] by blast
  qed
qed

section \<open>The invariant\<close>

abbreviation nD :: "view \<Rightarrow> nat" where "nD \<equiv> cnt ''dispatched''"
abbreviation nS :: "view \<Rightarrow> nat" where "nS \<equiv> cnt ''succeeded''"
abbreviation nR :: "view \<Rightarrow> nat" where "nR \<equiv> cnt ''rolled_back''"
abbreviation nF :: "view \<Rightarrow> nat" where "nF \<equiv> cnt ''failed_offline''"

definition counts_ok :: "campaign \<Rightarrow> nat \<Rightarrow> view \<Rightarrow> bool" where
  "counts_ok c k l \<longleftrightarrow> distinct (map fst l) \<and> k \<le> nD l + nS l + nR l + nF l
     \<and> int (nD l) \<le> max (canary_n c) (batch_n c)
     \<and> (cg_halt c \<longrightarrow> int k \<le> canary_n c \<or> canary_n c \<le> int (nS l + nR l + nF l))"

definition camp_ok :: "campaign \<Rightarrow> rollout \<Rightarrow> bool" where
  "camp_ok c r \<longleftrightarrow> counts_ok c (sent (cg_id c) r) (view (cg_id c) r)"

lemma canary_pos: "1 \<le> canary_n c" "1 \<le> batch_n c"
  by (simp_all add: canary_n_def batch_n_def)

lemma counts_dark:
  assumes "counts_ok c k l" "moved ''dispatched'' ''failed_offline'' n l l'"
  shows "counts_ok c k l'"
proof -
  have "nD l' + n = nD l" "nF l' = nF l + n" "nS l' = nS l" "nR l' = nR l" "map fst l' = map fst l"
    using moved_at [OF assms(2), of "''dispatched''"] moved_at [OF assms(2), of "''succeeded''"]
      moved_at [OF assms(2), of "''rolled_back''"] moved_at [OF assms(2), of "''failed_offline''"]
      moved_dom [OF assms(2)] by simp_all
  then show ?thesis using assms(1) by (auto simp: counts_ok_def)
qed

lemma counts_expire:
  assumes "counts_ok c k l" "moved ''queued'' ''expired'' n l l'"
  shows "counts_ok c k l'"
proof -
  have "nD l' = nD l" "nF l' = nF l" "nS l' = nS l" "nR l' = nR l" "map fst l' = map fst l"
    using moved_at [OF assms(2), of "''dispatched''"] moved_at [OF assms(2), of "''succeeded''"]
      moved_at [OF assms(2), of "''rolled_back''"] moved_at [OF assms(2), of "''failed_offline''"]
      moved_dom [OF assms(2)] by simp_all
  then show ?thesis using assms(1) by (simp add: counts_ok_def)
qed

lemma counts_dispatch:
  assumes "counts_ok c k l" "moved ''queued'' ''dispatched'' n l l'"
    and "int n \<le> max 0 (if int (nS l) < canary_n c then canary_n c - int (nD l) - int (nS l) else batch_n c - int (nD l))"
    and "cg_halt c \<Longrightarrow> nR l + nF l = 0"
  shows "counts_ok c (k + n) l'"
proof -
  have e: "nD l' = nD l + n" "nF l' = nF l" "nS l' = nS l" "nR l' = nR l" "map fst l' = map fst l"
    using moved_at [OF assms(2), of "''dispatched''"] moved_at [OF assms(2), of "''succeeded''"]
      moved_at [OF assms(2), of "''rolled_back''"] moved_at [OF assms(2), of "''failed_offline''"]
      moved_dom [OF assms(2)] by simp_all
  have k: "k \<le> nD l + nS l + nR l + nF l" and d: "int (nD l) \<le> max (canary_n c) (batch_n c)"
    using assms(1) by (simp_all add: counts_ok_def)
  show ?thesis
  proof (cases "n = 0")
    case True
    then show ?thesis using assms(1) e by (simp add: counts_ok_def)
  next
    case False
    then have b: "int n \<le> (if int (nS l) < canary_n c then canary_n c - int (nD l) - int (nS l) else batch_n c - int (nD l))"
      using assms(3) by (simp split: if_splits)
    have "int (nD l') \<le> max (canary_n c) (batch_n c)" using b e(1) by (simp split: if_splits)
    moreover have "int (k + n) \<le> canary_n c \<or> canary_n c \<le> int (nS l' + nR l' + nF l')" if "cg_halt c"
      using b e k assms(4) [OF that] by (simp split: if_splits)
    moreover have "distinct (map fst l')" using assms(1) e(5) by (simp add: counts_ok_def)
    ultimately show ?thesis using k e by (simp add: counts_ok_def)
  qed
qed

lemma counts_report:
  assumes "counts_ok c k l" "st = ''succeeded'' \<or> st = ''rolled_back''"
  shows "counts_ok c k (upd j st l)"
proof (cases "j \<in> fst ` set l")
  case False
  then show ?thesis using assms by (simp add: upd_absent)
next
  case True
  then obtain a where a: "(j, a) \<in> set l" by auto
  have "distinct (map fst l)" using assms(1) by (simp add: counts_ok_def)
  note mv = upd_moved [OF this a, of st]
  note m = moved_dom [OF mv] and c = moved_at [OF mv]
  let ?l = "upd j st l"
  have "nD ?l \<le> nD l" using c [of "''dispatched''"] assms(2) by (auto split: if_splits)
  moreover have "nS l + nR l + nF l \<le> nS ?l + nR ?l + nF ?l"
    using c [of "''succeeded''"] c [of "''rolled_back''"] c [of "''failed_offline''"] assms(2)
    by (auto split: if_splits)
  moreover have "nD l + nS l + nR l + nF l \<le> nD ?l + nS ?l + nR ?l + nF ?l"
    using c [of "''succeeded''"] c [of "''rolled_back''"] c [of "''failed_offline''"] c [of "''dispatched''"] assms(2)
    by (auto split: if_splits)
  ultimately show ?thesis using assms(1) m by (auto simp: counts_ok_def)
qed

section \<open>One pass\<close>

text \<open>A pass changes its own campaign's rows, keeps the bounds, and may then set the state.\<close>

definition pass :: "campaign \<Rightarrow> rollout \<Rightarrow> rollout \<Rightarrow> bool" where
  "pass c r r' \<longleftrightarrow> (\<exists>r0. only_camp (cg_id c) r r0 \<and> camp_ok c r0
     \<and> (r' = r0 \<or> (\<exists>now st fin. r' = db_set_campaign_state now (cg_id c) st fin r0 \<and> st \<noteq> ''running'')))"

lemma passI: "only_camp (cg_id c) r r0 \<Longrightarrow> camp_ok c r0 \<Longrightarrow> pass c r r0"
  by (auto simp: pass_def)

lemma pass_state: "only_camp (cg_id c) r r0 \<Longrightarrow> camp_ok c r0 \<Longrightarrow> st \<noteq> ''running''
    \<Longrightarrow> pass c r (db_set_campaign_state now (cg_id c) st fin r0)"
  unfolding pass_def by blast

lemma pass_after: "only_camp (cg_id c) r r1 \<Longrightarrow> pass c r1 r' \<Longrightarrow> pass c r r'"
  unfolding pass_def by (metis only_camp_trans)

lemma camp_distinct: "camp_ok c r \<Longrightarrow> distinct (map fst (view (cg_id c) r))"
  by (simp add: camp_ok_def counts_ok_def)

lemma expire_camp:
  assumes "camp_ok c r"
  shows "camp_ok c (expire_queued now (cg_id c) (in_state ''queued'' (db_list_campaign_probes (cg_id c) r)) r)
    \<and> only_camp (cg_id c) r (expire_queued now (cg_id c) (in_state ''queued'' (db_list_campaign_probes (cg_id c) r)) r)"
proof -
  let ?r = "expire_queued now (cg_id c) (in_state ''queued'' (db_list_campaign_probes (cg_id c) r)) r"
  obtain n where n: "moved ''queued'' ''expired'' n (view (cg_id c) r) (view (cg_id c) ?r)"
    and o: "only_camp (cg_id c) r ?r" "ro_sent ?r = ro_sent r"
    using expire_moved [OF camp_distinct [OF assms] in_state_distinct [OF camp_distinct [OF assms], of "''queued''"]]
      in_state_view [of _ "''queued''" "cg_id c" r] by blast
  have "sent (cg_id c) ?r = sent (cg_id c) r" using o(2) by (simp add: sent_def)
  then show ?thesis using counts_expire [OF _ n] assms o(1) by (simp add: camp_ok_def)
qed

lemma advance_queued_pass:
  assumes "camp_ok c r" "cg_halt c \<Longrightarrow> nR (view (cg_id c) r) + nF (view (cg_id c) r) = 0"
  shows "pass c r (advance_queued now c r)"
proof -
  let ?rows = "db_list_campaign_probes (cg_id c) r"
  let ?q = "in_state ''queued'' ?rows"
  show ?thesis
  proof (cases "now - started_of now c > of_int (window_n c)")
    case True
    let ?r1 = "expire_queued now (cg_id c) ?q r"
    have "advance_queued now c r = (if in_state ''dispatched'' ?rows = []
        then db_set_campaign_state now (cg_id c) ''done'' True ?r1 else ?r1)"
      using True by (simp add: advance_queued_def Let_def)
    then show ?thesis using expire_camp [OF assms(1), of now] by (simp add: passI pass_state)
  next
    case False
    define b where "b = (if int (nS (view (cg_id c) r)) < canary_n c
      then canary_n c - int (nD (view (cg_id c) r)) - int (nS (view (cg_id c) r))
      else batch_n c - int (nD (view (cg_id c) r)))"
    let ?r1 = "dispatch_rows now c b ?q r"
    have e: "advance_queued now c r = (if ?q = [] \<and> in_state ''dispatched'' ?rows = []
        then db_set_campaign_state now (cg_id c) ''done'' True r else ?r1)"
      using False by (simp add: advance_queued_def Let_def b_def in_state_length)
    obtain n where n: "moved ''queued'' ''dispatched'' n (view (cg_id c) r) (view (cg_id c) ?r1)"
      and o: "only_camp (cg_id c) r ?r1" "sent (cg_id c) ?r1 = sent (cg_id c) r + n" "int n \<le> max 0 b"
      using dispatch_moved [OF camp_distinct [OF assms(1)] in_state_distinct [OF camp_distinct [OF assms(1)], of "''queued''"], of now b]
        in_state_view [of _ "''queued''" "cg_id c" r] by blast
    have "counts_ok c (sent (cg_id c) r + n) (view (cg_id c) ?r1)"
      by (rule counts_dispatch [OF _ n]) (use assms o(3) in \<open>simp_all add: camp_ok_def b_def\<close>)
    then have "camp_ok c ?r1" by (simp add: camp_ok_def o(2))
    then show ?thesis using e o(1) assms(1) by (simp add: passI pass_state)
  qed
qed

lemma fail_dark_none: "\<not> list_ex (gone_dark now c (ro_db r)) xs \<Longrightarrow> fail_dark now c xs r = r"
  unfolding fail_dark_def by (induction xs) simp_all

lemma advance_pass:
  assumes "camp_ok c r"
  shows "pass c r (advance now c r)"
proof -
  let ?rows = "db_list_campaign_probes (cg_id c) r"
  let ?dark = "in_state ''dispatched'' ?rows"
  let ?r1 = "fail_dark now c ?dark r"
  have stay: "pass c r (db_set_campaign_state now (cg_id c) ''halted'' False r)"
    by (rule pass_state) (simp_all add: assms)
  obtain n where n: "moved ''dispatched'' ''failed_offline'' n (view (cg_id c) r) (view (cg_id c) ?r1)"
    and o: "only_camp (cg_id c) r ?r1" "ro_sent ?r1 = ro_sent r"
    using fail_dark_moved [OF camp_distinct [OF assms] in_state_distinct [OF camp_distinct [OF assms], of "''dispatched''"], of now]
      in_state_view [of _ "''dispatched''" "cg_id c" r] by blast
  have s: "sent (cg_id c) ?r1 = sent (cg_id c) r" using o(2) by (simp add: sent_def)
  have ok: "camp_ok c ?r1" using counts_dark [OF _ n] assms s by (simp add: camp_ok_def)
  show ?thesis
  proof (cases "cg_halt c \<and> failures ?rows \<noteq> []")
    case True
    then show ?thesis using stay by (simp add: advance_def Let_def)
  next
    case nf: False
    show ?thesis
    proof (cases "list_ex (gone_dark now c (ro_db r)) ?dark \<and> cg_halt c")
      case True
      then have "advance now c r = db_set_campaign_state now (cg_id c) ''halted'' False ?r1"
        using nf by (simp add: advance_def Let_def)
      then show ?thesis using pass_state [OF o(1) ok, of "''halted''"] by simp
    next
      case nd: False
      have z: "nR (view (cg_id c) ?r1) + nF (view (cg_id c) ?r1) = 0" if "cg_halt c"
      proof -
        have r: "?r1 = r" using nd that by (intro fail_dark_none) simp
        have "in_state ''rolled_back'' ?rows = []" "in_state ''failed_offline'' ?rows = []"
          using nf that by (simp_all add: failures_def)
        then show ?thesis
          unfolding r using in_state_length [of "''rolled_back''" "cg_id c" r] in_state_length [of "''failed_offline''" "cg_id c" r]
          by simp
      qed
      have "advance now c r = advance_queued now c ?r1"
        using nf nd by (auto simp: advance_def Let_def)
      then show ?thesis using pass_after [OF o(1) advance_queued_pass [OF ok z]] by simp
    qed
  qed
qed

section \<open>Every reachable rollout\<close>

text \<open>The part of a campaign row that never changes, and the invariant of the tables.\<close>

definition policy :: "campaign \<Rightarrow> int \<times> int \<times> int \<times> bool" where
  "policy c = (cg_id c, cg_canary c, cg_batch c, cg_halt c)"

lemma policy_camp_ok: "policy c = policy c' \<Longrightarrow> camp_ok c r = camp_ok c' r"
  by (simp add: policy_def camp_ok_def counts_ok_def canary_n_def batch_n_def)

definition roll_ok :: "rollout \<Rightarrow> bool" where
  "roll_ok r \<longleftrightarrow> distinct (map fst (ro_campaigns r))
     \<and> (\<forall>j c. dget (ro_campaigns r) j = Some c \<longrightarrow> cg_id c = j \<and> j < ro_next r \<and> camp_ok c r)
     \<and> (\<forall>j \<ge> ro_next r. view j r = [] \<and> sent j r = 0)"

definition init_rollout :: "probe_db \<Rightarrow> rollout" where
  "init_rollout db = \<lparr> ro_db = db, ro_campaigns = [], ro_next = 1, ro_rows = [], ro_sent = [] \<rparr>"

lemma roll_ok_init [simp]: "roll_ok (init_rollout db)"
  by (simp add: roll_ok_def init_rollout_def view_def sent_def db_list_campaign_probes_def)

lemma roll_ok_camp: "roll_ok r \<Longrightarrow> dget (ro_campaigns r) j = Some c \<Longrightarrow> cg_id c = j \<and> j < ro_next r \<and> camp_ok c r"
  by (simp add: roll_ok_def)

lemma roll_okI:
  assumes "distinct (map fst (ro_campaigns r))"
    and "\<And>j c. dget (ro_campaigns r) j = Some c \<Longrightarrow> cg_id c = j \<and> j < ro_next r \<and> camp_ok c r"
    and "\<And>j. ro_next r \<le> j \<Longrightarrow> view j r = [] \<and> sent j r = 0"
  shows "roll_ok r"
  unfolding roll_ok_def using assms by blast

lemma roll_ok_fresh: "roll_ok r \<Longrightarrow> ro_next r \<le> j \<Longrightarrow> view j r = [] \<and> sent j r = 0"
  by (simp add: roll_ok_def)

lemma roll_ok_distinct: "roll_ok r \<Longrightarrow> distinct (map fst (ro_campaigns r))"
  by (simp add: roll_ok_def)

text \<open>Changes that keep the campaigns and every bound keep the invariant.\<close>

lemma roll_ok_mono:
  assumes "roll_ok r" "ro_campaigns r' = ro_campaigns r" "ro_next r' = ro_next r"
    and "\<And>j. sent j r' = sent j r" "\<And>c. camp_ok c r \<Longrightarrow> camp_ok c r'" "\<And>j. view j r = [] \<Longrightarrow> view j r' = []"
  shows "roll_ok r'"
proof (rule roll_okI)
  show "distinct (map fst (ro_campaigns r'))" using roll_ok_distinct [OF assms(1)] assms(2) by simp
  show "cg_id c = j \<and> j < ro_next r' \<and> camp_ok c r'" if "dget (ro_campaigns r') j = Some c" for j c
    using roll_ok_camp [OF assms(1), of j c] that assms(2,3,5) by simp
  show "view j r' = [] \<and> sent j r' = 0" if "ro_next r' \<le> j" for j
    using roll_ok_fresh [OF assms(1), of j] that assms(3,4,6) by simp
qed

lemma camp_ok_cong: "view (cg_id c) r = view (cg_id c) r' \<Longrightarrow> sent (cg_id c) r = sent (cg_id c) r' \<Longrightarrow> camp_ok c r = camp_ok c r'"
  by (simp add: camp_ok_def)

text \<open>Known campaign ids with their policies, the part of the table a tick keeps.\<close>

definition pols :: "rollout \<Rightarrow> int \<Rightarrow> (int \<times> int \<times> int \<times> bool) option" where
  "pols r j = map_option policy (dget (ro_campaigns r) j)"

lemma pols_set_state [simp]: "pols (db_set_campaign_state now cid st fin r) = pols r"
  by (rule ext, cases "dget (ro_campaigns r) cid") (simp_all add: pols_def campaign_state_get policy_def)

lemma sent_set_state [simp]: "sent j (db_set_campaign_state now cid st fin r) = sent j r"
  by (simp add: sent_def)

lemma set_state_ok: "roll_ok r \<Longrightarrow> roll_ok (db_set_campaign_state now cid st fin r)"
  unfolding roll_ok_def
proof (intro conjI allI impI)
  assume r: "distinct (map fst (ro_campaigns r))
     \<and> (\<forall>j c. dget (ro_campaigns r) j = Some c \<longrightarrow> cg_id c = j \<and> j < ro_next r \<and> camp_ok c r)
     \<and> (\<forall>j \<ge> ro_next r. view j r = [] \<and> sent j r = 0)"
  let ?r = "db_set_campaign_state now cid st fin r"
  show "distinct (map fst (ro_campaigns ?r))"
    using r by (simp add: db_set_campaign_state_def distinct_dput split: option.splits)
  fix j
  show "ro_next ?r \<le> j \<Longrightarrow> view j ?r = []" "ro_next ?r \<le> j \<Longrightarrow> sent j ?r = 0" using r by simp_all
  fix c
  assume "dget (ro_campaigns ?r) j = Some c"
  then have "pols ?r j = Some (policy c)" by (simp only: pols_def option.map)
  then have "pols r j = Some (policy c)" by (simp only: pols_set_state)
  then obtain c0 where c0: "dget (ro_campaigns r) j = Some c0" "policy c0 = policy c"
    by (auto simp: pols_def)
  with r have k: "cg_id c0 = j" "j < ro_next r" "camp_ok c0 r" by blast+
  have "cg_id c = j" using c0(2) k(1) by (simp add: policy_def)
  moreover have "camp_ok c ?r"
    using k(3) policy_camp_ok [OF c0(2)] camp_ok_cong [of c r ?r] by simp
  ultimately show "cg_id c = j" "j < ro_next ?r" "camp_ok c ?r" using k(2) by simp_all
qed

lemma pass_ok:
  assumes "roll_ok r" "pass c r r'" "pols r (cg_id c) = Some (policy c)"
  shows "roll_ok r' \<and> pols r' = pols r"
proof -
  obtain r0 where o: "only_camp (cg_id c) r r0" and ok: "camp_ok c r0"
    and r': "r' = r0 \<or> (\<exists>now st fin. r' = db_set_campaign_state now (cg_id c) st fin r0 \<and> st \<noteq> ''running'')"
    using assms(2) unfolding pass_def by blast
  have cs: "ro_campaigns r0 = ro_campaigns r" "ro_next r0 = ro_next r"
    and fr: "\<And>j. j \<noteq> cg_id c \<Longrightarrow> view j r0 = view j r" "\<And>j. j \<noteq> cg_id c \<Longrightarrow> sent j r0 = sent j r"
    using o by (simp_all add: only_camp_def)
  obtain c0 where c0: "dget (ro_campaigns r) (cg_id c) = Some c0" "policy c0 = policy c"
    using assms(3) by (auto simp: pols_def)
  have r: "distinct (map fst (ro_campaigns r))"
    "\<And>j d. dget (ro_campaigns r) j = Some d \<Longrightarrow> cg_id d = j \<and> j < ro_next r \<and> camp_ok d r"
    "\<And>j. ro_next r \<le> j \<Longrightarrow> view j r = [] \<and> sent j r = 0"
    using assms(1) by (simp_all add: roll_ok_def)
  have "roll_ok r0"
    unfolding roll_ok_def cs
  proof (intro conjI allI impI)
    show "distinct (map fst (ro_campaigns r))" by (rule r(1))
    fix j
    show "view j r0 = []" if "ro_next r \<le> j"
      using r(3) [OF that] r(2) [OF c0(1)] fr(1) [of j] that by fastforce
    show "sent j r0 = 0" if "ro_next r \<le> j"
      using r(3) [OF that] r(2) [OF c0(1)] fr(2) [of j] that by fastforce
    fix d
    assume d: "dget (ro_campaigns r) j = Some d"
    from r(2) [OF d] show "cg_id d = j" "j < ro_next r" by simp_all
    show "camp_ok d r0"
    proof (cases "j = cg_id c")
      case True
      with d c0 have "policy d = policy c" by simp
      then show ?thesis using ok policy_camp_ok by blast
    next
      case False
      then show ?thesis using r(2) [OF d] fr [of j] camp_ok_cong [of d r r0] by simp
    qed
  qed
  moreover have "pols r0 = pols r" by (rule ext) (simp add: pols_def cs)
  ultimately show ?thesis using r' set_state_ok by auto
qed

lemma tick_fold:
  assumes "roll_ok r" "\<forall>c \<in> set cs. pols r (cg_id c) = Some (policy c)"
  shows "roll_ok (foldl (\<lambda>r c. advance now c r) r cs)
    \<and> (\<forall>j. j \<notin> cg_id ` set cs \<longrightarrow> dget (ro_campaigns (foldl (\<lambda>r c. advance now c r) r cs)) j = dget (ro_campaigns r) j
          \<and> sent j (foldl (\<lambda>r c. advance now c r) r cs) = sent j r
          \<and> view j (foldl (\<lambda>r c. advance now c r) r cs) = view j r)
    \<and> pols (foldl (\<lambda>r c. advance now c r) r cs) = pols r"
  using assms
proof (induction cs arbitrary: r)
  case (Cons c cs)
  let ?r = "advance now c r"
  from Cons.prems(2) obtain c0 where c0: "dget (ro_campaigns r) (cg_id c) = Some c0" "policy c0 = policy c"
    by (auto simp: pols_def)
  have "camp_ok c r"
    using roll_ok_camp [OF Cons.prems(1) c0(1)] policy_camp_ok [OF c0(2)] by blast
  note pa = advance_pass [OF this, of now]
  have ok: "roll_ok ?r" "pols ?r = pols r" using pass_ok [OF Cons.prems(1) pa] Cons.prems(2) by simp_all
  have fr: "dget (ro_campaigns ?r) j = dget (ro_campaigns r) j \<and> sent j ?r = sent j r \<and> view j ?r = view j r"
    if "j \<noteq> cg_id c" for j
    using pa that by (auto simp: pass_def only_camp_def campaign_state_get)
  have "roll_ok (foldl (\<lambda>r c. advance now c r) ?r cs)
    \<and> (\<forall>j. j \<notin> cg_id ` set cs \<longrightarrow> dget (ro_campaigns (foldl (\<lambda>r c. advance now c r) ?r cs)) j = dget (ro_campaigns ?r) j
          \<and> sent j (foldl (\<lambda>r c. advance now c r) ?r cs) = sent j ?r
          \<and> view j (foldl (\<lambda>r c. advance now c r) ?r cs) = view j ?r)
    \<and> pols (foldl (\<lambda>r c. advance now c r) ?r cs) = pols ?r"
    using Cons.prems(2) ok by (intro Cons.IH) simp_all
  then show ?case using fr ok(2) by auto
qed simp

lemma listed_known:
  assumes "roll_ok r" "c \<in> set (db_list_campaigns n r)"
  shows "dget (ro_campaigns r) (cg_id c) = Some c"
proof -
  have "c \<in> set (map snd (ro_campaigns r))"
    using assms(2) unfolding db_list_campaigns_def by (auto dest: in_set_takeD)
  then obtain j where j: "(j, c) \<in> set (ro_campaigns r)" by auto
  with assms(1) have "dget (ro_campaigns r) j = Some c" by (simp add: roll_ok_def)
  with assms(1) show ?thesis by (auto simp: roll_ok_def)
qed

lemma tick_ok:
  assumes "roll_ok r"
  shows "roll_ok (campaign_tick now r)"
    and "dget (ro_campaigns r) j = Some c \<Longrightarrow> cg_state c \<noteq> ''running'' \<Longrightarrow>
      dget (ro_campaigns (campaign_tick now r)) j = Some c \<and> sent j (campaign_tick now r) = sent j r"
proof -
  let ?cs = "filter (\<lambda>c. cg_state c = ''running'') (db_list_campaigns 200 r)"
  have k: "\<forall>c \<in> set ?cs. pols r (cg_id c) = Some (policy c)"
    using listed_known [OF assms] by (auto simp: pols_def)
  note tf = tick_fold [OF assms k, of now]
  from tf show "roll_ok (campaign_tick now r)" by (simp add: campaign_tick_def)
  assume c: "dget (ro_campaigns r) j = Some c" "cg_state c \<noteq> ''running''"
  have "j \<notin> cg_id ` set ?cs" using listed_known [OF assms] c by fastforce
  then show "dget (ro_campaigns (campaign_tick now r)) j = Some c \<and> sent j (campaign_tick now r) = sent j r"
    using tf c(1) by (simp add: campaign_tick_def)
qed

definition rop_ok :: "rop \<Rightarrow> bool" where
  "rop_ok x \<longleftrightarrow> (case x of RLaunch now name build sha ids ca ba ha wi pr note user \<Rightarrow> distinct ids | _ \<Rightarrow> True)"

lemma add_rows_view:
  "view j (db_add_campaign_probes now cid ks r) = view j r @ (if j = cid then map (\<lambda>k. (k, ''queued'')) ks else [])"
  by (simp add: view_def db_list_campaign_probes_def db_add_campaign_probes_def filter_map comp_def)

lemma cnt_queued: "s \<noteq> ''queued'' \<Longrightarrow> cnt s (map (\<lambda>k. (k, ''queued'')) ks) = 0"
  by (induction ks) auto

lemma launch_ok:
  assumes "roll_ok r" "distinct ids"
  shows "roll_ok (fst (launch_campaign now name build sha ids ca ba ha wi pr note user r))"
    and "dget (ro_campaigns r) j = Some c \<Longrightarrow>
      dget (ro_campaigns (fst (launch_campaign now name build sha ids ca ba ha wi pr note user r))) j = Some c"
    and "sent j (fst (launch_campaign now name build sha ids ca ba ha wi pr note user r)) = sent j r"
proof -
  let ?valid = "filter (\<lambda>k. case db_get_probe k (ro_db r) of None \<Rightarrow> False
     | Some p \<Rightarrow> pr_supervisor p \<noteq> 0 \<and> pr_status p = ''enrolled'') (take 1000 ids)"
  let ?r = "fst (launch_campaign now name build sha ids ca ba ha wi pr note user r)"
  have conc: "roll_ok ?r \<and> (\<forall>j c. dget (ro_campaigns r) j = Some c \<longrightarrow> dget (ro_campaigns ?r) j = Some c)
    \<and> (\<forall>j. sent j ?r = sent j r)"
  proof (cases "?valid = []")
    case True
    then have "?r = r" by (simp add: launch_campaign_def)
    then show ?thesis using assms(1) by simp
  next
    case False
    obtain c where c: "cg_id c = ro_next r"
      and r': "ro_campaigns ?r = dput (ro_next r) c (ro_campaigns r)" "ro_next ?r = ro_next r + 1" "ro_sent ?r = ro_sent r"
      and v: "\<And>j. view j ?r = view j r @ (if j = ro_next r then map (\<lambda>k. (k, ''queued'')) ?valid else [])"
    proof -
      let ?c = "\<lparr> cg_id = ro_next r, cg_name = take 120 (if name = [] then ''Update to '' @ build else name),
          cg_target = build, cg_sha = sha, cg_canary = max 1 (min (int_or ca 1) (int (length ?valid))),
          cg_batch = max 1 (min (int_or ba 5) 500), cg_halt = ha,
          cg_window = max 300 (min (int_or wi 86400) (30 * 86400)), cg_probation = max 30 (min (int_or pr 120) 900),
          cg_state = ''running'', cg_note = take 500 note, cg_by = user, cg_created = now,
          cg_started = now, cg_finished = 0 \<rparr>"
      let ?r1 = "r\<lparr> ro_next := ro_next r + 1, ro_campaigns := dput (ro_next r) ?c (ro_campaigns r) \<rparr>"
      have e: "?r = db_add_campaign_probes now (ro_next r) ?valid ?r1"
        using False by (simp add: launch_campaign_def db_create_campaign_def Let_def)
      have "view j ?r1 = view j r" for j by (simp add: view_def db_list_campaign_probes_def)
      then have "view j ?r = view j r @ (if j = ro_next r then map (\<lambda>k. (k, ''queued'')) ?valid else [])" for j
        unfolding e by (simp add: add_rows_view)
      moreover have "ro_campaigns ?r = dput (ro_next r) ?c (ro_campaigns r)" "ro_next ?r = ro_next r + 1" "ro_sent ?r = ro_sent r"
        unfolding e by (simp_all add: db_add_campaign_probes_def)
      ultimately show ?thesis using that [of ?c] by simp
    qed
    have s: "sent j ?r = sent j r" for j using r'(3) by (simp add: sent_def)
    have new: "view (ro_next r) r = []" "sent (ro_next r) r = 0" using assms(1) by (simp_all add: roll_ok_def)
    have dv: "distinct ?valid" using assms(2) by simp
    have "camp_ok c ?r"
      using canary_pos [of c] dv
      by (simp add: camp_ok_def counts_ok_def c v new s cnt_queued comp_def)
    moreover have "camp_ok d ?r" if "dget (ro_campaigns r) j = Some d" for j d
    proof -
      have "cg_id d \<noteq> ro_next r" "camp_ok d r" using roll_ok_camp [OF assms(1) that] by auto
      then show ?thesis using camp_ok_cong [of d r ?r] v s by simp
    qed
    moreover have lt: "j < ro_next r" if "dget (ro_campaigns r) j = Some d" for j d
      using roll_ok_camp [OF assms(1) that] by simp
    ultimately have ent: "cg_id d = j \<and> j < ro_next ?r \<and> camp_ok d ?r" if "dget (ro_campaigns ?r) j = Some d" for j d
      using that roll_ok_camp [OF assms(1), of j d] c
      by (cases "j = ro_next r") (auto simp: r' dict.get_put dest: lt)
    have "roll_ok ?r"
    proof (rule roll_okI)
      show "distinct (map fst (ro_campaigns ?r))" using roll_ok_distinct [OF assms(1)] by (simp add: r' distinct_dput)
      show "view j ?r = [] \<and> sent j ?r = 0" if "ro_next ?r \<le> j" for j
        using roll_ok_fresh [OF assms(1), of j] that s v by (simp add: r')
    qed (rule ent)
    moreover have "dget (ro_campaigns ?r) j = Some d" if "dget (ro_campaigns r) j = Some d" for j d
      using lt [OF that] that by (simp only: r' dict.get_put) simp
    ultimately show ?thesis using s by blast
  qed
  then show "roll_ok ?r" "sent j ?r = sent j r" by blast+
  show "dget (ro_campaigns r) j = Some c \<Longrightarrow> dget (ro_campaigns ?r) j = Some c" using conc by blast
qed

lemma report_ok:
  assumes "roll_ok r"
  shows "roll_ok (report_update now k rep r)" "ro_campaigns (report_update now k rep r) = ro_campaigns r"
    "sent j (report_update now k rep r) = sent j r"
proof -
  define r1 where "r1 = on_db (db_set_probe_update_state now k (if take 32 (ur_outcome rep) = ''success'' then ''succeeded''
      else take 32 (ur_outcome rep)) (Some (take 64 (ur_target rep))) None None
      (if take 32 (ur_outcome rep) = ''success'' then [] else take 500 (ur_reason rep)))
      (on_db (db_record_update_report (rep\<lparr> ur_probe := k \<rparr>)) r)"
  have db: "view j r1 = view j r" "sent j r1 = sent j r" "ro_campaigns r1 = ro_campaigns r" "ro_next r1 = ro_next r" for j
    by (simp_all add: r1_def)
  have ok1: "roll_ok r1" by (rule roll_ok_mono [OF assms]) (simp_all add: db camp_ok_def)
  have cases: "report_update now k rep r = r1 \<or> (\<exists>cid st err. (st = ''succeeded'' \<or> st = ''rolled_back'') \<and>
      report_update now k rep r = db_set_campaign_probe_state now cid k st None err False True r1)"
    unfolding report_update_def r1_def Let_def by (auto split: option.splits)
  have "roll_ok (db_set_campaign_probe_state now cid k st None err False True r1)"
    if st: "st = ''succeeded'' \<or> st = ''rolled_back''" for cid st err
  proof -
    let ?r = "db_set_campaign_probe_state now cid k st None err False True r1"
    have s: "sent j ?r = sent j r1" for j by (simp add: sent_def)
    have ok: "camp_ok c ?r" if c: "camp_ok c r1" for c
    proof (cases "cg_id c = cid")
      case True
      have "counts_ok c (sent cid r1) (upd k st (view cid r1))"
        using c True by (intro counts_report [OF _ st]) (simp add: camp_ok_def)
      then show ?thesis using True by (simp add: camp_ok_def s view_set_state)
    next
      case False
      then show ?thesis using c by (simp add: camp_ok_def s view_set_state)
    qed
    have "view j ?r = []" if "view j r1 = []" for j using that by (auto simp: view_set_state)
    then show ?thesis by (intro roll_ok_mono [OF ok1]) (simp_all add: s ok)
  qed
  with cases ok1 show "roll_ok (report_update now k rep r)" by auto
  from cases db show "ro_campaigns (report_update now k rep r) = ro_campaigns r" by auto
  from cases db show "sent j (report_update now k rep r) = sent j r" by (auto simp: sent_def)
qed

lemma rexec_ok:
  assumes "roll_ok r" "rop_ok x"
  shows "roll_ok (rexec x r)"
    and "dget (ro_campaigns r) j = Some c \<Longrightarrow> cg_state c \<noteq> ''running'' \<Longrightarrow>
      (\<exists>c'. dget (ro_campaigns (rexec x r)) j = Some c' \<and> cg_state c' \<noteq> ''running'') \<and> sent j (rexec x r) = sent j r"
proof -
  show "roll_ok (rexec x r)"
  proof (cases x)
    case (RRegistry f)
    have "roll_ok (on_db f r)" by (rule roll_ok_mono [OF assms(1)]) (simp_all add: camp_ok_def)
    then show ?thesis using RRegistry by simp
  next
    case (RAbort now cid)
    then show ?thesis using assms(1) set_state_ok by (auto simp: abort_campaign_def split: option.splits)
  qed (use assms in \<open>auto simp: rop_ok_def launch_ok tick_ok report_ok\<close>)
  assume c: "dget (ro_campaigns r) j = Some c" "cg_state c \<noteq> ''running''"
  show "(\<exists>c'. dget (ro_campaigns (rexec x r)) j = Some c' \<and> cg_state c' \<noteq> ''running'') \<and> sent j (rexec x r) = sent j r"
  proof (cases x)
    case (RLaunch now name build sha ids ca ba ha wi pr nt user)
    then show ?thesis using launch_ok(2,3) [OF assms(1), of ids] assms(2) c by (simp add: rop_ok_def)
  next
    case (RTick now)
    then show ?thesis using tick_ok(2) [OF assms(1) c] c by simp
  next
    case (RReport now k rep)
    then show ?thesis using report_ok [OF assms(1)] c by simp
  next
    case (RAbort now cid)
    then show ?thesis using c by (auto simp: abort_campaign_def campaign_state_get split: option.splits)
  next
    case (RRegistry f)
    then show ?thesis using c by simp
  qed
qed

definition rrun :: "rop list \<Rightarrow> rollout \<Rightarrow> rollout" where
  "rrun xs r = foldl (\<lambda>r x. rexec x r) r xs"

lemma rrun_ok: "roll_ok r \<Longrightarrow> list_all rop_ok xs \<Longrightarrow> roll_ok (rrun xs r)"
  unfolding rrun_def by (induction xs arbitrary: r) (simp_all add: rexec_ok)

text \<open>A campaign that left \<open>running\<close> sends nothing more, ever.\<close>

lemma stopped_sends_nothing:
  assumes "roll_ok r" "list_all rop_ok xs" "dget (ro_campaigns r) j = Some c" "cg_state c \<noteq> ''running''"
  shows "sent j (rrun xs r) = sent j r"
  using assms
proof (induction xs arbitrary: r c)
  case Nil
  then show ?case by (simp add: rrun_def)
next
  case (Cons x xs)
  have x: "rop_ok x" and xs: "list_all rop_ok xs" using Cons.prems(2) by simp_all
  from rexec_ok(2) [OF Cons.prems(1) x Cons.prems(3,4)]
  obtain c' where "dget (ro_campaigns (rexec x r)) j = Some c'" "cg_state c' \<noteq> ''running''"
    and s: "sent j (rexec x r) = sent j r" by blast
  from Cons.IH [OF rexec_ok(1) [OF Cons.prems(1) x] xs this(1,2)] s show ?case by (simp add: rrun_def)
qed

section \<open>Canary and halt\<close>

lemma rollout_bounds:
  assumes "list_all rop_ok xs" "dget (ro_campaigns (rrun xs (init_rollout db))) j = Some c"
  shows "int (nD (view j (rrun xs (init_rollout db)))) \<le> max (canary_n c) (batch_n c)"
    and "cg_halt c \<Longrightarrow> int (sent j (rrun xs (init_rollout db))) \<le> canary_n c
      \<or> canary_n c \<le> int (nS (view j (rrun xs (init_rollout db))) + nR (view j (rrun xs (init_rollout db)))
            + nF (view j (rrun xs (init_rollout db))))"
  using roll_ok_camp [OF rrun_ok [OF roll_ok_init assms(1)] assms(2)]
  by (auto simp: camp_ok_def counts_ok_def)

lemma listed_distinct:
  assumes "roll_ok r"
  shows "distinct (map cg_id (db_list_campaigns n r))"
proof -
  let ?cs = "map snd (ro_campaigns r)"
  have "cg_id (snd p) = fst p" if "p \<in> set (ro_campaigns r)" for p
    using roll_ok_camp [OF assms, of "fst p" "snd p"] roll_ok_distinct [OF assms] that
    by (simp add: map_of_is_SomeI)
  then have "map cg_id ?cs = map fst (ro_campaigns r)" by simp
  then have "distinct (map cg_id ?cs)" using roll_ok_distinct [OF assms] by (simp only:)
  then have "distinct (map cg_id (sort_key (\<lambda>c. - cg_created c) ?cs))"
    by (metis mset_eq_imp_distinct_iff mset_map mset_sort)
  then show ?thesis unfolding db_list_campaigns_def take_map [symmetric] by (rule distinct_take)
qed

lemma tick_halts:
  assumes "roll_ok r" "c \<in> set (db_list_campaigns 200 r)" "cg_state c = ''running''" "cg_halt c"
    and "failures (db_list_campaign_probes (cg_id c) r) \<noteq> []"
  shows "sent (cg_id c) (campaign_tick now r) = sent (cg_id c) r
    \<and> map_option cg_state (dget (ro_campaigns (campaign_tick now r)) (cg_id c)) = Some ''halted''"
proof -
  let ?cs = "filter (\<lambda>c. cg_state c = ''running'') (db_list_campaigns 200 r)"
  have "c \<in> set ?cs" using assms(2,3) by simp
  then obtain xs ys where cs: "?cs = xs @ c # ys" by (meson split_list)
  have "distinct (map cg_id ?cs)" using listed_distinct [OF assms(1)] by (rule distinct_map_filter)
  then have no: "cg_id c \<notin> cg_id ` set xs" "cg_id c \<notin> cg_id ` set ys" unfolding cs by auto
  have k: "pols r (cg_id d) = Some (policy d)" if "d \<in> set ?cs" for d
    using listed_known [OF assms(1)] that by (auto simp: pols_def)
  let ?r1 = "foldl (\<lambda>r c. advance now c r) r xs"
  have f1: "roll_ok ?r1" "dget (ro_campaigns ?r1) (cg_id c) = dget (ro_campaigns r) (cg_id c)"
    "sent (cg_id c) ?r1 = sent (cg_id c) r" "view (cg_id c) ?r1 = view (cg_id c) r" "pols ?r1 = pols r"
    using tick_fold [OF assms(1), of xs now] k no(1) cs by simp_all
  have nf: "failures (db_list_campaign_probes (cg_id c) q) = [] \<longleftrightarrow> nR (view (cg_id c) q) = 0 \<and> nF (view (cg_id c) q) = 0" for q
    using in_state_length [of "''rolled_back''" "cg_id c" q] in_state_length [of "''failed_offline''" "cg_id c" q]
    by (auto simp: failures_def)
  have "failures (db_list_campaign_probes (cg_id c) ?r1) \<noteq> []" using assms(5) f1(4) nf [of r] nf [of ?r1] by simp
  then have adv: "advance now c ?r1 = db_set_campaign_state now (cg_id c) ''halted'' False ?r1"
    using assms(4) by (simp add: advance_def Let_def)
  let ?r2 = "advance now c ?r1"
  have r2: "roll_ok ?r2" "pols ?r2 = pols r" using set_state_ok [OF f1(1)] f1(5) by (simp_all add: adv)
  have st: "map_option cg_state (dget (ro_campaigns ?r2) (cg_id c)) = Some ''halted''" "sent (cg_id c) ?r2 = sent (cg_id c) r"
    using listed_known [OF assms(1,2)] f1(2,3) by (simp_all add: adv campaign_state_get)
  have "foldl (\<lambda>r c. advance now c r) r ?cs = foldl (\<lambda>r c. advance now c r) ?r2 ys" by (simp add: cs)
  moreover have "\<forall>d \<in> set ys. pols ?r2 (cg_id d) = Some (policy d)" using k r2(2) cs by simp
  note tick_fold [OF r2(1) this, of now]
  ultimately show ?thesis using st no(2) by (simp add: campaign_tick_def)
qed

lemma halted_for_good:
  assumes "roll_ok r" "c \<in> set (db_list_campaigns 200 r)" "cg_state c = ''running''" "cg_halt c"
    and "failures (db_list_campaign_probes (cg_id c) r) \<noteq> []" "list_all rop_ok xs"
  shows "sent (cg_id c) (rrun xs (campaign_tick now r)) = sent (cg_id c) r"
proof -
  note h = tick_halts [OF assms(1-5), of now]
  then obtain c' where "dget (ro_campaigns (campaign_tick now r)) (cg_id c) = Some c'" "cg_state c' = ''halted''"
    by auto
  then show ?thesis
    using stopped_sends_nothing [OF tick_ok(1) [OF assms(1)] assms(6)] h by simp
qed

text \<open>
  An update that never reports: a probe that keeps checking in is never declared dark, and in the
  canary phase it holds the budget, so the pass changes nothing at any later time.
\<close>

lemma silent_canary_stuck:
  assumes "roll_ok r" "cg_halt c \<Longrightarrow> failures (db_list_campaign_probes (cg_id c) r) = []"
    and "\<forall>x \<in> set (in_state ''dispatched'' (db_list_campaign_probes (cg_id c) r)). online now (db_get_probe (cp_probe x) (ro_db r))"
    and "int (nS (view (cg_id c) r)) < canary_n c" "canary_n c \<le> int (nS (view (cg_id c) r)) + int (nD (view (cg_id c) r))"
    and "now - started_of now c \<le> of_int (window_n c)"
  shows "advance now c r = r"
proof -
  let ?rows = "db_list_campaign_probes (cg_id c) r"
  have nd: "\<not> list_ex (gone_dark now c (ro_db r)) (in_state ''dispatched'' ?rows)"
    using assms(3) by (auto simp: list_ex_iff gone_dark_def)
  have stop: "dispatch_rows now c b xs r = r" if "b \<le> 0" for b xs using that by (cases xs) simp_all
  have "nD (view (cg_id c) r) \<noteq> 0" using assms(4,5) by simp
  then have "in_state ''dispatched'' ?rows \<noteq> []" using in_state_length [of "''dispatched''" "cg_id c" r] by auto
  moreover have "int (length (in_state ''succeeded'' ?rows)) < canary_n c"
    "canary_n c - int (length (in_state ''dispatched'' ?rows)) - int (length (in_state ''succeeded'' ?rows)) \<le> 0"
    using assms(4,5) by (simp_all add: in_state_length)
  ultimately have "advance_queued now c r = r"
    using assms(6) by (simp add: advance_queued_def Let_def stop)
  then show ?thesis
    using assms(2) nd fail_dark_none [OF nd] by (auto simp: advance_def Let_def)
qed

end
