(* ===== verification/Demo.thy ===== *)
theory Demo
  imports MonitorLaws Batcher Delivery RolloutLaws
begin

text \<open>
  A small installation for the witnesses of the root theory: one device with one ping sensor, a
  cascade of one profile with a down stage, a template, an empty maintenance table, a parent graph
  of two devices, and a few results of probes. Nothing here models code.
\<close>

section \<open>Sensor, device, results\<close>

definition demo_cfg :: sensor_cfg where
  "demo_cfg = \<lparr> c_name = ''gw'', c_stype = ''ping'', c_host = ''10.0.0.1'', c_interval = 30,
     c_fail_after = 2, c_recover_after = 1, c_warn_ms = Some 100, c_crit_ms = Some 200,
     c_loss_warn_pct = 0, c_loss_crit_pct = 0, c_alerts_muted = False, c_host_override = False,
     c_snmp_unit = [], c_snmp_oid = [], c_vmware_metric = [], c_cert_warn_days = 0,
     c_cert_crit_days = 0, c_probe_id = [], c_anomaly_enabled = False, c_anomaly_sensitivity = 2,
     c_anomaly_min_samples = 50 \<rparr>"

definition demo_sensor :: sensor where "demo_sensor = new_sensor ''d1'' ''s1'' demo_cfg"

definition demo_dev :: device where
  "demo_dev = (new_device ''d1'' ''core'' ''10.0.0.1'' ''lan'' ''hq'')
     \<lparr> d_sensors := [(''s1'', demo_sensor)], d_sid_ctr := 1 \<rparr>"

definition demo_p :: pstate where
  "demo_p = \<lparr> p_dev = demo_dev, p_s = demo_sensor, p_in_grace = False, p_parked = [], p_out = [] \<rparr>"

definition fail_r :: probe_result where
  "fail_r = \<lparr> r_ok = False, r_ms = None, r_detail = ''timeout'', r_value = None, r_snmp_type = [],
     r_rate = None, r_cert_days = None \<rparr>"

definition ok_r :: "real \<Rightarrow> probe_result" where
  "ok_r ms = \<lparr> r_ok = True, r_ms = Some ms, r_detail = ''ok'', r_value = None, r_snmp_type = [],
     r_rate = None, r_cert_days = None \<rparr>"

definition demo_anom :: anom_settings where
  "demo_anom = \<lparr> as_cold_start_hours = 24, as_global_enabled = True \<rparr>"

lemma demo_p_simps [simp]:
  "p_s demo_p = demo_sensor" "p_dev demo_p = demo_dev" "p_in_grace demo_p = False"
  "p_parked demo_p = []" "p_out demo_p = []"
  by (simp_all add: demo_p_def)

lemma demo_sensor_simps [simp]:
  "s_cfg demo_sensor = demo_cfg" "s_device_id demo_sensor = ''d1''" "s_sensor_id demo_sensor = ''s1''"
  "s_alerted_down demo_sensor = False" "s_down_since_ts demo_sensor = None"
  "s_consec_fail demo_sensor = 0" "s_consec_ok demo_sensor = 0" "sensor_wf demo_sensor"
  by (simp_all add: demo_sensor_def) (simp_all add: new_sensor_def demo_cfg_def int_or_def)

lemma demo_cfg_simps [simp]:
  "c_stype demo_cfg = ''ping''" "c_fail_after demo_cfg = 2" "c_recover_after demo_cfg = 1"
  "c_anomaly_enabled demo_cfg = False" "c_interval demo_cfg = 30" "c_probe_id demo_cfg = []"
  by (simp_all add: demo_cfg_def)

lemma demo_dev_simps [simp]:
  "d_device_id demo_dev = ''d1''" "d_group demo_dev = ''lan''" "d_site demo_dev = ''hq''"
  "d_probe_id demo_dev = []" "d_sensors demo_dev = [(''s1'', demo_sensor)]"
  by (simp_all add: demo_dev_def new_device_def)

lemma result_simps [simp]: "r_ok fail_r = False" "r_ok (ok_r ms) = True"
  by (simp_all add: fail_r_def ok_r_def)

section \<open>Alerting\<close>

definition down_stage :: stage where
  "down_stage = \<lparr> sg_id = 1, sg_trigger_state = TrigDown, sg_delay_s = 0, sg_repeat_min = 0,
     sg_action_ids = [1], sg_sort_order = 0 \<rparr>"

definition demo_profile :: profile where
  "demo_profile = \<lparr> pf_id = 1, pf_name = ''default'', pf_scope_type = ''global'', pf_scope_value = [],
     pf_enabled = True, pf_exclusive = False, pf_stages = [down_stage] \<rparr>"

definition demo_pdb :: profile_db where
  "demo_pdb = \<lparr> db_profiles = [demo_profile], db_next_profile = 2, db_next_stage = 2 \<rparr>"

definition demo_tdb :: template_db where
  "demo_tdb = \<lparr> td_rows = [(1, \<lparr> tp_name = ''mail'', tp_atype = ''email'', tp_config = [] \<rparr>)], td_next = 2 \<rparr>"

definition no_rca :: rca_in where
  "no_rca = \<lparr> ri_devs = [], ri_group_parents = [], ri_tier = (\<lambda>_. ''other''), ri_down = [], ri_traps = [] \<rparr>"

definition demo_window :: window where
  "demo_window = \<lparr> w_id = 1, w_name = ''patch night'', w_scope_type = ''device'', w_scope_value = ''d1'',
     w_start_ts = 100, w_end_ts = 200, w_recurring = False, w_recur_days = [], w_recur_start = [],
     w_recur_end = [], w_enabled = Some True, w_created_by = ''ops'', w_created_at = 50 \<rparr>"

definition demo_alert :: "ts \<Rightarrow> alert_env" where
  "demo_alert now = \<lparr> v_now = now, v_clock = \<lparr> lc_weekday = 1, lc_time = 0 \<rparr>,
     v_windows = \<lparr> wd_rows = [demo_window], wd_next = 2 \<rparr>, v_backend = SQLite,
     v_flap_ack = (\<lambda>_ _. None), v_muted_groups = [], v_rca_enabled = True, v_rca = no_rca \<rparr>"

definition demo_engine :: engine where
  "demo_engine = \<lparr> e_cascade = init_cascade demo_pdb, e_templates = demo_tdb, e_stages = [],
     e_events = empty_events, e_supp = [], e_rca = \<lparr> me_ts = 0, me_incidents = [], me_suppress = [] \<rparr>,
     e_sent = [] \<rparr>"

definition demo_x :: "ts \<Rightarrow> mon_env" where
  "demo_x now = \<lparr> x_alert = demo_alert now, x_anom = demo_anom, x_max_sample_ts = (\<lambda>_ _. 0),
     x_mono = now, x_grace_s = 60 \<rparr>"

text \<open>The sensor a minute into an outage that began at 1000.\<close>

definition down_sensor :: sensor where
  "down_sensor = demo_sensor\<lparr> s_running := True, s_alerted_down := True, s_down_since_ts := Some 1000,
     s_alive := Some False \<rparr>"

section \<open>A reachable monitor\<close>

definition demo_ops :: "op list" where
  "demo_ops = [OpAddDevice ''core'' ''10.0.0.1'' ''lan'' ''hq'', OpAddSensor ''d1'' [] demo_cfg,
     OpStart ''d1'' ''s1'' 0]"

definition demo_monitor :: monitor where
  "demo_monitor = foldl (\<lambda>m a. exec (demo_x 1000) a m)
     (init_monitor demo_pdb demo_tdb \<lparr> sb_db = [], sb_map = None \<rparr>) demo_ops"

lemma reachable_oper: "reachable m \<Longrightarrow> startable a m \<Longrightarrow> reachable (exec x a m)"
  by (rule reachable.step) (auto intro: step.oper)

lemma demo_reachable: "reachable demo_monitor"
  unfolding demo_monitor_def demo_ops_def foldl.simps
  by (intro reachable_oper reachable.init) simp_all

text \<open>The same installation two failed probes later: the sensor is down and the alert has been sent.\<close>

definition outage_ops :: "(ts \<times> op) list" where
  "outage_ops = [(1000, OpRunBegin ''d1'' ''s1''), (1000, OpRunEnd ''d1'' ''s1'' fail_r 1000),
     (1030, OpTick (\<lambda>_. True) 1030 []), (1030, OpRunBegin ''d1'' ''s1''),
     (1030, OpRunEnd ''d1'' ''s1'' fail_r 1030)]"

fun run_ops :: "(ts \<times> op) list \<Rightarrow> monitor \<Rightarrow> monitor" where
  "run_ops [] m = m"
| "run_ops ((t, a) # as) m = run_ops as (exec (demo_x t) a m)"

fun runnable :: "(ts \<times> op) list \<Rightarrow> monitor \<Rightarrow> bool" where
  "runnable [] m = True"
| "runnable ((t, a) # as) m \<longleftrightarrow> startable a m \<and> runnable as (exec (demo_x t) a m)"

lemma reachable_run: "reachable m \<Longrightarrow> runnable as m \<Longrightarrow> reachable (run_ops as m)"
  by (induction as m rule: run_ops.induct) (auto intro: reachable_oper)

definition demo_outage :: monitor where "demo_outage = run_ops outage_ops demo_monitor"

lemma demo_runnable: "runnable outage_ops demo_monitor"
  by code_simp

lemma outage_reachable: "reachable demo_outage"
  unfolding demo_outage_def by (rule reachable_run [OF demo_reachable demo_runnable])

end
