(* ===== verification/Sections.thy ===== *)
theory Sections
  imports MonitorLaws
begin

text \<open>
  The operations on probe chains section by section. The lock of the monitor is released in the middle
  of most of them: \<open>start_sensor\<close> marks the sensor under the lock and submits the chain after it,
  \<open>stop_sensor\<close> marks it under the lock and cancels the job after it, \<open>apply_probe_assignment\<close> compares
  the modes under the lock and acts on the answer after it, and a probe cycle takes no lock at all
  between its checks. A \<open>sect\<close> is what runs without another thread in between; \<open>run_sect\<close> runs one
  and returns the sections that the thread goes on with. \<open>world\<close> holds the threads under way, and
  \<open>wexec\<close> lets any of them go on. The processing of one result is one section: its sensor has one writer,
  and other threads only change fields in it that the processing does not write. \<open>runs\<close> is a thread alone: then the sections are the operations of
  \<open>Monitor\<close> (the lemmas at the end).
\<close>

section \<open>Sections\<close>

datatype sect =
    SStart did sid real | SLaunch did sid string string real
  | SStop did sid | SCancel did sid | SBump string
  | SStartDevice did | SStopDevice did bool | SAnnounce did | SResolve did "sid list"
  | SStartMany "(did \<times> sid) list" | SStartAll | SStopAll bool
  | SRemove did sid | SRemoveDevice did
  | SEdit did sid "edit list" | SEditApply did sid "edit list" bool
  | SAssign "(did \<times> sid) list" | SApply did sid | SSetRemote did sid | SSetCentral did sid
  | STake did sid | SCheck did sid | SGoRemote did sid
  | SInject did sid probe_result ts | SResched did sid | SSchedule did sid int | SEndChain did sid

subsection \<open>Start and stop\<close>

definition start_mark :: "did \<Rightarrow> sid \<Rightarrow> real \<Rightarrow> monitor \<Rightarrow> monitor \<times> sect list" where
  "start_mark d i delay m = (case find_sensor d i m of
       None \<Rightarrow> (m, [])
     | Some (dev, s) \<Rightarrow>
         (if s_running s then (m, [])
          else let (b, eff) = effective_probe (Some dev) (Some s) (m_bind m);
                   s1 = s\<lparr> s_running := True, s_stopped := False,
                           s_sched_mode := (if eff \<noteq> [] then Remote else Central) \<rparr>
               in (store_sensor_inval d dev i s1 (m\<lparr> m_bind := b \<rparr>), [SLaunch d i eff (s_stype s) delay])))"

text \<open>The type is read after the lock, from the sensor object; a removed one keeps the type it had.\<close>

definition type_now :: "did \<Rightarrow> sid \<Rightarrow> string \<Rightarrow> monitor \<Rightarrow> string" where
  "type_now d i st m = (case find_sensor d i m of None \<Rightarrow> st | Some (dev, s) \<Rightarrow> s_stype s)"

definition launch :: "mon_env \<Rightarrow> did \<Rightarrow> sid \<Rightarrow> string \<Rightarrow> string \<Rightarrow> real \<Rightarrow> monitor \<Rightarrow> monitor" where
  "launch x d i eff st delay m =
     (if eff \<noteq> [] then m\<lparr> m_bumps := m_bumps m @ [eff] \<rparr>
      else if type_now d i st m = ''vmware''
      then m\<lparr> m_sched := sched_schedule (x_mono x) d i (max 12 delay) (m_sched m) \<rparr>
      else if 0 < delay then m\<lparr> m_sched := sched_schedule (x_mono x) d i delay (m_sched m) \<rparr>
      else m\<lparr> m_ready := m_ready m @ [(d, i)] \<rparr>)"

definition stop_mark :: "did \<Rightarrow> sid \<Rightarrow> monitor \<Rightarrow> monitor \<times> sect list" where
  "stop_mark d i m = (case find_sensor d i m of
       None \<Rightarrow> (m, [SCancel d i])
     | Some (dev, s) \<Rightarrow>
         (let (b, eff) = effective_probe (Some dev) (Some s) (m_bind m)
          in (store_sensor_inval d dev i (s\<lparr> s_running := False \<rparr>) (m\<lparr> m_bind := b \<rparr>),
              SCancel d i # (if eff \<noteq> [] then [SBump eff] else []))))"

definition stop_device_sections :: "did \<Rightarrow> bool \<Rightarrow> monitor \<Rightarrow> sect list" where
  "stop_device_sections d resolve m =
     map (SStop d) (sids_of d m) @ SAnnounce d # (if resolve then [SResolve d (sids_of d m)] else [])"

definition start_many :: "(did \<times> sid) list \<Rightarrow> sect list" where
  "start_many pairs =
     (let n = length pairs; window = (if 1 < n then 30 else 0)
      in map (\<lambda>(k, (d, i)). SStart d i (of_nat k / of_nat n * window)) (enumerate 0 pairs))"

subsection \<open>Removal\<close>

definition remove_mark :: "did \<Rightarrow> sid \<Rightarrow> monitor \<Rightarrow> monitor \<times> sect list" where
  "remove_mark d i m = (case find_sensor d i m of
       None \<Rightarrow> (m, [])
     | Some (dev, s) \<Rightarrow>
         (put_device d (invalidate_status (dev\<lparr> d_sensors := ddel i (d_sensors dev) \<rparr>)) m, [SCancel d i]))"

definition remove_device_mark :: "did \<Rightarrow> monitor \<Rightarrow> monitor \<times> sect list" where
  "remove_device_mark d m = (case dget (m_devices m) d of
       None \<Rightarrow> (m, [])
     | Some dev \<Rightarrow> (m\<lparr> m_devices := ddel d (m_devices m) \<rparr>, map (SCancel d) (map fst (d_sensors dev))))"

subsection \<open>An edit: the wait for the running cycle lies between its two lock sections\<close>

definition edit_mark :: "did \<Rightarrow> sid \<Rightarrow> edit list \<Rightarrow> monitor \<Rightarrow> monitor \<times> sect list" where
  "edit_mark d i es m = (case find_sensor d i m of
       None \<Rightarrow> (m, [])
     | Some (dev, s) \<Rightarrow> (update_begin d i m, [SEditApply d i es (s_running s)]))"

definition edit_apply :: "mon_env \<Rightarrow> did \<Rightarrow> sid \<Rightarrow> edit list \<Rightarrow> bool \<Rightarrow> monitor \<Rightarrow> monitor \<times> sect list" where
  "edit_apply x d i es was_running m = (case find_sensor d i m of
       None \<Rightarrow> (m, [])
     | Some (dev, s) \<Rightarrow> (store_sensor_inval d dev i (edit_sensor x (d_host dev) es s) m,
                         if was_running then [SStart d i 0] else []))"

subsection \<open>Assignment\<close>

definition apply_read :: "did \<Rightarrow> sid \<Rightarrow> monitor \<Rightarrow> monitor \<times> sect list" where
  "apply_read d i m = (case find_sensor d i m of
       None \<Rightarrow> (m, [])
     | Some (dev, s) \<Rightarrow>
         (let (b, eff) = effective_probe (Some dev) (Some s) (m_bind m);
              new_mode = (if eff \<noteq> [] then Remote else Central)
          in (m\<lparr> m_bind := b \<rparr>,
              if new_mode = s_sched_mode s then []
              else if new_mode = Remote then [SSetRemote d i, SCancel d i]
              else if s_running s then [SStop d i, SStart d i 0]
              else [SSetCentral d i])))"

definition set_mode :: "did \<Rightarrow> sid \<Rightarrow> sched_mode \<Rightarrow> monitor \<Rightarrow> monitor" where
  "set_mode d i md m = (case find_sensor d i m of
       None \<Rightarrow> m | Some (dev, s) \<Rightarrow> store_sensor d dev i (s\<lparr> s_sched_mode := md \<rparr>) m)"

subsection \<open>A probe cycle\<close>

definition take_check :: "did \<Rightarrow> sid \<Rightarrow> monitor \<Rightarrow> monitor \<times> sect list" where
  "take_check d i m = (case find_sensor d i m of
       None \<Rightarrow> (m, [])
     | Some (dev, s) \<Rightarrow> (if \<not> s_running s then (store_sensor d dev i (s\<lparr> s_stopped := True \<rparr>) m, [])
                         else (m, [SCheck d i])))"

text \<open>From here the probe is under way.\<close>

definition side_check :: "did \<Rightarrow> sid \<Rightarrow> monitor \<Rightarrow> monitor \<times> sect list" where
  "side_check d i m = (case find_sensor d i m of
       None \<Rightarrow> (m, [])
     | Some (dev, s) \<Rightarrow>
         (let (b, eff) = effective_probe (Some dev) (Some s) (m_bind m)
          in if eff \<noteq> [] then (m\<lparr> m_bind := b \<rparr>, [SGoRemote d i])
             else (m\<lparr> m_bind := b, m_inflight := (d, i) # m_inflight m \<rparr>, [])))"

definition go_remote :: "did \<Rightarrow> sid \<Rightarrow> monitor \<Rightarrow> monitor" where
  "go_remote d i m = (case find_sensor d i m of
       None \<Rightarrow> m
     | Some (dev, s) \<Rightarrow> store_sensor d dev i (s\<lparr> s_sched_mode := Remote, s_stopped := True \<rparr>) m)"

definition resched_check :: "did \<Rightarrow> sid \<Rightarrow> monitor \<Rightarrow> monitor \<times> sect list" where
  "resched_check d i m = (case find_sensor d i m of
       None \<Rightarrow> (m, [SEndChain d i])
     | Some (dev, s) \<Rightarrow>
         (if \<not> s_running s then (m, [SEndChain d i])
          else let (b, eff) = effective_probe (Some dev) (Some s) (m_bind m)
               in (m\<lparr> m_bind := b \<rparr>,
                   if eff = [] then [SSchedule d i (c_interval (s_cfg s))] else [SEndChain d i])))"

text \<open>The flag is read a second time: a start may have come in between.\<close>

definition end_chain :: "did \<Rightarrow> sid \<Rightarrow> monitor \<Rightarrow> monitor" where
  "end_chain d i m = (case find_sensor d i m of
       None \<Rightarrow> m_emit [ELog d i (VRaw ''[STOP]'') ''info''] m
     | Some (dev, s) \<Rightarrow>
         (if s_running s then store_sensor d dev i (s\<lparr> s_sched_mode := Remote, s_stopped := True \<rparr>) m
          else m_emit [ELog d i (VRaw ''[STOP]'') ''info''] (store_sensor d dev i (s\<lparr> s_stopped := True \<rparr>) m)))"

section \<open>Threads\<close>

fun run_sect :: "mon_env \<Rightarrow> sect \<Rightarrow> monitor \<Rightarrow> monitor \<times> sect list" where
  "run_sect x (SStart d i t) m = start_mark d i t m"
| "run_sect x (SLaunch d i eff st t) m = (launch x d i eff st t m, [])"
| "run_sect x (SStop d i) m = stop_mark d i m"
| "run_sect x (SCancel d i) m = (m\<lparr> m_sched := sched_cancel d i (m_sched m) \<rparr>, [])"
| "run_sect x (SBump eff) m = (m\<lparr> m_bumps := m_bumps m @ [eff] \<rparr>, [])"
| "run_sect x (SStartDevice d) m = (m, map (\<lambda>i. SStart d i 0) (sids_of d m))"
| "run_sect x (SStopDevice d b) m = (m, stop_device_sections d b m)"
| "run_sect x (SAnnounce d) m = (announce_device d m, [])"
| "run_sect x (SResolve d js) m = (m_emit (map (\<lambda>i. EResolveFlaps d i) js) m, [])"
| "run_sect x (SStartMany ps) m = (m, start_many ps)"
| "run_sect x SStartAll m = (m, [SStartMany (all_pairs m)])"
| "run_sect x (SStopAll b) m = (m, map (\<lambda>d. SStopDevice d b) (map fst (m_devices m)))"
| "run_sect x (SRemove d i) m = remove_mark d i m"
| "run_sect x (SRemoveDevice d) m = remove_device_mark d m"
| "run_sect x (SEdit d i es) m = edit_mark d i es m"
| "run_sect x (SEditApply d i es w) m = edit_apply x d i es w m"
| "run_sect x (SAssign ps) m = (m, map (\<lambda>(d, i). SApply d i) ps)"
| "run_sect x (SApply d i) m = apply_read d i m"
| "run_sect x (SSetRemote d i) m = (set_mode d i Remote m, [])"
| "run_sect x (SSetCentral d i) m = (set_mode d i Central m, [])"
| "run_sect x (STake d i) m = take_check d i m"
| "run_sect x (SCheck d i) m = side_check d i m"
| "run_sect x (SGoRemote d i) m = (go_remote d i m, [])"
| "run_sect x (SInject d i r now) m = (fst (process_result x d i r now Local True m), [SResched d i])"
| "run_sect x (SResched d i) m = resched_check d i m"
| "run_sect x (SSchedule d i t) m = (m\<lparr> m_sched := sched_schedule (x_mono x) d i (of_int t) (m_sched m) \<rparr>, [])"
| "run_sect x (SEndChain d i) m = (end_chain d i m, [])"

text \<open>What a request, a timer or the start of the program may call.\<close>

fun call :: "sect \<Rightarrow> bool" where
  "call (SStart d i t) = True" | "call (SStop d i) = True" | "call (SStartDevice d) = True"
| "call (SStopDevice d b) = True" | "call (SStartMany ps) = True" | "call SStartAll = True"
| "call (SStopAll b) = True" | "call (SRemove d i) = True" | "call (SRemoveDevice d) = True"
| "call (SEdit d i es) = True" | "call (SAssign ps) = True" | "call _ = False"

text \<open>Operations that are one section by themselves.\<close>

fun short :: "op \<Rightarrow> bool" where
  "short (OpAddDevice n h g s) = True" | "short (OpAddSensor d h c) = True" | "short (OpRemote d i r t b) = True"
| "short (OpTick a t ts) = True" | "short (OpBindSite n p) = True" | "short (OpGraceBegin t) = True"
| "short (OpGraceTimer t) = True" | "short OpShutdown = True" | "short (OpAck k now user) = True"
| "short (OpResolve k now) = True" | "short (OpAckSensor d i now user) = True" | "short (OpResolveSensor d i now) = True"
| "short (OpResolveAll now) = True" | "short (OpCleanEvents now days) = True" | "short _ = False"

record world =
  w_mon :: monitor
  w_tasks :: "sect list list"               \<comment> \<open>threads under way: what each has still to do\<close>

datatype wev =
    Call sect | Pickup did sid | Returned did sid probe_result ts | Go nat | Short op

text \<open>
  \<open>Pickup\<close>: the executor starts a submitted job. \<open>Returned\<close>: a probe returns. \<open>Go k\<close>: the thread \<open>k\<close>
  runs its next section. An event that cannot happen changes nothing.
\<close>

fun wexec :: "mon_env \<Rightarrow> wev \<Rightarrow> world \<Rightarrow> world" where
  "wexec x (Call c) w = (if call c then w\<lparr> w_tasks := w_tasks w @ [[c]] \<rparr> else w)"
| "wexec x (Pickup d i) w =
     (if (d, i) \<in> set (m_ready (w_mon w))
      then w\<lparr> w_mon := take_job (d, i) (w_mon w), w_tasks := w_tasks w @ [[STake d i]] \<rparr> else w)"
| "wexec x (Returned d i r now) w =
     (if (d, i) \<in> set (m_inflight (w_mon w))
      then w\<lparr> w_mon := (w_mon w)\<lparr> m_inflight := remove1 (d, i) (m_inflight (w_mon w)) \<rparr>,
              w_tasks := w_tasks w @ [[SInject d i r now]] \<rparr> else w)"
| "wexec x (Go k) w =
     (if k < length (w_tasks w)
      then (case w_tasks w ! k of
              [] \<Rightarrow> w\<lparr> w_tasks := take k (w_tasks w) @ drop (Suc k) (w_tasks w) \<rparr>
            | c # rest \<Rightarrow> (let (m, nx) = run_sect x c (w_mon w)
                 in w\<lparr> w_mon := m, w_tasks := (w_tasks w)[k := nx @ rest] \<rparr>))
      else w)"
| "wexec x (Short opr) w =
     (if short opr \<and> startable opr (w_mon w) then w\<lparr> w_mon := exec x opr (w_mon w) \<rparr> else w)"

text \<open>
  A section is late when another thread has started the sensor since the thread that runs it marked it
  stopped: the cancellation then takes the job of the new chain, and the mode written back then hides
  that the sensor runs on an agent.
\<close>

definition is_running :: "did \<Rightarrow> sid \<Rightarrow> monitor \<Rightarrow> bool" where
  "is_running d i m = (case find_sensor d i m of None \<Rightarrow> False | Some (dev, s) \<Rightarrow> s_running s)"

definition is_central :: "did \<Rightarrow> sid \<Rightarrow> monitor \<Rightarrow> bool" where
  "is_central d i m = (case find_sensor d i m of None \<Rightarrow> False | Some (dev, s) \<Rightarrow> s_sched_mode s = Central)"

fun late_sect :: "sect \<Rightarrow> monitor \<Rightarrow> bool" where
  "late_sect (SCancel d i) m = (is_running d i m \<and> is_central d i m)"
| "late_sect (SSetCentral d i) m = is_running d i m"
| "late_sect _ m = False"

fun late :: "wev \<Rightarrow> world \<Rightarrow> bool" where
  "late (Go k) w = (k < length (w_tasks w) \<and> w_tasks w ! k \<noteq> [] \<and> late_sect (hd (w_tasks w ! k)) (w_mon w))"
| "late _ w = False"

definition world_of :: "monitor \<Rightarrow> world" where
  "world_of m = \<lparr> w_mon = m, w_tasks = [] \<rparr>"

text \<open>Every interleaving, and every one in which no section comes late.\<close>

inductive possible :: "world \<Rightarrow> bool" where
  start: "possible (world_of (init_monitor pdb tdb b))"
| event: "possible w \<Longrightarrow> possible (wexec x e w)"

inductive orderly :: "world \<Rightarrow> bool" where
  start: "orderly (world_of (init_monitor pdb tdb b))"
| event: "orderly w \<Longrightarrow> \<not> late e w \<Longrightarrow> orderly (wexec x e w)"

text \<open>The sensor a section will give a job, or take out of the central chains.\<close>

fun owes :: "sect \<Rightarrow> (did \<times> sid) list" where
  "owes (SLaunch d i eff st t) = (if eff = [] then [(d, i)] else [])"
| "owes (STake d i) = [(d, i)]" | "owes (SCheck d i) = [(d, i)]" | "owes (SGoRemote d i) = [(d, i)]"
| "owes (SInject d i r now) = [(d, i)]" | "owes (SResched d i) = [(d, i)]"
| "owes (SSchedule d i t) = [(d, i)]" | "owes (SEndChain d i) = [(d, i)]" | "owes _ = []"

definition owed :: "world \<Rightarrow> (did \<times> sid) list" where
  "owed w = concat (map owes (concat (w_tasks w)))"

section \<open>A thread alone\<close>

inductive runs :: "mon_env \<Rightarrow> sect list \<Rightarrow> monitor \<Rightarrow> monitor \<Rightarrow> bool" for x where
  stop: "runs x [] m m"
| go: "run_sect x c m = (m1, nx) \<Longrightarrow> runs x (nx @ rest) m1 m2 \<Longrightarrow> runs x (c # rest) m m2"

end
