(* ===== verification/SectionLaws.thy ===== *)
theory SectionLaws
  imports Sections
begin

text \<open>
  Two results about sections. A thread that is not interrupted does what the operation of \<open>Monitor\<close> says
  (\<open>exec_alone\<close>, \<open>cycle_alone\<close>). And in every orderly run a central chain is never lost: \<open>chain_upto\<close> keeps account of the sensors that a thread between two
  sections still owes a job.
\<close>

section \<open>A thread alone does the operation\<close>

lemma runs_append:
  assumes "runs x cs m m1" "runs x es m1 m2"
  shows "runs x (cs @ es) m m2"
  using assms
proof (induction rule: runs.induct)
  case (go c m m1 nx rest m3)
  then show ?case by (auto intro: runs.go)
qed simp

lemma runs_map:
  assumes "\<And>a m. runs x [c a] m (f a m)"
  shows "runs x (map c as) m (fold f as m)"
proof (induction as arbitrary: m)
  case Nil
  show ?case by (simp add: runs.stop)
next
  case (Cons a as)
  show ?case using runs_append [OF assms [of a m] Cons.IH] by simp
qed

lemma runs_one: "run_sect x c m = (m1, nx) \<Longrightarrow> runs x nx m1 m2 \<Longrightarrow> runs x [c] m m2"
  by (rule runs.go) simp_all

lemma runs_last: "run_sect x c m = (m1, []) \<Longrightarrow> runs x [c] m m1"
  by (rule runs_one [OF _ runs.stop])

lemma find_store_same:
  assumes "find_sensor d i m = Some (dev, s0)"
  shows "\<exists>dev'. find_sensor d i (store_sensor d dev i s m) = Some (dev', s)"
    "\<exists>dev'. find_sensor d i (store_sensor_inval d dev i s m) = Some (dev', s)"
  by (simp_all add: find_sensor_Some store_sensor_def store_sensor_inval_def put_device_def dict_simps)

lemma type_now_store [simp]:
  assumes "find_sensor d i m = Some (dev, s0)"
  shows "type_now d i st (store_sensor_inval d dev i s m) = s_stype s"
  using find_store_same(2) [OF assms, of s] by (auto simp: type_now_def)

lemma start_alone: "runs x [SStart d i t] m (start_sensor x d i t m)"
proof (cases "find_sensor d i m")
  case None
  then show ?thesis by (intro runs_last) (simp add: start_mark_def start_sensor_def)
next
  case (Some ds)
  obtain dev s where ds: "find_sensor d i m = Some (dev, s)" using Some by (cases ds) simp
  show ?thesis
  proof (cases "s_running s")
    case True
    then show ?thesis by (intro runs_last) (simp add: start_mark_def start_sensor_def ds)
  next
    case False
    obtain b eff where eff: "effective_probe (Some dev) (Some s) (m_bind m) = (b, eff)" by fastforce
    let ?s = "s\<lparr> s_running := True, s_stopped := False, s_sched_mode := (if eff \<noteq> [] then Remote else Central) \<rparr>"
    let ?m1 = "store_sensor_inval d dev i ?s (m\<lparr> m_bind := b \<rparr>)"
    have "type_now d i (s_stype s) ?m1 = s_stype ?s" by (rule type_now_store [of _ _ _ _ s]) (simp add: ds)
    then have ty: "type_now d i (s_stype s) ?m1 = s_stype s" by simp
    have "run_sect x (SStart d i t) m = (?m1, [SLaunch d i eff (s_stype s) t])"
      using False by (simp add: start_mark_def ds eff Let_def)
    moreover have "runs x [SLaunch d i eff (s_stype s) t] ?m1 (launch x d i eff (s_stype s) t ?m1)"
      by (rule runs_last) simp
    moreover have "launch x d i eff (s_stype s) t ?m1 = start_sensor x d i t m"
      using False by (auto simp: launch_def ty start_sensor_def ds eff Let_def)
    ultimately show ?thesis using runs_one by metis
  qed
qed

lemma stop_alone: "runs x [SStop d i] m (stop_sensor d i m)"
proof (cases "find_sensor d i m")
  case None
  have "runs x [SCancel d i] m (stop_sensor d i m)"
    by (rule runs_last) (simp add: stop_sensor_def None)
  then show ?thesis by (rule runs_one [rotated]) (simp add: stop_mark_def None)
next
  case (Some ds)
  obtain dev s where ds: "find_sensor d i m = Some (dev, s)" using Some by (cases ds) simp
  obtain b eff where eff: "effective_probe (Some dev) (Some s) (m_bind m) = (b, eff)" by fastforce
  let ?m1 = "store_sensor_inval d dev i (s\<lparr> s_running := False \<rparr>) (m\<lparr> m_bind := b \<rparr>)"
  have "runs x (SCancel d i # (if eff \<noteq> [] then [SBump eff] else [])) ?m1 (stop_sensor d i m)"
    by (rule runs.go, simp, cases "eff = []")
      (auto simp: stop_sensor_def ds eff Let_def intro: runs.stop intro!: runs_last)
  then show ?thesis by (rule runs_one [rotated]) (simp add: stop_mark_def ds eff Let_def)
qed

lemma stop_device_alone: "runs x [SStopDevice d b] m (stop_device d b m)"
proof -
  have "runs x [SAnnounce d] m1 (announce_device d m1)" for m1 by (rule runs_last) simp
  then have "runs x (map (SStop d) (sids_of d m) @ [SAnnounce d]) m (announce_device d (fold (stop_sensor d) (sids_of d m) m))"
    by (rule runs_append [OF runs_map [OF stop_alone]])
  moreover have "runs x [SResolve d js] m1 (m_emit (map (\<lambda>i. EResolveFlaps d i) js) m1)" for js m1
    by (rule runs_last) simp
  then have "runs x ((map (SStop d) (sids_of d m) @ [SAnnounce d]) @ [SResolve d (sids_of d m)]) m
      (m_emit (map (\<lambda>i. EResolveFlaps d i) (sids_of d m)) (announce_device d (fold (stop_sensor d) (sids_of d m) m)))"
    by (rule runs_append [OF calculation])
  ultimately have "runs x (stop_device_sections d b m) m (stop_device d b m)"
    by (cases b) (simp_all add: stop_device_sections_def stop_device_def Let_def)
  then show ?thesis by (rule runs_one [rotated]) simp
qed

lemma start_many_alone: "runs x [SStartMany ps] m (fst (start_sensors_staggered x ps m))"
proof -
  let ?f = "\<lambda>k. of_nat k / of_nat (length ps) * (if 1 < length ps then 30 else 0 :: real)"
  have "runs x (map (\<lambda>(k, (d, i)). SStart d i (?f k)) es) m (fold (\<lambda>(k, (d, i)). start_sensor x d i (?f k)) es m)" for es m
    by (rule runs_map) (auto intro: start_alone)
  from this [of "enumerate 0 ps" m] have "runs x (start_many ps) m (fst (start_sensors_staggered x ps m))"
    by (cases "ps = []") (simp_all add: start_many_def start_sensors_staggered_def Let_def)
  then show ?thesis by (rule runs_one [rotated]) simp
qed

lemma apply_alone: "runs x [SApply d i] m (apply_one x (d, i) m)"
proof (cases "find_sensor d i m")
  case None
  then show ?thesis by (intro runs_last) (simp add: apply_read_def apply_one_def)
next
  case (Some ds)
  obtain dev s where ds: "find_sensor d i m = Some (dev, s)" using Some by (cases ds) simp
  obtain b eff where eff: "effective_probe (Some dev) (Some s) (m_bind m) = (b, eff)" by fastforce
  let ?m1 = "m\<lparr> m_bind := b \<rparr>"
  have sm: "set_mode d i md ?m1 = store_sensor d dev i (s\<lparr> s_sched_mode := md \<rparr>) ?m1" for md
    by (simp add: set_mode_def ds)
  have 1: "runs x [SSetRemote d i, SCancel d i] ?m1 (store_sensor d dev i (s\<lparr> s_sched_mode := Remote \<rparr>)
      (?m1\<lparr> m_sched := sched_cancel d i (m_sched m) \<rparr>))"
    by (rule runs.go, simp) (auto simp: sm store_sensor_def put_device_def intro!: runs_last)
  have 2: "runs x [SStop d i, SStart d i 0] ?m1 (start_sensor x d i 0 (stop_sensor d i ?m1))"
    using runs_append [OF stop_alone start_alone] by simp
  have 3: "runs x [SSetCentral d i] ?m1 (store_sensor d dev i (s\<lparr> s_sched_mode := Central \<rparr>) ?m1)"
    by (rule runs_last) (simp add: sm)
  define nx where "nx = (let md = (if eff \<noteq> [] then Remote else Central) in
      if md = s_sched_mode s then [] else if md = Remote then [SSetRemote d i, SCancel d i]
      else if s_running s then [SStop d i, SStart d i 0] else [SSetCentral d i])"
  have "runs x nx ?m1 (apply_one x (d, i) m)"
    using 1 2 3 runs.stop [of x ?m1] by (auto simp: nx_def apply_one_def ds eff Let_def)
  then show ?thesis by (rule runs_one [rotated]) (simp add: apply_read_def ds eff nx_def Let_def)
qed

lemma remove_alone:
  "runs x [SRemove d i] m (fst (remove_sensor d i m))"
  "runs x [SRemoveDevice d] m (fst (remove_device d m))"
proof -
  show "runs x [SRemove d i] m (fst (remove_sensor d i m))"
  proof (cases "find_sensor d i m")
    case None
    then show ?thesis by (intro runs_last) (simp add: remove_mark_def remove_sensor_def)
  next
    case (Some ds)
    obtain dev s where ds: "find_sensor d i m = Some (dev, s)" using Some by (cases ds) simp
    have "runs x [SCancel d i] (put_device d (invalidate_status (dev\<lparr> d_sensors := ddel i (d_sensors dev) \<rparr>)) m)
        (fst (remove_sensor d i m))"
      by (rule runs_last) (simp add: remove_sensor_def ds put_device_def)
    then show ?thesis by (rule runs_one [rotated]) (simp add: remove_mark_def ds)
  qed
  have c: "runs x (map (SCancel d) js) m1 (fold (\<lambda>i m. m\<lparr> m_sched := sched_cancel d i (m_sched m) \<rparr>) js m1)" for js m1
    by (rule runs_map) (simp add: runs_last)
  have f: "fold (\<lambda>i m. m\<lparr> m_sched := sched_cancel d i (m_sched m) \<rparr>) js m1
      = m1\<lparr> m_sched := fold (\<lambda>i. sched_cancel d i) js (m_sched m1) \<rparr>" for js and m1 :: monitor
    by (induction js arbitrary: m1) simp_all
  show "runs x [SRemoveDevice d] m (fst (remove_device d m))"
  proof (cases "dget (m_devices m) d")
    case None
    then show ?thesis by (intro runs_last) (simp add: remove_device_mark_def remove_device_def)
  next
    case (Some dev)
    have "runs x (map (SCancel d) (map fst (d_sensors dev))) (m\<lparr> m_devices := ddel d (m_devices m) \<rparr>) (fst (remove_device d m))"
      using c [of "map fst (d_sensors dev)" "m\<lparr> m_devices := ddel d (m_devices m) \<rparr>"] by (simp add: f remove_device_def Some)
    then show ?thesis by (rule runs_one [rotated]) (simp add: remove_device_mark_def Some)
  qed
qed

lemma edit_alone: "runs x [SEdit d i es] m (fst (update_sensor x d i es m))"
proof (cases "find_sensor d i m")
  case None
  then show ?thesis by (intro runs_last) (simp add: edit_mark_def update_sensor_def)
next
  case (Some ds)
  obtain dev s where ds: "find_sensor d i m = Some (dev, s)" using Some by (cases ds) simp
  have "runs x [SEditApply d i es w] m1 (update_apply x d i es w m1)" for w m1
  proof (cases "find_sensor d i m1")
    case None
    then show ?thesis by (intro runs_last) (simp add: edit_apply_def update_apply_def)
  next
    case (Some ds1)
    then show ?thesis
      by (cases ds1; cases w) (auto simp: edit_apply_def update_apply_def Let_def intro: runs_last runs_one start_alone)
  qed
  then show ?thesis by (intro runs_one [where ?m1.0 = "update_begin d i m"]) (auto simp: edit_mark_def update_sensor_def ds)
qed

text \<open>The operations of \<open>exec\<close>, and the two halves of a cycle.\<close>

theorem exec_alone:
  "runs x [SStart d i t] m (exec x (OpStart d i t) m)" "runs x [SStop d i] m (exec x (OpStop d i) m)"
  "runs x [SStartDevice d] m (exec x (OpStartDevice d) m)" "runs x [SStopDevice d b] m (exec x (OpStopDevice d b) m)"
  "runs x [SStartAll] m (exec x OpStartAll m)" "runs x [SStopAll b] m (exec x (OpStopAll b) m)"
  "runs x [SRemove d i] m (exec x (OpRemoveSensor d i) m)" "runs x [SRemoveDevice d] m (exec x (OpRemoveDevice d) m)"
  "runs x [SAssign ps] m (exec x (OpAssign ps) m)"
proof -
  show "runs x [SStartDevice d] m (exec x (OpStartDevice d) m)"
    by (rule runs_one) (simp, simp add: start_device_def runs_map [OF start_alone])
  show "runs x [SStartAll] m (exec x OpStartAll m)"
    by (rule runs_one) (simp, simp add: start_all_def start_many_alone)
  show "runs x [SStopAll b] m (exec x (OpStopAll b) m)"
    using runs_one [OF _ runs_map [where c = "\<lambda>d. SStopDevice d b", OF stop_device_alone], of x "SStopAll b" m m "map fst (m_devices m)"]
    by (simp add: stop_all_def)
  have "runs x [case p of (d, i) \<Rightarrow> SApply d i] m (apply_one x p m)" for p m
    by (cases p) (simp add: apply_alone)
  then show "runs x [SAssign ps] m (exec x (OpAssign ps) m)"
    by (intro runs_one [where ?m1.0 = m]) (simp, simp add: apply_probe_assignment_def runs_map)
qed (simp_all add: start_alone stop_alone stop_device_alone remove_alone)

theorem cycle_alone:
  shows "runs x [STake d i] (take_job (d, i) m) (run_begin d i m)"
    and "(d, i) \<in> set (m_inflight m) \<Longrightarrow>
      runs x [SInject d i r now] (m\<lparr> m_inflight := remove1 (d, i) (m_inflight m) \<rparr>) (run_end x d i r now m)"
proof -
  let ?m = "take_job (d, i) m"
  show "runs x [STake d i] ?m (run_begin d i m)"
  proof (cases "find_sensor d i ?m")
    case None
    then show ?thesis by (intro runs_last) (simp add: take_check_def run_begin_def)
  next
    case (Some ds)
    obtain dev s where ds: "find_sensor d i ?m = Some (dev, s)" using Some by (cases ds) simp
    obtain b eff where eff: "effective_probe (Some dev) (Some s) (m_bind ?m) = (b, eff)" by fastforce
    have g: "runs x [SGoRemote d i] m1 (go_remote d i m1)" for m1 by (rule runs_last) simp
    have "runs x [SCheck d i] ?m (run_begin d i m)" if "s_running s"
      using g [of "?m\<lparr> m_bind := b \<rparr>"] that
      by (cases "eff = []") (auto simp: side_check_def ds eff run_begin_def go_remote_def Let_def intro: runs_last runs_one)
    then show ?thesis
      by (cases "s_running s") (auto simp: take_check_def ds run_begin_def Let_def intro: runs_last runs_one)
  qed
  have "runs x [SResched d i] m1 (reschedule x d i m1)" for m1
  proof (cases "find_sensor d i m1")
    case None
    have "runs x [SEndChain d i] m1 (reschedule x d i m1)"
      by (rule runs_last) (simp add: end_chain_def reschedule_def None)
    then show ?thesis by (rule runs_one [rotated]) (simp add: resched_check_def None)
  next
    case (Some ds)
    obtain dev s where ds: "find_sensor d i m1 = Some (dev, s)" using Some by (cases ds) simp
    obtain b eff where eff: "effective_probe (Some dev) (Some s) (m_bind m1) = (b, eff)" by fastforce
    have c: "resched_check d i m1 = (if s_running s then m1\<lparr> m_bind := b \<rparr> else m1,
        if s_running s \<and> eff = [] then [SSchedule d i (c_interval (s_cfg s))] else [SEndChain d i])"
      by (simp add: resched_check_def ds eff)
    have "runs x (if s_running s \<and> eff = [] then [SSchedule d i (c_interval (s_cfg s))] else [SEndChain d i])
        (if s_running s then m1\<lparr> m_bind := b \<rparr> else m1) (reschedule x d i m1)"
      by (auto simp: reschedule_def ds eff end_chain_def Let_def intro!: runs_last)
    then show ?thesis by (rule runs_one [rotated]) (simp add: c)
  qed
  then show "(d, i) \<in> set (m_inflight m) \<Longrightarrow>
      runs x [SInject d i r now] (m\<lparr> m_inflight := remove1 (d, i) (m_inflight m) \<rparr>) (run_end x d i r now m)"
    by (auto simp: run_end_def intro: runs_one)
qed

section \<open>Who owes a job\<close>

definition chain_upto :: "(did \<times> sid) set \<Rightarrow> monitor \<Rightarrow> bool" where
  "chain_upto K m \<longleftrightarrow> sorted (h_heap (m_sched m))
     \<and> (\<forall>d i. needs_probe d i m \<longrightarrow> has_job d i m \<or> (d, i) \<in> K)"

lemma upto_same:
  assumes "chain_upto K m" "sorted (h_heap (m_sched m'))" "K \<subseteq> K'"
    and "\<And>d i. needs_probe d i m' \<Longrightarrow> needs_probe d i m" "\<And>d i. has_job d i m \<Longrightarrow> has_job d i m'"
  shows "chain_upto K' m'"
  using assms unfolding chain_upto_def by blast

text \<open>A section that works on one sensor.\<close>

lemma upto_touch:
  assumes "chain_upto K m" "sorted (h_heap (m_sched m'))" "K \<subseteq> insert (d, i) K'"
    and "\<And>e j. (e, j) \<noteq> (d, i) \<Longrightarrow> needs_probe e j m' \<Longrightarrow> needs_probe e j m"
    and "\<And>e j. (e, j) \<noteq> (d, i) \<Longrightarrow> has_job e j m \<Longrightarrow> has_job e j m'"
    and "needs_probe d i m' \<Longrightarrow> has_job d i m' \<or> (d, i) \<in> K'"
  shows "chain_upto K' m'"
  unfolding chain_upto_def
proof (intro conjI allI impI)
  fix e j assume n: "needs_probe e j m'"
  show "has_job e j m' \<or> (e, j) \<in> K'"
  proof (cases "(e, j) = (d, i)")
    case True
    then show ?thesis using n assms(6) by simp
  next
    case False
    then have "has_job e j m \<or> (e, j) \<in> K" using n assms(1,4) unfolding chain_upto_def by blast
    then show ?thesis using False assms(3,5) by blast
  qed
qed (rule assms(2))

lemma upto_sorted: "chain_upto K m \<Longrightarrow> sorted (h_heap (m_sched m))"
  by (simp add: chain_upto_def)

lemma upto_not: "chain_upto (insert (d, i) K) m \<Longrightarrow> \<not> needs_probe d i m \<Longrightarrow> chain_upto K m"
  unfolding chain_upto_def by blast

lemma upto_bind [simp]: "chain_upto K (m\<lparr> m_bind := b \<rparr>) = chain_upto K m"
  by (simp add: chain_upto_def)

lemma upto_store:
  assumes "chain_upto (insert (d, i) K) m" "find_sensor d i m = Some (dev, s0)"
    and "s_running s \<and> s_sched_mode s = Central \<longrightarrow> (d, i) \<in> K \<or> has_job d i m"
  shows "chain_upto K (store_sensor d dev i s m)" "chain_upto K (store_sensor_inval d dev i s m)"
proof -
  have i: "K \<subseteq> insert (d, i) K" by blast
  show "chain_upto K (store_sensor d dev i s m)"
    by (rule upto_touch [OF assms(1), of _ d i]) (use assms(3) upto_sorted [OF assms(1)] needs_store(1) [OF assms(2)] in auto)
  show "chain_upto K (store_sensor_inval d dev i s m)"
    by (rule upto_touch [OF assms(1), of _ d i]) (use assms(3) upto_sorted [OF assms(1)] needs_store(2) [OF assms(2)] in auto)
qed

lemma upto_weaken: "chain_upto K m \<Longrightarrow> K \<subseteq> K' \<Longrightarrow> chain_upto K' m"
  unfolding chain_upto_def by blast

lemma needs_iff:
  "find_sensor d i m = Some (dev, s) \<Longrightarrow> needs_probe d i m \<longleftrightarrow> s_running s \<and> s_sched_mode s = Central"
  "find_sensor d i m = None \<Longrightarrow> \<not> needs_probe d i m"
  by (simp_all add: needs_probe_def)

lemma needs_late: "needs_probe d i m \<longleftrightarrow> is_running d i m \<and> is_central d i m"
  by (simp add: needs_probe_def is_running_def is_central_def split: option.split)

lemma upto_cancel:
  assumes "chain_upto K m" "\<not> needs_probe d i m"
  shows "chain_upto K (m\<lparr> m_sched := sched_cancel d i (m_sched m) \<rparr>)"
  by (rule upto_touch [OF assms(1), of _ d i])
    (use upto_sorted [OF assms(1)] assms(2) has_job_cancel in \<open>auto simp: sorted_sched\<close>)

lemma upto_schedule:
  assumes "chain_upto (insert (d, i) K) m"
  shows "chain_upto K (m\<lparr> m_sched := sched_schedule t d i u (m_sched m) \<rparr>)"
  by (rule upto_touch [OF assms, of _ d i]) (use upto_sorted [OF assms] in \<open>auto simp: sorted_sched has_job_def live_schedule\<close>)

text \<open>What a section leaves to its thread.\<close>

definition owing :: "sect list \<Rightarrow> (did \<times> sid) set" where
  "owing cs = set (concat (map owes cs))"

lemma owing_simps [simp]: "owing [] = {}" "owing (c # cs) = set (owes c) \<union> owing cs"
  "owing (as @ bs) = owing as \<union> owing bs"
  by (simp_all add: owing_def)

lemma owing_none: "(\<And>c. c \<in> set cs \<Longrightarrow> owes c = []) \<Longrightarrow> owing cs = {}"
  by (simp add: owing_def)

lemma upto_start:
  assumes "chain_upto K m" "start_mark d i t m = (m1, nx)"
  shows "chain_upto (owing nx \<union> K) m1"
proof (cases "find_sensor d i m")
  case None
  then show ?thesis using assms by (simp add: start_mark_def)
next
  case (Some ds)
  obtain dev s where ds: "find_sensor d i m = Some (dev, s)" using Some by (cases ds) simp
  show ?thesis
  proof (cases "s_running s")
    case True
    then show ?thesis using assms by (simp add: start_mark_def ds)
  next
    case False
    obtain b eff where eff: "effective_probe (Some dev) (Some s) (m_bind m) = (b, eff)" by fastforce
    let ?s = "s\<lparr> s_running := True, s_stopped := False, s_sched_mode := (if eff \<noteq> [] then Remote else Central) \<rparr>"
    have "m1 = store_sensor_inval d dev i ?s (m\<lparr> m_bind := b \<rparr>)" "owing nx = (if eff = [] then {(d, i)} else {})"
      using assms(2) False by (auto simp: start_mark_def ds eff)
    moreover have "chain_upto (insert (d, i) ((if eff = [] then {(d, i)} else {}) \<union> K)) (m\<lparr> m_bind := b \<rparr>)"
      using upto_weaken [OF assms(1)] by auto
    then have "chain_upto ((if eff = [] then {(d, i)} else {}) \<union> K) (store_sensor_inval d dev i ?s (m\<lparr> m_bind := b \<rparr>))"
      by (rule upto_store(2)) (use ds in \<open>auto split: if_splits\<close>)
    ultimately show ?thesis by simp
  qed
qed

lemma upto_stop:
  assumes "chain_upto K m" "stop_mark d i m = (m1, nx)"
  shows "chain_upto (owing nx \<union> K) m1"
proof (cases "find_sensor d i m")
  case None
  then show ?thesis using assms by (auto simp: stop_mark_def)
next
  case (Some ds)
  obtain dev s where ds: "find_sensor d i m = Some (dev, s)" using Some by (cases ds) simp
  obtain b eff where eff: "effective_probe (Some dev) (Some s) (m_bind m) = (b, eff)" by fastforce
  have "chain_upto (insert (d, i) K) (m\<lparr> m_bind := b \<rparr>)" using upto_weaken [OF assms(1)] by auto
  then have "chain_upto K (store_sensor_inval d dev i (s\<lparr> s_running := False \<rparr>) (m\<lparr> m_bind := b \<rparr>))"
    by (rule upto_store(2)) (use ds in simp_all)
  moreover have "m1 = store_sensor_inval d dev i (s\<lparr> s_running := False \<rparr>) (m\<lparr> m_bind := b \<rparr>)" "owing nx = {}"
    using assms(2) by (auto simp: stop_mark_def ds eff split: if_splits)
  ultimately show ?thesis by simp
qed

lemma upto_fewer:
  assumes "chain_upto K m" "m_sched m' = m_sched m" "\<And>d i. has_job d i m' = has_job d i m"
    and "\<And>d i. needs_probe d i m' \<Longrightarrow> needs_probe d i m"
  shows "chain_upto K m'"
  by (rule upto_same [OF assms(1)]) (use assms(2-4) upto_sorted [OF assms(1)] in simp_all)

lemma upto_remove:
  assumes "chain_upto K m"
  shows "remove_mark d i m = (m1, nx) \<Longrightarrow> chain_upto (owing nx \<union> K) m1"
    "remove_device_mark d m = (m1, nx) \<Longrightarrow> chain_upto (owing nx \<union> K) m1"
proof -
  show "chain_upto (owing nx \<union> K) m1" if rm: "remove_mark d i m = (m1, nx)"
  proof (cases "find_sensor d i m")
    case None
    then show ?thesis using assms rm by (simp add: remove_mark_def)
  next
    case (Some ds)
    obtain dev s where ds: "find_sensor d i m = Some (dev, s)" using Some by (cases ds) simp
    have dev: "dget (m_devices m) d = Some dev" using ds by (simp add: find_sensor_Some)
    have at: "needs_probe d j m \<longleftrightarrow> (\<exists>s. dget (d_sensors dev) j = Some s \<and> s_running s \<and> s_sched_mode s = Central)" for j
      by (simp add: needs_probe_def find_sensor_def dev map_option_case split: option.split)
    have del: "dget (ddel i (d_sensors dev)) j = (if j = i then None else dget (d_sensors dev) j)" for j
      by (rule dict.get_del)
    have "chain_upto K (put_device d (invalidate_status (dev\<lparr> d_sensors := ddel i (d_sensors dev) \<rparr>)) m)"
      by (rule upto_fewer [OF assms]) (auto simp: needs_put at del split: if_splits)
    then show ?thesis using rm by (auto simp: remove_mark_def ds)
  qed
  show "chain_upto (owing nx \<union> K) m1" if rm: "remove_device_mark d m = (m1, nx)"
  proof (cases "dget (m_devices m) d")
    case None
    then show ?thesis using assms rm by (simp add: remove_device_mark_def)
  next
    case (Some dev)
    have del: "dget (ddel d (m_devices m)) e = (if e = d then None else dget (m_devices m) e)" for e
      by (rule dict.get_del)
    have "chain_upto K (m\<lparr> m_devices := ddel d (m_devices m) \<rparr>)"
      by (rule upto_fewer [OF assms]) (auto simp: needs_probe_def find_sensor_def del has_job_def split: if_splits)
    moreover have "owing (map (SCancel d \<circ> fst) js) = {}" for js :: "(sid \<times> sensor) list" by (rule owing_none) auto
    ultimately show ?thesis using rm by (auto simp: remove_device_mark_def Some)
  qed
qed

lemma upto_edit:
  assumes "chain_upto K m"
  shows "edit_mark d i es m = (m1, nx) \<Longrightarrow> chain_upto (owing nx \<union> K) m1"
    "edit_apply x d i es w m = (m1, nx) \<Longrightarrow> chain_upto (owing nx \<union> K) m1"
proof -
  have "(edit_mark d i es m = (m1, nx) \<longrightarrow> chain_upto (owing nx \<union> K) m1)
      \<and> (edit_apply x d i es w m = (m1, nx) \<longrightarrow> chain_upto (owing nx \<union> K) m1)"
  proof (cases "find_sensor d i m")
    case None
    then show ?thesis using assms by (auto simp: edit_mark_def edit_apply_def)
  next
    case (Some ds)
    obtain dev s where ds: "find_sensor d i m = Some (dev, s)" using Some by (cases ds) simp
    have "s_running (edit_sensor x h es s) = s_running s" "s_sched_mode (edit_sensor x h es s) = s_sched_mode s" for h
      by (simp_all add: edit_sensor_def Let_def)
    then have "chain_upto K (store_sensor_inval d dev i (edit_sensor x h es s) m)" for h
      by (intro upto_fewer [OF assms]) (auto simp: needs_store [OF ds] needs_iff(1) [OF ds] split: if_splits)
    moreover have "chain_upto K (update_begin d i m)"
      unfolding update_begin_def ds by (intro upto_fewer [OF assms]) (auto simp: needs_store [OF ds] split: if_splits)
    ultimately show ?thesis by (auto simp: edit_mark_def edit_apply_def ds)
  qed
  then show "edit_mark d i es m = (m1, nx) \<Longrightarrow> chain_upto (owing nx \<union> K) m1"
    "edit_apply x d i es w m = (m1, nx) \<Longrightarrow> chain_upto (owing nx \<union> K) m1" by simp_all
qed

lemma upto_apply:
  assumes "chain_upto K m" "apply_read d i m = (m1, nx)"
  shows "chain_upto (owing nx \<union> K) m1"
proof (cases "find_sensor d i m")
  case None
  then show ?thesis using assms by (simp add: apply_read_def)
next
  case (Some ds)
  obtain dev s where ds: "find_sensor d i m = Some (dev, s)" using Some by (cases ds) simp
  obtain b eff where eff: "effective_probe (Some dev) (Some s) (m_bind m) = (b, eff)" by fastforce
  have "m1 = m\<lparr> m_bind := b \<rparr>" "owing nx = {}" using assms(2) by (auto simp: apply_read_def ds eff Let_def split: if_splits)
  then show ?thesis using assms(1) by simp
qed

lemma upto_mode:
  assumes "chain_upto K m" "md = Central \<longrightarrow> \<not> is_running d i m"
  shows "chain_upto K (set_mode d i md m)"
proof (cases "find_sensor d i m")
  case None
  then show ?thesis using assms by (simp add: set_mode_def)
next
  case (Some ds)
  obtain dev s where ds: "find_sensor d i m = Some (dev, s)" using Some by (cases ds) simp
  have "chain_upto (insert (d, i) K) m" using upto_weaken [OF assms(1)] by auto
  then show ?thesis unfolding set_mode_def ds option.case prod.case
    by (rule upto_store(1)) (use ds assms(2) in \<open>auto simp: is_running_def\<close>)
qed

lemma upto_take:
  assumes "chain_upto (insert (d, i) K) m"
  shows "take_check d i m = (m1, nx) \<Longrightarrow> chain_upto (owing nx \<union> K) m1"
    "side_check d i m = (m1, nx) \<Longrightarrow> chain_upto (owing nx \<union> K) m1"
    "chain_upto K (go_remote d i m)"
    "resched_check d i m = (m1, nx) \<Longrightarrow> chain_upto (owing nx \<union> K) m1"
    "chain_upto K (end_chain d i m)"
proof -
  have "(take_check d i m = (m1, nx) \<longrightarrow> chain_upto (owing nx \<union> K) m1)
      \<and> (side_check d i m = (m1, nx) \<longrightarrow> chain_upto (owing nx \<union> K) m1) \<and> chain_upto K (go_remote d i m)
      \<and> (resched_check d i m = (m1, nx) \<longrightarrow> chain_upto (owing nx \<union> K) m1) \<and> chain_upto K (end_chain d i m)"
  proof (cases "find_sensor d i m")
    case None
    then have "chain_upto K m" using upto_not [OF assms needs_iff(2)] by simp
    moreover have "chain_upto K (m_emit es m)" if "chain_upto K m" for es by (rule upto_fewer [OF that]) simp_all
    ultimately show ?thesis
      using None assms by (auto simp: take_check_def side_check_def go_remote_def resched_check_def end_chain_def)
  next
    case (Some ds)
    obtain dev s where ds: "find_sensor d i m = Some (dev, s)" using Some by (cases ds) simp
    obtain b eff where eff: "effective_probe (Some dev) (Some s) (m_bind m) = (b, eff)" by fastforce
    have rem: "chain_upto K (store_sensor d dev i (s\<lparr> s_sched_mode := Remote, s_stopped := True \<rparr>) m)"
      by (rule upto_store(1) [OF assms ds]) simp
    have stop: "chain_upto K (store_sensor d dev i (s\<lparr> s_stopped := True \<rparr>) m)" if "\<not> s_running s"
      by (rule upto_store(1) [OF assms ds]) (use that in simp)
    have emit: "chain_upto K (m_emit es m)" if "chain_upto K m" for es m by (rule upto_fewer [OF that]) simp_all
    have fl: "chain_upto K (m\<lparr> m_bind := b, m_inflight := (d, i) # m_inflight m \<rparr>)"
      by (rule upto_touch [OF assms, of _ d i]) (use upto_sorted [OF assms] in \<open>auto simp: has_job_def\<close>)
    have none: "chain_upto K m" if "\<not> s_running s" using upto_not [OF assms] that by (simp add: needs_iff(1) [OF ds])
    show ?thesis
      using assms rem stop emit fl none
      by (auto simp: take_check_def side_check_def go_remote_def resched_check_def end_chain_def ds eff split: if_splits)
  qed
  then show "take_check d i m = (m1, nx) \<Longrightarrow> chain_upto (owing nx \<union> K) m1"
    "side_check d i m = (m1, nx) \<Longrightarrow> chain_upto (owing nx \<union> K) m1" "chain_upto K (go_remote d i m)"
    "resched_check d i m = (m1, nx) \<Longrightarrow> chain_upto (owing nx \<union> K) m1" "chain_upto K (end_chain d i m)"
    by simp_all
qed

lemma upto_launch:
  assumes "chain_upto (set (owes (SLaunch d i eff st t)) \<union> K) m"
  shows "chain_upto K (launch x d i eff st t m)"
proof (cases "eff = []")
  case True
  then have K: "chain_upto (insert (d, i) K) m" using assms by simp
  have "chain_upto K (m\<lparr> m_ready := m_ready m @ [(d, i)] \<rparr>)"
    by (rule upto_touch [OF K, of _ d i]) (use upto_sorted [OF K] in \<open>auto simp: has_job_def\<close>)
  then show ?thesis using True upto_schedule [OF K] by (simp add: launch_def)
next
  case False
  then have "chain_upto K m" using assms by simp
  then have "chain_upto K (m\<lparr> m_bumps := bs \<rparr>)" for bs by (rule upto_fewer) simp_all
  then show ?thesis using False by (simp add: launch_def)
qed

lemma upto_inject:
  assumes "registry_ok m" "chain_upto K m"
  shows "chain_upto K (fst (process_result x d i r now src b m))"
  by (rule upto_fewer [OF assms(2)]) (simp_all add: process_frame process_needs [OF assms(1)] has_job_def)

lemma upto_announce: "chain_upto K m \<Longrightarrow> chain_upto K (announce_device d m)"
proof (cases "dget (m_devices m) d")
  case None
  moreover assume "chain_upto K m"
  then have "chain_upto K (m_emit es m)" for es by (rule upto_fewer) simp_all
  ultimately show ?thesis by (simp add: announce_device_def)
next
  case (Some dev)
  assume m: "chain_upto K m"
  have "d_sensors (fst (device_status dev)) = d_sensors dev"
    by (simp add: device_status_def Let_def split: option.split)
  moreover have "needs_probe d j m \<longleftrightarrow> (\<exists>s. dget (d_sensors dev) j = Some s \<and> s_running s \<and> s_sched_mode s = Central)" for j
    by (simp add: needs_probe_def find_sensor_def Some map_option_case split: option.split)
  ultimately have "needs_probe e j (put_device d (fst (device_status dev)) m) \<Longrightarrow> needs_probe e j m" for e j
    by (auto simp: needs_put split: if_splits)
  then have "chain_upto K (m_emit es (put_device d (fst (device_status dev)) m))" for es
    by (intro upto_fewer [OF m]) simp_all
  then show ?thesis by (simp add: announce_device_def Some split_beta Let_def)
qed

text \<open>What a thread does in one section, and the sensors it goes on owing.\<close>

lemma upto_sect:
  assumes "registry_ok m" "chain_upto (set (owes c) \<union> K) m" "\<not> late_sect c m" "run_sect x c m = (m1, nx)"
  shows "chain_upto (owing nx \<union> K) m1"
proof -
  have emit: "chain_upto K (m_emit es m)" if "chain_upto K m" for es m by (rule upto_fewer [OF that]) simp_all
  have bump: "chain_upto K (m\<lparr> m_bumps := bs \<rparr>)" if "chain_upto K m" for bs m by (rule upto_fewer [OF that]) simp_all
  have no: "owing (map (\<lambda>i. SStart d i 0) js) = {}" "owing (stop_device_sections d b m) = {}"
    "owing (start_many ps) = {}" "owing (map ((\<lambda>d. SStopDevice d b) \<circ> fst) ds) = {}"
    "owing (map (\<lambda>(d, i). SApply d i) ps) = {}" for d js b ps and ds :: "(did \<times> device) list"
    by (rule owing_none; auto simp: stop_device_sections_def start_many_def Let_def)+
  show ?thesis
  proof (cases c)
    case (SCancel d i)
    have "\<not> needs_probe d i m" using assms(3) by (simp add: SCancel needs_late)
    then have "chain_upto K (m\<lparr> m_sched := sched_cancel d i (m_sched m) \<rparr>)"
      by (rule upto_cancel [rotated]) (use assms(2) SCancel in simp)
    then show ?thesis using assms(4) SCancel by auto
  next
    case (SInject d i r now)
    then show ?thesis using upto_inject [OF assms(1,2)] assms(4) by auto
  next
    case (SLaunch d i eff st t)
    then show ?thesis using upto_launch assms(2,4) by auto
  qed (use assms(2-4) emit bump no upto_start upto_stop upto_announce upto_remove upto_edit upto_apply upto_mode
      upto_take upto_schedule in auto)
qed

section \<open>The registry and the tables\<close>

lemma mark_split:
  "fst (remove_sensor d i m) = (fst (remove_mark d i m))\<lparr> m_sched := m_sched (fst (remove_sensor d i m)) \<rparr>"
  "fst (remove_device d m) = (fst (remove_device_mark d m))\<lparr> m_sched := m_sched (fst (remove_device d m)) \<rparr>"
  by (auto simp: remove_sensor_def remove_mark_def put_device_def remove_device_def remove_device_mark_def split: option.split)

lemma registry_sect:
  assumes "registry_ok m"
  shows "registry_ok (fst (run_sect x c m))"
proof -
  have mark: "registry_ok (fst (remove_mark d i m))" "registry_ok (fst (remove_device_mark d m))" for d i
    using registry_remove_sensor [OF assms, of d i] registry_remove_device [OF assms, of d] mark_split(1) [of d i m] mark_split(2) [of d m]
    by (metis registry_frame(2))+
  have inval: "registry_ok (store_sensor_inval d dev i s' (m\<lparr> m_bind := b \<rparr>))"
    if "find_sensor d i m = Some (dev, s)" "sensor_ok d i s'" for d i dev s s' b
    by (rule registry_store_inval [of _ d i dev s]) (use assms that in simp_all)
  have one: "registry_ok (fst (start_mark d i t m))" "registry_ok (fst (stop_mark d i m))"
    "registry_ok (fst (edit_mark d i es m))" "registry_ok (fst (edit_apply x d i es w m))"
    "registry_ok (set_mode d i md m)" "registry_ok (fst (take_check d i m))" "registry_ok (go_remote d i m)"
    "registry_ok (end_chain d i m)" for d i t es w md
  proof -
    have "registry_ok (fst (start_mark d i t m)) \<and> registry_ok (fst (stop_mark d i m))
      \<and> registry_ok (fst (edit_mark d i es m)) \<and> registry_ok (fst (edit_apply x d i es w m))
      \<and> registry_ok (set_mode d i md m) \<and> registry_ok (fst (take_check d i m)) \<and> registry_ok (go_remote d i m)
      \<and> registry_ok (end_chain d i m)"
    proof (cases "find_sensor d i m")
      case None
      then show ?thesis using assms
        by (simp add: start_mark_def stop_mark_def edit_mark_def edit_apply_def set_mode_def take_check_def go_remote_def end_chain_def)
    next
      case (Some ds)
      obtain dev s where ds: "find_sensor d i m = Some (dev, s)" using Some by (cases ds) simp
      have ok: "sensor_ok d i s" using find_sensor_ok [OF assms ds] by simp
      have ed: "sensor_ok d i (edit_sensor x h es s)" for h
        using ok by (simp add: edit_sensor_def Let_def sensor_ok_def sensor_wf_def)
      have st: "registry_ok (store_sensor d dev i (s\<lparr> s_sched_mode := md' \<rparr>) m)"
        "registry_ok (store_sensor d dev i (s\<lparr> s_stopped := True \<rparr>) m)"
        "registry_ok (store_sensor d dev i (s\<lparr> s_sched_mode := md', s_stopped := True \<rparr>) m)" for md'
        by (rule registry_store [OF assms ds]; simp add: ok)+
      show ?thesis
        using assms st inval [OF ds] registry_store_inval [OF assms ds] registry_edit(1) [OF assms] ok ed
        by (simp add: start_mark_def stop_mark_def edit_mark_def edit_apply_def set_mode_def take_check_def go_remote_def
            end_chain_def ds split_beta Let_def)
    qed
    then show "registry_ok (fst (start_mark d i t m))" "registry_ok (fst (stop_mark d i m))"
      "registry_ok (fst (edit_mark d i es m))" "registry_ok (fst (edit_apply x d i es w m))"
      "registry_ok (set_mode d i md m)" "registry_ok (fst (take_check d i m))" "registry_ok (go_remote d i m)"
      "registry_ok (end_chain d i m)" by simp_all
  qed
  show ?thesis
    by (cases c) (use assms mark one in \<open>simp_all add: launch_def apply_read_def side_check_def resched_check_def
      registry_announce registry_process split_beta Let_def split: option.split\<close>)
qed

lemma tables_sect:
  assumes "tables_ok m"
  shows "tables_ok (fst (run_sect x c m))"
proof -
  have ann: "tables_ok (announce_device d m)" for d
    using assms by (simp add: announce_device_def split_beta Let_def split: option.split)
  show ?thesis
    by (cases c) (use assms ann in \<open>simp_all add: start_mark_def launch_def stop_mark_def remove_mark_def remove_device_mark_def
      edit_mark_def edit_apply_def update_begin_def apply_read_def set_mode_def take_check_def side_check_def go_remote_def
      resched_check_def end_chain_def tables_process split_beta Let_def split: option.split\<close>)
qed

section \<open>Every interleaving\<close>

lemma upto_short:
  assumes "registry_ok m" "chain_upto K m" "short opr"
  shows "chain_upto K (exec x opr m)"
proof -
  have emit: "chain_upto K (m_emit es m)" if "chain_upto K m" for es m by (rule upto_fewer [OF that]) simp_all
  have put: "chain_upto K (put_device d dev (m\<lparr> m_did_ctr := n \<rparr>))"
    if "\<And>i s. dget (d_sensors dev) i = Some s \<Longrightarrow> s_running s \<Longrightarrow> s_sched_mode s = Central \<Longrightarrow> needs_probe d i m" for d dev n
    by (rule upto_fewer [OF assms(2)]) (use that in \<open>auto simp: needs_put split: if_splits\<close>)
  have same: "m\<lparr> m_did_ctr := m_did_ctr m \<rparr> = m" by simp
  show ?thesis
  proof (cases opr)
    case (OpAddDevice n h g st)
    then show ?thesis by (simp add: add_device_def Let_def) (rule put, simp add: new_device_def)
  next
    case (OpAddSensor d h c)
    show ?thesis
    proof (cases "dget (m_devices m) d")
      case None
      then show ?thesis using assms(2) by (simp add: OpAddSensor add_sensor_def)
    next
      case (Some dev)
      have at: "needs_probe d i m \<longleftrightarrow> (\<exists>s. dget (d_sensors dev) i = Some s \<and> s_running s \<and> s_sched_mode s = Central)" for i
        by (simp add: needs_probe_def find_sensor_def Some map_option_case split: option.split)
      have "chain_upto K (put_device d (put_sensor i s dev1) m)"
        if "\<not> s_running s" "d_sensors dev1 = d_sensors dev" for i s dev1
      proof -
        have "chain_upto K (put_device d (put_sensor i s dev1) (m\<lparr> m_did_ctr := m_did_ctr m \<rparr>))"
          by (rule put) (use that in \<open>auto simp: at dict_simps split: if_splits\<close>)
        then show ?thesis by simp
      qed
      moreover have "\<not> s_running (new_sensor d i c)" for i c by (simp add: new_sensor_def)
      ultimately show ?thesis by (simp add: OpAddSensor add_sensor_def Some next_sid_def Let_def)
    qed
  next
    case (OpRemote d i r t b)
    then show ?thesis using upto_inject [OF assms(1,2)] by simp
  next
    case (OpTick a t ts)
    have "sorted (h_heap (fst (sched_pass a t ts (m_sched m))))"
      using drain_sorted [OF upto_sorted [OF assms(2)], of a t ts]
      by (simp add: sched_pass_def split_beta Let_def sched_prune_def heapify_def)
    moreover have "has_job d i (sched_tick a t ts m)" if "has_job d i m" for d i
      using that pass_jobs [of d i "m_sched m" a t ts] by (auto simp: sched_tick_def split_beta Let_def has_job_def)
    moreover have "needs_probe d i (sched_tick a t ts m) = needs_probe d i m" for d i
      by (simp add: sched_tick_def split_beta Let_def)
    ultimately show ?thesis
      by (intro upto_same [OF assms(2)]) (simp_all add: OpTick sched_tick_def split_beta Let_def)
  qed (use assms(2,3) in \<open>auto intro!: upto_fewer [OF assms(2)] emit simp: begin_startup_grace_def maybe_flush_grace_def
    flush_grace_def on_events_def Let_def has_job_def needs_probe_def find_sensor_def\<close>)
qed

definition world_ok :: "world \<Rightarrow> bool" where
  "world_ok w \<longleftrightarrow> registry_ok (w_mon w) \<and> tables_ok (w_mon w)"

lemma world_ok_exec:
  assumes "world_ok w"
  shows "world_ok (wexec x e w)"
proof (cases e)
  case (Go k)
  obtain m nx where r: "run_sect x (hd (w_tasks w ! k)) (w_mon w) = (m, nx)" by fastforce
  have "registry_ok m" "tables_ok m"
    using registry_sect [of "w_mon w" x "hd (w_tasks w ! k)"] tables_sect [of "w_mon w" x "hd (w_tasks w ! k)"] assms r
    by (simp_all add: world_ok_def)
  then show ?thesis using assms r by (auto simp: Go world_ok_def split: list.split)
next
  case (Short opr)
  then show ?thesis using assms registry_exec tables_exec by (simp add: world_ok_def)
qed (use assms in \<open>simp_all add: world_ok_def take_job_def\<close>)

lemma init_ok: "registry_ok (init_monitor pdb tdb b)" "tables_ok (init_monitor pdb tdb b)"
    "chain_ok (init_monitor pdb tdb b)"
  using mon_ok_init by (simp_all add: mon_ok_def)

lemma possible_ok: "possible w \<Longrightarrow> world_ok w"
proof (induction rule: possible.induct)
  case (start pdb tdb b)
  then show ?case by (simp add: world_ok_def world_of_def init_ok)
next
  case (event w x e)
  then show ?case using world_ok_exec by blast
qed

lemma orderly_possible: "orderly w \<Longrightarrow> possible w"
  by (induction rule: orderly.induct) (rule possible.start, rule possible.event)

lemma owed_tasks: "set (owed w) = (\<Union>t \<in> set (w_tasks w). owing t)"
  by (auto simp: owed_def owing_def)

lemma upto_jobs:
  assumes "chain_upto K m"
  shows "chain_upto (insert (d, i) K) (take_job (d, i) m)"
    "chain_upto (insert (d, i) K) (m\<lparr> m_inflight := remove1 (d, i) (m_inflight m) \<rparr>)"
proof -
  have i: "K \<subseteq> insert (d, i) (insert (d, i) K)" by blast
  show "chain_upto (insert (d, i) K) (take_job (d, i) m)"
    by (rule upto_touch [OF assms _ i]) (use upto_sorted [OF assms] in \<open>auto simp: take_job_def has_job_def in_set_remove1\<close>)
  show "chain_upto (insert (d, i) K) (m\<lparr> m_inflight := remove1 (d, i) (m_inflight m) \<rparr>)"
    by (rule upto_touch [OF assms _ i]) (use upto_sorted [OF assms] in \<open>auto simp: has_job_def in_set_remove1\<close>)
qed

lemma orderly_exec:
  assumes "world_ok w" "chain_upto (set (owed w)) (w_mon w)" "\<not> late e w"
  shows "chain_upto (set (owed (wexec x e w))) (w_mon (wexec x e w))"
proof (cases e)
  case (Call c)
  have "owes c = []" if "call c" using that by (cases c) simp_all
  then show ?thesis using assms(2) by (simp add: Call owed_tasks)
next
  case (Pickup d i)
  then show ?thesis using assms(2) upto_jobs(1) [OF assms(2)] by (simp add: owed_tasks)
next
  case (Returned d i r now)
  then show ?thesis using assms(2) upto_jobs(2) [OF assms(2)] by (simp add: owed_tasks)
next
  case (Short opr)
  then show ?thesis using assms(1,2) upto_short by (simp add: owed_def world_ok_def)
next
  case (Go k)
  show ?thesis
  proof (cases "k < length (w_tasks w)")
    case False
    then show ?thesis using assms(2) by (simp add: Go)
  next
    case k: True
    define K where "K = (\<Union>t \<in> set (take k (w_tasks w)) \<union> set (drop (Suc k) (w_tasks w)). owing t)"
    have split: "w_tasks w = take k (w_tasks w) @ w_tasks w ! k # drop (Suc k) (w_tasks w)" using k by (rule id_take_nth_drop)
    have all: "set (owed w) = owing (w_tasks w ! k) \<union> K"
      unfolding owed_tasks K_def by (subst split) auto
    show ?thesis
    proof (cases "w_tasks w ! k")
      case Nil
      then show ?thesis using k assms(2) all by (simp add: Go owed_tasks K_def Un_commute)
    next
      case (Cons c rest)
      obtain m nx where r: "run_sect x c (w_mon w) = (m, nx)" by fastforce
      have "chain_upto (set (owes c) \<union> (owing rest \<union> K)) (w_mon w)" using assms(2) all Cons by (simp add: Un_assoc)
      then have "chain_upto (owing nx \<union> (owing rest \<union> K)) m"
        by (rule upto_sect [rotated]) (use assms(1,3) r k Cons in \<open>simp_all add: world_ok_def Go\<close>)
      moreover have "wexec x e w = w\<lparr> w_mon := m, w_tasks := take k (w_tasks w) @ (nx @ rest) # drop (Suc k) (w_tasks w) \<rparr>"
        using k by (simp add: Go Cons r upd_conv_take_nth_drop)
      ultimately show ?thesis by (simp add: owed_tasks K_def Un_ac)
    qed
  qed
qed

lemma orderly_upto: "orderly w \<Longrightarrow> chain_upto (set (owed w)) (w_mon w)"
proof (induction rule: orderly.induct)
  case (start pdb tdb b)
  then show ?case using init_ok(3) [of pdb tdb b] by (simp add: world_of_def owed_def chain_upto_def chain_ok_def)
next
  case (event w e x)
  then show ?case using orderly_exec possible_ok orderly_possible by blast
qed

text \<open>A debt is paid: the section that owes a sensor gives it a job, hands the debt to the next section of
  its thread, or leaves it no sensor to be probed centrally.\<close>

theorem owed_is_paid:
  assumes "registry_ok m" "sorted (h_heap (m_sched m))" "(d, i) \<in> set (owes c)" "run_sect x c m = (m1, nx)"
  shows "\<not> needs_probe d i m1 \<or> has_job d i m1 \<or> (d, i) \<in> owing nx"
proof -
  have "chain_upto (set (owes c) \<union> - {(d, i)}) m" using assms(2,3) by (auto simp: chain_upto_def)
  moreover have "\<not> late_sect c m" using assms(3) by (cases c) simp_all
  ultimately have "chain_upto (owing nx \<union> - {(d, i)}) m1" using upto_sect assms(1,4) by blast
  then show ?thesis by (auto simp: chain_upto_def)
qed

definition wrun :: "mon_env \<Rightarrow> wev list \<Rightarrow> world \<Rightarrow> world" where
  "wrun x es w = foldl (\<lambda>w e. wexec x e w) w es"

fun in_order :: "mon_env \<Rightarrow> wev list \<Rightarrow> world \<Rightarrow> bool" where
  "in_order x [] w = True"
| "in_order x (e # es) w = (\<not> late e w \<and> in_order x es (wexec x e w))"

lemma wrun_possible: "possible w \<Longrightarrow> possible (wrun x es w)"
  by (induction es arbitrary: w) (auto simp: wrun_def intro: possible.event)

lemma wrun_orderly: "orderly w \<Longrightarrow> in_order x es w \<Longrightarrow> orderly (wrun x es w)"
  by (induction es arbitrary: w) (auto simp: wrun_def intro: orderly.event)

end
