(* ===== verification/MonitorTheorems.thy ===== *)
theory MonitorTheorems
  imports Demo SectionLaws
begin

text \<open>
  The properties of the monitoring core: reachable states of the monitor, the probe cycle, thresholds,
  counters, the startup grace, the scheduler, the assignment of sensors to probes. Each follows from
  the lemmas of its component; its witness evaluates the installation of \<open>Demo\<close>.
\<close>

section \<open>Reachable states\<close>


text \<open>A device with two sensors is being started: the first is marked as running and not yet submitted.\<close>

definition vm_cfg :: sensor_cfg where
  "vm_cfg = demo_cfg\<lparr> c_stype := ''vmware'' \<rparr>"

definition demo_world :: world where
  "demo_world = wrun (demo_x 1000) [Short (OpAddDevice ''core'' ''10.0.0.1'' ''lan'' ''hq''), Short (OpAddSensor ''d1'' [] demo_cfg),
     Short (OpAddSensor ''d1'' [] vm_cfg), Call (SStartDevice ''d1''), Go 0, Go 0]
     (world_of (init_monitor demo_pdb demo_tdb \<lparr> sb_db = [], sb_map = None \<rparr>))"

lemma demo_world_orderly: "orderly demo_world"
  unfolding demo_world_def by (rule wrun_orderly [OF orderly.start]) code_simp


text \<open>A stop and a start of the VMware sensor at once: the stop marks the sensor, the start marks it again
  and schedules its first probe, and then the stop cancels what it finds.\<close>

definition late_cancel :: world where
  "late_cancel = wrun (demo_x 1000) [Go 0, Go 0, Go 0, Go 0, Call (SStop ''d1'' ''s2''), Call (SStart ''d1'' ''s2'' 0),
     Go 0, Go 1, Go 1, Go 0] demo_world"

theorem late_cancel_freezes:
  "possible late_cancel"
  "case find_sensor ''d1'' ''s2'' (w_mon late_cancel) of
     None \<Rightarrow> False | Some (dev, s) \<Rightarrow> s_running s \<and> s_sched_mode s = Central"
  "(''d1'', ''s2'') \<notin> set (m_ready (w_mon late_cancel)) \<union> set (m_inflight (w_mon late_cancel))"
  "live_jobs ''d1'' ''s2'' (m_sched (w_mon late_cancel)) = []" "concat (w_tasks late_cancel) = []"
proof -
  show "possible late_cancel"
    unfolding late_cancel_def by (rule wrun_possible [OF orderly_possible [OF demo_world_orderly]])
qed code_simp+

text \<open>In every reachable state the cached status of a device is the one its sensors give, except
  that a device without running sensors may still be shown as unknown (a sensor was added since).\<close>

theorem cached_status_live:
  assumes "reachable m" "dget (m_devices m) d = Some dev" "d_cached_status dev = Some st"
  shows "st = compute_status (map snd (d_sensors dev))
       \<or> st = Unknown \<and> \<not> list_ex s_running (map snd (d_sensors dev))"
proof -
  have "device_ok d dev"
    using reachable_ok [OF assms(1)] assms(2) by (simp add: mon_ok_def registry_ok_def)
  then show ?thesis
    using assms(3) by (simp add: device_ok_def cache_weak_def any_running_def live_status_def)
qed

theorem cached_status_live_witness:
  "case dget (m_devices demo_outage) ''d1'' of
     None \<Rightarrow> False
   | Some dev \<Rightarrow> (case d_cached_status dev of
        None \<Rightarrow> False
      | Some st \<Rightarrow> st = Down \<and> (st = compute_status (map snd (d_sensors dev))
          \<or> st = Unknown \<and> \<not> list_ex s_running (map snd (d_sensors dev))))"
proof -
  have "case dget (m_devices demo_outage) ''d1'' of
     None \<Rightarrow> False | Some dev \<Rightarrow> d_cached_status dev = Some Down"
    by code_simp
  then show ?thesis
    using cached_status_live [OF outage_reachable, of "''d1''" _ Down]
    by (cases "dget (m_devices demo_outage) ''d1''") simp_all
qed





text \<open>The exception: when a row of a sensor is open and an older one of the same sensor, already resolved,
  is acknowledged by its number, both are open.\<close>

theorem ack_reopens:
  assumes "a \<in> set (et_rows t)" "ae_id a = k" "ae_did a = d" "ae_sid a = i"
    and "b \<in> set (et_rows t)" "open_for d i b" "ae_id b \<noteq> k"
  shows "\<exists>e \<in> set (et_rows (db_ack_event now k user t)). open_for d i e \<and> ae_id e = k
    \<and> b \<in> set (et_rows (db_ack_event now k user t))"
proof
  let ?a = "a\<lparr> ae_state := Acknowledged, ae_ack_by := user, ae_ack_at := now \<rparr>"
  have "?a \<in> set (et_rows (db_ack_event now k user t))" "b \<in> set (et_rows (db_ack_event now k user t))"
    using assms(1,2,5,7) by (force simp: db_ack_event_def upd_where_def)+
  then show "?a \<in> set (et_rows (db_ack_event now k user t))"
    "open_for d i ?a \<and> ae_id ?a = k \<and> b \<in> set (et_rows (db_ack_event now k user t))"
    using assms(2-4) by (simp_all add: open_for_def is_open_def)
qed

text \<open>In every reachable state the counters and histories of a sensor are within bounds: no more
  successes than probes, the packet loss is a percentage, both histories hold at most 80 entries and
  the variance of the learned baseline is not negative.\<close>

theorem sensor_bounds:
  assumes "reachable m" "find_sensor d i m = Some (dev, s)"
  shows "s_success s \<le> s_total s \<and> 0 \<le> loss_pct s \<and> loss_pct s \<le> 100 \<and> length (s_history s) \<le> 80
       \<and> length (s_thr_history s) \<le> 80 \<and> (\<forall>v. a_var (s_anom s) = Some v \<longrightarrow> 0 \<le> v)"
proof -
  have "sensor_wf s"
    using reachable_ok [OF assms(1)] find_sensor_ok [OF _ assms(2)] by (auto simp: mon_ok_def sensor_ok_def)
  then show ?thesis
    using loss_pct_bounds [of s] by (auto simp: sensor_wf_def sensor_MAX_def anom_wf_def)
qed

theorem sensor_bounds_witness:
  "case find_sensor ''d1'' ''s1'' demo_outage of
     None \<Rightarrow> False
   | Some (dev, s) \<Rightarrow> s_total s = 2 \<and> s_success s \<le> s_total s \<and> loss_pct s \<le> 100"
proof -
  have "case find_sensor ''d1'' ''s1'' demo_outage of None \<Rightarrow> False | Some (dev, s) \<Rightarrow> s_total s = 2"
    by code_simp
  then show ?thesis
    using sensor_bounds [OF outage_reachable, of "''d1''" "''s1''"]
    by (simp split: option.splits prod.splits)
qed

section \<open>The probe cycle\<close>

text \<open>C7: Refinement: over any run of probe cycles the down flag and the failure and success counters of
  a sensor (other than SNMP) follow the debounce automaton, which opens an incident at \<open>fail_after\<close>
  consecutive failures and closes it at \<open>recover_after\<close> consecutive successes; thresholds, anomaly
  detection, muting and the grace window have no influence.\<close>

theorem debounce_refinement:
  assumes "s_stype (p_s p) \<noteq> ''snmp''"
  shows "deb_of (p_s (cycles st muted src rs p)) = fold (deb_step (c_fail_after (s_cfg (p_s p)))
    (c_recover_after (s_cfg (p_s p)))) (map (\<lambda>(r, _). r_ok r) rs) (deb_of (p_s p))"
  using cycles_debounce [OF assms] by (simp add: deb_run_def)

theorem debounce_refinement_witness:
  "deb_of (p_s (cycles demo_anom False Local [(fail_r, 1, 1), (ok_r 5, 2, 2), (fail_r, 3, 3), (fail_r, 4, 4)] demo_p))
   = \<lparr> deb_down = True, deb_fails = 2, deb_oks = 0 \<rparr>"
  using debounce_refinement [of demo_p demo_anom False Local
      "[(fail_r, 1, 1), (ok_r 5, 2, 2), (fail_r, 3, 3), (fail_r, 4, 4)]"]
  by (simp add: deb_step_def deb_of_def)

text \<open>After any number of consecutive failed probes, and no success, a sensor that was up is down
  exactly when the failures reached \<open>fail_after\<close>.\<close>

theorem down_after_failures:
  assumes "s_stype (p_s p) \<noteq> ''snmp''" "\<not> s_alerted_down (p_s p)" "\<forall>(r, _) \<in> set rs. \<not> r_ok r"
  shows "s_alerted_down (p_s (cycles st muted src rs p)) \<longleftrightarrow>
    rs \<noteq> [] \<and> c_fail_after (s_cfg (p_s p)) \<le> int (s_consec_fail (p_s p) + length rs)"
proof -
  have "map (\<lambda>(r, _). r_ok r) rs = replicate (length rs) False"
    using assms(3) by (induction rs) auto
  then have "deb_down (deb_of (p_s (cycles st muted src rs p))) \<longleftrightarrow> 0 < length rs
      \<and> c_fail_after (s_cfg (p_s p)) \<le> int (s_consec_fail (p_s p) + length rs)"
    using cycles_debounce [OF assms(1), of st muted src rs]
      deb_fails_run [of "c_fail_after (s_cfg (p_s p))" _ "length rs" "deb_of (p_s p)"] assms(2)
    by (simp add: deb_of_def)
  then show ?thesis by (simp add: deb_of_def)
qed

theorem down_after_failures_witness:
  "s_alerted_down (p_s (cycles demo_anom False Local [(fail_r, 1, 1), (fail_r, 2, 2)] demo_p))
   \<and> \<not> s_alerted_down (p_s (cycles demo_anom False Local [(fail_r, 1, 1)] demo_p))"
  using down_after_failures [of demo_p "[(fail_r, 1, 1), (fail_r, 2, 2)]" demo_anom False Local]
    down_after_failures [of demo_p "[(fail_r, 1, 1)]" demo_anom False Local]
  by simp

text \<open>After \<open>recover_after\<close> consecutive successful probes a sensor is not down.\<close>

theorem up_after_successes:
  assumes "s_stype (p_s p) \<noteq> ''snmp''" "\<forall>(r, _) \<in> set rs. r_ok r" "rs \<noteq> []"
    and "c_recover_after (s_cfg (p_s p)) \<le> int (s_consec_ok (p_s p) + length rs)"
  shows "\<not> s_alerted_down (p_s (cycles st muted src rs p))"
proof -
  have "map (\<lambda>(r, _). r_ok r) rs = replicate (length rs) True"
    using assms(2) by (induction rs) auto
  then have "\<not> deb_down (deb_of (p_s (cycles st muted src rs p)))"
    using cycles_debounce [OF assms(1), of st muted src rs] assms(3,4)
    by (simp add: deb_recovers deb_of_def)
  then show ?thesis by (simp add: deb_of_def)
qed

theorem up_after_successes_witness:
  "\<not> s_alerted_down (p_s (cycles demo_anom False Local [(ok_r 5, 2000, 2000)]
       (demo_p\<lparr> p_s := down_sensor \<rparr>)))"
proof (rule up_after_successes)
  show "s_stype (p_s (demo_p\<lparr> p_s := down_sensor \<rparr>)) \<noteq> ''snmp''" by (simp add: down_sensor_def)
  show "\<forall>(r, _) \<in> set [(ok_r 5, 2000, 2000)]. r_ok r" by simp
  show "[(ok_r 5, 2000, 2000)] \<noteq> []" by simp
  show "c_recover_after (s_cfg (p_s (demo_p\<lparr> p_s := down_sensor \<rparr>)))
      \<le> int (s_consec_ok (p_s (demo_p\<lparr> p_s := down_sensor \<rparr>)) + length [(ok_r 5, 2000, 2000)])"
    by (simp add: down_sensor_def)
qed

text \<open>A probe cycle announces an outage (broadcasts \<open>flap_down\<close>) exactly once, at the cycle that
  opens it, and only when the alerts are not muted and the startup grace is over.\<close>

theorem one_down_flap:
  assumes "s_stype (p_s p) \<noteq> ''snmp''"
  shows "length (downs (cycle_body st muted src r now clock p)) = length (downs p)
    + (if \<not> s_alerted_down (p_s p) \<and> s_alerted_down (p_s (cycle_body st muted src r now clock p))
          \<and> \<not> muted \<and> \<not> p_in_grace p then 1 else 0)"
  using assms by (rule cycle_down_flap)

theorem one_down_flap_witness:
  "length (downs (cycle_body demo_anom False Local fail_r 5 5
     (demo_p\<lparr> p_s := demo_sensor\<lparr> s_consec_fail := 1 \<rparr> \<rparr>))) = 1"
proof -
  let ?p = "demo_p\<lparr> p_s := demo_sensor\<lparr> s_consec_fail := 1 \<rparr> \<rparr>"
  have "s_alerted_down (p_s (cycle_body demo_anom False Local fail_r 5 5 ?p))"
    using cycle_debounce [of ?p demo_anom False Local fail_r 5 5] by (simp add: deb_of_def deb_step_def)
  then show ?thesis
    using one_down_flap [of ?p demo_anom False Local fail_r 5 5] by (simp add: downs_def)
qed

text \<open>The start time of an outage is remembered exactly while the sensor is down; every cycle of a
  sensor other than SNMP keeps the two together, and sets the liveness to the verdict of the probe.\<close>

theorem incident_start_known:
  assumes "s_alerted_down (p_s p) \<longleftrightarrow> s_down_since_ts (p_s p) \<noteq> None" "s_stype (p_s p) \<noteq> ''snmp''"
  shows "(s_alerted_down (p_s (cycle_body st muted src r now clock p))
      \<longleftrightarrow> s_down_since_ts (p_s (cycle_body st muted src r now clock p)) \<noteq> None)
    \<and> s_alive (p_s (cycle_body st muted src r now clock p)) = Some (r_ok r)"
  using cycle_incident_ok [of p st muted src r now clock] assms cycle_alive by (simp add: incident_ok_def)

theorem incident_start_known_witness:
  "s_alerted_down (p_s (cycle_body demo_anom False Local fail_r 5 5 demo_p))
   \<longleftrightarrow> s_down_since_ts (p_s (cycle_body demo_anom False Local fail_r 5 5 demo_p)) \<noteq> None"
  using incident_start_known [of demo_p demo_anom False Local fail_r 5 5] by simp

section \<open>Thresholds, counters, baselines\<close>

text \<open>Without anomaly detection the threshold verdict of a successful probe is the worst of its three
  sources: the measured value against its limits, the packet loss, and (for https) the days left on the
  certificate; none of them can hide another.\<close>

theorem verdict_is_worst_of:
  assumes "\<not> c_anomaly_enabled (s_cfg s)"
  shows "snd (threshold_eval st now True s) = max (max (value_thr True s) (loss_sev s)) (cert_sev_of s)"
  using assms by (rule threshold_eval_worst_of)

theorem verdict_is_worst_of_witness:
  "snd (threshold_eval demo_anom 0 True (demo_sensor\<lparr> s_last_ms := Some 150 \<rparr>)) = TWarn"
  using verdict_is_worst_of [of "demo_sensor\<lparr> s_last_ms := Some 150 \<rparr>" demo_anom 0]
  by simp code_simp

text \<open>A rate computed from two 32-bit counter readings, more than a second apart and below the sanity
  ceiling, is the unsigned 32-bit difference of the readings divided by the elapsed time, so a single
  wrap of the counter gives the right rate; it is never negative and never above the ceiling.\<close>

theorem counter32_rate:
  assumes "0 \<le> prev" "prev < 2 ^ 32" "0 \<le> cur" "cur < 2 ^ 32" "1 \<le> now - before"
    and "of_int (uint (word_of_int cur - word_of_int prev :: 32 word)) / (now - before) \<le> rate_ceiling"
  shows "counter_rate ''counter32'' prev before cur now =
      Some (of_int (uint (word_of_int cur - word_of_int prev :: 32 word)) / (now - before))
    \<and> (\<forall>styp r. counter_rate styp prev before cur now = Some r \<longrightarrow> 0 \<le> r \<and> r \<le> rate_ceiling)"
proof
  have "uint (word_of_int cur - word_of_int prev :: 32 word)
      = (if cur - prev < 0 then cur - prev + 2 ^ 32 else cur - prev)"
    using wrapped_delta_word [OF assms(1-4)] by simp
  then show "counter_rate ''counter32'' prev before cur now =
      Some (of_int (uint (word_of_int cur - word_of_int prev :: 32 word)) / (now - before))"
    using assms(5,6) unfolding counter_rate_def Let_def by (simp split: if_splits)
next
  show "\<forall>styp r. counter_rate styp prev before cur now = Some r \<longrightarrow> 0 \<le> r \<and> r \<le> rate_ceiling"
    using counter_rate_bounds [of _ prev before cur now] assms(1-3) by blast
qed

theorem counter32_rate_witness:
  "counter_rate ''counter32'' 4294967290 0 4 10 = Some 1"
proof -
  have d: "uint (word_of_int 4 - word_of_int 4294967290 :: 32 word) = 10" by simp
  show ?thesis
    using counter32_rate [of 4294967290 4 10 0] unfolding d by (simp add: rate_ceiling_def)
qed

text \<open>The anomaly detector warns only with detection enabled globally, on a baseline of at least 50
  samples (whatever smaller minimum is configured) and at least the configured minimum, and only at the third or
  later outlier in a row. In particular no sample of the fast-learning phase can warn.\<close>

theorem anomaly_warns_late:
  assumes "anom_wf a" "snd (evaluate_anomaly st now c x a)"
  shows "as_global_enabled st \<and> 50 \<le> a_count a \<and> int_or (c_anomaly_min_samples c) 50 \<le> int (a_count a) + 1
    \<and> 2 \<le> a_consec_fails a"
  using evaluate_anomaly_warn [OF assms(2)] evaluate_anomaly_bootstrap(1) [OF assms(1), of st now c x] assms(2)
  by (auto simp: not_less [symmetric])

theorem anomaly_warns_late_witness:
  "snd (evaluate_anomaly demo_anom 1000000 (demo_cfg\<lparr> c_anomaly_min_samples := 10 \<rparr>) 1000
     \<lparr> a_mean = Some 10, a_var = Some 1, a_count = 100, a_enabled_since = Some 0, a_consec_fails = 2,
       a_dirty = False \<rparr>) \<and> (50::nat) \<le> 100"
proof -
  let ?a = "\<lparr> a_mean = Some 10, a_var = Some 1, a_count = 100, a_enabled_since = Some 0, a_consec_fails = 2,
       a_dirty = False \<rparr>"
  have w: "snd (evaluate_anomaly demo_anom 1000000 (demo_cfg\<lparr> c_anomaly_min_samples := 10 \<rparr>) 1000 ?a)"
    by code_simp
  have "anom_wf ?a" by (simp add: anom_wf_def)
  from anomaly_warns_late [OF this w] w show ?thesis by simp
qed

text \<open>What a cycle closes: no cycle resolves event rows of direction \<open>anomaly_warn\<close>, the direction under
  which it logs a warning of the anomaly detector. Such a row stays open after the recovery.\<close>

theorem anomaly_rows_stay_open:
  assumes "EAutoResolve d i t dirs \<in> set (p_out (cycle_body st muted src r now clock (p\<lparr> p_out := [] \<rparr>)))"
  shows "''anomaly_warn'' \<notin> set dirs"
  using cycle_spares [of "p\<lparr> p_out := [] \<rparr>" st muted src r now clock] assms
  by (auto simp: list_all_iff)

theorem anomaly_rows_stay_open_witness:
  "\<exists>t. EAutoResolve ''d1'' ''s1'' t [''threshold_warn'', ''threshold_crit'']
       \<in> set (p_out (cycle_body demo_anom False Local (ok_r 5) 9 9
            (demo_p\<lparr> p_s := demo_sensor\<lparr> s_threshold_state := TWarn, s_anom_caused_warn := True \<rparr>, p_out := [] \<rparr>)))
     \<and> ''anomaly_warn'' \<notin> set [''threshold_warn'', ''threshold_crit'']"
proof -
  let ?p = "demo_p\<lparr> p_s := demo_sensor\<lparr> s_threshold_state := TWarn, s_anom_caused_warn := True \<rparr>, p_out := [] \<rparr>"
  have m: "EAutoResolve ''d1'' ''s1'' 9 [''threshold_warn'', ''threshold_crit'']
      \<in> set (p_out (cycle_body demo_anom False Local (ok_r 5) 9 9 ?p))"
    by code_simp
  then show ?thesis using anomaly_rows_stay_open [OF m] by blast
qed

section \<open>Startup grace\<close>

text \<open>When the startup grace ends, the flap rows written to the log are exactly the parked incidents
  whose sensor still exists and is still in the parked state: still down, or still at the parked
  threshold. Nothing that recovered is logged, nothing that persists is lost.\<close>

theorem grace_flush_exact:
  "ELogFlap f \<in> set (flush_entries devs m) \<longleftrightarrow>
     (\<exists>((d, i), e) \<in> set m. \<exists>dev s. dget devs d = Some dev \<and> dget (d_sensors dev) i = Some s
        \<and> ((\<exists>pd. pk_down e = Some pd \<and> pd_flap pd = f \<and> s_alerted_down s)
           \<or> (\<exists>pt. pk_thr e = Some pt \<and> pt_flap pt = f \<and> s_threshold_state s = pt_state pt)))"
proof
  assume "ELogFlap f \<in> set (flush_entries devs m)"
  from flush_entries_sound [OF this] show "\<exists>((d, i), e) \<in> set m. \<exists>dev s. dget devs d = Some dev
      \<and> dget (d_sensors dev) i = Some s \<and> ((\<exists>pd. pk_down e = Some pd \<and> pd_flap pd = f \<and> s_alerted_down s)
           \<or> (\<exists>pt. pk_thr e = Some pt \<and> pt_flap pt = f \<and> s_threshold_state s = pt_state pt))"
    unfolding still_bad_def by blast
next
  assume "\<exists>((d, i), e) \<in> set m. \<exists>dev s. dget devs d = Some dev \<and> dget (d_sensors dev) i = Some s
      \<and> ((\<exists>pd. pk_down e = Some pd \<and> pd_flap pd = f \<and> s_alerted_down s)
           \<or> (\<exists>pt. pk_thr e = Some pt \<and> pt_flap pt = f \<and> s_threshold_state s = pt_state pt))"
  then obtain d i e dev s where m: "((d, i), e) \<in> set m" "dget devs d = Some dev" "dget (d_sensors dev) i = Some s"
    and bad: "(\<exists>pd. pk_down e = Some pd \<and> pd_flap pd = f \<and> s_alerted_down s)
           \<or> (\<exists>pt. pk_thr e = Some pt \<and> pt_flap pt = f \<and> s_threshold_state s = pt_state pt)"
    by blast
  from bad show "ELogFlap f \<in> set (flush_entries devs m)"
    using flush_entries_complete [OF m] by blast
qed

theorem grace_flush_exact_witness:
  "ELogFlap (base_flap demo_dev down_sensor 1000) \<in> set (flush_entries
      [(''d1'', demo_dev\<lparr> d_sensors := [(''s1'', down_sensor)] \<rparr>)]
      [((''d1'', ''s1''), \<lparr> pk_down = Some \<lparr> pd_flap = base_flap demo_dev down_sensor 1000, pd_webhook = [] \<rparr>,
         pk_thr = None \<rparr>)])"
  by (simp add: grace_flush_exact del: flush_entries.simps) (simp add: down_sensor_def)

text \<open>A blip inside the grace dissolves without a trace: parking the down event of a sensor and taking it
  back on recovery returns that event and leaves every sensor's parked events as they were.\<close>

theorem grace_blip_dissolves:
  assumes "parked_wf m" "pk_down (pk_of m (d, i)) = None"
  shows "snd (grace_unpark_down d i (grace_park_down d i e m)) = Some e
    \<and> dget (fst (grace_unpark_down d i (grace_park_down d i e m))) k = dget m k"
  using unpark_park_down [OF assms] by simp

theorem grace_blip_dissolves_witness:
  "dget (fst (grace_unpark_down ''d1'' ''s1''
      (grace_park_down ''d1'' ''s1'' \<lparr> pd_flap = base_flap demo_dev demo_sensor 0, pd_webhook = [] \<rparr> []))) k = None"
  using grace_blip_dissolves [of "[]" "''d1''" "''s1''" _ k]
  by (simp add: parked_wf_def pk_of_def no_parked_def)

section \<open>Scheduler and assignment\<close>

text \<open>One pass of the scheduler, with an executor that takes every job, submits exactly the due jobs
  that are not cancelled, in the order of their run times, and keeps exactly the jobs not yet due.\<close>

theorem pass_submits_due_jobs:
  assumes "sorted (h_heap h)" "\<And>k. accepts k" "\<forall>t \<in> set clocks. t = now"
  shows "snd (sched_drain accepts now clocks h) =
      map job_key (filter (\<lambda>j. fst j \<le> now \<and> job_key j \<notin> set (h_tomb h)) (h_heap h))
    \<and> h_heap (fst (sched_drain accepts now clocks h)) = filter (\<lambda>j. now < fst j) (h_heap h)"
  using drain_complete [OF assms] by (simp add: due_keys_def)

theorem pass_submits_due_jobs_witness:
  "snd (sched_drain (\<lambda>_. True) 10 [] \<lparr> h_heap = [(5, 1, ''d1'', ''s1''), (8, 2, ''d2'', ''s1''), (20, 3, ''d1'', ''s2'')],
      h_seq = 3, h_tomb = [(''d2'', ''s1'')] \<rparr>) = [(''d1'', ''s1'')]"
  using pass_submits_due_jobs [of "\<lparr> h_heap = [(5, 1, ''d1'', ''s1''), (8, 2, ''d2'', ''s1''), (20, 3, ''d1'', ''s2'')],
      h_seq = 3, h_tomb = [(''d2'', ''s1'')] \<rparr>" "\<lambda>_. True" "[]" 10]
  by (simp add: job_key_def less_eq_prod_def)

text \<open>A cancelled sensor is never submitted while its tombstone stands, and a job the executor
  rejects is not lost: it is queued again five seconds later.\<close>

theorem cancelled_never_run:
  "(k \<in> set (snd (sched_drain accepts now clocks h)) \<longrightarrow> k \<notin> set (h_tomb h))
   \<and> (heappop (h_heap h) = Some (j, rest) \<and> fst j \<le> now \<and> job_key j \<notin> set (h_tomb h) \<and> \<not> accepts (job_key j)
      \<longrightarrow> (\<exists>j' \<in> set (h_heap (fst (sched_drain accepts now clocks h))).
             job_key j' = job_key j \<and> fst j' = now + 5))"
  using drain_not_cancelled [of k accepts now clocks h] rejected_kept [of h j rest now accepts clocks] by blast

theorem cancelled_never_run_witness:
  "\<exists>j' \<in> set (h_heap (fst (sched_drain (\<lambda>_. False) 10 []
      \<lparr> h_heap = [(5, 1, ''d1'', ''s1'')], h_seq = 1, h_tomb = [] \<rparr>))). job_key j' = (''d1'', ''s1'') \<and> fst j' = 15"
  using cancelled_never_run [of "(''d1'', ''s1'')" "\<lambda>_. False" 10 "[]"
      "\<lparr> h_heap = [(5, 1, ''d1'', ''s1'')], h_seq = 1, h_tomb = [] \<rparr>" "(5, 1, ''d1'', ''s1'')" "[]"]
  by (simp add: heappop_def job_key_def)

text \<open>A sensor is measured by the first of its own pin, the pin of its device and the binding of its
  site that is set; an explicit pin to the central server, at any level, means no remote probe.\<close>

theorem effective_probe_is_first_set:
  assumes "site_map_ok b"
  shows "snd (effective_probe (Some d) (Some s) b) =
    first_set [c_probe_id (s_cfg s), d_probe_id d, bound_probe b (d_site d)]"
  using assms by (rule effective_probe_cascade)

theorem effective_probe_is_first_set_witness:
  "snd (effective_probe (Some demo_dev) (Some demo_sensor) \<lparr> sb_db = [(''hq'', ''p1'')], sb_map = None \<rparr>) = ''p1''"
  using effective_probe_is_first_set [of "\<lparr> sb_db = [(''hq'', ''p1'')], sb_map = None \<rparr>" demo_dev demo_sensor]
  by (simp add: site_map_ok_def first_set_def bound_probe_def CENTRAL_def unpin_def)

end
