(* ===== verification/AlertTheorems.thy ===== *)
theory AlertTheorems
  imports Demo
begin

text \<open>
  The properties of alerting: which profiles apply, when a stage dispatches and when it stays silent,
  maintenance windows, root-cause suppression, batching and delivery. Each follows from the lemmas of
  its component; its witness evaluates the installation of \<open>Demo\<close>.
\<close>

section \<open>Profiles\<close>

text \<open>C39: The cascade: with coherent caches, resolving the profiles of a sensor gives the profiles of its own
  scope, its device, its group, its site and the global one, in this order, cut after the first
  exclusive one, and leaves the caches coherent.\<close>

theorem profiles_resolved:
  assumes "scope_coherent c" "sensor_coherent devs c" "dget devs (d_device_id dev) = Some dev"
  shows "snd (resolve_profiles dev i c) = applicable dev i (ca_db c)
    \<and> scope_coherent (fst (resolve_profiles dev i c)) \<and> sensor_coherent devs (fst (resolve_profiles dev i c))"
  using resolve_profiles_correct [OF assms] by simp

lemma demo_db: "ca_db (init_cascade demo_pdb) = demo_pdb"
  by (simp add: init_cascade_def)

theorem profiles_resolved_witness:
  "snd (resolve_profiles demo_dev ''s1'' (init_cascade demo_pdb)) = [demo_profile]"
proof -
  have "applicable demo_dev ''s1'' demo_pdb = [demo_profile]" by code_simp
  then show ?thesis
    using profiles_resolved [of "init_cascade demo_pdb" "[(''d1'', demo_dev)]" demo_dev "''s1''"]
    by (simp add: demo_db)
qed

text \<open>A profile change that is written and then bumps the cache version is in force at the next
  resolution of every sensor, whatever the caches held.\<close>

theorem profile_write_takes_effect:
  assumes "scope_coherent c" "sensor_coherent devs c" "dget devs (d_device_id dev) = Some dev"
  shows "snd (resolve_profiles dev i (bump_version (c\<lparr> ca_db := db \<rparr>))) = applicable dev i db"
  using resolve_profiles_correct(1) [OF write_then_bump_coherent [OF assms(1,2)] assms(3)]
  by (simp add: bump_version_def)

theorem profile_write_takes_effect_witness:
  "snd (resolve_profiles demo_dev ''s1'' (bump_version ((init_cascade demo_pdb)
     \<lparr> ca_db := db_set_profile_enabled 1 False demo_pdb \<rparr>))) = [demo_profile\<lparr> pf_enabled := False \<rparr>]"
proof -
  have "applicable demo_dev ''s1'' (db_set_profile_enabled 1 False demo_pdb) = [demo_profile\<lparr> pf_enabled := False \<rparr>]"
    by code_simp
  then show ?thesis
    using profile_write_takes_effect [of "init_cascade demo_pdb" "[(''d1'', demo_dev)]" demo_dev "''s1''"
        "db_set_profile_enabled 1 False demo_pdb"]
    by simp
qed

section \<open>The engine\<close>

text \<open>C2: A new incident is notified: for a sensor that is failing, not muted, outside maintenance, not a
  symptom of an upstream outage and not acknowledged, every action of every applicable stage whose
  state matches, whose delay has passed and which has not fired yet is dispatched by the evaluation.\<close>

theorem incident_is_dispatched:
  assumes "\<not> alerts_muted v dev s" "open_road v dev s" "rca_silent v (d_device_id dev) e"
    "no_ack (d_device_id dev) (s_sensor_id s) e" "fst (classify s) \<noteq> COk"
    and "p \<in> set (profiles_for dev s e)" "pf_enabled p" "g \<in> set (pf_stages p)"
    and "distinct (map (sg_id \<circ> snd) (flat_stages (profiles_for dev s e)))"
    and "trig_state (sg_trigger_state g) = Some (fst (classify s))" "a \<in> set (sg_action_ids g)"
    and "of_int (sg_delay_s g) \<le> v_now v - snd (classify s)"
    and "db_get_stage_state (e_stages e) (sig (sg_id g) (d_device_id dev) (s_sensor_id s)) = None"
    and "db_get_action_template a (e_templates e) = Some t"
  shows "\<lparr> dp_stage = sg_id g, dp_template = a, dp_atype = tp_atype t,
       dp_ctx = build_ctx dev s (sg_trigger_state g) None \<rparr> \<in> set (e_sent (snd (evaluate_and_fire v dev (s, e))))"
proof -
  have "live_profile p" using assms(7,8) by (auto simp: live_profile_def)
  moreover have "allowed v s False g" using assms(10,11,12) by (auto simp: allowed_def)
  moreover have "\<lparr> dp_stage = sg_id g, dp_template = a, dp_atype = tp_atype t,
       dp_ctx = build_ctx dev s (sg_trigger_state g) None \<rparr>
    \<in> set (action_msgs g (build_ctx dev s (sg_trigger_state g) None) (e_templates e))"
    using assms(11,14) by (force simp: action_msgs_def set_map_filter)
  ultimately show ?thesis
    using evaluate_dispatches [OF assms(1-6) _ assms(8,9) _ assms(13)] by blast
qed

theorem incident_is_dispatched_witness:
  "\<lparr> dp_stage = 1, dp_template = 1, dp_atype = ''email'', dp_ctx = build_ctx demo_dev down_sensor TrigDown None \<rparr>
   \<in> set (e_sent (snd (evaluate_and_fire (demo_alert 1060) demo_dev (down_sensor, demo_engine))))"
proof -
  have ps: "profiles_for demo_dev down_sensor demo_engine = [demo_profile]" by code_simp
  have c: "classify down_sensor = (CDown, 1000)" by code_simp
  have muted: "\<not> alerts_muted (demo_alert 1060) demo_dev down_sensor" by code_simp
  have road: "open_road (demo_alert 1060) demo_dev down_sensor" by code_simp
  have rca: "rca_silent (demo_alert 1060) (d_device_id demo_dev) demo_engine" by code_simp
  have ack: "no_ack (d_device_id demo_dev) (s_sensor_id down_sensor) demo_engine" by code_simp
  have tpl: "db_get_action_template 1 (e_templates demo_engine) =
      Some \<lparr> tp_name = ''mail'', tp_atype = ''email'', tp_config = [] \<rparr>" by code_simp
  have ids: "distinct (map (sg_id \<circ> snd) (flat_stages (profiles_for demo_dev down_sensor demo_engine)))"
    unfolding ps by code_simp
  have g: "down_stage \<in> set (pf_stages demo_profile)" "pf_enabled demo_profile"
    "demo_profile \<in> set (profiles_for demo_dev down_sensor demo_engine)"
    by (simp_all add: ps) (simp_all add: demo_profile_def)
  have s: "sg_id down_stage = 1" "sg_trigger_state down_stage = TrigDown" "1 \<in> set (sg_action_ids down_stage)"
    "sg_delay_s down_stage = 0" by (simp_all add: down_stage_def)
  have failing: "fst (classify down_sensor) \<noteq> COk"
    and trig: "trig_state (sg_trigger_state down_stage) = Some (fst (classify down_sensor))"
    and delay: "of_int (sg_delay_s down_stage) \<le> v_now (demo_alert 1060) - snd (classify down_sensor)"
    by (simp_all add: c s) (simp add: demo_alert_def)
  have unfired: "db_get_stage_state (e_stages demo_engine)
      (sig (sg_id down_stage) (d_device_id demo_dev) (s_sensor_id down_sensor)) = None"
    by (simp add: demo_engine_def db_get_stage_state_def)
  from incident_is_dispatched [OF muted road rca ack failing g(3,2,1) ids trig s(3) delay unfired tpl]
  show ?thesis by (simp add: s)
qed

text \<open>C3: Nothing else is sent: every message an evaluation dispatches belongs to a stage of an enabled
  applicable profile whose trigger matches the state of the sensor, names one of its templates, is about
  this sensor, and no maintenance window covers it.\<close>

theorem dispatch_is_justified:
  "\<exists>xs. e_sent (snd (evaluate_and_fire v dev (s, e))) = e_sent e @ xs \<and> (\<forall>x \<in> set xs.
     (\<exists>p \<in> set (profiles_for dev s e). pf_enabled p \<and> (\<exists>g \<in> set (pf_stages p).
        sg_id g = dp_stage x \<and> dp_template x \<in> set (sg_action_ids g)
        \<and> (trig_state (sg_trigger_state g) = Some (fst (classify s))
           \<or> trig_state (sg_trigger_state g) = None \<and> fst (classify s) = COk)))
     \<and> cx_did (dp_ctx x) = d_device_id dev \<and> cx_sid (dp_ctx x) = s_sensor_id s
     \<and> \<not> fst (check_maintenance (v_now v) (v_clock v) (v_windows v) (dp_ctx x)))"
  using evaluate_sound [of e v dev s] unfolding sent_ok_def legit_def live_profile_def by blast

theorem dispatch_is_justified_witness:
  "list_all (\<lambda>x. cx_did (dp_ctx x) = ''d1'')
     (e_sent (snd (evaluate_and_fire (demo_alert 1060) demo_dev (down_sensor, demo_engine))))
   \<and> length (e_sent (snd (evaluate_and_fire (demo_alert 1060) demo_dev (down_sensor, demo_engine)))) = 1"
proof
  show "list_all (\<lambda>x. cx_did (dp_ctx x) = ''d1'')
     (e_sent (snd (evaluate_and_fire (demo_alert 1060) demo_dev (down_sensor, demo_engine))))"
    using dispatch_is_justified [of "demo_alert 1060" demo_dev down_sensor demo_engine]
    by (auto simp: demo_engine_def list_all_iff)
  show "length (e_sent (snd (evaluate_and_fire (demo_alert 1060) demo_dev (down_sensor, demo_engine)))) = 1"
    by code_simp
qed

text \<open>C4: No repetition: while a stage has fired in the current session of a failing sensor, and it has no
  repeat interval or the interval has not passed, an evaluation sends nothing for that stage.\<close>

theorem fired_stage_is_quiet:
  assumes "fst (classify s) \<noteq> COk"
    and "db_get_stage_state (e_stages e) (sig n (d_device_id dev) (s_sensor_id s)) = Some r"
    and "st_active_session r = session_key (snd (classify s))"
    and "\<forall>p \<in> set (profiles_for dev s e). \<forall>g \<in> set (pf_stages p). sg_id g = n \<longrightarrow>
      sg_repeat_min g \<le> 0 \<or> v_now v - st_last_fire_ts r < of_int (sg_repeat_min g) * 60"
  shows "\<exists>xs. e_sent (snd (evaluate_and_fire v dev (s, e))) = e_sent e @ xs \<and> (\<forall>x \<in> set xs. dp_stage x \<noteq> n)"
  using evaluate_quiet [OF assms] by (simp add: sent_ok_def)

theorem fired_stage_is_quiet_witness:
  "e_sent (snd (evaluate_and_fire (demo_alert 1120) demo_dev
     (down_sensor, snd (evaluate_and_fire (demo_alert 1060) demo_dev (down_sensor, demo_engine)))))
   = e_sent (snd (evaluate_and_fire (demo_alert 1060) demo_dev (down_sensor, demo_engine)))"
proof -
  let ?e = "snd (evaluate_and_fire (demo_alert 1060) demo_dev (down_sensor, demo_engine))"
  have c: "classify down_sensor = (CDown, 1000)" by code_simp
  have st: "(case db_get_stage_state (e_stages ?e) (sig 1 (d_device_id demo_dev) (s_sensor_id down_sensor)) of
      None \<Rightarrow> False | Some r \<Rightarrow> st_active_session r = session_key 1000)" by code_simp
  have ps: "profiles_for demo_dev down_sensor ?e = [demo_profile]" by code_simp
  from st obtain r where r: "db_get_stage_state (e_stages ?e) (sig 1 (d_device_id demo_dev) (s_sensor_id down_sensor)) = Some r"
    "st_active_session r = session_key 1000" by (auto split: option.splits)
  have sess: "st_active_session r = session_key (snd (classify down_sensor))" using r(2) c by simp
  have rep: "\<forall>p \<in> set (profiles_for demo_dev down_sensor ?e). \<forall>g \<in> set (pf_stages p). sg_id g = 1 \<longrightarrow>
      sg_repeat_min g \<le> 0 \<or> v_now (demo_alert 1120) - st_last_fire_ts r < of_int (sg_repeat_min g) * 60"
    unfolding ps by (simp add: demo_profile_def down_stage_def)
  obtain xs where q: "e_sent (snd (evaluate_and_fire (demo_alert 1120) demo_dev (down_sensor, ?e))) = e_sent ?e @ xs"
      "\<forall>x \<in> set xs. dp_stage x \<noteq> 1"
    using fired_stage_is_quiet [OF _ r(1) sess rep] c by auto
  obtain ys where j: "e_sent (snd (evaluate_and_fire (demo_alert 1120) demo_dev (down_sensor, ?e))) = e_sent ?e @ ys"
      "\<forall>x \<in> set ys. dp_stage x = 1"
    using evaluate_sound [of ?e "demo_alert 1120" demo_dev down_sensor]
    unfolding sent_ok_def legit_def ps by (auto simp: demo_profile_def down_stage_def)
  from q j have "xs = ys" by simp
  with q(2) j(2) have "xs = []" by (cases xs) auto
  with q(1) show ?thesis by simp
qed



text \<open>Sensors do not interfere: evaluating one sensor changes neither the events nor the stage history of
  any other, even where one identifier is a suffix of another (identifiers have no colon).\<close>

theorem other_sensors_untouched:
  assumes "evt_ok (e_events e)" "(d, i) \<noteq> (d_device_id dev, s_sensor_id s)"
    "plain_id d" "plain_id i" "plain_id (d_device_id dev)" "plain_id (s_sensor_id s)"
  shows "filter (\<lambda>r. ae_did r = d \<and> ae_sid r = i) (et_rows (e_events (snd (evaluate_and_fire v dev (s, e)))))
      = filter (\<lambda>r. ae_did r = d \<and> ae_sid r = i) (et_rows (e_events e))
    \<and> (\<forall>n. db_get_stage_state (e_stages (snd (evaluate_and_fire v dev (s, e)))) (sig n d i)
        = db_get_stage_state (e_stages e) (sig n d i))"
  using evaluate_untouched [of e dev s d i v] assms by (simp add: elsewhere_def untouched_def rows_of_def)

theorem other_sensors_untouched_witness:
  "db_get_stage_state (e_stages (snd (evaluate_and_fire (demo_alert 1060) demo_dev (down_sensor, demo_engine))))
     (sig 1 ''d11'' ''s1'') = None"
proof -
  have "evt_ok (e_events demo_engine)" by (simp add: demo_engine_def)
  moreover have "plain_id ''d11'' \<and> plain_id ''s1'' \<and> plain_id ''d1''" by code_simp
  moreover have "s_sensor_id down_sensor = ''s1''" by (simp add: down_sensor_def)
  ultimately show ?thesis
    using other_sensors_untouched [of demo_engine "''d11''" "''s1''" demo_dev down_sensor "demo_alert 1060"]
    by (simp add: demo_engine_def db_get_stage_state_def)
qed

text \<open>Clearing the stage history of one sensor on recovery removes exactly its own entries: the suffix
  match of the delete statement never hits another sensor.\<close>

theorem clear_hits_one_sensor:
  assumes "plain_id d" "plain_id i" "plain_id d'" "plain_id i'"
  shows "db_get_stage_state (db_clear_stage_state_for_sensor d i t) (sig n d' i') =
    (if d' = d \<and> i' = i then None else db_get_stage_state t (sig n d' i'))"
  using assms by (rule get_clear)

theorem clear_hits_one_sensor_witness:
  "db_get_stage_state (db_clear_stage_state_for_sensor ''1'' ''s1'' t) (sig 7 ''11'' ''s1'')
   = db_get_stage_state t (sig 7 ''11'' ''s1'')"
  using clear_hits_one_sensor [of "''1''" "''s1''" "''11''" "''s1''" t 7] by (simp add: plain_id_def)

section \<open>Maintenance\<close>

text \<open>An alert is in maintenance exactly when some enabled window contains the moment, recurs at this time
  if it is recurring, and has the device, group or site in its scope.\<close>

theorem maintenance_exact:
  "fst (check_maintenance now lc db cx) \<longleftrightarrow>
     (\<exists>w \<in> set (wd_rows db). w_enabled w \<noteq> Some False \<and> w_start_ts w \<le> now \<and> now \<le> w_end_ts w
        \<and> (w_recurring w \<longrightarrow> recurs_now lc w) \<and> scope_matches cx w)"
  by (simp add: check_maintenance_iff covers_def)

theorem maintenance_exact_witness:
  "fst (check_maintenance 150 \<lparr> lc_weekday = 1, lc_time = 0 \<rparr> \<lparr> wd_rows = [demo_window], wd_next = 2 \<rparr>
     (build_ctx demo_dev demo_sensor TrigDown None))
   \<and> \<not> fst (check_maintenance 250 \<lparr> lc_weekday = 1, lc_time = 0 \<rparr> \<lparr> wd_rows = [demo_window], wd_next = 2 \<rparr>
     (build_ctx demo_dev demo_sensor TrigDown None))"
  by (simp add: maintenance_exact demo_window_def scope_matches_def)

text \<open>Round trip of the group scope: a window saved for a list of groups, as the JSON text the editor
  stores, covers exactly the devices whose group is in the list (group names are printable text without
  quotes or backslashes).\<close>

theorem window_groups_roundtrip:
  assumes "\<forall>x \<in> set gs. plain_text x" "w_scope_type w = ''group''" "w_scope_value w = dumps_list gs"
  shows "scope_matches cx w \<longleftrightarrow> cx_grp cx \<in> set gs"
  using assms scope_matches_cases(3) [of w cx] by (auto simp: mw_parse_groups_dumps)

theorem window_groups_roundtrip_witness:
  "scope_matches (build_ctx demo_dev demo_sensor TrigDown None)
     (demo_window\<lparr> w_scope_type := ''group'', w_scope_value := dumps_list [''wan'', ''lan''] \<rparr>)"
  using window_groups_roundtrip [of "[''wan'', ''lan'']"
      "demo_window\<lparr> w_scope_type := ''group'', w_scope_value := dumps_list [''wan'', ''lan''] \<rparr>"
      "build_ctx demo_dev demo_sensor TrigDown None"]
  by (simp add: plain_text_def)

text \<open>A stage that comes due inside a maintenance window dispatches nothing and is not marked as fired,
  so that it fires normally at the first probe after the window.\<close>

theorem window_silences_stage:
  assumes "fst (check_maintenance (v_now v) (v_clock v) (v_windows v) (build_ctx dev s (sg_trigger_state g) dur))"
  shows "e_sent (fire v dev s p g session rc dur ff e) = e_sent e
    \<and> e_stages (fire v dev s p g session rc dur ff e) = e_stages e"
  using assms by (rule fire_in_window)

theorem window_silences_stage_witness:
  "e_sent (fire (demo_alert 150) demo_dev down_sensor demo_profile down_stage [] False None True demo_engine) = []"
proof -
  have "fst (check_maintenance (v_now (demo_alert 150)) (v_clock (demo_alert 150)) (v_windows (demo_alert 150))
      (build_ctx demo_dev down_sensor (sg_trigger_state down_stage) None))" by code_simp
  from window_silences_stage [OF this, of demo_profile "[]" False True demo_engine]
  show ?thesis by (simp add: demo_engine_def)
qed

section \<open>Root cause\<close>

definition core_down :: device where
  "core_down = demo_dev\<lparr> d_sensors := [(''s1'', down_sensor)] \<rparr>"

definition leaf_down :: device where
  "leaf_down = demo_dev\<lparr> d_device_id := ''d2'', d_name := ''leaf'', d_sensors := [(''s1'', down_sensor)],
     d_parent_device_ids := [''d1''] \<rparr>"

definition demo_ri :: rca_in where
  "demo_ri = \<lparr> ri_devs = [(''d1'', core_down), (''d2'', leaf_down)], ri_group_parents = [],
     ri_tier = (\<lambda>_. ''switch''), ri_down = [''d2'', ''d1''], ri_traps = [] \<rparr>"

lemma demo_ri_ok: "rca_ok demo_ri" "length (ri_devs demo_ri) \<le> MAX_WALK"
  by code_simp+

text \<open>C38: A suppressed symptom always has a loud root: on a graph of at most 64 devices, cyclic or not, the
  device a symptom is attributed to is down, is not itself suppressed, and is the one named.\<close>

theorem suppressed_has_root:
  assumes "rca_ok ri" "length (ri_devs ri) \<le> MAX_WALK" "dget (suppress_map ri) x = Some su"
  shows "ri_root ri x \<in> set (ri_down ri) \<and> dget (suppress_map ri) (ri_root ri x) = None
    \<and> summary_of ri (ri_root ri x) = Some su"
  using suppressed_has_loud_root [OF assms] by simp

theorem suppressed_has_root_witness:
  "ri_root demo_ri ''d2'' = ''d1'' \<and> dget (suppress_map demo_ri) ''d1'' = None"
proof -
  have r: "ri_root demo_ri ''d2'' = ''d1''" by code_simp
  have "dget (suppress_map demo_ri) ''d2'' \<noteq> None" by code_simp
  then obtain su where "dget (suppress_map demo_ri) ''d2'' = Some su" by auto
  from suppressed_has_root [OF demo_ri_ok this] r show ?thesis by simp
qed

text \<open>Only real symptoms are silenced: a device with a live uplink, or with no known uplink, is never
  suppressed.\<close>

theorem live_uplink_is_loud:
  assumes "ri_parents ri x = [] \<or> (\<exists>p \<in> set (ri_parents ri x). p \<notin> set (ri_down ri))"
  shows "dget (suppress_map ri) x = None"
  using assms by (rule live_uplink_not_suppressed)

theorem live_uplink_is_loud_witness: "dget (suppress_map demo_ri) ''d1'' = None"
proof (rule live_uplink_is_loud)
  have "ri_parents demo_ri ''d1'' = []" by code_simp
  then show "ri_parents demo_ri ''d1'' = [] \<or> (\<exists>p \<in> set (ri_parents demo_ri ''d1''). p \<notin> set (ri_down demo_ri))" ..
qed

text \<open>The incidents partition the outage: every device that is down belongs to the cluster of exactly one
  root, and the incident of a root lists all the other members of its cluster.\<close>

theorem incidents_partition:
  assumes "rca_ok ri" "length (ri_devs ri) \<le> MAX_WALK"
  shows "(\<forall>x \<in> set (ri_down ri). \<exists>!r. r \<in> set (cluster_roots ri) \<and> x \<in> set (cluster_members ri r))
    \<and> (\<forall>r i. r \<in> set (cluster_roots ri) \<longrightarrow> incident_of ri r = Some i
        \<longrightarrow> length (in_impacted i) + 1 = length (cluster_members ri r))"
  using cluster_partition [of _ ri] incident_size [OF assms] by blast

theorem incidents_partition_witness:
  "\<exists>!r. r \<in> set (cluster_roots demo_ri) \<and> ''d2'' \<in> set (cluster_members demo_ri r)"
proof -
  have "''d2'' \<in> set (ri_down demo_ri)" by code_simp
  with incidents_partition [OF demo_ri_ok] show ?thesis by blast
qed

section \<open>Batching and delivery\<close>

text \<open>C37: No alert is lost or sent twice by the batcher: over any sequence of dispatches, ticks and shutdowns
  the alerts that were handed on (single, batched, after a failed batch, or logged as undeliverable)
  together with those still waiting are, as a multiset, those handed in.\<close>

theorem batcher_conserves:
  "handed (foldl (\<lambda>b x. bexec n x b) init_batcher ops) + waiting (q_queues (foldl (\<lambda>b x. bexec n x b) init_batcher ops))
     = asked ops"
  by (simp add: brun_conserves) (simp add: init_batcher_def handed_def)

text \<open>Waiting is bounded: after a tick every bucket still waiting is non-empty, smaller than the batch
  limit (between 2 and 500) and younger than the window (between 5 and 3600 seconds), whatever the
  settings say.\<close>

theorem waiting_is_bounded:
  assumes "(k, qs) \<in> set (q_queues (tick_once n now b))"
  shows "0 < length qs \<and> length qs < 500 \<and> now - qi_ts (hd qs) < 3600"
proof -
  have "of_int (bs_window (read_settings n)) \<le> (3600 :: real)"
    using read_settings_bounds [of n] of_int_le_iff [of "bs_window (read_settings n)" 3600, where 'a = real] by simp
  then show ?thesis using tick_leaves [OF assms] read_settings_bounds [of n] by auto
qed

definition demo_queue :: batcher where
  "demo_queue = \<lparr> q_queues = [((''webhook'', ''http://x'', ''critical''),
     [\<lparr> qi_cfg = \<lparr> ac_to_users = NText [], ac_to_groups = NText [], ac_to_emails = NText [], ac_to = NText [],
          ac_subject = [], ac_url = ''http://x'', ac_batch_aware = True \<rparr>,
        qi_ctx = build_ctx demo_dev demo_sensor TrigDown None, qi_ts = 100, qi_recovery = False \<rparr>])],
     q_out = [] \<rparr>"

definition demo_batch_env :: batch_env where
  "demo_batch_env = \<lparr> n_setting = (\<lambda>_. None), n_user_email = (\<lambda>_. None), n_group_emails = (\<lambda>_. []),
     n_safe_url = (\<lambda>_. True), n_batch_ok = (\<lambda>_. True) \<rparr>"

theorem waiting_is_bounded_witness:
  "\<exists>qs. q_queues (tick_once demo_batch_env 101 demo_queue) = [((''webhook'', ''http://x'', ''critical''), qs)]
     \<and> 0 < length qs \<and> length qs < 500"
proof -
  have q: "q_queues (tick_once demo_batch_env 101 demo_queue) = q_queues demo_queue" by code_simp
  then have "(fst (hd (q_queues demo_queue)), snd (hd (q_queues demo_queue)))
      \<in> set (q_queues (tick_once demo_batch_env 101 demo_queue))"
    by (simp add: demo_queue_def)
  from waiting_is_bounded [OF this] show ?thesis unfolding q by (simp add: demo_queue_def)
qed

text \<open>An open circuit stays closed to traffic: once a destination has failed five times in a row and no
  send succeeds, two sends let through to it are always at least ten minutes apart.\<close>

theorem breaker_spaces_retries:
  assumes "sorted (List.map_filter brk_time xs)" "BOk \<notin> set xs" "5 \<le> b_fails b"
  shows "spaced 600 (grants xs b)"
  using open_grants_spaced [OF assms(1,2)] assms(3) by (simp add: brk_threshold_def brk_cooldown_def)

theorem breaker_spaces_retries_witness:
  "grants [BAllow 1000, BFail 1001, BAllow 1300, BAllow 1700] (new_breaker\<lparr> b_fails := 5 \<rparr>) = [1000, 1700]
   \<and> spaced 600 (grants [BAllow 1000, BFail 1001, BAllow 1300, BAllow 1700] (new_breaker\<lparr> b_fails := 5 \<rparr>))"
proof
  show "grants [BAllow 1000, BFail 1001, BAllow 1300, BAllow 1700] (new_breaker\<lparr> b_fails := 5 \<rparr>) = [1000, 1700]"
    by code_simp
  show "spaced 600 (grants [BAllow 1000, BFail 1001, BAllow 1300, BAllow 1700] (new_breaker\<lparr> b_fails := 5 \<rparr>))"
    by (rule breaker_spaces_retries) (simp_all add: List.map_filter_def new_breaker_def)
qed

text \<open>C36: The retry queue is bounded and loses nothing: over any sequence of submissions, sends and worker
  passes it holds at most 500 items, no item is tried more than four times, and every submitted item is
  in flight, waiting, or settled with a verdict, exactly once.\<close>

theorem delivery_conserves:
  "length (d_heap (drun ops)) \<le> 500 \<and> (\<forall>(v, it) \<in> set (d_log (drun ops)). it_attempt it \<le> 4)
   \<and> image_mset (it_id \<circ> retry_item) (mset (d_heap (drun ops))) + image_mset it_id (mset (d_flying (drun ops)))
       + image_mset (it_id \<circ> snd) (mset (d_log (drun ops))) = mset (submitted ops)"
proof -
  have l: "delivery_ok (drun ops)" "tickets (drun ops) = mset (submitted ops)"
    using drun_laws_from [of init_delivery ops] by (simp_all add: drun_def)
  have "ticket = it_id" by (rule ext) (simp add: ticket_def)
  moreover have "retry_max + 1 = 4" by (simp add: retry_max_def backoff_s_def)
  ultimately show ?thesis
    using l unfolding delivery_ok_def tickets_def queue_cap_def by metis
qed

theorem delivery_conserves_witness:
  "image_mset it_id (mset (d_flying (drun [Submit 7 ''email'' ''ops'' 0 0]))) = {#7#}"
proof -
  have "d_heap (drun [Submit 7 ''email'' ''ops'' 0 0]) = []" "d_log (drun [Submit 7 ''email'' ''ops'' 0 0]) = []"
    by code_simp+
  then show ?thesis using delivery_conserves [of "[Submit 7 ''email'' ''ops'' 0 0]"] by simp
qed

end
