(* ===== verification/RemoteTheorems.thy ===== *)
theory RemoteTheorems
  imports Demo
begin

text \<open>
  The properties of the remote side: enrolment tokens, the task queue of an agent, the liveness
  watchdog, the enrolment rate limit, and the staged rollout of agent updates. Each follows from the
  lemmas of \<open>Probes\<close> and \<open>RolloutLaws\<close>; its witness evaluates a registry of one or three probes.
\<close>

section \<open>A small registry\<close>

definition demo_probe :: "string \<Rightarrow> probe" where
  "demo_probe k = \<lparr> pr_id = k, pr_name = k, pr_description = [], pr_status = ''enrolled'',
     pr_enroll_hash = None, pr_enroll_expires = None, pr_token_id = Some 1, pr_config_version = 1,
     pr_last_seen = 100, pr_ip = ''192.0.2.1'', pr_agent_version = ''1.0'', pr_protocol = 1, pr_os = [],
     pr_caps = ''{}'', pr_spool = 0, pr_skew = 0, pr_offline_alerted = 0, pr_build = [],
     pr_supervisor = 1, pr_upd_state = [], pr_upd_target = [], pr_upd_campaign = None,
     pr_upd_attempt = [], pr_upd_changed = 0, pr_upd_error = [], pr_created_at = 0, pr_created_by = ''ops'' \<rparr>"

definition demo_task :: "int \<Rightarrow> string \<Rightarrow> task" where
  "demo_task i st = \<lparr> tk_id = i, tk_probe = ''p'', tk_type = ''discover'', tk_payload = ''{}'', tk_state = st,
     tk_progress = ''{}'', tk_error = [], tk_created_by = ''ops'', tk_created = 90, tk_dispatched = 0,
     tk_finished = 0 \<rparr>"

definition demo_registry :: probe_db where
  "demo_registry = \<lparr> pd_probes = [(''p'', demo_probe ''p''), (''q'', demo_probe ''q''), (''r'', demo_probe ''r'')],
     pd_tasks = [(1, demo_task 1 ''done''), (2, demo_task 2 ''pending'')], pd_next_task = 3, pd_reports = [] \<rparr>"

definition armed_registry :: probe_db where
  "armed_registry = db_set_enroll_token ''p'' ''hash'' 500 ''pending'' demo_registry"

section \<open>Enrolment\<close>

text \<open>C22: An enrolment token is single use. Over any interleaving of arming, committing and other updates of
  the registry, however the callers' reads were ordered, the calls that win a token are at most as
  many as the times it was armed, counting the arming in force at the start.\<close>

theorem token_wins_bounded:
  "wins k h xs db \<le> arms k h xs + armed k h db"
  by (rule token_single_use)

text \<open>What a token buys: a call that consumes a token returns the row that carries it, which is not
  revoked and whose token has not expired, and leaves that row without a token.\<close>

theorem enrolment_is_authorised:
  assumes "registry_wf db" "db_consume_enroll_token now h db = (db', Some p)"
  shows "db_get_probe (pr_id p) db = Some p \<and> pr_enroll_hash p = Some h \<and> pr_status p \<noteq> ''revoked''
    \<and> (\<exists>e. pr_enroll_expires p = Some e \<and> now \<le> e)
    \<and> map_option pr_enroll_hash (db_get_probe (pr_id p) db') = Some None"
  by (rule consume_returns [OF assms])

theorem enrolment_is_authorised_witness:
  "snd (db_consume_enroll_token 400 ''hash'' armed_registry)
     = Some ((demo_probe ''p'')\<lparr> pr_enroll_hash := Some ''hash'', pr_enroll_expires := Some 500, pr_status := ''pending'' \<rparr>)
   \<and> map_option pr_enroll_hash (db_get_probe ''p'' (fst (db_consume_enroll_token 400 ''hash'' armed_registry))) = Some None"
proof -
  let ?p = "(demo_probe ''p'')\<lparr> pr_enroll_hash := Some ''hash'', pr_enroll_expires := Some 500, pr_status := ''pending'' \<rparr>"
  have wf: "registry_wf armed_registry" by code_simp
  have s: "snd (db_consume_enroll_token 400 ''hash'' armed_registry) = Some ?p" by code_simp
  then have c: "db_consume_enroll_token 400 ''hash'' armed_registry
      = (fst (db_consume_enroll_token 400 ''hash'' armed_registry), Some ?p)" by (metis prod.collapse)
  have "pr_id ?p = ''p''" by code_simp
  with enrolment_is_authorised [OF wf c] s show ?thesis by simp
qed

text \<open>The enrolment endpoint is rate limited: when requests arrive in order of time, at most five
  accepted attempts of one address lie within any sixty seconds that end at an accepted one.\<close>

theorem enrolment_rate_is_bounded:
  assumes "sorted (map fst xs)"
  shows "limited (accepted xs [])"
  by (rule enroll_limit [OF assms])

theorem enrolment_rate_is_bounded_witness:
  "limited (accepted [(0, ''a''), (1, ''a''), (2, ''a''), (3, ''b''), (4, ''a''), (5, ''a''), (6, ''a''), (61, ''a'')] [])
   \<and> accepted [(0, ''a''), (1, ''a''), (2, ''a''), (3, ''b''), (4, ''a''), (5, ''a''), (6, ''a''), (61, ''a'')] []
     = [(0, ''a''), (1, ''a''), (2, ''a''), (3, ''b''), (4, ''a''), (5, ''a''), (61, ''a'')]"
proof -
  have s: "sorted (map fst [(0 :: real, ''a''), (1, ''a''), (2, ''a''), (3, ''b''), (4, ''a''), (5, ''a''), (6, ''a''), (61, ''a'')])"
    by simp
  have "accepted [(0, ''a''), (1, ''a''), (2, ''a''), (3, ''b''), (4, ''a''), (5, ''a''), (6, ''a''), (61, ''a'')] []
     = [(0, ''a''), (1, ''a''), (2, ''a''), (3, ''b''), (4, ''a''), (5, ''a''), (61, ''a'')]"
    by code_simp
  with enrolment_rate_is_bounded [OF s] show ?thesis by simp
qed

section \<open>Tasks\<close>

text \<open>A task that is done or cancelled is final: no check-in of any agent, no posted result, no hand-out
  and no run of the expiry changes its row.\<close>

theorem finished_task_is_final:
  assumes "db_get_task j db = Some t" "closed_state (tk_state t)"
  shows "db_get_task j (apply_task_progress now k es db) = Some t
    \<and> db_get_task j (fst (task_result now k i nrows fin err db)) = Some t
    \<and> db_get_task j (fst (db_dispatch_pending_tasks now k db)) = Some t
    \<and> db_get_task j (db_expire_stale_tasks now age db) = Some t"
  using apply_task_progress_closed [OF assms] task_result_closed [OF assms] dispatch_closed [OF assms]
    expire_closed [OF assms] by blast

theorem finished_task_is_final_witness:
  "db_get_task 1 (apply_task_progress 200 ''p'' [(1, ''error'', None, ''late'')] demo_registry) = Some (demo_task 1 ''done'')"
proof -
  have g: "db_get_task 1 demo_registry = Some (demo_task 1 ''done'')" by code_simp
  have c: "closed_state (tk_state (demo_task 1 ''done''))" by code_simp
  from finished_task_is_final [OF g c] show ?thesis by blast
qed

text \<open>A hand-out gives a probe its pending tasks, oldest first, and each of them once: a second hand-out
  with no task created in between gives it nothing.\<close>

theorem tasks_handed_out_once:
  assumes "tasks_wf db"
  shows "map tk_id (snd (db_dispatch_pending_tasks now k db)) = map tk_id (pending_of k db)
    \<and> sorted (map tk_id (snd (db_dispatch_pending_tasks now k db)))
    \<and> snd (db_dispatch_pending_tasks now' k (fst (db_dispatch_pending_tasks now k db))) = []"
  using dispatch_empties [OF assms] by (simp add: db_dispatch_pending_tasks_def Let_def comp_def pending_of_def)

theorem tasks_handed_out_once_witness:
  "map tk_id (snd (db_dispatch_pending_tasks 120 ''p'' demo_registry)) = [2]
   \<and> snd (db_dispatch_pending_tasks 130 ''p'' (fst (db_dispatch_pending_tasks 120 ''p'' demo_registry))) = []"
proof -
  have wf: "tasks_wf demo_registry" by code_simp
  have "map tk_id (pending_of ''p'' demo_registry) = [2]" by code_simp
  with tasks_handed_out_once [OF wf, of 120 "''p''" 130] show ?thesis by simp
qed

section \<open>Liveness\<close>

text \<open>Once the start-up hold-off has passed, a sweep of the watchdog reports exactly the enrolled probes
  that have checked in before, have been silent for more than 35 seconds and were not reported yet,
  and a second sweep at the same time reports none.\<close>

theorem offline_reported_once:
  assumes "registry_wf db" "startup_holdoff grace \<le> up"
  shows "(ProbeOffline k \<in> set (snd (sweep now up grace db)) \<longleftrightarrow> (\<exists>p. db_get_probe k db = Some p \<and> silent now p))
    \<and> snd (sweep now up' grace' (fst (sweep now up grace db))) = []"
  using sweep_reports [OF assms] sweep_once [OF assms] by (simp add: sweep_out)

theorem offline_reported_once_witness:
  "ProbeOffline ''q'' \<in> set (snd (sweep 140 100 (Some 60) demo_registry))
   \<and> snd (sweep 140 100 None (fst (sweep 140 100 (Some 60) demo_registry))) = []"
proof -
  have wf: "registry_wf demo_registry" by code_simp
  have h: "startup_holdoff (Some 60) \<le> 100" by code_simp
  have "db_get_probe ''q'' demo_registry = Some (demo_probe ''q'')" "silent 140 (demo_probe ''q'')" by code_simp+
  then show ?thesis using offline_reported_once [OF wf h] by blast
qed

section \<open>Rollout\<close>

definition demo_launch :: "string list \<Rightarrow> int \<Rightarrow> bool \<Rightarrow> rop" where
  "demo_launch ids canary halt =
     RLaunch 100 ''r2'' ''b2'' ''sha'' ids canary 2 halt 86400 120 [] ''ops''"

definition rolled_back :: update_report where
  "rolled_back = \<lparr> ur_probe = ''p'', ur_campaign = Some 1, ur_attempt = ''a'', ur_outcome = ''rolled_back'',
     ur_target = ''b2'', ur_reason = ''probation failed'', ur_ts = 150 \<rparr>"

text \<open>C8: Blast radius. Whatever launches (of distinct probes), ticks, reports, aborts and registry changes
  happened, a campaign never has more probes in flight than its canary or its batch size, whichever
  is larger; and a campaign that halts on failure has sent no more than its canary count of updates
  until as many probes as the canary count have reported or gone dark.\<close>

theorem rollout_is_bounded:
  assumes "list_all rop_ok xs" "dget (ro_campaigns (rrun xs (init_rollout db))) j = Some c"
  shows "int (nD (view j (rrun xs (init_rollout db)))) \<le> max (canary_n c) (batch_n c)
    \<and> (cg_halt c \<longrightarrow> int (sent j (rrun xs (init_rollout db))) \<le> canary_n c
      \<or> canary_n c \<le> int (nS (view j (rrun xs (init_rollout db))) + nR (view j (rrun xs (init_rollout db)))
            + nF (view j (rrun xs (init_rollout db)))))"
  using rollout_bounds [OF assms] by blast

theorem rollout_is_bounded_witness:
  "nD (view 1 (rrun [demo_launch [''p'', ''q'', ''r''] 1 True, RTick 110, RTick 120] (init_rollout demo_registry))) = 1
   \<and> int (nD (view 1 (rrun [demo_launch [''p'', ''q'', ''r''] 1 True, RTick 110, RTick 120] (init_rollout demo_registry)))) \<le> 2"
proof -
  let ?xs = "[demo_launch [''p'', ''q'', ''r''] 1 True, RTick 110, RTick 120]"
  let ?c = "\<lparr> cg_id = 1, cg_name = ''r2'', cg_target = ''b2'', cg_sha = ''sha'', cg_canary = 1, cg_batch = 2,
    cg_halt = True, cg_window = 86400, cg_probation = 120, cg_state = ''running'', cg_note = [], cg_by = ''ops'',
    cg_created = 100, cg_started = 100, cg_finished = 0 \<rparr>"
  have ok: "list_all rop_ok ?xs" by (simp add: rop_ok_def demo_launch_def)
  have g: "dget (ro_campaigns (rrun ?xs (init_rollout demo_registry))) 1 = Some ?c" by code_simp
  have n: "nD (view 1 (rrun ?xs (init_rollout demo_registry))) = 1" by code_simp
  have "max (canary_n ?c) (batch_n ?c) = 2" by code_simp
  with rollout_is_bounded [OF ok g] n show ?thesis by simp
qed

text \<open>C9: A halt is final. A tick over a running campaign that halts on failure and has a rolled back or dark
  probe sends it nothing, and no later launch, tick, report, abort or registry change ever makes the
  campaign send an update again.\<close>

theorem halt_is_final:
  assumes "roll_ok r" "c \<in> set (db_list_campaigns 200 r)" "cg_state c = ''running''" "cg_halt c"
    and "failures (db_list_campaign_probes (cg_id c) r) \<noteq> []" "list_all rop_ok xs"
  shows "sent (cg_id c) (rrun xs (campaign_tick now r)) = sent (cg_id c) r"
  by (rule halted_for_good [OF assms])

theorem halt_is_final_witness:
  "sent 1 (rrun [RTick 170, RTick 180] (campaign_tick 160 (rrun [demo_launch [''p'', ''q'', ''r''] 1 True, RTick 110,
     RReport 150 ''p'' rolled_back] (init_rollout demo_registry)))) = 1"
proof -
  let ?r = "rrun [demo_launch [''p'', ''q'', ''r''] 1 True, RTick 110, RReport 150 ''p'' rolled_back]
    (init_rollout demo_registry)"
  let ?c = "\<lparr> cg_id = 1, cg_name = ''r2'', cg_target = ''b2'', cg_sha = ''sha'', cg_canary = 1, cg_batch = 2,
    cg_halt = True, cg_window = 86400, cg_probation = 120, cg_state = ''running'', cg_note = [], cg_by = ''ops'',
    cg_created = 100, cg_started = 100, cg_finished = 0 \<rparr>"
  have ok: "roll_ok ?r" by (rule rrun_ok) (simp_all add: rop_ok_def demo_launch_def)
  have "db_list_campaigns 200 ?r = [?c]" by code_simp
  then have m: "?c \<in> set (db_list_campaigns 200 ?r)" by simp
  have run: "cg_state ?c = ''running''" "cg_halt ?c" by simp_all
  have f: "failures (db_list_campaign_probes (cg_id ?c) ?r) \<noteq> []" by code_simp
  have l: "list_all rop_ok [RTick 170, RTick 180]" by (simp add: rop_ok_def)
  have s: "sent (cg_id ?c) ?r = 1" by code_simp
  have i: "cg_id ?c = 1" by simp
  from halt_is_final [OF ok m run f l, of 160] s show ?thesis unfolding i by simp
qed

text \<open>C40: An update that never reports blocks its campaign. While the canaries in flight keep checking in and
  none of them reports, a pass inside the campaign window changes nothing: no deadline applies to a
  probe that is online.\<close>

theorem silent_canary_blocks:
  assumes "roll_ok r" "cg_halt c \<longrightarrow> failures (db_list_campaign_probes (cg_id c) r) = []"
    and "\<forall>x \<in> set (in_state ''dispatched'' (db_list_campaign_probes (cg_id c) r)). online now (db_get_probe (cp_probe x) (ro_db r))"
    and "int (nS (view (cg_id c) r)) < canary_n c" "canary_n c \<le> int (nS (view (cg_id c) r)) + int (nD (view (cg_id c) r))"
    and "now - started_of now c \<le> of_int (window_n c)"
  shows "advance now c r = r"
  using silent_canary_stuck [OF assms(1) _ assms(3-6)] assms(2) by blast

definition seen_at :: "ts \<Rightarrow> probe_db \<Rightarrow> probe_db" where
  "seen_at now db = db\<lparr> pd_probes := map (\<lambda>(k, p). (k, p\<lparr> pr_last_seen := now \<rparr>)) (pd_probes db) \<rparr>"

theorem silent_canary_blocks_witness:
  "case dget (ro_campaigns (rrun [demo_launch [''p'', ''q'', ''r''] 1 True, RTick 110] (init_rollout demo_registry))) 1 of
     None \<Rightarrow> False
   | Some c \<Rightarrow> advance 40000 c (on_db (seen_at 40000) (rrun [demo_launch [''p'', ''q'', ''r''] 1 True, RTick 110] (init_rollout demo_registry)))
       = on_db (seen_at 40000) (rrun [demo_launch [''p'', ''q'', ''r''] 1 True, RTick 110] (init_rollout demo_registry))"
proof -
  let ?start = "rrun [demo_launch [''p'', ''q'', ''r''] 1 True, RTick 110] (init_rollout demo_registry)"
  let ?r = "on_db (seen_at 40000) ?start"
  let ?c = "\<lparr> cg_id = 1, cg_name = ''r2'', cg_target = ''b2'', cg_sha = ''sha'', cg_canary = 1, cg_batch = 2,
    cg_halt = True, cg_window = 86400, cg_probation = 120, cg_state = ''running'', cg_note = [], cg_by = ''ops'',
    cg_created = 100, cg_started = 100, cg_finished = 0 \<rparr>"
  have ok0: "roll_ok ?start" by (rule rrun_ok) (simp_all add: rop_ok_def demo_launch_def)
  have rk: "rop_ok (RRegistry (seen_at 40000))" by (simp add: rop_ok_def)
  have ok: "roll_ok ?r" by (rule rexec_ok(1) [OF ok0 rk, unfolded rexec.simps])
  have g: "dget (ro_campaigns ?start) 1 = Some ?c" by code_simp
  have f: "cg_halt ?c \<longrightarrow> failures (db_list_campaign_probes (cg_id ?c) ?r) = []" by code_simp
  have o: "\<forall>x \<in> set (in_state ''dispatched'' (db_list_campaign_probes (cg_id ?c) ?r)). online 40000 (db_get_probe (cp_probe x) (ro_db ?r))"
    by code_simp
  have a: "int (nS (view (cg_id ?c) ?r)) < canary_n ?c" by code_simp
  have b: "canary_n ?c \<le> int (nS (view (cg_id ?c) ?r)) + int (nD (view (cg_id ?c) ?r))" by code_simp
  have w: "40000 - started_of 40000 ?c \<le> of_int (window_n ?c)" by code_simp
  from silent_canary_blocks [OF ok f o a b w] show ?thesis unfolding g by simp
qed

text \<open>The launch does not remove repeated probe ids. With one probe listed twice and a canary of two, the
  first tick sends that probe two updates and no other probe any; its single report then marks both
  rows, and the next tick starts the batch phase with one canary probe tried instead of two.\<close>

theorem repeated_probe_breaks_canary:
  "ro_sent (rrun [demo_launch [''p'', ''p'', ''q'', ''r''] 2 True, RTick 110] (init_rollout demo_registry))
     = [(1, ''p''), (1, ''p'')]
   \<and> ro_sent (rrun [demo_launch [''p'', ''p'', ''q'', ''r''] 2 True, RTick 110,
       RReport 150 ''p'' (rolled_back\<lparr> ur_outcome := ''success'' \<rparr>), RTick 160] (init_rollout demo_registry))
     = [(1, ''p''), (1, ''p''), (1, ''q''), (1, ''r'')]"
  by code_simp

end
