(* ===== verification/Supervisor.thy ===== *)
theory Supervisor
  imports Prelude "HOL-Library.List_Lexorder" "HOL-Library.Char_ord"
begin

text \<open>
  The agent supervisor (\<open>agent/supervisor.py\<close>): release selection, probation and rollback of an
  agent host. The files of the base directory are fields of \<open>host\<close>; \<open>supervisor_state.json\<close> is
  written whenever the state in memory changes, so one field stands for both. A step is the code
  between two waits of \<open>supervise\<close>: the top of the loop up to the spawn, one poll of a running
  child, and what follows its exit. The log and the tail of it in a report are left out.
\<close>

section \<open>Files\<close>

record release =
  rl_mtime :: ts
  rl_has_agent :: bool                       \<comment> \<open>\<open>agent.py\<close> is a file\<close>

record probation =
  pb_target :: string
  pb_previous :: "string option"
  pb_deadline :: ts
  pb_started :: ts
  pb_campaign :: "int option"
  pb_attempt :: "string option"

record sup_state =
  sv_active :: "string option"               \<comment> \<open>\<open>active_release\<close>\<close>
  sv_previous :: "string option"
  sv_probation :: "probation option"

record beacon =                              \<comment> \<open>\<open>agent_health.json\<close>\<close>
  hb_build :: string
  hb_good :: int

record switch =                              \<comment> \<open>\<open>pending_switch.json\<close>\<close>
  ps_target :: string
  ps_window :: int
  ps_campaign :: "int option"
  ps_attempt :: "string option"

record sup_report =                          \<comment> \<open>\<open>update_report.json\<close>\<close>
  rp_outcome :: string
  rp_from :: "string option"
  rp_to :: "string option"
  rp_target :: "string option"
  rp_campaign :: "int option"
  rp_attempt :: "string option"
  rp_ts :: ts
  rp_reason :: string

datatype control = AtTop | Running string ts   \<comment> \<open>the build of the child and its start\<close>

record host =
  ho_state :: sup_state
  ho_releases :: "(string, release) dict"
  ho_beacon :: "beacon option"
  ho_pending :: "switch option"
  ho_report :: "sup_report option"
  ho_control :: control
  ho_crashes :: nat                          \<comment> \<open>\<open>fast_crashes\<close>\<close>

definition PROBATION_DEFAULT :: int where "PROBATION_DEFAULT = 120"
definition PROBATION_MIN :: int where "PROBATION_MIN = 30"
definition PROBATION_MAX :: int where "PROBATION_MAX = 900"
definition GOOD_CHECKINS :: int where "GOOD_CHECKINS = 2"
definition CRASH_FAST_SECS :: real where "CRASH_FAST_SECS = 60"
definition CRASH_MAX :: nat where "CRASH_MAX = 3"

section \<open>Releases\<close>

definition release_runnable :: "string option \<Rightarrow> (string, release) dict \<Rightarrow> bool" where
  "release_runnable b rs = (case b of
       None \<Rightarrow> False
     | Some n \<Rightarrow> n \<noteq> [] \<and> (case dget rs n of None \<Rightarrow> False | Some r \<Rightarrow> rl_has_agent r))"

text \<open>The newest runnable release; equal times are ordered by name, as tuples are.\<close>

definition newer :: "string \<times> release \<Rightarrow> string \<times> release \<Rightarrow> bool" where
  "newer a b \<longleftrightarrow> rl_mtime (snd a) > rl_mtime (snd b) \<or> rl_mtime (snd a) = rl_mtime (snd b) \<and> fst a > fst b"

fun newest :: "(string \<times> release) list \<Rightarrow> string option" where
  "newest [] = None"
| "newest [a] = Some (fst a)"
| "newest (a # b # xs) = (if newer a b then newest (a # xs) else newest (b # xs))"

definition discover_fallback_release :: "(string, release) dict \<Rightarrow> string option" where
  "discover_fallback_release rs = newest (filter (\<lambda>(n, r). release_runnable (Some n) rs) rs)"

definition prune_releases :: "string option list \<Rightarrow> (string, release) dict \<Rightarrow> (string, release) dict" where
  "prune_releases keep rs = filter (\<lambda>(n, r). Some n \<in> set (filter (\<lambda>b. b \<noteq> None \<and> b \<noteq> Some []) keep)) rs"

section \<open>Transitions\<close>

definition write_report :: "ts \<Rightarrow> string \<Rightarrow> string option \<Rightarrow> probation option \<Rightarrow> string \<Rightarrow> string option
    \<Rightarrow> host \<Rightarrow> host" where
  "write_report now outcome active prob reason target h = h\<lparr> ho_report := Some
     \<lparr> rp_outcome = outcome, rp_from = Option.bind prob pb_previous, rp_to = active,
       rp_target = (case target of
           Some t \<Rightarrow> if t \<noteq> [] then Some t else map_option pb_target prob
         | None \<Rightarrow> map_option pb_target prob),
       rp_campaign = Option.bind prob pb_campaign, rp_attempt = Option.bind prob pb_attempt,
       rp_ts = now, rp_reason = reason \<rparr> \<rparr>"

definition begin_switch :: "ts \<Rightarrow> switch \<Rightarrow> host \<Rightarrow> host" where
  "begin_switch now ps h =
     (let window = max PROBATION_MIN (min PROBATION_MAX (int_or (ps_window ps) PROBATION_DEFAULT));
          st = ho_state h
      in h\<lparr> ho_state := st\<lparr> sv_active := Some (ps_target ps), sv_probation := Some
               \<lparr> pb_target = ps_target ps, pb_previous = sv_active st, pb_deadline = now + of_int window,
                 pb_started = now, pb_campaign = ps_campaign ps, pb_attempt = ps_attempt ps \<rparr> \<rparr>,
             ho_beacon := None \<rparr>)"

definition commit :: "ts \<Rightarrow> host \<Rightarrow> host" where
  "commit now h =
     (let st = ho_state h; prob = sv_probation st;
          st' = st\<lparr> sv_previous := Option.bind prob pb_previous, sv_probation := None \<rparr>;
          h1 = write_report now ''success'' (sv_active st) None ''committed'' (map_option pb_target prob)
                 (h\<lparr> ho_state := st' \<rparr>)
      in h1\<lparr> ho_releases := prune_releases [sv_active st', sv_previous st'] (ho_releases h1) \<rparr>)"

definition rollback :: "ts \<Rightarrow> string \<Rightarrow> host \<Rightarrow> host" where
  "rollback now reason h =
     (let st = ho_state h; prob = sv_probation st; prev = Option.bind prob pb_previous;
          h1 = write_report now ''rolled_back'' (sv_active st) prob reason (map_option pb_target prob) h;
          active = (if release_runnable prev (ho_releases h) then prev
                    else case discover_fallback_release (ho_releases h) of Some b \<Rightarrow> Some b | None \<Rightarrow> prev)
      in h1\<lparr> ho_state := st\<lparr> sv_active := active, sv_probation := None \<rparr>, ho_beacon := None \<rparr>)"

section \<open>The loop\<close>

definition supervise_start :: "host \<Rightarrow> host" where
  "supervise_start h =
     (let h0 = h\<lparr> ho_control := AtTop, ho_crashes := 0 \<rparr>; rs = ho_releases h
      in if release_runnable (sv_active (ho_state h)) rs then h0
         else case discover_fallback_release rs of
                None \<Rightarrow> h0
              | Some fb \<Rightarrow> h0\<lparr> ho_state := (ho_state h)\<lparr> sv_active := Some fb, sv_probation := None \<rparr> \<rparr>)"

definition take_pending :: "ts \<Rightarrow> host \<Rightarrow> host" where
  "take_pending now h = (case ho_pending h of
       None \<Rightarrow> h
     | Some ps \<Rightarrow> if ps_target ps \<noteq> [] \<and> release_runnable (Some (ps_target ps)) (ho_releases h)
                  then begin_switch now ps (h\<lparr> ho_pending := None \<rparr>) else h)"

text \<open>\<open>spawned\<close> is whether the operating system could start the child.\<close>

definition loop_top :: "ts \<Rightarrow> bool \<Rightarrow> host \<Rightarrow> host" where
  "loop_top now spawned h =
     (if ho_control h \<noteq> AtTop then h
      else if \<not> release_runnable (sv_active (ho_state h)) (ho_releases h) then h
      else let h1 = take_pending now h
           in case sv_active (ho_state h1) of
                None \<Rightarrow> h1
              | Some b \<Rightarrow> if spawned then h1\<lparr> ho_control := Running b now \<rparr> else h1)"

definition healthy :: "string \<Rightarrow> host \<Rightarrow> bool" where
  "healthy b h \<longleftrightarrow> (case ho_beacon h of None \<Rightarrow> False | Some x \<Rightarrow> hb_build x = b \<and> GOOD_CHECKINS \<le> hb_good x)"

definition on_probation :: "string \<Rightarrow> host \<Rightarrow> probation option" where
  "on_probation b h = (case sv_probation (ho_state h) of
       Some pb \<Rightarrow> if pb_target pb = b then Some pb else None | None \<Rightarrow> None)"

definition poll_child :: "ts \<Rightarrow> host \<Rightarrow> host" where
  "poll_child now h = (case ho_control h of
       AtTop \<Rightarrow> h
     | Running b t0 \<Rightarrow> (case on_probation b h of
          None \<Rightarrow> h
        | Some pb \<Rightarrow>
            (if healthy b h then commit now h
             else if now > pb_deadline pb
             then (rollback now ''probation timeout (no healthy checkin)'' h)
                    \<lparr> ho_control := AtTop, ho_crashes := 0 \<rparr>
             else h)))"

text \<open>After the exit of the child: a hand-off, a crash on probation, or a crash of a committed release.\<close>

definition crashed :: "ts \<Rightarrow> string \<Rightarrow> ts \<Rightarrow> host \<Rightarrow> host" where
  "crashed now b t0 h =
     (if now - t0 < CRASH_FAST_SECS
      then let n = ho_crashes h + 1; prev = sv_previous (ho_state h)
           in if CRASH_MAX \<le> n \<and> release_runnable prev (ho_releases h) \<and> prev \<noteq> Some b
              then (write_report now ''rolled_back'' prev
                      (Some \<lparr> pb_target = b, pb_previous = prev, pb_deadline = 0, pb_started = 0,
                              pb_campaign = None, pb_attempt = None \<rparr>)
                      ''committed release crash-looping'' None h)
                    \<lparr> ho_state := (ho_state h)\<lparr> sv_active := prev \<rparr>, ho_beacon := None, ho_crashes := 0 \<rparr>
              else h\<lparr> ho_crashes := n \<rparr>
      else h\<lparr> ho_crashes := 0 \<rparr>)"

definition child_exit :: "ts \<Rightarrow> host \<Rightarrow> host" where
  "child_exit now h = (case ho_control h of
       AtTop \<Rightarrow> h
     | Running b t0 \<Rightarrow>
         (let h0 = h\<lparr> ho_control := AtTop \<rparr>;
              asked = (case ho_pending h of Some ps \<Rightarrow> ps_target ps \<noteq> [] | None \<Rightarrow> False);
              h1 = (if asked then h0\<lparr> ho_pending := None \<rparr> else h0)
          in case (if asked then ho_pending h else None) of
               Some ps \<Rightarrow>
                 (if release_runnable (Some (ps_target ps)) (ho_releases h)
                  then (begin_switch now ps h1)\<lparr> ho_crashes := 0 \<rparr>
                  else case on_probation b h1 of
                         Some pb \<Rightarrow> (rollback now ''agent exited during probation'' h1)\<lparr> ho_crashes := 0 \<rparr>
                       | None \<Rightarrow> crashed now b t0 h1)
             | None \<Rightarrow>
                 (case on_probation b h1 of
                    Some pb \<Rightarrow> (rollback now ''agent exited during probation'' h1)\<lparr> ho_crashes := 0 \<rparr>
                  | None \<Rightarrow> crashed now b t0 h1)))"

section \<open>Its surroundings\<close>

text \<open>
  What the agent does to the base directory: it stages a release (\<open>_extract_release\<close>, then the
  switch request), writes the beacon (\<open>_write_health\<close>) and removes an uploaded report.
\<close>

definition stage_release :: "switch \<Rightarrow> release \<Rightarrow> host \<Rightarrow> host" where
  "stage_release ps r h = h\<lparr> ho_releases := dput (ps_target ps) r (ho_releases h), ho_pending := Some ps \<rparr>"

definition write_health :: "string \<Rightarrow> int \<Rightarrow> host \<Rightarrow> host" where
  "write_health b n h = h\<lparr> ho_beacon := Some \<lparr> hb_build = b, hb_good = n \<rparr> \<rparr>"

datatype sup_op =
    SBoot | STop ts bool | SPoll ts | SExit ts
  | SStage switch release | SHealth string int | SUploaded

fun sexec :: "sup_op \<Rightarrow> host \<Rightarrow> host" where
  "sexec SBoot h = supervise_start h"
| "sexec (STop now ok) h = loop_top now ok h"
| "sexec (SPoll now) h = poll_child now h"
| "sexec (SExit now) h = child_exit now h"
| "sexec (SStage ps r) h = (case ho_control h of AtTop \<Rightarrow> h | Running b t0 \<Rightarrow> if ps_target ps = b then h else stage_release ps r h)"
| "sexec (SHealth b n) h = write_health b n h"
| "sexec SUploaded h = h\<lparr> ho_report := None \<rparr>"

definition srun :: "sup_op list \<Rightarrow> host \<Rightarrow> host" where
  "srun xs h = foldl (\<lambda>h x. sexec x h) h xs"

end
