(* ===== verification/SupervisorLaws.thy ===== *)
theory SupervisorLaws
  imports Supervisor
begin

text \<open>
  Safety of the supervisor. \<open>good\<close> is the set of builds that have passed a probation; the invariant
  \<open>host_ok\<close> says that outside a probation the active release is one of them and runnable, and that on
  probation the release to go back to is. It holds along every run in which no hand-off is staged
  while a probation is open.
\<close>

section \<open>Releases on disk\<close>

lemma runnable_dput:
  "release_runnable b (dput n r rs)
     = (if b = Some n then n \<noteq> [] \<and> rl_has_agent r else release_runnable b rs)"
  by (auto simp: release_runnable_def dict_simps split: option.splits)

lemma runnable_prune:
  "release_runnable b (prune_releases keep rs) \<longleftrightarrow> b \<in> set keep \<and> release_runnable b rs"
proof -
  have "dget (filter (\<lambda>(n, r). Some n \<in> set (filter (\<lambda>b. b \<noteq> None \<and> b \<noteq> Some []) keep)) rs) j
      = (if Some j \<in> set (filter (\<lambda>b. b \<noteq> None \<and> b \<noteq> Some []) keep) then dget rs j else None)" for j
    by (rule map_of_filter_key)
  then show ?thesis by (cases b) (auto simp: release_runnable_def prune_releases_def split: option.splits)
qed

section \<open>The invariant\<close>

definition host_ok :: "string set \<Rightarrow> host \<Rightarrow> bool" where
  "host_ok good h \<longleftrightarrow> (\<exists>a. sv_active (ho_state h) = Some a \<and> release_runnable (Some a) (ho_releases h)
     \<and> (case sv_probation (ho_state h) of
          None \<Rightarrow> a \<in> good
        | Some pb \<Rightarrow> pb_target pb = a \<and> ho_pending h = None
            \<and> (\<exists>p \<in> good. pb_previous pb = Some p \<and> release_runnable (Some p) (ho_releases h)))
     \<and> (case ho_control h of AtTop \<Rightarrow> True | Running b t0 \<Rightarrow> b = a))
   \<and> (\<forall>p. sv_previous (ho_state h) = Some p \<longrightarrow> p \<in> good)
   \<and> (\<forall>ps. ho_pending h = Some ps \<longrightarrow> release_runnable (Some (ps_target ps)) (ho_releases h))"

text \<open>The build that an operation proves: a poll that commits.\<close>

fun proves :: "sup_op \<Rightarrow> host \<Rightarrow> string set" where
  "proves (SPoll now) h = (case ho_control h of
     Running b t0 \<Rightarrow> if on_probation b h \<noteq> None \<and> healthy b h then {b} else {} | AtTop \<Rightarrow> {})"
| "proves _ h = {}"

fun proven :: "sup_op list \<Rightarrow> host \<Rightarrow> string set \<Rightarrow> string set" where
  "proven [] h good = good"
| "proven (x # xs) h good = proven xs (sexec x h) (good \<union> proves x h)"

text \<open>Hand-offs are staged outside a probation, and a staged release holds an agent.\<close>

fun calm :: "sup_op \<Rightarrow> host \<Rightarrow> bool" where
  "calm (SStage ps r) h \<longleftrightarrow> sv_probation (ho_state h) = None \<and> ps_target ps \<noteq> [] \<and> rl_has_agent r"
| "calm _ h = True"

fun calm_run :: "sup_op list \<Rightarrow> host \<Rightarrow> bool" where
  "calm_run [] h = True"
| "calm_run (x # xs) h \<longleftrightarrow> calm x h \<and> calm_run xs (sexec x h)"

lemma report_frame [simp]:
  "ho_state (write_report now oc a pb rs t h) = ho_state h"
  "ho_releases (write_report now oc a pb rs t h) = ho_releases h"
  "ho_pending (write_report now oc a pb rs t h) = ho_pending h"
  "ho_control (write_report now oc a pb rs t h) = ho_control h"
  "ho_beacon (write_report now oc a pb rs t h) = ho_beacon h"
  "ho_crashes (write_report now oc a pb rs t h) = ho_crashes h"
  by (simp_all add: write_report_def)

lemma switch_frame [simp]:
  "ho_releases (begin_switch now ps h) = ho_releases h" "ho_pending (begin_switch now ps h) = ho_pending h"
  "ho_control (begin_switch now ps h) = ho_control h"
  "sv_active (ho_state (begin_switch now ps h)) = Some (ps_target ps)"
  "sv_previous (ho_state (begin_switch now ps h)) = sv_previous (ho_state h)"
  by (simp_all add: begin_switch_def Let_def)

lemma switch_probation:
  "\<exists>pb. sv_probation (ho_state (begin_switch now ps h)) = Some pb \<and> pb_target pb = ps_target ps
     \<and> pb_previous pb = sv_active (ho_state h) \<and> pb_deadline pb \<le> now + 900 \<and> now + 30 \<le> pb_deadline pb"
  by (simp add: begin_switch_def Let_def PROBATION_MIN_def PROBATION_MAX_def)

lemma rollback_frame [simp]:
  "ho_releases (rollback now rs h) = ho_releases h" "ho_pending (rollback now rs h) = ho_pending h"
  "ho_control (rollback now rs h) = ho_control h" "sv_probation (ho_state (rollback now rs h)) = None"
  "sv_previous (ho_state (rollback now rs h)) = sv_previous (ho_state h)"
  by (simp_all add: rollback_def Let_def)

lemma rollback_active:
  "sv_probation (ho_state h) = Some pb \<Longrightarrow> release_runnable (pb_previous pb) (ho_releases h)
     \<Longrightarrow> sv_active (ho_state (rollback now rs h)) = pb_previous pb"
  by (simp add: rollback_def Let_def)

lemma commit_frame [simp]:
  "ho_pending (commit now h) = ho_pending h" "ho_control (commit now h) = ho_control h"
  "sv_active (ho_state (commit now h)) = sv_active (ho_state h)"
  "sv_probation (ho_state (commit now h)) = None"
  "sv_previous (ho_state (commit now h)) = Option.bind (sv_probation (ho_state h)) pb_previous"
  by (simp_all add: commit_def Let_def)

lemma commit_runnable:
  "release_runnable b (ho_releases (commit now h)) \<longleftrightarrow>
     (b = sv_active (ho_state h) \<or> b = Option.bind (sv_probation (ho_state h)) pb_previous) \<and> release_runnable b (ho_releases h)"
  by (simp add: commit_def Let_def runnable_prune)

lemma host_ok_mono: "host_ok g h \<Longrightarrow> g \<subseteq> g' \<Longrightarrow> host_ok g' h"
  unfolding host_ok_def by (fastforce split: option.splits)

lemma host_ok_frame:
  assumes "host_ok g h" "ho_state h' = ho_state h" "ho_releases h' = ho_releases h" "ho_pending h' = ho_pending h"
    and "ho_control h' = ho_control h \<or> ho_control h' = AtTop"
  shows "host_ok g h'"
  using assms unfolding host_ok_def by (auto split: option.splits)

text \<open>A switch is made outside a probation, from a proven release to a runnable one.\<close>

lemma switch_ok:
  assumes "host_ok g h" "ho_pending h = Some ps" "ho_control h' = AtTop"
    and "ho_state h' = ho_state h" "ho_releases h' = ho_releases h" "ho_pending h' = None"
  shows "host_ok g (begin_switch now ps h')"
proof -
  from assms(1,2) obtain a where a: "sv_active (ho_state h) = Some a" "release_runnable (Some a) (ho_releases h)"
    "sv_probation (ho_state h) = None" "a \<in> g"
    unfolding host_ok_def by (auto split: option.splits)
  have p: "\<forall>p. sv_previous (ho_state h) = Some p \<longrightarrow> p \<in> g"
    and t: "release_runnable (Some (ps_target ps)) (ho_releases h)"
    using assms(1,2) unfolding host_ok_def by auto
  obtain pb where pb: "sv_probation (ho_state (begin_switch now ps h')) = Some pb" "pb_target pb = ps_target ps"
    "pb_previous pb = sv_active (ho_state h')"
    using switch_probation by blast
  show ?thesis
    unfolding host_ok_def using a p t pb assms(3-6) by simp
qed

text \<open>A rollback goes back to a proven release that is still there.\<close>

lemma rollback_ok:
  assumes "host_ok g h" "sv_probation (ho_state h) = Some pb"
  shows "host_ok g ((rollback now rs h)\<lparr> ho_control := AtTop, ho_crashes := n \<rparr>)"
proof -
  from assms obtain p where p: "p \<in> g" "pb_previous pb = Some p" "release_runnable (Some p) (ho_releases h)"
    "ho_pending h = None" "\<forall>p. sv_previous (ho_state h) = Some p \<longrightarrow> p \<in> g"
    unfolding host_ok_def by auto
  have "sv_active (ho_state (rollback now rs h)) = Some p"
    using rollback_active [OF assms(2), of now rs] p by simp
  then show ?thesis unfolding host_ok_def using p by simp
qed

lemma commit_ok:
  assumes "host_ok g h" "sv_probation (ho_state h) = Some pb" "sv_active (ho_state h) = Some b"
  shows "host_ok (insert b g) (commit now h)"
proof -
  from assms obtain p where p: "p \<in> g" "pb_previous pb = Some p" "release_runnable (Some p) (ho_releases h)"
    "ho_pending h = None" "release_runnable (Some b) (ho_releases h)"
    "case ho_control h of AtTop \<Rightarrow> True | Running b' t0 \<Rightarrow> b' = b"
    unfolding host_ok_def by auto
  then show ?thesis unfolding host_ok_def using assms(2,3) by (simp add: commit_runnable)
qed

lemma crashed_ok:
  assumes "host_ok g h" "ho_control h = AtTop" "sv_probation (ho_state h) = None"
  shows "host_ok g (crashed now b t0 h)"
proof (cases "now - t0 < CRASH_FAST_SECS \<and> CRASH_MAX \<le> ho_crashes h + 1
    \<and> release_runnable (sv_previous (ho_state h)) (ho_releases h) \<and> sv_previous (ho_state h) \<noteq> Some b")
  case True
  then obtain p where p: "sv_previous (ho_state h) = Some p" "release_runnable (Some p) (ho_releases h)"
    by (cases "sv_previous (ho_state h)") (auto simp: release_runnable_def)
  moreover have "p \<in> g" "\<forall>ps. ho_pending h = Some ps \<longrightarrow> release_runnable (Some (ps_target ps)) (ho_releases h)"
    using assms(1) p(1) unfolding host_ok_def by auto
  ultimately show ?thesis using True assms(2,3) by (simp add: crashed_def Let_def host_ok_def)
next
  case False
  then have "crashed now b t0 h = h\<lparr> ho_crashes := if now - t0 < CRASH_FAST_SECS then ho_crashes h + 1 else 0 \<rparr>"
    by (auto simp: crashed_def Let_def)
  then show ?thesis using host_ok_frame [OF assms(1)] by simp
qed

lemma on_probation_some: "on_probation b h = Some pb \<longleftrightarrow> sv_probation (ho_state h) = Some pb \<and> pb_target pb = b"
  by (auto simp: on_probation_def split: option.splits)

lemma running_active:
  assumes "host_ok g h" "ho_control h = Running b t0"
  shows "sv_active (ho_state h) = Some b" "sv_probation (ho_state h) = Some pb \<Longrightarrow> on_probation b h = Some pb"
    "on_probation b h = None \<Longrightarrow> sv_probation (ho_state h) = None"
  using assms unfolding host_ok_def on_probation_def by (auto split: option.splits)

lemma poll_ok:
  assumes "host_ok g h"
  shows "host_ok (g \<union> proves (SPoll now) h) (poll_child now h)"
proof (cases "ho_control h")
  case AtTop
  then show ?thesis using assms by (simp add: poll_child_def)
next
  case (Running b t0)
  show ?thesis
  proof (cases "on_probation b h")
    case None
    then show ?thesis using assms Running by (simp add: poll_child_def)
  next
    case (Some pb)
    then have pr: "sv_probation (ho_state h) = Some pb" by (simp add: on_probation_some)
    show ?thesis
      using commit_ok [OF assms pr running_active(1) [OF assms Running]] rollback_ok [OF assms pr] assms
      by (simp add: poll_child_def Running Some)
  qed
qed

lemma exit_ok:
  assumes "host_ok g h"
  shows "host_ok g (child_exit now h)"
proof (cases "ho_control h")
  case AtTop
  then show ?thesis using assms by (simp add: child_exit_def)
next
  case (Running b t0)
  let ?h0 = "h\<lparr> ho_control := AtTop \<rparr>"
  let ?h1 = "?h0\<lparr> ho_pending := None \<rparr>"
  have h0: "host_ok g ?h0" using host_ok_frame [OF assms] by simp
  have h1: "host_ok g ?h1" using h0 unfolding host_ok_def by (auto split: option.splits)
  have pn: "on_probation b ?h1 = on_probation b h" "on_probation b ?h0 = on_probation b h"
    by (simp_all add: on_probation_def)
  have down: "host_ok g (case on_probation b h of
      Some pb \<Rightarrow> (rollback now rs k)\<lparr> ho_crashes := 0 \<rparr> | None \<Rightarrow> crashed now b t0 k)"
    if k: "host_ok g k" "ho_control k = AtTop" "ho_state k = ho_state h" for k rs
  proof (cases "on_probation b h")
    case None
    then have "sv_probation (ho_state k) = None" using running_active(3) [OF assms Running] k(3) by simp
    then show ?thesis using crashed_ok [OF k(1,2)] None by simp
  next
    case (Some pb)
    then have "sv_probation (ho_state k) = Some pb" using k(3) by (simp add: on_probation_some)
    have "host_ok g ((rollback now rs k)\<lparr> ho_crashes := 0 \<rparr>)"
      by (rule host_ok_frame [OF rollback_ok [where n = 0, OF k(1) \<open>sv_probation (ho_state k) = Some pb\<close>]]) (simp_all add: k(2))
    then show ?thesis using Some by simp
  qed
  show ?thesis
  proof (cases "ho_pending h")
    case None
    then show ?thesis using down [OF h0] by (simp add: child_exit_def Running Let_def pn)
  next
    case (Some ps)
    have "host_ok g (begin_switch now ps ?h1)" by (rule switch_ok [OF assms Some]) simp_all
    then have "host_ok g ((begin_switch now ps ?h1)\<lparr> ho_crashes := 0 \<rparr>)" by (rule host_ok_frame) simp_all
    then show ?thesis
      using Some down [OF h0] down [OF h1] by (simp add: child_exit_def Running Let_def pn)
  qed
qed

lemma top_ok:
  assumes "host_ok g h"
  shows "host_ok g (loop_top now spawned h)"
proof (cases "ho_control h = AtTop")
  case True
  have "host_ok g (take_pending now h)"
  proof (cases "ho_pending h")
    case (Some ps)
    then show ?thesis
      using assms switch_ok [OF assms Some, of "h\<lparr> ho_pending := None \<rparr>"] True by (simp add: take_pending_def)
  qed (simp add: take_pending_def assms)
  moreover from this obtain b where "sv_active (ho_state (take_pending now h)) = Some b"
    unfolding host_ok_def by auto
  ultimately show ?thesis using assms True
    unfolding loop_top_def by (auto simp: Let_def host_ok_def split: option.splits)
qed (simp add: loop_top_def assms)

lemma start_ok: "host_ok g h \<Longrightarrow> host_ok g (supervise_start h)"
proof (rule host_ok_frame, assumption)
  assume "host_ok g h"
  then have "release_runnable (sv_active (ho_state h)) (ho_releases h)" by (auto simp: host_ok_def)
  then have "supervise_start h = h\<lparr> ho_control := AtTop, ho_crashes := 0 \<rparr>" by (simp add: supervise_start_def)
  then show "ho_state (supervise_start h) = ho_state h" "ho_releases (supervise_start h) = ho_releases h"
    "ho_pending (supervise_start h) = ho_pending h"
    "ho_control (supervise_start h) = ho_control h \<or> ho_control (supervise_start h) = AtTop"
    by simp_all
qed

lemma staging_ok:
  assumes "host_ok g h" "sv_probation (ho_state h) = None" "ps_target ps \<noteq> []" "rl_has_agent r"
  shows "host_ok g (stage_release ps r h)"
proof -
  have mono: "release_runnable b (ho_releases h) \<Longrightarrow> release_runnable b (dput (ps_target ps) r (ho_releases h))" for b
    using assms(3,4) by (simp add: runnable_dput)
  have new: "release_runnable (Some (ps_target ps)) (dput (ps_target ps) r (ho_releases h))"
    using assms(3,4) by (simp add: runnable_dput)
  from assms(1,2) obtain a where "sv_active (ho_state h) = Some a" "release_runnable (Some a) (ho_releases h)" "a \<in> g"
    "case ho_control h of AtTop \<Rightarrow> True | Running b t0 \<Rightarrow> b = a" "\<forall>p. sv_previous (ho_state h) = Some p \<longrightarrow> p \<in> g"
    unfolding host_ok_def by auto
  with mono new assms(2) show ?thesis unfolding host_ok_def stage_release_def by simp
qed

lemma sexec_ok:
  assumes "host_ok g h" "calm x h"
  shows "host_ok (g \<union> proves x h) (sexec x h)"
proof (cases x)
  case (SStage ps r)
  then show ?thesis using assms staging_ok by (auto split: control.splits)
next
  case (SPoll now)
  then show ?thesis using poll_ok [OF assms(1)] by simp
next
  case (SHealth b n)
  then show ?thesis using host_ok_frame [OF assms(1)] by (simp add: write_health_def)
next
  case SUploaded
  then show ?thesis using host_ok_frame [OF assms(1)] by simp
qed (simp_all add: top_ok start_ok exit_ok assms)

lemma srun_ok:
  "host_ok g h \<Longrightarrow> calm_run xs h \<Longrightarrow> host_ok (proven xs h g) (srun xs h)"
  by (induction xs arbitrary: g h) (simp_all add: srun_def sexec_ok)

section \<open>A probation ends\<close>

text \<open>What a rollback makes active: the previous release, or what is left when it cannot run.\<close>

definition put_back :: "probation \<Rightarrow> host \<Rightarrow> string option" where
  "put_back pb h =
     (if release_runnable (pb_previous pb) (ho_releases h) then pb_previous pb
      else case discover_fallback_release (ho_releases h) of Some b \<Rightarrow> Some b | None \<Rightarrow> pb_previous pb)"

lemma rollback_puts_back:
  assumes "sv_probation (ho_state h) = Some pb"
  shows "sv_active (ho_state (rollback now reason h)) = put_back pb h" "sv_probation (ho_state (rollback now reason h)) = None"
  using assms by (simp_all add: rollback_def put_back_def write_report_def Let_def split: option.split)

lemma probation_poll:
  assumes "ho_control h = Running b t0" "on_probation b h = Some pb" "pb_deadline pb < now"
  shows "sv_probation (ho_state (poll_child now h)) = None"
    and "healthy b h \<Longrightarrow> sv_active (ho_state (poll_child now h)) = sv_active (ho_state h)
      \<and> sv_previous (ho_state (poll_child now h)) = pb_previous pb"
    and "\<not> healthy b h \<Longrightarrow> sv_active (ho_state (poll_child now h)) = put_back pb h \<and> ho_control (poll_child now h) = AtTop"
proof -
  have pr: "sv_probation (ho_state h) = Some pb" using assms(2) by (simp add: on_probation_some)
  show "sv_probation (ho_state (poll_child now h)) = None" using assms by (simp add: poll_child_def)
  show "healthy b h \<Longrightarrow> sv_active (ho_state (poll_child now h)) = sv_active (ho_state h)
      \<and> sv_previous (ho_state (poll_child now h)) = pb_previous pb"
    using assms pr by (simp add: poll_child_def)
  show "\<not> healthy b h \<Longrightarrow> sv_active (ho_state (poll_child now h)) = put_back pb h \<and> ho_control (poll_child now h) = AtTop"
    using assms rollback_puts_back [OF pr] by (simp add: poll_child_def)
qed

lemma probation_exit:
  assumes "ho_control h = Running b t0" "on_probation b h = Some pb" "ho_pending h = None"
  shows "sv_probation (ho_state (child_exit now h)) = None"
    and "sv_active (ho_state (child_exit now h)) = put_back pb h"
proof -
  have "sv_probation (ho_state h) = Some pb" using assms(2) by (simp add: on_probation_some)
  moreover have "put_back pb (h\<lparr> ho_control := AtTop \<rparr>) = put_back pb h" by (simp add: put_back_def)
  ultimately show "sv_probation (ho_state (child_exit now h)) = None" "sv_active (ho_state (child_exit now h)) = put_back pb h"
    using assms rollback_puts_back [of "h\<lparr> ho_control := AtTop \<rparr>" pb now]
    by (simp_all add: child_exit_def Let_def on_probation_def)
qed

section \<open>A crash loop ends\<close>

text \<open>One fast crash after a spawn of the same build: counted, and at the third the previous release takes over.\<close>

lemma fast_crash:
  assumes "ho_control h = Running b t0" "sv_probation (ho_state h) = None" "ho_pending h = None"
    and "now - t0 < 60" "sv_previous (ho_state h) = Some p" "p \<noteq> b" "release_runnable (Some p) (ho_releases h)"
  shows "ho_crashes h + 1 < 3 \<Longrightarrow> child_exit now h = h\<lparr> ho_control := AtTop, ho_crashes := ho_crashes h + 1 \<rparr>"
    and "3 \<le> ho_crashes h + 1 \<Longrightarrow> sv_active (ho_state (child_exit now h)) = Some p \<and> ho_crashes (child_exit now h) = 0"
  using assms by (simp_all add: child_exit_def crashed_def on_probation_def Let_def CRASH_FAST_SECS_def CRASH_MAX_def)

section \<open>What the server is told\<close>

lemma commit_report: "ho_report (commit now h) = Some
   \<lparr> rp_outcome = ''success'', rp_from = None, rp_to = sv_active (ho_state h),
     rp_target = (case map_option pb_target (sv_probation (ho_state h)) of Some t \<Rightarrow> if t \<noteq> [] then Some t else None | None \<Rightarrow> None),
     rp_campaign = None, rp_attempt = None, rp_ts = now, rp_reason = ''committed'' \<rparr>"
  by (cases "sv_probation (ho_state h)") (simp_all add: commit_def write_report_def Let_def)

lemma rollback_report: "sv_probation (ho_state h) = Some pb \<Longrightarrow>
   map_option rp_campaign (ho_report (rollback now rs h)) = Some (pb_campaign pb)
   \<and> map_option rp_outcome (ho_report (rollback now rs h)) = Some ''rolled_back''"
  by (simp add: rollback_def write_report_def Let_def)

end
