(* ===== verification/ManagedUpdate.thy ===== *)
theory ManagedUpdate
  imports SupervisorLaws RolloutLaws
begin

text \<open>
  The agent's part of an update (\<open>_run_agent_update\<close> and \<open>_upload_pending_report\<close> in
  \<open>agent/agent.py\<close>) and the composition of the supervisor of one agent host with the campaigns of
  the server. The download, the digest and the extraction of the archive are parameters: they stand
  for the network, \<open>hashlib\<close> and \<open>zipfile\<close>.
\<close>

section \<open>Staging\<close>

record update_payload_in =
  up_build :: string
  up_sha :: string
  up_window :: int
  up_campaign :: "int option"
  up_attempt :: "string option"

datatype stage_result = AlreadyRunning | Refused string | Staged switch release

text \<open>\<open>download\<close> gives the status and the body, \<open>None\<close> an empty one; no pair is a transport error.\<close>

definition run_agent_update :: "(string \<Rightarrow> (nat \<times> 'd option) option) \<Rightarrow> ('d \<Rightarrow> string) \<Rightarrow> ('d \<Rightarrow> release option)
    \<Rightarrow> (string \<Rightarrow> string) \<Rightarrow> bool \<Rightarrow> string \<Rightarrow> update_payload_in \<Rightarrow> stage_result" where
  "run_agent_update download digest extract_zip lowercase managed running u =
     (let sha = lowercase (up_sha u)
      in if \<not> managed then Refused ''probe is not supervisor-managed''
         else if up_build u = [] \<or> length sha \<noteq> 64 then Refused ''missing build_id/package_sha256''
         else if up_build u = running then AlreadyRunning
         else case download (up_build u) of
                None \<Rightarrow> Refused ''download failed''
              | Some (status, body) \<Rightarrow>
                  (if status \<noteq> 200 then Refused ''download HTTP''
                   else case body of
                     None \<Rightarrow> Refused ''download HTTP''
                   | Some d \<Rightarrow>
                      (if digest d \<noteq> sha then Refused ''checksum mismatch''
                       else case extract_zip d of
                          None \<Rightarrow> Refused ''extract failed''
                        | Some r \<Rightarrow> Staged \<lparr> ps_target = up_build u, ps_window = int_or (up_window u) 120,
                            ps_campaign = up_campaign u, ps_attempt = up_attempt u \<rparr> r)))"

lemma staged_is_verified:
  "run_agent_update download digest extract_zip lowercase managed running u = Staged ps r \<Longrightarrow>
     managed \<and> ps_target ps = up_build u \<and> ps_target ps \<noteq> [] \<and> ps_target ps \<noteq> running
     \<and> (\<exists>d. download (up_build u) = Some (200, Some d) \<and> digest d = lowercase (up_sha u) \<and> extract_zip d = Some r)"
  by (auto simp: run_agent_update_def Let_def split: if_splits option.splits)

section \<open>Reporting\<close>

definition report_of :: "sup_report \<Rightarrow> update_report" where
  "report_of rp = \<lparr> ur_probe = [], ur_campaign = rp_campaign rp,
     ur_attempt = (case rp_attempt rp of Some a \<Rightarrow> a | None \<Rightarrow> []), ur_outcome = rp_outcome rp,
     ur_target = (case rp_target rp of Some t \<Rightarrow> t | None \<Rightarrow> []), ur_reason = rp_reason rp, ur_ts = rp_ts rp \<rparr>"

text \<open>One attempt: it does not reach the server, its answer is lost, or it is acknowledged.\<close>

datatype transfer = Unreached | AnswerLost | Acknowledged

definition upload_pending_report :: "ts \<Rightarrow> string \<Rightarrow> transfer \<Rightarrow> host \<times> rollout \<Rightarrow> host \<times> rollout" where
  "upload_pending_report now k tr hr =
     (let (h, r) = hr
      in case ho_report h of
           None \<Rightarrow> (h, r)
         | Some rp \<Rightarrow> (case tr of
              Unreached \<Rightarrow> (h, r)
            | AnswerLost \<Rightarrow> (h, report_update now k (report_of rp) r)
            | Acknowledged \<Rightarrow> (h\<lparr> ho_report := None \<rparr>, report_update now k (report_of rp) r)))"

section \<open>What a campaign learns\<close>

lemma report_without_campaign:
  "ur_campaign rep = None \<Longrightarrow> ro_rows (report_update now k rep r) = ro_rows r
     \<and> ro_campaigns (report_update now k rep r) = ro_campaigns r"
  by (simp add: report_update_def Let_def)

text \<open>The report of a commit names no campaign: the rows of every campaign stay as they are.\<close>

lemma commit_uncredited:
  "ro_rows (snd (upload_pending_report now' k tr (commit now h, r))) = ro_rows r"
  by (cases tr) (simp_all add: upload_pending_report_def commit_report report_of_def report_without_campaign)

lemma rollback_credited:
  assumes "sv_probation (ho_state h) = Some pb" "pb_campaign pb = Some cid" "cid \<noteq> 0" "tr \<noteq> Unreached"
  shows "view cid (snd (upload_pending_report now' k tr (rollback now rs h, r))) = upd k ''rolled_back'' (view cid r)"
proof -
  obtain rp where rp: "ho_report (rollback now rs h) = Some rp" "rp_campaign rp = Some cid" "rp_outcome rp = ''rolled_back''"
    using rollback_report [OF assms(1), of now rs] assms(2) by auto
  have "view cid (report_update now' k (report_of rp) r) = upd k ''rolled_back'' (view cid r)"
    using rp(2,3) assms(3) by (simp add: report_update_def report_of_def Let_def view_set_state)
  then show ?thesis
    using rp(1) assms(4) by (cases tr) (simp_all add: upload_pending_report_def)
qed

end
