(* ===== verification/AgentIngest.thy ===== *)
theory AgentIngest
  imports MonitorLaws Probes
begin

text \<open>
  Ingestion of a batch of an agent's results (\<open>_ingest_results\<close> in \<open>routes/agent.py\<close>) through the
  state machine of \<open>Monitor\<close>, and the check-in handler that calls it. A decoded JSON value of the
  batch is a \<open>wire\<close>; numbers that do not parse are \<open>None\<close>. The handler holds the lock of the probe, so
  a batch is one step.
\<close>

section \<open>One result\<close>

record wire_result =
  wr_did :: did
  wr_sid :: sid
  wr_ts :: "ts option"
  wr_ok :: bool
  wr_ms :: "real option"
  wr_detail :: string
  wr_value :: "string option"
  wr_snmp_type :: string
  wr_rate :: "real option"
  wr_cert_days :: "int option"

datatype wire = NotADict | Wire wire_result

definition max_results :: nat where "max_results = 5000"

text \<open>The sort key; a key that raises leaves the batch in its order.\<close>

fun sort_ts :: "wire \<Rightarrow> ts option" where
  "sort_ts NotADict = Some 0"
| "sort_ts (Wire w) = wr_ts w"

definition sort_batch :: "wire list \<Rightarrow> wire list" where
  "sort_batch ws = (if list_all (\<lambda>w. sort_ts w \<noteq> None) ws then sort_key (\<lambda>w. the (sort_ts w)) ws else ws)"

definition probe_result_of :: "wire_result \<Rightarrow> probe_result" where
  "probe_result_of w = \<lparr> r_ok = wr_ok w, r_ms = wr_ms w, r_detail = take 512 (wr_detail w),
     r_value = map_option (take 512) (wr_value w), r_snmp_type = take 32 (wr_snmp_type w),
     r_rate = wr_rate w, r_cert_days = wr_cert_days w \<rparr>"

definition clamp_ts :: "ts \<Rightarrow> ts \<Rightarrow> ts" where
  "clamp_ts now t = (if t > now + 5 then now else t)"

definition stale_cutoff :: "sensor \<Rightarrow> real" where
  "stale_cutoff s = max 120 (2 * of_int (int_or (c_interval (s_cfg s)) 5))"

definition ingest_one :: "mon_env \<Rightarrow> string \<Rightarrow> ts \<Rightarrow> wire \<Rightarrow> monitor \<Rightarrow> monitor \<times> bool" where
  "ingest_one x pid now w m = (case w of
       NotADict \<Rightarrow> (m, False)
     | Wire f \<Rightarrow> (case wr_ts f of
          None \<Rightarrow> (m, False)
        | Some t \<Rightarrow>
            (if t \<le> 0 then (m, False)
             else case find_sensor (wr_did f) (wr_sid f) m of
                    None \<Rightarrow> (m, False)
                  | Some (dev, s) \<Rightarrow>
                      (let (b, eff) = effective_probe (Some dev) (Some s) (m_bind m); m1 = m\<lparr> m_bind := b \<rparr>
                       in if eff \<noteq> pid then (m1, False)
                          else let ts' = clamp_ts now t
                               in process_result x (wr_did f) (wr_sid f) (probe_result_of f) ts' Probe
                                    (ts' \<ge> now - stale_cutoff s) m1))))"

fun ingest_loop :: "mon_env \<Rightarrow> string \<Rightarrow> ts \<Rightarrow> wire list \<Rightarrow> monitor \<times> nat \<times> nat \<Rightarrow> monitor \<times> nat \<times> nat" where
  "ingest_loop x pid now [] st = st"
| "ingest_loop x pid now (w # ws) (m, acc, rej) =
     (let (m1, ok) = ingest_one x pid now w m
      in ingest_loop x pid now ws (m1, if ok then acc + 1 else acc, if ok then rej else rej + 1))"

definition ingest_results :: "mon_env \<Rightarrow> string \<Rightarrow> ts \<Rightarrow> wire list \<Rightarrow> monitor \<Rightarrow> monitor \<times> nat \<times> nat" where
  "ingest_results x pid now ws m = ingest_loop x pid now (sort_batch ws) (m, 0, 0)"

section \<open>The check-in\<close>

record checkin_body =
  cb_protocol :: int
  cb_results :: "wire list"
  cb_fields :: chk_fields                    \<comment> \<open>\<open>_status_fields(body)\<close>\<close>
  cb_tasks :: "(int \<times> string \<times> string option \<times> string) list"

record checkin_reply =
  cr_status :: nat
  cr_acked :: nat
  cr_rejected :: nat
  cr_tasks :: "task list"
  cr_cancelled :: "int list"
  cr_config_version :: int
  cr_events :: "probe_event list"

definition refused :: "nat \<Rightarrow> checkin_reply" where
  "refused n = \<lparr> cr_status = n, cr_acked = 0, cr_rejected = 0, cr_tasks = [], cr_cancelled = [],
     cr_config_version = 0, cr_events = [] \<rparr>"

definition cancelled_since :: "ts \<Rightarrow> string \<Rightarrow> probe_db \<Rightarrow> int list" where
  "cancelled_since t pid db = map (\<lambda>(i, tk). i) (filter (\<lambda>(i, tk). tk_probe tk = pid
     \<and> tk_state tk = ''cancelled'' \<and> tk_finished tk > t) (pd_tasks db))"

text \<open>\<open>ours\<close> is the protocol version of the server, \<open>pid\<close> the probe of the bearer token.\<close>

definition checkin :: "mon_env \<Rightarrow> int \<Rightarrow> string option \<Rightarrow> string \<Rightarrow> ts \<Rightarrow> checkin_body \<Rightarrow> monitor \<times> probe_db
    \<Rightarrow> (monitor \<times> probe_db) \<times> checkin_reply" where
  "checkin x ours bearer ip now body st =
     (let (m, db) = st
      in case Option.bind bearer (\<lambda>k. db_get_probe k db) of
           None \<Rightarrow> ((m, db), refused 401)
         | Some p \<Rightarrow>
             (if pr_status p = ''revoked'' then ((m, db), refused 401)
              else if cb_protocol body \<noteq> ours then ((m, db), refused 409)
              else if max_results < length (cb_results body) then ((m, db), refused 400)
              else let (m1, acc, rej) = ingest_results x (pr_id p) now (cb_results body) m;
                       (db1, evs) = checkin_registry now p ip (cb_fields body) db;
                       db2 = apply_task_progress now (pr_id p) (cb_tasks body) db1;
                       (db3, ts) = db_dispatch_pending_tasks now (pr_id p) db2
                   in ((m1, db3), \<lparr> cr_status = 200, cr_acked = acc, cr_rejected = rej, cr_tasks = ts,
                        cr_cancelled = cancelled_since (now - 300) (pr_id p) db3,
                        cr_config_version = (case db_get_probe (pr_id p) db3 of
                            Some q \<Rightarrow> int_or (pr_config_version q) 1 | None \<Rightarrow> int_or (pr_config_version p) 1),
                        cr_events = evs \<rparr>)))"

end
