(* ===== verification/AgentSpool.thy ===== *)
theory AgentSpool
  imports AgentIngest
begin

text \<open>
  The delivery of results by an agent (\<open>Spool\<close> and the check-in half of \<open>Agent\<close> in
  \<open>agent/agent.py\<close>): the buffer in memory, the spool on disk, the batch of the check-in under way,
  and its outcomes. A line of the spool that \<open>json.loads\<close> rejects is \<open>Corrupt\<close>; an append cut off
  by a crash leaves such a line without its end, and the next append continues it. The check-in and
  the task runner are threads of one process, so taking a batch and getting its answer are two steps.
\<close>

section \<open>The spool\<close>

datatype line = Rec wire_result | Corrupt

record spool =
  sp_lines :: "line list"
  sp_count :: nat
  sp_cap :: nat
  sp_torn :: bool                    \<comment> \<open>the last line has no end\<close>

fun goods :: "line list \<Rightarrow> wire_result list" where
  "goods [] = []"
| "goods (Rec w # ls) = w # goods ls"
| "goods (Corrupt # ls) = goods ls"

definition spool_cap :: "int \<Rightarrow> nat" where
  "spool_cap configured = nat (max 1000 (int_or configured 50000))"

definition trim_oldest :: "nat \<Rightarrow> spool \<Rightarrow> spool" where
  "trim_oldest n sp = sp\<lparr> sp_lines := drop n (sp_lines sp), sp_count := length (drop n (sp_lines sp)),
     sp_torn := (sp_torn sp \<and> drop n (sp_lines sp) \<noteq> []) \<rparr>"

definition spool_append :: "wire_result list \<Rightarrow> spool \<Rightarrow> spool" where
  "spool_append rs sp =
     (if rs = [] then sp
      else let sp1 = sp\<lparr> sp_lines := sp_lines sp @ map Rec (if sp_torn sp then tl rs else rs),
                        sp_count := sp_count sp + length rs, sp_torn := False \<rparr>
           in if sp_cap sp < sp_count sp1 then trim_oldest (sp_count sp1 - sp_cap sp) sp1 else sp1)"

definition spool_peek :: "nat \<Rightarrow> spool \<Rightarrow> wire_result list" where
  "spool_peek n sp = take n (goods (sp_lines sp))"

definition remove_oldest :: "nat \<Rightarrow> spool \<Rightarrow> spool" where
  "remove_oldest n sp = (if n = 0 then sp else trim_oldest n sp)"

section \<open>The agent\<close>

record agent =
  ag_spool :: spool
  ag_buf :: "wire_result list"
  ag_fly :: "(wire_result list \<times> bool) option"     \<comment> \<open>batch under way, and whether it is live\<close>

datatype answer = NoAnswer | NotAccepted | Acked

definition probe_cycle :: "wire_result \<Rightarrow> agent \<Rightarrow> agent" where
  "probe_cycle w a = a\<lparr> ag_buf := ag_buf a @ [w] \<rparr>"

definition drain_batch :: "agent \<Rightarrow> agent" where
  "drain_batch a =
     (if sp_count (ag_spool a) > 0 then a\<lparr> ag_fly := Some (spool_peek 4000 (ag_spool a), False) \<rparr>
      else a\<lparr> ag_fly := Some (take 4000 (ag_buf a), True), ag_buf := drop 4000 (ag_buf a) \<rparr>)"

definition flush_buffer_to_spool :: "agent \<Rightarrow> agent" where
  "flush_buffer_to_spool a = a\<lparr> ag_buf := [], ag_spool := spool_append (ag_buf a) (ag_spool a) \<rparr>"

definition overflow_to_spool :: "agent \<Rightarrow> agent" where
  "overflow_to_spool a = (if length (ag_buf a) < 2000 then a else flush_buffer_to_spool a)"

definition respool :: "wire_result list \<Rightarrow> bool \<Rightarrow> agent \<Rightarrow> agent" where
  "respool b live a = (if live then a\<lparr> ag_spool := spool_append b (ag_spool a) \<rparr> else a)"

text \<open>The end of \<open>_checkin_once\<close>: transport error, an answer other than 200, or the acknowledgement.\<close>

definition checkin_answer :: "answer \<Rightarrow> agent \<Rightarrow> agent" where
  "checkin_answer ans a = (case ag_fly a of
       None \<Rightarrow> a
     | Some (b, live) \<Rightarrow>
         (let a1 = a\<lparr> ag_fly := None \<rparr>
          in case ans of
               NoAnswer \<Rightarrow> overflow_to_spool (respool b live a1)
             | NotAccepted \<Rightarrow> respool b live a1
             | Acked \<Rightarrow> if live then a1
                        else a1\<lparr> ag_spool := remove_oldest (length b) (ag_spool a1) \<rparr>))"

text \<open>A new process reads the spool again; \<open>tear\<close> says that the old one died in an append.\<close>

definition restart :: "bool \<Rightarrow> agent \<Rightarrow> agent" where
  "restart tear a =
     (let sp = ag_spool a;
          ls = sp_lines sp @ (if tear \<and> \<not> sp_torn sp then [Corrupt] else [])
      in \<lparr> ag_spool = sp\<lparr> sp_lines := ls, sp_count := length ls, sp_torn := tear \<or> sp_torn sp \<rparr>,
           ag_buf = [], ag_fly = None \<rparr>)"

section \<open>Counter rates\<close>

text \<open>
  \<open>_counter_rate\<close>: the agent derives the rate of an SNMP counter itself. The pair is the entry of
  \<open>counter_prev\<close> for the sensor and the rate of this reading.
\<close>

definition agent_counter_rate :: "string \<Rightarrow> string option \<Rightarrow> ts \<Rightarrow> (int \<times> ts) option
    \<Rightarrow> (int \<times> ts) option \<times> real option" where
  "agent_counter_rate snmp_type v t prev =
     (let styp = lower snmp_type
      in if styp \<notin> {''counter32'', ''counter64'', ''counter''} then (prev, None)
         else case v of
           None \<Rightarrow> (prev, None)
         | Some raw \<Rightarrow> (case parse_int raw of
             None \<Rightarrow> (None, None)
           | Some cur \<Rightarrow> (Some (cur, t), case prev of
                None \<Rightarrow> None
              | Some (old, t0) \<Rightarrow>
                  (let elapsed = t - t0; delta = cur - old
                   in if elapsed < 1 then None
                      else if delta < 0 \<and> styp \<noteq> ''counter32'' then None
                      else let rate = of_int (if delta < 0 then delta + 2 ^ 32 else delta) / elapsed
                           in if rate > 125000000000 then None else Some rate))))"

fun agent_rates :: "string \<Rightarrow> (int \<times> ts) option \<Rightarrow> (string \<times> ts) list \<Rightarrow> real option list" where
  "agent_rates styp prev [] = []"
| "agent_rates styp prev ((raw, t) # rs) =
     (let (prev', r) = agent_counter_rate styp (Some raw) t prev in r # agent_rates styp prev' rs)"

section \<open>The receiver\<close>

text \<open>
  What ingestion does to the results of assigned, running sensors, seen from outside: a result is
  taken when it is newer than every result of its sensor taken before. \<open>AgentLaws\<close> shows that the
  monitor does this.
\<close>

definition kof :: "wire_result \<Rightarrow> did \<times> sid" where "kof w = (wr_did w, wr_sid w)"
definition tof :: "wire_result \<Rightarrow> ts" where "tof w = (case wr_ts w of Some t \<Rightarrow> t | None \<Rightarrow> 0)"

definition after :: "wire_result \<Rightarrow> wire_result \<Rightarrow> bool" where
  "after u w \<longleftrightarrow> (kof u = kof w \<longrightarrow> tof u < tof w)"

definition receive_one :: "wire_result list \<Rightarrow> wire_result \<Rightarrow> wire_result list" where
  "receive_one acc w = (if list_all (\<lambda>u. after u w) acc then acc @ [w] else acc)"

definition receive :: "wire_result list \<Rightarrow> wire_result list \<Rightarrow> wire_result list" where
  "receive b acc = foldl receive_one acc (sort_key tof b)"

section \<open>Both together\<close>

record world =
  wl_agent :: agent
  wl_acc :: "wire_result list"       \<comment> \<open>taken by the server\<close>
  wl_made :: "wire_result list"      \<comment> \<open>all results probed so far\<close>
  wl_lost :: "wire_result list"      \<comment> \<open>given up: over capacity, in a crash, or in a torn line\<close>

datatype aop =
    AProbe wire_result
  | ATake
  | AAnswer answer bool              \<comment> \<open>and whether the request reached the server\<close>
  | AFlush
  | ARestart bool bool               \<comment> \<open>whether it tears an append, and whether the batch under way arrived\<close>

text \<open>What an append gives up: the record a torn line swallows, and the oldest lines over the capacity.\<close>

definition append_loss :: "wire_result list \<Rightarrow> spool \<Rightarrow> wire_result list" where
  "append_loss rs sp =
     (if rs = [] then []
      else (if sp_torn sp then [hd rs] else [])
        @ goods (take (sp_count sp + length rs - sp_cap sp)
                  (sp_lines sp @ map Rec (if sp_torn sp then tl rs else rs))))"

definition answer_loss :: "answer \<Rightarrow> agent \<Rightarrow> wire_result list" where
  "answer_loss ans a = (case ag_fly a of
       None \<Rightarrow> []
     | Some (b, live) \<Rightarrow>
         (let sp = ag_spool a; sp1 = (if live then spool_append b sp else sp)
          in (if live \<and> ans \<noteq> Acked then append_loss b sp else [])
             @ (if ans = NoAnswer \<and> 2000 \<le> length (ag_buf a) then append_loss (ag_buf a) sp1 else [])))"

fun aexec :: "aop \<Rightarrow> world \<Rightarrow> world" where
  "aexec (AProbe w) s = s\<lparr> wl_agent := probe_cycle w (wl_agent s), wl_made := wl_made s @ [w] \<rparr>"
| "aexec ATake s = (case ag_fly (wl_agent s) of
     None \<Rightarrow> s\<lparr> wl_agent := drain_batch (wl_agent s) \<rparr> | Some _ \<Rightarrow> s)"
| "aexec (AAnswer ans reached) s =
     s\<lparr> wl_agent := checkin_answer ans (wl_agent s), wl_lost := wl_lost s @ answer_loss ans (wl_agent s),
        wl_acc := (case ag_fly (wl_agent s) of
            Some (b, live) \<Rightarrow> if ans = Acked \<or> ans = NoAnswer \<and> reached then receive b (wl_acc s) else wl_acc s
          | None \<Rightarrow> wl_acc s) \<rparr>"
| "aexec AFlush s = s\<lparr> wl_agent := flush_buffer_to_spool (wl_agent s),
     wl_lost := wl_lost s @ append_loss (ag_buf (wl_agent s)) (ag_spool (wl_agent s)) \<rparr>"
| "aexec (ARestart tear reached) s = s\<lparr> wl_agent := restart tear (wl_agent s),
     wl_acc := (case ag_fly (wl_agent s) of
         Some (b, live) \<Rightarrow> if reached then receive b (wl_acc s) else wl_acc s | None \<Rightarrow> wl_acc s),
     wl_lost := wl_lost s @ ag_buf (wl_agent s)
       @ (case ag_fly (wl_agent s) of Some (b, live) \<Rightarrow> if live \<and> \<not> reached then b else [] | None \<Rightarrow> []) \<rparr>"

definition arun :: "aop list \<Rightarrow> world \<Rightarrow> world" where
  "arun xs s = foldl (\<lambda>s x. aexec x s) s xs"

definition new_world :: "nat \<Rightarrow> world" where
  "new_world cap = \<lparr> wl_agent = \<lparr> ag_spool = \<lparr> sp_lines = [], sp_count = 0, sp_cap = cap, sp_torn = False \<rparr>,
     ag_buf = [], ag_fly = None \<rparr>, wl_acc = [], wl_made = [], wl_lost = [] \<rparr>"

end
