(* ===== verification/AgentLaws.thy ===== *)
theory AgentLaws
  imports AgentSpool "HOL-Library.Sublist"
begin

text \<open>
  Exactly-once delivery. \<open>pend\<close> lists what the agent still holds, oldest first; the invariant \<open>core\<close>
  relates it to what the server took, what was probed and what was given up. The second half shows
  that ingestion by the monitor is the receiver the first half assumes.
\<close>

section \<open>Lines and losses\<close>

lemma goods_append [simp]: "goods (a @ b) = goods a @ goods b"
  by (induction a rule: goods.induct) simp_all

lemma goods_map [simp]: "goods (map Rec rs) = rs"
  by (induction rs) simp_all

lemma goods_split: "goods ls = goods (take n ls) @ goods (drop n ls)"
  by (metis append_take_drop_id goods_append)

lemma length_goods: "length (goods ls) \<le> length ls"
  by (induction ls rule: goods.induct) simp_all

lemma goods_take_prefix: "\<exists>k \<le> n. goods (take n ls) = take k (goods ls)"
proof (induction ls arbitrary: n rule: goods.induct)
  case 1
  show ?case by auto
next
  case (2 w ls)
  show ?case
  proof (cases n)
    case (Suc m)
    then obtain k where "k \<le> m" "goods (take m ls) = take k (goods ls)" using 2 by blast
    then show ?thesis using Suc by (intro exI [of _ "Suc k"]) simp
  qed auto
next
  case (3 ls)
  show ?case
  proof (cases n)
    case (Suc m)
    then obtain k where "k \<le> m" "goods (take m ls) = take k (goods ls)" using 3 by blast
    then show ?thesis using Suc by (intro exI [of _ k]) simp
  qed auto
qed

text \<open>An append keeps a suffix and gives up the rest.\<close>

lemma append_keeps:
  "subseq (goods (sp_lines (spool_append rs sp))) (goods (sp_lines sp) @ rs)
   \<and> set (goods (sp_lines sp)) \<union> set rs = set (goods (sp_lines (spool_append rs sp))) \<union> set (append_loss rs sp)"
proof (cases "rs = []")
  case True
  then show ?thesis by (simp add: spool_append_def append_loss_def)
next
  case False
  let ?rs = "if sp_torn sp then tl rs else rs"
  let ?all = "sp_lines sp @ map Rec ?rs" and ?n = "sp_count sp + length rs - sp_cap sp"
  have l: "sp_lines (spool_append rs sp) = drop ?n ?all"
    using False by (simp add: spool_append_def Let_def trim_oldest_def)
  have g: "goods (sp_lines sp) @ ?rs = goods (take ?n ?all) @ goods (drop ?n ?all)"
    using goods_split [of ?all ?n] by simp
  have "subseq (goods (drop ?n ?all)) (goods (sp_lines sp) @ ?rs)" unfolding g by (rule list_emb_append2) simp
  moreover have "subseq ?rs rs" by (cases rs) auto
  ultimately have "subseq (goods (drop ?n ?all)) (goods (sp_lines sp) @ rs)"
    by (meson list_emb_append_mono subseq_order.refl subseq_order.trans)
  moreover have "set (goods (sp_lines sp)) \<union> set ?rs = set (goods (take ?n ?all)) \<union> set (goods (drop ?n ?all))"
    using arg_cong [OF g, of set] by (simp only: set_append)
  moreover have "set rs = set (if sp_torn sp then [hd rs] else []) \<union> set ?rs"
    using False by (cases rs) auto
  moreover have "append_loss rs sp = (if sp_torn sp then [hd rs] else []) @ goods (take ?n ?all)"
    using False by (simp only: append_loss_def if_False)
  ultimately show ?thesis unfolding l by (simp only: set_append) blast
qed

lemma append_count: "length (sp_lines sp) \<le> sp_count sp \<Longrightarrow>
    length (sp_lines (spool_append rs sp)) \<le> sp_count (spool_append rs sp)"
  by (auto simp: spool_append_def trim_oldest_def Let_def)

lemma append_cap [simp]: "sp_cap (spool_append rs sp) = sp_cap sp"
  by (simp add: spool_append_def trim_oldest_def Let_def)

section \<open>What the receiver does\<close>

lemma receive_one_set: "set (receive_one acc w) \<subseteq> insert w (set acc)"
  by (auto simp: receive_one_def)

text \<open>A pending result is taken already, or newer than all that was taken of its sensor.\<close>

definition fresh :: "wire_result list \<Rightarrow> wire_result \<Rightarrow> bool" where
  "fresh acc w \<longleftrightarrow> w \<in> set acc \<or> (\<forall>u \<in> set acc. after u w)"

lemma after_irrefl: "\<not> after w w"
  by (simp add: after_def)

lemma receive_loop:
  assumes "sorted_wrt after acc" "sorted_wrt after b" "\<forall>w \<in> set b. fresh acc w"
  shows "sorted_wrt after (foldl receive_one acc b) \<and> set (foldl receive_one acc b) = set acc \<union> set b
    \<and> (\<forall>w. fresh acc w \<longrightarrow> (\<forall>u \<in> set b. after u w) \<longrightarrow> fresh (foldl receive_one acc b) w)"
  using assms
proof (induction b arbitrary: acc)
  case (Cons v b)
  have v: "set (receive_one acc v) = insert v (set acc)" "sorted_wrt after (receive_one acc v)"
    using Cons.prems after_irrefl by (auto simp: receive_one_def list_all_iff fresh_def sorted_wrt_append)
  have f: "fresh (receive_one acc v) w" if "fresh acc w" "after v w" for w
    using that v(1) by (auto simp: fresh_def)
  have "sorted_wrt after b" "\<forall>w \<in> set b. fresh (receive_one acc v) w"
    using Cons.prems f by auto
  from Cons.IH [OF v(2) this] f v(1) show ?case by auto
qed (simp add: fresh_def)

lemma after_distinct: "sorted_wrt after p \<Longrightarrow> distinct p"
  using after_irrefl by (induction p) auto

lemma sorted_batch:
  assumes "sorted_wrt after b"
  shows "sorted_wrt after (sort_key tof b)"
proof -
  have d: "distinct b" by (rule after_distinct [OF assms])
  have ne: "tof u \<noteq> tof w" if "u \<in> set b" "w \<in> set b" "u \<noteq> w" "kof u = kof w" for u w
    using assms that by (induction b) (auto simp: after_def)
  let ?xs = "sort_key tof b"
  show ?thesis unfolding sorted_wrt_iff_nth_less
  proof (intro allI impI)
    fix i j assume ij: "i < j" "j < length ?xs"
    have "distinct ?xs" using d by simp
    then have n: "?xs ! i \<noteq> ?xs ! j" using ij by (subst nth_eq_iff_index_eq) simp_all
    have m: "?xs ! i \<in> set b" "?xs ! j \<in> set b" using ij by (metis less_trans nth_mem set_sort)+
    have "sorted (map tof ?xs)" by simp
    then have "map tof ?xs ! i \<le> map tof ?xs ! j" using ij by (intro sorted_nth_mono) simp_all
    then have "tof (?xs ! i) \<le> tof (?xs ! j)" using ij by simp
    then show "after (?xs ! i) (?xs ! j)" using ne [OF m n] by (auto simp: after_def)
  qed
qed

lemma receive_correct:
  assumes "sorted_wrt after acc" "sorted_wrt after b" "\<forall>w \<in> set b. fresh acc w"
  shows "sorted_wrt after (receive b acc)" "set (receive b acc) = set acc \<union> set b"
    "fresh acc w \<Longrightarrow> (\<forall>u \<in> set b. after u w) \<Longrightarrow> fresh (receive b acc) w"
  using receive_loop [OF assms(1) sorted_batch [OF assms(2)]] assms(3) by (auto simp: receive_def)

section \<open>The invariant\<close>

definition pend :: "agent \<Rightarrow> wire_result list" where
  "pend a = (case ag_fly a of Some (b, True) \<Rightarrow> b | _ \<Rightarrow> []) @ goods (sp_lines (ag_spool a)) @ ag_buf a"

definition core :: "wire_result list \<Rightarrow> wire_result list \<Rightarrow> wire_result list \<Rightarrow> wire_result list \<Rightarrow> bool" where
  "core acc p made lost \<longleftrightarrow> sorted_wrt after acc \<and> sorted_wrt after p \<and> (\<forall>w \<in> set p. fresh acc w)
     \<and> set made = set acc \<union> set p \<union> set lost"

lemma sorted_wrt_subseq: "subseq xs ys \<Longrightarrow> sorted_wrt P ys \<Longrightarrow> sorted_wrt P xs"
  by (induction rule: list_emb.induct) (auto dest: list_emb_set)

lemma core_shrink:
  assumes "core acc p made lost" "subseq q p" "set p \<subseteq> set q \<union> set acc \<union> set l" "set l \<subseteq> set p"
  shows "core acc q made (lost @ l)"
proof -
  have "set q \<subseteq> set p" using list_emb_set [OF assms(2)] by blast
  then show ?thesis using assms sorted_wrt_subseq [OF assms(2)] unfolding core_def by auto
qed

lemma core_receive:
  assumes "core acc p made lost" "p = b @ q"
  shows "core (receive b acc) p made lost"
proof -
  have s: "sorted_wrt after acc" "sorted_wrt after b" "\<forall>w \<in> set b. fresh acc w" "\<forall>w \<in> set q. fresh acc w"
    "\<forall>u \<in> set b. \<forall>w \<in> set q. after u w"
    using assms unfolding core_def by (auto simp: sorted_wrt_append)
  note r = receive_correct [OF s(1,2,3)]
  have "fresh (receive b acc) w" if "w \<in> set p" for w
    using that assms(2) r(2,3) s(4,5) by (auto simp: fresh_def)
  then show ?thesis using assms r(1,2) unfolding core_def by auto
qed

lemma core_probe:
  assumes "core acc p made lost" "\<forall>u \<in> set made. after u w"
  shows "core acc (p @ [w]) (made @ [w]) lost"
  using assms unfolding core_def by (auto simp: sorted_wrt_append fresh_def)

section \<open>Every operation\<close>

definition agent_ok :: "agent \<Rightarrow> bool" where
  "agent_ok a \<longleftrightarrow> length (sp_lines (ag_spool a)) \<le> sp_count (ag_spool a)
     \<and> (case ag_fly a of None \<Rightarrow> True
        | Some (b, live) \<Rightarrow> if live then sp_lines (ag_spool a) = [] else b = take 4000 (goods (sp_lines (ag_spool a))))"

definition world_ok :: "world \<Rightarrow> bool" where
  "world_ok s \<longleftrightarrow> agent_ok (wl_agent s) \<and> core (wl_acc s) (pend (wl_agent s)) (wl_made s) (wl_lost s)"

text \<open>New results are newer than all earlier ones of their sensor; a flush waits for the check-in.\<close>

fun calm_agent :: "aop \<Rightarrow> world \<Rightarrow> bool" where
  "calm_agent (AProbe w) s \<longleftrightarrow> list_all (\<lambda>u. after u w) (wl_made s)"
| "calm_agent AFlush s \<longleftrightarrow> ag_fly (wl_agent s) = None"
| "calm_agent _ s = True"

fun calm_world :: "aop list \<Rightarrow> world \<Rightarrow> bool" where
  "calm_world [] s = True"
| "calm_world (x # xs) s \<longleftrightarrow> calm_agent x s \<and> calm_world xs (aexec x s)"

lemma core_append:
  assumes "core acc (goods (sp_lines sp) @ rs @ q) made lost"
  shows "core acc (goods (sp_lines (spool_append rs sp)) @ q) made (lost @ append_loss rs sp)"
proof (rule core_shrink [OF assms])
  note k = append_keeps [of rs sp]
  then have "subseq (goods (sp_lines (spool_append rs sp)) @ q) ((goods (sp_lines sp) @ rs) @ q)"
    by (intro list_emb_append_mono) simp_all
  then show "subseq (goods (sp_lines (spool_append rs sp)) @ q) (goods (sp_lines sp) @ rs @ q)" by simp
  from k show "set (goods (sp_lines sp) @ rs @ q) \<subseteq> set (goods (sp_lines (spool_append rs sp)) @ q) \<union> set acc \<union> set (append_loss rs sp)"
    "set (append_loss rs sp) \<subseteq> set (goods (sp_lines sp) @ rs @ q)"
    by auto
qed

lemma remove_oldest_lines: "sp_lines (remove_oldest n sp) = drop n (sp_lines sp)"
  by (simp add: remove_oldest_def trim_oldest_def)

lemma remove_oldest_count:
  "length (sp_lines sp) \<le> sp_count sp \<Longrightarrow> length (sp_lines (remove_oldest n sp)) \<le> sp_count (remove_oldest n sp)"
  by (simp add: remove_oldest_def trim_oldest_def)

lemma core_drop:
  assumes "core acc (p @ q) made lost" "set p \<subseteq> set acc"
  shows "core acc q made lost"
  using core_shrink [OF assms(1), of q "[]"] assms(2) by (auto intro: list_emb_append2)

lemma take_ok:
  assumes "world_ok s" "ag_fly (wl_agent s) = None"
  shows "world_ok (aexec ATake s)"
proof -
  let ?a = "wl_agent s"
  have "pend (drain_batch ?a) = pend ?a \<and> agent_ok (drain_batch ?a)"
    using assms by (auto simp: world_ok_def agent_ok_def pend_def drain_batch_def spool_peek_def)
  then show ?thesis using assms by (simp add: world_ok_def)
qed

lemma overflow_ok:
  assumes "core acc (goods (sp_lines (ag_spool a)) @ ag_buf a) made lost" "agent_ok a" "ag_fly a = None"
  shows "core acc (goods (sp_lines (ag_spool (overflow_to_spool a))) @ ag_buf (overflow_to_spool a)) made
      (lost @ (if 2000 \<le> length (ag_buf a) then append_loss (ag_buf a) (ag_spool a) else []))
    \<and> agent_ok (overflow_to_spool a) \<and> ag_fly (overflow_to_spool a) = None"
proof -
  have "core acc (goods (sp_lines (ag_spool a)) @ ag_buf a @ []) made lost" using assms(1) by simp
  from core_append [OF this] show ?thesis
    using assms append_count by (auto simp: overflow_to_spool_def flush_buffer_to_spool_def agent_ok_def)
qed

lemma answer_ok:
  assumes "core acc (pend a) made lost" "agent_ok a" "ag_fly a = Some (b, live)"
    and "ans = Acked \<Longrightarrow> set b \<subseteq> set acc"
  shows "core acc (pend (checkin_answer ans a)) made (lost @ answer_loss ans a) \<and> agent_ok (checkin_answer ans a)"
proof (cases live)
  case True
  let ?sp = "ag_spool a" and ?sp1 = "spool_append b (ag_spool a)"
  have l: "sp_lines ?sp = []" using assms(2,3) True by (simp add: agent_ok_def)
  have p: "core acc (goods (sp_lines ?sp) @ b @ ag_buf a) made lost"
    using assms(1,3) True by (simp add: pend_def l)
  note ap = core_append [OF p]
  have ok: "agent_ok (a\<lparr> ag_fly := None, ag_spool := ?sp1 \<rparr>)"
    using assms(2) append_count by (simp add: agent_ok_def)
  show ?thesis
  proof (cases ans)
    case NoAnswer
    let ?a1 = "a\<lparr> ag_fly := None, ag_spool := ?sp1 \<rparr>"
    have "core acc (goods (sp_lines (ag_spool ?a1)) @ ag_buf ?a1) made (lost @ append_loss b ?sp)" using ap by simp
    from overflow_ok [OF this ok] assms(3) True NoAnswer show ?thesis
      by (cases "2000 \<le> length (ag_buf a)") (simp_all add: checkin_answer_def respool_def answer_loss_def Let_def pend_def)
  next
    case NotAccepted
    then show ?thesis using ap ok assms(3) True
      by (simp add: checkin_answer_def respool_def answer_loss_def Let_def pend_def)
  next
    case Acked
    have "core acc (ag_buf a) made lost" using core_drop [of acc b "ag_buf a"] p assms(4) [OF Acked] l by simp
    then show ?thesis using assms(2,3) True Acked l
      by (simp add: checkin_answer_def answer_loss_def Let_def pend_def agent_ok_def)
  qed
next
  case False
  have p: "core acc (goods (sp_lines (ag_spool a)) @ ag_buf a) made lost"
    using assms(1,3) False by (simp add: pend_def)
  have b: "b = take 4000 (goods (sp_lines (ag_spool a)))" using assms(2,3) False by (simp add: agent_ok_def)
  have ok: "agent_ok (a\<lparr> ag_fly := None \<rparr>)" using assms(2) by (simp add: agent_ok_def)
  show ?thesis
  proof (cases ans)
    case NoAnswer
    have "core acc (goods (sp_lines (ag_spool (a\<lparr> ag_fly := None \<rparr>))) @ ag_buf (a\<lparr> ag_fly := None \<rparr>)) made lost"
      using p by simp
    from overflow_ok [OF this ok] assms(3) False NoAnswer show ?thesis
      by (cases "2000 \<le> length (ag_buf a)") (simp_all add: checkin_answer_def respool_def answer_loss_def Let_def pend_def)
  next
    case NotAccepted
    then show ?thesis using p ok assms(3) False
      by (simp add: checkin_answer_def respool_def answer_loss_def Let_def pend_def)
  next
    case Acked
    let ?ls = "sp_lines (ag_spool a)" and ?k = "length b"
    obtain j where j: "j \<le> ?k" "goods (take ?k ?ls) = take j (goods ?ls)" using goods_take_prefix by blast
    have "j \<le> 4000" using j(1) b by simp
    then have "take j (goods ?ls) = take j b" by (simp add: b min_absorb1)
    then have "set (goods (take ?k ?ls)) \<subseteq> set acc" using j(2) assms(4) [OF Acked] by (simp add: subset_trans [OF set_take_subset])
    moreover have "core acc (goods (take ?k ?ls) @ goods (drop ?k ?ls) @ ag_buf a) made lost"
      using p goods_split [of ?ls ?k] by simp
    ultimately have "core acc (goods (drop ?k ?ls) @ ag_buf a) made lost" by (rule core_drop [rotated])
    then show ?thesis using assms(2,3) False Acked remove_oldest_count
      by (simp add: checkin_answer_def answer_loss_def Let_def pend_def agent_ok_def remove_oldest_lines)
  qed
qed

lemma fly_prefix:
  assumes "agent_ok a" "ag_fly a = Some (b, live)"
  shows "\<exists>q. pend a = b @ q"
  using assms by (cases live) (auto simp: pend_def agent_ok_def, metis append_take_drop_id append_assoc)

lemma aexec_ok:
  assumes "world_ok s" "calm_agent x s"
  shows "world_ok (aexec x s)"
proof (cases x)
  case (AProbe w)
  have "\<forall>u \<in> set (wl_made s). after u w" using assms(2) AProbe by (simp add: list_all_iff)
  moreover have "pend (probe_cycle w a) = pend a @ [w] \<and> agent_ok (probe_cycle w a) = agent_ok a" for a
    by (simp add: probe_cycle_def pend_def agent_ok_def split: option.split)
  ultimately show ?thesis using core_probe assms(1) AProbe by (simp add: world_ok_def)
next
  case ATake
  then show ?thesis using take_ok [OF assms(1)] assms(1) by (cases "ag_fly (wl_agent s)") simp_all
next
  case (AAnswer ans reached)
  show ?thesis
  proof (cases "ag_fly (wl_agent s)")
    case None
    then show ?thesis using assms(1) AAnswer by (simp add: checkin_answer_def answer_loss_def)
  next
    case (Some f)
    obtain b live where f: "ag_fly (wl_agent s) = Some (b, live)" using Some by (cases f) simp
    have ok: "agent_ok (wl_agent s)" and c: "core (wl_acc s) (pend (wl_agent s)) (wl_made s) (wl_lost s)"
      using assms(1) by (simp_all add: world_ok_def)
    obtain q where q: "pend (wl_agent s) = b @ q" using fly_prefix [OF ok f] by blast
    let ?acc = "if ans = Acked \<or> ans = NoAnswer \<and> reached then receive b (wl_acc s) else wl_acc s"
    have c1: "core ?acc (pend (wl_agent s)) (wl_made s) (wl_lost s)" using c core_receive [OF c q] by simp
    have "set b \<subseteq> set (receive b (wl_acc s))"
      using receive_correct(2) [of "wl_acc s" b] c q by (auto simp: core_def sorted_wrt_append)
    then have "ans = Acked \<Longrightarrow> set b \<subseteq> set ?acc" by simp
    from answer_ok [OF c1 ok f this] show ?thesis by (simp add: AAnswer f world_ok_def)
  qed
next
  case AFlush
  then have f: "ag_fly (wl_agent s) = None" using assms(2) by simp
  have "core (wl_acc s) (goods (sp_lines (ag_spool (wl_agent s))) @ ag_buf (wl_agent s) @ []) (wl_made s) (wl_lost s)"
    using assms(1) f by (simp add: world_ok_def pend_def)
  from core_append [OF this] show ?thesis
    using assms(1) f append_count AFlush by (simp add: world_ok_def pend_def agent_ok_def flush_buffer_to_spool_def)
next
  case (ARestart tear reached)
  let ?a = "wl_agent s"
  have ok: "agent_ok ?a" and c: "core (wl_acc s) (pend ?a) (wl_made s) (wl_lost s)"
    using assms(1) by (simp_all add: world_ok_def)
  have rs: "agent_ok (restart tear ?a)" "pend (restart tear ?a) = goods (sp_lines (ag_spool ?a))"
    by (simp_all add: agent_ok_def restart_def pend_def Let_def)
  show ?thesis
  proof (cases "ag_fly ?a")
    case None
    have "core (wl_acc s) (pend (restart tear ?a)) (wl_made s) (wl_lost s @ ag_buf ?a)"
      unfolding rs(2) by (rule core_shrink [OF c]) (auto simp: pend_def None)
    then show ?thesis using rs(1) by (simp add: ARestart None world_ok_def)
  next
    case (Some f)
    obtain b live where f: "ag_fly ?a = Some (b, live)" using Some by (cases f) simp
    obtain q where q: "pend ?a = b @ q" using fly_prefix [OF ok f] by blast
    let ?acc = "if reached then receive b (wl_acc s) else wl_acc s"
    have c1: "core ?acc (pend ?a) (wl_made s) (wl_lost s)" using c core_receive [OF c q] by simp
    have in_acc: "reached \<Longrightarrow> set b \<subseteq> set ?acc"
      using receive_correct(2) [of "wl_acc s" b] c q by (auto simp: core_def sorted_wrt_append)
    have "core ?acc (pend (restart tear ?a)) (wl_made s) (wl_lost s @ ag_buf ?a @ (if live \<and> \<not> reached then b else []))"
    proof (rule core_shrink [OF c1])
      show "subseq (pend (restart tear ?a)) (pend ?a)"
        unfolding rs(2) by (cases live) (auto simp: pend_def f intro: list_emb_append2)
      show "set (pend ?a) \<subseteq> set (pend (restart tear ?a)) \<union> set ?acc \<union> set (ag_buf ?a @ (if live \<and> \<not> reached then b else []))"
        "set (ag_buf ?a @ (if live \<and> \<not> reached then b else [])) \<subseteq> set (pend ?a)"
        using in_acc unfolding rs(2) by (cases live; cases reached; auto simp: pend_def f)+
    qed
    then show ?thesis using rs(1) by (simp add: ARestart f world_ok_def)
  qed
qed

lemma arun_ok: "world_ok s \<Longrightarrow> calm_world xs s \<Longrightarrow> world_ok (arun xs s)"
  by (induction xs arbitrary: s) (simp_all add: arun_def aexec_ok)

lemma new_world_ok: "world_ok (new_world cap)"
  by (simp add: world_ok_def new_world_def agent_ok_def core_def pend_def)

section \<open>Nothing is given up below the capacity\<close>

definition plain_spool :: "spool \<Rightarrow> bool" where
  "plain_spool sp \<longleftrightarrow> \<not> sp_torn sp \<and> (\<exists>rs. sp_lines sp = map Rec rs) \<and> sp_count sp = length (sp_lines sp)"

lemma plain_goods: "plain_spool sp \<Longrightarrow> length (goods (sp_lines sp)) = sp_count sp"
  by (auto simp: plain_spool_def)

lemma plain_append:
  assumes "plain_spool sp" "sp_count sp + length rs \<le> sp_cap sp"
  shows "append_loss rs sp = [] \<and> plain_spool (spool_append rs sp)
    \<and> sp_count (spool_append rs sp) = sp_count sp + length rs"
proof -
  obtain us where "sp_lines sp = map Rec us" using assms(1) by (auto simp: plain_spool_def)
  then have "\<exists>vs. map Rec us @ map Rec rs = map Rec vs" by (metis map_append)
  then show ?thesis
    using assms \<open>sp_lines sp = map Rec us\<close> by (auto simp: append_loss_def spool_append_def plain_spool_def Let_def)
qed

lemma plain_remove: "plain_spool sp \<Longrightarrow> plain_spool (remove_oldest n sp)"
  by (auto simp: plain_spool_def remove_oldest_def trim_oldest_def drop_map)

lemma remove_cap [simp]: "sp_cap (remove_oldest n sp) = sp_cap sp"
  by (simp add: remove_oldest_def trim_oldest_def)

lemma core_length:
  assumes "core acc p made lost"
  shows "length p \<le> length made"
proof -
  have "distinct p" using assms after_distinct by (simp add: core_def)
  then have "length p = card (set p)" by (simp add: distinct_card)
  also have "\<dots> \<le> card (set made)" using assms by (intro card_mono) (auto simp: core_def)
  also have "\<dots> \<le> length made" by (rule card_length)
  finally show ?thesis .
qed

definition lossless :: "nat \<Rightarrow> world \<Rightarrow> bool" where
  "lossless cap s \<longleftrightarrow> world_ok s \<and> wl_lost s = [] \<and> plain_spool (ag_spool (wl_agent s)) \<and> sp_cap (ag_spool (wl_agent s)) = cap"

fun no_restart :: "aop \<Rightarrow> bool" where
  "no_restart (ARestart tear reached) = False"
| "no_restart _ = True"

lemma lossless_step:
  assumes "lossless cap s" "calm_agent x s" "no_restart x" "length (wl_made s) \<le> cap"
  shows "lossless cap (aexec x s)"
proof -
  let ?a = "wl_agent s" and ?sp = "ag_spool (wl_agent s)"
  have ok: "world_ok s" and pl: "plain_spool ?sp" and cp: "sp_cap ?sp = cap" and nl: "wl_lost s = []"
    using assms(1) by (simp_all add: lossless_def)
  have len: "length (pend ?a) \<le> cap" using core_length ok assms(4) unfolding world_ok_def by (meson le_trans)
  have wok: "world_ok (aexec x s)" by (rule aexec_ok [OF ok assms(2)])
  have step: "wl_lost (aexec x s) = [] \<and> plain_spool (ag_spool (wl_agent (aexec x s))) \<and> sp_cap (ag_spool (wl_agent (aexec x s))) = cap"
  proof (cases x)
    case (AProbe w)
    then show ?thesis using nl pl cp by (simp add: probe_cycle_def)
  next
    case ATake
    then show ?thesis using nl pl cp by (simp add: drain_batch_def split: option.split)
  next
    case AFlush
    then have "sp_count ?sp + length (ag_buf ?a) \<le> cap"
      using len assms(2) plain_goods [OF pl] by (simp add: pend_def)
    from plain_append [OF pl, of "ag_buf ?a"] this show ?thesis
      using AFlush nl cp by (simp add: flush_buffer_to_spool_def)
  next
    case (AAnswer ans reached)
    show ?thesis
    proof (cases "ag_fly ?a")
      case None
      then show ?thesis using AAnswer nl pl cp by (simp add: checkin_answer_def answer_loss_def)
    next
      case (Some f)
      obtain b live where f: "ag_fly ?a = Some (b, live)" using Some by (cases f) simp
      have l: "live \<Longrightarrow> sp_lines ?sp = []" using ok f by (simp add: world_ok_def agent_ok_def)
      have sum: "sp_count ?sp + (if live then length b else 0) + length (ag_buf ?a) \<le> cap"
        using len plain_goods [OF pl] f by (cases live) (simp_all add: pend_def)
      let ?sp1 = "if live then spool_append b ?sp else ?sp"
      have p1: "plain_spool ?sp1" "sp_cap ?sp1 = cap" "sp_count ?sp1 + length (ag_buf ?a) \<le> cap"
        "live \<Longrightarrow> append_loss b ?sp = []"
        using plain_append [OF pl, of b] sum pl cp by (cases live; simp)+
      note p2 = plain_append [OF p1(1), of "ag_buf ?a"]
      show ?thesis
        using p1 p2 nl f AAnswer pl cp plain_remove [OF pl]
        by (cases ans; cases live)
          (simp_all add: checkin_answer_def answer_loss_def respool_def overflow_to_spool_def
            flush_buffer_to_spool_def Let_def)
    qed
  qed (use assms(3) in simp)
  then show ?thesis using wok by (simp add: lossless_def)
qed

lemma made_grows: "\<exists>zs. wl_made (aexec x s) = wl_made s @ zs"
  by (cases x) (simp_all split: option.split)

lemma made_grows_run: "length (wl_made s) \<le> length (wl_made (arun xs s))"
proof (induction xs arbitrary: s)
  case (Cons x xs)
  obtain zs where "wl_made (aexec x s) = wl_made s @ zs" using made_grows by blast
  then have "length (wl_made s) \<le> length (wl_made (aexec x s))" by simp
  also have "\<dots> \<le> length (wl_made (arun xs (aexec x s)))" by (rule Cons.IH)
  finally show ?case by (simp add: arun_def)
qed (simp add: arun_def)

lemma lossless_run:
  assumes "lossless cap s" "calm_world xs s" "list_all no_restart xs" "length (wl_made (arun xs s)) \<le> cap"
  shows "lossless cap (arun xs s)"
  using assms
proof (induction xs arbitrary: s)
  case (Cons x xs)
  have "length (wl_made s) \<le> cap" using made_grows_run [of s "x # xs"] Cons.prems(4) by simp
  then have "lossless cap (aexec x s)" using lossless_step Cons.prems by simp
  from Cons.IH [OF this] Cons.prems(2,3,4) show ?case by (simp add: arun_def)
qed (simp add: arun_def)

lemma new_world_lossless: "lossless cap (new_world cap)"
  using new_world_ok by (simp add: lossless_def plain_spool_def new_world_def)

section \<open>The rates of the agent are those of the server\<close>

fun local_rates :: "string \<Rightarrow> sensor \<Rightarrow> (string \<times> ts) list \<Rightarrow> real option list" where
  "local_rates styp s [] = []"
| "local_rates styp s ((raw, t) # rs) = (let s' = counter_local styp raw t s in n_last_rate (s_snmp s') # local_rates styp s' rs)"

definition same_prev :: "sensor \<Rightarrow> (int \<times> ts) option \<Rightarrow> bool" where
  "same_prev s prev \<longleftrightarrow> n_prev (s_snmp s) = map_option fst prev \<and> n_prev_ts (s_snmp s) = map_option snd prev"

lemma counter_step:
  assumes "lower styp = styp" "styp \<in> {''counter32'', ''counter64'', ''counter''}" "same_prev s prev"
  shows "n_last_rate (s_snmp (counter_local styp raw t s)) = snd (agent_counter_rate styp (Some raw) t prev)"
    and "same_prev (counter_local styp raw t s) (fst (agent_counter_rate styp (Some raw) t prev))"
  using assms
  by (auto simp: counter_local_def agent_counter_rate_def same_prev_def set_rate_def counter_rate_def rate_ceiling_def
      Let_def split: option.split prod.split)

lemma rates_agree:
  assumes "lower styp = styp" "styp \<in> {''counter32'', ''counter64'', ''counter''}" "same_prev s prev"
  shows "agent_rates styp prev rs = local_rates styp s rs"
  using assms(3)
proof (induction rs arbitrary: s prev)
  case (Cons a rs)
  obtain raw t where a: "a = (raw, t)" by (cases a)
  show ?case using counter_step [OF assms(1,2) Cons.prems] Cons.IH by (simp add: a split_beta Let_def)
qed simp

end
