(* ===== verification/IngestLaws.thy ===== *)
theory IngestLaws
  imports AgentSpool
begin

text \<open>
  What ingestion does to the registry. \<open>pview\<close> is the part of a sensor that decides whether a result
  of an agent is taken: running, its probe assignment, and the time stamp of the last result. On it,
  ingestion is the receiver of \<open>AgentSpool\<close>, and a batch sent twice is taken once.
\<close>

section \<open>The deciding view\<close>

type_synonym pview = "bool \<times> string \<times> string \<times> string \<times> ts option"

definition pv_of :: "device \<Rightarrow> sensor \<Rightarrow> pview" where
  "pv_of dev s = (s_running s, c_probe_id (s_cfg s), d_probe_id dev, d_site dev, s_last_processed_ts s)"

definition pview :: "monitor \<Rightarrow> did \<Rightarrow> sid \<Rightarrow> pview option" where
  "pview m e j = map_option (\<lambda>(dev, s). pv_of dev s) (find_sensor e j m)"

definition with_last :: "ts option \<Rightarrow> pview \<Rightarrow> pview" where
  "with_last t v = (case v of (a, b, c, d, _) \<Rightarrow> (a, b, c, d, t))"

lemma pview_put:
  assumes "find_sensor d i m = Some (dev, s)" "d_sensors dev' = dput i s' (d_sensors dev)"
    and "d_probe_id dev' = d_probe_id dev" "d_site dev' = d_site dev"
    and "pv_of dev s' = with_last t (pv_of dev s)"
  shows "pview (put_device d dev' m) e j = (if e = d \<and> j = i then map_option (with_last t) (pview m e j) else pview m e j)"
proof -
  have g: "dget (m_devices m) d = Some dev" "dget (d_sensors dev) i = Some s"
    using assms(1) by (simp_all add: find_sensor_Some)
  have p: "pv_of dev' u = pv_of dev u" for u using assms(3,4) by (simp add: pv_of_def)
  show ?thesis
    using g assms(2,5) by (auto simp: pview_def find_sensor_def put_device_def dict_simps p option.map_comp comp_def)
qed

lemma final_device_place:
  "d_probe_id (fst (device_status (final_device x r now src dev s m))) = d_probe_id dev"
  "d_site (fst (device_status (final_device x r now src dev s m))) = d_site dev"
proof -
  have "p_dev (cycle_of x r now src dev s m) = dev \<or> p_dev (cycle_of x r now src dev s m) = invalidate_status dev"
    using keeps_cycle [of "\<lparr> p_dev = dev, p_s = s, p_in_grace = m_grace_active m, p_parked = m_parked m, p_out = [] \<rparr>"
        "x_anom x" "device_muted x dev s" src r now "v_now (x_alert x)"]
    by (auto simp: cycle_of_def keeps_def)
  moreover have "d_probe_id (fst (device_status e)) = d_probe_id e" "d_site (fst (device_status e)) = d_site e" for e
    by (simp_all add: device_status_def Let_def split: option.split)
  ultimately show "d_probe_id (fst (device_status (final_device x r now src dev s m))) = d_probe_id dev"
    "d_site (fst (device_status (final_device x r now src dev s m))) = d_site dev"
    by (auto simp: final_device_def put_sensor_def invalidate_status_def)
qed

lemma pview_frame [simp]:
  "pview (m_emit es m) e j = pview m e j" "pview (m\<lparr> m_parked := pk, m_engine := en \<rparr>) e j = pview m e j"
  "pview (m\<lparr> m_bind := b \<rparr>) e j = pview m e j"
  by (simp_all add: pview_def find_sensor_def m_emit_def)

lemma process_pview:
  assumes "registry_ok m" "find_sensor d i m = Some (dev, s)"
  shows "pview (fst (process_result x d i r now Probe b m)) e j =
    (if e = d \<and> j = i \<and> s_running s \<and> \<not> m_shutting_down m
     then map_option (with_last (Some (max now (last_ts x s)))) (pview m e j) else pview m e j)"
    and "snd (process_result x d i r now Probe b m) \<longleftrightarrow> \<not> m_shutting_down m \<and> s_running s \<and> last_ts x s < now"
proof -
  have ok: "device_ok d dev" "sensor_ok d i s" using find_sensor_ok [OF assms] by simp_all
  have id: "d_device_id dev = d" using ok(1) by (simp add: device_ok_def)
  let ?s1 = "s\<lparr> s_last_processed_ts := Some now \<rparr>"
  have ok1: "sensor_ok d i ?s1" using ok(2) by (simp add: sensor_ok_def sensor_wf_def)
  have st: "pview (store_sensor d dev i (s\<lparr> s_last_processed_ts := t \<rparr>) m) e j
      = (if e = d \<and> j = i then map_option (with_last t) (pview m e j) else pview m e j)" for t
    unfolding store_sensor_def
    by (rule pview_put [OF assms(2), where s' = "s\<lparr> s_last_processed_ts := t \<rparr>"])
      (simp_all add: put_sensor_def pv_of_def with_last_def)
  have "pview (evaluate_result x r now Probe dev ?s1 m) e j
      = (if e = d \<and> j = i then map_option (with_last (Some now)) (pview m e j) else pview m e j)"
  proof -
    have f: "find_sensor d i (m\<lparr> m_parked := pk, m_engine := en \<rparr>) = Some (dev, s)" for pk en
      using assms(2) by (simp add: find_sensor_def)
    show ?thesis
      unfolding evaluate_result_unfold pview_frame id
      by (subst pview_put [OF f, where s' = "final_sensor x r now Probe dev ?s1 m" and t = "Some now"])
        (simp_all add: final_device_sensors [OF ok(1) ok1] final_device_place pv_of_def with_last_def final_sensor_fields)
  qed
  with st show "pview (fst (process_result x d i r now Probe b m)) e j =
    (if e = d \<and> j = i \<and> s_running s \<and> \<not> m_shutting_down m
     then map_option (with_last (Some (max now (last_ts x s)))) (pview m e j) else pview m e j)"
    by (auto simp: process_result_def assms(2) Let_def max_def)
  show "snd (process_result x d i r now Probe b m) \<longleftrightarrow> \<not> m_shutting_down m \<and> s_running s \<and> last_ts x s < now"
    by (auto simp: process_result_def assms(2) Let_def)
qed

lemma process_shutdown: "m_shutting_down (fst (process_result x d i r now src b m)) = m_shutting_down m"
  by (auto simp: process_result_def evaluate_result_def Let_def m_emit_def put_device_def store_sensor_def
      split: option.split prod.split)

section \<open>Assignment\<close>

definition eff_pv :: "pview \<Rightarrow> site_bindings \<Rightarrow> string" where
  "eff_pv v b = (case v of (_, sp, dp, site, _) \<Rightarrow>
     if sp \<noteq> [] then unpin sp else if dp \<noteq> [] then unpin dp else snd (site_probe site b))"

definition last_of :: "pview \<Rightarrow> ts option" where
  "last_of v = (case v of (_, _, _, _, l) \<Rightarrow> l)"

lemma effective_pv: "snd (effective_probe (Some dev) (Some s) b) = eff_pv (pv_of dev s) b"
  by (simp add: effective_probe_def eff_pv_def pv_of_def)

lemma eff_pv_reads: "eff_pv v (fst (effective_probe dv s b)) = eff_pv v b"
  by (auto simp: eff_pv_def effective_probe_def site_probe_def get_site_map_def Let_def
      split: option.splits prod.splits)

lemma with_last_simps [simp]:
  "eff_pv (with_last t v) b = eff_pv v b" "last_of (with_last t v) = t" "fst (with_last t v) = fst v"
  "with_last t (with_last u v) = with_last t v"
  by (simp_all add: eff_pv_def with_last_def last_of_def split: prod.splits)

section \<open>One result\<close>

text \<open>How ingestion may change the view: time stamps grow, the rest stays.\<close>

definition grows :: "monitor \<Rightarrow> monitor \<Rightarrow> bool" where
  "grows m m' \<longleftrightarrow> m_shutting_down m' = m_shutting_down m \<and> (\<forall>v. eff_pv v (m_bind m') = eff_pv v (m_bind m))
     \<and> (\<forall>e j. pview m' e j = pview m e j \<or> (\<exists>v t. pview m e j = Some v \<and> pview m' e j = Some (with_last (Some t) v)
          \<and> (\<forall>l. last_of v = Some l \<longrightarrow> l \<le> t)))"

definition dead :: "string \<Rightarrow> wire \<Rightarrow> monitor \<Rightarrow> bool" where
  "dead pid w m \<longleftrightarrow> (case w of NotADict \<Rightarrow> True | Wire f \<Rightarrow> (case wr_ts f of None \<Rightarrow> True | Some t \<Rightarrow>
     t \<le> 0 \<or> (case pview m (wr_did f) (wr_sid f) of None \<Rightarrow> True | Some v \<Rightarrow>
       eff_pv v (m_bind m) \<noteq> pid \<or> m_shutting_down m \<or> \<not> fst v \<or> (\<exists>l. last_of v = Some l \<and> t \<le> l))))"

definition in_time :: "ts \<Rightarrow> wire \<Rightarrow> bool" where
  "in_time now w \<longleftrightarrow> (case w of NotADict \<Rightarrow> True | Wire f \<Rightarrow> (case wr_ts f of None \<Rightarrow> True | Some t \<Rightarrow> t \<le> now + 5))"

lemma grows_dead: "grows m m' \<Longrightarrow> dead pid w m \<Longrightarrow> dead pid w m'"
proof -
  assume g: "grows m m'" and d: "dead pid w m"
  show "dead pid w m'"
  proof (cases w)
    case (Wire f)
    show ?thesis
    proof (cases "wr_ts f")
      case (Some t)
      from g have "pview m' (wr_did f) (wr_sid f) = pview m (wr_did f) (wr_sid f)
          \<or> (\<exists>v u. pview m (wr_did f) (wr_sid f) = Some v \<and> pview m' (wr_did f) (wr_sid f) = Some (with_last (Some u) v)
              \<and> (\<forall>l. last_of v = Some l \<longrightarrow> l \<le> u))"
        and s: "m_shutting_down m' = m_shutting_down m" "\<And>v. eff_pv v (m_bind m') = eff_pv v (m_bind m)"
        unfolding grows_def by blast+
      then show ?thesis
        using d Wire Some by (fastforce simp: dead_def split: option.splits)
    qed (simp add: dead_def Wire)
  qed (simp add: dead_def)
qed

lemma ingest_found:
  assumes "find_sensor (wr_did f) (wr_sid f) m = Some (dev, s)" "wr_ts f = Some t" "0 < t"
  shows "ingest_one x pid now (Wire f) m =
    (let m1 = m\<lparr> m_bind := fst (effective_probe (Some dev) (Some s) (m_bind m)) \<rparr>
     in if eff_pv (pv_of dev s) (m_bind m) \<noteq> pid then (m1, False)
        else process_result x (wr_did f) (wr_sid f) (probe_result_of f) (clamp_ts now t) Probe
               (clamp_ts now t \<ge> now - stale_cutoff s) m1)"
  using assms by (simp add: ingest_one_def split_beta effective_pv Let_def)

lemma registry_bind: "registry_ok m \<Longrightarrow> registry_ok (m\<lparr> m_bind := b \<rparr>)"
  by (simp add: registry_ok_def)

text \<open>The effect of a result of a known sensor.\<close>

lemma ingest_known:
  fixes x :: mon_env and pid :: string and now :: ts
  assumes "registry_ok m" "find_sensor (wr_did f) (wr_sid f) m = Some (dev, s)" "wr_ts f = Some t" "0 < t"
  defines "m' \<equiv> fst (ingest_one x pid now (Wire f) m)"
  defines "live \<equiv> eff_pv (pv_of dev s) (m_bind m) = pid \<and> s_running s \<and> \<not> m_shutting_down m"
  shows "registry_ok m'" "m_shutting_down m' = m_shutting_down m" "eff_pv v (m_bind m') = eff_pv v (m_bind m)"
    "pview m' e j = (if e = wr_did f \<and> j = wr_sid f \<and> live
       then map_option (with_last (Some (max (clamp_ts now t) (last_ts x s)))) (pview m e j) else pview m e j)"
    "snd (ingest_one x pid now (Wire f) m) \<longleftrightarrow> live \<and> last_ts x s < clamp_ts now t"
proof -
  let ?m1 = "m\<lparr> m_bind := fst (effective_probe (Some dev) (Some s) (m_bind m)) \<rparr>"
  have r1: "registry_ok ?m1" by (rule registry_bind [OF assms(1)])
  have f1: "find_sensor (wr_did f) (wr_sid f) ?m1 = Some (dev, s)" using assms(2) by (simp add: find_sensor_def)
  note i = ingest_found [OF assms(2-4), of x pid now]
  show "registry_ok m'" unfolding m'_def i using r1 by (simp add: Let_def registry_process)
  show "m_shutting_down m' = m_shutting_down m" unfolding m'_def i by (simp add: Let_def process_shutdown)
  show "eff_pv v (m_bind m') = eff_pv v (m_bind m)"
    unfolding m'_def i by (simp add: Let_def process_frame eff_pv_reads)
  show "pview m' e j = (if e = wr_did f \<and> j = wr_sid f \<and> live
       then map_option (with_last (Some (max (clamp_ts now t) (last_ts x s)))) (pview m e j) else pview m e j)"
    unfolding m'_def i live_def by (auto simp: Let_def process_pview(1) [OF r1 f1])
  show "snd (ingest_one x pid now (Wire f) m) \<longleftrightarrow> live \<and> last_ts x s < clamp_ts now t"
    unfolding i live_def by (auto simp: Let_def process_pview(2) [OF r1 f1])
qed

lemma ingest_unknown:
  assumes "w = NotADict \<or> (\<exists>f. w = Wire f \<and> (wr_ts f = None \<or> (\<exists>t. wr_ts f = Some t \<and> t \<le> 0) \<or> find_sensor (wr_did f) (wr_sid f) m = None))"
  shows "ingest_one x pid now w m = (m, False)"
  using assms by (auto simp: ingest_one_def split: option.split)

lemma ingest_cases [case_names unknown known]:
  obtains (unknown) "ingest_one x pid now w m = (m, False)" "dead pid w m"
    | (known) f dev s t where "w = Wire f" "find_sensor (wr_did f) (wr_sid f) m = Some (dev, s)" "wr_ts f = Some t" "0 < t"
proof (cases "w = NotADict \<or> (\<exists>f. w = Wire f \<and> (wr_ts f = None \<or> (\<exists>t. wr_ts f = Some t \<and> t \<le> 0)
    \<or> find_sensor (wr_did f) (wr_sid f) m = None))")
  case True
  then show thesis
    by (intro unknown ingest_unknown) (auto simp: dead_def pview_def split: option.split)
next
  case False
  then obtain f t where "w = Wire f" "wr_ts f = Some t" "0 < t" "find_sensor (wr_did f) (wr_sid f) m \<noteq> None"
    by (cases w) force+
  then show thesis using known by auto
qed

lemma last_ts_of:
  "find_sensor e j m = Some (dev, s) \<Longrightarrow> last_of (pv_of dev s) = Some l \<Longrightarrow> last_ts x s = l"
  by (simp add: last_ts_def last_of_def pv_of_def)

lemma ingest_grows:
  assumes "registry_ok m"
  shows "registry_ok (fst (ingest_one x pid now w m)) \<and> grows m (fst (ingest_one x pid now w m))"
proof (cases rule: ingest_cases [of x pid now w m])
  case unknown
  then show ?thesis using assms by (simp add: grows_def)
next
  case (known f dev s t)
  note k = ingest_known [OF assms known(2,3,4), where x = x and pid = pid and now = now]
  have p: "pview m (wr_did f) (wr_sid f) = Some (pv_of dev s)" using known(2) by (simp add: pview_def)
  have "l \<le> max (clamp_ts now t) (last_ts x s)" if "last_of (pv_of dev s) = Some l" for l
    using last_ts_of [OF known(2) that, of x] by simp
  let ?v = "pv_of dev s" and ?u = "max (clamp_ts now t) (last_ts x s)"
  have "pview (fst (ingest_one x pid now (Wire f) m)) e j = pview m e j
      \<or> (\<exists>v u. pview m e j = Some v \<and> pview (fst (ingest_one x pid now (Wire f) m)) e j = Some (with_last (Some u) v)
         \<and> (\<forall>l. last_of v = Some l \<longrightarrow> l \<le> u))" for e j
  proof (cases "e = wr_did f \<and> j = wr_sid f \<and> eff_pv ?v (m_bind m) = pid \<and> s_running s \<and> \<not> m_shutting_down m")
    case True
    then have "pview m e j = Some ?v" "pview (fst (ingest_one x pid now (Wire f) m)) e j = Some (with_last (Some ?u) ?v)"
      using k(4) [of e j] p by simp_all
    then show ?thesis using \<open>\<And>l. last_of ?v = Some l \<Longrightarrow> l \<le> ?u\<close> by blast
  next
    case False
    then show ?thesis using k(4) [of e j] by auto
  qed
  then show ?thesis unfolding known(1) grows_def using k(1,2,3) by blast
qed

lemma ingest_dead:
  assumes "registry_ok m" "dead pid w m" "in_time now w"
  shows "\<not> snd (ingest_one x pid now w m)"
proof (cases rule: ingest_cases [of x pid now w m])
  case unknown
  then show ?thesis by simp
next
  case (known f dev s t)
  have p: "pview m (wr_did f) (wr_sid f) = Some (pv_of dev s)" using known(2) by (simp add: pview_def)
  have "clamp_ts now t = t" using assms known by (simp add: in_time_def clamp_ts_def)
  moreover have "fst (pv_of dev s) = s_running s" by (simp add: pv_of_def)
  ultimately show ?thesis
    using assms(2) known last_ts_of [OF known(2), of _ x] ingest_known(5) [OF assms(1) known(2,3,4), where x = x and pid = pid and now = now]
    by (auto simp: dead_def p)
qed

lemma ingest_kills:
  assumes "registry_ok m" "in_time now w"
  shows "dead pid w (fst (ingest_one x pid now w m))"
proof (cases rule: ingest_cases [of x pid now w m])
  case unknown
  then show ?thesis by simp
next
  case (known f dev s t)
  note k = ingest_known [OF assms(1) known(2,3,4), where x = x and pid = pid and now = now]
  have p: "pview m (wr_did f) (wr_sid f) = Some (pv_of dev s)" using known(2) by (simp add: pview_def)
  have "clamp_ts now t = t" using assms known by (simp add: in_time_def clamp_ts_def)
  moreover have "fst (pv_of dev s) = s_running s" by (simp add: pv_of_def)
  ultimately show ?thesis using known(1,3) p k(2,3,4) by (simp add: dead_def)
qed

section \<open>A batch\<close>

text \<open>The results of a batch that were taken, in the order of the loop.\<close>

fun took :: "mon_env \<Rightarrow> string \<Rightarrow> ts \<Rightarrow> wire list \<Rightarrow> monitor \<Rightarrow> wire list" where
  "took x pid now [] m = []"
| "took x pid now (w # ws) m = (if snd (ingest_one x pid now w m) then [w] else [])
     @ took x pid now ws (fst (ingest_one x pid now w m))"

lemma loop_counts:
  "fst (snd (ingest_loop x pid now ws (m, a, r))) = a + length (took x pid now ws m)
   \<and> snd (snd (ingest_loop x pid now ws (m, a, r))) + length (took x pid now ws m) = r + length ws"
  by (induction ws arbitrary: m a r) (simp_all add: split_beta Let_def)

lemma loop_state: "fst (ingest_loop x pid now ws (m, a, r)) = foldl (\<lambda>m w. fst (ingest_one x pid now w m)) m ws"
  by (induction ws arbitrary: m a r) (simp_all add: split_beta Let_def)

lemma loop_grows:
  "registry_ok m \<Longrightarrow> registry_ok (foldl (\<lambda>m w. fst (ingest_one x pid now w m)) m ws)
     \<and> (dead pid v m \<longrightarrow> dead pid v (foldl (\<lambda>m w. fst (ingest_one x pid now w m)) m ws))"
proof (induction ws arbitrary: m)
  case (Cons w ws)
  show ?case using Cons.IH [of "fst (ingest_one x pid now w m)"] ingest_grows [OF Cons.prems, of x pid now w] grows_dead
    by auto
qed simp

lemma loop_kills:
  assumes "registry_ok m" "\<forall>w \<in> set ws. in_time now w"
  shows "\<forall>w \<in> set ws. dead pid w (foldl (\<lambda>m w. fst (ingest_one x pid now w m)) m ws)"
  using assms
proof (induction ws arbitrary: m)
  case (Cons w ws)
  have r: "registry_ok (fst (ingest_one x pid now w m))" using ingest_grows [OF Cons.prems(1)] by blast
  have "dead pid w (fst (ingest_one x pid now w m))" using ingest_kills [OF Cons.prems(1)] Cons.prems(2) by simp
  with loop_grows [OF r] Cons.IH [OF r] Cons.prems(2) show ?case by simp
qed simp

lemma dead_took:
  assumes "registry_ok m" "\<forall>w \<in> set ws. in_time now w \<and> dead pid w m"
  shows "took x pid now ws m = []"
  using assms
proof (induction ws arbitrary: m)
  case (Cons w ws)
  have g: "registry_ok (fst (ingest_one x pid now w m))" "grows m (fst (ingest_one x pid now w m))"
    using ingest_grows [OF Cons.prems(1)] by blast+
  have "took x pid now ws (fst (ingest_one x pid now w m)) = []"
    using Cons.IH [OF g(1)] Cons.prems(2) grows_dead [OF g(2)] by simp
  then show ?case using ingest_dead [OF Cons.prems(1)] Cons.prems(2) by simp
qed simp

lemma set_sort_batch: "set (sort_batch ws) = set ws" "length (sort_batch ws) = length ws"
  by (simp_all add: sort_batch_def)

lemma replay_refused:
  assumes "registry_ok m" "\<forall>w \<in> set ws. in_time now w" "now \<le> now'"
  shows "fst (snd (ingest_results x' pid now' ws (fst (ingest_results x pid now ws m)))) = 0"
proof -
  let ?m = "fst (ingest_results x pid now ws m)"
  have m: "?m = foldl (\<lambda>m w. fst (ingest_one x pid now w m)) m (sort_batch ws)"
    by (simp add: ingest_results_def loop_state)
  have r: "registry_ok ?m" unfolding m using loop_grows [OF assms(1)] by blast
  have "\<forall>w \<in> set (sort_batch ws). in_time now w" using assms(2) by (simp add: set_sort_batch)
  from loop_kills [OF assms(1) this] have "\<forall>w \<in> set (sort_batch ws). dead pid w ?m" unfolding m .
  moreover have "\<forall>w \<in> set (sort_batch ws). in_time now' w"
    using assms(2,3) by (fastforce simp: set_sort_batch in_time_def split: wire.splits option.splits)
  ultimately have "took x' pid now' (sort_batch ws) ?m = []" using dead_took [OF r] by blast
  then show ?thesis using loop_counts [of x' pid now' "sort_batch ws" ?m 0 0]
    by (simp add: ingest_results_def)
qed

lemma every_result_counted:
  "fst (snd (ingest_results x pid now ws m)) + snd (snd (ingest_results x pid now ws m)) = length ws"
  using loop_counts [of x pid now "sort_batch ws" m 0 0] set_sort_batch(2) [of ws]
  by (simp add: ingest_results_def)

section \<open>The monitor as a receiver\<close>

text \<open>The results taken so far, \<open>acc\<close>, are reflected by the time stamp of the sensor.\<close>

definition newest_ts :: "mon_env \<Rightarrow> did \<Rightarrow> sid \<Rightarrow> pview \<Rightarrow> ts" where
  "newest_ts x d i v = (case last_of v of Some l \<Rightarrow> l | None \<Rightarrow> x_max_sample_ts x d i)"

definition synced :: "mon_env \<Rightarrow> string \<Rightarrow> monitor \<Rightarrow> wire_result list \<Rightarrow> wire_result \<Rightarrow> bool" where
  "synced x pid m acc f \<longleftrightarrow> \<not> m_shutting_down m \<and> (case pview m (wr_did f) (wr_sid f) of None \<Rightarrow> False
     | Some v \<Rightarrow> eff_pv v (m_bind m) = pid \<and> fst v
         \<and> (\<forall>t. newest_ts x (wr_did f) (wr_sid f) v < t \<longleftrightarrow> (\<forall>u \<in> set acc. kof u = kof f \<longrightarrow> tof u < t)))"

definition timely :: "ts \<Rightarrow> wire_result \<Rightarrow> bool" where
  "timely now f \<longleftrightarrow> (case wr_ts f of None \<Rightarrow> False | Some t \<Rightarrow> 0 < t \<and> t \<le> now + 5)"

lemma last_ts_newest:
  assumes "registry_ok m" "find_sensor d i m = Some (dev, s)"
  shows "last_ts x s = newest_ts x d i (pv_of dev s)"
  using find_sensor_ids [OF assms] by (simp add: last_ts_def newest_ts_def last_of_def pv_of_def split: option.split)

lemma synced_step:
  assumes "registry_ok m" "timely now f" "synced x pid m acc f"
  shows "snd (ingest_one x pid now (Wire f) m) \<longleftrightarrow> list_all (\<lambda>u. after u f) acc"
    and "synced x pid m acc g \<Longrightarrow> synced x pid (fst (ingest_one x pid now (Wire f) m)) (receive_one acc f) g"
proof -
  from assms(3) obtain dev s where fs: "find_sensor (wr_did f) (wr_sid f) m = Some (dev, s)"
    by (auto simp: synced_def pview_def split: option.splits)
  let ?v = "pv_of dev s"
  have pv: "pview m (wr_did f) (wr_sid f) = Some ?v" by (simp add: pview_def fs)
  let ?L = "newest_ts x (wr_did f) (wr_sid f) ?v"
  have live: "eff_pv ?v (m_bind m) = pid \<and> s_running s \<and> \<not> m_shutting_down m"
    and L: "\<And>t. ?L < t \<longleftrightarrow> (\<forall>u \<in> set acc. kof u = kof f \<longrightarrow> tof u < t)"
    using assms(3) by (simp_all add: synced_def pv) (simp_all add: pv_of_def)
  from assms(2) obtain t where t: "wr_ts f = Some t" "0 < t" "t \<le> now + 5" by (auto simp: timely_def split: option.splits)
  have tf: "tof f = t" "clamp_ts now t = t" using t by (simp_all add: tof_def clamp_ts_def)
  note k = ingest_known [OF assms(1) fs t(1,2), where x = x and pid = pid and now = now]
  have l: "last_ts x s = ?L" by (rule last_ts_newest [OF assms(1) fs])
  have acc: "list_all (\<lambda>u. after u f) acc \<longleftrightarrow> ?L < t" using L [of t] tf(1) by (auto simp: list_all_iff after_def)
  then show "snd (ingest_one x pid now (Wire f) m) \<longleftrightarrow> list_all (\<lambda>u. after u f) acc"
    using k(5) live l tf(2) by simp
  assume g: "synced x pid m acc g"
  show "synced x pid (fst (ingest_one x pid now (Wire f) m)) (receive_one acc f) g"
  proof (cases "kof g = kof f")
    case False
    then have "\<not> (wr_did g = wr_did f \<and> wr_sid g = wr_sid f)" by (simp add: kof_def)
    then have "pview (fst (ingest_one x pid now (Wire f) m)) (wr_did g) (wr_sid g) = pview m (wr_did g) (wr_sid g)"
      using k(4) [of "wr_did g" "wr_sid g"] by auto
    with g k(2,3) False show ?thesis by (auto simp: synced_def receive_one_def split: option.splits)
  next
    case True
    then have e: "wr_did g = wr_did f" "wr_sid g = wr_sid f" by (simp_all add: kof_def)
    have p': "pview (fst (ingest_one x pid now (Wire f) m)) (wr_did g) (wr_sid g) = Some (with_last (Some (max t ?L)) ?v)"
      using k(4) [of "wr_did f" "wr_sid f"] live pv l tf(2) by (simp add: e)
    have n: "newest_ts x (wr_did g) (wr_sid g) (with_last (Some (max t ?L)) ?v) = max t ?L" by (simp add: newest_ts_def)
    have "max t ?L < t' \<longleftrightarrow> (\<forall>u \<in> set (receive_one acc f). kof u = kof g \<longrightarrow> tof u < t')" for t'
    proof (cases "?L < t")
      case True
      then have "max t ?L < t' \<longleftrightarrow> t < t' \<and> ?L < t'" by auto
      then show ?thesis using L [of t'] acc True \<open>kof g = kof f\<close> tf(1) by (auto simp: receive_one_def)
    next
      case False
      then show ?thesis using L [of t'] acc \<open>kof g = kof f\<close> by (auto simp: receive_one_def max_def)
    qed
    moreover have "fst ?v" using live by (simp add: pv_of_def)
    ultimately show ?thesis using live k(2,3) by (simp add: synced_def p' n)
  qed
qed

lemma map_insort: "map g (insort_key (\<lambda>a. f (g a)) x xs) = insort_key f (g x) (map g xs)"
  by (induction xs) simp_all

lemma map_sort_key: "sort_key f (map g xs) = map g (sort_key (\<lambda>a. f (g a)) xs)"
  by (induction xs) (simp_all add: map_insort)

lemma insort_cong: "f x = g x \<Longrightarrow> (\<And>y. y \<in> set xs \<Longrightarrow> f y = g y) \<Longrightarrow> insort_key f x xs = insort_key g x xs"
  by (induction xs) simp_all

lemma sort_key_cong: "(\<And>x. x \<in> set xs \<Longrightarrow> f x = g x) \<Longrightarrow> sort_key f xs = sort_key g xs"
proof (induction xs)
  case (Cons a xs)
  have e: "sort_key f xs = sort_key g xs" by (rule Cons.IH) (simp add: Cons.prems)
  have "insort_key f a (sort_key g xs) = insort_key g a (sort_key g xs)"
    by (rule insort_cong) (simp_all add: Cons.prems)
  then show ?case by (simp only: sort_key_simps e)
qed simp

lemma sort_batch_wires:
  assumes "\<forall>f \<in> set fs. timely now f"
  shows "sort_batch (map Wire fs) = map Wire (sort_key tof fs)"
proof -
  have "list_all (\<lambda>w. sort_ts w \<noteq> None) (map Wire fs)"
    using assms by (auto simp: list_all_iff timely_def split: option.splits)
  moreover have "sort_key (\<lambda>f. the (sort_ts (Wire f))) fs = sort_key tof fs"
    using assms by (intro sort_key_cong) (auto simp: timely_def tof_def split: option.splits)
  ultimately show ?thesis by (simp add: sort_batch_def map_sort_key)
qed

lemma loop_receives:
  assumes "registry_ok m" "\<forall>f \<in> set fs. timely now f \<and> synced x pid m acc f"
  shows "map Wire acc @ took x pid now (map Wire fs) m = map Wire (foldl receive_one acc fs)"
    and "synced x pid m acc g \<Longrightarrow>
      synced x pid (foldl (\<lambda>m w. fst (ingest_one x pid now w m)) m (map Wire fs)) (foldl receive_one acc fs) g"
proof -
  have "map Wire acc @ took x pid now (map Wire fs) m = map Wire (foldl receive_one acc fs)
    \<and> (synced x pid m acc g \<longrightarrow>
        synced x pid (foldl (\<lambda>m w. fst (ingest_one x pid now w m)) m (map Wire fs)) (foldl receive_one acc fs) g)"
    using assms
  proof (induction fs arbitrary: m acc)
    case (Cons f fs)
    have r: "registry_ok (fst (ingest_one x pid now (Wire f) m))" using ingest_grows [OF Cons.prems(1)] by blast
    have f: "timely now f" "synced x pid m acc f" using Cons.prems(2) by simp_all
    note st = synced_step [OF Cons.prems(1) f]
    have "map Wire (receive_one acc f) = map Wire acc @ (if snd (ingest_one x pid now (Wire f) m) then [Wire f] else [])"
      using st(1) by (simp add: receive_one_def)
    moreover have "\<forall>h \<in> set fs. timely now h \<and> synced x pid (fst (ingest_one x pid now (Wire f) m)) (receive_one acc f) h"
      using Cons.prems(2) st(2) by simp
    note Cons.IH [OF r this]
    ultimately show ?case using st(2) by simp
  qed simp
  then show "map Wire acc @ took x pid now (map Wire fs) m = map Wire (foldl receive_one acc fs)"
    "synced x pid m acc g \<Longrightarrow>
      synced x pid (foldl (\<lambda>m w. fst (ingest_one x pid now w m)) m (map Wire fs)) (foldl receive_one acc fs) g"
    by blast+
qed

text \<open>A batch of an assigned, running sensor is taken exactly as the receiver says.\<close>

lemma ingest_receives:
  assumes "registry_ok m" "\<forall>f \<in> set fs. timely now f \<and> synced x pid m acc f"
  shows "map Wire acc @ took x pid now (sort_batch (map Wire fs)) m = map Wire (receive fs acc)"
    and "f \<in> set fs \<Longrightarrow> synced x pid (fst (ingest_results x pid now (map Wire fs) m)) (receive fs acc) f"
proof -
  have t: "\<forall>f \<in> set fs. timely now f" using assms(2) by blast
  have s: "\<forall>f \<in> set (sort_key tof fs). timely now f \<and> synced x pid m acc f" using assms(2) by simp
  show "map Wire acc @ took x pid now (sort_batch (map Wire fs)) m = map Wire (receive fs acc)"
    using loop_receives(1) [OF assms(1) s] by (simp add: sort_batch_wires [OF t] receive_def)
  assume "f \<in> set fs"
  then have "synced x pid m acc f" using assms(2) by blast
  from loop_receives(2) [OF assms(1) s this]
  show "synced x pid (fst (ingest_results x pid now (map Wire fs) m)) (receive fs acc) f"
    by (simp add: ingest_results_def loop_state sort_batch_wires [OF t] receive_def)
qed

end
