(* ===== verification/AgentTheorems.thy ===== *)
theory AgentTheorems
  imports Demo ManagedUpdate AgentLaws IngestLaws
begin

text \<open>
  The properties of the agent's side: delivery of results across lost requests and restarts, their
  ingestion by the server, counter rates, and managed updates under the supervisor. Each follows from
  the lemmas of its component.
\<close>

section \<open>Delivery\<close>

definition demo_result :: "ts \<Rightarrow> wire_result" where
  "demo_result t = \<lparr> wr_did = ''d1'', wr_sid = ''s1'', wr_ts = Some t, wr_ok = True, wr_ms = Some 3,
     wr_detail = ''ok'', wr_value = None, wr_snmp_type = [], wr_rate = None, wr_cert_days = None \<rparr>"





text \<open>The demo installation with its sensor assigned to an agent.\<close>

definition remote_monitor :: monitor where
  "remote_monitor = (init_monitor demo_pdb demo_tdb \<lparr> sb_db = [], sb_map = None \<rparr>)
     \<lparr> m_devices := [(''d1'', demo_dev\<lparr> d_sensors := [(''s1'', demo_sensor\<lparr> s_running := True, s_sched_mode := Remote,
        s_cfg := demo_cfg\<lparr> c_probe_id := ''p'' \<rparr> \<rparr>)] \<rparr>)] \<rparr>"

lemma remote_registry: "registry_ok remote_monitor"
proof -
  have "str_of_nat 1 = ''1''" by code_simp
  then have "\<exists>k \<le> Suc 0. ''1'' = str_of_nat k" by (intro exI [of _ 1]) simp
  then have "device_ok ''d1'' (demo_dev\<lparr> d_sensors := [(''s1'', demo_sensor\<lparr> s_running := True, s_sched_mode := Remote,
        s_cfg := demo_cfg\<lparr> c_probe_id := ''p'' \<rparr> \<rparr>)] \<rparr>)"
    by (simp add: device_ok_def sids_ok_def sensor_ok_def demo_dev_def new_device_def demo_sensor_def new_sensor_def
        sensor_wf_def cache_weak_def)
  then show ?thesis by (simp add: registry_ok_def remote_monitor_def)
qed



text \<open>C15: Ingestion is idempotent: when a batch whose time stamps are at most five seconds ahead of the server's
  clock is sent again because its answer was lost, none of its results is accepted a second time, and every result
  of a batch is counted as accepted or rejected.\<close>

theorem replay_is_refused:
  assumes "registry_ok m" "\<forall>w \<in> set ws. in_time now w" "now \<le> now'"
  shows "fst (snd (ingest_results x' pid now' ws (fst (ingest_results x pid now ws m)))) = 0
    \<and> fst (snd (ingest_results x pid now ws m)) + snd (snd (ingest_results x pid now ws m)) = length ws"
  using replay_refused [OF assms] every_result_counted by blast

theorem replay_is_refused_witness:
  "fst (snd (ingest_results (demo_x 100) ''p'' 100 [Wire (demo_result 10), NotADict] remote_monitor)) = 1
   \<and> fst (snd (ingest_results (demo_x 110) ''p'' 110 [Wire (demo_result 10), NotADict]
        (fst (ingest_results (demo_x 100) ''p'' 100 [Wire (demo_result 10), NotADict] remote_monitor)))) = 0"
proof -
  have t: "\<forall>w \<in> set [Wire (demo_result 10), NotADict]. in_time 100 w" by code_simp
  have "fst (snd (ingest_results (demo_x 100) ''p'' 100 [Wire (demo_result 10), NotADict] remote_monitor)) = 1" by code_simp
  with replay_is_refused [OF remote_registry t, of 110] show ?thesis by simp
qed

text \<open>The rates an agent derives from the readings of an SNMP counter are those the server would derive
  from the same readings of a local probe, for every type of counter, with wrap-around, resets,
  readings that are not numbers and the sanity ceiling included.\<close>

theorem agent_rates_match_server:
  assumes "styp \<in> {''counter32'', ''counter64'', ''counter''}"
    and "n_prev (s_snmp s) = map_option fst prev" "n_prev_ts (s_snmp s) = map_option snd prev"
  shows "agent_rates styp prev rs = local_rates styp s rs"
proof -
  have "lower ''counter32'' = ''counter32''" "lower ''counter64'' = ''counter64''" "lower ''counter'' = ''counter''"
    by code_simp+
  then have "lower styp = styp" using assms(1) by auto
  then show ?thesis by (rule rates_agree [OF _ assms(1)]) (simp add: same_prev_def assms(2,3))
qed

theorem agent_rates_match_server_witness:
  "local_rates ''counter32'' demo_sensor [(''4294967290'', 10), (''4'', 20), (''x'', 30), (''7'', 40)] = [None, Some 1, None, None]"
proof -
  have c: "''counter32'' \<in> {''counter32'', ''counter64'', ''counter''}" by simp
  have n: "n_prev (s_snmp demo_sensor) = map_option fst None" "n_prev_ts (s_snmp demo_sensor) = map_option snd None"
    by (simp_all add: demo_sensor_def new_sensor_def init_snmp_def)
  have e: "agent_rates ''counter32'' None [(''4294967290'', 10), (''4'', 20), (''x'', 30), (''7'', 40)] = [None, Some 1, None, None]"
    by code_simp
  show ?thesis by (rule trans [OF agent_rates_match_server [OF c n, symmetric] e])
qed

text \<open>A spool that holds nothing but lines cut off by a crash blocks the agent: an acknowledged check-in
  removes as many lines as it sent, which is none, so the spool keeps being preferred and no live
  result is ever sent while the server answers.\<close>

theorem torn_spool_blocks:
  assumes "ag_fly a = None" "goods (sp_lines (ag_spool a)) = []" "0 < sp_count (ag_spool a)"
  shows "ag_fly (drain_batch a) = Some ([], False) \<and> checkin_answer Acked (drain_batch a) = a"
  using assms by (simp add: drain_batch_def checkin_answer_def spool_peek_def remove_oldest_def)

theorem torn_spool_blocks_witness:
  "checkin_answer Acked (drain_batch (wl_agent (arun [ARestart True False, AProbe (demo_result 10)] (new_world 1000))))
     = wl_agent (arun [ARestart True False, AProbe (demo_result 10)] (new_world 1000))"
proof -
  let ?a = "wl_agent (arun [ARestart True False, AProbe (demo_result 10)] (new_world 1000))"
  have "ag_fly ?a = None" "goods (sp_lines (ag_spool ?a)) = []" "0 < sp_count (ag_spool ?a)" by code_simp+
  from torn_spool_blocks [OF this] show ?thesis by blast
qed

section \<open>Managed updates\<close>

definition demo_release :: release where "demo_release = \<lparr> rl_mtime = 5, rl_has_agent = True \<rparr>"

definition demo_host :: host where
  "demo_host = \<lparr> ho_state = \<lparr> sv_active = Some ''a'', sv_previous = None, sv_probation = None \<rparr>,
     ho_releases = [(''a'', demo_release)], ho_beacon = None, ho_pending = None, ho_report = None,
     ho_control = AtTop, ho_crashes = 0 \<rparr>"

definition switch_to :: "string \<Rightarrow> switch" where
  "switch_to b = \<lparr> ps_target = b, ps_window = 60, ps_campaign = Some 1, ps_attempt = Some ''t'' \<rparr>"

text \<open>C12: A bad build never takes over. Along every run of the supervisor, with switches, crashes, reboots and
  polls in any order, in which no switch is staged during a probation and staged releases hold an
  agent, the active release is on disk and runnable; outside a probation it has passed one (or was
  there at the start), and during a probation a release that has is kept to go back to.\<close>

theorem bad_build_never_stays:
  assumes "host_ok good h" "calm_run xs h"
  shows "\<exists>a. sv_active (ho_state (srun xs h)) = Some a \<and> release_runnable (Some a) (ho_releases (srun xs h))
    \<and> (case sv_probation (ho_state (srun xs h)) of
         None \<Rightarrow> a \<in> proven xs h good
       | Some pb \<Rightarrow> pb_target pb = a \<and> (\<exists>p \<in> proven xs h good. pb_previous pb = Some p
           \<and> release_runnable (Some p) (ho_releases (srun xs h))))"
  using srun_ok [OF assms] unfolding host_ok_def by (auto split: option.splits)

theorem bad_build_never_stays_witness:
  "sv_active (ho_state (srun [SBoot, STop 0 True, SStage (switch_to ''b'') demo_release, SExit 10, STop 11 True,
      SPoll 20, SPoll 71, STop 72 True] demo_host)) = Some ''a''
   \<and> (\<exists>a. sv_active (ho_state (srun [SBoot, STop 0 True, SStage (switch_to ''b'') demo_release, SExit 10, STop 11 True,
      SPoll 20, SPoll 71, STop 72 True] demo_host)) = Some a
      \<and> release_runnable (Some a) (ho_releases (srun [SBoot, STop 0 True, SStage (switch_to ''b'') demo_release, SExit 10,
          STop 11 True, SPoll 20, SPoll 71, STop 72 True] demo_host)))"
proof -
  let ?xs = "[SBoot, STop 0 True, SStage (switch_to ''b'') demo_release, SExit 10, STop 11 True, SPoll 20, SPoll 71, STop 72 True]"
  have h: "host_ok {''a''} demo_host" by (simp add: host_ok_def demo_host_def release_runnable_def demo_release_def)
  have c: "calm_run ?xs demo_host" by code_simp
  have "sv_active (ho_state (srun ?xs demo_host)) = Some ''a''" by code_simp
  with bad_build_never_stays [OF h c] show ?thesis by blast
qed

text \<open>C13: A probation ends, while the child of the new build runs or when it exits. The first poll after the
  deadline commits the build when it is healthy and otherwise puts the previous release back; the exit
  of the child without a hand-off puts it back at once. Where the previous release cannot run any more,
  the newest release on disk that can is put back in its place, if there is one.\<close>

theorem probation_ends:
  assumes "ho_control h = Running b t0" "on_probation b h = Some pb"
  shows "(pb_deadline pb < now \<longrightarrow> sv_probation (ho_state (poll_child now h)) = None
       \<and> (if healthy b h then sv_active (ho_state (poll_child now h)) = sv_active (ho_state h)
            \<and> sv_previous (ho_state (poll_child now h)) = pb_previous pb
          else sv_active (ho_state (poll_child now h)) = put_back pb h))
    \<and> (ho_pending h = None \<longrightarrow> sv_probation (ho_state (child_exit now h)) = None
       \<and> sv_active (ho_state (child_exit now h)) = put_back pb h)
    \<and> (release_runnable (pb_previous pb) (ho_releases h) \<longrightarrow> put_back pb h = pb_previous pb)"
  using probation_poll [OF assms, of now] probation_exit [OF assms, of now] by (auto simp: put_back_def)

definition probated_host :: host where
  "probated_host = srun [SBoot, STop 0 True, SStage (switch_to ''b'') demo_release, SExit 10, STop 11 True] demo_host"

definition probated_pb :: probation where
  "probated_pb = \<lparr> pb_target = ''b'', pb_previous = Some ''a'', pb_deadline = 70, pb_started = 10,
     pb_campaign = Some 1, pb_attempt = Some ''t'' \<rparr>"

theorem probation_ends_witness:
  "sv_active (ho_state probated_host) = Some ''b'' \<and> sv_active (ho_state (poll_child 71 probated_host)) = Some ''a''
   \<and> sv_active (ho_state (child_exit 30 probated_host)) = Some ''a''"
proof -
  have r: "ho_control probated_host = Running ''b'' 11" by code_simp
  have p: "on_probation ''b'' probated_host = Some probated_pb" by code_simp
  have k: "release_runnable (pb_previous probated_pb) (ho_releases probated_host)" by code_simp
  have x: "ho_pending probated_host = None" by code_simp
  have n: "\<not> healthy ''b'' probated_host" by code_simp
  have d: "pb_deadline probated_pb < 71" "pb_previous probated_pb = Some ''a''" by code_simp+
  have "sv_active (ho_state probated_host) = Some ''b''" by code_simp
  with probation_ends [OF r p, of 71] probation_ends [OF r p, of 30] k x n d show ?thesis by simp
qed

text \<open>C14: A crash loop ends: a committed release whose child exits three times in a row within a minute of its
  start is replaced by the previous release, when that is another one and still runnable.\<close>

theorem crash_loop_reverts:
  assumes "ho_control h = Running b t0" "sv_active (ho_state h) = Some b" "release_runnable (Some b) (ho_releases h)"
    and "sv_probation (ho_state h) = None" "ho_pending h = None" "ho_crashes h = 0"
    and "sv_previous (ho_state h) = Some p" "p \<noteq> b" "release_runnable (Some p) (ho_releases h)"
    and "t1 - t0 < 60" "t2 - u1 < 60" "t3 - u2 < 60"
  shows "sv_active (ho_state (srun [SExit t1, STop u1 True, SExit t2, STop u2 True, SExit t3] h)) = Some p"
proof -
  note c = fast_crash [OF _ _ _ _ _ assms(8)]
  let ?k = "\<lambda>ctl n. h\<lparr> ho_control := ctl, ho_crashes := n \<rparr>"
  have e1: "child_exit t1 h = ?k AtTop 1" using c(1) [OF assms(1,4,5,10,7,9)] assms(6) by simp
  have s1: "loop_top u1 True (?k AtTop 1) = ?k (Running b u1) 1"
    using assms(2,3,5) by (simp add: loop_top_def take_pending_def)
  have e2: "child_exit t2 (?k (Running b u1) 1) = ?k AtTop 2"
    using c(1) [of "?k (Running b u1) 1" u1 t2] assms by simp
  have s2: "loop_top u2 True (?k AtTop 2) = ?k (Running b u2) 2"
    using assms(2,3,5) by (simp add: loop_top_def take_pending_def)
  have "sv_active (ho_state (child_exit t3 (?k (Running b u2) 2))) = Some p"
    using c(2) [of "?k (Running b u2) 2" u2 t3] assms by simp
  moreover have "srun [SExit t1, STop u1 True, SExit t2, STop u2 True, SExit t3] h
      = child_exit t3 (loop_top u2 True (child_exit t2 (loop_top u1 True (child_exit t1 h))))"
    by (simp add: srun_def)
  ultimately show ?thesis by (simp only: e1 s1 e2 s2)
qed

definition committed_host :: host where
  "committed_host = srun [SHealth ''b'' 2, SPoll 20] probated_host"

theorem crash_loop_reverts_witness:
  "sv_active (ho_state committed_host) = Some ''b''
   \<and> sv_active (ho_state (srun [SExit 30, STop 35 True, SExit 40, STop 45 True, SExit 50] committed_host)) = Some ''a''"
proof -
  have r: "ho_control committed_host = Running ''b'' 11" by code_simp
  have a: "sv_active (ho_state committed_host) = Some ''b''" by code_simp
  have b: "release_runnable (Some ''b'') (ho_releases committed_host)" by code_simp
  have c: "sv_probation (ho_state committed_host) = None" by code_simp
  have d: "ho_pending committed_host = None" by code_simp
  have e: "ho_crashes committed_host = 0" by code_simp
  have f: "sv_previous (ho_state committed_host) = Some ''a''" by code_simp
  have g: "release_runnable (Some ''a'') (ho_releases committed_host)" by code_simp
  from crash_loop_reverts [OF r a b c d e f _ g, of 30 40 35 50 45] a show ?thesis by simp
qed

text \<open>A switch staged during a probation makes the unproven build the one to go back to: when the second
  build fails, the first is active for good though it never passed its probation, and no report about
  it is written.\<close>

theorem second_switch_keeps_unproven:
  "sv_active (ho_state (srun [SStage (switch_to ''c'') demo_release, SExit 30, STop 31 True, SPoll 95] probated_host)) = Some ''b''
   \<and> sv_probation (ho_state (srun [SStage (switch_to ''c'') demo_release, SExit 30, STop 31 True, SPoll 95] probated_host)) = None
   \<and> ''b'' \<notin> proven [SStage (switch_to ''c'') demo_release, SExit 30, STop 31 True, SPoll 95] probated_host {''a''}
   \<and> map_option rp_target (ho_report (srun [SStage (switch_to ''c'') demo_release, SExit 30, STop 31 True, SPoll 95] probated_host))
       = Some (Some ''c'')"
  by code_simp

text \<open>A committed update is not credited. The report of a commit is written after the probation was
  cleared and so names no campaign: however it reaches the server, the rows of every campaign stay as
  they are, and the canary counts as in flight.\<close>

theorem commit_is_uncredited:
  assumes "ho_control h = Running b t0" "on_probation b h = Some pb" "healthy b h"
  shows "map_option rp_outcome (ho_report (poll_child now h)) = Some ''success''
    \<and> map_option rp_campaign (ho_report (poll_child now h)) = Some None
    \<and> ro_rows (snd (upload_pending_report now' k tr (poll_child now h, r))) = ro_rows r"
proof -
  have e: "poll_child now h = commit now h" using assms by (simp add: poll_child_def)
  have "map_option rp_outcome (ho_report (commit now h)) = Some ''success''"
    "map_option rp_campaign (ho_report (commit now h)) = Some None"
    by (simp_all add: commit_report)
  then show ?thesis using commit_uncredited [of now' k tr now h r] unfolding e by simp
qed

theorem commit_is_uncredited_witness:
  "map cp_state (ro_rows (snd (upload_pending_report 25 ''p'' Acknowledged
     (poll_child 20 (write_health ''b'' 2 probated_host),
      on_db (\<lambda>db. db) \<lparr> ro_db = \<lparr> pd_probes = [], pd_tasks = [], pd_next_task = 1, pd_reports = [] \<rparr>, ro_campaigns = [],
        ro_next = 2, ro_rows = [\<lparr> cp_campaign = 1, cp_probe = ''p'', cp_state = ''dispatched'', cp_attempt = ''t'',
          cp_queued = 0, cp_started = 0, cp_finished = 0, cp_error = [] \<rparr>], ro_sent = [(1, ''p'')] \<rparr>)))) = [''dispatched'']"
proof -
  let ?h = "write_health ''b'' 2 probated_host"
  have r: "ho_control ?h = Running ''b'' 11" by code_simp
  have p: "on_probation ''b'' ?h = Some probated_pb" by code_simp
  have k: "healthy ''b'' ?h" by code_simp
  from commit_is_uncredited [OF r p k] show ?thesis by (simp add: on_db_def)
qed

end
