(* ===== verification/Accounts.thy ===== *)
theory Accounts
  imports Prelude
begin

text \<open>
  User accounts: password records (\<open>core/auth.py\<close>), the tables of users, trusted devices and
  dashboards (\<open>db/users.py\<close>) and of user groups (\<open>db/groups.py\<close>). PBKDF2 is the argument \<open>kdf\<close> of
  the definitions that use it (password, salt, iterations; the result is the hexadecimal text). The
  list of hashed recovery codes stands for its JSON text, \<open>None\<close> for empty or malformed text. Rows a
  query returns in no stated order come in the order of their insertion.
\<close>

section \<open>Password records\<close>

definition PBKDF2_ITERATIONS :: int where "PBKDF2_ITERATIONS = 600000"
definition PBKDF2_LEGACY_ITERATIONS :: int where "PBKDF2_LEGACY_ITERATIONS = 200000"

definition hash_pw :: "(string \<Rightarrow> string \<Rightarrow> int \<Rightarrow> string) \<Rightarrow> string \<Rightarrow> string \<Rightarrow> int \<Rightarrow> string" where
  "hash_pw kdf password salt iters = str_of_int iters @ '':'' @ salt @ '':'' @ kdf password salt iters"

definition verify_pw :: "(string \<Rightarrow> string \<Rightarrow> int \<Rightarrow> string) \<Rightarrow> string \<Rightarrow> string \<Rightarrow> bool" where
  "verify_pw kdf password stored = (case split_on CHR '':'' stored of
       [salt, hex] \<Rightarrow> hex = kdf password salt PBKDF2_LEGACY_ITERATIONS
     | [iters, salt, hex] \<Rightarrow> (case parse_int iters of
          None \<Rightarrow> False
        | Some n \<Rightarrow> 0 < n \<and> hex = kdf password salt n)
     | _ \<Rightarrow> False)"

definition needs_rehash :: "string \<Rightarrow> bool" where
  "needs_rehash stored = (case split_on CHR '':'' stored of
       [salt, hex] \<Rightarrow> True
     | [iters, salt, hex] \<Rightarrow> (case parse_int iters of None \<Rightarrow> False | Some n \<Rightarrow> n < PBKDF2_ITERATIONS)
     | _ \<Rightarrow> False)"

definition strip_domain :: "string \<Rightarrow> string" where
  "strip_domain u =
     (if CHR 0x5C \<in> set u then tl (dropWhile (\<lambda>c. c \<noteq> CHR 0x5C) u)
      else if CHR ''@'' \<in> set u then takeWhile (\<lambda>c. c \<noteq> CHR ''@'') u else u)"

section \<open>Users\<close>

record user =
  us_hash :: string
  us_role :: string
  us_type :: string
  us_domain :: string
  us_full :: string
  us_email :: string
  us_group :: "int option"
  us_external :: "string option"
  us_secret :: string
  us_totp :: bool
  us_recovery :: "string list option"
  us_remember :: "int option"
  us_theme :: string

record trusted =
  td_id :: int
  td_user :: string
  td_hash :: string
  td_label :: string
  td_created :: ts
  td_expires :: ts
  td_last :: ts
  td_ip :: string
  td_ua :: string

record group =
  gr_name :: string
  gr_desc :: string
  gr_ldap :: string
  gr_rattr :: string
  gr_rval :: string
  gr_saml :: string
  gr_oidc :: string
  gr_role :: string

record board =
  bd_id :: int
  bd_user :: string
  bd_name :: string
  bd_order :: int
  bd_widgets :: string

record accounts =
  ac_users :: "(string, user) dict"
  ac_trusted :: "trusted list"
  ac_next_td :: int
  ac_groups :: "(int, group) dict"
  ac_next_group :: int
  ac_boards :: "board list"
  ac_next_board :: int

definition str_or :: "string \<Rightarrow> string \<Rightarrow> string" where
  "str_or s d = (if s = [] then d else s)"

definition new_user :: "string \<Rightarrow> string \<Rightarrow> string \<Rightarrow> user" where
  "new_user hash role type = \<lparr> us_hash = hash, us_role = role, us_type = type, us_domain = [], us_full = [],
     us_email = [], us_group = None, us_external = None, us_secret = [], us_totp = False,
     us_recovery = None, us_remember = Some 9, us_theme = ''dark'' \<rparr>"

text \<open>An insert is refused when the name is taken.\<close>

definition insert_user :: "string \<Rightarrow> user \<Rightarrow> accounts \<Rightarrow> accounts \<times> bool" where
  "insert_user name u a = (case dget (ac_users a) name of
       Some _ \<Rightarrow> (a, False) | None \<Rightarrow> (a\<lparr> ac_users := dput name u (ac_users a) \<rparr>, True))"

definition update_user :: "string \<Rightarrow> (user \<Rightarrow> user) \<Rightarrow> accounts \<Rightarrow> accounts \<times> bool" where
  "update_user name f a = (case dget (ac_users a) name of
       None \<Rightarrow> (a, False) | Some u \<Rightarrow> (a\<lparr> ac_users := dput name (f u) (ac_users a) \<rparr>, True))"

definition db_add_user :: "(string \<Rightarrow> string \<Rightarrow> int \<Rightarrow> string) \<Rightarrow> string \<Rightarrow> string \<Rightarrow> string \<Rightarrow> string \<Rightarrow> accounts
    \<Rightarrow> accounts \<times> bool" where
  "db_add_user kdf salt name password role =
     insert_user name (new_user (hash_pw kdf password salt PBKDF2_ITERATIONS) role ''local'')"

definition db_add_ldap_user :: "string \<Rightarrow> string \<Rightarrow> string \<Rightarrow> string \<Rightarrow> string \<Rightarrow> int option \<Rightarrow> accounts
    \<Rightarrow> accounts \<times> bool" where
  "db_add_ldap_user name domain role full email gid = insert_user name
     ((new_user ''__ldap__'' role ''ldap'')\<lparr> us_domain := domain, us_full := full, us_email := email, us_group := gid \<rparr>)"

definition db_add_radius_user :: "string \<Rightarrow> string \<Rightarrow> string \<Rightarrow> string \<Rightarrow> string \<Rightarrow> int option \<Rightarrow> accounts
    \<Rightarrow> accounts \<times> bool" where
  "db_add_radius_user name domain role full email gid = insert_user name
     ((new_user ''__radius__'' role ''radius'')\<lparr> us_domain := domain, us_full := full, us_email := email, us_group := gid \<rparr>)"

text \<open>\<open>external_id\<close> is unique as well.\<close>

definition db_add_sso_user :: "string \<Rightarrow> string \<Rightarrow> string \<Rightarrow> string \<Rightarrow> string \<Rightarrow> string \<Rightarrow> int option \<Rightarrow> accounts
    \<Rightarrow> accounts \<times> bool" where
  "db_add_sso_user name type external role full email gid a =
     (if type \<notin> {''saml'', ''oidc''} \<or> (\<exists>(n, u) \<in> set (ac_users a). us_external u = Some external) then (a, False)
      else insert_user name ((new_user (if type = ''saml'' then ''__saml__'' else ''__oidc__'') role type)
             \<lparr> us_full := full, us_email := email, us_group := gid, us_external := Some external \<rparr>) a)"

definition db_get_user_by_external_id :: "string \<Rightarrow> accounts \<Rightarrow> (string \<times> user) option" where
  "db_get_user_by_external_id external a =
     (if external = [] then None else find (\<lambda>(n, u). us_external u = Some external) (ac_users a))"

definition db_update_external_id :: "string \<Rightarrow> string \<Rightarrow> accounts \<Rightarrow> accounts \<times> bool" where
  "db_update_external_id name external a =
     (if external \<noteq> [] \<and> (\<exists>(n, u) \<in> set (ac_users a). n \<noteq> name \<and> us_external u = Some external) then (a, False)
      else update_user name (\<lambda>u. u\<lparr> us_external := (if external = [] then None else Some external) \<rparr>) a)"

definition db_delete_user :: "string \<Rightarrow> accounts \<Rightarrow> accounts \<times> bool" where
  "db_delete_user name a = (a\<lparr> ac_boards := filter (\<lambda>b. bd_user b \<noteq> name) (ac_boards a),
       ac_users := ddel name (ac_users a) \<rparr>, dget (ac_users a) name \<noteq> None)"

text \<open>\<open>None\<close> for an argument that was not passed (\<open>_UNSET\<close>).\<close>

definition db_update_profile :: "string \<Rightarrow> string \<Rightarrow> string \<Rightarrow> int option option \<Rightarrow> string option \<Rightarrow> string option
    \<Rightarrow> accounts \<Rightarrow> accounts \<times> bool" where
  "db_update_profile name full email gid role theme = update_user name (\<lambda>u. u\<lparr> us_full := strip full, us_email := strip email,
     us_group := (case gid of Some g \<Rightarrow> g | None \<Rightarrow> us_group u),
     us_role := (case role of Some r \<Rightarrow> r | None \<Rightarrow> us_role u),
     us_theme := (case theme of Some t \<Rightarrow> t | None \<Rightarrow> us_theme u) \<rparr>)"

definition db_update_own_profile :: "string \<Rightarrow> string \<Rightarrow> string \<Rightarrow> accounts \<Rightarrow> accounts \<times> bool" where
  "db_update_own_profile name full email = db_update_profile name full email None None None"

definition db_update_theme :: "string \<Rightarrow> string \<Rightarrow> accounts \<Rightarrow> accounts \<times> bool" where
  "db_update_theme name theme a =
     (if theme \<notin> {''dark'', ''light''} then (a, False) else update_user name (\<lambda>u. u\<lparr> us_theme := theme \<rparr>) a)"

definition db_get_user_auth_type :: "string \<Rightarrow> accounts \<Rightarrow> string" where
  "db_get_user_auth_type name a = (case dget (ac_users a) name of
       None \<Rightarrow> ''local'' | Some u \<Rightarrow> str_or (us_type u) ''local'')"

definition db_set_password :: "(string \<Rightarrow> string \<Rightarrow> int \<Rightarrow> string) \<Rightarrow> string \<Rightarrow> string \<Rightarrow> string \<Rightarrow> accounts \<Rightarrow> accounts" where
  "db_set_password kdf salt name password a =
     fst (update_user name (\<lambda>u. u\<lparr> us_hash := hash_pw kdf password salt PBKDF2_ITERATIONS \<rparr>) a)"

text \<open>A hash below the current cost is replaced after a successful check.\<close>

definition maybe_rehash :: "(string \<Rightarrow> string \<Rightarrow> int \<Rightarrow> string) \<Rightarrow> string \<Rightarrow> string \<Rightarrow> string \<Rightarrow> string \<Rightarrow> accounts
    \<Rightarrow> accounts" where
  "maybe_rehash kdf salt name password stored a =
     (if \<not> needs_rehash stored then a else db_set_password kdf salt name password a)"

definition auth_verify_current :: "(string \<Rightarrow> string \<Rightarrow> int \<Rightarrow> string) \<Rightarrow> string \<Rightarrow> string \<Rightarrow> accounts \<Rightarrow> bool" where
  "auth_verify_current kdf name password a = (case dget (ac_users a) name of
       None \<Rightarrow> False | Some u \<Rightarrow> verify_pw kdf password (us_hash u))"

section \<open>Second factor\<close>

definition db_get_totp :: "string \<Rightarrow> accounts \<Rightarrow> string \<times> bool \<times> string list option" where
  "db_get_totp name a = (case dget (ac_users a) name of
       None \<Rightarrow> ([], False, None) | Some u \<Rightarrow> (us_secret u, us_totp u, us_recovery u))"

definition db_set_totp :: "string \<Rightarrow> string \<Rightarrow> bool \<Rightarrow> string list option \<Rightarrow> accounts \<Rightarrow> accounts" where
  "db_set_totp name secret enabled codes a =
     fst (update_user name (\<lambda>u. u\<lparr> us_secret := secret, us_totp := enabled, us_recovery := codes \<rparr>) a)"

definition db_clear_totp :: "string \<Rightarrow> accounts \<Rightarrow> accounts" where
  "db_clear_totp name = db_set_totp name [] False None"

text \<open>\<open>sha\<close> is the hexadecimal SHA-256 of a text.\<close>

definition totp_consume_recovery :: "(string \<Rightarrow> string) \<Rightarrow> string list option \<Rightarrow> string \<Rightarrow> bool \<times> string list option" where
  "totp_consume_recovery sha stored code = (case stored of
       None \<Rightarrow> (False, stored)
     | Some hs \<Rightarrow>
         (if code = [] then (False, stored)
          else let h = sha (strip code)
               in if h \<in> set hs then (True, Some (remove1 h hs)) else (False, stored)))"

definition totp_generate_recovery_codes :: "(string \<Rightarrow> string) \<Rightarrow> string list \<Rightarrow> string list \<times> string list" where
  "totp_generate_recovery_codes sha plain = (plain, map sha plain)"

section \<open>Trusted devices\<close>

definition db_get_remember_hours :: "string \<Rightarrow> accounts \<Rightarrow> int" where
  "db_get_remember_hours name a = (case dget (ac_users a) name of
       None \<Rightarrow> 9 | Some u \<Rightarrow> max 0 (case us_remember u of None \<Rightarrow> 9 | Some v \<Rightarrow> int_or v 9))"

definition db_set_remember_hours :: "string \<Rightarrow> int \<Rightarrow> accounts \<Rightarrow> accounts" where
  "db_set_remember_hours name hours a =
     fst (update_user name (\<lambda>u. u\<lparr> us_remember := Some (max 0 (min 720 hours)) \<rparr>) a)"

text \<open>The digest of a device is unique, a second row with it is refused.\<close>

definition db_add_trusted_device :: "ts \<Rightarrow> string \<Rightarrow> string \<Rightarrow> string \<Rightarrow> int \<Rightarrow> string \<Rightarrow> string \<Rightarrow> accounts
    \<Rightarrow> accounts" where
  "db_add_trusted_device now name hash label hours ip ua a =
     (if list_ex (\<lambda>t. td_hash t = hash) (ac_trusted a) then a
      else a\<lparr> ac_trusted := ac_trusted a @ [\<lparr> td_id = ac_next_td a, td_user = name, td_hash = hash, td_label = label,
          td_created = now, td_expires = now + of_int hours * 3600, td_last = now, td_ip = ip, td_ua = ua \<rparr>],
        ac_next_td := ac_next_td a + 1 \<rparr>)"

definition db_lookup_trusted_device :: "ts \<Rightarrow> string \<Rightarrow> string \<Rightarrow> accounts \<Rightarrow> trusted option" where
  "db_lookup_trusted_device now name hash a =
     find (\<lambda>t. td_hash t = hash \<and> td_user t = name \<and> td_expires t > now) (ac_trusted a)"

definition db_touch_trusted_device :: "ts \<Rightarrow> int \<Rightarrow> string \<Rightarrow> accounts \<Rightarrow> accounts" where
  "db_touch_trusted_device now i ip a = a\<lparr> ac_trusted :=
     map (\<lambda>t. if td_id t = i then t\<lparr> td_last := now, td_ip := ip \<rparr> else t) (ac_trusted a) \<rparr>"

definition db_list_trusted_devices :: "string \<Rightarrow> accounts \<Rightarrow> trusted list" where
  "db_list_trusted_devices name a =
     rev (sort_key td_created (rev (filter (\<lambda>t. td_user t = name) (ac_trusted a))))"

text \<open>\<open>db_execute\<close> tells whether the statement ran, not whether it found a row.\<close>

definition db_revoke_trusted_device :: "string \<Rightarrow> int \<Rightarrow> accounts \<Rightarrow> accounts \<times> bool" where
  "db_revoke_trusted_device name i a =
     (a\<lparr> ac_trusted := filter (\<lambda>t. \<not> (td_id t = i \<and> td_user t = name)) (ac_trusted a) \<rparr>, True)"

definition db_revoke_trusted_devices :: "string \<Rightarrow> accounts \<Rightarrow> accounts" where
  "db_revoke_trusted_devices name a = a\<lparr> ac_trusted := filter (\<lambda>t. td_user t \<noteq> name) (ac_trusted a) \<rparr>"

definition db_sweep_expired_trusted_devices :: "ts \<Rightarrow> accounts \<Rightarrow> accounts" where
  "db_sweep_expired_trusted_devices now a = a\<lparr> ac_trusted := filter (\<lambda>t. \<not> td_expires t < now) (ac_trusted a) \<rparr>"

section \<open>Dashboards\<close>

definition MAX_DASHBOARDS :: nat where "MAX_DASHBOARDS = 10"

definition db_list_dashboards :: "string \<Rightarrow> accounts \<Rightarrow> (int \<times> string \<times> int) list" where
  "db_list_dashboards name a = map (\<lambda>b. (bd_id b, bd_name b, bd_order b))
     (sort_key bd_order (sort_key bd_id (filter (\<lambda>b. bd_user b = name) (ac_boards a))))"

definition db_get_dashboard :: "string \<Rightarrow> int \<Rightarrow> accounts \<Rightarrow> board option" where
  "db_get_dashboard name i a = find (\<lambda>b. bd_id b = i \<and> bd_user b = name) (ac_boards a)"

text \<open>
  A user's dashboards have different names. A second one of a name is an error of the database, which
  creation passes on (\<open>Inl ()\<close>) and renaming reports as \<open>False\<close>; \<open>Inr None\<close> is the limit.
\<close>

definition board_taken :: "string \<Rightarrow> string \<Rightarrow> accounts \<Rightarrow> bool" where
  "board_taken name title a \<longleftrightarrow> list_ex (\<lambda>b. bd_user b = name \<and> bd_name b = title) (ac_boards a)"

definition db_create_dashboard :: "string \<Rightarrow> string \<Rightarrow> string \<Rightarrow> accounts \<Rightarrow> accounts \<times> (unit + int option)" where
  "db_create_dashboard name title widgets a =
     (let mine = filter (\<lambda>b. bd_user b = name) (ac_boards a); i = ac_next_board a;
          nxt = (if mine = [] then 1 else Max (set (map bd_order mine)) + 1)
      in if MAX_DASHBOARDS \<le> length mine then (a, Inr None)
         else if board_taken name title a then (a, Inl ())
         else (a\<lparr> ac_boards := ac_boards a @ [\<lparr> bd_id = i, bd_user = name, bd_name = title, bd_order = nxt,
                    bd_widgets = widgets \<rparr>], ac_next_board := i + 1 \<rparr>, Inr (Some i)))"

definition change_board :: "string \<Rightarrow> int \<Rightarrow> (board \<Rightarrow> board) \<Rightarrow> accounts \<Rightarrow> accounts" where
  "change_board name i f a = a\<lparr> ac_boards :=
     map (\<lambda>b. if bd_id b = i \<and> bd_user b = name then f b else b) (ac_boards a) \<rparr>"

definition db_rename_dashboard :: "string \<Rightarrow> int \<Rightarrow> string \<Rightarrow> accounts \<Rightarrow> accounts \<times> bool" where
  "db_rename_dashboard name i title a =
     (if db_get_dashboard name i a \<noteq> None
           \<and> list_ex (\<lambda>b. bd_user b = name \<and> bd_name b = title \<and> bd_id b \<noteq> i) (ac_boards a)
      then (a, False) else (change_board name i (\<lambda>b. b\<lparr> bd_name := title \<rparr>) a, True))"

definition db_save_dashboard :: "string \<Rightarrow> int \<Rightarrow> string \<Rightarrow> accounts \<Rightarrow> accounts" where
  "db_save_dashboard name i widgets = change_board name i (\<lambda>b. b\<lparr> bd_widgets := widgets \<rparr>)"

definition db_delete_dashboard :: "string \<Rightarrow> int \<Rightarrow> accounts \<Rightarrow> accounts" where
  "db_delete_dashboard name i a =
     a\<lparr> ac_boards := filter (\<lambda>b. \<not> (bd_id b = i \<and> bd_user b = name)) (ac_boards a) \<rparr>"

definition db_reorder_dashboards :: "string \<Rightarrow> int list \<Rightarrow> accounts \<Rightarrow> accounts" where
  "db_reorder_dashboards name ids a =
     fold (\<lambda>(k, i). change_board name i (\<lambda>b. b\<lparr> bd_order := int k \<rparr>)) (zip [0..<length ids] ids) a"

section \<open>Groups\<close>

definition name_taken :: "string \<Rightarrow> int option \<Rightarrow> accounts \<Rightarrow> bool" where
  "name_taken n self a \<longleftrightarrow> list_ex (\<lambda>(i, g). gr_name g = n \<and> Some i \<noteq> self) (ac_groups a)"

definition db_create_group :: "group \<Rightarrow> accounts \<Rightarrow> accounts \<times> int" where
  "db_create_group g a =
     (let n = strip (gr_name g); i = ac_next_group a
      in if name_taken n None a then (a, - 2)
         else (a\<lparr> ac_groups := dput i \<lparr> gr_name = n, gr_desc = strip (gr_desc g), gr_ldap = strip (gr_ldap g),
                    gr_rattr = strip (gr_rattr g), gr_rval = strip (gr_rval g), gr_saml = strip (gr_saml g),
                    gr_oidc = strip (gr_oidc g), gr_role = gr_role g \<rparr> (ac_groups a),
                  ac_next_group := i + 1 \<rparr>, i))"

definition db_update_group :: "int \<Rightarrow> string \<Rightarrow> string \<Rightarrow> string option \<Rightarrow> string option \<Rightarrow> string option
    \<Rightarrow> string option \<Rightarrow> string option \<Rightarrow> accounts \<Rightarrow> accounts \<times> bool" where
  "db_update_group i name desc role rattr rval saml oidc a = (case dget (ac_groups a) i of
       None \<Rightarrow> (a, False)
     | Some g \<Rightarrow>
         (let n = strip name; opt = (\<lambda>v old. case v of Some s \<Rightarrow> strip s | None \<Rightarrow> old)
          in if name_taken n (Some i) a then (a, False)
             else (a\<lparr> ac_groups := dput i (g\<lparr> gr_name := n, gr_desc := strip desc,
                      gr_role := (case role of Some r \<Rightarrow> r | None \<Rightarrow> gr_role g), gr_rattr := opt rattr (gr_rattr g),
                      gr_rval := opt rval (gr_rval g), gr_saml := opt saml (gr_saml g),
                      gr_oidc := opt oidc (gr_oidc g) \<rparr>) (ac_groups a) \<rparr>, True)))"

definition all_users :: "(string \<Rightarrow> user \<Rightarrow> user) \<Rightarrow> accounts \<Rightarrow> accounts" where
  "all_users f a = a\<lparr> ac_users := map (\<lambda>(n, u). (n, f n u)) (ac_users a) \<rparr>"

definition leave_group :: "int \<Rightarrow> accounts \<Rightarrow> accounts" where
  "leave_group i = all_users (\<lambda>n u. if us_group u = Some i then u\<lparr> us_group := None \<rparr> else u)"

definition db_delete_group :: "int \<Rightarrow> accounts \<Rightarrow> accounts \<times> bool" where
  "db_delete_group i a = (case dget (ac_groups a) i of
       None \<Rightarrow> (a, False)
     | Some g \<Rightarrow> (let a1 = leave_group i a in (a1\<lparr> ac_groups := ddel i (ac_groups a1) \<rparr>, True)))"

definition db_update_group_members :: "int \<Rightarrow> string list \<Rightarrow> accounts \<Rightarrow> accounts \<times> bool" where
  "db_update_group_members i names a = (case dget (ac_groups a) i of
       None \<Rightarrow> (a, False)
     | Some g \<Rightarrow> (all_users (\<lambda>n u. if n \<in> set names then u\<lparr> us_group := Some i \<rparr> else u) (leave_group i a), True))"

definition db_resolve_group_emails :: "int \<Rightarrow> accounts \<Rightarrow> string list" where
  "db_resolve_group_emails i a =
     map (\<lambda>(n, u). us_email u) (filter (\<lambda>(n, u). us_group u = Some i \<and> us_email u \<noteq> []) (ac_users a))"

definition db_get_ldap_mapped_groups :: "accounts \<Rightarrow> (int \<times> group) list" where
  "db_get_ldap_mapped_groups a = map (\<lambda>(i, g). (i, g\<lparr> gr_role := str_or (gr_role g) ''viewer'' \<rparr>))
     (filter (\<lambda>(i, g). gr_ldap g \<noteq> []) (ac_groups a))"

definition db_get_radius_mapped_groups :: "accounts \<Rightarrow> (int \<times> group) list" where
  "db_get_radius_mapped_groups a = map (\<lambda>(i, g). (i, g\<lparr> gr_role := str_or (gr_role g) ''viewer'' \<rparr>))
     (filter (\<lambda>(i, g). gr_rattr g \<noteq> []) (ac_groups a))"

definition db_find_group_by_radius :: "string \<Rightarrow> string \<Rightarrow> accounts \<Rightarrow> (int \<times> group) option" where
  "db_find_group_by_radius attr val a =
     (if attr = [] \<or> val = [] then None
      else map_option (\<lambda>(i, g). (i, g\<lparr> gr_role := str_or (gr_role g) ''viewer'' \<rparr>))
             (find (\<lambda>(i, g). gr_rattr g = attr \<and> gr_rval g = val) (ac_groups a)))"

section \<open>Laws\<close>

lemma is_digit_no_colon: "list_all is_digit s \<Longrightarrow> CHR '':'' \<notin> set s"
  by (auto simp: list_all_iff is_digit_def)

lemma str_of_int_no_colon: "CHR '':'' \<notin> set (str_of_int n)"
  using is_digit_no_colon [OF str_of_nat_digits] by (auto simp: str_of_int_def)

lemma verify_hash:
  assumes "CHR '':'' \<notin> set salt" "CHR '':'' \<notin> set (kdf p salt n)" "0 < n"
  shows "verify_pw kdf q (hash_pw kdf p salt n) \<longleftrightarrow> kdf p salt n = kdf q salt n"
  using assms str_of_int_no_colon [of n]
  by (simp add: verify_pw_def hash_pw_def split_on_append split_on_id parse_int_str_of_int)

lemma hash_is_current:
  "CHR '':'' \<notin> set salt \<Longrightarrow> CHR '':'' \<notin> set (kdf p salt PBKDF2_ITERATIONS)
     \<Longrightarrow> \<not> needs_rehash (hash_pw kdf p salt PBKDF2_ITERATIONS)"
  using str_of_int_no_colon [of PBKDF2_ITERATIONS]
  by (simp add: needs_rehash_def hash_pw_def split_on_append split_on_id parse_int_str_of_int)

lemma update_user_get:
  "dget (ac_users (fst (update_user n f a))) k =
     (if k = n then map_option f (dget (ac_users a) n) else dget (ac_users a) k)"
  by (cases "dget (ac_users a) n") (simp_all add: update_user_def dict_simps)

lemma insert_user_get:
  "dget (ac_users (fst (insert_user n u a))) k =
     (if k = n \<and> dget (ac_users a) n = None then Some u else dget (ac_users a) k)"
  by (cases "dget (ac_users a) n") (auto simp: insert_user_def dict_simps)

lemma map_of_all: "map_of (map (\<lambda>(n, u). (n, f n u)) m) k = map_option (f k) (map_of m k)"
  by (induction m) auto

lemma all_users_get: "dget (ac_users (all_users f a)) k = map_option (f k) (dget (ac_users a) k)"
  by (simp add: all_users_def map_of_all)

text \<open>A recovery code works once.\<close>

lemma recovery_once:
  "totp_consume_recovery sha (Some hs) code = (True, rest) \<Longrightarrow> distinct hs
     \<Longrightarrow> fst (totp_consume_recovery sha rest code) = False"
  by (auto simp: totp_consume_recovery_def Let_def split: if_splits)

end
