(* ===== verification/Sessions.thy ===== *)
theory Sessions
  imports Accounts
begin

text \<open>
  Sessions, API tokens and second-factor challenges (\<open>core/auth.py\<close>, \<open>db/api_tokens.py\<close>). The
  session cache \<open>_SESSIONS\<close> and the token cache \<open>_API_TOKENS\<close> live in memory beside their tables, so
  both are fields of \<open>auth\<close>; random tokens are arguments. A lookup in a table and the filling of the
  cache are separate steps of the code with no lock held across them: \<open>session_lookup\<close> and
  \<open>session_fill\<close>, \<open>token_lookup\<close> and \<open>token_fill\<close>.
\<close>

section \<open>State\<close>

record session =
  se_user :: string
  se_expires :: ts
  se_role :: string

record session_row =
  sr_token :: string                   \<comment> \<open>the hash of the token\<close>
  sr_user :: string
  sr_expires :: ts
  sr_ip :: string
  sr_ua :: string
  sr_label :: string
  sr_created :: ts
  sr_active :: ts

record api_token =
  at_id :: int
  at_hash :: string
  at_name :: string
  at_user :: string
  at_scope :: string
  at_created :: ts
  at_expires :: "ts option"
  at_last :: "ts option"
  at_revoked :: "ts option"
  at_probe :: "string option"

record token_entry =
  te_user :: string
  te_role :: string
  te_scope :: string
  te_id :: int
  te_probe :: "string option"
  te_expires :: "ts option"
  te_hash :: string
  te_cached :: ts

record challenge =
  ch_user :: string
  ch_role :: string
  ch_expires :: ts

record radius_pending =                \<comment> \<open>\<open>_CHALLENGES\<close> of \<open>core/radius_auth.py\<close>\<close>
  rp_user :: string
  rp_name :: string
  rp_state :: "string option"
  rp_created :: ts
  rp_server :: nat

record auth =
  au_acc :: accounts
  au_sessions :: "(string, session) dict"
  au_rows :: "session_row list"
  au_tokens :: "api_token list"
  au_next_token :: int
  au_cache :: "(string, token_entry) dict"
  au_challenges :: "(string, challenge) dict"
  au_pending :: "(string, radius_pending) dict"
  au_ctx :: "(string, string \<times> ts) dict"        \<comment> \<open>\<open>_RADIUS_LOGIN_CTX\<close>\<close>
  au_fails :: "(string, ts list) dict"          \<comment> \<open>\<open>_FAIL_LOG\<close>\<close>
  au_resets :: "(string, ts) dict"              \<comment> \<open>\<open>_PW_RESET_LOG\<close>\<close>

definition on_acc :: "(accounts \<Rightarrow> accounts) \<Rightarrow> auth \<Rightarrow> auth" where
  "on_acc f a = a\<lparr> au_acc := f (au_acc a) \<rparr>"

section \<open>Sessions\<close>

text \<open>The digest of the token is the key of its table: an insert of one that is taken undoes the transaction.\<close>

definition create_session :: "(string \<Rightarrow> string) \<Rightarrow> real \<Rightarrow> ts \<Rightarrow> string \<Rightarrow> string \<Rightarrow> string \<Rightarrow> string \<Rightarrow> string
    \<Rightarrow> string \<Rightarrow> auth \<Rightarrow> auth" where
  "create_session sha ttl now token clean role ip ua label a = a\<lparr>
     au_sessions := dput token \<lparr> se_user = clean, se_expires = now + ttl, se_role = role \<rparr> (au_sessions a),
     au_rows := (let others = filter (\<lambda>r. sr_user r \<noteq> clean) (au_rows a)
       in if list_ex (\<lambda>r. sr_token r = sha token) others then au_rows a
          else filter (\<lambda>r. \<not> sr_expires r < now) (others
            @ [\<lparr> sr_token = sha token, sr_user = clean, sr_expires = now + ttl, sr_ip = take 64 ip, sr_ua = take 512 ua,
                 sr_label = take 128 label, sr_created = now, sr_active = now \<rparr>])) \<rparr>"

definition auth_logout :: "(string \<Rightarrow> string) \<Rightarrow> string \<Rightarrow> auth \<Rightarrow> auth" where
  "auth_logout sha token a = a\<lparr> au_sessions := ddel token (au_sessions a),
     au_rows := filter (\<lambda>r. sr_token r \<noteq> sha token) (au_rows a) \<rparr>"

definition session_lookup :: "ts \<Rightarrow> string \<Rightarrow> auth \<Rightarrow> session option" where
  "session_lookup now h a =
     Option.bind (find (\<lambda>r. sr_token r = h \<and> sr_expires r > now \<and> dget (ac_users (au_acc a)) (sr_user r) \<noteq> None) (au_rows a))
       (\<lambda>r. map_option (\<lambda>u. \<lparr> se_user = sr_user r, se_expires = sr_expires r, se_role = str_or (us_role u) ''viewer'' \<rparr>)
              (dget (ac_users (au_acc a)) (sr_user r)))"

definition session_fill :: "string \<Rightarrow> session \<Rightarrow> auth \<Rightarrow> auth" where
  "session_fill token s a = a\<lparr> au_sessions := dput token s (au_sessions a) \<rparr>"

definition auth_check :: "(string \<Rightarrow> string) \<Rightarrow> real \<Rightarrow> ts \<Rightarrow> string \<Rightarrow> auth \<Rightarrow> auth \<times> string option" where
  "auth_check sha ttl now token a =
     (if token = [] then (a, None)
      else case dget (au_sessions a) token of
        Some s \<Rightarrow> (if se_expires s < now then (auth_logout sha token a, None)
                   else (session_fill token (s\<lparr> se_expires := now + ttl \<rparr>) a, Some (se_user s)))
      | None \<Rightarrow> (case session_lookup now (sha token) a of
                   Some s \<Rightarrow> (session_fill token s a, Some (se_user s))
                 | None \<Rightarrow> (a, None)))"

definition auth_check_role :: "ts \<Rightarrow> string \<Rightarrow> auth \<Rightarrow> string option" where
  "auth_check_role now token a =
     (if token = [] then None
      else case dget (au_sessions a) token of
        None \<Rightarrow> None
      | Some s \<Rightarrow> if se_expires s < now then None else Some (se_role s))"

definition auth_list_user_sessions :: "ts \<Rightarrow> string \<Rightarrow> auth \<Rightarrow> session_row list" where
  "auth_list_user_sessions now name a =
     rev (sort_key sr_active (rev (filter (\<lambda>r. sr_user r = name \<and> sr_expires r > now) (au_rows a))))"

definition drop_sessions :: "(string \<Rightarrow> session \<Rightarrow> bool) \<Rightarrow> auth \<Rightarrow> auth" where
  "drop_sessions P a = a\<lparr> au_sessions := filter (\<lambda>(k, s). \<not> P k s) (au_sessions a) \<rparr>"

definition auth_revoke_session_by_id :: "(string \<Rightarrow> string) \<Rightarrow> string \<Rightarrow> string \<Rightarrow> auth \<Rightarrow> auth \<times> bool" where
  "auth_revoke_session_by_id sha name i a =
     ((drop_sessions (\<lambda>k s. sha k = i \<and> se_user s = name) a)
        \<lparr> au_rows := filter (\<lambda>r. \<not> (sr_token r = i \<and> sr_user r = name)) (au_rows a) \<rparr>,
      list_ex (\<lambda>r. sr_token r = i \<and> sr_user r = name) (au_rows a))"

definition auth_revoke_other_user_sessions :: "(string \<Rightarrow> string) \<Rightarrow> string \<Rightarrow> string \<Rightarrow> auth \<Rightarrow> auth \<times> nat" where
  "auth_revoke_other_user_sessions sha name current a =
     (let keep = (if current = [] then [] else sha current)
      in ((drop_sessions (\<lambda>k s. se_user s = name \<and> sha k \<noteq> keep) a)
            \<lparr> au_rows := filter (\<lambda>r. \<not> (sr_user r = name \<and> sr_token r \<noteq> keep)) (au_rows a) \<rparr>,
          length (filter (\<lambda>r. sr_user r = name \<and> sr_token r \<noteq> keep) (au_rows a))))"

definition auth_revoke_user_sessions :: "string \<Rightarrow> auth \<Rightarrow> auth" where
  "auth_revoke_user_sessions name a = (drop_sessions (\<lambda>k s. se_user s = name) a)
     \<lparr> au_rows := filter (\<lambda>r. sr_user r \<noteq> name) (au_rows a) \<rparr>"

text \<open>A restart empties what lives in memory.\<close>

definition restart_server :: "auth \<Rightarrow> auth" where
  "restart_server a = a\<lparr> au_sessions := [], au_cache := [], au_challenges := [], au_pending := [], au_ctx := [],
     au_fails := [], au_resets := [] \<rparr>"

section \<open>API tokens\<close>

definition API_TOKEN_CACHE_TTL :: real where "API_TOKEN_CACHE_TTL = 300"

definition db_create_api_token :: "ts \<Rightarrow> string \<Rightarrow> string \<Rightarrow> string \<Rightarrow> string \<Rightarrow> ts option \<Rightarrow> string option \<Rightarrow> auth
    \<Rightarrow> auth \<times> int option" where
  "db_create_api_token now h name user scope expires probe a =
     (if scope \<notin> {''read'', ''full'', ''probe''} \<or> list_ex (\<lambda>t. at_hash t = h) (au_tokens a) then (a, None)
      else let i = au_next_token a
           in (a\<lparr> au_tokens := au_tokens a @ [\<lparr> at_id = i, at_hash = h, at_name = name, at_user = user, at_scope = scope,
                    at_created = now, at_expires = expires, at_last = None, at_revoked = None, at_probe = probe \<rparr>],
                  au_next_token := i + 1 \<rparr>, Some i))"

definition past :: "ts option \<Rightarrow> ts \<Rightarrow> bool" where
  "past e now = (case e of None \<Rightarrow> False | Some t \<Rightarrow> t < now)"

text \<open>The row with the role of its owner, empty when there is no such user.\<close>

definition db_get_api_token_by_hash :: "ts \<Rightarrow> string \<Rightarrow> auth \<Rightarrow> (api_token \<times> string) option" where
  "db_get_api_token_by_hash now h a = (case find (\<lambda>t. at_hash t = h) (au_tokens a) of
       None \<Rightarrow> None
     | Some t \<Rightarrow>
         (if at_revoked t \<noteq> None \<or> past (at_expires t) now then None
          else Some (t, case dget (ac_users (au_acc a)) (at_user t) of Some u \<Rightarrow> us_role u | None \<Rightarrow> [])))"

definition db_list_api_tokens :: "string option \<Rightarrow> bool \<Rightarrow> auth \<Rightarrow> api_token list" where
  "db_list_api_tokens user include_revoked a = rev (sort_key at_created (rev (filter (\<lambda>t.
     (case user of None \<Rightarrow> True | Some n \<Rightarrow> n = [] \<or> at_user t = n) \<and> (include_revoked \<or> at_revoked t = None)) (au_tokens a))))"

definition db_get_api_token :: "int \<Rightarrow> auth \<Rightarrow> api_token option" where
  "db_get_api_token i a = find (\<lambda>t. at_id t = i) (au_tokens a)"

definition change_token :: "int \<Rightarrow> (api_token \<Rightarrow> api_token) \<Rightarrow> auth \<Rightarrow> auth" where
  "change_token i f a = a\<lparr> au_tokens := map (\<lambda>t. if at_id t = i then f t else t) (au_tokens a) \<rparr>"

definition db_revoke_api_token :: "ts \<Rightarrow> int \<Rightarrow> auth \<Rightarrow> auth \<times> string option" where
  "db_revoke_api_token now i a = (case db_get_api_token i a of
       None \<Rightarrow> (a, None)
     | Some t \<Rightarrow> if at_revoked t \<noteq> None then (a, None)
                 else (change_token i (\<lambda>t. t\<lparr> at_revoked := Some now \<rparr>) a, Some (at_hash t)))"

definition db_touch_api_token_last_used :: "ts \<Rightarrow> int \<Rightarrow> auth \<Rightarrow> auth" where
  "db_touch_api_token_last_used now i = change_token i (\<lambda>t. t\<lparr> at_last := Some now \<rparr>)"

definition token_lookup :: "(string \<Rightarrow> string) \<Rightarrow> ts \<Rightarrow> string \<Rightarrow> auth \<Rightarrow> token_entry option" where
  "token_lookup sha now token a = map_option (\<lambda>(t, role).
     \<lparr> te_user = at_user t, te_role = (if at_scope t = ''probe'' then role else str_or role ''viewer''),
       te_scope = at_scope t, te_id = at_id t, te_probe = at_probe t, te_expires = at_expires t,
       te_hash = sha token, te_cached = now \<rparr>) (db_get_api_token_by_hash now (sha token) a)"

text \<open>After the lookup: the cache is filled or cleared, and the use is recorded.\<close>

definition token_fill :: "ts \<Rightarrow> string \<Rightarrow> token_entry option \<Rightarrow> auth \<Rightarrow> auth \<times> token_entry option" where
  "token_fill now token e a = (case e of
       None \<Rightarrow> (a\<lparr> au_cache := ddel token (au_cache a) \<rparr>, None)
     | Some te \<Rightarrow> (db_touch_api_token_last_used now (te_id te) (a\<lparr> au_cache := dput token te (au_cache a) \<rparr>), Some te))"

text \<open>The answer from the cache, \<open>None\<close> when the table has to be asked.\<close>

definition token_cached :: "ts \<Rightarrow> string \<Rightarrow> auth \<Rightarrow> (auth \<times> token_entry option) option" where
  "token_cached now token a = (case dget (au_cache a) token of
       None \<Rightarrow> None
     | Some c \<Rightarrow> if now - te_cached c < API_TOKEN_CACHE_TTL
                 then Some (if past (te_expires c) now then (a\<lparr> au_cache := ddel token (au_cache a) \<rparr>, None) else (a, Some c))
                 else None)"

definition auth_check_api_token :: "(string \<Rightarrow> string) \<Rightarrow> ts \<Rightarrow> string \<Rightarrow> auth \<Rightarrow> auth \<times> token_entry option" where
  "auth_check_api_token sha now token a =
     (if \<not> startswith ''pw_'' token then (a, None)
      else case token_cached now token a of
        Some r \<Rightarrow> r
      | None \<Rightarrow> token_fill now token (token_lookup sha now token a) a)"

definition auth_evict_api_token_hash :: "string \<Rightarrow> auth \<Rightarrow> auth" where
  "auth_evict_api_token_hash h a =
     (if h = [] then a else a\<lparr> au_cache := filter (\<lambda>(k, e). te_hash e \<noteq> h) (au_cache a) \<rparr>)"

text \<open>\<open>DELETE /api/tokens/<id>\<close>, after the permission check.\<close>

definition revoke_token :: "ts \<Rightarrow> int \<Rightarrow> auth \<Rightarrow> auth \<times> nat" where
  "revoke_token now i a = (case db_get_api_token i a of
       None \<Rightarrow> (a, 404)
     | Some t \<Rightarrow>
         (if at_revoked t \<noteq> None then (a, 409)
          else case db_revoke_api_token now i a of
                 (a1, None) \<Rightarrow> (a1, 500)
               | (a1, Some h) \<Rightarrow> if h = [] then (a1, 500) else (auth_evict_api_token_hash h a1, 200)))"

section \<open>Second-factor challenges\<close>

definition TOTP_CHALLENGE_TTL :: real where "TOTP_CHALLENGE_TTL = 300"

definition totp_create_challenge :: "ts \<Rightarrow> string \<Rightarrow> string \<Rightarrow> string \<Rightarrow> auth \<Rightarrow> auth" where
  "totp_create_challenge now cid name role a = a\<lparr> au_challenges :=
     dput cid \<lparr> ch_user = name, ch_role = role, ch_expires = now + TOTP_CHALLENGE_TTL \<rparr>
       (filter (\<lambda>(k, c). \<not> ch_expires c < now) (au_challenges a)) \<rparr>"

definition totp_resolve_challenge :: "ts \<Rightarrow> string \<Rightarrow> auth \<Rightarrow> (string \<times> string) option" where
  "totp_resolve_challenge now cid a = (case dget (au_challenges a) cid of
       None \<Rightarrow> None | Some c \<Rightarrow> if ch_expires c < now then None else Some (ch_user c, ch_role c))"

definition totp_consume_challenge :: "string \<Rightarrow> auth \<Rightarrow> auth" where
  "totp_consume_challenge cid a = a\<lparr> au_challenges := ddel cid (au_challenges a) \<rparr>"
end
