(* ===== verification/Radius.thy ===== *)
theory Radius
  imports Sessions
begin

text \<open>
  RADIUS logins (\<open>core/radius_auth.py\<close> and the RADIUS part of \<open>core/auth.py\<close>). The exchange of a
  packet with a server (the package \<open>pyrad\<close>) is the argument \<open>send\<close>: the number of the server, the
  name, the password or answer, the state to return, and the reply.
\<close>

section \<open>The client\<close>

datatype radius_reply =
    RAccept "(string \<times> string list) list" | RReject | RChallenge "string option" string | RError

type_synonym radius_send = "nat \<Rightarrow> string \<Rightarrow> string \<Rightarrow> string option \<Rightarrow> radius_reply"

record radius_cfg =
  rc_server :: string
  rc_secret :: string
  rc_server2 :: string
  rc_secret2 :: string
  rc_prefix :: string
  rc_suffix :: string

datatype radius_result = Denied | Accepted "(string \<times> string list) list" | Challenged string string

definition CHALLENGE_TTL :: real where "CHALLENGE_TTL = 120"

definition iter_servers :: "radius_cfg \<Rightarrow> (nat \<times> string) list" where
  "iter_servers c = (if rc_server c \<noteq> [] then [(0, rc_secret c)] else [])
     @ (if rc_server2 c \<noteq> [] then [(1, rc_secret2 c)] else [])"

text \<open>The first server that answers; a server without a secret or with a network error is passed over.\<close>

fun first_answer :: "radius_send \<Rightarrow> string \<Rightarrow> string \<Rightarrow> (nat \<times> string) list \<Rightarrow> (nat \<times> radius_reply) option" where
  "first_answer send name pw [] = None"
| "first_answer send name pw ((i, secret) # ss) =
     (if secret = [] then first_answer send name pw ss
      else case send i name pw None of
             RError \<Rightarrow> first_answer send name pw ss
           | r \<Rightarrow> Some (i, r))"

definition prune_challenges :: "ts \<Rightarrow> auth \<Rightarrow> auth" where
  "prune_challenges now a = a\<lparr> au_pending := filter (\<lambda>(k, c). \<not> now - rp_created c > CHALLENGE_TTL) (au_pending a) \<rparr>"

definition radius_authenticate :: "radius_cfg \<Rightarrow> radius_send \<Rightarrow> ts \<Rightarrow> string \<Rightarrow> string \<Rightarrow> string \<Rightarrow> auth
    \<Rightarrow> auth \<times> radius_result" where
  "radius_authenticate c send now cid name pw a =
     (if name = [] \<or> rc_server c = [] then (a, Denied)
      else let send_name = rc_prefix c @ name @ rc_suffix c
           in case first_answer send send_name pw (iter_servers c) of
                Some (i, RAccept attrs) \<Rightarrow> (a, Accepted attrs)
              | Some (i, RChallenge st prompt) \<Rightarrow>
                  (let a1 = prune_challenges now a
                   in (a1\<lparr> au_pending := dput cid \<lparr> rp_user = name, rp_name = send_name, rp_state = st,
                             rp_created = now, rp_server = i \<rparr> (au_pending a1) \<rparr>, Challenged cid prompt))
              | _ \<Rightarrow> (a, Denied))"

text \<open>The answer goes to the server that asked; its entry is consumed.\<close>

definition radius_continue_challenge :: "radius_cfg \<Rightarrow> radius_send \<Rightarrow> ts \<Rightarrow> string \<Rightarrow> string \<Rightarrow> string \<Rightarrow> auth
    \<Rightarrow> auth \<times> radius_result" where
  "radius_continue_challenge c send now cid' cid response a =
     (if cid = [] then (a, Denied)
      else let a1 = prune_challenges now a
           in case dget (au_pending a1) cid of
                None \<Rightarrow> (a1, Denied)
              | Some ch \<Rightarrow>
                  (let a2 = a1\<lparr> au_pending := ddel cid (au_pending a1) \<rparr>
                   in if rp_server ch \<notin> fst ` set (iter_servers c) then (a2, Denied)
                      else case send (rp_server ch) (rp_name ch) response (rp_state ch) of
                             RAccept attrs \<Rightarrow> (a2, Accepted attrs)
                           | RChallenge st prompt \<Rightarrow>
                               (let a3 = prune_challenges now a2
                                in (a3\<lparr> au_pending := dput cid' (ch\<lparr> rp_state := st, rp_created := now \<rparr>)
                                          (au_pending a3) \<rparr>, Challenged cid' prompt))
                           | RReject \<Rightarrow> (a2, Denied)
                           | RError \<Rightarrow> (a2, Denied)))"

section \<open>Roles\<close>

definition radius_resolve_role :: "int \<Rightarrow> string \<Rightarrow> (string \<times> string list) list \<Rightarrow> accounts \<Rightarrow> int option \<times> string" where
  "radius_resolve_role default_gid default_role attrs acc =
     (let mapped = db_get_radius_mapped_groups acc;
          hits = concat (map (\<lambda>(n, vs). concat (map (\<lambda>v.
                   filter (\<lambda>(i, g). gr_rattr g = n \<and> gr_rval g = v) mapped) vs)) attrs)
      in case hits of
           (i, g) # _ \<Rightarrow> (Some i, gr_role g)
         | [] \<Rightarrow> (case (if default_gid \<noteq> 0 then dget (ac_groups acc) default_gid else None) of
                   Some g \<Rightarrow> (Some default_gid, str_or (gr_role g) ''viewer'')
                 | None \<Rightarrow> (None, str_or default_role ''viewer'')))"

text \<open>Type, role and group of a row.\<close>

definition radius_lookup_user :: "string \<Rightarrow> accounts \<Rightarrow> (string \<times> string \<times> int option) option" where
  "radius_lookup_user name acc = map_option (\<lambda>u. (str_or (us_type u) ''local'', str_or (us_role u) ''viewer'', us_group u))
     (dget (ac_users acc) name)"

definition radius_update_user :: "string \<Rightarrow> string \<Rightarrow> int option \<Rightarrow> accounts \<Rightarrow> accounts" where
  "radius_update_user name role gid =
     fst \<circ> update_user name (\<lambda>u. if us_type u = ''radius'' then u\<lparr> us_role := role, us_group := gid \<rparr> else u)"

section \<open>Logins\<close>

record radius_env =
  re_cfg :: radius_cfg
  re_send :: radius_send
  re_provision :: bool
  re_default_gid :: int
  re_default_role :: string
  re_sha :: "string \<Rightarrow> string"
  re_ttl :: real

datatype radius_login = RLAccept string string string bool | RLChallenge string string | RLReject

text \<open>
  \<open>_radius_post_auth\<close> after its first look at the table, whose result is \<open>existing\<close>: another request
  may have inserted a row of that name in between.
\<close>

definition radius_finish :: "radius_env \<Rightarrow> ts \<Rightarrow> string \<Rightarrow> string \<Rightarrow> (string \<times> string \<times> int option) option
    \<Rightarrow> int option \<Rightarrow> string \<Rightarrow> bool \<Rightarrow> auth \<Rightarrow> auth \<times> radius_login" where
  "radius_finish x now token clean existing gid role used a =
     (let issue = (\<lambda>b. (create_session (re_sha x) (re_ttl x) now token clean role [] [] [] b,
                         RLAccept clean role token used))
      in case existing of
           None \<Rightarrow>
             (if \<not> re_provision x then (a, RLReject)
              else case db_add_radius_user clean [] role [] [] gid (au_acc a) of
                     (acc, True) \<Rightarrow> issue (a\<lparr> au_acc := acc \<rparr>)
                   | (acc, False) \<Rightarrow> (case radius_lookup_user clean acc of
                                        None \<Rightarrow> (a, RLReject) | Some _ \<Rightarrow> issue a))
         | Some (type, r, g) \<Rightarrow>
             (if type \<noteq> ''radius'' then (a, RLReject)
              else issue (if r \<noteq> role \<or> g \<noteq> gid then on_acc (radius_update_user clean role gid) a else a)))"

definition radius_post_auth :: "radius_env \<Rightarrow> ts \<Rightarrow> string \<Rightarrow> string \<Rightarrow> (string \<times> string list) list \<Rightarrow> bool \<Rightarrow> auth
    \<Rightarrow> auth \<times> radius_login" where
  "radius_post_auth x now token clean attrs used a =
     (let (gid, role) = radius_resolve_role (re_default_gid x) (re_default_role x) attrs (au_acc a)
      in radius_finish x now token clean (radius_lookup_user clean (au_acc a)) gid role used a)"

definition RADIUS_CTX_TTL :: real where "RADIUS_CTX_TTL = 120"

definition prune_ctx :: "ts \<Rightarrow> auth \<Rightarrow> auth" where
  "prune_ctx now a = a\<lparr> au_ctx := filter (\<lambda>(k, (u, t)). \<not> now - t > RADIUS_CTX_TTL) (au_ctx a) \<rparr>"

definition radius_login_phase1 :: "radius_env \<Rightarrow> ts \<Rightarrow> string \<Rightarrow> string \<Rightarrow> string \<Rightarrow> string \<Rightarrow> auth
    \<Rightarrow> auth \<times> radius_login" where
  "radius_login_phase1 x now token cid username pw a =
     (let clean = strip_domain username
      in case radius_authenticate (re_cfg x) (re_send x) now cid clean pw a of
           (a1, Denied) \<Rightarrow> (a1, RLReject)
         | (a1, Accepted attrs) \<Rightarrow> radius_post_auth x now token clean attrs False a1
         | (a1, Challenged i prompt) \<Rightarrow>
             (if i = [] then (a1, RLReject)
              else let a2 = prune_ctx now a1
                   in (a2\<lparr> au_ctx := dput i (clean, now) (au_ctx a2) \<rparr>, RLChallenge i prompt)))"

definition radius_login_phase2 :: "radius_env \<Rightarrow> ts \<Rightarrow> string \<Rightarrow> string \<Rightarrow> string \<Rightarrow> string \<Rightarrow> auth
    \<Rightarrow> auth \<times> radius_login" where
  "radius_login_phase2 x now token cid' cid response a =
     (let a0 = prune_ctx now a; drop = (\<lambda>b. b\<lparr> au_ctx := ddel cid (au_ctx b) \<rparr>)
      in case dget (au_ctx a0) cid of
           None \<Rightarrow> (a0, RLReject)
         | Some (name, t) \<Rightarrow>
             (case radius_continue_challenge (re_cfg x) (re_send x) now cid' cid response a0 of
                (a1, Denied) \<Rightarrow> (drop a1, RLReject)
              | (a1, Accepted attrs) \<Rightarrow> radius_post_auth x now token name attrs True (drop a1)
              | (a1, Challenged i prompt) \<Rightarrow>
                  (if i = [] then (drop a1, RLReject)
                   else (drop (a1\<lparr> au_ctx := dput i (name, now) (au_ctx a1) \<rparr>), RLChallenge i prompt))))"

end
