(* ===== verification/Login.thy ===== *)
theory Login
  imports Radius
begin

text \<open>
  Logins (\<open>auth_login\<close> in \<open>core/auth.py\<close>, group matching in \<open>core/ldap_auth.py\<close>, the login routes in
  \<open>routes/auth.py\<close>). The search in the directory (the package \<open>ldap3\<close>), nested membership, the check of
  a one-time code (\<open>pyotp\<close>) and the digests are fields of the environment \<open>auth_env\<close>, as are the
  settings. A handler is one step; random tokens and ids are its arguments.
\<close>

section \<open>Environment\<close>

record ldap_result =
  lr_dn :: string
  lr_member_of :: "string list"
  lr_display :: string
  lr_email :: string

record auth_env =
  ax_kdf :: "string \<Rightarrow> string \<Rightarrow> int \<Rightarrow> string"
  ax_code_ok :: "string \<Rightarrow> string \<Rightarrow> ts \<Rightarrow> bool"       \<comment> \<open>\<open>pyotp\<close>: secret, code, time\<close>
  ax_pyotp :: bool
  ax_window :: real
  ax_max :: int
  ax_remember :: int
  ax_ldap_on :: bool
  ax_ldap_prov :: bool
  ax_ldap_domain :: string
  ax_ldap :: "string \<Rightarrow> string \<Rightarrow> ldap_result option"
  ax_nested :: "(string \<Rightarrow> string \<Rightarrow> bool) option"      \<comment> \<open>when nested groups are on\<close>
  ax_radius_on :: bool
  ax_radius :: radius_env

abbreviation ax_sha :: "auth_env \<Rightarrow> string \<Rightarrow> string" where "ax_sha x \<equiv> re_sha (ax_radius x)"
abbreviation ax_ttl :: "auth_env \<Rightarrow> real" where "ax_ttl x \<equiv> re_ttl (ax_radius x)"

definition role_rank :: "string \<Rightarrow> nat" where
  "role_rank r = (if r = ''admin'' then 2 else if r = ''operator'' then 1 else 0)"

definition totp_verify :: "auth_env \<Rightarrow> ts \<Rightarrow> string \<Rightarrow> string \<Rightarrow> bool" where
  "totp_verify x now secret code \<longleftrightarrow> secret \<noteq> [] \<and> code \<noteq> [] \<and> ax_pyotp x \<and> ax_code_ok x secret (strip code) now"

section \<open>Labels of browsers\<close>

fun contains :: "string \<Rightarrow> string \<Rightarrow> bool" where
  "contains p [] = (p = [])"
| "contains p (c # cs) = (startswith p (c # cs) \<or> contains p cs)"

definition parse_user_agent_label :: "string \<Rightarrow> string" where
  "parse_user_agent_label ua =
     (if ua = [] then ''Unknown browser''
      else let u = lower ua;
               browser = (if contains ''edg/'' u \<or> contains ''edge/'' u then ''Edge''
                          else if contains ''opr/'' u \<or> contains ''opera'' u then ''Opera''
                          else if contains ''chrome/'' u \<or> contains ''chromium/'' u then ''Chrome''
                          else if contains ''firefox/'' u then ''Firefox''
                          else if contains ''safari/'' u then ''Safari'' else ''Browser'');
               os = (if contains ''windows'' u then ''Windows''
                     else if contains ''macintosh'' u \<or> contains ''mac os'' u then ''macOS''
                     else if contains ''iphone'' u \<or> contains ''ipad'' u then ''iOS''
                     else if contains ''android'' u then ''Android''
                     else if contains ''linux'' u then ''Linux'' else ''Unknown OS'')
           in browser @ '' on '' @ os)"

section \<open>Directory groups\<close>

text \<open>The group with the highest role, the first of equals.\<close>

fun best_group :: "(string \<Rightarrow> bool) \<Rightarrow> (int \<times> group) list \<Rightarrow> (int \<times> group) option \<Rightarrow> (int \<times> group) option" where
  "best_group hit [] best = best"
| "best_group hit ((i, g) # gs) best = best_group hit gs
     (if hit (gr_ldap g) \<and> (case best of None \<Rightarrow> True | Some (j, b) \<Rightarrow> role_rank (gr_role b) < role_rank (gr_role g))
      then Some (i, g) else best)"

definition match_user_to_groups :: "auth_env \<Rightarrow> string list \<Rightarrow> string \<Rightarrow> (int \<times> group) list \<Rightarrow> (int \<times> group) option" where
  "match_user_to_groups x member_of dn groups =
     (case best_group (\<lambda>d. lower d \<in> set (map lower member_of)) groups None of
        Some b \<Rightarrow> Some b
      | None \<Rightarrow> (case ax_nested x of
          Some nested \<Rightarrow> if dn \<noteq> [] then best_group (nested dn) groups None else None
        | None \<Rightarrow> None))"

definition own_email :: "string \<Rightarrow> accounts \<Rightarrow> string" where
  "own_email name acc = (case dget (ac_users acc) name of Some u \<Rightarrow> us_email u | None \<Rightarrow> [])"

text \<open>The role after the synchronisation, \<open>None\<close> for a refused login.\<close>

definition ldap_login_sync :: "auth_env \<Rightarrow> string \<Rightarrow> ldap_result \<Rightarrow> string \<Rightarrow> int option \<Rightarrow> accounts
    \<Rightarrow> accounts \<times> string option" where
  "ldap_login_sync x clean lr role gid acc =
     (let groups = db_get_ldap_mapped_groups acc
      in if groups = []
         then (if lr_display lr \<noteq> []
               then fst (db_update_profile clean (lr_display lr) (own_email clean acc) (Some gid) (Some role) None acc)
               else acc, Some role)
         else case match_user_to_groups x (lr_member_of lr) (lr_dn lr) groups of
                None \<Rightarrow> (fst (update_user clean (\<lambda>u. u\<lparr> us_group := None \<rparr>) acc), None)
              | Some (i, g) \<Rightarrow>
                  (fst (db_update_profile clean (lr_display lr) (own_email clean acc) (Some (Some i)) (Some (gr_role g)) None acc),
                   Some (gr_role g)))"

section \<open>Passwords\<close>

text \<open>A row was found: the directory or the stored hash decides.\<close>

definition login_known :: "auth_env \<Rightarrow> ts \<Rightarrow> string \<Rightarrow> string \<Rightarrow> string \<Rightarrow> string \<Rightarrow> string \<Rightarrow> string \<Rightarrow> string \<Rightarrow> user \<Rightarrow> auth
    \<Rightarrow> auth \<times> string option" where
  "login_known x now token salt ip ua lbl clean pw u a =
     (let issue = (\<lambda>role b. (create_session (ax_sha x) (ax_ttl x) now token clean role ip ua lbl b,
                             Some token))
      in if str_or (us_type u) ''local'' = ''ldap''
         then (case ax_ldap x clean pw of
                 None \<Rightarrow> (a, None)
               | Some lr \<Rightarrow>
                   (case ldap_login_sync x clean lr (str_or (us_role u) ''viewer'') (us_group u) (au_acc a) of
                      (acc, None) \<Rightarrow> (a\<lparr> au_acc := acc \<rparr>, None)
                    | (acc, Some role) \<Rightarrow> issue role (a\<lparr> au_acc := acc \<rparr>)))
         else if \<not> verify_pw (ax_kdf x) pw (us_hash u) then (a, None)
         else issue (str_or (us_role u) ''viewer'') (on_acc (maybe_rehash (ax_kdf x) salt clean pw (us_hash u)) a))"

definition auth_login :: "auth_env \<Rightarrow> ts \<Rightarrow> string \<Rightarrow> string \<Rightarrow> string \<Rightarrow> string \<Rightarrow> string \<Rightarrow> string \<Rightarrow> auth
    \<Rightarrow> auth \<times> string option" where
  "auth_login x now token salt ip ua username pw a =
     (let clean = strip_domain username
      in case dget (ac_users (au_acc a)) clean of
           Some u \<Rightarrow> login_known x now token salt ip ua (parse_user_agent_label ua) clean pw u a
         | None \<Rightarrow>
             (if \<not> (ax_ldap_on x \<and> ax_ldap_prov x) then (a, None)
              else case ax_ldap x clean pw of
                None \<Rightarrow> (a, None)
              | Some lr \<Rightarrow>
                  (let groups = db_get_ldap_mapped_groups (au_acc a)
                   in if groups = [] then (a, None)
                      else case match_user_to_groups x (lr_member_of lr) (lr_dn lr) groups of
                        None \<Rightarrow> (a, None)
                      | Some (i, g) \<Rightarrow>
                          (case db_add_ldap_user clean (ax_ldap_domain x) (gr_role g) (lr_display lr) (lr_email lr) (Some i)
                                  (au_acc a) of
                             (acc, True) \<Rightarrow>
                               (create_session (ax_sha x) (ax_ttl x) now token clean (gr_role g) ip ua
                                  (parse_user_agent_label ua) (a\<lparr> au_acc := acc \<rparr>), Some token)
                           | (acc, False) \<Rightarrow> \<comment> \<open>the row exists by now: log in again\<close>
                               (case dget (ac_users acc) clean of
                                  Some u \<Rightarrow> login_known x now token salt [] [] [] clean pw u a
                                | None \<Rightarrow> (a, None))))))"

section \<open>Failed attempts\<close>

datatype gate = Free | Limited | Crashed

definition FAIL_CAP :: nat where "FAIL_CAP = 5000"

definition recent :: "auth_env \<Rightarrow> ts \<Rightarrow> string \<Rightarrow> auth \<Rightarrow> ts list" where
  "recent x now ip a = filter (\<lambda>t. now - t < ax_window x) (case dget (au_fails a) ip of Some ts \<Rightarrow> ts | None \<Rightarrow> [])"

definition latest :: "ts list \<Rightarrow> ts" where
  "latest ts = (if ts = [] then 0 else Max (set ts))"

text \<open>
  The entry of the address is rebuilt, empty entries of others go, and beyond the cap only the most
  recent remain. The test that follows reads the entry of the address, which may be gone.
\<close>

definition capped :: "(string, ts list) dict \<Rightarrow> (string, ts list) dict" where
  "capped m = (if FAIL_CAP < length m then take FAIL_CAP (sort_key (\<lambda>(k, ts). - latest ts) m) else m)"

definition login_gate :: "auth_env \<Rightarrow> ts \<Rightarrow> string \<Rightarrow> auth \<Rightarrow> auth \<times> gate" where
  "login_gate x now ip a =
     (let m = filter (\<lambda>(k, ts). ts \<noteq> [] \<or> k = ip) (dput ip (recent x now ip a) (au_fails a));
          m' = capped m
      in (a\<lparr> au_fails := m' \<rparr>, case dget m' ip of
            None \<Rightarrow> Crashed | Some ts \<Rightarrow> if ax_max x \<le> int (length ts) then Limited else Free))"

definition code_gate :: "auth_env \<Rightarrow> ts \<Rightarrow> string \<Rightarrow> auth \<Rightarrow> auth \<times> gate" where
  "code_gate x now ip a =
     (let ts = recent x now ip a
      in (a\<lparr> au_fails := dput ip ts (au_fails a) \<rparr>, if ax_max x \<le> int (length ts) then Limited else Free))"

definition record_failure :: "ts \<Rightarrow> string \<Rightarrow> auth \<Rightarrow> auth" where
  "record_failure now ip a = a\<lparr> au_fails :=
     dput ip ((case dget (au_fails a) ip of Some ts \<Rightarrow> ts | None \<Rightarrow> []) @ [now]) (au_fails a) \<rparr>"

definition clear_failures :: "string \<Rightarrow> auth \<Rightarrow> auth" where
  "clear_failures ip a = a\<lparr> au_fails := ddel ip (au_fails a) \<rparr>"

section \<open>The login routes\<close>

datatype reply =
    Granted string string string "string option"   \<comment> \<open>token, user, role, new trusted-device cookie\<close>
  | CodeRequired string
  | Prompt string string
  | Failed nat
  | ServerError

text \<open>A request: time, address, browser, trusted-device cookie, and the random values it may use.\<close>

record request =
  rq_now :: ts
  rq_ip :: string
  rq_ua :: string
  rq_trusted :: string
  rq_token :: string
  rq_id :: string
  rq_salt :: string
  rq_device :: string

definition emit_post_auth :: "auth_env \<Rightarrow> request \<Rightarrow> string \<Rightarrow> string \<Rightarrow> string \<Rightarrow> bool \<Rightarrow> auth \<Rightarrow> auth \<times> reply" where
  "emit_post_auth x q username role token used a =
     (let clean = strip_domain username; (secret, enabled, codes) = db_get_totp clean (au_acc a)
      in if used \<or> \<not> enabled then (a, Granted token username role None)
         else case (if rq_trusted q = [] then None
                    else db_lookup_trusted_device (rq_now q) clean (ax_sha x (rq_trusted q)) (au_acc a)) of
                Some t \<Rightarrow> (on_acc (db_touch_trusted_device (rq_now q) (td_id t) (rq_ip q)) a,
                           Granted token username role (Some (rq_trusted q)))
              | None \<Rightarrow>
                  (let a1 = auth_logout (ax_sha x) token a
                   in if \<not> ax_pyotp x then (a1, Failed 503)
                      else (totp_create_challenge (rq_now q) (rq_id q) clean role a1, CodeRequired (rq_id q))))"

definition radius_reply_of :: "auth_env \<Rightarrow> request \<Rightarrow> (auth \<Rightarrow> auth \<times> reply) \<Rightarrow> auth \<times> radius_login \<Rightarrow> auth \<times> reply" where
  "radius_reply_of x q rejected r = (case r of
       (a, RLChallenge cid prompt) \<Rightarrow> (a, Prompt cid prompt)
     | (a, RLAccept user role token used) \<Rightarrow> emit_post_auth x q user role token used (clear_failures (rq_ip q) a)
     | (a, RLReject) \<Rightarrow> rejected a)"

definition reject :: "request \<Rightarrow> auth \<Rightarrow> auth \<times> reply" where
  "reject q a = (record_failure (rq_now q) (rq_ip q) a, Failed 401)"

text \<open>\<open>POST /api/login\<close>\<close>

definition login :: "auth_env \<Rightarrow> request \<Rightarrow> string \<Rightarrow> string \<Rightarrow> auth \<Rightarrow> auth \<times> reply" where
  "login x q user_text pw a0 = (case login_gate x (rq_now q) (rq_ip q) a0 of
       (a, Crashed) \<Rightarrow> (a, ServerError)
     | (a, Limited) \<Rightarrow> (a, Failed 429)
     | (a, Free) \<Rightarrow>
         (let username = strip user_text; clean = strip_domain username;
              phase1 = radius_login_phase1 (ax_radius x) (rq_now q) (rq_token q) (rq_id q) username pw;
              known = dget (ac_users (au_acc a)) clean \<noteq> None
          in if ax_radius_on x \<and> known \<and> db_get_user_auth_type clean (au_acc a) = ''radius''
             then radius_reply_of x q (reject q) (phase1 a)
             else case auth_login x (rq_now q) (rq_token q) (rq_salt q) (rq_ip q) (rq_ua q) username pw a of
                    (a1, None) \<Rightarrow>
                      (if ax_radius_on x \<and> re_provision (ax_radius x) \<and> \<not> known
                       then radius_reply_of x q (reject q) (phase1 a1) else reject q a1)
                  | (a1, Some token) \<Rightarrow>
                      (let role = (case auth_check_role (rq_now q) token a1 of Some r \<Rightarrow> str_or r ''viewer'' | None \<Rightarrow> ''viewer'')
                       in emit_post_auth x q username role token False (clear_failures (rq_ip q) a1))))"

text \<open>\<open>POST /api/login/totp\<close>: a code of the authenticator or a recovery code.\<close>

definition login_totp :: "auth_env \<Rightarrow> request \<Rightarrow> string \<Rightarrow> string \<Rightarrow> bool \<Rightarrow> auth \<Rightarrow> auth \<times> reply" where
  "login_totp x q cid_text code_text remember a0 =
     (if \<not> ax_pyotp x then (a0, Failed 503)
      else let cid = strip cid_text; code = strip code_text
           in case totp_resolve_challenge (rq_now q) cid a0 of
                None \<Rightarrow> (a0, Failed 401)
              | Some (name, role) \<Rightarrow>
                  (case code_gate x (rq_now q) (rq_ip q) a0 of
                     (a, Free) \<Rightarrow>
                       (let (secret, enabled, codes) = db_get_totp name (au_acc a);
                            direct = totp_verify x (rq_now q) secret code;
                            (consumed, codes') = totp_consume_recovery (ax_sha x) codes code;
                            a1 = (if \<not> direct \<and> consumed then on_acc (db_set_totp name secret True codes') a else a)
                        in if \<not> direct \<and> \<not> consumed then reject q a1
                           else let a2 = create_session (ax_sha x) (ax_ttl x) (rq_now q) (rq_token q) name role (rq_ip q) (rq_ua q)
                                           (parse_user_agent_label (rq_ua q))
                                           (clear_failures (rq_ip q) (totp_consume_challenge cid a1))
                                in if remember \<and> 0 < ax_remember x
                                   then (on_acc (db_add_trusted_device (rq_now q) name (ax_sha x (rq_device q))
                                            (parse_user_agent_label (rq_ua q)) (ax_remember x) (rq_ip q) (rq_ua q)) a2,
                                         Granted (rq_token q) name role (Some (rq_device q)))
                                   else (a2, Granted (rq_token q) name role None))
                   | (a, _) \<Rightarrow> (a, Failed 429)))"

text \<open>\<open>POST /api/login/radius_challenge\<close>\<close>

definition login_radius :: "auth_env \<Rightarrow> request \<Rightarrow> string \<Rightarrow> string \<Rightarrow> auth \<Rightarrow> auth \<times> reply" where
  "login_radius x q cid_text response a0 = (case code_gate x (rq_now q) (rq_ip q) a0 of
       (a, Free) \<Rightarrow>
         (let cid = strip cid_text
          in if cid = [] \<or> response = [] then (a, Failed 400)
             else radius_reply_of x q (reject q)
                    (radius_login_phase2 (ax_radius x) (rq_now q) (rq_token q) (rq_id q) cid response a))
     | (a, _) \<Rightarrow> (a, Failed 429))"

end
