(* ===== verification/Access.thy ===== *)
theory Access
  imports Login
begin

text \<open>
  Permission checks of requests (\<open>Handler._auth_principal\<close>, \<open>_auth\<close> and \<open>_require\<close> in \<open>server.py\<close>)
  and the account routes (\<open>routes/auth.py\<close>, \<open>routes/api_tokens.py\<close>). A handler takes the time, the
  request head and its parsed arguments; it returns the new state and the status code.
\<close>

section \<open>Principals\<close>

record http =
  hq_method :: string
  hq_path :: string
  hq_cookie :: string          \<comment> \<open>the \<open>Cookie\<close> header\<close>
  hq_authz :: string           \<comment> \<open>the \<open>Authorization\<close> header\<close>

record principal =
  pl_user :: string
  pl_role :: string
  pl_scope :: string
  pl_session :: bool           \<comment> \<open>\<open>kind\<close> is \<open>session\<close>, otherwise \<open>api_token\<close>\<close>

definition get_cookie :: "string \<Rightarrow> string \<Rightarrow> string" where
  "get_cookie name header =
     (case find (startswith (name @ ''='')) (map strip (split_on CHR '';'' header)) of
        Some p \<Rightarrow> drop (length name + 1) p | None \<Rightarrow> [])"

definition get_token :: "http \<Rightarrow> string" where
  "get_token hq = get_cookie ''session'' (hq_cookie hq)"

definition get_bearer :: "http \<Rightarrow> string option" where
  "get_bearer hq =
     (if startswith ''Bearer '' (hq_authz hq)
      then let t = strip (drop 7 (hq_authz hq)) in if startswith ''pw_'' t then Some t else None
      else None)"

definition bearer_principal :: "auth_env \<Rightarrow> ts \<Rightarrow> http \<Rightarrow> auth \<Rightarrow> auth \<times> principal option" where
  "bearer_principal x now hq a = (case get_bearer hq of
       None \<Rightarrow> (a, None)
     | Some t \<Rightarrow> (case auth_check_api_token (ax_sha x) now t a of
          (a1, Some e) \<Rightarrow> (a1, Some \<lparr> pl_user = te_user e, pl_role = te_role e, pl_scope = te_scope e, pl_session = False \<rparr>)
        | (a1, None) \<Rightarrow> (a1, None)))"

definition auth_principal :: "auth_env \<Rightarrow> ts \<Rightarrow> http \<Rightarrow> auth \<Rightarrow> auth \<times> principal option" where
  "auth_principal x now hq a = (case auth_check (ax_sha x) (ax_ttl x) now (get_token hq) a of
       (a1, Some u) \<Rightarrow>
         (if u \<noteq> [] then (a1, Some \<lparr> pl_user = u, pl_role = (case auth_check_role now (get_token hq) a1 of
                                 Some r \<Rightarrow> str_or r ''viewer'' | None \<Rightarrow> ''viewer''),
                               pl_scope = ''full'', pl_session = True \<rparr>)
          else bearer_principal x now hq a1)
     | (a1, None) \<Rightarrow> bearer_principal x now hq a1)"

definition jailed :: "http \<Rightarrow> bool" where
  "jailed hq \<longleftrightarrow> \<not> startswith ''/api/agent/'' (hq_path hq)"

text \<open>What the checks let through: a user, or the status of the refusal.\<close>

definition auth_user :: "http \<Rightarrow> principal option \<Rightarrow> nat + string" where
  "auth_user hq p = (case p of
       None \<Rightarrow> Inl 401
     | Some pr \<Rightarrow>
         (if pl_user pr = [] then Inl 401
          else if \<not> pl_session pr \<and> startswith ''/events'' (hq_path hq) then Inl 400
          else if \<not> pl_session pr \<and> pl_scope pr = ''probe'' \<and> jailed hq then Inl 403
          else Inr (pl_user pr)))"

definition require_role :: "string \<Rightarrow> http \<Rightarrow> principal option \<Rightarrow> nat + string \<times> string" where
  "require_role min_role hq p = (case p of
       None \<Rightarrow> Inl 401
     | Some pr \<Rightarrow>
         (if pl_user pr = [] then Inl 401
          else if role_rank (pl_role pr) < role_rank min_role then Inl 403
          else if \<not> pl_session pr \<and> pl_scope pr = ''probe'' \<and> jailed hq then Inl 403
          else if \<not> pl_session pr \<and> pl_scope pr = ''read'' \<and> hq_method hq \<notin> {''GET'', ''HEAD'', ''OPTIONS''} then Inl 403
          else if \<not> pl_session pr \<and> startswith ''/events'' (hq_path hq) then Inl 400
          else Inr (pl_user pr, pl_role pr)))"

definition with_user :: "auth_env \<Rightarrow> ts \<Rightarrow> http \<Rightarrow> (string \<Rightarrow> auth \<Rightarrow> auth \<times> nat) \<Rightarrow> auth \<Rightarrow> auth \<times> nat" where
  "with_user x now hq f a = (let (a1, p) = auth_principal x now hq a
     in case auth_user hq p of Inl c \<Rightarrow> (a1, c) | Inr u \<Rightarrow> f u a1)"

definition with_role :: "auth_env \<Rightarrow> ts \<Rightarrow> http \<Rightarrow> string \<Rightarrow> (string \<Rightarrow> auth \<Rightarrow> auth \<times> nat) \<Rightarrow> auth \<Rightarrow> auth \<times> nat" where
  "with_role x now hq min_role f a = (let (a1, p) = auth_principal x now hq a
     in case require_role min_role hq p of Inl c \<Rightarrow> (a1, c) | Inr (u, r) \<Rightarrow> f u a1)"

text \<open>Routes that only know the cookie.\<close>

definition with_cookie :: "auth_env \<Rightarrow> ts \<Rightarrow> http \<Rightarrow> (string \<Rightarrow> auth \<Rightarrow> auth \<times> nat) \<Rightarrow> auth \<Rightarrow> auth \<times> nat" where
  "with_cookie x now hq f a = (case auth_check (ax_sha x) (ax_ttl x) now (get_token hq) a of
       (a1, Some u) \<Rightarrow> if u = [] then (a1, 401) else f u a1
     | (a1, None) \<Rightarrow> (a1, 401))"

section \<open>Administration of users\<close>

definition valid_roles :: "string set" where
  "valid_roles = {''viewer'', ''operator'', ''admin''}"

definition valid_email :: "string \<Rightarrow> bool" where
  "valid_email s = (case split_on CHR ''@'' s of
       [u, d] \<Rightarrow> u \<noteq> [] \<and> list_all (\<lambda>c. \<not> is_space c) (u @ d) \<and> CHR ''.'' \<in> set (butlast (tl d)) \<and> d \<noteq> []
     | _ \<Rightarrow> False)"

record user_form =
  uf_name :: string
  uf_password :: string
  uf_role :: string
  uf_type :: string
  uf_domain :: string
  uf_group :: "int option option"

definition add_account :: "auth_env \<Rightarrow> string \<Rightarrow> string \<Rightarrow> string \<Rightarrow> string \<Rightarrow> string \<Rightarrow> string \<Rightarrow> accounts
    \<Rightarrow> accounts \<times> bool" where
  "add_account x salt name pw role type domain acc =
     (if type = ''ldap'' then db_add_ldap_user name domain role [] [] None acc
      else if type = ''radius'' then db_add_radius_user name domain role [] [] None acc
      else db_add_user (ax_kdf x) salt name pw role acc)"

definition create_account :: "auth_env \<Rightarrow> string \<Rightarrow> user_form \<Rightarrow> string \<Rightarrow> string \<Rightarrow> string \<Rightarrow> string \<Rightarrow> auth
    \<Rightarrow> auth \<times> nat" where
  "create_account x salt f name role type domain a =
     (if name = [] then (a, 400)
      else if type \<noteq> ''ldap'' \<and> type \<noteq> ''radius'' \<and> uf_password f = [] then (a, 400)
      else let (acc, ok) = add_account x salt name (uf_password f) role type domain (au_acc a);
               acc' = (case uf_group f of None \<Rightarrow> acc
                       | Some g \<Rightarrow> fst (db_update_profile name [] [] (Some g) None None acc))
           in if \<not> ok then (a, 409) else (a\<lparr> au_acc := acc' \<rparr>, 200))"

definition create_user :: "auth_env \<Rightarrow> string \<Rightarrow> user_form \<Rightarrow> string \<Rightarrow> auth \<Rightarrow> auth \<times> nat" where
  "create_user x salt f me = create_account x salt f (strip (uf_name f))
     (if uf_role f \<in> valid_roles then uf_role f else ''admin'')
     (if uf_type f \<in> {''local'', ''ldap'', ''radius''} then uf_type f else ''local'')
     (take 100 (strip (uf_domain f)))"

definition delete_user :: "string \<Rightarrow> string \<Rightarrow> auth \<Rightarrow> auth \<times> nat" where
  "delete_user name me a =
     (if name = me then (a, 400)
      else if length (ac_users (au_acc a)) \<le> 1 then (a, 400)
      else let (acc, ok) = db_delete_user name (au_acc a) in (a\<lparr> au_acc := acc \<rparr>, if ok then 200 else 404))"

definition PW_RESET_COOLDOWN :: real where "PW_RESET_COOLDOWN = 10"

definition reset_password :: "auth_env \<Rightarrow> ts \<Rightarrow> string \<Rightarrow> string \<Rightarrow> string \<Rightarrow> string \<Rightarrow> auth \<Rightarrow> auth \<times> nat" where
  "reset_password x now salt name pw me a =
     (if pw = [] \<or> length pw < 8 then (a, 400)
      else if now - (case dget (au_resets a) name of Some t \<Rightarrow> t | None \<Rightarrow> 0) < PW_RESET_COOLDOWN then (a, 429)
      else let a1 = on_acc (db_set_password (ax_kdf x) salt name pw) a;
               a2 = auth_revoke_user_sessions name (a1\<lparr> au_resets := dput name now (au_resets a1) \<rparr>)
           in (on_acc (db_revoke_trusted_devices name) a2, 200))"

definition change_password :: "auth_env \<Rightarrow> string \<Rightarrow> string \<Rightarrow> string \<Rightarrow> string \<Rightarrow> auth \<Rightarrow> auth \<times> nat" where
  "change_password x salt current pw me a =
     (if db_get_user_auth_type me (au_acc a) = ''ldap'' then (a, 400)
      else if current = [] \<or> pw = [] then (a, 400)
      else if length pw < 8 then (a, 400)
      else if \<not> auth_verify_current (ax_kdf x) me current (au_acc a) then (a, 400)
      else (on_acc (db_revoke_trusted_devices me \<circ> db_set_password (ax_kdf x) salt me pw) a, 200))"

text \<open>\<open>role\<close> is the role of the caller, \<open>gid\<close> the parsed \<open>group_id\<close> when it was given.\<close>

definition patch_profile :: "string \<Rightarrow> string \<Rightarrow> string \<Rightarrow> int option option \<Rightarrow> string \<Rightarrow> string \<Rightarrow> string \<Rightarrow> auth
    \<Rightarrow> auth \<times> nat" where
  "patch_profile target full_text email_text gid new_role role caller a =
     (let full = take 200 (strip full_text); email = take 200 (strip email_text); nr = strip new_role
      in if role \<noteq> ''admin'' \<and> caller \<noteq> target then (a, 403)
         else if email \<noteq> [] \<and> \<not> valid_email email then (a, 400)
         else if role = ''admin''
         then (if nr \<noteq> [] \<and> nr \<notin> valid_roles then (a, 400)
               else (on_acc (fst \<circ> db_update_profile target full email gid (if nr = [] then None else Some nr) None) a, 200))
         else (on_acc (fst \<circ> db_update_own_profile target full email) a, 200))"

definition set_theme :: "string \<Rightarrow> string \<Rightarrow> auth \<Rightarrow> auth \<times> nat" where
  "set_theme text_in me a =
     (let theme = lower (strip text_in); (acc, ok) = db_update_theme me theme (au_acc a)
      in if theme \<notin> {''dark'', ''light''} then (a, 400) else (a\<lparr> au_acc := acc \<rparr>, if ok then 200 else 500))"

definition own_profile :: "string \<Rightarrow> string \<Rightarrow> string \<Rightarrow> string \<Rightarrow> auth \<Rightarrow> auth \<times> nat" where
  "own_profile full_text email_text theme_text me a =
     (let full = take 200 (strip full_text); email = take 200 (strip email_text); theme = lower (strip theme_text)
      in if email \<noteq> [] \<and> \<not> valid_email email then (a, 400)
         else (on_acc ((if theme \<in> {''dark'', ''light''} then fst \<circ> db_update_theme me theme else id)
                 \<circ> (fst \<circ> db_update_own_profile me full email)) a, 200))"

section \<open>Second factor of the caller\<close>

definition totp_setup :: "auth_env \<Rightarrow> string \<Rightarrow> string \<Rightarrow> auth \<Rightarrow> auth \<times> nat" where
  "totp_setup x secret me a =
     (if \<not> ax_pyotp x then (a, 503)
      else if fst (snd (db_get_totp me (au_acc a))) then (a, 409)
      else (on_acc (db_set_totp me secret False None) a, 200))"

definition totp_confirm :: "auth_env \<Rightarrow> ts \<Rightarrow> string \<Rightarrow> string list \<Rightarrow> string \<Rightarrow> auth \<Rightarrow> auth \<times> nat" where
  "totp_confirm x now code plain me a =
     (let (secret, enabled, codes) = db_get_totp me (au_acc a)
      in if \<not> ax_pyotp x then (a, 503)
         else if secret = [] then (a, 400)
         else if \<not> totp_verify x now secret (strip code) then (a, 401)
         else (on_acc (db_set_totp me secret True (Some (snd (totp_generate_recovery_codes (ax_sha x) plain)))) a, 200))"

definition totp_disable :: "auth_env \<Rightarrow> ts \<Rightarrow> string \<Rightarrow> string \<Rightarrow> string \<Rightarrow> auth \<Rightarrow> auth \<times> nat" where
  "totp_disable x now pw code me a =
     (let (secret, enabled, codes) = db_get_totp me (au_acc a)
      in if \<not> ax_pyotp x then (a, 503)
         else if \<not> auth_verify_current (ax_kdf x) me pw (au_acc a) then (a, 401)
         else if enabled \<and> \<not> totp_verify x now secret (strip code) then (a, 401)
         else (on_acc (db_revoke_trusted_devices me \<circ> db_clear_totp me) a, 200))"

definition totp_reset :: "string \<Rightarrow> string \<Rightarrow> auth \<Rightarrow> auth \<times> nat" where
  "totp_reset target me a =
     (if target = [] then (a, 400) else (on_acc (db_revoke_trusted_devices target \<circ> db_clear_totp target) a, 200))"

section \<open>Tokens\<close>

text \<open>\<open>kind\<close> tells whether the caller came with a session; \<open>expires\<close> is \<open>None\<close> when absent, \<open>Some None\<close> when malformed.\<close>

definition create_token :: "auth_env \<Rightarrow> ts \<Rightarrow> string \<Rightarrow> string \<Rightarrow> string \<Rightarrow> ts option option \<Rightarrow> bool \<Rightarrow> string \<Rightarrow> auth
    \<Rightarrow> auth \<times> nat" where
  "create_token x now plain name_text scope_text expires session me a =
     (let name = strip name_text; scope = lower (strip scope_text)
      in if \<not> session then (a, 403)
         else if name = [] \<or> 100 < length name then (a, 400)
         else if scope \<notin> {''read'', ''full''} then (a, 400)
         else if (case expires of Some None \<Rightarrow> True | Some (Some t) \<Rightarrow> t \<le> 0 | None \<Rightarrow> False) then (a, 400)
         else case db_create_api_token now (ax_sha x plain) name me scope (Option.bind expires id) None a of
                (a1, Some i) \<Rightarrow> (a1, 201) | (a1, None) \<Rightarrow> (a1, 500))"

section \<open>Routes\<close>

datatype action =
    CreateUser user_form string
  | DeleteUser string
  | ResetPassword string string string               \<comment> \<open>user, password, salt\<close>
  | ChangePassword string string string              \<comment> \<open>current, new, salt\<close>
  | PatchProfile string string string "int option option" string
  | SetTheme string
  | OwnProfile string string string
  | TotpSetup string
  | TotpConfirm string "string list"
  | TotpDisable string string
  | TotpReset string
  | RevokeDevices
  | RevokeDevice int
  | RevokeOthers
  | RevokeSession string
  | CreateToken string string string "ts option option"
  | RevokeToken int
  | Logout

definition handle_action :: "auth_env \<Rightarrow> ts \<Rightarrow> http \<Rightarrow> action \<Rightarrow> auth \<Rightarrow> auth \<times> nat" where
  "handle_action x now hq act = (case act of
       CreateUser f salt \<Rightarrow> with_role x now hq ''admin'' (create_user x salt f)
     | DeleteUser n \<Rightarrow> with_role x now hq ''admin'' (delete_user n)
     | ResetPassword n pw salt \<Rightarrow> with_role x now hq ''admin'' (reset_password x now salt n pw)
     | ChangePassword cur pw salt \<Rightarrow> with_cookie x now hq (change_password x salt cur pw)
     | PatchProfile t full email gid nr \<Rightarrow> with_cookie x now hq (\<lambda>me a. patch_profile t full email gid nr
         (case auth_check_role now (get_token hq) a of Some r \<Rightarrow> str_or r ''viewer'' | None \<Rightarrow> ''viewer'') me a)
     | SetTheme theme \<Rightarrow> with_cookie x now hq (set_theme theme)
     | OwnProfile full email theme \<Rightarrow> with_cookie x now hq (own_profile full email theme)
     | TotpSetup secret \<Rightarrow> with_user x now hq (totp_setup x secret)
     | TotpConfirm code plain \<Rightarrow> with_user x now hq (totp_confirm x now code plain)
     | TotpDisable pw code \<Rightarrow> with_user x now hq (totp_disable x now pw code)
     | TotpReset t \<Rightarrow> with_role x now hq ''admin'' (totp_reset t)
     | RevokeDevices \<Rightarrow> with_cookie x now hq (\<lambda>me a. (on_acc (db_revoke_trusted_devices me) a, 200))
     | RevokeDevice i \<Rightarrow> with_cookie x now hq (\<lambda>me a. (on_acc (fst \<circ> db_revoke_trusted_device me i) a,
                           if snd (db_revoke_trusted_device me i (au_acc a)) then 200 else 404))
     | RevokeOthers \<Rightarrow> with_cookie x now hq (\<lambda>me a. (fst (auth_revoke_other_user_sessions (ax_sha x) me (get_token hq) a), 200))
     | RevokeSession i \<Rightarrow> with_cookie x now hq (\<lambda>me a.
         (if i = ax_sha x (get_token hq) then (a, 400)
          else let (a1, ok) = auth_revoke_session_by_id (ax_sha x) me i a in (a1, if ok then 200 else 404)))
     | CreateToken plain name scope expires \<Rightarrow> (\<lambda>a. case auth_principal x now hq a of
          (a1, p) \<Rightarrow> (case require_role ''admin'' hq p of
              Inl c \<Rightarrow> (a1, c)
            | Inr (me, r) \<Rightarrow> create_token x now plain name scope expires (case p of Some pr \<Rightarrow> pl_session pr | None \<Rightarrow> False) me a1))
     | RevokeToken i \<Rightarrow> with_role x now hq ''admin'' (\<lambda>me. revoke_token now i)
     | Logout \<Rightarrow> (\<lambda>a. let (a1, u) = auth_check (ax_sha x) (ax_ttl x) now (get_token hq) a
                       in (if get_token hq = [] then a1 else auth_logout (ax_sha x) (get_token hq) a1, 200)))"

section \<open>Runs\<close>

datatype auth_op =
    Login request string string
  | LoginCode request string string bool
  | LoginRadius request string string
  | Request ts http action
  | Restart

text \<open>A step and the login reply it gives, if any.\<close>

fun auth_step :: "auth_env \<Rightarrow> auth_op \<Rightarrow> auth \<Rightarrow> auth \<times> reply option" where
  "auth_step x (Login q u pw) a = map_prod id Some (login x q u pw a)"
| "auth_step x (LoginCode q cid code remember) a = map_prod id Some (login_totp x q cid code remember a)"
| "auth_step x (LoginRadius q cid resp) a = map_prod id Some (login_radius x q cid resp a)"
| "auth_step x (Request now hq act) a = (fst (handle_action x now hq act a), None)"
| "auth_step x Restart a = (restart_server a, None)"

definition auth_run :: "auth_env \<Rightarrow> auth_op list \<Rightarrow> auth \<Rightarrow> auth" where
  "auth_run x ops a = foldl (\<lambda>a op. fst (auth_step x op a)) a ops"

end
