(* ===== verification/AuthLaws.thy ===== *)
theory AuthLaws
  imports Access
begin

text \<open>
  Laws of sessions and logins. \<open>live\<close> is the relation between the digests of tokens and the users
  they stand for, in the cache and in the table. No request enlarges it, and a login only by the
  token it grants, to a user whose credentials it has checked.
\<close>

section \<open>Live sessions\<close>

definition live :: "auth_env \<Rightarrow> auth \<Rightarrow> string \<Rightarrow> string \<Rightarrow> bool" where
  "live x a h u \<longleftrightarrow> (\<exists>(t, s) \<in> set (au_sessions a). ax_sha x t = h \<and> se_user s = u)
     \<or> (\<exists>r \<in> set (au_rows a). sr_token r = h \<and> sr_user r = u)"

definition fewer :: "auth_env \<Rightarrow> auth \<Rightarrow> auth \<Rightarrow> bool" where
  "fewer x b a \<longleftrightarrow> (\<forall>h u. live x b h u \<longrightarrow> live x a h u)"

definition same_sessions :: "auth \<Rightarrow> auth \<Rightarrow> bool" where
  "same_sessions b a \<longleftrightarrow> au_sessions b = au_sessions a \<and> au_rows b = au_rows a"

lemma fewer_refl [simp]: "fewer x a a"
  by (simp add: fewer_def)

lemma fewer_trans: "fewer x c b \<Longrightarrow> fewer x b a \<Longrightarrow> fewer x c a"
  by (simp add: fewer_def)

lemma same_fewer: "same_sessions b a \<Longrightarrow> fewer x b a"
  by (simp add: same_sessions_def fewer_def live_def)

lemma same_sessions_simps [simp]:
  "same_sessions a a"
  "same_sessions (on_acc f a) b \<longleftrightarrow> same_sessions a b"
  "same_sessions (a\<lparr> au_acc := acc \<rparr>) b \<longleftrightarrow> same_sessions a b"
  "same_sessions (a\<lparr> au_tokens := ts \<rparr>) b \<longleftrightarrow> same_sessions a b"
  "same_sessions (a\<lparr> au_next_token := n \<rparr>) b \<longleftrightarrow> same_sessions a b"
  "same_sessions (a\<lparr> au_cache := ca \<rparr>) b \<longleftrightarrow> same_sessions a b"
  "same_sessions (a\<lparr> au_challenges := ch \<rparr>) b \<longleftrightarrow> same_sessions a b"
  "same_sessions (a\<lparr> au_pending := pe \<rparr>) b \<longleftrightarrow> same_sessions a b"
  "same_sessions (a\<lparr> au_ctx := cx \<rparr>) b \<longleftrightarrow> same_sessions a b"
  "same_sessions (a\<lparr> au_fails := fl \<rparr>) b \<longleftrightarrow> same_sessions a b"
  "same_sessions (a\<lparr> au_resets := rs \<rparr>) b \<longleftrightarrow> same_sessions a b"
  by (simp_all add: same_sessions_def on_acc_def)

lemma same_sessions_trans: "same_sessions c b \<Longrightarrow> same_sessions b a \<Longrightarrow> same_sessions c a"
  by (simp add: same_sessions_def)

lemma create_same: "same_sessions b a \<Longrightarrow> same_sessions (create_session sha ttl now t c r ip ua l b)
    (create_session sha ttl now t c r ip ua l a)"
  by (simp add: same_sessions_def create_session_def Let_def)

lemma create_live:
  "live x (create_session (ax_sha x) ttl now t c r ip ua l a) h u \<Longrightarrow> live x a h u \<or> (h = ax_sha x t \<and> u = c)"
  unfolding live_def create_session_def Let_def by (auto dest!: dput_mem split: if_splits)

lemma logout_fewer: "fewer x (auth_logout (ax_sha x) t a) a"
  unfolding fewer_def live_def auth_logout_def by (auto simp: ddel_mem)

lemma create_logout_fewer:
  "same_sessions b (create_session (ax_sha x) ttl now t c r ip ua l a) \<Longrightarrow> fewer x (auth_logout (ax_sha x) t b) a"
  unfolding fewer_def live_def auth_logout_def same_sessions_def create_session_def Let_def
  by (auto simp: ddel_mem dest!: dput_mem split: if_splits)

lemma session_lookupD:
  assumes "session_lookup now h a = Some s"
  obtains r where "r \<in> set (au_rows a)" "sr_token r = h" "sr_user r = se_user s" "now < sr_expires r"
    and "dget (ac_users (au_acc a)) (se_user s) \<noteq> None"
  using assms by (auto simp: session_lookup_def bind_eq_Some_conv dest!: find_SomeD)

lemma fill_fewer: "live x a (ax_sha x t) (se_user s) \<Longrightarrow> fewer x (session_fill t s a) a"
  unfolding fewer_def live_def session_fill_def by (auto dest!: dput_mem)

lemma auth_check_live:
  assumes "auth_check (ax_sha x) ttl now t a = (a1, res)"
  shows "fewer x a1 a" "res = Some u \<Longrightarrow> live x a (ax_sha x t) u"
proof -
  have row: "live x a (ax_sha x t) (se_user s)" if "session_lookup now (ax_sha x t) a = Some s" for s
    using that by (elim session_lookupD) (auto simp: live_def)
  have mem: "live x a (ax_sha x t) (se_user s)" if "dget (au_sessions a) t = Some s" for s
    using that map_of_SomeD [OF that] by (auto simp: live_def)
  show "fewer x a1 a"
    using assms row mem
    by (auto simp: auth_check_def split: if_splits option.splits intro!: logout_fewer fill_fewer)
  show "res = Some u \<Longrightarrow> live x a (ax_sha x t) u"
    using assms row mem by (auto simp: auth_check_def split: if_splits option.splits)
qed

lemma drop_fewer: "fewer x (drop_sessions P a) a"
  unfolding fewer_def live_def drop_sessions_def by auto

section \<open>Credentials\<close>

definition cred_ok :: "auth_env \<Rightarrow> string \<Rightarrow> string \<Rightarrow> accounts \<Rightarrow> bool" where
  "cred_ok x u pw acc \<longleftrightarrow> (case dget (ac_users acc) u of
       Some row \<Rightarrow> if str_or (us_type row) ''local'' = ''ldap'' then ax_ldap x u pw \<noteq> None
                   else verify_pw (ax_kdf x) pw (us_hash row)
     | None \<Rightarrow> ax_ldap_on x \<and> ax_ldap_prov x \<and> ax_ldap x u pw \<noteq> None)"

definition realm :: "radius_env \<Rightarrow> string \<Rightarrow> string" where
  "realm rx u = rc_prefix (re_cfg rx) @ u @ rc_suffix (re_cfg rx)"

definition radius_row_ok :: "radius_env \<Rightarrow> string \<Rightarrow> accounts \<Rightarrow> bool" where
  "radius_row_ok rx u acc \<longleftrightarrow> (case dget (ac_users acc) u of
       Some row \<Rightarrow> us_type row = ''radius'' | None \<Rightarrow> re_provision rx)"

definition second_ok :: "auth_env \<Rightarrow> request \<Rightarrow> string \<Rightarrow> accounts \<Rightarrow> bool" where
  "second_ok x q u acc \<longleftrightarrow> fst (snd (db_get_totp u acc))
     \<longrightarrow> rq_trusted q \<noteq> [] \<and> db_lookup_trusted_device (rq_now q) u (ax_sha x (rq_trusted q)) acc \<noteq> None"

definition code_good :: "auth_env \<Rightarrow> ts \<Rightarrow> string \<Rightarrow> string \<Rightarrow> accounts \<Rightarrow> bool" where
  "code_good x now u code acc \<longleftrightarrow> (let (secret, enabled, codes) = db_get_totp u acc
     in totp_verify x now secret code \<or> fst (totp_consume_recovery (ax_sha x) codes code))"

text \<open>The step checks the credentials of \<open>u\<close> and grants it the token \<open>t\<close>.\<close>

fun justified :: "auth_env \<Rightarrow> auth_op \<Rightarrow> auth \<Rightarrow> string \<Rightarrow> string \<Rightarrow> bool" where
  "justified x (Login q text pw) a t u \<longleftrightarrow> t = rq_token q \<and> u = strip_domain (strip text)
     \<and> (cred_ok x u pw (au_acc a) \<and> second_ok x q u (au_acc a)
        \<or> radius_row_ok (ax_radius x) u (au_acc a) \<and> second_ok x q (strip_domain u) (au_acc a)
          \<and> (\<exists>i attrs. re_send (ax_radius x) i (realm (ax_radius x) u) pw None = RAccept attrs))"
| "justified x (LoginCode q cid code remember) a t u \<longleftrightarrow> t = rq_token q
     \<and> map_option fst (totp_resolve_challenge (rq_now q) (strip cid) a) = Some u
     \<and> code_good x (rq_now q) u (strip code) (au_acc a)"
| "justified x (LoginRadius q cid resp) a t u \<longleftrightarrow> t = rq_token q \<and> radius_row_ok (ax_radius x) u (au_acc a)
     \<and> (\<exists>since ch attrs. (strip cid, (u, since)) \<in> set (au_ctx a) \<and> (strip cid, ch) \<in> set (au_pending a)
          \<and> re_send (ax_radius x) (rp_server ch) (rp_name ch) resp (rp_state ch) = RAccept attrs)"
| "justified x (Request now hq act) a t u \<longleftrightarrow> False"
| "justified x Restart a t u \<longleftrightarrow> False"

section \<open>Logins\<close>

definition same_second :: "accounts \<Rightarrow> accounts \<Rightarrow> bool" where
  "same_second b a \<longleftrightarrow> ac_trusted b = ac_trusted a \<and> (\<forall>u. fst (snd (db_get_totp u b)) = fst (snd (db_get_totp u a)))"

lemma same_second_refl [simp]: "same_second a a"
  by (simp add: same_second_def)

lemma same_second_ok: "same_second b a \<Longrightarrow> second_ok x q u b \<longleftrightarrow> second_ok x q u a"
  by (simp add: same_second_def second_ok_def db_lookup_trusted_device_def)

lemma ac_trusted_update [simp]: "ac_trusted (fst (update_user n f a)) = ac_trusted a"
  by (simp add: update_user_def split: option.split)

lemma same_second_update:
  "(\<And>u. us_totp (f u) = us_totp u) \<Longrightarrow> same_second (fst (update_user n f a)) a"
  by (auto simp: same_second_def db_get_totp_def update_user_get split: option.splits)

lemma same_second_insert: "\<not> us_totp u \<Longrightarrow> same_second (fst (insert_user n u a)) a"
  by (auto simp: same_second_def db_get_totp_def insert_user_get insert_user_def dict_simps split: option.splits)

lemma same_second_ops:
  "same_second (fst (db_update_profile n full email gid role theme a)) a"
  "same_second (maybe_rehash kdf salt n pw st a) a"
  "same_second (fst (db_add_ldap_user n dm rl full email g a)) a"
  "same_second (fst (db_add_radius_user n dm rl full email g a)) a"
  "same_second (radius_update_user n rl g a) a"
  by (auto simp: db_update_profile_def maybe_rehash_def db_set_password_def db_add_ldap_user_def db_add_radius_user_def
      radius_update_user_def new_user_def intro!: same_second_update same_second_insert split: if_splits)

lemma ldap_sync_second: "ldap_login_sync x clean lr role gid acc = (acc', r) \<Longrightarrow> same_second acc' acc"
  by (auto simp: ldap_login_sync_def Let_def same_second_ops split: if_splits option.splits prod.splits
      intro!: same_second_update)

text \<open>A password login leaves the sessions as they are, or adds one for a user whose password it checked.\<close>

definition adds :: "auth_env \<Rightarrow> ts \<Rightarrow> string \<Rightarrow> string \<Rightarrow> auth \<Rightarrow> auth \<Rightarrow> bool" where
  "adds x now token u b a \<longleftrightarrow>
     (\<exists>role ip ua lbl. same_sessions b (create_session (ax_sha x) (ax_ttl x) now token u role ip ua lbl a))"

lemma adds_create:
  "same_sessions b a \<Longrightarrow> adds x now token u (create_session (ax_sha x) (ax_ttl x) now token u role ip ua lbl b) a"
  unfolding adds_def by (intro exI) (rule create_same)

lemma adds_same: "same_sessions c b \<Longrightarrow> adds x now token u b a \<Longrightarrow> adds x now token u c a"
  unfolding adds_def by (blast intro: same_sessions_trans)

lemma adds_live: "adds x now token u b a \<Longrightarrow> live x b h v \<Longrightarrow> live x a h v \<or> h = ax_sha x token \<and> v = u"
  unfolding adds_def using create_live same_fewer [unfolded fewer_def] by blast

lemma adds_logout: "adds x now token u b a \<Longrightarrow> fewer x (auth_logout (ax_sha x) token b) a"
  unfolding adds_def using create_logout_fewer by blast

lemma au_acc_create [simp]: "au_acc (create_session sha ttl now t c r ip ua l a) = au_acc a"
  by (simp add: create_session_def)

lemma login_known_cases:
  assumes "login_known x now token salt ip ua lbl clean pw u a = (a1, res)" "dget (ac_users (au_acc a)) clean = Some u"
  shows "same_second (au_acc a1) (au_acc a)"
    and "res = None \<Longrightarrow> same_sessions a1 a"
    and "res = Some t \<Longrightarrow> t = token \<and> adds x now token clean a1 a \<and> cred_ok x clean pw (au_acc a)"
  using assms
  by (auto simp: login_known_def Let_def cred_ok_def on_acc_def same_second_ops split: if_splits option.splits prod.splits
      intro!: adds_create dest!: ldap_sync_second)

lemma auth_login_cases:
  assumes "auth_login x now token salt ip ua username pw a = (a1, res)"
  shows "same_second (au_acc a1) (au_acc a)"
    and "res = None \<Longrightarrow> same_sessions a1 a"
    and "res = Some t \<Longrightarrow> t = token \<and> adds x now token (strip_domain username) a1 a
           \<and> cred_ok x (strip_domain username) pw (au_acc a)"
proof -
  let ?c = "strip_domain username"
  have "same_second (au_acc a1) (au_acc a) \<and> (res = None \<longrightarrow> same_sessions a1 a)
      \<and> (res = Some t \<longrightarrow> t = token \<and> adds x now token ?c a1 a \<and> cred_ok x ?c pw (au_acc a))"
  proof (cases "dget (ac_users (au_acc a)) ?c")
    case (Some u)
    with assms have "login_known x now token salt ip ua (parse_user_agent_label ua) ?c pw u a = (a1, res)" by (simp add: auth_login_def)
    from login_known_cases [OF this Some] show ?thesis by blast
  next
    case None
    have ins: "snd (db_add_ldap_user ?c d r f e g (au_acc a))" for d r f e g
      using None by (simp add: db_add_ldap_user_def insert_user_def)
    have sec: "same_second acc (au_acc a)" if "db_add_ldap_user ?c d r f e g (au_acc a) = (acc, b)" for d r f e g acc b
      using same_second_ops(3) [of ?c d r f e g "au_acc a"] that by simp
    show ?thesis
      using assms None ins
      by (auto simp: auth_login_def Let_def cred_ok_def split: if_splits option.splits prod.splits bool.splits
          intro!: adds_create dest: sec) (metis snd_conv)+
  qed
  then show "same_second (au_acc a1) (au_acc a)" "res = None \<Longrightarrow> same_sessions a1 a"
    "res = Some t \<Longrightarrow> t = token \<and> adds x now token ?c a1 a \<and> cred_ok x ?c pw (au_acc a)" by blast+
qed

lemma emit_cases:
  assumes "emit_post_auth x q username role token used a = (a1, rep)"
  obtains (granted) dev where "rep = Granted token username role dev" "same_sessions a1 a"
      "used \<or> second_ok x q (strip_domain username) (au_acc a)"
    | (denied) "same_sessions a1 (auth_logout (ax_sha x) token a)" "\<nexists>t u r d. rep = Granted t u r d"
  using assms
  by (auto simp: emit_post_auth_def Let_def second_ok_def totp_create_challenge_def split: if_splits option.splits prod.splits)

section \<open>RADIUS\<close>

lemma authenticate_cases:
  assumes "radius_authenticate c send now cid name pw a = (a1, res)"
  shows "same_sessions a1 a \<and> au_acc a1 = au_acc a"
    and "res = Accepted attrs \<Longrightarrow> \<exists>i. send i (rc_prefix c @ name @ rc_suffix c) pw None = RAccept attrs"
proof -
  have first: "\<exists>i. send i n pw None = r" if "first_answer send n pw ss = Some (j, r)" for n ss j r
    using that by (induction ss) (auto split: if_splits radius_reply.splits)
  show "same_sessions a1 a \<and> au_acc a1 = au_acc a"
    using assms by (auto simp: radius_authenticate_def Let_def prune_challenges_def
        split: if_splits option.splits prod.splits radius_reply.splits)
  show "res = Accepted attrs \<Longrightarrow> \<exists>i. send i (rc_prefix c @ name @ rc_suffix c) pw None = RAccept attrs"
    using assms by (auto simp: radius_authenticate_def Let_def
        split: if_splits option.splits prod.splits radius_reply.splits dest!: first)
qed

lemma continue_cases:
  assumes "radius_continue_challenge c send now cid' cid resp a = (a1, res)"
  shows "same_sessions a1 a \<and> au_acc a1 = au_acc a"
    and "res = Accepted attrs \<Longrightarrow> \<exists>ch. (cid, ch) \<in> set (au_pending a)
           \<and> send (rp_server ch) (rp_name ch) resp (rp_state ch) = RAccept attrs"
proof -
  show "same_sessions a1 a \<and> au_acc a1 = au_acc a"
    using assms by (auto simp: radius_continue_challenge_def Let_def prune_challenges_def
        split: if_splits option.splits prod.splits radius_reply.splits)
  show "res = Accepted attrs \<Longrightarrow> \<exists>ch. (cid, ch) \<in> set (au_pending a)
           \<and> send (rp_server ch) (rp_name ch) resp (rp_state ch) = RAccept attrs"
    using assms by (auto simp: radius_continue_challenge_def Let_def prune_challenges_def
        split: if_splits option.splits prod.splits radius_reply.splits dest!: map_of_SomeD)
qed

lemma post_auth_cases:
  assumes "radius_post_auth (ax_radius x) now token clean attrs used a = (a1, res)"
  shows "same_second (au_acc a1) (au_acc a)"
    and "res = RLAccept u role t us \<Longrightarrow> u = clean \<and> t = token \<and> us = used \<and> adds x now token clean a1 a
           \<and> radius_row_ok (ax_radius x) clean (au_acc a)"
    and "\<nexists>u role t us. res = RLAccept u role t us \<Longrightarrow> same_sessions a1 a"
proof -
  have ins: "same_second acc (au_acc a)" if "db_add_radius_user clean d r f e g (au_acc a) = (acc, b)" for d r f e g acc b
    using same_second_ops(4) [of clean d r f e g "au_acc a"] that by simp
  have dup: False if "db_add_radius_user clean d r f e g (au_acc a) = (acc, False)" "dget (ac_users (au_acc a)) clean = None"
    for d r f e g acc
    using that by (simp add: db_add_radius_user_def insert_user_def)
  note defs = radius_post_auth_def radius_finish_def Let_def radius_lookup_user_def radius_row_ok_def on_acc_def same_second_ops str_or_def
  show "same_second (au_acc a1) (au_acc a)"
    using assms by (auto simp: defs split: if_splits option.splits prod.splits bool.splits dest: ins)
  show "res = RLAccept u role t us \<Longrightarrow> u = clean \<and> t = token \<and> us = used \<and> adds x now token clean a1 a
           \<and> radius_row_ok (ax_radius x) clean (au_acc a)"
    using assms by (auto simp: defs split: if_splits option.splits prod.splits bool.splits intro!: adds_create dest: dup)
  show "\<nexists>u role t us. res = RLAccept u role t us \<Longrightarrow> same_sessions a1 a"
    using assms by (auto simp: defs split: if_splits option.splits prod.splits bool.splits)
qed

lemma prune_ctx_simps [simp]:
  "same_sessions (prune_ctx now a) b \<longleftrightarrow> same_sessions a b"
  "same_sessions b (prune_ctx now a) \<longleftrightarrow> same_sessions b a" "au_acc (prune_ctx now a) = au_acc a"
  "au_pending (prune_ctx now a) = au_pending a"
  by (simp_all add: prune_ctx_def same_sessions_def)

lemma row_ok_cong: "au_acc b = au_acc a \<Longrightarrow> radius_row_ok rx u (au_acc b) \<longleftrightarrow> radius_row_ok rx u (au_acc a)"
  by simp

lemma adds_base: "same_sessions b a \<Longrightarrow> adds x now token u c b \<Longrightarrow> adds x now token u c a"
  unfolding adds_def by (blast intro: same_sessions_trans create_same)

lemma post_auth_from:
  assumes "radius_post_auth (ax_radius x) now token clean attrs used b = (a1, res)" "same_sessions b a" "au_acc b = au_acc a"
  shows "same_second (au_acc a1) (au_acc a)"
    and "res = RLAccept u role t us \<Longrightarrow> u = clean \<and> t = token \<and> us = used \<and> adds x now token clean a1 a
           \<and> radius_row_ok (ax_radius x) clean (au_acc a)"
    and "\<nexists>u role t us. res = RLAccept u role t us \<Longrightarrow> same_sessions a1 a"
  using post_auth_cases [OF assms(1)] assms(2,3) by (auto intro: adds_base same_sessions_trans)

lemma phase1_cases:
  assumes "radius_login_phase1 (ax_radius x) now token cid username pw a = (a1, res)"
  shows "same_second (au_acc a1) (au_acc a)"
    and "res = RLAccept u role t us \<Longrightarrow> u = strip_domain username \<and> t = token \<and> \<not> us \<and> adds x now token u a1 a
           \<and> radius_row_ok (ax_radius x) u (au_acc a)
           \<and> (\<exists>i attrs. re_send (ax_radius x) i (realm (ax_radius x) u) pw None = RAccept attrs)"
    and "\<nexists>u role t us. res = RLAccept u role t us \<Longrightarrow> same_sessions a1 a"
proof -
  let ?c = "strip_domain username"
  obtain b r where b: "radius_authenticate (re_cfg (ax_radius x)) (re_send (ax_radius x)) now cid ?c pw a = (b, r)"
    by (cases "radius_authenticate (re_cfg (ax_radius x)) (re_send (ax_radius x)) now cid ?c pw a")
  note au = authenticate_cases [OF b]
  have "same_second (au_acc a1) (au_acc a)
      \<and> (res = RLAccept u role t us \<longrightarrow> u = ?c \<and> t = token \<and> \<not> us \<and> adds x now token u a1 a
           \<and> radius_row_ok (ax_radius x) u (au_acc a)
           \<and> (\<exists>i attrs. re_send (ax_radius x) i (realm (ax_radius x) u) pw None = RAccept attrs))
      \<and> ((\<nexists>u role t us. res = RLAccept u role t us) \<longrightarrow> same_sessions a1 a)"
  proof (cases r)
    case Denied
    with assms b au show ?thesis by (simp add: radius_login_phase1_def)
  next
    case (Accepted attrs)
    with assms b have p: "radius_post_auth (ax_radius x) now token ?c attrs False b = (a1, res)"
      by (simp add: radius_login_phase1_def)
    note po = post_auth_from [OF p conjunct1 [OF au(1)] conjunct2 [OF au(1)]]
    from au(2) [OF Accepted] obtain i
      where "re_send (ax_radius x) i (realm (ax_radius x) ?c) pw None = RAccept attrs" by (auto simp: realm_def)
    then show ?thesis using po(1) po(3) po(2) [of u role t us] by (intro conjI impI) auto
  next
    case (Challenged i prompt)
    with assms b au show ?thesis by (auto simp: radius_login_phase1_def Let_def split: if_splits)
  qed
  then show "same_second (au_acc a1) (au_acc a)"
    "res = RLAccept u role t us \<Longrightarrow> u = ?c \<and> t = token \<and> \<not> us \<and> adds x now token u a1 a
       \<and> radius_row_ok (ax_radius x) u (au_acc a)
       \<and> (\<exists>i attrs. re_send (ax_radius x) i (realm (ax_radius x) u) pw None = RAccept attrs)"
    "\<nexists>u role t us. res = RLAccept u role t us \<Longrightarrow> same_sessions a1 a" by blast+
qed

lemma phase2_cases:
  assumes "radius_login_phase2 (ax_radius x) now token cid' cid resp a = (a1, res)"
  shows "res = RLAccept u role t us \<Longrightarrow> t = token \<and> us \<and> adds x now token u a1 a
           \<and> radius_row_ok (ax_radius x) u (au_acc a)
           \<and> (\<exists>since ch attrs. (cid, (u, since)) \<in> set (au_ctx a) \<and> (cid, ch) \<in> set (au_pending a)
                \<and> re_send (ax_radius x) (rp_server ch) (rp_name ch) resp (rp_state ch) = RAccept attrs)"
    and "\<nexists>u role t us. res = RLAccept u role t us \<Longrightarrow> same_sessions a1 a"
proof -
  let ?a = "prune_ctx now a"
  have "(res = RLAccept u role t us \<longrightarrow> t = token \<and> us \<and> adds x now token u a1 a
           \<and> radius_row_ok (ax_radius x) u (au_acc a)
           \<and> (\<exists>since ch attrs. (cid, (u, since)) \<in> set (au_ctx a) \<and> (cid, ch) \<in> set (au_pending a)
                \<and> re_send (ax_radius x) (rp_server ch) (rp_name ch) resp (rp_state ch) = RAccept attrs))
      \<and> ((\<nexists>u role t us. res = RLAccept u role t us) \<longrightarrow> same_sessions a1 a)"
  proof (cases "dget (au_ctx ?a) cid")
    case None
    with assms show ?thesis by (auto simp: radius_login_phase2_def Let_def)
  next
    case (Some entry)
    then obtain name since where e: "dget (au_ctx ?a) cid = Some (name, since)" by (cases entry) auto
    then have ctx: "(cid, (name, since)) \<in> set (au_ctx a)"
      by (auto dest!: map_of_SomeD simp: prune_ctx_def)
    obtain b r where b: "radius_continue_challenge (re_cfg (ax_radius x)) (re_send (ax_radius x)) now cid' cid resp ?a = (b, r)"
      by (cases "radius_continue_challenge (re_cfg (ax_radius x)) (re_send (ax_radius x)) now cid' cid resp ?a")
    note co = continue_cases [OF b, simplified]
    show ?thesis
    proof (cases r)
      case Denied
      with assms b co e show ?thesis by (auto simp: radius_login_phase2_def Let_def)
    next
      case (Accepted attrs)
      with assms b e have p: "radius_post_auth (ax_radius x) now token name attrs True (b\<lparr> au_ctx := ddel cid (au_ctx b) \<rparr>) = (a1, res)"
        by (simp add: radius_login_phase2_def Let_def)
      have "same_sessions (b\<lparr> au_ctx := ddel cid (au_ctx b) \<rparr>) a" "au_acc (b\<lparr> au_ctx := ddel cid (au_ctx b) \<rparr>) = au_acc a"
        using co(1) by simp_all
      note po = post_auth_from [OF p this]
      from co(2) [OF Accepted] ctx obtain ch where "(cid, ch) \<in> set (au_pending a)"
        "re_send (ax_radius x) (rp_server ch) (rp_name ch) resp (rp_state ch) = RAccept attrs" by blast
      with ctx show ?thesis using po(3) po(2) [of u role t us] by (intro conjI impI) auto
    next
      case (Challenged i prompt)
      with assms b co e show ?thesis by (auto simp: radius_login_phase2_def Let_def split: if_splits)
    qed
  qed
  then show "res = RLAccept u role t us \<Longrightarrow> t = token \<and> us \<and> adds x now token u a1 a
           \<and> radius_row_ok (ax_radius x) u (au_acc a)
           \<and> (\<exists>since ch attrs. (cid, (u, since)) \<in> set (au_ctx a) \<and> (cid, ch) \<in> set (au_pending a)
                \<and> re_send (ax_radius x) (rp_server ch) (rp_name ch) resp (rp_state ch) = RAccept attrs)"
    "\<nexists>u role t us. res = RLAccept u role t us \<Longrightarrow> same_sessions a1 a" by blast+
qed

section \<open>The login routes\<close>

lemma fail_log_simps [simp]:
  "same_sessions (clear_failures ip a) b \<longleftrightarrow> same_sessions a b" "au_acc (clear_failures ip a) = au_acc a"
  "same_sessions (record_failure now ip a) b \<longleftrightarrow> same_sessions a b"
  by (simp_all add: clear_failures_def record_failure_def)

lemma login_gate_same: "login_gate x now ip a = (b, g) \<Longrightarrow> same_sessions b a \<and> au_acc b = au_acc a"
  by (auto simp: login_gate_def Let_def)

lemma code_gate_same: "code_gate x now ip a = (b, g) \<Longrightarrow> same_sessions b a \<and> au_acc b = au_acc a
    \<and> au_ctx b = au_ctx a \<and> au_pending b = au_pending a \<and> au_challenges b = au_challenges a"
  by (auto simp: code_gate_def Let_def)

lemma reject_same: "reject q a = (b, rep) \<Longrightarrow> same_sessions b a"
  by (auto simp: reject_def)

lemma live_same: "same_sessions b a \<Longrightarrow> live x b h u \<longleftrightarrow> live x a h u"
  by (simp add: same_sessions_def live_def)

lemma emit_live:
  assumes "emit_post_auth x q username role token used b = (a1, rep)" "adds x now token u b a" "live x a1 h v"
  shows "live x a h v \<or> h = ax_sha x token \<and> v = u \<and> (used \<or> second_ok x q (strip_domain username) (au_acc b))"
  using assms(1)
proof (cases rule: emit_cases)
  case (granted dev)
  with assms(2,3) show ?thesis using adds_live by (auto simp: live_same)
next
  case denied
  with assms(2,3) show ?thesis using adds_logout by (auto simp: live_same fewer_def)
qed

lemma adds_cleared: "adds x now token u b a \<Longrightarrow> adds x now token u (clear_failures ip b) a"
  by (rule adds_same) simp_all

lemma phase1_live:
  assumes "radius_reply_of x q (reject q) (radius_login_phase1 (ax_radius x) now token cid username pw a) = (a1, rep)"
    and "live x a1 h v"
  shows "live x a h v \<or> h = ax_sha x token \<and> v = strip_domain username
     \<and> radius_row_ok (ax_radius x) v (au_acc a) \<and> second_ok x q (strip_domain v) (au_acc a)
     \<and> (\<exists>i attrs. re_send (ax_radius x) i (realm (ax_radius x) v) pw None = RAccept attrs)"
proof -
  obtain b res where p: "radius_login_phase1 (ax_radius x) now token cid username pw a = (b, res)"
    by (cases "radius_login_phase1 (ax_radius x) now token cid username pw a")
  note ph = phase1_cases [OF p]
  show ?thesis
  proof (cases res)
    case (RLAccept u role t us)
    with ph(2) [OF RLAccept] assms(1) p
    have e: "emit_post_auth x q u role token False (clear_failures (rq_ip q) b) = (a1, rep)"
      and k: "u = strip_domain username" "adds x now token u b a" "radius_row_ok (ax_radius x) u (au_acc a)"
        "\<exists>i attrs. re_send (ax_radius x) i (realm (ax_radius x) u) pw None = RAccept attrs"
      by (auto simp: radius_reply_of_def)
    from emit_live [OF e adds_cleared [OF k(2)] assms(2)] k(1,3,4) same_second_ok [OF ph(1)] show ?thesis by auto
  next
    case (RLChallenge cid' prompt)
    with ph(3) assms p show ?thesis by (auto simp: radius_reply_of_def live_same)
  next
    case RLReject
    with ph(3) assms p show ?thesis by (auto simp: radius_reply_of_def live_same dest!: reject_same)
  qed
qed

lemma login_live:
  assumes "login x q text pw a0 = (a1, rep)" "live x a1 h u"
  shows "live x a0 h u \<or> (\<exists>t. h = ax_sha x t \<and> justified x (Login q text pw) a0 t u)"
proof -
  obtain a g where g: "login_gate x (rq_now q) (rq_ip q) a0 = (a, g)" by (cases "login_gate x (rq_now q) (rq_ip q) a0")
  note same = login_gate_same [OF g]
  let ?n = "strip text" and ?c = "strip_domain (strip text)"
  let ?p = "radius_login_phase1 (ax_radius x) (rq_now q) (rq_token q) (rq_id q) ?n pw"
  let ?l = "auth_login x (rq_now q) (rq_token q) (rq_salt q) (rq_ip q) (rq_ua q) ?n pw a"
  have radius: ?thesis if "radius_reply_of x q (reject q) (?p b) = (a1, rep)" "same_sessions b a" "same_second (au_acc b) (au_acc a)"
      "au_acc b = au_acc a" for b
    using phase1_live [OF that(1) assms(2)] that same by (auto simp: live_same)
  obtain b res where l: "?l = (b, res)" by (cases ?l)
  note al = auth_login_cases [OF l]
  show ?thesis
  proof (cases g)
    case Free
    show ?thesis
    proof (cases "ax_radius_on x \<and> dget (ac_users (au_acc a)) ?c \<noteq> None \<and> db_get_user_auth_type ?c (au_acc a) = ''radius''")
      case True
      with assms(1) g Free have "radius_reply_of x q (reject q) (?p a) = (a1, rep)" by (simp add: login_def Let_def)
      from radius [OF this] show ?thesis by simp
    next
      case False
      show ?thesis
      proof (cases res)
        case None
        have acc: "au_acc b = au_acc a" if "dget (ac_users (au_acc a)) ?c = None"
          using l None that
          by (auto simp: auth_login_def Let_def db_add_ldap_user_def insert_user_def split: if_splits option.splits prod.splits)
        have "same_sessions b a" using al(2) None by simp
        then show ?thesis
          using assms g Free False l None same acc radius [of b] al(1)
          by (auto simp: login_def Let_def live_same split: if_splits dest!: reject_same)
      next
        case (Some t)
        from al(3) [OF Some] have k: "t = rq_token q" "adds x (rq_now q) (rq_token q) ?c b a" "cred_ok x ?c pw (au_acc a)" by blast+
        from assms(1) g Free False l Some obtain role
          where e: "emit_post_auth x q ?n role (rq_token q) False (clear_failures (rq_ip q) b) = (a1, rep)"
          using k(1) by (auto simp: login_def Let_def)
        from emit_live [OF e adds_cleared [OF k(2)] assms(2)] k(3) same same_second_ok [OF al(1)]
        show ?thesis by (auto simp: live_same)
      qed
    qed
  next
    case Limited
    with assms g same show ?thesis by (auto simp: login_def live_same)
  next
    case Crashed
    with assms g same show ?thesis by (auto simp: login_def live_same)
  qed
qed

lemma login_totp_live:
  assumes "login_totp x q cid code remember a0 = (a1, rep)" "live x a1 h u"
  shows "live x a0 h u \<or> (\<exists>t. h = ax_sha x t \<and> justified x (LoginCode q cid code remember) a0 t u)"
proof (cases "ax_pyotp x \<and> totp_resolve_challenge (rq_now q) (strip cid) a0 \<noteq> None")
  case False
  then have "same_sessions a1 a0"
    using assms(1) by (cases "totp_resolve_challenge (rq_now q) (strip cid) a0") (auto simp: login_totp_def Let_def split: if_splits)
  with assms(2) show ?thesis by (simp add: live_same)
next
  case True
  then obtain name role where r: "totp_resolve_challenge (rq_now q) (strip cid) a0 = Some (name, role)" by auto
  obtain a g where g: "code_gate x (rq_now q) (rq_ip q) a0 = (a, g)" by (cases "code_gate x (rq_now q) (rq_ip q) a0")
  note same = code_gate_same [OF g]
  obtain secret enabled codes where s: "db_get_totp name (au_acc a) = (secret, enabled, codes)"
    by (cases "db_get_totp name (au_acc a)")
  obtain consumed codes' where c: "totp_consume_recovery (ax_sha x) codes (strip code) = (consumed, codes')"
    by (cases "totp_consume_recovery (ax_sha x) codes (strip code)")
  let ?good = "totp_verify x (rq_now q) secret (strip code) \<or> consumed"
  have good: "code_good x (rq_now q) name (strip code) (au_acc a0) \<longleftrightarrow> ?good"
    using s c same by (simp add: code_good_def)
  show ?thesis
  proof (cases "g = Free \<and> ?good")
    case False
    with assms True r g s c same show ?thesis
      by (cases g) (auto simp: login_totp_def Let_def live_same dest!: reject_same)
  next
    case ok: True
    let ?b = "clear_failures (rq_ip q) (totp_consume_challenge (strip cid)
       (if \<not> totp_verify x (rq_now q) secret (strip code) \<and> consumed then on_acc (db_set_totp name secret True codes') a else a))"
    have b: "same_sessions ?b a" by (simp add: totp_consume_challenge_def)
    have "same_sessions a1 (create_session (ax_sha x) (ax_ttl x) (rq_now q) (rq_token q) name role (rq_ip q) (rq_ua q)
        (parse_user_agent_label (rq_ua q)) ?b)"
      using assms(1) True r g s c ok by (cases "remember \<and> 0 < ax_remember x") (auto simp: login_totp_def Let_def)
    with b have "adds x (rq_now q) (rq_token q) name a1 a" by (blast intro: adds_same adds_create)
    then have "adds x (rq_now q) (rq_token q) name a1 a0"
      using same by (blast intro: adds_base)
    from adds_live [OF this assms(2)] show ?thesis using r good ok by auto
  qed
qed

lemma login_radius_live:
  assumes "login_radius x q cid resp a0 = (a1, rep)" "live x a1 h u"
  shows "live x a0 h u \<or> (\<exists>t. h = ax_sha x t \<and> justified x (LoginRadius q cid resp) a0 t u)"
proof -
  obtain a g where g: "code_gate x (rq_now q) (rq_ip q) a0 = (a, g)" by (cases "code_gate x (rq_now q) (rq_ip q) a0")
  note same = code_gate_same [OF g]
  obtain b res where p: "radius_login_phase2 (ax_radius x) (rq_now q) (rq_token q) (rq_id q) (strip cid) resp a = (b, res)"
    by (cases "radius_login_phase2 (ax_radius x) (rq_now q) (rq_token q) (rq_id q) (strip cid) resp a")
  note ph = phase2_cases [OF p]
  show ?thesis
  proof (cases "g = Free \<and> strip cid \<noteq> [] \<and> resp \<noteq> []")
    case False
    with assms g same show ?thesis by (cases g) (auto simp: login_radius_def Let_def live_same)
  next
    case True
    show ?thesis
    proof (cases res)
      case (RLAccept v role t us)
      with ph(2) ph(1) [OF RLAccept] assms(1) g p True
      have e: "emit_post_auth x q v role (rq_token q) True (clear_failures (rq_ip q) b) = (a1, rep)"
        and k: "adds x (rq_now q) (rq_token q) v b a" by (auto simp: login_radius_def Let_def radius_reply_of_def)
      from emit_live [OF e adds_cleared [OF k] assms(2)] ph(1) [OF RLAccept] same show ?thesis by (auto simp: live_same)
    next
      case (RLChallenge c' prompt)
      with ph(2) assms g p True same show ?thesis by (auto simp: login_radius_def Let_def radius_reply_of_def live_same)
    next
      case RLReject
      with ph(2) assms g p True same show ?thesis
        by (auto simp: login_radius_def Let_def radius_reply_of_def live_same dest!: reject_same)
    qed
  qed
qed

section \<open>Requests\<close>

lemma token_ops_same [simp]:
  "same_sessions (fst (token_fill now t e a)) b \<longleftrightarrow> same_sessions a b"
  "same_sessions (change_token i f a) b \<longleftrightarrow> same_sessions a b"
  "same_sessions (auth_evict_api_token_hash k a) b \<longleftrightarrow> same_sessions a b"
  by (auto simp: token_fill_def db_touch_api_token_last_used_def change_token_def auth_evict_api_token_hash_def split: option.split)

lemma check_token_same: "same_sessions (fst (auth_check_api_token sha now t a)) a"
  by (auto simp: auth_check_api_token_def token_cached_def split: option.split)

lemma principal_fewer: "fewer x (fst (auth_principal x now hq a)) a"
proof -
  obtain a1 res where c: "auth_check (ax_sha x) (ax_ttl x) now (get_token hq) a = (a1, res)"
    by (cases "auth_check (ax_sha x) (ax_ttl x) now (get_token hq) a")
  have b: "same_sessions (fst (bearer_principal x now hq b)) b" for b
  proof (cases "get_bearer hq")
    case (Some t)
    obtain c e where "auth_check_api_token (ax_sha x) now t b = (c, e)" by (cases "auth_check_api_token (ax_sha x) now t b")
    with Some check_token_same [of "ax_sha x" now t b] show ?thesis
      by (simp add: bearer_principal_def split: option.split)
  qed (simp add: bearer_principal_def)
  have "fewer x (fst (auth_principal x now hq a)) a1"
    using c same_fewer [OF b] by (auto simp: auth_principal_def split: option.split)
  with auth_check_live(1) [OF c] show ?thesis by (blast intro: fewer_trans)
qed

lemma guard_fewer:
  assumes "\<And>u b. fewer x (fst (f u b)) b"
  shows "fewer x (fst (with_user x now hq f a)) a" "fewer x (fst (with_role x now hq r f a)) a"
    "fewer x (fst (with_cookie x now hq f a)) a"
proof -
  have chain: "fewer x (fst (f u b)) a" if "fewer x b a" for u b
    using fewer_trans assms that by blast
  show "fewer x (fst (with_user x now hq f a)) a" "fewer x (fst (with_role x now hq r f a)) a"
    "fewer x (fst (with_cookie x now hq f a)) a"
    using principal_fewer [of x now hq a] auth_check_live(1) [of x "ax_ttl x" now "get_token hq" a]
    by (auto simp: with_user_def with_role_def with_cookie_def split: prod.split sum.split option.split intro: chain)
qed

lemma handlers_same:
  "same_sessions (fst (create_user x salt f me b)) b"
  "same_sessions (fst (delete_user n me b)) b"
  "same_sessions (fst (change_password x salt cur pw me b)) b"
  "same_sessions (fst (patch_profile target full email gid nr role me b)) b"
  "same_sessions (fst (set_theme theme me b)) b" "same_sessions (fst (own_profile full email theme me b)) b"
  "same_sessions (fst (totp_setup x secret me b)) b"
  "same_sessions (fst (totp_confirm x now code plain me b)) b"
  "same_sessions (fst (totp_disable x now pw code me b)) b"
  "same_sessions (fst (totp_reset target me b)) b"
  "same_sessions (fst (create_token x now tok nm scope ex ses me b)) b"
  by (simp_all add: create_user_def create_account_def delete_user_def change_password_def patch_profile_def
      set_theme_def own_profile_def totp_setup_def totp_confirm_def totp_disable_def totp_reset_def create_token_def db_create_api_token_def Let_def split: prod.split option.split)

lemma revoke_token_same: "same_sessions (fst (revoke_token now i b)) b"
  by (auto simp: revoke_token_def db_revoke_api_token_def db_get_api_token_def split: option.split prod.split if_splits)

lemma revoke_fewer:
  "fewer x (auth_revoke_user_sessions n b) b"
  "fewer x (fst (auth_revoke_other_user_sessions sha n cur b)) b"
  "fewer x (fst (auth_revoke_session_by_id sha n i b)) b"
  by (auto simp: fewer_def live_def auth_revoke_user_sessions_def auth_revoke_other_user_sessions_def Let_def
      auth_revoke_session_by_id_def drop_sessions_def)

lemma reset_fewer: "fewer x (fst (reset_password y now salt n pw me b)) b"
proof -
  let ?c = "(on_acc (db_set_password (ax_kdf y) salt n pw) b)\<lparr> au_resets :=
      dput n now (au_resets (on_acc (db_set_password (ax_kdf y) salt n pw) b)) \<rparr>"
  have "fewer x (auth_revoke_user_sessions n ?c) b"
    by (rule fewer_trans [OF revoke_fewer(1) same_fewer]) simp
  then have "fewer x (on_acc (db_revoke_trusted_devices n) (auth_revoke_user_sessions n ?c)) b"
    by (rule fewer_trans [OF same_fewer, rotated]) simp
  then show ?thesis by (simp add: reset_password_def Let_def)
qed

lemma on_acc_fewer: "fewer x (on_acc f b) b"
  by (rule same_fewer) simp

lemmas handler_fewer = handlers_same [THEN same_fewer] revoke_token_same [THEN same_fewer] revoke_fewer reset_fewer on_acc_fewer

lemma action_fewer: "fewer x (fst (handle_action x now hq act a)) a"
proof (cases act)
  case (CreateToken plain nm scope ex)
  obtain b p where p: "auth_principal x now hq a = (b, p)" by (cases "auth_principal x now hq a")
  have "fewer x (fst (create_token x now plain nm scope ex s me b)) a" for s me
    using principal_fewer [of x now hq a] p fewer_trans [OF same_fewer [OF handlers_same(11)]] by simp
  with CreateToken p principal_fewer [of x now hq a] show ?thesis
    by (auto simp: handle_action_def split: sum.split prod.split)
next
  case Logout
  obtain b u where p: "auth_check (ax_sha x) (ax_ttl x) now (get_token hq) a = (b, u)"
    by (cases "auth_check (ax_sha x) (ax_ttl x) now (get_token hq) a")
  from Logout p auth_check_live(1) [OF p] fewer_trans [OF logout_fewer auth_check_live(1) [OF p]] show ?thesis
    by (simp add: handle_action_def)
next
  case (RevokeSession i)
  have "fewer x (fst (let (a1, ok) = auth_revoke_session_by_id sha me i b in (a1, if ok then 200 else 404))) b" for me b sha
    using revoke_fewer(3) [of x sha me i b] by (simp add: case_prod_beta)
  with RevokeSession show ?thesis by (auto simp: handle_action_def intro!: guard_fewer)
qed (auto simp: handle_action_def intro!: guard_fewer handler_fewer)


lemma step_live:
  assumes "live x (fst (auth_step x op a)) h u"
  shows "live x a h u \<or> (\<exists>t. h = ax_sha x t \<and> justified x op a t u)"
proof (cases op)
  case (Login q nm pw)
  with assms show ?thesis using login_live [of x q nm pw a] by (cases "login x q nm pw a") simp
next
  case (LoginCode q cid code remember)
  with assms show ?thesis
    using login_totp_live [of x q cid code remember a] by (cases "login_totp x q cid code remember a") simp
next
  case (LoginRadius q cid resp)
  with assms show ?thesis using login_radius_live [of x q cid resp a] by (cases "login_radius x q cid resp a") simp
next
  case (Request now hq act)
  with assms show ?thesis using action_fewer [of x now hq act a] by (simp add: fewer_def)
next
  case Restart
  with assms show ?thesis by (auto simp: live_def restart_server_def)
qed

lemma auth_run_snoc: "auth_run x (ops @ [op]) a = fst (auth_step x op (auth_run x ops a))"
  by (simp add: auth_run_def)

lemma run_live:
  assumes "live x (auth_run x ops a) h u" "\<not> live x a h u"
  shows "\<exists>i < length ops. \<exists>t. h = ax_sha x t \<and> justified x (ops ! i) (auth_run x (take i ops) a) t u"
  using assms
proof (induction ops rule: rev_induct)
  case Nil
  then show ?case by (simp add: auth_run_def)
next
  case (snoc op ops)
  from step_live [of x op "auth_run x ops a" h u] snoc.prems(1)
  consider "live x (auth_run x ops a) h u"
    | t where "h = ax_sha x t" "justified x op (auth_run x ops a) t u" by (auto simp: auth_run_snoc)
  then show ?case
  proof cases
    case 1
    from snoc.IH [OF this snoc.prems(2)] obtain i t where "i < length ops" "h = ax_sha x t"
      "justified x (ops ! i) (auth_run x (take i ops) a) t u" by blast
    then show ?thesis by (intro exI [of _ i]) (auto simp: nth_append)
  next
    case 2
    then show ?thesis by (intro exI [of _ "length ops"]) auto
  qed
qed

end
