(* ===== verification/ChallengeLaws.thy ===== *)
theory ChallengeLaws
  imports AuthLaws
begin

text \<open>
  Second-factor challenges: only a login that has checked the first factor opens one, and no other
  request adds any.
\<close>

definition opens :: "auth \<Rightarrow> auth \<Rightarrow> bool" where      \<comment> \<open>the first has no challenge that the second has not\<close>
  "opens b a \<longleftrightarrow> set (au_challenges b) \<subseteq> set (au_challenges a)"

lemma opens_refl [simp]: "opens a a"
  by (simp add: opens_def)

lemma opens_trans: "opens c b \<Longrightarrow> opens b a \<Longrightarrow> opens c a"
  by (auto simp: opens_def)

lemma opens_simps [simp]:
  "opens (on_acc f a) b \<longleftrightarrow> opens a b" "opens (a\<lparr> au_acc := acc \<rparr>) b \<longleftrightarrow> opens a b"
  "opens (a\<lparr> au_tokens := ts \<rparr>) b \<longleftrightarrow> opens a b" "opens (a\<lparr> au_next_token := n \<rparr>) b \<longleftrightarrow> opens a b"
  "opens (a\<lparr> au_cache := ca \<rparr>) b \<longleftrightarrow> opens a b" "opens (a\<lparr> au_pending := pe \<rparr>) b \<longleftrightarrow> opens a b"
  "opens (a\<lparr> au_ctx := cx \<rparr>) b \<longleftrightarrow> opens a b" "opens (a\<lparr> au_fails := fl \<rparr>) b \<longleftrightarrow> opens a b"
  "opens (a\<lparr> au_resets := rs \<rparr>) b \<longleftrightarrow> opens a b" "opens (a\<lparr> au_rows := rw \<rparr>) b \<longleftrightarrow> opens a b"
  "opens (a\<lparr> au_sessions := se \<rparr>) b \<longleftrightarrow> opens a b"
  "opens (create_session sha ttl now t c r ip ua l a) b \<longleftrightarrow> opens a b"
  "opens (auth_logout sha t a) b \<longleftrightarrow> opens a b" "opens (session_fill t s a) b \<longleftrightarrow> opens a b"
  "opens (prune_challenges now a) b \<longleftrightarrow> opens a b" "opens (prune_ctx now a) b \<longleftrightarrow> opens a b"
  "opens (clear_failures ip a) b \<longleftrightarrow> opens a b" "opens (record_failure now ip a) b \<longleftrightarrow> opens a b"
  "opens (change_token i g a) b \<longleftrightarrow> opens a b" "opens (auth_evict_api_token_hash k a) b \<longleftrightarrow> opens a b"
  "opens (drop_sessions P a) b \<longleftrightarrow> opens a b" "opens (auth_revoke_user_sessions m a) b \<longleftrightarrow> opens a b"
  "opens (fst (auth_revoke_other_user_sessions sha m t a)) b \<longleftrightarrow> opens a b"
  "opens (fst (auth_revoke_session_by_id sha m t a)) b \<longleftrightarrow> opens a b"
  by (simp_all add: opens_def on_acc_def create_session_def auth_logout_def session_fill_def prune_challenges_def
      prune_ctx_def clear_failures_def record_failure_def change_token_def auth_evict_api_token_hash_def drop_sessions_def
      auth_revoke_user_sessions_def auth_revoke_other_user_sessions_def auth_revoke_session_by_id_def Let_def)

section \<open>Logins\<close>

lemma auth_login_opens: "auth_login x now token salt ip ua username pw a = (a1, res) \<Longrightarrow> opens a1 a"
  by (auto simp: auth_login_def login_known_def Let_def split: if_splits option.splits prod.splits bool.splits)

lemma post_auth_opens: "radius_post_auth rx now token clean attrs used b = (a1, res) \<Longrightarrow> opens b a \<Longrightarrow> opens a1 a"
  by (auto simp: radius_post_auth_def radius_finish_def Let_def split: if_splits option.splits prod.splits bool.splits)

lemma phase1_opens:
  assumes "radius_login_phase1 rx now token cid username pw a = (a1, res)"
  shows "opens a1 a"
proof -
  have au: "opens b a" if "radius_authenticate c send now cid n w a = (b, r)" for b r c send n w
    using that by (auto simp: radius_authenticate_def Let_def split: if_splits option.splits prod.splits radius_reply.splits)
  show ?thesis
    using assms by (auto simp: radius_login_phase1_def Let_def split: prod.splits radius_result.splits if_splits
        dest: au dest!: post_auth_opens)
qed

lemma phase2_opens:
  assumes "radius_login_phase2 rx now token cid' cid resp a = (a1, res)"
  shows "opens a1 a"
proof -
  have co: "opens b a" if "radius_continue_challenge c send now cid' cid w (prune_ctx now a) = (b, r)" for b r c send w
    using that by (auto simp: radius_continue_challenge_def Let_def split: if_splits option.splits prod.splits radius_reply.splits)
  have po: "opens a2 a"
    if "radius_post_auth rx now token n ats True (b\<lparr> au_ctx := cx \<rparr>) = (a2, r)" "opens b a" for n ats b cx a2 r
    using post_auth_opens [OF that(1)] that(2) by simp
  show ?thesis
    using assms by (auto simp: radius_login_phase2_def Let_def split: prod.splits radius_result.splits if_splits option.splits
        dest: co po)
qed

lemma emit_opens:
  assumes "emit_post_auth x q username role token used a = (a1, rep)" "(c, ch) \<in> set (au_challenges a1)"
  shows "(c, ch) \<in> set (au_challenges a) \<or> \<not> used \<and> ch_user ch = strip_domain username"
  using assms
  by (auto simp: emit_post_auth_def Let_def totp_create_challenge_def auth_logout_def on_acc_def
      split: if_splits option.splits prod.splits dest!: dput_mem)

text \<open>The user of a challenge has given the password of the account, or that of a RADIUS name that strips to it.\<close>

definition first_factor :: "auth_env \<Rightarrow> string \<Rightarrow> string \<Rightarrow> string \<Rightarrow> auth \<Rightarrow> bool" where
  "first_factor x nm pw u a \<longleftrightarrow> u = strip_domain (strip nm) \<and> cred_ok x u pw (au_acc a)
     \<or> u = strip_domain (strip_domain (strip nm)) \<and> radius_row_ok (ax_radius x) (strip_domain (strip nm)) (au_acc a)
       \<and> (\<exists>i attrs. re_send (ax_radius x) i (realm (ax_radius x) (strip_domain (strip nm))) pw None = RAccept attrs)"

lemma radius_reply_opens:
  assumes "radius_reply_of x q (reject q) (b, res) = (a1, rep)" "(c, ch) \<in> set (au_challenges a1)" "opens b a"
  shows "(c, ch) \<in> set (au_challenges a)
     \<or> (\<exists>u role t. res = RLAccept u role t False \<and> ch_user ch = strip_domain u)"
proof (cases res)
  case (RLAccept u role t us)
  with assms(1) have e: "emit_post_auth x q u role t us (clear_failures (rq_ip q) b) = (a1, rep)"
    by (simp add: radius_reply_of_def)
  from emit_opens [OF e assms(2)] RLAccept assms(3) show ?thesis by (auto simp: opens_def clear_failures_def)
qed (use assms in \<open>auto simp: radius_reply_of_def reject_def opens_def record_failure_def\<close>)

lemma phase1_reply_opens:
  assumes "radius_reply_of x q (reject q) (radius_login_phase1 (ax_radius x) now token cid username pw a) = (a1, rep)"
    and "(c, ch) \<in> set (au_challenges a1)"
  shows "(c, ch) \<in> set (au_challenges a) \<or> ch_user ch = strip_domain (strip_domain username)
     \<and> radius_row_ok (ax_radius x) (strip_domain username) (au_acc a)
     \<and> (\<exists>i attrs. re_send (ax_radius x) i (realm (ax_radius x) (strip_domain username)) pw None = RAccept attrs)"
proof -
  obtain b res where p: "radius_login_phase1 (ax_radius x) now token cid username pw a = (b, res)"
    by (cases "radius_login_phase1 (ax_radius x) now token cid username pw a")
  from assms(1) have r: "radius_reply_of x q (reject q) (b, res) = (a1, rep)" by (simp only: p)
  from radius_reply_opens [OF r assms(2) phase1_opens [OF p]] show ?thesis
  proof (elim disjE exE conjE)
    fix u role t assume k: "res = RLAccept u role t False" "ch_user ch = strip_domain u"
    from phase1_cases(2) [OF p k(1)] k(2) show ?thesis by auto
  qed simp
qed

lemma login_opens:
  assumes "login x q nm pw a0 = (a1, rep)" "(c, ch) \<in> set (au_challenges a1)"
  shows "(c, ch) \<in> set (au_challenges a0) \<or> first_factor x nm pw (ch_user ch) a0"
proof -
  obtain a g where g: "login_gate x (rq_now q) (rq_ip q) a0 = (a, g)" by (cases "login_gate x (rq_now q) (rq_ip q) a0")
  have same: "au_challenges a = au_challenges a0" "au_acc a = au_acc a0" using g by (auto simp: login_gate_def Let_def)
  show ?thesis
  proof (cases g)
    case Free
    let ?p = "radius_login_phase1 (ax_radius x) (rq_now q) (rq_token q) (rq_id q) (strip nm) pw"
    obtain b res where l: "auth_login x (rq_now q) (rq_token q) (rq_salt q) (rq_ip q) (rq_ua q) (strip nm) pw a = (b, res)"
      by (cases "auth_login x (rq_now q) (rq_token q) (rq_salt q) (rq_ip q) (rq_ua q) (strip nm) pw a")
    note al = auth_login_cases [OF l]
    have ob: "opens b a" by (rule auth_login_opens [OF l])
    have rad: ?thesis if "radius_reply_of x q (reject q) (?p d) = (a1, rep)" "opens d a" "au_acc d = au_acc a" for d
      using phase1_reply_opens [OF that(1) assms(2)] that(2,3) same by (auto simp: opens_def first_factor_def)
    show ?thesis
    proof (cases "ax_radius_on x \<and> dget (ac_users (au_acc a)) (strip_domain (strip nm)) \<noteq> None
        \<and> db_get_user_auth_type (strip_domain (strip nm)) (au_acc a) = ''radius''")
      case True
      with assms(1) g Free have "radius_reply_of x q (reject q) (?p a) = (a1, rep)" by (simp add: login_def Let_def)
      from rad [OF this] show ?thesis by simp
    next
      case no: False
      show ?thesis
      proof (cases res)
        case None
        have acc: "au_acc b = au_acc a" if "dget (ac_users (au_acc a)) (strip_domain (strip nm)) = None"
          using l None that
          by (auto simp: auth_login_def Let_def db_add_ldap_user_def insert_user_def split: if_splits option.splits prod.splits)
        show ?thesis
        proof (cases "ax_radius_on x \<and> re_provision (ax_radius x) \<and> dget (ac_users (au_acc a)) (strip_domain (strip nm)) = None")
          case True
          then have "radius_reply_of x q (reject q) (?p b) = (a1, rep)"
            using assms(1) g Free no l None by (simp add: login_def Let_def)
          from rad [OF this ob acc] True show ?thesis by simp
        next
          case False
          then have "reject q b = (a1, rep)" using assms(1) g Free no l None by (auto simp: login_def Let_def split: if_splits)
          then show ?thesis using assms(2) ob same by (auto simp: reject_def record_failure_def opens_def)
        qed
      next
        case (Some t)
        from assms(1) g Free no l Some obtain role
          where e: "emit_post_auth x q (strip nm) role t False (clear_failures (rq_ip q) b) = (a1, rep)"
          by (auto simp: login_def Let_def)
        from emit_opens [OF e assms(2)] al(3) [OF Some] ob same show ?thesis
          by (auto simp: opens_def clear_failures_def first_factor_def)
      qed
    qed
  qed (use assms g same in \<open>auto simp: login_def\<close>)
qed

lemma code_gate_opens: "code_gate x now ip a0 = (a, g) \<Longrightarrow> opens a a0"
  by (auto simp: code_gate_def Let_def)

lemma login_totp_opens: "login_totp x q cid code remember a0 = (a1, rep) \<Longrightarrow> opens a1 a0"
proof -
  assume l: "login_totp x q cid code remember a0 = (a1, rep)"
  have c: "opens (totp_consume_challenge k b) a" if "opens b a" for k a b
    using that by (auto simp: opens_def totp_consume_challenge_def ddel_mem)
  obtain a g where g: "code_gate x (rq_now q) (rq_ip q) a0 = (a, g)" by (cases "code_gate x (rq_now q) (rq_ip q) a0")
  show ?thesis
    using l g code_gate_opens [OF g]
    by (auto simp: login_totp_def Let_def reject_def split: if_splits option.splits gate.splits prod.splits intro!: c)
qed

lemma login_radius_opens: "login_radius x q cid resp a0 = (a1, rep) \<Longrightarrow> opens a1 a0"
proof -
  assume l: "login_radius x q cid resp a0 = (a1, rep)"
  obtain a g where g: "code_gate x (rq_now q) (rq_ip q) a0 = (a, g)" by (cases "code_gate x (rq_now q) (rq_ip q) a0")
  note og = code_gate_opens [OF g]
  obtain b res where p: "radius_login_phase2 (ax_radius x) (rq_now q) (rq_token q) (rq_id q) (strip cid) resp a = (b, res)"
    by (cases "radius_login_phase2 (ax_radius x) (rq_now q) (rq_token q) (rq_id q) (strip cid) resp a")
  show ?thesis
  proof (cases "g = Free \<and> strip cid \<noteq> [] \<and> resp \<noteq> []")
    case True
    then have r: "radius_reply_of x q (reject q) (b, res) = (a1, rep)" using l g p by (simp add: login_radius_def Let_def)
    have "(c, ch) \<in> set (au_challenges a)" if "(c, ch) \<in> set (au_challenges a1)" for c ch
      using radius_reply_opens [OF r that phase2_opens [OF p]] phase2_cases(1) [OF p] by blast
    then show ?thesis using og by (auto simp: opens_def)
  qed (use l g og in \<open>cases g; auto simp: login_radius_def Let_def\<close>)
qed

section \<open>Requests\<close>

lemma check_opens: "auth_check sha ttl now t a = (b, r) \<Longrightarrow> opens b a"
  by (auto simp: auth_check_def split: if_splits option.splits)

lemma principal_opens: "auth_principal x now hq a = (b, p) \<Longrightarrow> opens b a"
proof -
  have tk: "opens c d" if "auth_check_api_token sha now t d = (c, e)" for sha t c d e
    using that by (auto simp: auth_check_api_token_def token_cached_def token_fill_def db_touch_api_token_last_used_def
        split: if_splits option.splits)
  have br: "opens c d" if "bearer_principal x now hq d = (c, e)" for c d e
    using that by (auto simp: bearer_principal_def split: option.splits prod.splits dest: tk)
  assume "auth_principal x now hq a = (b, p)"
  then show ?thesis
    by (auto simp: auth_principal_def split: option.splits prod.splits if_splits dest: check_opens br intro: opens_trans)
qed

lemma guard_opens:
  assumes "\<And>u b. opens (fst (f u b)) b"
  shows "opens (fst (with_user x now hq f a)) a" "opens (fst (with_role x now hq r f a)) a"
    "opens (fst (with_cookie x now hq f a)) a"
proof -
  have chain: "opens (fst (f u b)) a" if "opens b a" for u b using assms that by (rule opens_trans)
  show "opens (fst (with_user x now hq f a)) a" "opens (fst (with_role x now hq r f a)) a"
    "opens (fst (with_cookie x now hq f a)) a"
    by (auto simp: with_user_def with_role_def with_cookie_def split: prod.split sum.split option.split
        dest: principal_opens check_opens intro!: chain)
qed

lemma handlers_open:
  "opens (fst (create_user x salt f me b)) b" "opens (fst (delete_user n me b)) b"
  "opens (fst (reset_password x now salt n pw me b)) b"
  "opens (fst (change_password x salt cur pw me b)) b"
  "opens (fst (patch_profile target full email gid nr role me b)) b"
  "opens (fst (set_theme theme me b)) b" "opens (fst (own_profile full email theme me b)) b"
  "opens (fst (totp_setup x secret me b)) b" "opens (fst (totp_confirm x now code codes me b)) b"
  "opens (fst (totp_disable x now pw code me b)) b" "opens (fst (totp_reset target me b)) b"
  "opens (fst (create_token x now tok nm scope ex ses me b)) b"
  by (simp_all add: create_user_def create_account_def delete_user_def reset_password_def change_password_def patch_profile_def set_theme_def own_profile_def
      totp_setup_def totp_confirm_def totp_disable_def totp_reset_def create_token_def db_create_api_token_def Let_def
      split: prod.split option.split)

lemma revoke_token_open: "opens (fst (revoke_token now i b)) b"
  by (auto simp: revoke_token_def db_revoke_api_token_def db_get_api_token_def split: option.split prod.split if_splits)

lemma action_opens: "opens (fst (handle_action x now hq act a)) a"
proof (cases act)
  case (CreateToken tok nm scope ex)
  obtain b p where p: "auth_principal x now hq a = (b, p)" by (cases "auth_principal x now hq a")
  with CreateToken principal_opens [OF p] opens_trans [OF handlers_open(12)] show ?thesis
    by (auto simp: handle_action_def split: sum.split prod.split)
next
  case (RevokeSession i)
  have "opens (fst (let (a1, ok) = auth_revoke_session_by_id sha me i b in (a1, if ok then 200 else 404))) b" for me b sha
    by (simp add: case_prod_beta)
  with RevokeSession show ?thesis by (auto simp: handle_action_def intro!: guard_opens)
next
  case Logout
  then show ?thesis by (auto simp: handle_action_def split: prod.split dest: check_opens)
qed (auto simp: handle_action_def intro!: guard_opens handlers_open revoke_token_open)

lemma step_opens:
  assumes "(c, ch) \<in> set (au_challenges (fst (auth_step x op a)))" "(c, ch) \<notin> set (au_challenges a)"
  shows "\<exists>q nm pw. op = Login q nm pw \<and> first_factor x nm pw (ch_user ch) a"
proof (cases op)
  case (Login q nm pw)
  with assms show ?thesis using login_opens [of x q nm pw a] by (cases "login x q nm pw a") auto
next
  case (LoginCode q cid code remember)
  with assms show ?thesis
    using login_totp_opens [of x q cid code remember a] by (cases "login_totp x q cid code remember a") (auto simp: opens_def)
next
  case (LoginRadius q cid resp)
  with assms show ?thesis
    using login_radius_opens [of x q cid resp a] by (cases "login_radius x q cid resp a") (auto simp: opens_def)
next
  case (Request now hq act)
  with assms show ?thesis using action_opens [of x now hq act a] by (auto simp: opens_def)
next
  case Restart
  with assms show ?thesis by (simp add: restart_server_def)
qed

text \<open>A code that completes a login follows a login of the same run that checked the first factor.\<close>

lemma run_opens:
  assumes "(c, ch) \<in> set (au_challenges (auth_run x ops a))" "(c, ch) \<notin> set (au_challenges a)"
  shows "\<exists>j < length ops. \<exists>q nm pw. ops ! j = Login q nm pw \<and> first_factor x nm pw (ch_user ch) (auth_run x (take j ops) a)"
  using assms(1)
proof (induction ops rule: rev_induct)
  case Nil
  with assms(2) show ?case by (simp add: auth_run_def)
next
  case (snoc op ops)
  show ?case
  proof (cases "(c, ch) \<in> set (au_challenges (auth_run x ops a))")
    case True
    from snoc.IH [OF this] obtain j q nm pw where "j < length ops" "ops ! j = Login q nm pw"
      "first_factor x nm pw (ch_user ch) (auth_run x (take j ops) a)" by blast
    then show ?thesis by (intro exI [of _ j]) (auto simp: nth_append)
  next
    case False
    with snoc.prems step_opens [of c ch x op "auth_run x ops a"] obtain q nm pw where "op = Login q nm pw"
      "first_factor x nm pw (ch_user ch) (auth_run x ops a)" by (auto simp: auth_run_snoc)
    then show ?thesis by (intro exI [of _ "length ops"]) auto
  qed
qed

end
