(* ===== verification/LoginLaws.thy ===== *)
theory LoginLaws
  imports AuthLaws
begin

text \<open>
  Roles and failed attempts. Every role that is stored anywhere is one of the three the program knows
  (\<open>roles_ok\<close>), and no login writes another. Every rejected attempt is recorded under its address, and
  an address whose record is full is refused before anything is checked.
\<close>

section \<open>Roles\<close>

definition users_valid :: "accounts \<Rightarrow> bool" where
  "users_valid acc \<longleftrightarrow> (\<forall>(n, u) \<in> set (ac_users acc). us_role u \<in> valid_roles)
     \<and> (\<forall>(i, g) \<in> set (ac_groups acc). gr_role g \<in> valid_roles)"

definition roles_ok :: "auth \<Rightarrow> bool" where
  "roles_ok a \<longleftrightarrow> users_valid (au_acc a) \<and> (\<forall>(t, s) \<in> set (au_sessions a). se_role s \<in> valid_roles)
     \<and> (\<forall>(c, ch) \<in> set (au_challenges a). ch_role ch \<in> valid_roles)"

lemma valid_viewer [simp]: "''viewer'' \<in> valid_roles" "''admin'' \<in> valid_roles"
  by (simp_all add: valid_roles_def)

lemma str_or_valid: "r \<in> valid_roles \<Longrightarrow> str_or r d \<in> valid_roles"
  by (auto simp: str_or_def valid_roles_def)

lemma user_valid: "users_valid acc \<Longrightarrow> dget (ac_users acc) n = Some u \<Longrightarrow> us_role u \<in> valid_roles"
  by (auto simp: users_valid_def dest!: map_of_SomeD)

lemma ac_groups_update [simp]: "ac_groups (fst (update_user n f acc)) = ac_groups acc"
  by (simp add: update_user_def split: option.split)

lemma update_valid:
  assumes "users_valid acc" "\<And>u. us_role u \<in> valid_roles \<Longrightarrow> us_role (f u) \<in> valid_roles"
  shows "users_valid (fst (update_user n f acc))"
proof (cases "dget (ac_users acc) n")
  case (Some u)
  with assms user_valid [OF assms(1) Some] show ?thesis
    by (auto simp: update_user_def users_valid_def dest!: dput_mem)
qed (use assms in \<open>simp add: update_user_def\<close>)

lemma insert_valid: "users_valid acc \<Longrightarrow> us_role u \<in> valid_roles \<Longrightarrow> users_valid (fst (insert_user n u acc))"
  by (auto simp: insert_user_def users_valid_def dest!: dput_mem split: option.split)

lemma users_valid_simps [simp]:
  "users_valid (acc\<lparr> ac_trusted := ts \<rparr>) \<longleftrightarrow> users_valid acc"
  "users_valid (acc\<lparr> ac_next_td := k \<rparr>) \<longleftrightarrow> users_valid acc"
  "users_valid (acc\<lparr> ac_boards := bs \<rparr>) \<longleftrightarrow> users_valid acc"
  by (simp_all add: users_valid_def)

lemma account_ops_valid:
  assumes "users_valid acc"
  shows "users_valid (fst (db_update_profile n full email gid None theme acc))"
    "r \<in> valid_roles \<Longrightarrow> users_valid (fst (db_update_profile n full email gid (Some r) theme acc))"
    "users_valid (maybe_rehash kdf salt n pw st acc)" "users_valid (db_set_password kdf salt n pw acc)"
    "r \<in> valid_roles \<Longrightarrow> users_valid (fst (db_add_ldap_user n dm r full email g acc))"
    "r \<in> valid_roles \<Longrightarrow> users_valid (fst (db_add_radius_user n dm r full email g acc))"
    "r \<in> valid_roles \<Longrightarrow> users_valid (fst (db_add_user kdf salt n pw r acc))"
    "r \<in> valid_roles \<Longrightarrow> users_valid (radius_update_user n r g acc)"
    "users_valid (db_set_totp n secret en codes acc)"
    "users_valid (fst (update_user n (\<lambda>u. u\<lparr> us_group := None \<rparr>) acc))"
    "users_valid (fst (db_delete_user n acc))"
  using assms
  by (auto simp: db_update_profile_def maybe_rehash_def db_set_password_def db_add_ldap_user_def db_add_radius_user_def
      db_add_user_def radius_update_user_def new_user_def db_set_totp_def split: if_splits
      intro!: update_valid insert_valid) (auto simp: db_delete_user_def users_valid_def ddel_mem)

lemma groups_valid:
  "users_valid acc \<Longrightarrow> (i, g) \<in> set (db_get_ldap_mapped_groups acc) \<Longrightarrow> gr_role g \<in> valid_roles"
  "users_valid acc \<Longrightarrow> (i, g) \<in> set (db_get_radius_mapped_groups acc) \<Longrightarrow> gr_role g \<in> valid_roles"
  by (auto simp: db_get_ldap_mapped_groups_def db_get_radius_mapped_groups_def users_valid_def intro!: str_or_valid)

lemma best_group_mem: "best_group hit gs best = Some (i, g) \<Longrightarrow> (i, g) \<in> set gs \<or> best = Some (i, g)"
  by (induction hit gs best rule: best_group.induct) (auto split: if_splits)

lemma match_valid:
  assumes "users_valid acc" "match_user_to_groups x ms dn (db_get_ldap_mapped_groups acc) = Some (i, g)"
  shows "gr_role g \<in> valid_roles"
proof -
  have "(i, g) \<in> set (db_get_ldap_mapped_groups acc)"
    using assms(2) by (auto simp: match_user_to_groups_def split: option.splits if_splits dest!: best_group_mem)
  with assms(1) show ?thesis by (rule groups_valid(1))
qed

lemma roles_ok_simps [simp]:
  "roles_ok (on_acc f a) \<longleftrightarrow> users_valid (f (au_acc a)) \<and> roles_ok (a\<lparr> au_acc := f (au_acc a) \<rparr>)"
  "roles_ok (clear_failures ip a) \<longleftrightarrow> roles_ok a" "roles_ok (record_failure now ip a) \<longleftrightarrow> roles_ok a"
  "roles_ok (a\<lparr> au_fails := fl \<rparr>) \<longleftrightarrow> roles_ok a" "roles_ok (a\<lparr> au_pending := pe \<rparr>) \<longleftrightarrow> roles_ok a"
  "roles_ok (a\<lparr> au_ctx := cx \<rparr>) \<longleftrightarrow> roles_ok a" "roles_ok (a\<lparr> au_tokens := ts \<rparr>) \<longleftrightarrow> roles_ok a"
  "roles_ok (a\<lparr> au_next_token := k \<rparr>) \<longleftrightarrow> roles_ok a" "roles_ok (a\<lparr> au_cache := ca \<rparr>) \<longleftrightarrow> roles_ok a"
  "roles_ok (a\<lparr> au_resets := rs \<rparr>) \<longleftrightarrow> roles_ok a" "roles_ok (prune_challenges now a) \<longleftrightarrow> roles_ok a"
  "roles_ok (prune_ctx now a) \<longleftrightarrow> roles_ok a"
  by (auto simp: roles_ok_def on_acc_def clear_failures_def record_failure_def prune_challenges_def prune_ctx_def)

lemma roles_acc: "roles_ok a \<Longrightarrow> users_valid acc \<Longrightarrow> roles_ok (a\<lparr> au_acc := acc \<rparr>)"
  by (simp add: roles_ok_def)

lemma roles_users [dest]: "roles_ok a \<Longrightarrow> users_valid (au_acc a)"
  by (simp add: roles_ok_def)

lemma create_roles: "roles_ok a \<Longrightarrow> r \<in> valid_roles \<Longrightarrow> roles_ok (create_session sha ttl now t c r ip ua l a)"
  by (auto simp: roles_ok_def create_session_def dest!: dput_mem)

lemma logout_roles: "roles_ok a \<Longrightarrow> roles_ok (auth_logout sha t a)"
  by (auto simp: roles_ok_def auth_logout_def ddel_mem)

lemma check_roles: "roles_ok a \<Longrightarrow> roles_ok (fst (auth_check sha ttl now t a))"
proof -
  assume ok: "roles_ok a"
  have fill: "roles_ok (session_fill t s a)" if "se_role s \<in> valid_roles" for s
    using ok that by (auto simp: roles_ok_def session_fill_def dest!: dput_mem)
  have mem: "se_role s \<in> valid_roles" if "dget (au_sessions a) t = Some s" for s
    using ok map_of_SomeD [OF that] by (auto simp: roles_ok_def)
  have row: "se_role s \<in> valid_roles" if "session_lookup now h a = Some s" for s h
    using that user_valid [OF roles_users [OF ok]]
    by (auto simp: session_lookup_def bind_eq_Some_conv intro!: str_or_valid)
  show ?thesis using ok
    by (auto simp: auth_check_def logout_roles dest: mem row intro!: fill split: option.split)
qed

text \<open>The logins.\<close>

lemma sync_valid:
  assumes "users_valid acc" "r \<in> valid_roles" "ldap_login_sync x clean lr r gid acc = (acc', res)"
  shows "users_valid acc'" "res = Some role \<Longrightarrow> role \<in> valid_roles"
  using assms
  by (auto simp: ldap_login_sync_def Let_def account_ops_valid split: if_splits option.splits prod.splits
      dest: match_valid intro!: account_ops_valid)

lemma login_known_roles:
  assumes "roles_ok a" "dget (ac_users (au_acc a)) clean = Some u" "login_known x now token salt ip ua lbl clean pw u a = (a1, res)"
  shows "roles_ok a1"
proof -
  have r: "str_or (us_role u) ''viewer'' \<in> valid_roles"
    using user_valid [OF roles_users [OF assms(1)] assms(2)] by (rule str_or_valid)
  have up: "users_valid (maybe_rehash kdf s n pw st (au_acc a))" for kdf s n st
    using account_ops_valid(3) [OF roles_users [OF assms(1)]] .
  show ?thesis
    using assms(1,3) r up
    by (auto simp: login_known_def Let_def roles_acc account_ops_valid split: if_splits option.splits prod.splits
        dest: sync_valid [OF roles_users r] intro!: create_roles roles_acc)
qed

lemma auth_login_roles:
  assumes "roles_ok a" "auth_login x now token salt ip ua username pw a = (a1, res)"
  shows "roles_ok a1"
proof (cases "dget (ac_users (au_acc a)) (strip_domain username)")
  case (Some u)
  with assms login_known_roles [OF assms(1) Some] show ?thesis by (auto simp: auth_login_def Let_def)
next
  case None
  have m: "gr_role g \<in> valid_roles"
    if "match_user_to_groups x ms dn (db_get_ldap_mapped_groups (au_acc a)) = Some (i, g)" for ms dn i g
    using match_valid [OF roles_users [OF assms(1)] that] .
  have add: "users_valid acc" if "db_add_ldap_user n dm r f e i (au_acc a) = (acc, b)" "r \<in> valid_roles" for n dm r f e i acc b
    using account_ops_valid(5) [OF roles_users [OF assms(1)] that(2), of n dm f e i] that(1) by simp
  have dup: "b" if "db_add_ldap_user (strip_domain username) dm r f e i (au_acc a) = (acc, b)" for dm r f e i acc b
    using None that by (simp add: db_add_ldap_user_def insert_user_def)
  show ?thesis
    using assms None
    by (auto simp: auth_login_def Let_def split: if_splits option.splits prod.splits bool.splits
        dest: dup m add intro!: create_roles roles_acc)
qed

lemma emit_roles:
  assumes "roles_ok a" "role \<in> valid_roles" "emit_post_auth x q username role token used a = (a1, rep)"
  shows "roles_ok a1"
proof -
  have t: "users_valid (db_touch_trusted_device now i ip (au_acc a))" for now i ip
    using roles_users [OF assms(1)] by (simp add: db_touch_trusted_device_def)
  have c: "roles_ok (totp_create_challenge now cid n role b)" if "roles_ok b" for now cid n b
    using that assms(2) by (auto simp: roles_ok_def totp_create_challenge_def dest!: dput_mem)
  show ?thesis
    using assms t
    by (auto simp: emit_post_auth_def Let_def roles_acc split: if_splits option.splits prod.splits intro!: logout_roles c)
qed

lemma resolve_valid:
  assumes "users_valid acc" "d \<in> valid_roles"
  shows "snd (radius_resolve_role gid d attrs acc) \<in> valid_roles"
proof -
  let ?hits = "concat (map (\<lambda>(n, vs). concat (map (\<lambda>v. filter (\<lambda>(i, g). gr_rattr g = n \<and> gr_rval g = v)
                 (db_get_radius_mapped_groups acc)) vs)) attrs)"
  have e: "radius_resolve_role gid d attrs acc = (case ?hits of
       (i, g) # _ \<Rightarrow> (Some i, gr_role g)
     | [] \<Rightarrow> (case (if gid \<noteq> 0 then dget (ac_groups acc) gid else None) of
               Some g \<Rightarrow> (Some gid, str_or (gr_role g) ''viewer'') | None \<Rightarrow> (None, str_or d ''viewer'')))"
    by (simp add: radius_resolve_role_def Let_def)
  show ?thesis
  proof (cases ?hits)
    case Nil
    show ?thesis unfolding e Nil
      using assms by (auto simp: users_valid_def intro!: str_or_valid split: option.split dest!: map_of_SomeD)
  next
    case (Cons h hs)
    obtain i g where h: "h = (i, g)" by (cases h)
    have "h \<in> set ?hits" unfolding Cons by simp
    then have "(i, g) \<in> set (db_get_radius_mapped_groups acc)" unfolding h by auto
    then have "gr_role g \<in> valid_roles" by (rule groups_valid(2) [OF assms(1)])
    then show ?thesis unfolding e Cons h by simp
  qed
qed

lemma post_auth_roles:
  assumes "roles_ok a" "re_default_role rx \<in> valid_roles" "radius_post_auth rx now token clean attrs used a = (a1, res)"
  shows "roles_ok a1" "res = RLAccept u role t us \<Longrightarrow> role \<in> valid_roles"
proof -
  obtain gid r where g: "radius_resolve_role (re_default_gid rx) (re_default_role rx) attrs (au_acc a) = (gid, r)"
    by (cases "radius_resolve_role (re_default_gid rx) (re_default_role rx) attrs (au_acc a)")
  have r: "r \<in> valid_roles"
    using resolve_valid [OF roles_users [OF assms(1)] assms(2), of "re_default_gid rx" attrs] g by simp
  have add: "users_valid acc" if "db_add_radius_user n dm r f e i (au_acc a) = (acc, b)" for n dm f e i acc b
    using account_ops_valid(6) [OF roles_users [OF assms(1)] r, of n dm f e i] that by simp
  have up: "users_valid (radius_update_user clean r gid (au_acc a))"
    using account_ops_valid(8) [OF roles_users [OF assms(1)] r] .
  note defs = radius_post_auth_def radius_finish_def Let_def
  show "roles_ok a1"
    using assms g r up
    by (auto simp: defs roles_acc split: if_splits option.splits prod.splits bool.splits
        dest: add intro!: create_roles roles_acc)
  show "res = RLAccept u role t us \<Longrightarrow> role \<in> valid_roles"
    using assms g r by (auto simp: defs split: if_splits option.splits prod.splits bool.splits)
qed

lemma radius_step_roles:
  assumes "roles_ok a"
  shows "radius_authenticate c send now cid name pw a = (b, r) \<Longrightarrow> roles_ok b"
    "radius_continue_challenge c send now cid' cid resp a = (b, r) \<Longrightarrow> roles_ok b"
  using assms
  by (auto simp: radius_authenticate_def radius_continue_challenge_def Let_def
      split: if_splits option.splits prod.splits radius_reply.splits)

lemma phase1_roles:
  assumes "roles_ok a" "re_default_role rx \<in> valid_roles" "radius_login_phase1 rx now token cid username pw a = (a1, res)"
  shows "roles_ok a1 \<and> (\<forall>u role t us. res = RLAccept u role t us \<longrightarrow> role \<in> valid_roles)"
proof -
  have po: "roles_ok a2 \<and> (\<forall>u role t us. r = RLAccept u role t us \<longrightarrow> role \<in> valid_roles)"
    if "radius_post_auth rx now token n attrs False b = (a2, r)" "roles_ok b" for n attrs b a2 r
    using post_auth_roles [OF that(2) assms(2) that(1)] by auto
  show ?thesis
    using assms(3)
    by (auto simp: radius_login_phase1_def Let_def split: prod.splits radius_result.splits if_splits
        dest: radius_step_roles(1) [OF assms(1)] po)
qed

lemma phase2_roles:
  assumes "roles_ok a" "re_default_role rx \<in> valid_roles" "radius_login_phase2 rx now token cid' cid resp a = (a1, res)"
  shows "roles_ok a1 \<and> (\<forall>u role t us. res = RLAccept u role t us \<longrightarrow> role \<in> valid_roles)"
proof -
  have "roles_ok (prune_ctx now a)" using assms(1) by simp
  note st = radius_step_roles(2) [OF this]
  have po: "roles_ok a2 \<and> (\<forall>u role t us. r = RLAccept u role t us \<longrightarrow> role \<in> valid_roles)"
    if "radius_post_auth rx now token n attrs True (b\<lparr> au_ctx := c \<rparr>) = (a2, r)" "roles_ok b" for n attrs b c a2 r
    using post_auth_roles [OF _ assms(2) that(1)] that(2) by auto
  show ?thesis
    using assms(1,3)
    by (auto simp: radius_login_phase2_def Let_def split: prod.splits radius_result.splits if_splits option.splits
        dest: st po)
qed

lemma reply_roles:
  assumes "roles_ok b \<and> (\<forall>u role t us. res = RLAccept u role t us \<longrightarrow> role \<in> valid_roles)"
    "radius_reply_of x q (reject q) (b, res) = (a1, rep)"
  shows "roles_ok a1"
  using assms by (cases res) (auto simp: radius_reply_of_def reject_def dest: emit_roles [rotated 2])

lemma role_of_session: "roles_ok a \<Longrightarrow>
    (case auth_check_role now t a of Some r \<Rightarrow> str_or r ''viewer'' | None \<Rightarrow> ''viewer'') \<in> valid_roles"
  by (auto simp: auth_check_role_def roles_ok_def split: option.split dest!: map_of_SomeD intro!: str_or_valid)

lemma gate_roles: "roles_ok a \<Longrightarrow> roles_ok (fst (login_gate x now ip a))" "roles_ok a \<Longrightarrow> roles_ok (fst (code_gate x now ip a))"
  by (simp_all add: login_gate_def code_gate_def Let_def)

lemma login_roles:
  assumes "roles_ok a0" "re_default_role (ax_radius x) \<in> valid_roles" "login x q nm pw a0 = (a1, rep)"
  shows "roles_ok a1"
proof -
  obtain a g where g: "login_gate x (rq_now q) (rq_ip q) a0 = (a, g)" by (cases "login_gate x (rq_now q) (rq_ip q) a0")
  have ok: "roles_ok a" using gate_roles(1) [OF assms(1), of x "rq_now q" "rq_ip q"] g by simp
  have ph: "roles_ok c" if "roles_ok b"
      "radius_reply_of x q (reject q) (radius_login_phase1 (ax_radius x) n tk cid u w b) = (c, r)" for b c r n tk cid u w
    using that phase1_roles [OF that(1) assms(2), of n tk cid u w]
    by (cases "radius_login_phase1 (ax_radius x) n tk cid u w b") (auto dest: reply_roles [rotated])
  show ?thesis
  proof (cases g)
    case Free
    obtain b res where l: "auth_login x (rq_now q) (rq_token q) (rq_salt q) (rq_ip q) (rq_ua q) (strip nm) pw a = (b, res)"
      by (cases "auth_login x (rq_now q) (rq_token q) (rq_salt q) (rq_ip q) (rq_ua q) (strip nm) pw a")
    have b: "roles_ok b" by (rule auth_login_roles [OF ok l])
    have em: "roles_ok c" if "emit_post_auth x q u
        (case auth_check_role (rq_now q) t b of Some r \<Rightarrow> str_or r ''viewer'' | None \<Rightarrow> ''viewer'') t us (clear_failures ip b) = (c, r)"
      for c r u t us ip
      using emit_roles [OF _ role_of_session [OF b] that] b by simp
    show ?thesis
    proof (cases res)
      case None
      then show ?thesis
        using assms(3) g Free l b ok by (auto simp: login_def Let_def split: if_splits dest: ph) (auto simp: reject_def)
    next
      case (Some t)
      then show ?thesis
        using assms(3) g Free l b ok by (auto simp: login_def Let_def split: if_splits dest: ph em)
    qed
  qed (use assms(3) g ok in \<open>auto simp: login_def\<close>)
qed

lemma login_totp_roles:
  assumes "roles_ok a0" "login_totp x q cid code remember a0 = (a1, rep)"
  shows "roles_ok a1"
proof (cases "totp_resolve_challenge (rq_now q) (strip cid) a0")
  case None
  with assms show ?thesis by (auto simp: login_totp_def Let_def split: if_splits)
next
  case (Some nr)
  obtain n role where nr: "nr = (n, role)" by (cases nr)
  have r: "role \<in> valid_roles"
    using Some assms(1) unfolding nr
    by (auto simp: totp_resolve_challenge_def roles_ok_def split: option.splits if_splits dest!: map_of_SomeD)
  obtain a g where g: "code_gate x (rq_now q) (rq_ip q) a0 = (a, g)" by (cases "code_gate x (rq_now q) (rq_ip q) a0")
  have ok: "roles_ok a" using gate_roles(2) [OF assms(1), of x "rq_now q" "rq_ip q"] g by simp
  have consume: "roles_ok (totp_consume_challenge c b)" if "roles_ok b" for c b
    using that by (auto simp: roles_ok_def totp_consume_challenge_def ddel_mem)
  have totp: "users_valid (db_set_totp n s e cs (au_acc a))" for s e cs
    using account_ops_valid(9) [OF roles_users [OF ok]] .
  have tr: "users_valid (db_add_trusted_device now u h l hrs ip ua acc) \<longleftrightarrow> users_valid acc" for now u h l hrs ip ua acc
    by (simp add: db_add_trusted_device_def)
  have uv: "users_valid (au_acc b)" if "roles_ok b" for b using that by (rule roles_users)
  show ?thesis
    using assms Some g ok totp unfolding nr
    by (auto simp: login_totp_def Let_def reject_def tr split: if_splits gate.splits prod.splits
        intro!: create_roles r consume roles_acc uv)
qed

lemma login_radius_roles:
  assumes "roles_ok a0" "re_default_role (ax_radius x) \<in> valid_roles" "login_radius x q cid resp a0 = (a1, rep)"
  shows "roles_ok a1"
proof -
  obtain a g where g: "code_gate x (rq_now q) (rq_ip q) a0 = (a, g)" by (cases "code_gate x (rq_now q) (rq_ip q) a0")
  have ok: "roles_ok a" using gate_roles(2) [OF assms(1), of x "rq_now q" "rq_ip q"] g by simp
  have ph: "roles_ok c"
    if "radius_reply_of x q (reject q) (radius_login_phase2 (ax_radius x) n tk c' c0 w a) = (c, r)" for c r n tk c' c0 w
    using that phase2_roles [OF ok assms(2), of n tk c' c0 w]
    by (cases "radius_login_phase2 (ax_radius x) n tk c' c0 w a") (auto dest: reply_roles [rotated])
  show ?thesis
    using assms(3) g ok by (auto simp: login_radius_def Let_def split: if_splits gate.splits dest: ph)
qed

text \<open>Requests.\<close>

lemma token_roles [simp]: "roles_ok (change_token i f a) \<longleftrightarrow> roles_ok a" "roles_ok (auth_evict_api_token_hash k a) \<longleftrightarrow> roles_ok a"
  by (simp_all add: change_token_def auth_evict_api_token_hash_def)

lemma api_check_roles: "roles_ok a \<Longrightarrow> roles_ok (fst (auth_check_api_token sha now t a))"
  by (auto simp: auth_check_api_token_def token_cached_def token_fill_def db_touch_api_token_last_used_def split: option.split)

lemma principal_roles: "roles_ok a \<Longrightarrow> roles_ok (fst (auth_principal x now hq a))"
proof -
  assume ok: "roles_ok a"
  obtain b res where c: "auth_check (ax_sha x) (ax_ttl x) now (get_token hq) a = (b, res)"
    by (cases "auth_check (ax_sha x) (ax_ttl x) now (get_token hq) a")
  have b: "roles_ok b" using check_roles [OF ok, of "ax_sha x" "ax_ttl x" now "get_token hq"] c by simp
  have "roles_ok (fst (bearer_principal x now hq b))"
  proof (cases "get_bearer hq")
    case (Some t)
    obtain d e where "auth_check_api_token (ax_sha x) now t b = (d, e)" by (cases "auth_check_api_token (ax_sha x) now t b")
    with Some api_check_roles [OF b, of "ax_sha x" now t] show ?thesis by (simp add: bearer_principal_def split: option.split)
  qed (simp add: bearer_principal_def b)
  with b c show ?thesis by (auto simp: auth_principal_def split: option.split)
qed

lemma guard_roles:
  assumes "roles_ok a" "\<And>u b. roles_ok b \<Longrightarrow> roles_ok (fst (f u b))"
  shows "roles_ok (fst (with_user x now hq f a))" "roles_ok (fst (with_role x now hq r f a))"
    "roles_ok (fst (with_cookie x now hq f a))"
proof -
  have c: "roles_ok b" if "auth_check (ax_sha x) (ax_ttl x) now (get_token hq) a = (b, res)" for b res
    using check_roles [OF assms(1), of "ax_sha x" "ax_ttl x" now "get_token hq"] that by simp
  have p: "roles_ok b" if "auth_principal x now hq a = (b, pr)" for b pr
    using principal_roles [OF assms(1), of x now hq] that by simp
  show "roles_ok (fst (with_user x now hq f a))" "roles_ok (fst (with_role x now hq r f a))"
    "roles_ok (fst (with_cookie x now hq f a))"
    by (auto simp: with_user_def with_role_def with_cookie_def split: prod.split sum.split option.split
        dest: c p intro!: assms(2))
qed

lemma drop_roles: "roles_ok b \<Longrightarrow> roles_ok (drop_sessions P b)" "roles_ok (b\<lparr> au_rows := rs \<rparr>) \<longleftrightarrow> roles_ok b"
  by (auto simp: roles_ok_def drop_sessions_def)

lemma revoke_devices_valid: "users_valid (db_revoke_trusted_devices n acc) \<longleftrightarrow> users_valid acc"
  "users_valid (fst (db_revoke_trusted_device n i acc)) \<longleftrightarrow> users_valid acc"
  by (simp_all add: db_revoke_trusted_devices_def db_revoke_trusted_device_def)

lemma add_account_valid:
  "users_valid acc \<Longrightarrow> r \<in> valid_roles \<Longrightarrow> users_valid (fst (add_account x salt n pw r type dm acc))"
  by (auto simp: add_account_def account_ops_valid)

lemma create_user_roles: "roles_ok b \<Longrightarrow> roles_ok (fst (create_user x salt f me b))"
proof -
  assume ok: "roles_ok b"
  have fin: "roles_ok (b\<lparr> au_acc := case g of None \<Rightarrow> acc | Some i \<Rightarrow> fst (db_update_profile n [] [] (Some i) None None acc) \<rparr>)"
    if "users_valid acc" for n acc g
    using that ok by (auto intro!: roles_acc account_ops_valid split: option.split)
  have add: "users_valid acc" if "add_account x salt n pw r type dm (au_acc b) = (acc, k)" "r \<in> valid_roles"
    for n pw r type dm acc k
    using add_account_valid [OF roles_users [OF ok] that(2), of x salt n pw type dm] that(1) by simp
  have "roles_ok (fst (create_account x salt f n r type dm b))" if "r \<in> valid_roles" for n r type dm
    unfolding create_account_def Let_def using ok that by (auto split: prod.split intro!: fin dest: add)
  then show ?thesis by (simp add: create_user_def)
qed

lemma handler_roles:
  assumes "roles_ok b"
  shows "roles_ok (fst (delete_user n me b))" "roles_ok (fst (reset_password x now salt n pw me b))"
    "roles_ok (fst (change_password x salt cur pw me b))"
    "roles_ok (fst (patch_profile target full email gid nr role me b))"
    "roles_ok (fst (set_theme theme me b))" "roles_ok (fst (own_profile full email theme me b))"
    "roles_ok (fst (totp_setup x secret me b))" "roles_ok (fst (totp_confirm x now code codes me b))"
    "roles_ok (fst (totp_disable x now pw code me b))" "roles_ok (fst (totp_reset target me b))"
    "roles_ok (fst (create_token x now tok nm scope ex ses me b))" "roles_ok (fst (revoke_token now i b))"
proof -
  note ops = account_ops_valid [OF roles_users [OF assms]]
  have up: "roles_ok (on_acc f b)" if "users_valid (f (au_acc b))" for f
    using that assms by (simp add: roles_acc)
  show "roles_ok (fst (delete_user n me b))"
    using ops(11) [of n] assms by (auto simp: delete_user_def Let_def split: prod.split intro!: roles_acc)
  show "roles_ok (fst (reset_password x now salt n pw me b))"
    using ops(4) up assms
    by (auto simp: reset_password_def Let_def auth_revoke_user_sessions_def revoke_devices_valid on_acc_def drop_sessions_def
        roles_ok_def)
  show "roles_ok (fst (change_password x salt cur pw me b))"
    using ops(4) assms by (auto simp: change_password_def revoke_devices_valid comp_def intro!: up roles_acc)
  show "roles_ok (fst (patch_profile target full email gid nr role me b))"
    using ops(1,2) assms
    by (auto simp: patch_profile_def Let_def comp_def db_update_own_profile_def intro!: up roles_acc)
  have th: "users_valid (fst (db_update_theme n t acc))" if "users_valid acc" for n t acc
    using that by (auto simp: db_update_theme_def intro!: update_valid)
  have "users_valid (fst (db_update_theme me (lower (strip theme)) (au_acc b)))" by (rule th [OF roles_users [OF assms]])
  with assms show "roles_ok (fst (set_theme theme me b))" by (auto simp: set_theme_def Let_def case_prod_beta roles_acc)
  show "roles_ok (fst (own_profile full email theme me b))"
    using ops(1) assms by (auto simp: own_profile_def Let_def db_update_own_profile_def comp_def intro!: up roles_acc th)
  show "roles_ok (fst (totp_setup x secret me b))" "roles_ok (fst (totp_confirm x now code codes me b))"
    "roles_ok (fst (totp_disable x now pw code me b))" "roles_ok (fst (totp_reset target me b))"
    using ops(9) assms
    by (auto simp: totp_setup_def totp_confirm_def totp_disable_def totp_reset_def Let_def comp_def db_clear_totp_def
        revoke_devices_valid split: prod.split intro!: up roles_acc)
  show "roles_ok (fst (create_token x now tok nm scope ex ses me b))"
    using assms by (auto simp: create_token_def Let_def db_create_api_token_def split: option.split prod.split)
  show "roles_ok (fst (revoke_token now i b))"
    using assms by (auto simp: revoke_token_def db_revoke_api_token_def split: option.split)
qed

lemma action_roles:
  assumes "roles_ok a"
  shows "roles_ok (fst (handle_action x now hq act a))"
proof (cases act)
  case (CreateToken tok nm scope ex)
  obtain b p where p: "auth_principal x now hq a = (b, p)" by (cases "auth_principal x now hq a")
  have "roles_ok b" using principal_roles [OF assms, of x now hq] p by simp
  with CreateToken p handler_roles(11) show ?thesis by (auto simp: handle_action_def split: sum.split prod.split)
next
  case Logout
  obtain b u where p: "auth_check (ax_sha x) (ax_ttl x) now (get_token hq) a = (b, u)"
    by (cases "auth_check (ax_sha x) (ax_ttl x) now (get_token hq) a")
  have "roles_ok b" using check_roles [OF assms, of "ax_sha x" "ax_ttl x" now "get_token hq"] p by simp
  with Logout p logout_roles show ?thesis by (auto simp: handle_action_def)
next
  case (RevokeSession i)
  have "roles_ok (fst (let (a1, ok) = auth_revoke_session_by_id sha me i b in (a1, if ok then 200 else 404)))"
    if "roles_ok b" for me b sha
    using that by (simp add: auth_revoke_session_by_id_def drop_roles)
  with RevokeSession assms show ?thesis by (auto simp: handle_action_def intro!: guard_roles)
qed (auto simp: handle_action_def auth_revoke_other_user_sessions_def Let_def drop_roles revoke_devices_valid
      intro!: guard_roles assms create_user_roles handler_roles roles_acc roles_users)

lemma step_roles:
  assumes "roles_ok a" "re_default_role (ax_radius x) \<in> valid_roles"
  shows "roles_ok (fst (auth_step x op a))"
proof (cases op)
  case (Login q nm pw)
  with login_roles [OF assms, of q nm pw] show ?thesis by (cases "login x q nm pw a") simp
next
  case (LoginCode q cid code remember)
  with login_totp_roles [OF assms(1), of x q cid code remember] show ?thesis
    by (cases "login_totp x q cid code remember a") simp
next
  case (LoginRadius q cid resp)
  with login_radius_roles [OF assms, of q cid resp] show ?thesis by (cases "login_radius x q cid resp a") simp
next
  case (Request now hq act)
  with action_roles [OF assms(1)] show ?thesis by simp
next
  case Restart
  with assms(1) show ?thesis by (simp add: restart_server_def roles_ok_def)
qed

end
