(* ===== verification/Attempts.thy ===== *)
theory Attempts
  imports Access
begin

text \<open>
  The login routes section by section. The lock \<open>_FAIL_LOCK\<close> is held by the test of the limit and again by
  the record of the failure, and released in between, where the credentials are checked; the server
  handles requests in parallel. \<open>gate_of\<close>, \<open>check_of\<close> and \<open>settle_of\<close> are the three sections of a request;
  run one after another they are the handlers of \<open>Login\<close> (\<open>login_sections\<close>). \<open>lexec\<close> interleaves the
  sections of any number of requests with each other and with the other routes.
\<close>

section \<open>The sections\<close>

text \<open>What the check of the credentials finds: refused, answered at once, or accepted as a user with a role,
  a session token and whether a second factor was used.\<close>

datatype checked = Refused | Ended reply | Accepted string string string bool

definition radius_checked :: "auth \<times> radius_login \<Rightarrow> auth \<times> checked" where
  "radius_checked r = (case r of
       (a, RLChallenge cid prompt) \<Rightarrow> (a, Ended (Prompt cid prompt))
     | (a, RLAccept user role token used) \<Rightarrow> (a, Accepted user role token used)
     | (a, RLReject) \<Rightarrow> (a, Refused))"

text \<open>Up to and including the test of the limit: a reply, or the user and role of the challenge.\<close>

fun gate_of :: "auth_env \<Rightarrow> auth_op \<Rightarrow> auth \<Rightarrow> auth \<times> (reply + string \<times> string)" where
  "gate_of x (Login q u pw) a = (case login_gate x (rq_now q) (rq_ip q) a of
       (b, Crashed) \<Rightarrow> (b, Inl ServerError) | (b, Limited) \<Rightarrow> (b, Inl (Failed 429)) | (b, Free) \<Rightarrow> (b, Inr ([], [])))"
| "gate_of x (LoginCode q cid code remember) a =
     (if \<not> ax_pyotp x then (a, Inl (Failed 503))
      else case totp_resolve_challenge (rq_now q) (strip cid) a of
             None \<Rightarrow> (a, Inl (Failed 401))
           | Some who \<Rightarrow> (case code_gate x (rq_now q) (rq_ip q) a of
                (b, Free) \<Rightarrow> (b, Inr who) | (b, _) \<Rightarrow> (b, Inl (Failed 429))))"
| "gate_of x (LoginRadius q cid resp) a = (case code_gate x (rq_now q) (rq_ip q) a of
       (b, Free) \<Rightarrow> (b, Inr ([], [])) | (b, _) \<Rightarrow> (b, Inl (Failed 429)))"
| "gate_of x op a = (a, Inl ServerError)"

definition password_check :: "auth_env \<Rightarrow> request \<Rightarrow> string \<Rightarrow> string \<Rightarrow> auth \<Rightarrow> auth \<times> checked" where
  "password_check x q user_text pw a =
     (let username = strip user_text; clean = strip_domain username;
          phase1 = radius_login_phase1 (ax_radius x) (rq_now q) (rq_token q) (rq_id q) username pw;
          known = dget (ac_users (au_acc a)) clean \<noteq> None
      in if ax_radius_on x \<and> known \<and> db_get_user_auth_type clean (au_acc a) = ''radius''
         then radius_checked (phase1 a)
         else case auth_login x (rq_now q) (rq_token q) (rq_salt q) (rq_ip q) (rq_ua q) username pw a of
                (a1, None) \<Rightarrow> (if ax_radius_on x \<and> re_provision (ax_radius x) \<and> \<not> known
                   then radius_checked (phase1 a1) else (a1, Refused))
              | (a1, Some token) \<Rightarrow> (a1, Accepted username
                   (case auth_check_role (rq_now q) token a1 of Some r \<Rightarrow> str_or r ''viewer'' | None \<Rightarrow> ''viewer'') token False))"

definition code_check :: "auth_env \<Rightarrow> request \<Rightarrow> string \<Rightarrow> string \<times> string \<Rightarrow> auth \<Rightarrow> auth \<times> checked" where
  "code_check x q code_text who a =
     (let code = strip code_text; (secret, enabled, codes) = db_get_totp (fst who) (au_acc a);
          (consumed, codes') = totp_consume_recovery (ax_sha x) codes code
      in if totp_verify x (rq_now q) secret code then (a, Accepted (fst who) (snd who) (rq_token q) True)
         else if consumed
         then (on_acc (db_set_totp (fst who) secret True codes') a, Accepted (fst who) (snd who) (rq_token q) True)
         else (a, Refused))"

fun check_of :: "auth_env \<Rightarrow> auth_op \<Rightarrow> string \<times> string \<Rightarrow> auth \<Rightarrow> auth \<times> checked" where
  "check_of x (Login q u pw) who a = password_check x q u pw a"
| "check_of x (LoginCode q cid code remember) who a = code_check x q code who a"
| "check_of x (LoginRadius q cid resp) who a =
     (if strip cid = [] \<or> resp = [] then (a, Ended (Failed 400))
      else radius_checked (radius_login_phase2 (ax_radius x) (rq_now q) (rq_token q) (rq_id q) (strip cid) resp a))"
| "check_of x op who a = (a, Ended ServerError)"

text \<open>The end: the failure is recorded, or the record of the address is cleared and the session is issued.\<close>

definition code_settle :: "auth_env \<Rightarrow> request \<Rightarrow> string \<Rightarrow> bool \<Rightarrow> string \<Rightarrow> string \<Rightarrow> auth \<Rightarrow> auth \<times> reply" where
  "code_settle x q cid remember name role a =
     (let a2 = create_session (ax_sha x) (ax_ttl x) (rq_now q) (rq_token q) name role (rq_ip q) (rq_ua q)
                 (parse_user_agent_label (rq_ua q)) (clear_failures (rq_ip q) (totp_consume_challenge (strip cid) a))
      in if remember \<and> 0 < ax_remember x
         then (on_acc (db_add_trusted_device (rq_now q) name (ax_sha x (rq_device q)) (parse_user_agent_label (rq_ua q))
                  (ax_remember x) (rq_ip q) (rq_ua q)) a2, Granted (rq_token q) name role (Some (rq_device q)))
         else (a2, Granted (rq_token q) name role None))"

definition settle_of :: "auth_env \<Rightarrow> ts \<Rightarrow> request \<Rightarrow> auth_op \<Rightarrow> checked \<Rightarrow> auth \<Rightarrow> auth \<times> reply" where
  "settle_of x now q op c a = (case c of
       Refused \<Rightarrow> (record_failure now (rq_ip q) a, Failed 401)
     | Ended rep \<Rightarrow> (a, rep)
     | Accepted user role token used \<Rightarrow> (case op of
           LoginCode _ cid _ remember \<Rightarrow> code_settle x q cid remember user role a
         | _ \<Rightarrow> emit_post_auth x q user role token used (clear_failures (rq_ip q) a)))"

fun request_of :: "auth_op \<Rightarrow> request option" where
  "request_of (Login q _ _) = Some q"
| "request_of (LoginCode q _ _ _) = Some q"
| "request_of (LoginRadius q _ _) = Some q"
| "request_of (Request _ _ _) = None"
| "request_of Restart = None"

text \<open>Run one after another, the sections are the handler.\<close>

definition settled :: "auth_env \<Rightarrow> request \<Rightarrow> auth_op \<Rightarrow> auth \<times> checked \<Rightarrow> auth \<times> reply" where
  "settled x q op d = settle_of x (rq_now q) q op (snd d) (fst d)"

definition sections_of :: "auth_env \<Rightarrow> request \<Rightarrow> auth_op \<Rightarrow> auth \<Rightarrow> auth \<times> reply" where
  "sections_of x q op a = (case gate_of x op a of
       (b, Inl rep) \<Rightarrow> (b, rep)
     | (b, Inr who) \<Rightarrow> settled x q op (check_of x op who b))"

lemma radius_sections:
  "settled x q (Login q u pw) (radius_checked r) = radius_reply_of x q (reject q) r"
  "settled x q (LoginRadius q cid resp) (radius_checked r) = radius_reply_of x q (reject q) r"
  by (simp_all add: settled_def radius_checked_def settle_of_def radius_reply_of_def reject_def split: prod.split radius_login.split)

lemma settled_simps:
  "settled x q op (a, Refused) = reject q a" "settled x q op (a, Ended rep) = (a, rep)"
  "settled x q (Login q u pw) (a, Accepted n r t used) = emit_post_auth x q n r t used (clear_failures (rq_ip q) a)"
  "settled x q (LoginCode q cid code remember) (a, Accepted n r t used) = code_settle x q cid remember n r a"
  by (simp_all add: settled_def settle_of_def reject_def)

lemma login_sections:
  assumes "request_of op = Some q"
  shows "auth_step x op a = map_prod id Some (sections_of x q op a)"
proof (cases op)
  case (Login q' u pw)
  with assms have op: "op = Login q u pw" by simp
  obtain b g where g: "login_gate x (rq_now q) (rq_ip q) a = (b, g)" by force
  have "login x q u pw a = sections_of x q op a"
    unfolding op by (cases g) (auto simp: sections_of_def login_def g password_check_def Let_def radius_sections settled_simps
        split: prod.split option.split)
  then show ?thesis by (simp add: op)
next
  case (LoginCode q' cid code remember)
  with assms have op: "op = LoginCode q cid code remember" by simp
  have "login_totp x q cid code remember a = sections_of x q op a"
    unfolding op by (auto simp: sections_of_def login_totp_def code_check_def Let_def settled_simps code_settle_def
        split: prod.split option.split gate.split)
  then show ?thesis by (simp add: op)
next
  case (LoginRadius q' cid resp)
  with assms have op: "op = LoginRadius q cid resp" by simp
  have "login_radius x q cid resp a = sections_of x q op a"
    unfolding op by (auto simp: sections_of_def login_radius_def Let_def radius_sections settled_simps split: prod.split gate.split)
  then show ?thesis by (simp add: op)
qed (use assms in simp_all)

section \<open>Requests in parallel\<close>

datatype attempt = Gated auth_op "string \<times> string" | Judged auth_op checked

record desk =
  dk_auth :: auth
  dk_open :: "(nat, attempt) dict"           \<comment> \<open>requests between two sections, by number\<close>

datatype lev = Enter nat auth_op | Check nat | Settle nat ts | Other auth_op

fun lexec :: "auth_env \<Rightarrow> lev \<Rightarrow> desk \<Rightarrow> desk" where
  "lexec x (Enter k op) s = (if request_of op = None \<or> dget (dk_open s) k \<noteq> None then s
     else case gate_of x op (dk_auth s) of
            (a, Inl rep) \<Rightarrow> s\<lparr> dk_auth := a \<rparr>
          | (a, Inr who) \<Rightarrow> s\<lparr> dk_auth := a, dk_open := dput k (Gated op who) (dk_open s) \<rparr>)"
| "lexec x (Check k) s = (case dget (dk_open s) k of
       Some (Gated op who) \<Rightarrow> (case check_of x op who (dk_auth s) of
          (a, c) \<Rightarrow> s\<lparr> dk_auth := a, dk_open := dput k (Judged op c) (dk_open s) \<rparr>)
     | _ \<Rightarrow> s)"
| "lexec x (Settle k now) s = (case dget (dk_open s) k of
       Some (Judged op c) \<Rightarrow> (case request_of op of
          None \<Rightarrow> s
        | Some q \<Rightarrow> s\<lparr> dk_auth := fst (settle_of x now q op c (dk_auth s)), dk_open := ddel k (dk_open s) \<rparr>)
     | _ \<Rightarrow> s)"
| "lexec x (Other op) s = (if request_of op = None then s\<lparr> dk_auth := fst (auth_step x op (dk_auth s)) \<rparr> else s)"

definition lrun :: "auth_env \<Rightarrow> lev list \<Rightarrow> desk \<Rightarrow> desk" where
  "lrun x es s = foldl (\<lambda>s e. lexec x e s) s es"

text \<open>A credential checked and refused.\<close>

fun refusal :: "auth_env \<Rightarrow> string \<Rightarrow> lev \<Rightarrow> desk \<Rightarrow> bool" where
  "refusal x ip (Check k) s = (case dget (dk_open s) k of
       Some (Gated op who) \<Rightarrow> map_option rq_ip (request_of op) = Some ip \<and> snd (check_of x op who (dk_auth s)) = Refused
     | _ \<Rightarrow> False)"
| "refusal x ip _ s = False"

fun refusals :: "auth_env \<Rightarrow> string \<Rightarrow> lev list \<Rightarrow> desk \<Rightarrow> nat" where
  "refusals x ip [] s = 0"
| "refusals x ip (e # es) s = (if refusal x ip e s then 1 else 0) + refusals x ip es (lexec x e s)"

text \<open>One request after another: the sections of a request with nothing in between.\<close>

definition desk_of :: "auth \<Rightarrow> desk" where
  "desk_of a = \<lparr> dk_auth = a, dk_open = [] \<rparr>"

definition alone :: "request \<Rightarrow> auth_op \<Rightarrow> lev list" where
  "alone q op = [Enter 0 op, Check 0, Settle 0 (rq_now q)]"

definition refused_alone :: "auth_env \<Rightarrow> auth_op \<Rightarrow> auth \<Rightarrow> bool" where
  "refused_alone x op a = (case gate_of x op a of
       (b, Inl rep) \<Rightarrow> False | (b, Inr who) \<Rightarrow> snd (check_of x op who b) = Refused)"

lemma lrun_append: "lrun x (es @ fs) s = lrun x fs (lrun x es s)"
  by (simp add: lrun_def)

lemma refusals_append: "refusals x ip (es @ fs) s = refusals x ip es s + refusals x ip fs (lrun x es s)"
  by (induction es arbitrary: s) (simp_all add: lrun_def)

theorem run_alone:
  assumes "request_of op = Some q"
  shows "lrun x (alone q op) (desk_of a) = desk_of (fst (auth_step x op a))"
    and "refusals x ip (alone q op) (desk_of a) = of_bool (rq_ip q = ip \<and> refused_alone x op a)"
proof -
  obtain b r where g: "gate_of x op a = (b, r)" by force
  show "lrun x (alone q op) (desk_of a) = desk_of (fst (auth_step x op a))"
    by (cases r) (auto simp: lrun_def alone_def desk_of_def g assms login_sections [OF assms] sections_of_def settled_def
        split: prod.split)
  show "refusals x ip (alone q op) (desk_of a) = of_bool (rq_ip q = ip \<and> refused_alone x op a)"
    by (cases r) (auto simp: alone_def desk_of_def g assms refused_alone_def split: prod.split)
qed

end
