(* ===== verification/FailLaws.thy ===== *)
theory FailLaws
  imports Attempts AuthLaws
begin

text \<open>
  The limit on failed logins, with requests handled in parallel. A credential that is checked and
  refused counts; every request between its test of the limit and its record may still do so, so the
  bound is the configured number and one less than the requests of the address that are under way at
  once, until one of them clears the record.
\<close>

section \<open>The record\<close>

definition entry :: "string \<Rightarrow> (string, ts list) dict \<Rightarrow> ts list" where
  "entry ip m = (case dget m ip of Some ts \<Rightarrow> ts | None \<Rightarrow> [])"

definition kept :: "ts \<Rightarrow> string \<Rightarrow> auth \<Rightarrow> nat" where
  "kept t ip a = length (filter (\<lambda>u. t \<le> u) (entry ip (au_fails a)))"

definition fails_ok :: "string set \<Rightarrow> auth \<Rightarrow> bool" where
  "fails_ok S a \<longleftrightarrow> distinct (map fst (au_fails a)) \<and> fst ` set (au_fails a) \<subseteq> S"

section \<open>What changes the record\<close>

lemma fails_simps [simp]:
  "au_fails (create_session sha ttl now t c r ip ua l a) = au_fails a"
  "au_fails (on_acc f a) = au_fails a" "au_fails (auth_logout sha t a) = au_fails a"
  "au_fails (totp_create_challenge now c n r a) = au_fails a" "au_fails (totp_consume_challenge c a) = au_fails a"
  "au_fails (prune_challenges now a) = au_fails a" "au_fails (prune_ctx now a) = au_fails a"
  by (simp_all add: create_session_def on_acc_def auth_logout_def totp_create_challenge_def totp_consume_challenge_def
      prune_challenges_def prune_ctx_def)

lemma auth_login_fails: "auth_login x now token salt ip ua username pw a = (a1, res) \<Longrightarrow> au_fails a1 = au_fails a"
  by (auto simp: auth_login_def login_known_def Let_def split: if_splits option.splits prod.splits bool.splits)

lemma post_auth_fails: "radius_post_auth rx now token clean attrs used a = (a1, res) \<Longrightarrow> au_fails a1 = au_fails a"
  by (auto simp: radius_post_auth_def radius_finish_def Let_def split: if_splits option.splits prod.splits bool.splits)

lemma phase1_fails:
  assumes "radius_login_phase1 rx now token cid username pw a = (a1, res)"
  shows "au_fails a1 = au_fails a"
proof -
  have au: "au_fails b = au_fails a" if "radius_authenticate c send now cid n w a = (b, r)" for b r c send n w
    using that by (auto simp: radius_authenticate_def Let_def split: if_splits option.splits prod.splits radius_reply.splits)
  show ?thesis
    using assms by (auto simp: radius_login_phase1_def Let_def split: prod.splits radius_result.splits if_splits
        dest: au dest!: post_auth_fails)
qed

lemma phase2_fails:
  assumes "radius_login_phase2 rx now token cid' cid resp a = (a1, res)"
  shows "au_fails a1 = au_fails a"
proof -
  have co: "au_fails b = au_fails a" if "radius_continue_challenge c send now cid' cid w (prune_ctx now a) = (b, r)" for b r c send w
    using that by (auto simp: radius_continue_challenge_def Let_def split: if_splits option.splits prod.splits radius_reply.splits)
  show ?thesis
    using assms by (auto simp: radius_login_phase2_def Let_def split: prod.splits radius_result.splits if_splits option.splits
        dest: co dest!: post_auth_fails)
qed

lemma emit_fails: "au_fails (fst (emit_post_auth x q username role token used a)) = au_fails a"
  by (auto simp: emit_post_auth_def Let_def split: option.splits prod.splits)

lemma radius_checked_auth: "fst (radius_checked r) = fst r"
  by (auto simp: radius_checked_def split: prod.splits radius_login.splits)

text \<open>The check of the credentials leaves the record alone, and the other routes do.\<close>

lemma check_fails: "au_fails (fst (check_of x op who a)) = au_fails a"
proof (cases op)
  case (Login q u pw)
  have l: "au_fails b = au_fails a" if "auth_login x n tk s ip ua nm pw a = (b, res)" for n tk s ip ua nm b res
    using that by (rule auth_login_fails)
  have p: "au_fails (fst (radius_login_phase1 rx n tk cid nm pw b)) = au_fails b" for rx n tk cid nm b
    by (rule phase1_fails [OF prod.collapse [symmetric]])
  show ?thesis by (auto simp: Login password_check_def Let_def radius_checked_auth p l split: option.split prod.split)
next
  case (LoginRadius q cid resp)
  have p: "au_fails (fst (radius_login_phase2 rx n tk c i r a)) = au_fails a" for rx n tk c i r
    by (rule phase2_fails [OF prod.collapse [symmetric]])
  show ?thesis by (simp add: LoginRadius radius_checked_auth p)
qed (simp_all add: code_check_def Let_def split: prod.split)

lemma settle_fails:
  "au_fails (fst (settle_of x now q op Refused a)) = dput (rq_ip q) (entry (rq_ip q) (au_fails a) @ [now]) (au_fails a)"
  "au_fails (fst (settle_of x now q op (Ended rep) a)) = au_fails a"
  "au_fails (fst (settle_of x now q op (Accepted u r tk used) a)) = ddel (rq_ip q) (au_fails a)"
  by (auto simp: settle_of_def record_failure_def entry_def emit_fails code_settle_def Let_def clear_failures_def
      split: auth_op.split)

section \<open>The gates\<close>

lemma map_of_filter_distinct:
  "distinct (map fst m) \<Longrightarrow> map_of (filter P m) k = (case map_of m k of Some v \<Rightarrow> if P (k, v) then Some v else None | None \<Rightarrow> None)"
  by (induction m) (auto split: option.split dest!: map_of_SomeD intro: rev_image_eqI simp: map_of_eq_None_iff)

lemma distinct_filter_keys: "distinct (map fst m) \<Longrightarrow> distinct (map fst (filter P m))"
  by (induction m) auto

lemma keys_dput: "fst ` set (dput k v m) = insert k (fst ` set m)"
  by (induction m) auto

lemma small_dict:
  assumes "distinct (map fst m)" "fst ` set m \<subseteq> S" "finite S" "card S \<le> n"
  shows "length m \<le> n"
proof -
  have "length m = card (fst ` set m)"
    using distinct_card [OF assms(1)] by simp
  also have "\<dots> \<le> card S" by (rule card_mono [OF assms(3,2)])
  finally show ?thesis using assms(4) by simp
qed

lemma capped_id:
  "distinct (map fst m) \<Longrightarrow> fst ` set m \<subseteq> S \<Longrightarrow> finite S \<Longrightarrow> card S \<le> FAIL_CAP \<Longrightarrow> capped m = m"
  using small_dict [of m S FAIL_CAP] by (simp add: capped_def)

lemma entry_dput: "entry i (dput k v m) = (if i = k then v else entry i m)"
  by (simp add: entry_def dict_simps)

text \<open>What a gate leaves: the recent entries of the address, all entries of the others.\<close>

definition gated :: "auth_env \<Rightarrow> string set \<Rightarrow> request \<Rightarrow> auth \<Rightarrow> auth \<Rightarrow> gate \<Rightarrow> bool" where
  "gated x S q a0 a g \<longleftrightarrow> fails_ok S a \<and> entry (rq_ip q) (au_fails a) = recent x (rq_now q) (rq_ip q) a0
     \<and> (\<forall>j. j \<noteq> rq_ip q \<longrightarrow> entry j (au_fails a) = entry j (au_fails a0))
     \<and> (g = Free \<longleftrightarrow> int (length (recent x (rq_now q) (rq_ip q) a0)) < ax_max x)"

lemma code_gate_gated:
  assumes "fails_ok S a0" "rq_ip q \<in> S" "code_gate x (rq_now q) (rq_ip q) a0 = (a, g)"
  shows "gated x S q a0 a g"
proof -
  let ?m = "dput (rq_ip q) (recent x (rq_now q) (rq_ip q) a0) (au_fails a0)"
  have d: "distinct (map fst ?m)" "fst ` set ?m \<subseteq> S"
    using assms(1,2) by (simp_all add: fails_ok_def distinct_dput keys_dput)
  from assms(3) have a: "a = a0\<lparr> au_fails := ?m \<rparr>"
    and g: "g = (if ax_max x \<le> int (length (recent x (rq_now q) (rq_ip q) a0)) then Limited else Free)"
    by (simp_all add: code_gate_def Let_def)
  show ?thesis unfolding gated_def fails_ok_def a g using d by (simp add: entry_dput)
qed

lemma login_gate_gated:
  assumes "fails_ok S a0" "rq_ip q \<in> S" "finite S" "card S \<le> FAIL_CAP" "login_gate x (rq_now q) (rq_ip q) a0 = (a, g)"
  shows "gated x S q a0 a g"
proof -
  let ?r = "recent x (rq_now q) (rq_ip q) a0"
  let ?m = "filter (\<lambda>(k, ts). ts \<noteq> [] \<or> k = rq_ip q) (dput (rq_ip q) ?r (au_fails a0))"
  have d: "distinct (map fst (dput (rq_ip q) ?r (au_fails a0)))" "fst ` set (dput (rq_ip q) ?r (au_fails a0)) \<subseteq> S"
    using assms(1,2) by (simp_all add: fails_ok_def distinct_dput keys_dput)
  have m: "distinct (map fst ?m)" "fst ` set ?m \<subseteq> S" using d by (auto intro: distinct_filter_keys)
  note c = capped_id [OF m assms(3,4)]
  have e: "entry j ?m = (if j = rq_ip q then ?r else entry j (au_fails a0))" for j
    using map_of_filter_distinct [OF d(1)] by (auto simp: entry_def dict_simps split: option.split)
  have i: "dget ?m (rq_ip q) = Some ?r"
    using map_of_filter_distinct [OF d(1)] by (simp add: dict_simps)
  from assms(5) have a: "a = a0\<lparr> au_fails := ?m \<rparr>" and g: "g = (if ax_max x \<le> int (length ?r) then Limited else Free)"
    unfolding login_gate_def Let_def c i by simp_all
  show ?thesis unfolding gated_def fails_ok_def a g using m e by (simp add: i)
qed

section \<open>The bound\<close>

lemma kept_recent:
  assumes "t \<le> now" "now < t + ax_window x"
  shows "length (filter (\<lambda>u. t \<le> u) (recent x now ip a)) = kept t ip a"
proof -
  have "filter (\<lambda>u. t \<le> u) (recent x now ip a) = filter (\<lambda>u. t \<le> u) (entry ip (au_fails a))"
    using assms unfolding recent_def entry_def filter_filter by (intro filter_cong) auto
  then show ?thesis by (simp add: kept_def)
qed

text \<open>What a request leaves when it passes its gate or is answered there.\<close>

lemma gate_cases:
  assumes "request_of op = Some q" "fails_ok S a" "rq_ip q \<in> S" "finite S" "card S \<le> FAIL_CAP" "gate_of x op a = (b, r)"
  shows "(b = a \<and> (\<exists>rep. r = Inl rep)) \<or> (\<exists>g. gated x S q a b g \<and> (\<forall>who. r = Inr who \<longrightarrow> g = Free))"
proof (cases op)
  case (Login q' u pw)
  with assms(1) have q: "q' = q" by simp
  obtain c g where g: "login_gate x (rq_now q) (rq_ip q) a = (c, g)" by force
  from login_gate_gated [OF assms(2-5) g] assms(6) show ?thesis by (auto simp: Login q g split: gate.splits)
next
  case (LoginCode q' cid code remember)
  with assms(1) have q: "q' = q" by simp
  obtain c g where g: "code_gate x (rq_now q) (rq_ip q) a = (c, g)" by force
  from code_gate_gated [OF assms(2,3) g] assms(6) show ?thesis
    by (auto simp: LoginCode q g split: gate.splits if_splits option.splits)
next
  case (LoginRadius q' cid resp)
  with assms(1) have q: "q' = q" by simp
  obtain c g where g: "code_gate x (rq_now q) (rq_ip q) a = (c, g)" by force
  from code_gate_gated [OF assms(2,3) g] assms(6) show ?thesis by (auto simp: LoginRadius q g split: gate.splits)
qed (use assms(1) in simp_all)

fun attempt_op :: "attempt \<Rightarrow> auth_op" where
  "attempt_op (Gated op who) = op"
| "attempt_op (Judged op c) = op"

definition from_ip :: "string \<Rightarrow> attempt \<Rightarrow> bool" where
  "from_ip ip v \<longleftrightarrow> map_option rq_ip (request_of (attempt_op v)) = Some ip"

definition refused_of :: "string \<Rightarrow> attempt \<Rightarrow> bool" where
  "refused_of ip v \<longleftrightarrow> from_ip ip v \<and> (\<exists>op. v = Judged op Refused)"

definition flying :: "string \<Rightarrow> desk \<Rightarrow> nat" where
  "flying ip s = length (filter (from_ip ip \<circ> snd) (dk_open s))"

definition unsettled :: "string \<Rightarrow> desk \<Rightarrow> nat" where
  "unsettled ip s = length (filter (refused_of ip \<circ> snd) (dk_open s))"

text \<open>
  A run within one window: requests come from the addresses of \<open>S\<close>; those of \<open>ip\<close> pass their gate and
  are recorded in the window, none is accepted, and at most \<open>p\<close> of them are under way at once. The
  server does not restart.
\<close>

fun in_window :: "auth_env \<Rightarrow> string set \<Rightarrow> string \<Rightarrow> ts \<Rightarrow> lev \<Rightarrow> desk \<Rightarrow> bool" where
  "in_window x S ip t (Enter k op) s = (case request_of op of None \<Rightarrow> True
     | Some q \<Rightarrow> rq_ip q \<in> S \<and> (rq_ip q = ip \<longrightarrow> t \<le> rq_now q \<and> rq_now q < t + ax_window x))"
| "in_window x S ip t (Check k) s = True"
| "in_window x S ip t (Settle k now) s = (case dget (dk_open s) k of
       Some (Judged op c) \<Rightarrow> from_ip ip (Judged op c) \<longrightarrow> t \<le> now \<and> (case c of Accepted _ _ _ _ \<Rightarrow> False | _ \<Rightarrow> True)
     | _ \<Rightarrow> True)"
| "in_window x S ip t (Other op) s = (op \<noteq> Restart)"

fun one_window :: "auth_env \<Rightarrow> string set \<Rightarrow> string \<Rightarrow> ts \<Rightarrow> nat \<Rightarrow> lev list \<Rightarrow> desk \<Rightarrow> bool" where
  "one_window x S ip t p [] s = True"
| "one_window x S ip t p (e # es) s \<longleftrightarrow>
     in_window x S ip t e s \<and> flying ip (lexec x e s) \<le> p \<and> one_window x S ip t p es (lexec x e s)"

definition desk_ok :: "string set \<Rightarrow> desk \<Rightarrow> bool" where
  "desk_ok S s \<longleftrightarrow> fails_ok S (dk_auth s) \<and> distinct (map fst (dk_open s))
     \<and> (\<forall>k v. dget (dk_open s) k = Some v \<longrightarrow> (\<exists>q. request_of (attempt_op v) = Some q \<and> rq_ip q \<in> S))"

text \<open>Counting in the dictionary of the requests under way.\<close>

lemma count_add: "dget m k = None \<Longrightarrow> length (filter (P \<circ> snd) (dput k v m)) = length (filter (P \<circ> snd) m) + of_bool (P v)"
proof (induction m)
  case (Cons p m)
  then show ?case by (cases p) (auto split: if_splits)
qed simp

lemma count_put:
  "distinct (map fst m) \<Longrightarrow> dget m k = Some u \<Longrightarrow>
    length (filter (P \<circ> snd) (dput k v m)) + of_bool (P u) = length (filter (P \<circ> snd) m) + of_bool (P v)"
proof (induction m)
  case (Cons p m)
  then show ?case by (cases p) (auto split: if_splits)
qed simp

lemma count_del:
  "distinct (map fst m) \<Longrightarrow> dget m k = Some u \<Longrightarrow>
    length (filter (P \<circ> snd) (ddel k m)) + of_bool (P u) = length (filter (P \<circ> snd) m)"
proof (induction m)
  case (Cons p m)
  then show ?case by (cases p) (auto split: if_splits simp: map_of_eq_None_iff delete_conv')
qed simp

text \<open>The other routes do not touch the record.\<close>

lemma principal_fails: "au_fails (fst (auth_principal x now hq a)) = au_fails a"
proof -
  have c: "au_fails b = au_fails a" if "auth_check sha ttl n t a = (b, r)" for sha ttl n t a b r
    using that by (auto simp: auth_check_def session_lookup_def session_fill_def Let_def split: if_splits option.splits prod.splits)
  have k: "au_fails b = au_fails a" if "auth_check_api_token sha n t a = (b, r)" for sha n t a b r
    using that by (auto simp: auth_check_api_token_def token_cached_def token_lookup_def token_fill_def
        db_touch_api_token_last_used_def change_token_def Let_def
        split: if_splits option.splits prod.splits)
  show ?thesis
    by (auto simp: auth_principal_def bearer_principal_def dest!: c k split: option.splits prod.splits)
qed

lemma guard_fails:
  assumes "\<And>me b. au_fails (fst (f me b)) = au_fails b"
  shows "au_fails (fst (with_user x now hq f a)) = au_fails a" "au_fails (fst (with_role x now hq r f a)) = au_fails a"
    "au_fails (fst (with_cookie x now hq f a)) = au_fails a"
proof -
  have c: "au_fails b = au_fails a" if "auth_check sha ttl n t a = (b, r)" for sha ttl n t a b r
    using that by (auto simp: auth_check_def session_lookup_def session_fill_def Let_def split: if_splits option.splits prod.splits)
  have p: "au_fails b = au_fails a" if "auth_principal x now hq a = (b, q)" for b q using principal_fails [of x now hq a] that by simp
  show "au_fails (fst (with_user x now hq f a)) = au_fails a" "au_fails (fst (with_role x now hq r f a)) = au_fails a"
    "au_fails (fst (with_cookie x now hq f a)) = au_fails a"
    using assms by (auto simp: with_user_def with_role_def with_cookie_def Let_def dest: p c split: prod.splits sum.splits option.splits)
qed

lemma handlers_fail:
  "au_fails (fst (create_user x salt f me b)) = au_fails b" "au_fails (fst (delete_user n me b)) = au_fails b"
  "au_fails (fst (reset_password x now salt n pw me b)) = au_fails b"
  "au_fails (fst (change_password x salt cur pw me b)) = au_fails b"
  "au_fails (fst (patch_profile t full email gid nr role me b)) = au_fails b"
  "au_fails (fst (set_theme th me b)) = au_fails b" "au_fails (fst (own_profile full email th me b)) = au_fails b"
  "au_fails (fst (totp_setup x secret me b)) = au_fails b" "au_fails (fst (totp_confirm x now code plain me b)) = au_fails b"
  "au_fails (fst (totp_disable x now pw code me b)) = au_fails b" "au_fails (fst (totp_reset t me b)) = au_fails b"
  "au_fails (fst (auth_revoke_other_user_sessions sha me tok b)) = au_fails b"
  "au_fails (fst (auth_revoke_session_by_id sha me i b)) = au_fails b" "au_fails (fst (revoke_token now k b)) = au_fails b"
  "au_fails (fst (create_token x now tok nm scope ex ses me b)) = au_fails b"
  by (auto simp: create_user_def create_account_def delete_user_def reset_password_def change_password_def patch_profile_def
      set_theme_def own_profile_def totp_setup_def totp_confirm_def totp_disable_def totp_reset_def
      auth_revoke_other_user_sessions_def auth_revoke_session_by_id_def auth_revoke_user_sessions_def drop_sessions_def
      revoke_token_def db_revoke_api_token_def change_token_def auth_evict_api_token_hash_def create_token_def db_create_api_token_def Let_def
      split: prod.split option.split)

lemma logout_fails: "au_fails (fst (auth_check sha ttl n t a)) = au_fails a"
  by (auto simp: auth_check_def session_lookup_def session_fill_def Let_def split: option.splits prod.splits)

lemma action_fails: "au_fails (fst (handle_action x now hq act a)) = au_fails a"
proof (cases act)
  case (CreateToken tok nm scope ex)
  obtain b p where p: "auth_principal x now hq a = (b, p)" by force
  with principal_fails [of x now hq a] have "au_fails b = au_fails a" by simp
  with p CreateToken show ?thesis by (auto simp: handle_action_def handlers_fail split: sum.split)
next
  case Logout
  obtain b u where b: "auth_check (ax_sha x) (ax_ttl x) now (get_token hq) a = (b, u)" by force
  with logout_fails [of "ax_sha x" "ax_ttl x" now "get_token hq" a] Logout show ?thesis by (simp add: handle_action_def)
qed (simp_all add: handle_action_def guard_fails handlers_fail case_prod_beta)

section \<open>One step\<close>

definition good_step :: "auth_env \<Rightarrow> string set \<Rightarrow> string \<Rightarrow> ts \<Rightarrow> lev \<Rightarrow> desk \<Rightarrow> bool" where
  "good_step x S ip t e s \<longleftrightarrow> desk_ok S (lexec x e s)
     \<and> kept t ip (dk_auth (lexec x e s)) + unsettled ip (lexec x e s)
         = kept t ip (dk_auth s) + unsettled ip s + of_bool (refusal x ip e s)
     \<and> (refusal x ip e s \<longrightarrow> 0 < flying ip s)
     \<and> (kept t ip (dk_auth (lexec x e s)) + flying ip (lexec x e s) \<le> kept t ip (dk_auth s) + flying ip s
        \<or> int (kept t ip (dk_auth (lexec x e s))) < ax_max x)
     \<and> (flying ip s = 0 \<longrightarrow> flying ip (lexec x e s) = 0 \<or> int (kept t ip (dk_auth (lexec x e s))) < ax_max x)"

lemma kept_fails: "au_fails b = au_fails a \<Longrightarrow> kept t ip b = kept t ip a"
  by (simp add: kept_def)

lemma desk_okD:
  assumes "desk_ok S s" "dget (dk_open s) k = Some v"
  obtains q where "request_of (attempt_op v) = Some q" "rq_ip q \<in> S"
  using assms unfolding desk_ok_def by blast

lemma gated_kept:
  assumes "gated x S q a b g" "rq_ip q = ip \<Longrightarrow> t \<le> rq_now q \<and> rq_now q < t + ax_window x"
  shows "kept t ip b = kept t ip a" "g = Free \<Longrightarrow> rq_ip q = ip \<Longrightarrow> int (kept t ip b) < ax_max x"
proof -
  show k: "kept t ip b = kept t ip a"
  proof (cases "rq_ip q = ip")
    case True
    with assms kept_recent [of t "rq_now q" x ip a] show ?thesis by (auto simp: gated_def kept_def)
  qed (use assms(1) in \<open>auto simp: gated_def kept_def\<close>)
  show "int (kept t ip b) < ax_max x" if "g = Free" "rq_ip q = ip"
  proof -
    from assms(1) that have "kept t ip b \<le> length (recent x (rq_now q) ip a)"
      unfolding gated_def kept_def by (metis length_filter_le)
    with assms(1) that show ?thesis by (auto simp: gated_def)
  qed
qed

lemma enter_good:
  assumes "desk_ok S s" "finite S" "card S \<le> FAIL_CAP" "in_window x S ip t (Enter k op) s"
  shows "good_step x S ip t (Enter k op) s"
proof (cases "request_of op = None \<or> dget (dk_open s) k \<noteq> None")
  case True
  then show ?thesis using assms(1) by (auto simp: good_step_def)
next
  case False
  then obtain q where q: "request_of op = Some q" and new: "dget (dk_open s) k = None" by auto
  from assms(4) q have w: "rq_ip q \<in> S" "rq_ip q = ip \<Longrightarrow> t \<le> rq_now q \<and> rq_now q < t + ax_window x" by auto
  from assms(1) have fo: "fails_ok S (dk_auth s)" by (simp add: desk_ok_def)
  obtain b r where r: "gate_of x op (dk_auth s) = (b, r)" by force
  from gate_cases [OF q fo w(1) assms(2,3) r] consider "b = dk_auth s" "\<exists>rep. r = Inl rep"
    | g where "gated x S q (dk_auth s) b g" "\<forall>who. r = Inr who \<longrightarrow> g = Free" by blast
  then show ?thesis
  proof cases
    case 1
    then show ?thesis using assms(1) q new r by (auto simp: good_step_def)
  next
    case (2 g)
    note k = gated_kept [OF 2(1), of ip t, OF w(2)]
    have fb: "fails_ok S b" using 2(1) by (simp add: gated_def)
    show ?thesis
    proof (cases r)
      case (Inl rep)
      then show ?thesis using assms(1) q new r k(1) fb by (auto simp: good_step_def desk_ok_def flying_def unsettled_def)
    next
      case (Inr who)
      have f: "from_ip ip (Gated op who) \<longleftrightarrow> rq_ip q = ip" by (simp add: from_ip_def q)
      have u: "\<not> refused_of ip (Gated op who)" by (simp add: refused_of_def)
      have s': "lexec x (Enter k op) s = s\<lparr> dk_auth := b, dk_open := dput k (Gated op who) (dk_open s) \<rparr>"
        using q new r Inr by simp
      have "desk_ok S (lexec x (Enter k op) s)"
        using assms(1) fb w(1) q unfolding s' desk_ok_def by (auto simp: distinct_dput dict_simps)
      moreover have "unsettled ip (lexec x (Enter k op) s) = unsettled ip s"
        using count_add [OF new, of "refused_of ip"] u unfolding s' by (simp add: unsettled_def)
      moreover have "flying ip (lexec x (Enter k op) s) = flying ip s + of_bool (rq_ip q = ip)"
        using count_add [OF new, of "from_ip ip"] f unfolding s' by (simp add: flying_def)
      moreover have "dk_auth (lexec x (Enter k op) s) = b" unfolding s' by simp
      ultimately show ?thesis using k 2(2) Inr by (auto simp: good_step_def)
    qed
  qed
qed

lemma check_good:
  assumes "desk_ok S s"
  shows "good_step x S ip t (Check k) s"
proof (cases "dget (dk_open s) k")
  case None
  then show ?thesis using assms by (simp add: good_step_def)
next
  case (Some v)
  show ?thesis
  proof (cases v)
    case (Gated op who)
    obtain b c where b: "check_of x op who (dk_auth s) = (b, c)" by force
    have s': "lexec x (Check k) s = s\<lparr> dk_auth := b, dk_open := dput k (Judged op c) (dk_open s) \<rparr>" using Some Gated b by simp
    have d: "distinct (map fst (dk_open s))" using assms by (simp add: desk_ok_def)
    have fb: "au_fails b = au_fails (dk_auth s)" using check_fails [of x op who "dk_auth s"] b by simp
    have same: "from_ip ip (Judged op c) = from_ip ip v" by (simp add: from_ip_def Gated)
    have u: "\<not> refused_of ip v" "refused_of ip (Judged op c) \<longleftrightarrow> from_ip ip v \<and> c = Refused"
      by (auto simp: refused_of_def Gated from_ip_def)
    have rf: "refusal x ip (Check k) s \<longleftrightarrow> from_ip ip v \<and> c = Refused"
      using Some Gated b by (simp add: from_ip_def)
    have fl: "flying ip (lexec x (Check k) s) = flying ip s"
      using count_put [OF d Some, of "from_ip ip" "Judged op c"] same unfolding s' by (simp add: flying_def)
    have us: "unsettled ip (lexec x (Check k) s) = unsettled ip s + of_bool (from_ip ip v \<and> c = Refused)"
      using count_put [OF d Some, of "refused_of ip" "Judged op c"] u unfolding s' by (simp add: unsettled_def)
    have pos: "from_ip ip v \<Longrightarrow> 0 < flying ip s"
      using count_del [OF d Some, of "from_ip ip"] unfolding flying_def by (simp del: length_greater_0_conv)
    obtain q where "request_of op = Some q" "rq_ip q \<in> S" using desk_okD [OF assms Some] Gated by auto
    then have "desk_ok S (lexec x (Check k) s)"
      using assms fb unfolding s' desk_ok_def fails_ok_def by (auto simp: distinct_dput dict_simps)
    moreover have "kept t ip (dk_auth (lexec x (Check k) s)) = kept t ip (dk_auth s)"
      unfolding s' using kept_fails [OF fb] by simp
    ultimately show ?thesis using fl us rf pos by (simp add: good_step_def)
  next
    case (Judged op c)
    with Some show ?thesis using assms by (simp add: good_step_def)
  qed
qed

lemma settle_kept:
  fixes x :: auth_env and op :: auth_op
  assumes "fails_ok S a" "rq_ip q \<in> S" "rq_ip q = ip \<Longrightarrow> t \<le> now \<and> (case c of Accepted _ _ _ _ \<Rightarrow> False | _ \<Rightarrow> True)"
  defines "b \<equiv> fst (settle_of x now q op c a)"
  shows "fails_ok S b" "kept t ip b = kept t ip a + of_bool (rq_ip q = ip \<and> c = Refused)"
proof -
  have del: "entry j (ddel k m) = (if j = k then [] else entry j m)" for j k and m :: "(string, ts list) dict"
    by (simp add: entry_def dict_simps)
  have sub: "fst ` set (ddel k m) \<subseteq> fst ` set m" for k and m :: "(string, ts list) dict"
    by (auto simp: ddel_mem)
  have "fails_ok S b \<and> kept t ip b = kept t ip a + of_bool (rq_ip q = ip \<and> c = Refused)"
  proof (cases c)
    case Refused
    then show ?thesis using assms(1-3) settle_fails(1) [of x now q op a]
      by (auto simp: b_def fails_ok_def distinct_dput keys_dput kept_def entry_dput)
  next
    case (Ended rep)
    then show ?thesis using assms(1) settle_fails(2) [of x now q op rep a] by (simp add: b_def fails_ok_def kept_def)
  next
    case (Accepted u r tk used)
    then have f: "au_fails b = ddel (rq_ip q) (au_fails a)" using settle_fails(3) [of x now q op u r tk used a] by (simp add: b_def)
    have "rq_ip q \<noteq> ip" using assms(3) Accepted by auto
    moreover have "fails_ok S b" using assms(1) sub [of "rq_ip q" "au_fails a"] by (auto simp: fails_ok_def f distinct_ddel)
    ultimately show ?thesis using Accepted by (simp add: kept_def f del)
  qed
  then show "fails_ok S b" "kept t ip b = kept t ip a + of_bool (rq_ip q = ip \<and> c = Refused)" by simp_all
qed

lemma settle_good:
  assumes "desk_ok S s" "in_window x S ip t (Settle k now) s"
  shows "good_step x S ip t (Settle k now) s"
proof (cases "\<exists>op c. dget (dk_open s) k = Some (Judged op c)")
  case False
  then have "lexec x (Settle k now) s = s" by (auto split: option.splits attempt.splits)
  then show ?thesis using assms(1) by (simp add: good_step_def)
next
  case True
  then obtain op c where v: "dget (dk_open s) k = Some (Judged op c)" by blast
  obtain q where q: "request_of op = Some q" "rq_ip q \<in> S" using desk_okD [OF assms(1) v] by auto
  have d: "distinct (map fst (dk_open s))" and fo: "fails_ok S (dk_auth s)" using assms(1) by (simp_all add: desk_ok_def)
  have ip: "from_ip ip (Judged op c) \<longleftrightarrow> rq_ip q = ip" by (simp add: from_ip_def q)
  have w: "rq_ip q = ip \<Longrightarrow> t \<le> now \<and> (case c of Accepted _ _ _ _ \<Rightarrow> False | _ \<Rightarrow> True)" using assms(2) v ip by simp
  note k = settle_kept [OF fo q(2) w, where x = x and op = op]
  have s': "lexec x (Settle k now) s = s\<lparr> dk_auth := fst (settle_of x now q op c (dk_auth s)), dk_open := ddel k (dk_open s) \<rparr>"
    using v q(1) by simp
  have fl: "flying ip (lexec x (Settle k now) s) + of_bool (rq_ip q = ip) = flying ip s"
    using count_del [OF d v, of "from_ip ip"] ip unfolding s' by (simp add: flying_def)
  have us: "unsettled ip (lexec x (Settle k now) s) + of_bool (rq_ip q = ip \<and> c = Refused) = unsettled ip s"
    using count_del [OF d v, of "refused_of ip"] ip unfolding s' by (simp add: unsettled_def refused_of_def)
  have "desk_ok S (lexec x (Settle k now) s)"
    using assms(1) k(1) d unfolding s' desk_ok_def by (auto simp: distinct_ddel dict_simps)
  moreover have "kept t ip (dk_auth (lexec x (Settle k now) s)) = kept t ip (dk_auth s) + of_bool (rq_ip q = ip \<and> c = Refused)"
    using k(2) unfolding s' by simp
  ultimately show ?thesis using fl us by (auto simp: good_step_def)
qed

lemma other_good:
  assumes "desk_ok S s" "op \<noteq> Restart"
  shows "good_step x S ip t (Other op) s"
proof -
  have f: "au_fails (fst (auth_step x op (dk_auth s))) = au_fails (dk_auth s)" if "request_of op = None"
    using that assms(2) action_fails by (cases op) auto
  then have "kept t ip (dk_auth (lexec x (Other op) s)) = kept t ip (dk_auth s)" by (simp add: kept_def)
  moreover have "desk_ok S (lexec x (Other op) s)" using assms(1) f by (simp add: desk_ok_def fails_ok_def)
  ultimately show ?thesis by (auto simp: good_step_def flying_def unsettled_def)
qed

section \<open>Every run\<close>

lemma unsettled_flying: "unsettled ip s \<le> flying ip s"
proof -
  have "filter (refused_of ip \<circ> snd) (dk_open s) = filter (refused_of ip \<circ> snd) (filter (from_ip ip \<circ> snd) (dk_open s))"
    unfolding filter_filter by (intro filter_cong) (auto simp: refused_of_def)
  then show ?thesis unfolding unsettled_def flying_def by (metis length_filter_le)
qed

lemma refusals_kept:
  assumes "desk_ok S s" "finite S" "card S \<le> FAIL_CAP" "one_window x S ip t p es s" "flying ip s \<le> p"
    and "flying ip s = 0 \<or> int (kept t ip (dk_auth s) + flying ip s) < ax_max x + int p"
  shows "refusals x ip es s = 0 \<or> int (kept t ip (dk_auth s) + unsettled ip s + refusals x ip es s) < ax_max x + int p"
  using assms(1,4-6)
proof (induction es arbitrary: s)
  case Nil
  then show ?case by simp
next
  case (Cons e es)
  let ?s = "lexec x e s"
  have w: "in_window x S ip t e s" "flying ip ?s \<le> p" "one_window x S ip t p es ?s" using Cons.prems(2) by simp_all
  have g: "good_step x S ip t e s"
    using Cons.prems(1) w(1) by (cases e) (auto intro: enter_good [OF _ assms(2,3)] check_good settle_good other_good)
  then have ok: "desk_ok S ?s" by (simp add: good_step_def)
  have next_ok: "flying ip ?s = 0 \<or> int (kept t ip (dk_auth ?s) + flying ip ?s) < ax_max x + int p"
    using g Cons.prems(4) w(2) unfolding good_step_def by linarith
  from Cons.IH [OF ok w(3,2) next_ok] g unsettled_flying [of ip ?s] unsettled_flying [of ip s] Cons.prems(4) next_ok
  show ?case unfolding good_step_def refusals.simps by (cases "refusal x ip e s") auto
qed

lemma refusals_bounded:
  assumes "desk_ok S s" "finite S" "card S \<le> FAIL_CAP" "one_window x S ip t p es s" "flying ip s = 0"
  shows "refusals x ip es s \<le> nat (ax_max x) + p - 1"
proof -
  have "flying ip s \<le> p" using assms(5) by simp
  from refusals_kept [OF assms(1-4) this] assms(5)
  have "refusals x ip es s = 0 \<or> int (refusals x ip es s) < ax_max x + int p" by auto
  then show ?thesis by linarith
qed

section \<open>A second factor does not count\<close>

text \<open>The accounts with a second factor whose password is known, and a code that is wrong.\<close>

definition knows_password :: "auth_env \<Rightarrow> string \<Rightarrow> string \<Rightarrow> string \<Rightarrow> accounts \<Rightarrow> bool" where
  "knows_password x nm u pw acc \<longleftrightarrow> strip_domain (strip nm) = u \<and> u \<noteq> []
     \<and> (case dget (ac_users acc) u of None \<Rightarrow> False
        | Some r \<Rightarrow> str_or (us_type r) ''local'' = ''local'' \<and> verify_pw (ax_kdf x) pw (us_hash r) \<and> \<not> needs_rehash (us_hash r) \<and> us_totp r)"

definition wrong_code :: "auth_env \<Rightarrow> ts \<Rightarrow> string \<Rightarrow> string \<Rightarrow> accounts \<Rightarrow> bool" where
  "wrong_code x now u code acc \<longleftrightarrow> (case db_get_totp u acc of (secret, enabled, codes) \<Rightarrow>
     \<not> totp_verify x now secret (strip code) \<and> \<not> fst (totp_consume_recovery (ax_sha x) codes (strip code)))"

text \<open>Below the limit: the login that opens the challenge clears the record.\<close>

definition admitted :: "auth_env \<Rightarrow> string set \<Rightarrow> ts \<Rightarrow> string \<Rightarrow> auth \<Rightarrow> bool" where
  "admitted x S now ip a \<longleftrightarrow> fails_ok S a \<and> int (length (recent x now ip a)) < ax_max x"

lemma password_opens:
  assumes "knows_password x nm u pw (au_acc a)" "admitted x S (rq_now q) (rq_ip q) a" "rq_ip q \<in> S" "finite S" "card S \<le> FAIL_CAP"
    "ax_pyotp x" "rq_trusted q = []"
  defines "b \<equiv> fst (auth_step x (Login q nm pw) a)"
  shows "au_acc b = au_acc a" "fails_ok S b" "entry (rq_ip q) (au_fails b) = []"
    "\<exists>role. totp_resolve_challenge (rq_now q) (rq_id q) b = Some (u, role)" "\<not> refused_alone x (Login q nm pw) a"
proof -
  from assms(1) obtain r where r: "dget (ac_users (au_acc a)) u = Some r" "strip_domain (strip nm) = u" "u \<noteq> []"
    "str_or (us_type r) ''local'' = ''local''" "verify_pw (ax_kdf x) pw (us_hash r)" "\<not> needs_rehash (us_hash r)" "us_totp r"
    by (auto simp: knows_password_def split: option.splits)
  obtain c g where g: "login_gate x (rq_now q) (rq_ip q) a = (c, g)" by force
  have fo: "fails_ok S a" using assms(2) by (simp add: admitted_def)
  note gd = login_gate_gated [OF fo assms(3-5) g]
  then have free: "g = Free" and fc: "fails_ok S c" using assms(2) by (simp_all add: gated_def admitted_def)
  have acc: "au_acc c = au_acc a" using login_gate_same [OF g] by simp
  let ?role = "str_or (us_role r) ''viewer''"
  let ?d = "create_session (ax_sha x) (ax_ttl x) (rq_now q) (rq_token q) u ?role (rq_ip q) (rq_ua q) (parse_user_agent_label (rq_ua q)) c"
  have same: "on_acc (maybe_rehash kdf salt u pw (us_hash r)) c = c" for kdf salt
    using r(6) by (simp add: on_acc_def maybe_rehash_def [abs_def])
  have l: "auth_login x (rq_now q) (rq_token q) (rq_salt q) (rq_ip q) (rq_ua q) (strip nm) pw c = (?d, Some (rq_token q))"
    using r acc same by (simp add: auth_login_def login_known_def Let_def)
  have kind: "db_get_user_auth_type u (au_acc c) = ''local''" using r(1,4) acc by (simp add: db_get_user_auth_type_def)
  have totp: "db_get_totp u (au_acc c) = (us_secret r, True, us_recovery r)" using r(1,7) acc by (simp add: db_get_totp_def)
  obtain rl where role: "(case auth_check_role (rq_now q) (rq_token q) ?d of Some r \<Rightarrow> str_or r ''viewer'' | None \<Rightarrow> ''viewer'') = rl" by simp
  have b: "b = totp_create_challenge (rq_now q) (rq_id q) u rl (auth_logout (ax_sha x) (rq_token q) (clear_failures (rq_ip q) ?d))"
    using assms(6,7) r(2) kind totp role l
    by (simp add: b_def login_def g free Let_def emit_post_auth_def clear_failures_def)
  show "au_acc b = au_acc a" using acc by (simp add: b totp_create_challenge_def auth_logout_def clear_failures_def)
  have fb: "au_fails b = ddel (rq_ip q) (au_fails c)" by (simp add: b clear_failures_def)
  have sub: "fst ` set (ddel k m) \<subseteq> fst ` set m" for k and m :: "(string, ts list) dict" by (auto simp: ddel_mem)
  show "fails_ok S b" using fc sub [of "rq_ip q" "au_fails c"] by (auto simp: fails_ok_def fb distinct_ddel)
  show "entry (rq_ip q) (au_fails b) = []" by (simp add: fb entry_def dict_simps)
  show "\<exists>role. totp_resolve_challenge (rq_now q) (rq_id q) b = Some (u, role)"
    by (simp add: b totp_create_challenge_def totp_resolve_challenge_def TOTP_CHALLENGE_TTL_def dict_simps)
  show "\<not> refused_alone x (Login q nm pw) a"
    using r(2) kind l by (simp add: refused_alone_def g free password_check_def Let_def)
qed

lemma code_refused:
  fixes remember :: bool
  assumes "totp_resolve_challenge (rq_now q) (strip cid) a = Some (u, role)" "wrong_code x (rq_now q) u code (au_acc a)" "ax_pyotp x"
    "fails_ok S a" "rq_ip q \<in> S" "entry (rq_ip q) (au_fails a) = []" "0 < ax_max x"
  defines "b \<equiv> fst (auth_step x (LoginCode q cid code remember) a)"
  shows "au_acc b = au_acc a" "fails_ok S b" "entry (rq_ip q) (au_fails b) = [rq_now q]" "refused_alone x (LoginCode q cid code remember) a"
proof -
  obtain secret enabled codes where s: "db_get_totp u (au_acc a) = (secret, enabled, codes)" by (metis prod_cases3)
  have rc: "recent x (rq_now q) (rq_ip q) a = []" using assms(6) by (simp add: recent_def entry_def)
  have g: "code_gate x (rq_now q) (rq_ip q) a = (a\<lparr> au_fails := dput (rq_ip q) [] (au_fails a) \<rparr>, Free)"
    using assms(7) by (simp add: code_gate_def rc)
  have no: "\<not> totp_verify x (rq_now q) secret (strip code)" "\<not> fst (totp_consume_recovery (ax_sha x) codes (strip code))"
    using assms(2) s by (simp_all add: wrong_code_def)
  obtain co where co: "totp_consume_recovery (ax_sha x) codes (strip code) = (False, co)"
    using no(2) by (cases "totp_consume_recovery (ax_sha x) codes (strip code)") simp
  have b: "b = record_failure (rq_now q) (rq_ip q) (a\<lparr> au_fails := dput (rq_ip q) [] (au_fails a) \<rparr>)"
    using assms(1,3) g s no(1) co by (simp add: b_def login_totp_def Let_def reject_def)
  show "au_acc b = au_acc a" by (simp add: b record_failure_def)
  show "fails_ok S b" using assms(4,5) by (simp add: b record_failure_def fails_ok_def distinct_dput keys_dput)
  show "entry (rq_ip q) (au_fails b) = [rq_now q]" by (simp add: b record_failure_def entry_def dict_simps)
  show "refused_alone x (LoginCode q cid code remember) a"
    using assms(1,3) g s no(1) co by (simp add: refused_alone_def code_check_def)
qed

lemma codes_unbounded:
  assumes "knows_password x nm u pw (au_acc a)" "wrong_code x (rq_now q) u code (au_acc a)" "admitted x S (rq_now q) (rq_ip q) a"
    "rq_ip q \<in> S" "finite S" "card S \<le> FAIL_CAP" "ax_pyotp x" "rq_trusted q = []" "2 \<le> ax_max x" "strip (rq_id q) = rq_id q"
  shows "refusals x (rq_ip q) (concat (replicate n (alone q (Login q nm pw) @ alone q (LoginCode q (rq_id q) code remember)))) (desk_of a) = n"
  using assms(1-3)
proof (induction n arbitrary: a)
  case (Suc n)
  define b where "b = fst (auth_step x (Login q nm pw) a)"
  define c where "c = fst (auth_step x (LoginCode q (rq_id q) code remember) b)"
  note p = password_opens [OF Suc.prems(1,3) assms(4-8), folded b_def]
  obtain role where role: "totp_resolve_challenge (rq_now q) (strip (rq_id q)) b = Some (u, role)" using p(4) assms(10) by auto
  have w: "wrong_code x (rq_now q) u code (au_acc b)" using Suc.prems(2) p(1) by simp
  have m: "0 < ax_max x" using assms(9) by simp
  note k = code_refused [OF role w assms(7) p(2) assms(4) p(3) m, where remember = remember, folded c_def]
  have "recent x (rq_now q) (rq_ip q) c = filter (\<lambda>t. rq_now q - t < ax_window x) [rq_now q]"
    using k(3) unfolding recent_def entry_def by simp
  then have "admitted x S (rq_now q) (rq_ip q) c" using k(2) assms(9) by (simp add: admitted_def)
  then have "refusals x (rq_ip q) (concat (replicate n (alone q (Login q nm pw) @ alone q (LoginCode q (rq_id q) code remember)))) (desk_of c) = n"
    using Suc p(1) k(1) by simp
  moreover have "lrun x (alone q (Login q nm pw)) (desk_of a) = desk_of b"
    "lrun x (alone q (LoginCode q (rq_id q) code remember)) (desk_of b) = desk_of c"
    unfolding b_def c_def by (rule run_alone(1); simp)+
  moreover have "refusals x (rq_ip q) (alone q (Login q nm pw)) (desk_of a) = 0"
    "refusals x (rq_ip q) (alone q (LoginCode q (rq_id q) code remember)) (desk_of b) = 1"
    using p(5) k(4) by (simp_all add: run_alone(2) del: auth_step.simps)
  ultimately show ?case by (simp add: refusals_append)
qed simp

end
