(* ===== verification/TokenLaws.thy ===== *)
theory TokenLaws
  imports Access
begin

text \<open>
  API tokens under concurrent checks: a check that finds nothing in the cache reads the table and
  fills the cache in a later step, and a revocation may fall between the two. Every entry carries
  the time its check began, so that no entry outlives a revocation by more than the life of the cache.
\<close>

section \<open>Checks under way\<close>

record token_sys =
  tk_auth :: auth
  tk_fly :: "(string \<times> ts \<times> token_entry option) list"     \<comment> \<open>token, begin of the check, what the table said\<close>

datatype token_op =
    TBegin ts string        \<comment> \<open>a check up to its look at the table\<close>
  | TFinish nat             \<comment> \<open>one of the checks under way fills the cache\<close>
  | TRevoke ts int
  | TCreate ts string string string string "ts option"

fun token_exec :: "(string \<Rightarrow> string) \<Rightarrow> token_op \<Rightarrow> token_sys \<Rightarrow> token_sys" where
  "token_exec sha (TBegin now token) s =
     (if \<not> startswith ''pw_'' token then s
      else case token_cached now token (tk_auth s) of
        Some r \<Rightarrow> s\<lparr> tk_auth := fst r \<rparr>
      | None \<Rightarrow> s\<lparr> tk_fly := tk_fly s @ [(token, now, token_lookup sha now token (tk_auth s))] \<rparr>)"
| "token_exec sha (TFinish k) s =
     (if length (tk_fly s) \<le> k then s
      else case tk_fly s ! k of (token, now, e) \<Rightarrow>
        s\<lparr> tk_auth := fst (token_fill now token e (tk_auth s)), tk_fly := take k (tk_fly s) @ drop (Suc k) (tk_fly s) \<rparr>)"
| "token_exec sha (TRevoke now i) s = s\<lparr> tk_auth := fst (revoke_token now i (tk_auth s)) \<rparr>"
| "token_exec sha (TCreate now h name user scope ex) s =
     s\<lparr> tk_auth := fst (db_create_api_token now h name user scope ex None (tk_auth s)) \<rparr>"

definition token_run :: "(string \<Rightarrow> string) \<Rightarrow> token_op list \<Rightarrow> token_sys \<Rightarrow> token_sys" where
  "token_run sha ops s = foldl (\<lambda>s op. token_exec sha op s) s ops"

fun op_time :: "token_op \<Rightarrow> ts option" where
  "op_time (TBegin now _) = Some now"
| "op_time (TFinish _) = None"
| "op_time (TRevoke now _) = Some now"
| "op_time (TCreate now _ _ _ _ _) = Some now"

text \<open>Whatever the cache or a check under way holds for the token began at \<open>t0\<close> or before.\<close>

definition begun :: "ts \<Rightarrow> string \<Rightarrow> token_sys \<Rightarrow> bool" where
  "begun t0 token s \<longleftrightarrow> (\<forall>e. (token, e) \<in> set (au_cache (tk_auth s)) \<longrightarrow> te_cached e \<le> t0)
     \<and> (\<forall>n e. (token, n, Some e) \<in> set (tk_fly s) \<longrightarrow> te_cached e \<le> t0)"

definition tokens_ok :: "auth \<Rightarrow> bool" where
  "tokens_ok a \<longleftrightarrow> distinct (map at_hash (au_tokens a)) \<and> distinct (map at_id (au_tokens a))
     \<and> (\<forall>t \<in> set (au_tokens a). at_id t < au_next_token a)"

definition revoked_hash :: "string \<Rightarrow> auth \<Rightarrow> bool" where
  "revoked_hash h a \<longleftrightarrow> (\<exists>t. find (\<lambda>t. at_hash t = h) (au_tokens a) = Some t \<and> at_revoked t \<noteq> None)"

section \<open>Laws\<close>

lemma revoked_lookup: "revoked_hash (sha token) a \<Longrightarrow> token_lookup sha now token a = None"
  by (auto simp: revoked_hash_def token_lookup_def db_get_api_token_by_hash_def)

lemma lookup_time: "token_lookup sha now token a = Some e \<Longrightarrow> te_cached e = now"
  by (auto simp: token_lookup_def)

lemma find_map_key: "(\<And>t. at_hash (f t) = at_hash t) \<Longrightarrow>
    find (\<lambda>t. at_hash t = h) (map f ts) = map_option f (find (\<lambda>t. at_hash t = h) ts)"
  by (induction ts) auto

lemma change_revoked:
  assumes "\<And>t. at_hash (f t) = at_hash t" "\<And>t. at_revoked t \<noteq> None \<Longrightarrow> at_revoked (f t) \<noteq> None" "revoked_hash h a"
  shows "revoked_hash h (change_token i f a)"
proof -
  let ?g = "\<lambda>t. if at_id t = i then f t else t"
  obtain t where t: "find (\<lambda>t. at_hash t = h) (au_tokens a) = Some t" "at_revoked t \<noteq> None"
    using assms(3) by (auto simp: revoked_hash_def)
  have "find (\<lambda>t. at_hash t = h) (map ?g (au_tokens a)) = Some (?g t)"
    using find_map_key [of ?g h "au_tokens a"] t(1) assms(1) by simp
  moreover have "at_revoked (?g t) \<noteq> None" using t(2) assms(2) by simp
  ultimately show ?thesis unfolding revoked_hash_def change_token_def by auto
qed

lemma find_key: "distinct (map at_hash ts) \<Longrightarrow> t \<in> set ts \<Longrightarrow> find (\<lambda>u. at_hash u = at_hash t) ts = Some t"
  by (induction ts) auto

lemma find_append: "find P (xs @ ys) = (case find P xs of None \<Rightarrow> find P ys | Some x \<Rightarrow> Some x)"
  by (induction xs) auto

lemma revoked_simps [simp]:
  "revoked_hash h (a\<lparr> au_cache := c \<rparr>) \<longleftrightarrow> revoked_hash h a"
  "revoked_hash h (auth_evict_api_token_hash k a) \<longleftrightarrow> revoked_hash h a"
  by (simp_all add: revoked_hash_def auth_evict_api_token_hash_def)

lemma evict_tokens [simp]: "au_tokens (auth_evict_api_token_hash k a) = au_tokens a"
  by (simp add: auth_evict_api_token_hash_def)

lemma revoke_token_state:
  "fst (revoke_token now i a) = a
   \<or> (\<exists>h. fst (revoke_token now i a) = auth_evict_api_token_hash h (change_token i (\<lambda>t. t\<lparr> at_revoked := Some now \<rparr>) a))"
  by (auto simp: revoke_token_def db_revoke_api_token_def auth_evict_api_token_hash_def split: option.split)

lemma exec_revoked: "revoked_hash h (tk_auth s) \<Longrightarrow> revoked_hash h (tk_auth (token_exec sha op s))"
proof (cases op)
  case (TRevoke now i)
  assume "revoked_hash h (tk_auth s)"
  with TRevoke show ?thesis
    using revoke_token_state [of now i "tk_auth s"] by (auto simp: change_revoked)
next
  case (TCreate now g name user scope ex)
  assume "revoked_hash h (tk_auth s)"
  with TCreate show ?thesis
    by (auto simp: revoked_hash_def db_create_api_token_def Let_def find_append)
qed (auto simp: token_cached_def token_fill_def db_touch_api_token_last_used_def change_revoked split: option.splits prod.splits)

lemma begun_revoke: "begun t0 token s \<Longrightarrow> begun t0 token (s\<lparr> tk_auth := fst (revoke_token now i (tk_auth s)) \<rparr>)"
  using revoke_token_state [of now i "tk_auth s"]
  by (auto simp: begun_def auth_evict_api_token_hash_def change_token_def split: if_splits)

lemma exec_begun:
  assumes "begun t0 token s" "\<forall>t. op_time op = Some t \<longrightarrow> t \<le> t0 \<or> revoked_hash (sha token) (tk_auth s)"
  shows "begun t0 token (token_exec sha op s)"
proof (cases op)
  case (TBegin now tok)
  with assms show ?thesis
    by (auto simp: begun_def token_cached_def revoked_lookup ddel_mem dest: lookup_time [OF sym] split: option.splits)
next
  case (TFinish k)
  show ?thesis
  proof (cases "length (tk_fly s) \<le> k")
    case False
    obtain tok now e where f: "tk_fly s ! k = (tok, now, e)" by (cases "tk_fly s ! k") auto
    with False have "(tok, now, e) \<in> set (tk_fly s)" by (metis leI nth_mem)
    with TFinish False assms(1) f show ?thesis
      by (auto simp: begun_def token_fill_def db_touch_api_token_last_used_def change_token_def
          dest!: dput_mem simp: ddel_mem dest: in_set_takeD in_set_dropD split: option.splits)
  qed (use TFinish assms(1) in simp)
next
  case (TRevoke now i)
  with assms(1) begun_revoke show ?thesis by simp
next
  case (TCreate now h name user scope ex)
  with assms(1) show ?thesis by (auto simp: begun_def db_create_api_token_def Let_def)
qed

lemma begun_none:
  assumes "begun t0 token s" "revoked_hash (sha token) (tk_auth s)" "t0 + API_TOKEN_CACHE_TTL \<le> now"
  shows "snd (auth_check_api_token sha now token (tk_auth s)) = None"
proof -
  have "te_cached e \<le> t0" if "dget (au_cache (tk_auth s)) token = Some e" for e
    using assms(1) map_of_SomeD [OF that] by (auto simp: begun_def)
  then have "token_cached now token (tk_auth s) = None"
    using assms(3) by (fastforce simp: token_cached_def split: option.split)
  then show ?thesis using assms(2) by (simp add: auth_check_api_token_def revoked_lookup token_fill_def)
qed

lemma run_begun:
  assumes "begun t0 token s" "revoked_hash (sha token) (tk_auth s)"
  shows "begun t0 token (token_run sha ops s) \<and> revoked_hash (sha token) (tk_auth (token_run sha ops s))"
  using assms
proof (induction ops arbitrary: s)
  case (Cons op ops)
  from Cons.IH [of "token_exec sha op s"] Cons.prems exec_begun exec_revoked show ?case by (simp add: token_run_def)
qed (simp add: token_run_def)

lemma run_before:
  assumes "begun t0 token s" "\<forall>op \<in> set ops. \<forall>t. op_time op = Some t \<longrightarrow> t \<le> t0"
  shows "begun t0 token (token_run sha ops s)"
  using assms
proof (induction ops arbitrary: s)
  case (Cons op ops)
  have "begun t0 token (token_exec sha op s)" using Cons.prems by (intro exec_begun) auto
  with Cons show ?case by (simp add: token_run_def)
qed (simp add: token_run_def)

lemma tokens_ok_exec: "tokens_ok (tk_auth s) \<Longrightarrow> tokens_ok (tk_auth (token_exec sha op s))"
proof -
  have ch: "tokens_ok (change_token i f a)" if "tokens_ok a" "\<And>t. at_hash (f t) = at_hash t \<and> at_id (f t) = at_id t" for i f a
  proof -
    have "map at_hash (map (\<lambda>t. if at_id t = i then f t else t) (au_tokens a)) = map at_hash (au_tokens a)"
      "map at_id (map (\<lambda>t. if at_id t = i then f t else t) (au_tokens a)) = map at_id (au_tokens a)"
      using that(2) by auto
    with that show ?thesis by (auto simp: tokens_ok_def change_token_def simp del: map_map)
  qed
  have ev: "tokens_ok (auth_evict_api_token_hash k a)" "tokens_ok (a\<lparr> au_cache := c \<rparr>)" if "tokens_ok a" for k a c
    using that by (auto simp: tokens_ok_def auth_evict_api_token_hash_def)
  assume ok: "tokens_ok (tk_auth s)"
  show ?thesis
  proof (cases op)
    case (TRevoke now i)
    with ok ch ev revoke_token_state [of now i "tk_auth s"] show ?thesis by auto
  next
    case (TCreate now h name user scope ex)
    with ok show ?thesis
      by (fastforce simp: tokens_ok_def db_create_api_token_def Let_def list_ex_iff split: if_splits)
  qed (use ok ch ev in \<open>auto simp: token_cached_def token_fill_def db_touch_api_token_last_used_def
          split: option.splits prod.splits\<close>)
qed

lemma tokens_ok_run: "tokens_ok (tk_auth s) \<Longrightarrow> tokens_ok (tk_auth (token_run sha ops s))"
  by (induction ops arbitrary: s) (simp_all add: token_run_def tokens_ok_exec)

lemma revoke_marks:
  assumes "tokens_ok a" "db_get_api_token i a = Some t" "snd (revoke_token now i a) = 200"
  shows "revoked_hash (at_hash t) (fst (revoke_token now i a))"
proof -
  have t: "t \<in> set (au_tokens a)" "at_id t = i" using assms(2) by (auto simp: db_get_api_token_def dest: find_SomeD)
  have "find (\<lambda>u. at_hash u = at_hash t) (au_tokens a) = Some t"
    using t(1) assms(1) by (simp add: tokens_ok_def find_key)
  then show ?thesis using assms t(2)
    using find_map_key [of "\<lambda>u. if at_id u = i then u\<lparr> at_revoked := Some now \<rparr> else u" "at_hash t" "au_tokens a"]
    by (auto simp: revoke_token_def db_revoke_api_token_def revoked_hash_def change_token_def split: if_splits)
qed

end
