(* ===== verification/AuthTheorems.thy ===== *)
theory AuthTheorems
  imports ChallengeLaws LoginLaws FailLaws TokenLaws
begin

text \<open>
  What the accounts, sessions and logins guarantee, and where they do not.
\<close>

section \<open>A small installation\<close>

definition ax_demo :: auth_env where
  "ax_demo = \<lparr> ax_kdf = (\<lambda>p s n. p), ax_code_ok = (\<lambda>s c t. c = ''123456''), ax_pyotp = True, ax_window = 60, ax_max = 5,
     ax_remember = 9, ax_ldap_on = False, ax_ldap_prov = False, ax_ldap_domain = [], ax_ldap = (\<lambda>u p. None),
     ax_nested = None, ax_radius_on = False,
     ax_radius = \<lparr> re_cfg = \<lparr> rc_server = [], rc_secret = [], rc_server2 = [], rc_secret2 = [], rc_prefix = [], rc_suffix = [] \<rparr>,
       re_send = (\<lambda>i u p s. RReject), re_provision = False, re_default_gid = 0, re_default_role = ''viewer'',
       re_sha = (\<lambda>t. CHR ''h'' # t), re_ttl = 86400 \<rparr> \<rparr>"

definition demo_user :: "string \<Rightarrow> string \<Rightarrow> bool \<Rightarrow> user" where
  "demo_user pw role totp = (new_user (''600000:salt:'' @ pw) role ''local'')
     \<lparr> us_secret := ''S'', us_totp := totp, us_recovery := (if totp then Some [''haa-11'', ''hbb-22''] else None) \<rparr>"

definition demo_auth :: auth where
  "demo_auth = \<lparr> au_acc = \<lparr> ac_users = [(''ada'', demo_user ''apple-pie'' ''admin'' False), (''bob'', demo_user ''banana-pie'' ''operator'' True)],
       ac_trusted = [], ac_next_td = 1, ac_groups = [], ac_next_group = 1, ac_boards = [], ac_next_board = 1 \<rparr>,
     au_sessions = [], au_rows = [], au_tokens = [], au_next_token = 1, au_cache = [], au_challenges = [], au_pending = [],
     au_ctx = [], au_fails = [], au_resets = [] \<rparr>"

definition demo_request :: "ts \<Rightarrow> string \<Rightarrow> string \<Rightarrow> request" where
  "demo_request now token cid = \<lparr> rq_now = now, rq_ip = ''ip'', rq_ua = [], rq_trusted = [], rq_token = token, rq_id = cid,
     rq_salt = ''s'', rq_device = ''dev'' \<rparr>"

definition cookie :: "string \<Rightarrow> string \<Rightarrow> string \<Rightarrow> http" where
  "cookie meth path token = \<lparr> hq_method = meth, hq_path = path, hq_cookie = ''session='' @ token, hq_authz = [] \<rparr>"

definition ada_login :: auth_op where
  "ada_login = Login (demo_request 10 ''t1'' ''c0'') ''ada'' ''apple-pie''"

definition bob_login :: auth_op where
  "bob_login = Login (demo_request 20 ''t2'' ''c1'') ''bob'' ''banana-pie''"

definition bob_code :: "ts \<Rightarrow> string \<Rightarrow> auth_op" where
  "bob_code now code = LoginCode (demo_request now ''t3'' ''c2'') ''c1'' code False"

section \<open>Sessions\<close>



lemma refusal_codes: "require_role m hq p = Inl c \<Longrightarrow> c \<in> {400, 401, 403}"
  by (auto simp: require_role_def split: option.splits if_splits)



text \<open>Ada has a session, and Bob has one, when Ada resets Bob's password.\<close>

definition both_in :: auth where
  "both_in = auth_run ax_demo [ada_login, bob_login, bob_code 30 ''123456''] demo_auth"

definition bob_reset :: "auth \<times> nat" where
  "bob_reset = handle_action ax_demo 40 (cookie ''PATCH'' ''/api/users/bob/password'' ''t1'')
     (ResetPassword ''bob'' ''cherry-pie'' ''s2'') both_in"

lemma bob_reset_ok: "snd bob_reset = 200"
proof -
  let ?hq = "cookie ''PATCH'' ''/api/users/bob/password'' ''t1''"
  obtain a p where p: "auth_principal ax_demo 40 ?hq both_in = (a, p)" by (cases "auth_principal ax_demo 40 ?hq both_in")
  have "require_role ''admin'' ?hq (snd (auth_principal ax_demo 40 ?hq both_in)) = Inr (''ada'', ''admin'')" by code_simp
  moreover have "dget (au_resets (fst (auth_principal ax_demo 40 ?hq both_in))) ''bob'' = None" by code_simp
  ultimately show ?thesis
    by (simp add: bob_reset_def handle_action_def with_role_def reset_password_def p Let_def PW_RESET_COOLDOWN_def)
qed


section \<open>API tokens\<close>

definition begin_tokens :: "auth \<Rightarrow> token_sys" where
  "begin_tokens a = \<lparr> tk_auth = a, tk_fly = [] \<rparr>"

text \<open>C19: A revoked API token is dead within the life of the cache. However checks and revocations interleave, also
  when a check read the table before the revocation and filled the cache after it, no check that starts
  300 seconds after the revocation or later takes the token.\<close>

theorem revocation_is_bounded:
  assumes "tokens_ok a" "au_cache a = []" "\<forall>op \<in> set pre. \<forall>t. op_time op = Some t \<longrightarrow> t \<le> t0"
    and "db_get_api_token i (tk_auth (token_run sha pre (begin_tokens a))) = Some row" "at_hash row = sha token"
    and "snd (revoke_token t0 i (tk_auth (token_run sha pre (begin_tokens a)))) = 200"
    and "t0 + API_TOKEN_CACHE_TTL \<le> now"
  shows "snd (auth_check_api_token sha now token (tk_auth (token_run sha (pre @ TRevoke t0 i # post) (begin_tokens a)))) = None"
proof -
  let ?s = "token_run sha pre (begin_tokens a)"
  let ?r = "token_exec sha (TRevoke t0 i) ?s"
  have "begun t0 token (begin_tokens a)" using assms(2) by (simp add: begun_def begin_tokens_def)
  from run_before [OF this assms(3)] have "begun t0 token ?r" using begun_revoke by simp
  moreover have "tokens_ok (tk_auth ?s)" using assms(1) by (intro tokens_ok_run) (simp add: begin_tokens_def)
  from revoke_marks [OF this assms(4,6)] assms(5) have "revoked_hash (sha token) (tk_auth ?r)" by simp
  ultimately have r: "begun t0 token (token_run sha post ?r) \<and> revoked_hash (sha token) (tk_auth (token_run sha post ?r))"
    by (rule run_begun)
  have "token_run sha (pre @ TRevoke t0 i # post) (begin_tokens a) = token_run sha post ?r" by (simp add: token_run_def)
  with begun_none [where sha = sha, OF conjunct1 [OF r] conjunct2 [OF r] assms(7)] show ?thesis by simp
qed

theorem revocation_is_bounded_witness:
  "let a = tk_auth (token_run (\<lambda>t. CHR ''h'' # t) ([TCreate 10 ''hpw_1'' ''ci'' ''ada'' ''full'' None, TBegin 20 ''pw_1'']
        @ TRevoke 30 1 # [TFinish 0]) (begin_tokens demo_auth))
   in map_option te_user (snd (auth_check_api_token (\<lambda>t. CHR ''h'' # t) 310 ''pw_1'' a)) = Some ''ada''
      \<and> snd (auth_check_api_token (\<lambda>t. CHR ''h'' # t) 330 ''pw_1'' a) = None"
proof -
  let ?sha = "\<lambda>t. CHR ''h'' # t"
  let ?pre = "[TCreate 10 ''hpw_1'' ''ci'' ''ada'' ''full'' None, TBegin 20 ''pw_1'']"
  let ?s = "tk_auth (token_run ?sha ?pre (begin_tokens demo_auth))"
  have o: "tokens_ok demo_auth" "au_cache demo_auth = []" by (simp_all add: tokens_ok_def demo_auth_def)
  have p: "\<forall>op \<in> set ?pre. \<forall>t. op_time op = Some t \<longrightarrow> t \<le> 30" by simp
  have g: "db_get_api_token 1 ?s = Some \<lparr> at_id = 1, at_hash = ''hpw_1'', at_name = ''ci'', at_user = ''ada'', at_scope = ''full'',
      at_created = 10, at_expires = None, at_last = None, at_revoked = None, at_probe = None \<rparr>" by code_simp
  have r: "snd (revoke_token 30 1 ?s) = 200" by code_simp
  from revocation_is_bounded [OF o p g _ r, of "''pw_1''" 330 "[TFinish 0]"]
  have "snd (auth_check_api_token ?sha 330 ''pw_1'' (tk_auth (token_run ?sha (?pre @ TRevoke 30 1 # [TFinish 0])
      (begin_tokens demo_auth)))) = None" by (simp add: API_TOKEN_CACHE_TTL_def)
  moreover have "map_option te_user (snd (auth_check_api_token ?sha 310 ''pw_1'' (tk_auth (token_run ?sha
      (?pre @ TRevoke 30 1 # [TFinish 0]) (begin_tokens demo_auth))))) = Some ''ada''" by code_simp
  ultimately show ?thesis by (simp only: Let_def simp_thms)
qed

section \<open>Guessing\<close>

text \<open>C20: Guesses are limited, up to the requests under way. The server handles requests in parallel, and the
  lock of the failure record is not held while credentials are checked. While at most 5000 addresses log
  in, the server does not restart, and until a request of the address clears its record, an address gets
  at most the configured number of credentials and one less than the number \<open>p\<close> of its requests that
  are under way at once checked and refused in one window: exactly the configured number when it sends
  one after another. The witness reaches the bound.\<close>

theorem guesses_are_bounded:
  assumes "fails_ok S a" "finite S" "card S \<le> FAIL_CAP" "one_window x S ip t p es (desk_of a)"
  shows "refusals x ip es (desk_of a) \<le> nat (ax_max x) + p - 1"
  by (rule refusals_bounded [OF _ assms(2-4)]) (use assms(1) in \<open>simp_all add: desk_ok_def desk_of_def flying_def\<close>)

definition bad_request :: request where "bad_request = demo_request 20 ''t2'' ''c1''"

definition bad_login :: auth_op where "bad_login = Login bad_request ''bob'' ''plum-pie''"

text \<open>Four guesses one after another, then seven in parallel.\<close>

definition burst :: "lev list" where
  "burst = concat (replicate 4 (alone bad_request bad_login)) @ map (\<lambda>k. Enter k bad_login) [1..<8]
     @ map Check [1..<8] @ map (\<lambda>k. Settle k 20) [1..<8]"

theorem guesses_are_bounded_witness:
  "refusals ax_demo ''ip'' burst (desk_of demo_auth) = 11
   \<and> refusals ax_demo ''ip'' burst (desk_of demo_auth) \<le> nat (ax_max ax_demo) + 7 - 1 \<and> ax_max ax_demo = 5"
proof -
  have "fails_ok {''ip''} demo_auth" by (simp add: fails_ok_def demo_auth_def)
  moreover have "one_window ax_demo {''ip''} ''ip'' 20 7 burst (desk_of demo_auth)" by code_simp
  ultimately have "refusals ax_demo ''ip'' burst (desk_of demo_auth) \<le> nat (ax_max ax_demo) + 7 - 1"
    by (intro guesses_are_bounded [of "{''ip''}"]) (simp_all add: FAIL_CAP_def)
  moreover have "refusals ax_demo ''ip'' burst (desk_of demo_auth) = 11" "ax_max ax_demo = 5" by code_simp+
  ultimately show ?thesis by blast
qed

text \<open>C21: Guesses at the code are not limited. Of any local account with a second factor whose password is
  known (and whose hash needs no renewal), any wrong code is checked and refused any number of times in
  one instant, from one address that the limit of two or more admits at the start: a login before each
  code clears the record of the address.\<close>

theorem code_guesses_unbounded:
  assumes "knows_password x nm u pw (au_acc a)" "wrong_code x (rq_now q) u code (au_acc a)" "admitted x S (rq_now q) (rq_ip q) a"
    "rq_ip q \<in> S" "finite S" "card S \<le> FAIL_CAP" "ax_pyotp x" "rq_trusted q = []" "2 \<le> ax_max x" "strip (rq_id q) = rq_id q"
  shows "refusals x (rq_ip q) (concat (replicate n (alone q (Login q nm pw) @ alone q (LoginCode q (rq_id q) code remember)))) (desk_of a) = n"
  by (rule codes_unbounded [OF assms])

theorem code_guesses_unbounded_witness:
  "refusals ax_demo ''ip'' (concat (replicate 1000 (alone bad_request (Login bad_request ''bob'' ''banana-pie'')
     @ alone bad_request (LoginCode bad_request ''c1'' ''000000'' False)))) (desk_of demo_auth) = 1000"
proof -
  have q: "rq_ip bad_request = ''ip''" "rq_id bad_request = ''c1''" "rq_trusted bad_request = []" "rq_now bad_request = 20"
    by (simp_all add: bad_request_def demo_request_def)
  have k: "knows_password ax_demo ''bob'' ''bob'' ''banana-pie'' (au_acc demo_auth)" by code_simp
  have w: "wrong_code ax_demo (rq_now bad_request) ''bob'' ''000000'' (au_acc demo_auth)" unfolding q by code_simp
  have m: "admitted ax_demo {''ip''} (rq_now bad_request) (rq_ip bad_request) demo_auth" unfolding q by code_simp
  have e: "ax_pyotp ax_demo" "2 \<le> ax_max ax_demo" "strip (rq_id bad_request) = rq_id bad_request" unfolding q by code_simp+
  from code_guesses_unbounded [OF k w m _ _ _ e(1) q(3) e(2,3), of 1000 False] show ?thesis
    unfolding q by (simp add: FAIL_CAP_def)
qed

lemma sort_key_snoc: "\<forall>x \<in> set xs. f x \<le> f y \<Longrightarrow> sort_key f (xs @ [y]) = sort_key f xs @ [y]"
proof (induction xs)
  case (Cons x xs)
  have "insort_key f x (zs @ [y]) = insort_key f x zs @ [y]" if "f x \<le> f y" for zs
    using that by (induction zs) auto
  with Cons show ?case by simp
qed simp

lemma dput_fresh: "k \<notin> fst ` set m \<Longrightarrow> dput k v m = m @ [(k, v)]"
  by (induction m) auto

text \<open>A crowd locks out the newcomer. Once 5000 other addresses have failed attempts on record, any login from an
  address without failures is answered by an internal error, whatever the credentials: the cap drops
  the fresh, empty entry that the next line reads.\<close>

theorem cap_locks_out:
  assumes "rq_ip q \<notin> fst ` set (au_fails a)" "FAIL_CAP \<le> length (au_fails a)"
    and "\<forall>(k, ts) \<in> set (au_fails a). ts \<noteq> [] \<and> 0 < latest ts"
  shows "snd (login x q nm pw a) = ServerError"
proof -
  let ?ip = "rq_ip q" and ?m = "au_fails a" and ?key = "\<lambda>(k, ts). - latest ts"
  have "dget ?m ?ip = None" using assms(1) by (simp add: map_of_eq_None_iff)
  then have r: "recent x (rq_now q) ?ip a = []" by (simp add: recent_def)
  have f: "filter (\<lambda>(k, ts). ts \<noteq> [] \<or> k = ?ip) (dput ?ip [] ?m) = ?m @ [(?ip, [])]"
    using assms(1,3) by (auto simp: dput_fresh filter_id_conv)
  have "sort_key ?key (?m @ [(?ip, [])]) = sort_key ?key ?m @ [(?ip, [])]"
    using assms(3) by (intro sort_key_snoc) (fastforce simp: latest_def [of "[]"] less_imp_le)
  then have c: "capped (?m @ [(?ip, [])]) = take FAIL_CAP (sort_key ?key ?m)"
    using assms(2) by (simp add: capped_def)
  have "?ip \<notin> fst ` set (take FAIL_CAP (sort_key ?key ?m))"
    using assms(1) by (auto dest!: in_set_takeD)
  then have "dget (take FAIL_CAP (sort_key ?key ?m)) ?ip = None" by (simp add: map_of_eq_None_iff)
  then have "login_gate x (rq_now q) ?ip a = (a\<lparr> au_fails := take FAIL_CAP (sort_key ?key ?m) \<rparr>, Crashed)"
    unfolding login_gate_def Let_def r f c by simp
  then show ?thesis by (simp add: login_def)
qed

definition crowd :: auth where
  "crowd = demo_auth\<lparr> au_fails := map (\<lambda>i. (str_of_int (int i), [1])) [0..<5000] \<rparr>"

theorem cap_locks_out_witness:
  "snd (login ax_demo (demo_request 10 ''t1'' ''c0'') ''ada'' ''apple-pie'' crowd) = ServerError
   \<and> (\<exists>t. snd (login ax_demo (demo_request 10 ''t1'' ''c0'') ''ada'' ''apple-pie'' demo_auth) = Granted t ''ada'' ''admin'' None)"
proof -
  have "str_of_int (int i) \<noteq> ''ip''" for i
    using str_of_nat_digits [of i] by (auto simp: str_of_int_def list_all_iff is_digit_def)
  then have "rq_ip (demo_request 10 ''t1'' ''c0'') \<notin> fst ` set (au_fails crowd)"
    by (auto simp: demo_request_def crowd_def) (metis)
  from cap_locks_out [OF this, of ax_demo "''ada''" "''apple-pie''"]
  have "snd (login ax_demo (demo_request 10 ''t1'' ''c0'') ''ada'' ''apple-pie'' crowd) = ServerError"
    by (auto simp: crowd_def FAIL_CAP_def latest_def)
  moreover have "snd (login ax_demo (demo_request 10 ''t1'' ''c0'') ''ada'' ''apple-pie'' demo_auth) = Granted ''t1'' ''ada'' ''admin'' None"
    by code_simp
  ultimately show ?thesis by blast
qed

section \<open>Rights\<close>

lemma bearer_keeps: "bearer_principal x now hq a = (b, p) \<Longrightarrow> au_sessions b = au_sessions a \<and> au_acc b = au_acc a"
  by (auto simp: bearer_principal_def auth_check_api_token_def token_cached_def token_fill_def db_touch_api_token_last_used_def
      change_token_def split: if_splits option.splits prod.splits)

lemma check_keeps: "auth_check sha ttl now k a = (b, r) \<Longrightarrow> au_acc b = au_acc a
    \<and> (\<forall>t. t \<noteq> k \<longrightarrow> dget (au_sessions b) t = dget (au_sessions a) t)"
  by (auto simp: auth_check_def session_fill_def auth_logout_def dict_simps split: if_splits option.splits)

lemma principal_keeps: "auth_principal x now hq a = (b, p) \<Longrightarrow> au_acc b = au_acc a
    \<and> (\<forall>t. t \<noteq> get_token hq \<longrightarrow> dget (au_sessions b) t = dget (au_sessions a) t)"
  by (auto simp: auth_principal_def split: option.splits prod.splits if_splits dest!: bearer_keeps check_keeps)

text \<open>A session outlives its account. When an administrator deletes an account, a cached session of it goes on:
  its token is taken, with the role the account had.\<close>

theorem session_outlives_account:
  assumes "handle_action x now hq (DeleteUser u) a = (b, 200)"
    and "dget (au_sessions a) t = Some s" "se_user s = u" "t \<noteq> []" "t \<noteq> get_token hq" "later \<le> se_expires s"
  shows "dget (ac_users (au_acc b)) u = None \<and> snd (auth_check (ax_sha x) (ax_ttl x) later t b) = Some u
    \<and> auth_check_role later t b = Some (se_role s)"
proof -
  obtain c p where p: "auth_principal x now hq a = (c, p)" by (cases "auth_principal x now hq a")
  from assms(1) p obtain me r where d: "delete_user u me c = (b, 200)"
    by (auto simp: handle_action_def with_role_def split: sum.splits dest: refusal_codes)
  then have "au_sessions b = au_sessions c" "dget (ac_users (au_acc b)) u = None"
    by (auto simp: delete_user_def db_delete_user_def Let_def dict_simps split: if_splits)
  moreover have "dget (au_sessions c) t = Some s" using principal_keeps [OF p] assms(2,5) by simp
  ultimately show ?thesis using assms(3,4,6) by (simp add: auth_check_def auth_check_role_def)
qed

theorem session_outlives_account_witness:
  "let r = handle_action ax_demo 40 (cookie ''DELETE'' ''/api/users/bob'' ''t1'') (DeleteUser ''bob'') both_in
   in snd r = 200 \<and> snd (auth_check (ax_sha ax_demo) (ax_ttl ax_demo) 50 ''t3'' (fst r)) = Some ''bob''
      \<and> auth_check_role 50 ''t3'' (fst r) = Some ''operator''"
proof -
  let ?hq = "cookie ''DELETE'' ''/api/users/bob'' ''t1''"
  let ?r = "handle_action ax_demo 40 ?hq (DeleteUser ''bob'') both_in"
  let ?s = "\<lparr> se_user = ''bob'', se_expires = 86430, se_role = ''operator'' \<rparr>"
  have s: "snd ?r = 200" by code_simp
  then have r: "?r = (fst ?r, 200)" by (simp add: prod_eq_iff)
  have t: "dget (au_sessions both_in) ''t3'' = Some ?s" by code_simp
  have h: "''t3'' \<noteq> get_token ?hq" by code_simp
  from session_outlives_account [OF r t _ _ h, of 50] s show ?thesis by (simp add: Let_def)
qed


definition row_kept :: "string \<Rightarrow> auth \<Rightarrow> auth \<Rightarrow> bool" where
  "row_kept v b a \<longleftrightarrow> dget (ac_users (au_acc b)) v = dget (ac_users (au_acc a)) v"





lemma row_kept_update [simp]:
  "v \<noteq> me \<Longrightarrow> row_kept v (a\<lparr> au_acc := fst (update_user me f acc) \<rparr>) b \<longleftrightarrow> row_kept v (a\<lparr> au_acc := acc \<rparr>) b"
  "row_kept v (a\<lparr> au_acc := db_revoke_trusted_devices n acc \<rparr>) b \<longleftrightarrow> row_kept v (a\<lparr> au_acc := acc \<rparr>) b"
  "row_kept v (a\<lparr> au_acc := au_acc a \<rparr>) a" "row_kept v a a"
  by (simp_all add: row_kept_def update_user_get db_revoke_trusted_devices_def)






text \<open>A read-only token can arm a second factor. The routes for the caller's own second factor only ask for a
  known caller, so an API token whose scope allows nothing but reading replaces the secret of its
  owner, who has no second factor yet.\<close>

theorem read_token_writes:
  assumes "auth_principal x now hq a = (c, Some pr)" "\<not> pl_session pr" "pl_scope pr = ''read''" "pl_user pr \<noteq> []"
    and "\<not> startswith ''/events'' (hq_path hq)" "ax_pyotp x"
    and "dget (ac_users (au_acc a)) (pl_user pr) = Some u" "\<not> us_totp u"
  shows "snd (handle_action x now hq (TotpSetup secret) a) = 200
    \<and> fst (db_get_totp (pl_user pr) (au_acc (fst (handle_action x now hq (TotpSetup secret) a)))) = secret"
proof -
  have "au_acc c = au_acc a" using principal_keeps [OF assms(1)] by simp
  with assms show ?thesis
    by (simp add: handle_action_def with_user_def auth_user_def totp_setup_def on_acc_def db_set_totp_def db_get_totp_def update_user_get)
qed

definition with_token :: auth where
  "with_token = fst (db_create_api_token 10 ''hpw_1'' ''ci'' ''ada'' ''read'' None None demo_auth)"

definition by_token :: "string \<Rightarrow> string \<Rightarrow> http" where
  "by_token meth path = \<lparr> hq_method = meth, hq_path = path, hq_cookie = [], hq_authz = ''Bearer pw_1'' \<rparr>"

theorem read_token_writes_witness:
  "let hq = by_token ''POST'' ''/api/me/totp/setup''
   in snd (handle_action ax_demo 20 hq (TotpSetup ''EVIL'') with_token) = 200
      \<and> fst (db_get_totp ''ada'' (au_acc (fst (handle_action ax_demo 20 hq (TotpSetup ''EVIL'') with_token)))) = ''EVIL''
      \<and> snd (handle_action ax_demo 20 (by_token ''DELETE'' ''/api/users/bob/totp'') (TotpReset ''bob'') with_token) = 403"
proof -
  let ?hq = "by_token ''POST'' ''/api/me/totp/setup''"
  let ?pr = "\<lparr> pl_user = ''ada'', pl_role = ''admin'', pl_scope = ''read'', pl_session = False \<rparr>"
  have "snd (auth_principal ax_demo 20 ?hq with_token) = Some ?pr" by code_simp
  then have p: "auth_principal ax_demo 20 ?hq with_token = (fst (auth_principal ax_demo 20 ?hq with_token), Some ?pr)"
    by (simp add: prod_eq_iff)
  have u: "dget (ac_users (au_acc with_token)) (pl_user ?pr) = Some (demo_user ''apple-pie'' ''admin'' False)" by code_simp
  have e: "\<not> startswith ''/events'' (hq_path ?hq)" "ax_pyotp ax_demo" by code_simp+
  have r: "snd (handle_action ax_demo 20 (by_token ''DELETE'' ''/api/users/bob/totp'') (TotpReset ''bob'') with_token) = 403" by code_simp
  from read_token_writes [OF p _ _ _ e u, of "''EVIL''"] r show ?thesis by (simp add: Let_def demo_user_def new_user_def)
qed

section \<open>Credentials\<close>

text \<open>C23: A new password is the password. After a reset of a local account, a login as that account passes the
  password check exactly with the passwords whose digest is that of the new one.\<close>

theorem password_roundtrip:
  assumes "handle_action x now hq (ResetPassword u pw salt) a = (b, 200)"
    and "dget (ac_users (au_acc a)) u = Some row" "us_type row \<noteq> ''ldap''"
    and "CHR '':'' \<notin> set salt" "CHR '':'' \<notin> set (ax_kdf x pw salt PBKDF2_ITERATIONS)" "strip_domain nm = u"
  shows "snd (auth_login x later token salt2 ip ua nm try b) =
    (if ax_kdf x try salt PBKDF2_ITERATIONS = ax_kdf x pw salt PBKDF2_ITERATIONS then Some token else None)"
proof -
  obtain c p where p: "auth_principal x now hq a = (c, p)" by (cases "auth_principal x now hq a")
  from assms(1) p obtain me where r: "reset_password x now salt u pw me c = (b, 200)"
    by (auto simp: handle_action_def with_role_def split: sum.splits dest: refusal_codes)
  have "au_acc c = au_acc a" using principal_keeps [OF p] by simp
  with r assms(2) have "dget (ac_users (au_acc b)) u = Some (row\<lparr> us_hash := hash_pw (ax_kdf x) pw salt PBKDF2_ITERATIONS \<rparr>)"
    by (auto simp: reset_password_def Let_def on_acc_def db_set_password_def auth_revoke_user_sessions_def drop_sessions_def
        db_revoke_trusted_devices_def update_user_get split: if_splits)
  moreover have "0 < PBKDF2_ITERATIONS" by (simp add: PBKDF2_ITERATIONS_def)
  ultimately show ?thesis using assms(3-6)
    by (auto simp: auth_login_def login_known_def Let_def str_or_def verify_hash)
qed

theorem password_roundtrip_witness:
  "snd (auth_login ax_demo 60 ''t9'' ''s9'' ''ip'' [] ''bob@corp'' ''cherry-pie'' (fst bob_reset)) = Some ''t9''
   \<and> snd (auth_login ax_demo 60 ''t9'' ''s9'' ''ip'' [] ''bob@corp'' ''banana-pie'' (fst bob_reset)) = None"
proof -
  let ?row = "(demo_user ''banana-pie'' ''operator'' True)"
  have h: "handle_action ax_demo 40 (cookie ''PATCH'' ''/api/users/bob/password'' ''t1'')
     (ResetPassword ''bob'' ''cherry-pie'' ''s2'') both_in = (fst bob_reset, 200)"
    using bob_reset_ok by (metis bob_reset_def prod.collapse)
  have u: "dget (ac_users (au_acc both_in)) ''bob'' = Some ?row" by code_simp
  have k: "ax_kdf ax_demo p s n = p" for p s n by (simp add: ax_demo_def)
  from password_roundtrip [OF h u, of "''bob@corp''" 60 "''t9''" "''s9''" "''ip''" "[]"] show ?thesis
    by (simp add: k demo_user_def new_user_def strip_domain_def)
qed

text \<open>A recovery code works once. After a login by a recovery code, the same code is only accepted for that
  account if it is a valid code of the authenticator.\<close>

theorem recovery_code_spent:
  assumes "login_totp x q cid code remember a = (b, Granted token u role dev)"
    and "\<not> totp_verify x (rq_now q) (fst (db_get_totp u (au_acc a))) (strip code)"
    and "snd (snd (db_get_totp u (au_acc a))) = Some hashes" "distinct hashes"
  shows "code_good x later u (strip code) (au_acc b) \<longleftrightarrow> totp_verify x later (fst (db_get_totp u (au_acc a))) (strip code)"
proof -
  let ?code = "strip code" and ?sha = "ax_sha x"
  obtain c g where g: "code_gate x (rq_now q) (rq_ip q) a = (c, g)" by (cases "code_gate x (rq_now q) (rq_ip q) a")
  have acc: "au_acc c = au_acc a" using code_gate_same [OF g] by simp
  obtain se en where s: "db_get_totp u (au_acc a) = (se, en, Some hashes)"
    using assms(3) by (cases "db_get_totp u (au_acc a)") auto
  obtain cs co where co: "totp_consume_recovery ?sha (Some hashes) ?code = (cs, co)"
    by (cases "totp_consume_recovery ?sha (Some hashes) ?code")
  have taken: "cs" "db_get_totp u (au_acc b) = (se, True, co)"
    using assms(1,2) g s co acc
    by (auto simp: login_totp_def Let_def reject_def on_acc_def db_set_totp_def db_get_totp_def update_user_get
        db_add_trusted_device_def totp_consume_challenge_def clear_failures_def
        split: if_splits option.splits prod.splits gate.splits)
  with taken recovery_once [of ?sha hashes ?code co] co assms(4) s show ?thesis by (simp add: code_good_def)
qed

theorem recovery_code_spent_witness:
  "let a = fst (auth_step ax_demo bob_login demo_auth);
       b = fst (auth_step ax_demo (bob_code 30 ''aa-11'') a)
   in snd (auth_step ax_demo (bob_code 30 ''aa-11'') a) = Some (Granted ''t3'' ''bob'' ''operator'' None)
      \<and> \<not> code_good ax_demo 40 ''bob'' ''aa-11'' (au_acc b)"
proof -
  let ?a = "fst (auth_step ax_demo bob_login demo_auth)"
  let ?q = "demo_request 30 ''t3'' ''c2''"
  let ?r = "login_totp ax_demo ?q ''c1'' ''aa-11'' False ?a"
  have g: "snd ?r = Granted ''t3'' ''bob'' ''operator'' None" by code_simp
  then have r: "?r = (fst ?r, Granted ''t3'' ''bob'' ''operator'' None)" by (simp add: prod_eq_iff)
  have h: "snd (snd (db_get_totp ''bob'' (au_acc ?a))) = Some [''haa-11'', ''hbb-22'']" by code_simp
  have p: "strip ''aa-11'' = ''aa-11''" by code_simp
  then have n: "\<not> totp_verify ax_demo t se (strip ''aa-11'')" for t se by (simp add: totp_verify_def ax_demo_def)
  from recovery_code_spent [OF r n h] n have "\<not> code_good ax_demo 40 ''bob'' (strip ''aa-11'') (au_acc (fst ?r))" by simp
  with g p show ?thesis by (simp add: bob_code_def Let_def)
qed



end
