(* ===== verification/Ip.thy ===== *)
theory Ip
  imports Prelude "HOL-Library.Word"
begin

unbundle bit_operations_syntax

text \<open>
  Addresses and networks: what the program uses of Python's module \<open>ipaddress\<close>. An IPv4 address is
  a 32-bit word, an IPv6 address a 128-bit word with an optional scope; a network is its first
  address and the length of its prefix. The parsers return \<open>None\<close> for the \<open>ValueError\<close>.
\<close>

section \<open>Addresses\<close>

datatype ip = V4 "32 word" | V6 "128 word" "string option"

text \<open>Decimal octets of at most three digits, without leading zeros.\<close>

definition parse_octet :: "string \<Rightarrow> int option" where
  "parse_octet s =
     (if s = [] \<or> \<not> list_all is_digit s \<or> 3 < length s \<or> (s \<noteq> ''0'' \<and> hd s = CHR ''0'') then None
      else if 255 < digits_val s then None else Some (digits_val s))"

definition parse_v4 :: "string \<Rightarrow> 32 word option" where
  "parse_v4 s = (case map parse_octet (split_on CHR ''.'' s) of
       [Some a, Some b, Some c, Some d] \<Rightarrow> Some (word_of_int (((a * 256 + b) * 256 + c) * 256 + d))
     | _ \<Rightarrow> None)"

definition is_hex :: "char \<Rightarrow> bool" where
  "is_hex c \<longleftrightarrow> is_digit c \<or> lower_char c \<in> set ''abcdef''"

definition hex_val :: "char \<Rightarrow> int" where
  "hex_val c = (if is_digit c then digit_val c else int (of_char (lower_char c)) - 87)"

definition parse_hextet :: "string \<Rightarrow> int option" where
  "parse_hextet s =
     (if s = [] \<or> \<not> list_all is_hex s \<or> 4 < length s then None
      else Some (foldl (\<lambda>a c. 16 * a + hex_val c) 0 s))"

definition hex_digit :: "nat \<Rightarrow> char" where
  "hex_digit n = char_of (if n < 10 then 48 + n else 87 + n)"

text \<open>\<open>'%x' % n\<close>\<close>

fun hex_of :: "nat \<Rightarrow> string" where
  "hex_of n = (if n < 16 then [hex_digit n] else hex_of (n div 16) @ [hex_digit (n mod 16)])"

declare hex_of.simps [simp del]

text \<open>The parts between colons; a dotted last part becomes two.\<close>

definition v6_parts :: "string \<Rightarrow> string list option" where
  "v6_parts s =
     (let parts = split_on CHR '':'' s
      in if s = [] \<or> length parts < 3 then None
         else if CHR ''.'' \<in> set (last parts)
         then (case parse_v4 (last parts) of
                 None \<Rightarrow> None
               | Some w \<Rightarrow> Some (butlast parts @ [hex_of (unat (drop_bit 16 w)), hex_of (unat (take_bit 16 w))]))
         else Some parts)"

definition v6_value :: "string list \<Rightarrow> 128 word option" where
  "v6_value hs = (let vs = map parse_hextet hs
     in if None \<in> set vs then None else Some (word_of_int (foldl (\<lambda>a v. 65536 * a + the v) 0 vs)))"

text \<open>At most one inner part is empty; it stands for one or more zero groups.\<close>

definition v6_int :: "string list \<Rightarrow> 128 word option" where
  "v6_int parts =
     (if 9 < length parts then None
      else case filter (\<lambda>i. parts ! i = []) [1..<length parts - 1] of
        [] \<Rightarrow> (if length parts \<noteq> 8 \<or> hd parts = [] \<or> last parts = [] then None else v6_value parts)
      | [k] \<Rightarrow>
          (let hi = (if hd parts = [] then k - 1 else k);
               lo = (if last parts = [] then length parts - k - 2 else length parts - k - 1)
           in if hd parts = [] \<and> hi \<noteq> 0 \<or> last parts = [] \<and> lo \<noteq> 0 \<or> 8 \<le> hi + lo then None
              else v6_value (take hi parts @ replicate (8 - (hi + lo)) ''0'' @ drop (length parts - lo) parts))
      | _ \<Rightarrow> None)"

text \<open>An optional scope follows a percent sign.\<close>

definition split_scope :: "string \<Rightarrow> (string \<times> string option) option" where
  "split_scope s = (case split_on CHR ''%'' s of
       [a] \<Rightarrow> Some (a, None)
     | [a, z] \<Rightarrow> (if z = [] then None else Some (a, Some z))
     | _ \<Rightarrow> None)"

definition parse_v6 :: "string \<Rightarrow> (128 word \<times> string option) option" where
  "parse_v6 s =
     (if CHR ''/'' \<in> set s then None
      else case split_scope s of
        None \<Rightarrow> None
      | Some (a, z) \<Rightarrow> map_option (\<lambda>w. (w, z)) (Option.bind (v6_parts a) v6_int))"

text \<open>\<open>ipaddress.ip_address\<close>\<close>

definition parse_ip :: "string \<Rightarrow> ip option" where
  "parse_ip s = (case parse_v4 s of
       Some w \<Rightarrow> Some (V4 w)
     | None \<Rightarrow> map_option (\<lambda>(w, z). V6 w z) (parse_v6 s))"

section \<open>Text of addresses\<close>

fun joined :: "string \<Rightarrow> string list \<Rightarrow> string" where
  "joined sep [] = []"
| "joined sep [x] = x"
| "joined sep (x # y # xs) = x @ sep @ joined sep (y # xs)"

definition octet :: "nat \<Rightarrow> 32 word \<Rightarrow> nat" where
  "octet k w = unat (take_bit 8 (drop_bit (8 * k) w))"

definition show_v4 :: "32 word \<Rightarrow> string" where
  "show_v4 w = joined ''.'' (map (\<lambda>k. str_of_nat (octet k w)) [3, 2, 1, 0])"

definition hextets :: "128 word \<Rightarrow> string list" where
  "hextets w = map (\<lambda>k. hex_of (unat (take_bit 16 (drop_bit (16 * (7 - k)) w)))) [0..<8]"

text \<open>The first of the longest runs of zero groups: its start and its length; \<open>cur\<close> is the run under way.\<close>

fun best_run :: "nat \<Rightarrow> string list \<Rightarrow> nat \<times> nat \<Rightarrow> nat \<times> nat \<Rightarrow> nat \<times> nat" where
  "best_run i [] cur best = best"
| "best_run i (h # hs) cur best =
     (if h = ''0''
      then let c = (if snd cur = 0 then (i, 1) else (fst cur, snd cur + 1))
           in best_run (Suc i) hs c (if snd best < snd c then c else best)
      else best_run (Suc i) hs (0, 0) best)"

definition compress_hextets :: "string list \<Rightarrow> string list" where
  "compress_hextets hs =
     (let (s, n) = best_run 0 hs (0, 0) (0, 0)
      in if n \<le> 1 then hs
         else (if s = 0 then [[]] else []) @ take s hs @ [[]] @ drop (s + n) hs @ (if s + n = length hs then [[]] else []))"

definition show_v6 :: "128 word \<Rightarrow> string option \<Rightarrow> string" where
  "show_v6 w z = joined '':'' (compress_hextets (hextets w)) @ (case z of None \<Rightarrow> [] | Some s \<Rightarrow> ''%'' @ s)"

fun show_ip :: "ip \<Rightarrow> string" where
  "show_ip (V4 w) = show_v4 w"
| "show_ip (V6 w z) = show_v6 w z"

section \<open>Networks\<close>

datatype net = Net4 "32 word" nat | Net6 "128 word" "string option" nat

definition netmask :: "nat \<Rightarrow> 'a::len word" where
  "netmask p = NOT (mask (LENGTH('a) - p))"

definition parse_prefix :: "nat \<Rightarrow> string \<Rightarrow> nat option" where
  "parse_prefix m s =
     (if s = [] \<or> \<not> list_all is_digit s \<or> int m < digits_val s then None else Some (nat (digits_val s)))"

definition trailing_zeros :: "32 word \<Rightarrow> nat" where
  "trailing_zeros w = length (takeWhile (\<lambda>i. \<not> bit w i) [0..<32])"

text \<open>The length of the prefix a mask stands for, if its ones come first.\<close>

definition prefix_of_mask :: "32 word \<Rightarrow> nat option" where
  "prefix_of_mask w = (let p = 32 - trailing_zeros w in if w = netmask p then Some p else None)"

text \<open>The part after the slash: a length, a mask, or the complement of a mask.\<close>

definition parse_mask4 :: "string \<Rightarrow> nat option" where
  "parse_mask4 s = (case parse_prefix 32 s of
       Some p \<Rightarrow> Some p
     | None \<Rightarrow> (case parse_v4 s of
         None \<Rightarrow> None
       | Some w \<Rightarrow> (case prefix_of_mask w of Some p \<Rightarrow> Some p | None \<Rightarrow> prefix_of_mask (NOT w))))"

definition mask_net4 :: "32 word \<Rightarrow> nat \<Rightarrow> net" where
  "mask_net4 w p = Net4 (w AND netmask p) p"

text \<open>The scope survives when no host bit is set.\<close>

definition mask_net6 :: "128 word \<Rightarrow> string option \<Rightarrow> nat \<Rightarrow> net" where
  "mask_net6 w z p = (if w AND netmask p = w then Net6 w z p else Net6 (w AND netmask p) None p)"

text \<open>\<open>ipaddress.ip_network(text, strict=False)\<close>\<close>

definition parse_net4 :: "string \<Rightarrow> net option" where
  "parse_net4 s = (case split_on CHR ''/'' s of
       [a] \<Rightarrow> map_option (\<lambda>w. mask_net4 w 32) (parse_v4 a)
     | [a, m] \<Rightarrow> Option.bind (parse_v4 a) (\<lambda>w. map_option (mask_net4 w) (parse_mask4 m))
     | _ \<Rightarrow> None)"

definition parse_net6 :: "string \<Rightarrow> net option" where
  "parse_net6 s = (case split_on CHR ''/'' s of
       [a] \<Rightarrow> map_option (\<lambda>(w, z). mask_net6 w z 128) (parse_v6 a)
     | [a, m] \<Rightarrow> Option.bind (parse_v6 a) (\<lambda>(w, z). map_option (mask_net6 w z) (parse_prefix 128 m))
     | _ \<Rightarrow> None)"

definition parse_net :: "string \<Rightarrow> net option" where
  "parse_net s = (case parse_net4 s of Some n \<Rightarrow> Some n | None \<Rightarrow> parse_net6 s)"

fun prefixlen :: "net \<Rightarrow> nat" where
  "prefixlen (Net4 n p) = p"
| "prefixlen (Net6 n z p) = p"

fun show_net :: "net \<Rightarrow> string" where
  "show_net (Net4 n p) = show_v4 n @ ''/'' @ str_of_nat p"
| "show_net (Net6 n z p) = show_v6 n z @ ''/'' @ str_of_nat p"

fun in_net :: "ip \<Rightarrow> net \<Rightarrow> bool" where
  "in_net (V4 a) (Net4 n p) = (a AND netmask p = n)"
| "in_net (V6 a z) (Net6 n y p) = (a AND netmask p = n)"
| "in_net _ _ = False"

text \<open>\<open>net.hosts()\<close> of an IPv4 network with room for hosts, as the program lists it.\<close>

definition hosts4 :: "32 word \<Rightarrow> nat \<Rightarrow> string list" where
  "hosts4 n p =
     (let first = uint n; final = uint (n OR mask (32 - p))
      in if p = 32 then [show_v4 n]
         else if p = 31 then [show_v4 n, show_v4 (n OR mask (32 - p))]
         else map (\<lambda>i. show_v4 (word_of_int i)) [first + 1..final - 1])"

end
