(* ===== verification/Validation.thy ===== *)
theory Validation
  imports Prelude
begin

text \<open>
  Values of parsed JSON fields and the checks of \<open>core/validation.py\<close>. A value is \<open>None\<close>, a number or
  a text; \<open>None\<close> of an option is the \<open>ValueError\<close>.
\<close>

datatype pval = PNone | PInt int | PText string

text \<open>\<open>int(v)\<close>, \<open>int(v or 0)\<close> and the text of a value.\<close>

fun pint :: "pval \<Rightarrow> int option" where
  "pint PNone = None"
| "pint (PInt n) = Some n"
| "pint (PText s) = parse_int s"

fun ptruth :: "pval \<Rightarrow> bool" where
  "ptruth PNone = False"
| "ptruth (PInt n) = (n \<noteq> 0)"
| "ptruth (PText s) = (s \<noteq> [])"

definition pint_or_0 :: "pval \<Rightarrow> int option" where
  "pint_or_0 v = (if ptruth v then pint v else Some 0)"

fun ptext :: "pval \<Rightarrow> string" where
  "ptext PNone = []"
| "ptext (PInt n) = str_of_int n"
| "ptext (PText s) = s"

definition PORT_MIN :: int where "PORT_MIN = 1"
definition PORT_MAX :: int where "PORT_MAX = 65535"
definition HOSTNAME_MAX :: nat where "HOSTNAME_MAX = 253"

definition validate_port :: "pval \<Rightarrow> int option" where
  "validate_port v = (case pint v of
       None \<Rightarrow> None | Some p \<Rightarrow> if PORT_MIN \<le> p \<and> p \<le> PORT_MAX then Some p else None)"

definition host_char :: "char \<Rightarrow> bool" where
  "host_char c \<longleftrightarrow> is_alpha c \<or> is_digit c \<or> c \<in> set ''.-_:''"

definition validate_host :: "pval \<Rightarrow> string option" where
  "validate_host v = (case v of
       PText s \<Rightarrow>
         (let h = strip s
          in if h = [] \<or> hd h = CHR ''-'' \<or> \<not> list_all host_char h \<or> HOSTNAME_MAX < length h then None else Some h)
     | _ \<Rightarrow> None)"

definition validate_interval :: "pval \<Rightarrow> int \<Rightarrow> int \<Rightarrow> int option" where
  "validate_interval v lo hi = map_option (\<lambda>i. max lo (min hi i)) (pint v)"

definition validate_timeout :: "pval \<Rightarrow> int \<Rightarrow> int \<Rightarrow> int option" where
  "validate_timeout v lo hi = map_option (\<lambda>t. max lo (min hi t)) (pint v)"

definition validate_name :: "pval \<Rightarrow> nat \<Rightarrow> string option" where
  "validate_name v max_len = (case v of
       PText s \<Rightarrow> (let n = strip s in if n = [] \<or> max_len < length n then None else Some n)
     | _ \<Rightarrow> None)"

lemma validate_host_idem: "validate_host (PText s) = Some h \<Longrightarrow> h \<noteq> [] \<and> hd h \<noteq> CHR ''-'' \<and> length h \<le> HOSTNAME_MAX"
  by (auto simp: validate_host_def Let_def split: if_splits)

end
