(* ===== verification/Ipam.thy ===== *)
theory Ipam
  imports Ip Validation
begin

text \<open>
  IP address management (\<open>db/ipam.py\<close>, \<open>routes/ipam.py\<close>). Some writes happen at once, others are
  queued for the one thread that writes; \<open>ipam_write\<close> are the queued ones with the values they
  captured, and \<open>exec_write\<close> is what the thread does. \<open>pg\<close> tells whether PostgreSQL is used, which
  refuses rows of a subnet that is gone; SQLite keeps them. Ids of subnets are never used again.
\<close>

section \<open>State\<close>

record subnet =
  sn_cidr :: string
  sn_name :: string
  sn_site :: string
  sn_vlan :: int
  sn_auto :: bool                 \<comment> \<open>\<open>auto_discover\<close>\<close>
  sn_approved :: bool
  sn_last :: string
  sn_dns :: string
  sn_hosts :: bool                \<comment> \<open>\<open>auto_host_scan\<close>\<close>
  sn_by :: string
  sn_at :: ts

record alloc =
  al_name :: string
  al_kind :: string
  al_by :: string
  al_at :: ts
  al_dev :: string
  al_dns :: string
  al_dns_at :: ts

datatype ipam_write =
    WUpsert int string string string ts string "string option"  \<comment> \<open>subnet, address, name, user, time, device, kind\<close>
  | WStale int "string list"
  | WClear int string
  | WRename int string
  | WDropSubnet int
  | WDeviceAdd string string string                              \<comment> \<open>device, name, host\<close>
  | WDeviceUpdate string string string string                    \<comment> \<open>device, old host, new host, name\<close>
  | WDeviceDelete string
  | WFillSubnet int string                                       \<comment> \<open>subnet, CIDR\<close>
  | WDiscover string string                                      \<comment> \<open>scanned CIDR, user\<close>

record ipam =
  im_subnets :: "(int, subnet) dict"
  im_next :: int
  im_allocs :: "(int \<times> string, alloc) dict"
  im_queue :: "ipam_write list"
  im_dns :: "int list"                          \<comment> \<open>\<open>_dns_refresh_lock\<close>\<close>
  im_scans :: "(int, string) dict"              \<comment> \<open>\<open>_active_scans\<close>\<close>

definition enq :: "ipam_write \<Rightarrow> ipam \<Rightarrow> ipam" where
  "enq w m = m\<lparr> im_queue := im_queue m @ [w] \<rparr>"

section \<open>Subnets\<close>

definition VLAN_MAX :: int where "VLAN_MAX = 4094"

definition vlan_of :: "pval \<Rightarrow> int" where
  "vlan_of v = (case pint_or_0 v of Some n \<Rightarrow> if 0 \<le> n \<and> n \<le> VLAN_MAX then n else 0 | None \<Rightarrow> 0)"

definition db_get_subnet :: "int \<Rightarrow> ipam \<Rightarrow> subnet option" where
  "db_get_subnet i m = dget (im_subnets m) i"

definition on_subnet :: "int \<Rightarrow> (subnet \<Rightarrow> subnet) \<Rightarrow> ipam \<Rightarrow> ipam" where
  "on_subnet i f m = (case dget (im_subnets m) i of
       None \<Rightarrow> m | Some s \<Rightarrow> m\<lparr> im_subnets := dput i (f s) (im_subnets m) \<rparr>)"

text \<open>One field of \<open>db_update_subnet\<close>; a number out of range is 0, what is no number is dropped.\<close>

definition set_field :: "string \<Rightarrow> pval \<Rightarrow> subnet \<Rightarrow> subnet" where
  "set_field k v s =
     (let flag = map_option (\<lambda>n. n \<noteq> 0) (pint v); text_of = (\<lambda>n. take n (strip (ptext v)))
      in if k = ''name'' then s\<lparr> sn_name := text_of 80 \<rparr>
         else if k = ''site'' then s\<lparr> sn_site := text_of 40 \<rparr>
         else if k = ''dns_server'' then s\<lparr> sn_dns := text_of 255 \<rparr>
         else if k = ''auto_discover'' then (case flag of None \<Rightarrow> s | Some b \<Rightarrow> s\<lparr> sn_auto := b \<rparr>)
         else if k = ''first_scan_approved'' then (case flag of None \<Rightarrow> s | Some b \<Rightarrow> s\<lparr> sn_approved := b \<rparr>)
         else if k = ''auto_host_scan'' then (case flag of None \<Rightarrow> s | Some b \<Rightarrow> s\<lparr> sn_hosts := b \<rparr>)
         else if k = ''vlan'' then (case pint v of
                None \<Rightarrow> s | Some n \<Rightarrow> s\<lparr> sn_vlan := (if 0 \<le> n \<and> n \<le> VLAN_MAX then n else 0) \<rparr>)
         else s)"

definition db_update_subnet :: "int \<Rightarrow> (string \<times> pval) list \<Rightarrow> ipam \<Rightarrow> ipam" where
  "db_update_subnet i changes = on_subnet i (\<lambda>s. foldl (\<lambda>s (k, v). set_field k v s) s changes)"

definition db_set_auto_discover :: "int \<Rightarrow> bool \<Rightarrow> ipam \<Rightarrow> ipam" where
  "db_set_auto_discover i b = on_subnet i (\<lambda>s. s\<lparr> sn_auto := b \<rparr>)"

definition db_approve_first_scan :: "int \<Rightarrow> ipam \<Rightarrow> ipam" where
  "db_approve_first_scan i = on_subnet i (\<lambda>s. s\<lparr> sn_approved := True \<rparr>)"

definition db_set_subnet_last_scan :: "int \<Rightarrow> string \<Rightarrow> ipam \<Rightarrow> ipam" where
  "db_set_subnet_last_scan i t = on_subnet i (\<lambda>s. s\<lparr> sn_last := t \<rparr>)"

text \<open>\<open>None\<close> for a CIDR that is there already.\<close>

definition db_add_subnet :: "ts \<Rightarrow> string \<Rightarrow> string \<Rightarrow> string \<Rightarrow> string \<Rightarrow> pval \<Rightarrow> ipam \<Rightarrow> ipam \<times> int option" where
  "db_add_subnet now cidr name user site vlan m =
     (if list_ex (\<lambda>(i, s). sn_cidr s = cidr) (im_subnets m) then (m, None)
      else let i = im_next m
           in (m\<lparr> im_subnets := dput i \<lparr> sn_cidr = cidr, sn_name = name, sn_site = site, sn_vlan = vlan_of vlan,
                    sn_auto = False, sn_approved = False, sn_last = [], sn_dns = [], sn_hosts = False, sn_by = user,
                    sn_at = now \<rparr> (im_subnets m), im_next := i + 1 \<rparr>, Some i))"

definition db_rename_subnet :: "int \<Rightarrow> string \<Rightarrow> ipam \<Rightarrow> ipam" where
  "db_rename_subnet i name = enq (WRename i name)"

definition db_delete_subnet :: "int \<Rightarrow> ipam \<Rightarrow> ipam" where
  "db_delete_subnet i = enq (WDropSubnet i)"

section \<open>Allocations\<close>

definition db_get_allocations :: "int \<Rightarrow> ipam \<Rightarrow> (string, alloc) dict" where
  "db_get_allocations i m = map (\<lambda>((s, a), r). (a, r)) (filter (\<lambda>((s, a), r). s = i) (im_allocs m))"

definition on_allocs :: "(int \<Rightarrow> string \<Rightarrow> alloc \<Rightarrow> alloc) \<Rightarrow> ipam \<Rightarrow> ipam" where
  "on_allocs f m = m\<lparr> im_allocs := map (\<lambda>((s, a), r). ((s, a), f s a r)) (im_allocs m) \<rparr>"

definition drop_allocs :: "(int \<Rightarrow> string \<Rightarrow> alloc \<Rightarrow> bool) \<Rightarrow> ipam \<Rightarrow> ipam" where
  "drop_allocs P m = m\<lparr> im_allocs := filter (\<lambda>((s, a), r). \<not> P s a r) (im_allocs m) \<rparr>"

definition db_update_dns :: "ts \<Rightarrow> int \<Rightarrow> string \<Rightarrow> string \<Rightarrow> ipam \<Rightarrow> ipam" where
  "db_update_dns now i ip name =
     on_allocs (\<lambda>s a r. if s = i \<and> a = ip then r\<lparr> al_dns := name, al_dns_at := now \<rparr> else r)"

definition db_upsert_allocation :: "ts \<Rightarrow> int \<Rightarrow> string \<Rightarrow> string \<Rightarrow> string \<Rightarrow> string \<Rightarrow> string option \<Rightarrow> ipam \<Rightarrow> ipam" where
  "db_upsert_allocation now i ip name user dev kind = enq (WUpsert i ip name user now dev (map_option (take 24) kind))"

definition db_clear_allocation :: "int \<Rightarrow> string \<Rightarrow> ipam \<Rightarrow> ipam" where
  "db_clear_allocation i ip = enq (WClear i ip)"

definition db_mark_allocations_stale :: "int \<Rightarrow> string list \<Rightarrow> ipam \<Rightarrow> ipam" where
  "db_mark_allocations_stale i ips m = (if ips = [] then m else enq (WStale i ips) m)"

definition new_alloc :: "string \<Rightarrow> string \<Rightarrow> string \<Rightarrow> ts \<Rightarrow> string \<Rightarrow> alloc" where
  "new_alloc name kind user now dev = \<lparr> al_name = name, al_kind = kind, al_by = user, al_at = now, al_dev = dev,
     al_dns = [], al_dns_at = 0 \<rparr>"

text \<open>An insert that becomes an update when the row is there, unless \<open>ok\<close> refuses the row.\<close>

definition put_alloc :: "int \<times> string \<Rightarrow> (alloc \<Rightarrow> bool) \<Rightarrow> (alloc \<Rightarrow> alloc) \<Rightarrow> alloc \<Rightarrow> ipam \<Rightarrow> ipam" where
  "put_alloc k ok f new m = (case dget (im_allocs m) k of
       None \<Rightarrow> m\<lparr> im_allocs := dput k new (im_allocs m) \<rparr>
     | Some r \<Rightarrow> if ok r then m\<lparr> im_allocs := dput k (f r) (im_allocs m) \<rparr> else m)"

section \<open>Devices\<close>

definition ipam_upsert_direct :: "ts \<Rightarrow> int \<Rightarrow> string \<Rightarrow> string \<Rightarrow> string \<Rightarrow> ipam \<Rightarrow> ipam" where
  "ipam_upsert_direct now i ip name did = put_alloc (i, ip) (\<lambda>r. al_dev r = did \<or> al_dev r = [])
     (\<lambda>r. r\<lparr> al_name := name, al_by := ''system'', al_at := now, al_dev := did \<rparr>) (new_alloc name [] ''system'' now did)"

definition ipam_subnets_for_ip :: "ip \<Rightarrow> ipam \<Rightarrow> int list" where
  "ipam_subnets_for_ip a m =
     map fst (filter (\<lambda>(i, s). case parse_net (sn_cidr s) of Some n \<Rightarrow> in_net a n | None \<Rightarrow> False) (im_subnets m))"

definition claim_ip :: "ts \<Rightarrow> string \<Rightarrow> string \<Rightarrow> ip \<Rightarrow> ipam \<Rightarrow> ipam" where
  "claim_ip now did name a m = fold (\<lambda>i. ipam_upsert_direct now i (show_ip a) name did) (ipam_subnets_for_ip a m) m"

definition ipam_sync_device_add :: "ts \<Rightarrow> string \<Rightarrow> string \<Rightarrow> string \<Rightarrow> ipam \<Rightarrow> ipam" where
  "ipam_sync_device_add now did name host m = (case parse_ip host of None \<Rightarrow> m | Some a \<Rightarrow> claim_ip now did name a m)"

definition ipam_sync_device_update :: "ts \<Rightarrow> string \<Rightarrow> string \<Rightarrow> string \<Rightarrow> string \<Rightarrow> ipam \<Rightarrow> ipam" where
  "ipam_sync_device_update now did old_host new_host name m =
     (let m1 = (if old_host \<noteq> new_host
                then case parse_ip old_host of
                       Some o_ip \<Rightarrow> drop_allocs (\<lambda>s a r. a = show_ip o_ip \<and> al_dev r = did) m
                     | None \<Rightarrow> m
                else m)
      in case parse_ip new_host of
           None \<Rightarrow> m1
         | Some a \<Rightarrow>
             (let m2 = claim_ip now did name a m1
              in if old_host \<noteq> new_host then m2
                 else on_allocs (\<lambda>s t r. if al_dev r = did \<and> t = show_ip a then r\<lparr> al_name := name, al_at := now \<rparr> else r) m2))"

definition ipam_sync_device_delete :: "string \<Rightarrow> ipam \<Rightarrow> ipam" where
  "ipam_sync_device_delete did = drop_allocs (\<lambda>s a r. al_dev r = did)"

definition fill_row :: "ts \<Rightarrow> int \<Rightarrow> net \<Rightarrow> string \<times> string \<times> string \<Rightarrow> ipam \<Rightarrow> ipam" where
  "fill_row now i n d m = (case d of (did, name, host) \<Rightarrow> (case parse_ip host of
       Some a \<Rightarrow> if in_net a n then ipam_upsert_direct now i (show_ip a) name did m else m
     | None \<Rightarrow> m))"

text \<open>\<open>devs\<close> are the devices (id, name, host) the registry has when the thread runs.\<close>

definition ipam_sync_subnet_add :: "bool \<Rightarrow> ts \<Rightarrow> (string \<times> string \<times> string) list \<Rightarrow> int \<Rightarrow> string \<Rightarrow> ipam \<Rightarrow> ipam" where
  "ipam_sync_subnet_add pg now devs i cidr m = (case parse_net cidr of
       None \<Rightarrow> m
     | Some n \<Rightarrow>
         (if pg \<and> dget (im_subnets m) i = None then m
          else fold (fill_row now i n) devs m))"

section \<open>The writer thread\<close>

fun exec_write :: "bool \<Rightarrow> ts \<Rightarrow> (string \<times> string \<times> string) list \<Rightarrow> ipam_write \<Rightarrow> ipam \<Rightarrow> ipam" where
  "exec_write pg now devs (WUpsert i ip name user t dev kind) m =
     (if pg \<and> dget (im_subnets m) i = None then m
      else put_alloc (i, ip) (\<lambda>r. True)
        (\<lambda>r. r\<lparr> al_name := name, al_by := user, al_at := t, al_dev := dev,
                al_kind := (case kind of None \<Rightarrow> al_kind r | Some k \<Rightarrow> k) \<rparr>)
        (new_alloc name (case kind of None \<Rightarrow> [] | Some k \<Rightarrow> k) user t dev) m)"
| "exec_write pg now devs (WStale i ips) m =
     on_allocs (\<lambda>s a r. if s = i \<and> a \<in> set ips \<and> al_dev r = [] \<and> al_kind r \<in> {''discovered'', []}
                        then r\<lparr> al_kind := ''stale'' \<rparr> else r) m"
| "exec_write pg now devs (WClear i ip) m = m\<lparr> im_allocs := ddel (i, ip) (im_allocs m) \<rparr>"
| "exec_write pg now devs (WRename i name) m = on_subnet i (\<lambda>s. s\<lparr> sn_name := name \<rparr>) m"
| "exec_write pg now devs (WDropSubnet i) m =
     (let m1 = drop_allocs (\<lambda>s a r. s = i) m in m1\<lparr> im_subnets := ddel i (im_subnets m1) \<rparr>)"
| "exec_write pg now devs (WDeviceAdd did name host) m = ipam_sync_device_add now did name host m"
| "exec_write pg now devs (WDeviceUpdate did old new name) m = ipam_sync_device_update now did old new name m"
| "exec_write pg now devs (WDeviceDelete did) m = ipam_sync_device_delete did m"
| "exec_write pg now devs (WFillSubnet i cidr) m = ipam_sync_subnet_add pg now devs i cidr m"
| "exec_write pg now devs (WDiscover cidr user) m =
     (case db_add_subnet now cidr ''Discovered'' user [] (PInt 0) m of
        (m1, None) \<Rightarrow> m1
      | (m1, Some i) \<Rightarrow> ipam_sync_subnet_add pg now devs i cidr m1)"

definition writer_turn :: "bool \<Rightarrow> ts \<Rightarrow> (string \<times> string \<times> string) list \<Rightarrow> ipam \<Rightarrow> ipam" where
  "writer_turn pg now devs m = (case im_queue m of
       [] \<Rightarrow> m | w # ws \<Rightarrow> exec_write pg now devs w (m\<lparr> im_queue := ws \<rparr>))"

section \<open>Results of a scan\<close>

definition PROTECTED_KINDS :: "string set" where
  "PROTECTED_KINDS = {''gateway'', ''reserved'', ''conflict'', ''switch'', ''backbone'', ''core''}"

definition kind_of :: "alloc \<Rightarrow> string" where
  "kind_of r = lower (strip (al_kind r))"

text \<open>Rows a scan leaves alone: monitored, tagged by hand, or named by a person.\<close>

definition scan_skips :: "alloc option \<Rightarrow> bool" where
  "scan_skips c = (case c of
       None \<Rightarrow> False
     | Some r \<Rightarrow> strip (al_dev r) \<noteq> [] \<or> kind_of r \<in> PROTECTED_KINDS
         \<or> strip (al_name r) \<noteq> [] \<and> strip (al_by r) \<noteq> [] \<and> strip (al_by r) \<noteq> ''discovery''
           \<and> kind_of r \<notin> {''discovered'', ''stale''})"

record scan_stats =
  ss_alive :: nat
  ss_upserted :: nat
  ss_skipped :: nat
  ss_staled :: nat

definition scan_row :: "ts \<Rightarrow> int \<Rightarrow> (string, alloc) dict \<Rightarrow> string \<times> string \<Rightarrow> ipam \<times> nat \<times> nat \<Rightarrow> ipam \<times> nat \<times> nat" where
  "scan_row now i existing row = (\<lambda>(m, up, skip).
     (let ip = strip (fst row); c = dget existing ip; old = (case c of Some r \<Rightarrow> strip (al_name r) | None \<Rightarrow> []);
          host = strip (snd row)
      in if ip = [] then (m, up, skip)
         else if scan_skips c then (m, up, Suc skip)
         else (db_upsert_allocation now i ip (if host \<noteq> [] then host else old) ''discovery'' [] (Some ''discovered'') m,
               Suc up, skip)))"

definition apply_subnet_scan_results :: "ts \<Rightarrow> string \<Rightarrow> int \<Rightarrow> (string \<times> string) list \<Rightarrow> ipam \<Rightarrow> ipam \<times> scan_stats" where
  "apply_subnet_scan_results now stamp i results m =
     (let existing = db_get_allocations i m;
          alive = filter (\<lambda>a. a \<noteq> []) (map (\<lambda>r. strip (fst r)) results);
          (m1, up, skip) = fold (scan_row now i existing) results (m, 0, 0);
          gone = map fst (filter (\<lambda>(a, r). a \<notin> set alive \<and> kind_of r = ''discovered'') existing);
          m2 = db_mark_allocations_stale i gone m1
      in (db_set_subnet_last_scan i stamp m2,
          \<lparr> ss_alive = card (set alive), ss_upserted = up, ss_skipped = skip, ss_staled = length gone \<rparr>))"

section \<open>Topology roles\<close>

definition role_keys :: "string set" where
  "role_keys = {''isp'', ''wan_switch'', ''firewall'', ''core_switch'', ''switch'', ''ap'', ''chassis'', ''hypervisor'', ''vm'',
     ''ipmi'', ''other'', ''core'', ''backbone'', ''gateway''}"

text \<open>The rows of the address in the subnets that contain it, if they are the device's or nobody's.\<close>

definition role_row :: "string \<Rightarrow> ip \<Rightarrow> int list \<Rightarrow> int \<Rightarrow> string \<Rightarrow> alloc \<Rightarrow> bool" where
  "role_row did a ids s t r \<longleftrightarrow> s \<in> set ids \<and> t = show_ip a \<and> (al_dev r = did \<or> al_dev r = [])"

definition db_set_device_role :: "ts \<Rightarrow> string \<Rightarrow> string \<Rightarrow> string \<Rightarrow> ipam \<Rightarrow> ipam \<times> nat" where
  "db_set_device_role now did host role_text m =
     (let role = lower (strip role_text)
      in if role \<noteq> [] \<and> role \<notin> role_keys then (m, 0)
         else case parse_ip host of
           None \<Rightarrow> (m, 0)
         | Some a \<Rightarrow>
             (let ids = ipam_subnets_for_ip a m
              in (on_allocs (\<lambda>s t r. if role_row did a ids s t r then r\<lparr> al_kind := role, al_at := now \<rparr> else r) m,
                  length (filter (\<lambda>((s, t), r). role_row did a ids s t r) (im_allocs m)))))"

definition db_get_device_roles :: "ipam \<Rightarrow> (string, string) dict" where
  "db_get_device_roles m = fold (\<lambda>((s, a), r). dput (al_dev r) (al_kind r))
     (filter (\<lambda>((s, a), r). al_kind r \<in> {''switch'', ''backbone'', ''core'', ''gateway''} \<and> al_dev r \<noteq> []) (im_allocs m)) []"

section \<open>Routes\<close>

definition MIN_PREFIX :: nat where "MIN_PREFIX = 9"

definition add_subnet :: "ts \<Rightarrow> string \<Rightarrow> string \<Rightarrow> string \<Rightarrow> string \<Rightarrow> pval \<Rightarrow> ipam \<Rightarrow> ipam \<times> nat" where
  "add_subnet now user cidr_text name_text site_text vlan m =
     (let cidr = strip cidr_text
      in if cidr = [] then (m, 400)
         else case parse_net cidr of
           None \<Rightarrow> (m, 400)
         | Some n \<Rightarrow>
             (if prefixlen n < MIN_PREFIX then (m, 400)
              else case db_add_subnet now (show_net n) (take 80 (strip name_text)) user (take 40 (strip site_text))
                     (PInt (vlan_of vlan)) m of
                (m1, None) \<Rightarrow> (m1, 409)
              | (m1, Some i) \<Rightarrow> (enq (WFillSubnet i (show_net n)) m1, 201)))"

definition toggle_auto_discover :: "int \<Rightarrow> bool \<Rightarrow> ipam \<Rightarrow> ipam \<times> nat" where
  "toggle_auto_discover i enabled m = (case db_get_subnet i m of
       None \<Rightarrow> (m, 404) | Some s \<Rightarrow> (db_set_auto_discover i enabled m, 200))"

record subnet_patch =
  sp_name :: "string option"
  sp_site :: "string option"
  sp_vlan :: "pval option"
  sp_auto :: "bool option"
  sp_hosts :: "bool option"
  sp_dns :: "string option"
  sp_approve :: bool

text \<open>The changed fields in the order of the code; \<open>None\<close> for a DNS server that is no host.\<close>

definition patch_fields :: "subnet_patch \<Rightarrow> subnet \<Rightarrow> (string \<times> pval) list option" where
  "patch_fields p s =
     (let changed = (\<lambda>key new old. if new \<noteq> old then [(key, PText new)] else []);
          flag = (\<lambda>key b old. case b of Some v \<Rightarrow> if v \<noteq> old then [(key, PInt (if v then 1 else 0))] else [] | None \<Rightarrow> []);
          edits = (case sp_name p of Some t \<Rightarrow> changed ''name'' (take 80 (strip t)) (sn_name s) | None \<Rightarrow> [])
            @ (case sp_site p of Some t \<Rightarrow> changed ''site'' (take 40 (strip t)) (sn_site s) | None \<Rightarrow> [])
            @ (case sp_vlan p of Some v \<Rightarrow> if vlan_of v \<noteq> sn_vlan s then [(''vlan'', PInt (vlan_of v))] else [] | None \<Rightarrow> [])
            @ flag ''auto_discover'' (sp_auto p) (sn_auto s) @ flag ''auto_host_scan'' (sp_hosts p) (sn_hosts s)
      in case sp_dns p of
           None \<Rightarrow> Some edits
         | Some t \<Rightarrow> (if strip t \<noteq> [] \<and> validate_host (PText (strip t)) = None then None
                      else Some (edits @ changed ''dns_server'' (strip t) (sn_dns s))))"

definition patch_subnet :: "int \<Rightarrow> subnet_patch \<Rightarrow> ipam \<Rightarrow> ipam \<times> nat" where
  "patch_subnet i p m = (case db_get_subnet i m of
       None \<Rightarrow> (m, 404)
     | Some s \<Rightarrow> (case patch_fields p s of
           None \<Rightarrow> (m, 400)
         | Some edits \<Rightarrow>
             (let m1 = (if edits = [] then m else db_update_subnet i edits m)
              in (if sp_approve p then db_approve_first_scan i m1 else m1, 200))))"

definition delete_subnet :: "int \<Rightarrow> ipam \<Rightarrow> ipam \<times> nat" where
  "delete_subnet i m = (case db_get_subnet i m of None \<Rightarrow> (m, 404) | Some s \<Rightarrow> (db_delete_subnet i m, 200))"

definition KIND_OK :: "string set" where
  "KIND_OK = {[], ''gateway'', ''switch'', ''backbone'', ''core'', ''reserved'', ''conflict''}"

text \<open>\<open>kind_text\<close> is \<open>None\<close> when the request names no kind.\<close>

definition assign_ip :: "ts \<Rightarrow> string \<Rightarrow> int \<Rightarrow> string \<Rightarrow> string \<Rightarrow> string option \<Rightarrow> ipam \<Rightarrow> ipam \<times> nat" where
  "assign_ip now user i ip name_text kind_text m =
     (let name = take 120 (strip name_text);
          raw = lower (strip (case kind_text of Some k \<Rightarrow> k | None \<Rightarrow> []));
          kind = (if raw \<in> KIND_OK then raw else [])
      in case db_get_subnet i m of
           None \<Rightarrow> (m, 404)
         | Some s \<Rightarrow>
             (case (parse_ip ip, parse_net (sn_cidr s)) of
                (Some a, Some n) \<Rightarrow>
                  (if \<not> in_net a n then (m, 400)
                   else if name \<noteq> [] \<or> kind \<noteq> []
                   then (db_upsert_allocation now i ip name user [] (if kind_text = None then None else Some kind) m, 200)
                   else (db_clear_allocation i ip m, 200))
              | _ \<Rightarrow> (m, 400)))"

text \<open>The names to look up, or the status of the refusal; the worker that ends releases the subnet.\<close>

definition dns_refresh :: "int \<Rightarrow> ipam \<Rightarrow> ipam \<times> (nat + string list)" where
  "dns_refresh i m = (case db_get_subnet i m of
       None \<Rightarrow> (m, Inl 404)
     | Some s \<Rightarrow>
         (if i \<in> set (im_dns m) then (m, Inl 409)
          else case parse_net (sn_cidr s) of
            Some (Net4 n p) \<Rightarrow> (m\<lparr> im_dns := i # im_dns m \<rparr>, Inr (hosts4 n p))
          | Some (Net6 n z p) \<Rightarrow> (m\<lparr> im_dns := i # im_dns m \<rparr>,
              Inr (if p = 32 \<or> p = 128 then [show_v6 n z] else if p = 31 then [show_v6 n z, show_v6 (n OR mask (128 - p)) None]
                   else map (\<lambda>k. show_v6 (word_of_int k) None)
                     [uint n + (if p = 127 then 0 else 1)..uint (n OR mask (128 - p))]))
          | None \<Rightarrow> (m, Inl 400)))"

definition dns_finished :: "int \<Rightarrow> ipam \<Rightarrow> ipam" where
  "dns_finished i m = m\<lparr> im_dns := removeAll i (im_dns m) \<rparr>"

text \<open>One answer of the resolver; nothing is written for a name that failed with an exception.\<close>

definition dns_answer :: "ts \<Rightarrow> int \<Rightarrow> string \<Rightarrow> string \<Rightarrow> ipam \<Rightarrow> ipam" where
  "dns_answer now i ip name = db_update_dns now i ip name"

text \<open>The end of the thread that waits for a scan; \<open>None\<close> when the scan did not complete.\<close>

definition scan_apply :: "ts \<Rightarrow> string \<Rightarrow> int \<Rightarrow> string \<Rightarrow> (string \<times> string) list option \<Rightarrow> ipam \<Rightarrow> ipam" where
  "scan_apply now stamp i scan results m =
     (let m1 = (case results of Some rs \<Rightarrow> fst (apply_subnet_scan_results now stamp i rs m) | None \<Rightarrow> m)
      in if dget (im_scans m1) i = Some scan then m1\<lparr> im_scans := ddel i (im_scans m1) \<rparr> else m1)"

definition scan_register :: "int \<Rightarrow> string \<Rightarrow> ipam \<Rightarrow> ipam" where
  "scan_register i scan m = m\<lparr> im_scans := dput i scan (im_scans m) \<rparr>"

text \<open>After a bulk add of discovered devices: the scanned range becomes a subnet, as it was typed.\<close>

definition discovery_add :: "string \<Rightarrow> string \<Rightarrow> bool \<Rightarrow> ipam \<Rightarrow> ipam" where
  "discovery_add cidr_text user created m =
     (let cidr = strip cidr_text
      in if cidr \<noteq> [] \<and> CHR ''/'' \<in> set cidr \<and> created \<and> \<not> list_ex (\<lambda>(i, s). sn_cidr s = cidr) (im_subnets m)
         then enq (WDiscover cidr user) m else m)"

section \<open>Runs\<close>

datatype ipam_op =
    OAdd string string string string pval
  | OToggle int bool
  | OPatch int subnet_patch
  | ODelete int
  | OAssign string int string string "string option"
  | ODnsRefresh int
  | ODnsAnswer int string string
  | ODnsFinished int
  | OScanStart int string
  | OScanDone string int string "(string \<times> string) list option"
  | ODiscover string string bool
  | ORole string string string
  | ODevice ipam_write                                           \<comment> \<open>the three device writes\<close>
  | OTurn "(string \<times> string \<times> string) list"

fun is_device_write :: "ipam_write \<Rightarrow> bool" where
  "is_device_write (WDeviceAdd did name host) = True"
| "is_device_write (WDeviceUpdate did old new name) = True"
| "is_device_write (WDeviceDelete did) = True"
| "is_device_write w = False"

fun ipam_exec :: "bool \<Rightarrow> ts \<Rightarrow> ipam_op \<Rightarrow> ipam \<Rightarrow> ipam" where
  "ipam_exec pg now (OAdd user c nm site v) m = fst (add_subnet now user c nm site v m)"
| "ipam_exec pg now (OToggle i b) m = fst (toggle_auto_discover i b m)"
| "ipam_exec pg now (OPatch i p) m = fst (patch_subnet i p m)"
| "ipam_exec pg now (ODelete i) m = fst (delete_subnet i m)"
| "ipam_exec pg now (OAssign user i ip nm k) m = fst (assign_ip now user i ip nm k m)"
| "ipam_exec pg now (ODnsRefresh i) m = fst (dns_refresh i m)"
| "ipam_exec pg now (ODnsAnswer i ip nm) m = dns_answer now i ip nm m"
| "ipam_exec pg now (ODnsFinished i) m = dns_finished i m"
| "ipam_exec pg now (OScanStart i scan) m = scan_register i scan m"
| "ipam_exec pg now (OScanDone stamp i scan rs) m = scan_apply now stamp i scan rs m"
| "ipam_exec pg now (ODiscover c user created) m = discovery_add c user created m"
| "ipam_exec pg now (ORole did host role) m = fst (db_set_device_role now did host role m)"
| "ipam_exec pg now (ODevice w) m = (if is_device_write w then enq w m else m)"
| "ipam_exec pg now (OTurn devs) m = writer_turn pg now devs m"

end
