(* ===== verification/IpLaws.thy ===== *)
theory IpLaws
  imports Ip
begin

text \<open>
  Laws of addresses and networks: the text of an IPv4 address or network reads back as itself, and
  membership of a network is membership of an interval of numbers.
\<close>

section \<open>Octets\<close>

lemma str_of_nat_length: "n < 10 ^ Suc k \<Longrightarrow> length (str_of_nat n) \<le> Suc k"
proof (induction k arbitrary: n)
  case (Suc k)
  then have "n div 10 < 10 ^ Suc k" by (simp add: less_mult_imp_div_less)
  with Suc.IH show ?case by (subst str_of_nat.simps) simp
qed (simp add: str_of_nat.simps)

lemma char_of_digit: "d < 10 \<Longrightarrow> char_of (48 + d) = CHR ''0'' \<longleftrightarrow> d = 0" for d :: nat
proof -
  assume "d < 10"
  then have "digit_val (char_of (48 + d)) = int d" by (rule digit_val_char)
  moreover have "digit_val CHR ''0'' = 0" by (simp add: digit_val_def)
  moreover have "char_of (48 + 0 :: nat) = CHR ''0''" by (simp add: char_of_def bit_0)
  ultimately show ?thesis by (metis of_nat_eq_0_iff)
qed

lemma hd_str_of_nat_zero: "hd (str_of_nat n) = CHR ''0'' \<longleftrightarrow> n = 0"
proof (induction n rule: str_of_nat.induct)
  case (1 n)
  then show ?case by (subst str_of_nat.simps) (auto simp: char_of_digit)
qed

lemma parse_octet_of_nat: "n < 256 \<Longrightarrow> parse_octet (str_of_nat n) = Some (int n)"
proof -
  assume n: "n < 256"
  then have "length (str_of_nat n) \<le> 3" using str_of_nat_length [of n 2] by simp
  moreover have "str_of_nat n = ''0'' \<or> hd (str_of_nat n) \<noteq> CHR ''0''"
    using hd_str_of_nat_zero [of n] by (cases "n = 0") (auto simp: str_of_nat.simps [of 0])
  ultimately show ?thesis using n by (auto simp add: parse_octet_def str_of_nat_digits digits_val_str_of_nat)
qed

lemma digits_no_dot: "CHR ''.'' \<notin> set (str_of_nat n)"
  using str_of_nat_digits [of n] by (auto simp: list_all_iff is_digit_def)

lemma digits_no_slash: "CHR ''/'' \<notin> set (str_of_nat n)"
  using str_of_nat_digits [of n] by (auto simp: list_all_iff is_digit_def)

lemma unat_drop: "unat (drop_bit k w) = unat w div 2 ^ k"
  by (subst unat_drop_bit_eq) (rule drop_bit_eq_div)

lemma octet_div: "octet k w = unat w div 256 ^ k mod 256"
proof -
  have "octet k w = take_bit 8 (unat (drop_bit (8 * k) w))" unfolding octet_def by (rule unsigned_take_bit_eq)
  then show ?thesis by (simp only: unat_drop take_bit_eq_mod power_mult) simp
qed

lemma octet_lt: "octet k w < 256"
  by (simp add: octet_div)

lemma octets_split: "(((n div 16777216 mod 256 * 256 + n div 65536 mod 256) * 256 + n div 256 mod 256) * 256 + n mod 256 = n)"
  if "n < 4294967296" for n :: nat
proof -
  have step: "m div 256 * 256 + m mod 256 = m" for m :: nat by (rule div_mult_mod_eq)
  have "n div 16777216 < 256" using that by (simp add: less_mult_imp_div_less)
  then have top: "n div 16777216 mod 256 = n div 16777216" by (rule mod_less)
  have d: "n div 65536 = n div 256 div 256" "n div 16777216 = n div 65536 div 256" by (simp_all add: div_mult2_eq [symmetric])
  have "n div 16777216 * 256 + n div 65536 mod 256 = n div 65536" unfolding d(2) by (rule step)
  moreover have "n div 65536 * 256 + n div 256 mod 256 = n div 256" unfolding d(1) by (rule step)
  ultimately show ?thesis using step [of n] by (simp only: top)
qed

lemma octets_sum: "((octet 3 w * 256 + octet 2 w) * 256 + octet 1 w) * 256 + octet 0 w = unat w"
proof -
  have "unat w < 4294967296" using unsigned_less [of w] by simp
  then show ?thesis using octets_split [of "unat w"] by (simp only: octet_div power_0 div_by_1 power_one_right) simp
qed

lemma show_v4_parts: "split_on CHR ''.'' (show_v4 w) = map (\<lambda>k. str_of_nat (octet k w)) [3, 2, 1, 0]"
  using digits_no_dot by (simp add: show_v4_def split_on_append split_on_id)

lemma parse_show_v4: "parse_v4 (show_v4 w) = Some w"
proof -
  have "word_of_int (((int (octet 3 w) * 256 + int (octet 2 w)) * 256 + int (octet 1 w)) * 256 + int (octet 0 w)) = w"
    using arg_cong [OF octets_sum [of w], of int] by simp
  then show ?thesis by (simp add: parse_v4_def show_v4_parts parse_octet_of_nat octet_lt)
qed

lemma parse_show_ip4: "parse_ip (show_ip (V4 w)) = Some (V4 w)"
  by (simp add: parse_ip_def parse_show_v4)

lemma show_v4_no_slash: "CHR ''/'' \<notin> set (show_v4 w)"
  using digits_no_slash by (simp add: show_v4_def)

section \<open>Prefixes\<close>

lemma parse_prefix_show: "p \<le> m \<Longrightarrow> parse_prefix m (str_of_nat p) = Some p"
  by (simp add: parse_prefix_def str_of_nat_digits digits_val_str_of_nat)

lemma parse_net_show4:
  assumes "p \<le> 32" "n AND netmask p = n"
  shows "parse_net (show_net (Net4 n p)) = Some (Net4 n p)"
  using assms show_v4_no_slash [of n] digits_no_slash [of p]
  by (simp add: parse_net_def parse_net4_def split_on_append split_on_id parse_show_v4 parse_mask4_def parse_prefix_show mask_net4_def)

lemma prefix_bound: "parse_prefix m s = Some p \<Longrightarrow> p \<le> m"
  by (auto simp: parse_prefix_def split: if_splits)

lemma mask4_bound: "parse_mask4 s = Some p \<Longrightarrow> p \<le> 32"
  by (auto simp: parse_mask4_def prefix_of_mask_def Let_def dest: prefix_bound split: option.splits if_splits)

lemma parse_net4_normal:
  "parse_net4 s = Some m \<Longrightarrow> \<exists>n p. m = Net4 n p \<and> p \<le> 32 \<and> n AND netmask p = n"
  by (auto simp: parse_net4_def mask_net4_def bind_eq_Some_conv and.assoc dest: mask4_bound split: list.splits)

lemma parse_net6_kind: "parse_net6 s = Some m \<Longrightarrow> \<exists>n z p. m = Net6 n z p"
  by (auto simp: parse_net6_def mask_net6_def bind_eq_Some_conv split: list.splits if_splits)

lemma parse_net_kind4: "parse_net s = Some (Net4 n p) \<Longrightarrow> p \<le> 32 \<and> n AND netmask p = n"
  by (auto simp: parse_net_def split: option.splits dest!: parse_net4_normal parse_net6_kind)

section \<open>Intervals\<close>

lemma netmask_drop: "a AND netmask p = n \<longleftrightarrow> drop_bit (LENGTH('a) - p) a = drop_bit (LENGTH('a) - p) n \<and> n AND netmask p = n"
  for a n :: "'a::len word"
proof
  assume h: "a AND netmask p = n"
  have "drop_bit k (a AND NOT (mask k)) = drop_bit k a" for k
    by (rule bit_word_eqI) (auto simp: bit_simps dest: bit_imp_le_length)
  with h show "drop_bit (LENGTH('a) - p) a = drop_bit (LENGTH('a) - p) n \<and> n AND netmask p = n"
    by (auto simp: netmask_def and.assoc)
next
  assume h: "drop_bit (LENGTH('a) - p) a = drop_bit (LENGTH('a) - p) n \<and> n AND netmask p = n"
  let ?k = "LENGTH('a) - p"
  have "bit a (i + ?k) = bit n (i + ?k)" for i
    using arg_cong [OF conjunct1 [OF h], of "\<lambda>w. bit w i"] by (simp add: bit_drop_bit_eq add.commute)
  then have hi: "?k \<le> i \<Longrightarrow> bit a i = bit n i" for i by (metis le_add_diff_inverse2)
  have "a AND netmask p = n AND netmask p"
    by (rule bit_word_eqI) (auto simp: netmask_def bit_simps hi)
  with h show "a AND netmask p = n" by simp
qed

lemma unat_netmask: "n AND netmask p = n \<Longrightarrow> 2 ^ (LENGTH('a) - p) dvd unat n" for n :: "'a::len word"
proof -
  assume h: "n AND netmask p = n"
  have "take_bit (LENGTH('a) - p) n = 0"
    by (subst h [symmetric]) (rule bit_word_eqI, simp add: netmask_def bit_simps)
  then have "take_bit (LENGTH('a) - p) (unat n) = 0" by (metis unsigned_take_bit_eq unsigned_0)
  then show ?thesis by (simp add: take_bit_eq_mod mod_eq_0_iff_dvd)
qed

lemma div_interval: "(2::nat) ^ k dvd n \<Longrightarrow> a div 2 ^ k = n div 2 ^ k \<longleftrightarrow> n \<le> a \<and> a < n + 2 ^ k"
proof (elim dvdE)
  fix m assume n: "n = 2 ^ k * m"
  have "a div 2 ^ k = m \<longleftrightarrow> 2 ^ k * m \<le> a \<and> a < 2 ^ k * Suc m"
    by (auto simp: div_nat_eqI dividend_less_times_div)
  then show "a div 2 ^ k = n div 2 ^ k \<longleftrightarrow> n \<le> a \<and> a < n + 2 ^ k" by (simp add: n add.commute)
qed

lemma member_interval:
  fixes a n :: "'a::len word"
  assumes "n AND netmask p = n"
  shows "a AND netmask p = n \<longleftrightarrow> unat n \<le> unat a \<and> unat a < unat n + 2 ^ (LENGTH('a) - p)"
proof -
  let ?k = "LENGTH('a) - p"
  have "a AND netmask p = n \<longleftrightarrow> unat (drop_bit ?k a) = unat (drop_bit ?k n)"
    using netmask_drop [of a p n] assms by (simp add: word_eq_iff_unsigned)
  also have "\<dots> \<longleftrightarrow> unat a div 2 ^ ?k = unat n div 2 ^ ?k" unfolding unat_drop ..
  finally show ?thesis using div_interval [OF unat_netmask [OF assms]] by simp
qed

end
