(* ===== verification/Ip6Laws.thy ===== *)
theory Ip6Laws
  imports IpLaws
begin

text \<open>Laws of IPv6 text: the abbreviated form of an address reads back as the same address, and so
  does the text of every address and network that was read.\<close>

section \<open>IPv6\<close>

lemma is_hex_digit: "d < 16 \<Longrightarrow> is_hex (hex_digit d) \<and> hex_val (hex_digit d) = int d" for d :: nat
proof -
  have "list_all (\<lambda>d. is_hex (hex_digit d) \<and> hex_val (hex_digit d) = int d) [0..<16]" by code_simp
  then show "d < 16 \<Longrightarrow> is_hex (hex_digit d) \<and> hex_val (hex_digit d) = int d" by (simp add: list_all_iff)
qed

lemma hex_of_ne [simp]: "hex_of n \<noteq> []"
  by (subst hex_of.simps) simp

lemma hex_of_chars: "list_all is_hex (hex_of n)"
proof (induction n rule: hex_of.induct)
  case (1 n)
  then show ?case by (subst hex_of.simps) (simp add: is_hex_digit)
qed

lemma hex_of_value: "foldl (\<lambda>a c. 16 * a + hex_val c) 0 (hex_of n) = int n"
proof (induction n rule: hex_of.induct)
  case (1 n)
  then show ?case by (subst hex_of.simps) (auto simp: is_hex_digit zdiv_int zmod_int)
qed

lemma hex_of_length: "n < 16 ^ Suc k \<Longrightarrow> length (hex_of n) \<le> Suc k"
proof (induction k arbitrary: n)
  case (Suc k)
  then have "n div 16 < 16 ^ Suc k" by (simp add: less_mult_imp_div_less)
  with Suc.IH show ?case by (subst hex_of.simps) simp
qed (simp add: hex_of.simps)

lemma parse_hextet_show: "n < 65536 \<Longrightarrow> parse_hextet (hex_of n) = Some (int n)"
  using hex_of_length [of n 3] by (simp add: parse_hextet_def hex_of_chars hex_of_value)

lemma is_hex_plain: "is_hex c \<Longrightarrow> c \<noteq> CHR '':'' \<and> c \<noteq> CHR ''.'' \<and> c \<noteq> CHR ''%'' \<and> c \<noteq> CHR ''/''"
  by (auto simp: is_hex_def is_digit_def lower_char_def Let_def)

definition plain :: "string \<Rightarrow> bool" where
  "plain h \<longleftrightarrow> h \<noteq> [] \<and> list_all is_hex h"

lemma plain_hex_of: "plain (hex_of n)"
  by (simp add: plain_def hex_of_chars)

lemma split_on_joined: "xs \<noteq> [] \<Longrightarrow> list_all (\<lambda>x. c \<notin> set x) xs \<Longrightarrow> split_on c (joined [c] xs) = xs"
  by (induction "[c]" xs rule: joined.induct) (simp_all add: split_on_id split_on_append)

lemma set_joined: "set (joined sep xs) \<subseteq> set sep \<union> \<Union> (set ` set xs)"
  by (induction sep xs rule: joined.induct) auto

text \<open>The run that is abbreviated lies inside and is zero.\<close>

lemma best_run_zero:
  assumes "best_run i hs cur best = (s, n)" "zs = pre @ hs" "length pre = i"
    and "\<forall>k. fst cur \<le> k \<and> k < fst cur + snd cur \<longrightarrow> zs ! k = ''0''" "snd cur \<noteq> 0 \<longrightarrow> fst cur + snd cur = i"
    and "\<forall>k. fst best \<le> k \<and> k < fst best + snd best \<longrightarrow> zs ! k = ''0''" "fst best + snd best \<le> length zs"
  shows "s + n \<le> length zs \<and> (\<forall>k. s \<le> k \<and> k < s + n \<longrightarrow> zs ! k = ''0'')"
  using assms
proof (induction i hs cur best arbitrary: pre rule: best_run.induct)
  case (1 i cur best)
  then show ?case by auto
next
  case (2 i h hs cur best)
  have z: "zs = (pre @ [h]) @ hs" "length (pre @ [h]) = Suc i" "i < length zs" "zs ! i = h"
    using "2.prems"(2,3) by (auto simp: nth_append)
  show ?case
  proof (cases "h = ''0''")
    case True
    let ?c = "if snd cur = 0 then (i, 1) else (fst cur, snd cur + 1)"
    have c: "\<forall>k. fst ?c \<le> k \<and> k < fst ?c + snd ?c \<longrightarrow> zs ! k = ''0''" "fst ?c + snd ?c = Suc i" "snd ?c \<noteq> 0"
      using "2.prems"(4,5) z(4) True by (auto simp: less_Suc_eq)
    let ?b = "if snd best < snd ?c then ?c else best"
    have b: "\<forall>k. fst ?b \<le> k \<and> k < fst ?b + snd ?b \<longrightarrow> zs ! k = ''0''"
      using "2.prems"(6) c(1) by presburger
    have l: "fst ?b + snd ?b \<le> length zs" using "2.prems"(7) c(2) z(3) by (cases "snd best < snd ?c") (simp_all only: if_True if_False)
    have r: "best_run (Suc i) hs ?c ?b = (s, n)" using "2.prems"(1) True by (simp only: best_run.simps Let_def if_True refl)
    have e: "snd ?c \<noteq> 0 \<longrightarrow> fst ?c + snd ?c = Suc i" using c(2) by simp
    show ?thesis by (rule "2.IH"(1) [OF True refl r z(1,2) c(1) e b l])
  next
    case False
    then show ?thesis using "2.IH"(2) [OF False _ z(1,2)] "2.prems"(1,6,7) by simp
  qed
qed

lemma length8: "length hs = 8 \<Longrightarrow> \<exists>a b c d e f g h. hs = [a, b, c, d, e, f, g, h]"
  by (auto simp: numeral_eq_Suc length_Suc_conv)

lemma upt_small: "[1..<2] = [1::nat]" "[1..<3] = [1, 2::nat]" "[1..<4] = [1, 2, 3::nat]" "[1..<5] = [1, 2, 3, 4::nat]"
  "[1..<6] = [1, 2, 3, 4, 5::nat]" "[1..<7] = [1, 2, 3, 4, 5, 6::nat]" "[1..<8] = [1, 2, 3, 4, 5, 6, 7::nat]"
  by (simp_all add: upt_rec)

lemma v6_int_compress:
  assumes "length hs = 8" "\<forall>h \<in> set hs. h \<noteq> []" "compress_hextets hs = parts"
  shows "v6_int parts = v6_value hs"
proof -
  obtain s n where b: "best_run 0 hs (0, 0) (0, 0) = (s, n)" by (cases "best_run 0 hs (0, 0) (0, 0)")
  have r: "s + n \<le> 8 \<and> (\<forall>k. s \<le> k \<and> k < s + n \<longrightarrow> hs ! k = ''0'')"
    using best_run_zero [OF b, of hs "[]"] assms(1) by simp
  obtain a b' c d e f g h where hs: "hs = [a, b', c, d, e, f, g, h]" using length8 [OF assms(1)] by blast
  have ne: "a \<noteq> [] \<and> b' \<noteq> [] \<and> c \<noteq> [] \<and> d \<noteq> [] \<and> e \<noteq> [] \<and> f \<noteq> [] \<and> g \<noteq> [] \<and> h \<noteq> []" using assms(2) hs by simp
  show ?thesis
  proof (cases "n \<le> 1")
    case True
    then have "parts = hs" using assms(3) b by (simp add: compress_hextets_def)
    with ne hs show ?thesis by (simp add: v6_int_def upt_small)
  next
    case False
    then have sn: "s \<in> {0, 1, 2, 3, 4, 5, 6}" "n \<in> {2, 3, 4, 5, 6, 7, 8}" using r by auto
    have k: "s \<le> k \<and> k < s + n \<longrightarrow> hs ! k = ''0''" for k using r by blast
    have zero: "s \<le> 0 \<and> 0 < s + n \<longrightarrow> a = ''0''" "s \<le> 1 \<and> 1 < s + n \<longrightarrow> b' = ''0''" "s \<le> 2 \<and> 2 < s + n \<longrightarrow> c = ''0''"
      "s \<le> 3 \<and> 3 < s + n \<longrightarrow> d = ''0''" "s \<le> 4 \<and> 4 < s + n \<longrightarrow> e = ''0''" "s \<le> 5 \<and> 5 < s + n \<longrightarrow> f = ''0''"
      "s \<le> 6 \<and> 6 < s + n \<longrightarrow> g = ''0''" "s \<le> 7 \<and> 7 < s + n \<longrightarrow> h = ''0''"
      using k [of 0] k [of 1] k [of 2] k [of 3] k [of 4] k [of 5] k [of 6] k [of 7] by (simp_all add: hs numeral_eq_Suc)
    have p: "parts = (if s = 0 then [[]] else []) @ take s hs @ [[]] @ drop (s + n) hs @ (if s + n = 8 then [[]] else [])"
      using assms(1,3) b False by (simp add: compress_hextets_def)
    have "s + n \<le> 8" using r by blast
    then show ?thesis using sn zero ne unfolding p hs
      by (elim insertE emptyE; simp add: v6_int_def upt_small numeral_eq_Suc)
  qed
qed
lemma compress_set: "set (compress_hextets hs) \<subseteq> insert [] (set hs)"
  by (auto simp: compress_hextets_def split: prod.splits dest: in_set_takeD in_set_dropD)

lemma compress_length:
  assumes "length hs = 8"
  shows "3 \<le> length (compress_hextets hs)"
proof -
  obtain s n where b: "best_run 0 hs (0, 0) (0, 0) = (s, n)" by (cases "best_run 0 hs (0, 0) (0, 0)")
  have "s + n \<le> 8" using best_run_zero [OF b, of hs "[]"] assms by simp
  then show ?thesis using assms b by (auto simp: compress_hextets_def)
qed

section \<open>The round trip\<close>

lemma hextets_plain: "h \<in> set (hextets w) \<Longrightarrow> plain h"
  by (auto simp: hextets_def plain_hex_of)

lemma length_hextets: "length (hextets w) = 8"
  by (simp add: hextets_def)

definition hextet :: "nat \<Rightarrow> 128 word \<Rightarrow> nat" where
  "hextet k w = unat (take_bit 16 (drop_bit (16 * k) w))"

lemma hextet_div: "hextet k w = unat w div 65536 ^ k mod 65536"
proof -
  have "hextet k w = take_bit 16 (unat (drop_bit (16 * k) w))" unfolding hextet_def by (rule unsigned_take_bit_eq)
  then show ?thesis by (simp only: unat_drop take_bit_eq_mod power_mult) simp
qed

lemma hextets_eq: "hextets w = map (\<lambda>k. hex_of (hextet k w)) [7, 6, 5, 4, 3, 2, 1, 0]"
  by (simp add: hextets_def hextet_def upt_rec numeral_eq_Suc)

lemma div_step: "n div 65536 ^ Suc k * 65536 + n div 65536 ^ k mod 65536 = n div 65536 ^ k" for n :: nat
  by (metis div_mult2_eq div_mult_mod_eq power_Suc2)

lemma horner8:
  fixes X M :: "nat \<Rightarrow> int"
  assumes "\<And>k. 65536 * X (Suc k) + M k = X k" "X 8 = 0"
  shows "foldl (\<lambda>a v. 65536 * a + v) 0 (map M [7, 6, 5, 4, 3, 2, 1, 0]) = X 0"
proof -
  have "65536 * X 8 + M 7 = X 7" "65536 * X 7 + M 6 = X 6" "65536 * X 6 + M 5 = X 5" "65536 * X 5 + M 4 = X 4"
    "65536 * X 4 + M 3 = X 3" "65536 * X 3 + M 2 = X 2" "65536 * X 2 + M 1 = X 1" "65536 * X 1 + M 0 = X 0"
    using assms(1) [of 7] assms(1) [of 6] assms(1) [of 5] assms(1) [of 4] assms(1) [of 3] assms(1) [of 2] assms(1) [of 1]
      assms(1) [of 0] by (simp_all only: Suc_eq_plus1 numeral_plus_one add_num_simps one_add_one add_0)
  with assms(2) show ?thesis by simp
qed

lemma hextets_sum:
  "foldl (\<lambda>a v. 65536 * a + v) 0 (map (\<lambda>k. int (hextet k w)) [7, 6, 5, 4, 3, 2, 1, 0]) = int (unat w)"
proof -
  have "unat w < 65536 ^ 8" using unsigned_less [of w, where ?'a = nat] by simp
  then have top: "int (unat w div 65536 ^ 8) = 0" by simp
  have step: "65536 * int (unat w div 65536 ^ Suc k) + int (hextet k w) = int (unat w div 65536 ^ k)" for k
    using arg_cong [OF div_step [of "unat w" k], of int] by (simp add: mult.commute hextet_div)
  show ?thesis using horner8 [of "\<lambda>k. int (unat w div 65536 ^ k)" "\<lambda>k. int (hextet k w)", OF step top] by (simp only: power_0 div_by_1)
qed

lemma v6_value_hextets: "v6_value (hextets w) = Some w"
proof -
  have lt: "hextet k w < 65536" for k by (simp add: hextet_div)
  have "foldl (\<lambda>a v. 65536 * a + the v) 0 (map parse_hextet (hextets w)) = int (unat w)"
    using hextets_sum [of w] by (simp add: hextets_eq parse_hextet_show lt)
  then show ?thesis by (simp add: v6_value_def hextets_eq parse_hextet_show lt)
qed

lemma split_on_chars: "x \<in> set s \<Longrightarrow> x \<noteq> c \<Longrightarrow> \<exists>p \<in> set (split_on c s). x \<in> set p"
  by (induction s) (auto split: list.splits)

lemma parse_v4_colon:
  assumes "CHR '':'' \<in> set s"
  shows "parse_v4 s = None"
proof -
  obtain p where p: "p \<in> set (split_on CHR ''.'' s)" "CHR '':'' \<in> set p" using split_on_chars [OF assms, of "CHR ''.''"] by auto
  have "\<not> is_digit CHR '':''" by (simp add: is_digit_def)
  with p(2) have "\<not> list_all is_digit p" unfolding list_all_iff by blast
  then have "parse_octet p = None" by (simp add: parse_octet_def)
  with p(1) have "None \<in> set (map parse_octet (split_on CHR ''.'' s))" by (metis image_eqI list.set_map)
  then show ?thesis by (auto simp: parse_v4_def split: list.splits option.splits)
qed

lemma show_v6_colon: "CHR '':'' \<in> set (show_v6 w z)"
proof -
  obtain x y xs where "compress_hextets (hextets w) = x # y # xs"
    using compress_length [OF length_hextets, of w] by (metis Suc_le_length_iff numeral_3_eq_3)
  then show ?thesis by (simp add: show_v6_def)
qed

lemma parse_show_v6:
  assumes "case z of None \<Rightarrow> True | Some s \<Rightarrow> s \<noteq> [] \<and> CHR ''%'' \<notin> set s \<and> CHR ''/'' \<notin> set s"
  shows "parse_v6 (show_v6 w z) = Some (w, z)"
proof -
  let ?p = "compress_hextets (hextets w)"
  let ?t = "joined '':'' ?p"
  have parts: "x \<in> set ?p \<Longrightarrow> x = [] \<or> plain x" for x using compress_set [of "hextets w"] hextets_plain by blast
  have chars: "c \<in> set x \<Longrightarrow> x \<in> set ?p \<Longrightarrow> is_hex c" for c x using parts [of x] by (auto simp: plain_def list_all_iff)
  have ne: "?p \<noteq> []" using compress_length [OF length_hextets, of w] by auto
  have sp: "split_on CHR '':'' ?t = ?p"
    by (rule split_on_joined [OF ne]) (auto simp: list_all_iff dest: chars is_hex_plain)
  have clean: "c \<in> set ?t \<Longrightarrow> is_hex c \<or> c = CHR '':''" for c
    using set_joined [of "'':''" ?p] by (auto dest: chars)
  have t: "?t \<noteq> []"
  proof
    assume "?t = []"
    with sp have "?p = [[]]" by simp
    with compress_length [OF length_hextets, of w] show False by simp
  qed
  have "CHR ''.'' \<notin> set (last ?p)" using chars [OF _ last_in_set [OF ne]] is_hex_plain by blast
  then have "v6_parts ?t = Some ?p" using t compress_length [OF length_hextets, of w] by (simp add: v6_parts_def sp)
  moreover have "v6_int ?p = Some w"
    using v6_int_compress [OF length_hextets _ refl, of w] hextets_plain v6_value_hextets by (simp add: plain_def)
  moreover have "split_scope (show_v6 w z) = Some (?t, z)"
  proof -
    have "CHR ''%'' \<notin> set ?t" using clean is_hex_plain by blast
    then show ?thesis using assms by (cases z) (simp_all add: split_scope_def show_v6_def split_on_append split_on_id)
  qed
  moreover have "CHR ''/'' \<notin> set (show_v6 w z)"
    using clean is_hex_plain assms by (cases z) (auto simp: show_v6_def)
  ultimately show ?thesis by (simp add: parse_v6_def)
qed

lemma parse_show_ip6:
  assumes "case z of None \<Rightarrow> True | Some s \<Rightarrow> s \<noteq> [] \<and> CHR ''%'' \<notin> set s \<and> CHR ''/'' \<notin> set s"
  shows "parse_ip (show_ip (V6 w z)) = Some (V6 w z)"
  by (simp add: parse_ip_def parse_v4_colon [OF show_v6_colon] parse_show_v6 [OF assms])

lemma v4_no_colon: "CHR '':'' \<notin> set (show_v4 w)"
  using parse_v4_colon [of "show_v4 w"] parse_show_v4 [of w] by auto

lemma split_on_free: "p \<in> set (split_on c s) \<Longrightarrow> c \<notin> set p \<and> set p \<subseteq> set s"
proof (induction s arbitrary: p)
  case (Cons x s)
  then show ?case by (auto split: if_splits list.splits) blast
qed simp

lemma parse_v6_scope:
  assumes "parse_v6 s = Some (w, z)"
  shows "case z of None \<Rightarrow> True | Some t \<Rightarrow> t \<noteq> [] \<and> CHR ''%'' \<notin> set t \<and> CHR ''/'' \<notin> set t"
proof (cases z)
  case (Some t)
  have "CHR ''/'' \<notin> set s" using assms by (auto simp: parse_v6_def split: if_splits)
  moreover obtain a where "split_on CHR ''%'' s = [a, t]" "t \<noteq> []"
    using assms Some by (auto simp: parse_v6_def split_scope_def split: if_splits list.splits option.splits)
  ultimately show ?thesis using Some split_on_free [of t "CHR ''%''" s] by auto
qed simp

text \<open>The text of an address that was read reads back as the same address.\<close>

lemma parse_show_ip: "parse_ip s = Some a \<Longrightarrow> parse_ip (show_ip a) = Some a"
proof (cases a)
  case (V6 w z)
  assume "parse_ip s = Some a"
  with V6 have "parse_v6 s = Some (w, z)" by (auto simp: parse_ip_def split: option.splits)
  from parse_show_ip6 [OF parse_v6_scope [OF this]] show ?thesis using V6 by simp
qed (use parse_show_ip4 in simp)

section \<open>Networks\<close>

lemma parse_net6_normal:
  assumes "parse_net6 s = Some (Net6 n z p)"
  shows "p \<le> 128 \<and> n AND netmask p = n \<and> (case z of None \<Rightarrow> True | Some t \<Rightarrow> t \<noteq> [] \<and> CHR ''%'' \<notin> set t \<and> CHR ''/'' \<notin> set t)"
  using assms
  by (auto simp: parse_net6_def mask_net6_def bind_eq_Some_conv and.assoc dest: prefix_bound parse_v6_scope split: list.splits if_splits)

lemma show_v6_no_slash:
  assumes "case z of None \<Rightarrow> True | Some s \<Rightarrow> s \<noteq> [] \<and> CHR ''%'' \<notin> set s \<and> CHR ''/'' \<notin> set s"
  shows "CHR ''/'' \<notin> set (show_v6 w z)"
  using parse_show_v6 [OF assms, of w] by (auto simp: parse_v6_def split: if_splits)

lemma parse_net_show6:
  assumes "p \<le> 128" "n AND netmask p = n"
    "case z of None \<Rightarrow> True | Some t \<Rightarrow> t \<noteq> [] \<and> CHR ''%'' \<notin> set t \<and> CHR ''/'' \<notin> set t"
  shows "parse_net (show_net (Net6 n z p)) = Some (Net6 n z p)"
proof -
  have sp: "split_on CHR ''/'' (show_v6 n z @ ''/'' @ str_of_nat p) = [show_v6 n z, str_of_nat p]"
    using show_v6_no_slash [OF assms(3), of n] digits_no_slash [of p] by (simp add: split_on_append split_on_id)
  have "parse_net4 (show_net (Net6 n z p)) = None"
    unfolding show_net.simps parse_net4_def sp by (simp add: parse_v4_colon [OF show_v6_colon])
  moreover have "parse_net6 (show_net (Net6 n z p)) = Some (Net6 n z p)"
    unfolding show_net.simps parse_net6_def sp by (simp add: parse_show_v6 [OF assms(3)] parse_prefix_show assms mask_net6_def)
  ultimately show ?thesis by (simp add: parse_net_def)
qed

text \<open>So does the text of a network, in the canonical form the program stores.\<close>

lemma parse_show_net: "parse_net s = Some n \<Longrightarrow> parse_net (show_net n) = Some n"
proof (cases n)
  case (Net4 a p)
  assume "parse_net s = Some n"
  with Net4 show ?thesis using parse_net_kind4 [of s a p] parse_net_show4 [of p a] by simp
next
  case (Net6 a z p)
  assume "parse_net s = Some n"
  with Net6 have "parse_net6 s = Some (Net6 a z p)"
    by (auto simp: parse_net_def dest: parse_net4_normal split: option.splits)
  from parse_net6_normal [OF this] show ?thesis using Net6 parse_net_show6 [of p a z] by simp
qed

end
