(* ===== verification/IpamLaws.thy ===== *)
theory IpamLaws
  imports Ipam Ip6Laws
begin

text \<open>
  Laws of the address management: the invariant of its tables, what the queued writes keep, and what
  a scan leaves alone.
\<close>

section \<open>Tables\<close>

lemma dget_map: "dget (map (\<lambda>((s, a), r). ((s, a), f s a r)) xs) (i, x) = map_option (f i x) (dget xs (i, x))"
  by (induction xs) auto

lemma dget_filter_keep:
  "dget xs (i, x) = Some r \<Longrightarrow> P i x r \<Longrightarrow> dget (filter (\<lambda>((s, a), r). P s a r) xs) (i, x) = Some r"
  by (induction xs) (auto split: if_splits)

lemma keys_map: "map fst (map (\<lambda>((s, a), r). ((s, a), f s a r)) xs) = map fst xs"
  by (induction xs) auto

lemma keys_ddel: "k \<in> fst ` set (ddel k' xs) \<Longrightarrow> k \<noteq> k' \<and> k \<in> fst ` set xs"
  by (auto simp: ddel_mem)

section \<open>The invariant\<close>

definition member_of :: "string \<Rightarrow> string \<Rightarrow> bool" where
  "member_of a c \<longleftrightarrow> (case (parse_ip a, parse_net c) of (Some ip, Some n) \<Rightarrow> in_net ip n | _ \<Rightarrow> False)"

text \<open>Of the subnets the invariant reads the id and the CIDR, of the allocations the key.\<close>

definition cidrs :: "ipam \<Rightarrow> (int, string) dict" where
  "cidrs m = map (\<lambda>p. (fst p, sn_cidr (snd p))) (im_subnets m)"

definition row_ok :: "(int, string) dict \<Rightarrow> int \<times> string \<Rightarrow> bool" where
  "row_ok cs k \<longleftrightarrow> (\<exists>c. dget cs (fst k) = Some c \<and> member_of (snd k) c)"

fun write_ok :: "int \<Rightarrow> (int, string) dict \<Rightarrow> ipam_write \<Rightarrow> bool" where
  "write_ok next cs (WUpsert i ip name user t dev kind) \<longleftrightarrow> i < next \<and> (\<forall>c. dget cs i = Some c \<longrightarrow> member_of ip c)"
| "write_ok next cs (WFillSubnet i c) \<longleftrightarrow> i < next \<and> (\<forall>d. dget cs i = Some d \<longrightarrow> d = c)"
| "write_ok next cs _ \<longleftrightarrow> True"

definition subnets_ok :: "int \<Rightarrow> (int, string) dict \<Rightarrow> bool" where
  "subnets_ok next cs \<longleftrightarrow> distinct (map fst cs) \<and> distinct (map snd cs) \<and> (\<forall>p \<in> set cs. fst p < next)"

definition ipam_inv :: "ipam \<Rightarrow> bool" where
  "ipam_inv m \<longleftrightarrow> subnets_ok (im_next m) (cidrs m)
     \<and> (\<forall>k \<in> fst ` set (im_allocs m). row_ok (cidrs m) k)
     \<and> (\<forall>w \<in> set (im_queue m). write_ok (im_next m) (cidrs m) w)"

lemma cidrs_get: "dget (cidrs m) i = map_option sn_cidr (dget (im_subnets m) i)"
proof -
  have "dget (map (\<lambda>p. (fst p, sn_cidr (snd p))) xs) i = map_option sn_cidr (dget xs i)" for xs :: "(int, subnet) dict"
    by (induction xs) auto
  then show ?thesis by (simp add: cidrs_def)
qed

section \<open>Steps that keep the subnets\<close>

lemma cidrs_allocs [simp]: "cidrs (m\<lparr> im_allocs := x \<rparr>) = cidrs m" "cidrs (m\<lparr> im_queue := q \<rparr>) = cidrs m"
  "cidrs (m\<lparr> im_dns := d \<rparr>) = cidrs m" "cidrs (m\<lparr> im_scans := c \<rparr>) = cidrs m" "cidrs (m\<lparr> im_next := n \<rparr>) = cidrs m"
  by (simp_all add: cidrs_def)

lemma cidrs_dput: "dget xs i = Some s \<Longrightarrow> sn_cidr s' = sn_cidr s \<Longrightarrow>
  map (\<lambda>p. (fst p, sn_cidr (snd p))) (dput i s' xs) = map (\<lambda>p. (fst p, sn_cidr (snd p))) xs"
  by (induction xs) (auto split: if_splits)

lemma cidrs_on_subnet: "(\<And>s. sn_cidr (f s) = sn_cidr s) \<Longrightarrow> cidrs (on_subnet i f m) = cidrs m"
  by (auto simp: on_subnet_def cidrs_def cidrs_dput split: option.splits)

lemma on_subnet_rest [simp]: "im_next (on_subnet i f m) = im_next m" "im_allocs (on_subnet i f m) = im_allocs m"
  "im_queue (on_subnet i f m) = im_queue m"
  by (auto simp: on_subnet_def split: option.splits)

lemma set_field_cidr: "sn_cidr (set_field k v s) = sn_cidr s"
  by (auto simp: set_field_def Let_def split: option.splits)

lemma set_fields_cidr: "sn_cidr (foldl (\<lambda>s (k, v). set_field k v s) s xs) = sn_cidr s"
  by (induction xs arbitrary: s) (auto simp: set_field_cidr)

text \<open>An operation that keeps subnets and adds no row or write that is not right keeps the invariant.\<close>

lemma inv_same:
  assumes "ipam_inv m" "im_next m' = im_next m" "cidrs m' = cidrs m"
    and "\<And>k. k \<in> fst ` set (im_allocs m') \<Longrightarrow> k \<in> fst ` set (im_allocs m) \<or> row_ok (cidrs m) k"
    and "\<And>w. w \<in> set (im_queue m') \<Longrightarrow> w \<in> set (im_queue m) \<or> write_ok (im_next m) (cidrs m) w"
  shows "ipam_inv m'"
  using assms unfolding ipam_inv_def by (metis (no_types, lifting))

lemma inv_enq: "ipam_inv m \<Longrightarrow> write_ok (im_next m) (cidrs m) w \<Longrightarrow> ipam_inv (enq w m)"
  by (rule inv_same) (auto simp: enq_def)

lemma inv_on_subnet: "ipam_inv m \<Longrightarrow> (\<And>s. sn_cidr (f s) = sn_cidr s) \<Longrightarrow> ipam_inv (on_subnet i f m)"
  by (rule inv_same) (auto simp: cidrs_on_subnet)

lemma inv_on_allocs: "ipam_inv m \<Longrightarrow> ipam_inv (on_allocs f m)"
proof (rule inv_same)
  have "map fst (im_allocs (on_allocs f m)) = map fst (im_allocs m)"
    by (simp add: on_allocs_def keys_map del: map_map)
  then have "fst ` set (im_allocs (on_allocs f m)) = fst ` set (im_allocs m)" by (metis list.set_map)
  then show "k \<in> fst ` set (im_allocs (on_allocs f m)) \<Longrightarrow> k \<in> fst ` set (im_allocs m) \<or> row_ok (cidrs m) k" for k
    by simp
qed (auto simp: on_allocs_def)

lemma inv_drop_allocs: "ipam_inv m \<Longrightarrow> ipam_inv (drop_allocs P m)"
  by (rule inv_same) (auto simp: drop_allocs_def)

lemma inv_put_alloc: "ipam_inv m \<Longrightarrow> row_ok (cidrs m) k \<Longrightarrow> ipam_inv (put_alloc k ok f new m)"
proof (rule inv_same)
  assume k: "row_ok (cidrs m) k"
  show "j \<in> fst ` set (im_allocs (put_alloc k ok f new m)) \<Longrightarrow> j \<in> fst ` set (im_allocs m) \<or> row_ok (cidrs m) j" for j
    using k by (auto simp: put_alloc_def split: option.splits if_splits dest!: dput_mem)
qed (auto simp: put_alloc_def split: option.splits if_splits)

lemma inv_clear: "ipam_inv m \<Longrightarrow> ipam_inv (m\<lparr> im_allocs := ddel k (im_allocs m) \<rparr>)"
proof (rule inv_same)
  show "j \<in> fst ` set (im_allocs (m\<lparr> im_allocs := ddel k (im_allocs m) \<rparr>)) \<Longrightarrow> j \<in> fst ` set (im_allocs m) \<or> row_ok (cidrs m) j" for j
    using keys_ddel [of j k "im_allocs m"] by simp
qed auto

lemma put_alloc_cidrs [simp]: "cidrs (put_alloc k ok f new m) = cidrs m"
  by (simp add: put_alloc_def split: option.splits)

lemma put_alloc_rest [simp]: "im_next (put_alloc k ok f new m) = im_next m" "im_subnets (put_alloc k ok f new m) = im_subnets m"
  "im_queue (put_alloc k ok f new m) = im_queue m"
  by (simp_all add: put_alloc_def split: option.splits)

section \<open>Device writes\<close>

lemma member_show: "parse_ip h = Some a \<Longrightarrow> parse_net c = Some n \<Longrightarrow> in_net a n \<Longrightarrow> member_of (show_ip a) c"
  by (simp add: member_of_def parse_show_ip)

lemma upsert_direct_cidrs [simp]: "cidrs (ipam_upsert_direct now i ip name did m) = cidrs m"
  by (simp add: ipam_upsert_direct_def)

lemma inv_upsert_direct: "ipam_inv m \<Longrightarrow> row_ok (cidrs m) (i, ip) \<Longrightarrow> ipam_inv (ipam_upsert_direct now i ip name did m)"
  by (simp add: ipam_upsert_direct_def inv_put_alloc)

lemma inv_fold:
  assumes "ipam_inv m" "\<And>x m'. x \<in> set xs \<Longrightarrow> ipam_inv m' \<Longrightarrow> cidrs m' = cidrs m \<Longrightarrow> ipam_inv (f x m') \<and> cidrs (f x m') = cidrs m"
  shows "ipam_inv (fold f xs m) \<and> cidrs (fold f xs m) = cidrs m"
proof -
  have "ipam_inv m' \<Longrightarrow> cidrs m' = cidrs m \<Longrightarrow> ipam_inv (fold f xs m') \<and> cidrs (fold f xs m') = cidrs m" for m'
    using assms(2) by (induction xs arbitrary: m') auto
  with assms(1) show ?thesis by blast
qed

lemma subnets_for_ip: "ipam_inv m \<Longrightarrow> i \<in> set (ipam_subnets_for_ip a m) \<Longrightarrow>
  \<exists>c n. dget (cidrs m) i = Some c \<and> parse_net c = Some n \<and> in_net a n"
  by (auto simp: ipam_subnets_for_ip_def ipam_inv_def subnets_ok_def cidrs_def intro!: map_of_is_SomeI split: option.splits)

lemma inv_claim_ip:
  assumes "ipam_inv m" "parse_ip h = Some a"
  shows "ipam_inv (claim_ip now did name a m)"
  unfolding claim_ip_def
proof (rule conjunct1 [OF inv_fold [OF assms(1)]])
  fix i m' assume i: "i \<in> set (ipam_subnets_for_ip a m)" and m': "ipam_inv m'" "cidrs m' = cidrs m"
  from subnets_for_ip [OF assms(1) i] have "row_ok (cidrs m) (i, show_ip a)"
    using member_show [OF assms(2)] by (auto simp: row_ok_def)
  with m' show "ipam_inv (ipam_upsert_direct now i (show_ip a) name did m')
      \<and> cidrs (ipam_upsert_direct now i (show_ip a) name did m') = cidrs m"
    by (simp add: inv_upsert_direct)
qed

lemma inv_device_add: "ipam_inv m \<Longrightarrow> ipam_inv (ipam_sync_device_add now did name host m)"
  by (simp add: ipam_sync_device_add_def inv_claim_ip split: option.splits)

lemma inv_device_update: "ipam_inv m \<Longrightarrow> ipam_inv (ipam_sync_device_update now did old new name m)"
  by (simp add: ipam_sync_device_update_def Let_def inv_claim_ip inv_drop_allocs inv_on_allocs split: option.splits)

lemma inv_device_delete: "ipam_inv m \<Longrightarrow> ipam_inv (ipam_sync_device_delete did m)"
  by (simp add: ipam_sync_device_delete_def inv_drop_allocs)

lemma inv_fill_row:
  assumes "ipam_inv m" "dget (cidrs m) i = Some c" "parse_net c = Some n"
  shows "ipam_inv (fill_row now i n d m) \<and> cidrs (fill_row now i n d m) = cidrs m"
proof -
  obtain did name host where d: "d = (did, name, host)" by (rule prod_cases3)
  have "parse_ip host = Some a \<Longrightarrow> in_net a n \<Longrightarrow> row_ok (cidrs m) (i, show_ip a)" for a
    using assms(2,3) member_show [of host a c n] by (simp add: row_ok_def)
  with assms(1) d show ?thesis by (simp add: fill_row_def inv_upsert_direct split: option.splits)
qed

lemma inv_subnet_add:
  assumes "ipam_inv m" "\<forall>d. dget (cidrs m) i = Some d \<longrightarrow> d = c" "pg \<or> dget (cidrs m) i = Some c"
  shows "ipam_inv (ipam_sync_subnet_add pg now devs i c m)"
proof (cases "parse_net c = None \<or> dget (im_subnets m) i = None")
  case True
  with assms show ?thesis by (auto simp: ipam_sync_subnet_add_def cidrs_get split: option.splits)
next
  case False
  then obtain n where n: "parse_net c = Some n" by auto
  have c: "dget (cidrs m) i = Some c" using assms(2) False by (auto simp: cidrs_get)
  have "ipam_inv (fold (fill_row now i n) devs m)"
    by (rule conjunct1 [OF inv_fold [OF assms(1)]]) (use inv_fill_row c n in metis)
  with False n show ?thesis by (auto simp: ipam_sync_subnet_add_def)
qed

section \<open>Every operation\<close>

lemma dput_new_row: "k \<notin> fst ` set xs \<Longrightarrow> dput k v xs = xs @ [(k, v)]"
  by (induction xs) auto

lemma cidrs_ddel: "cidrs (m\<lparr> im_subnets := ddel i (im_subnets m) \<rparr>) = ddel i (cidrs m)"
proof -
  have "map (\<lambda>p. (fst p, sn_cidr (snd p))) (ddel i xs) = ddel i (map (\<lambda>p. (fst p, sn_cidr (snd p))) xs)" for xs :: "(int, subnet) dict"
    by (induction xs) auto
  then show ?thesis by (simp add: cidrs_def)
qed

lemma inv_drop_subnet:
  assumes "ipam_inv m" "\<forall>k \<in> fst ` set (im_allocs m). fst k \<noteq> i"
  shows "ipam_inv (m\<lparr> im_subnets := ddel i (im_subnets m) \<rparr>)"
proof -
  let ?m = "m\<lparr> im_subnets := ddel i (im_subnets m) \<rparr>"
  have d: "dget (ddel i (cidrs m)) j = (if j = i then None else dget (cidrs m) j)" for j by (simp add: delete_conv)
  have "subnets_ok (im_next m) (ddel i (cidrs m))"
    using assms(1) by (auto simp: ipam_inv_def subnets_ok_def ddel_mem distinct_ddel AList.delete_eq intro!: distinct_map_filter)
  moreover have "write_ok (im_next m) (cidrs m) w \<Longrightarrow> write_ok (im_next m) (ddel i (cidrs m)) w" for w
    by (cases w) (auto simp: d)
  moreover have "row_ok (cidrs m) k \<Longrightarrow> fst k \<noteq> i \<Longrightarrow> row_ok (ddel i (cidrs m)) k" for k by (auto simp: row_ok_def d)
  ultimately show ?thesis using assms by (auto simp: ipam_inv_def cidrs_ddel)
qed

lemma inv_add_row:
  assumes "ipam_inv m" "db_add_subnet now c name user site vlan m = (m1, r)"
  shows "ipam_inv m1 \<and> (case r of Some i \<Rightarrow> i < im_next m1 \<and> dget (cidrs m1) i = Some c | None \<Rightarrow> m1 = m)"
proof (cases "list_ex (\<lambda>(i, s). sn_cidr s = c) (im_subnets m)")
  case False
  let ?i = "im_next m"
  have fresh: "?i \<notin> fst ` set (im_subnets m)" using assms(1) by (auto simp: ipam_inv_def subnets_ok_def cidrs_def)
  obtain s where s: "m1 = m\<lparr> im_subnets := dput ?i s (im_subnets m), im_next := ?i + 1 \<rparr>" "sn_cidr s = c" "r = Some ?i"
    using assms(2) False by (auto simp: db_add_subnet_def Let_def)
  have new: "dput ?i s (im_subnets m) = im_subnets m @ [(?i, s)]" using fresh by (rule dput_new_row)
  have cs: "cidrs m1 = cidrs m @ [(?i, c)]" using s by (simp add: cidrs_def new)
  have "c \<notin> snd ` set (cidrs m)" using False by (auto simp: cidrs_def list_ex_iff)
  moreover have "?i \<notin> fst ` set (cidrs m)" using fresh by (simp add: cidrs_def image_image)
  moreover have "row_ok (cidrs m) k \<Longrightarrow> row_ok (cidrs m1) k" for k by (auto simp: row_ok_def cs)
  moreover have "write_ok ?i (cidrs m) w \<Longrightarrow> write_ok (?i + 1) (cidrs m1) w" for w
    by (cases w) (auto simp: cs map_add_def split: option.splits)
  ultimately show ?thesis using assms(1) s cs
    by (auto simp: ipam_inv_def subnets_ok_def map_add_def split: option.splits)
qed (use assms in \<open>auto simp: db_add_subnet_def\<close>)

lemma inv_write:
  assumes "ipam_inv m" "write_ok (im_next m) (cidrs m) w"
  shows "ipam_inv (exec_write True now devs w m)"
proof (cases w)
  case (WUpsert i ip name user t dev kind)
  show ?thesis
  proof (cases "dget (im_subnets m) i")
    case (Some s)
    then have "row_ok (cidrs m) (i, ip)" using assms(2) WUpsert by (auto simp: row_ok_def cidrs_get)
    then show ?thesis using WUpsert assms(1) Some by (simp add: inv_put_alloc)
  qed (simp add: WUpsert assms(1))
next
  case (WDropSubnet i)
  have "ipam_inv (drop_allocs (\<lambda>s a r. s = i) m)" by (rule inv_drop_allocs [OF assms(1)])
  moreover have "\<forall>k \<in> fst ` set (im_allocs (drop_allocs (\<lambda>s a r. s = i) m)). fst k \<noteq> i" by (auto simp: drop_allocs_def)
  ultimately show ?thesis using WDropSubnet inv_drop_subnet by (simp add: Let_def)
next
  case (WDiscover c user)
  obtain m1 r where a: "db_add_subnet now c ''Discovered'' user [] (PInt 0) m = (m1, r)"
    by (cases "db_add_subnet now c ''Discovered'' user [] (PInt 0) m")
  from inv_add_row [OF assms(1) a] show ?thesis using a WDiscover by (auto intro!: inv_subnet_add split: option.splits)
qed (use assms in \<open>auto simp: inv_on_allocs inv_on_subnet inv_device_add inv_device_update inv_device_delete inv_subnet_add
   inv_clear intro!: inv_subnet_add\<close>)

lemma inv_turn:
  assumes "ipam_inv m"
  shows "ipam_inv (writer_turn True now devs m)"
proof (cases "im_queue m")
  case (Cons w ws)
  have "ipam_inv (m\<lparr> im_queue := ws \<rparr>)" by (rule inv_same [OF assms]) (simp_all add: Cons)
  moreover have "write_ok (im_next m) (cidrs m) w" using assms Cons by (simp add: ipam_inv_def)
  ultimately show ?thesis using Cons by (simp add: writer_turn_def inv_write)
qed (simp add: writer_turn_def assms)

lemma enq_proj [simp]: "cidrs (enq w m) = cidrs m" "im_next (enq w m) = im_next m" "im_allocs (enq w m) = im_allocs m"
  "im_subnets (enq w m) = im_subnets m" "im_queue (enq w m) = im_queue m @ [w]"
  by (simp_all add: enq_def cidrs_def)

text \<open>A scan keeps the invariant when the addresses it reports lie in the subnet.\<close>

definition scan_inside :: "ipam \<Rightarrow> int \<Rightarrow> (string \<times> string) list \<Rightarrow> bool" where
  "scan_inside m i rs \<longleftrightarrow> (case dget (cidrs m) i of
     Some c \<Rightarrow> list_all (\<lambda>r. member_of (strip (fst r)) c) rs | None \<Rightarrow> False)"

lemma inv_scan_row:
  assumes "ipam_inv m" "i < im_next m" "dget (cidrs m) i = Some c" "member_of (strip (fst row)) c"
  shows "ipam_inv (fst (scan_row now i ex row (m, u, k))) \<and> im_next (fst (scan_row now i ex row (m, u, k))) = im_next m
    \<and> cidrs (fst (scan_row now i ex row (m, u, k))) = cidrs m"
  using assms by (simp add: scan_row_def Let_def db_upsert_allocation_def inv_enq)

lemma inv_scan_rows:
  assumes "ipam_inv (fst acc)" "i < im_next (fst acc)" "dget (cidrs (fst acc)) i = Some c" "list_all (\<lambda>r. member_of (strip (fst r)) c) rs"
  shows "ipam_inv (fst (fold (scan_row now i ex) rs acc)) \<and> im_next (fst (fold (scan_row now i ex) rs acc)) = im_next (fst acc)
    \<and> cidrs (fst (fold (scan_row now i ex) rs acc)) = cidrs (fst acc)"
  using assms
proof (induction rs arbitrary: acc)
  case (Cons r rs)
  obtain m u k where acc: "acc = (m, u, k)" by (rule prod_cases3)
  have "ipam_inv (fst (scan_row now i ex r acc)) \<and> im_next (fst (scan_row now i ex r acc)) = im_next m
    \<and> cidrs (fst (scan_row now i ex r acc)) = cidrs m"
    using inv_scan_row [of m i c r now ex u k] Cons.prems acc by simp
  with Cons show ?case by (simp add: acc)
qed simp

lemma inv_stale: "ipam_inv m \<Longrightarrow> ipam_inv (db_mark_allocations_stale i ips m)"
  by (simp add: db_mark_allocations_stale_def inv_enq)

lemma inv_scan:
  assumes "ipam_inv m" "scan_inside m i rs"
  shows "ipam_inv (fst (apply_subnet_scan_results now stamp i rs m))"
proof -
  obtain c where c: "dget (cidrs m) i = Some c" "list_all (\<lambda>r. member_of (strip (fst r)) c) rs"
    using assms(2) by (auto simp: scan_inside_def split: option.splits)
  have i: "i < im_next m" using assms(1) map_of_SomeD [OF c(1)] by (auto simp: ipam_inv_def subnets_ok_def)
  obtain m1 u k where f: "fold (scan_row now i (db_get_allocations i m)) rs (m, 0, 0) = (m1, u, k)" by (rule prod_cases3)
  have "ipam_inv m1" using inv_scan_rows [of "(m, 0, 0)" i c rs now "db_get_allocations i m"] assms(1) c i f by simp
  then show ?thesis using f by (simp add: apply_subnet_scan_results_def Let_def db_set_subnet_last_scan_def inv_on_subnet inv_stale)
qed

lemma inv_subnets_id: "ipam_inv m \<Longrightarrow> dget (im_subnets m) i = Some s \<Longrightarrow> i < im_next m \<and> dget (cidrs m) i = Some (sn_cidr s)"
  by (auto simp: ipam_inv_def subnets_ok_def cidrs_get dest!: map_of_SomeD) (auto simp: cidrs_def)

lemma inv_assign:
  assumes "ipam_inv m"
  shows "ipam_inv (fst (assign_ip now user i ip nm k m))"
proof -
  have "dget (im_subnets m) i = Some s \<Longrightarrow> parse_ip ip = Some a \<Longrightarrow> parse_net (sn_cidr s) = Some n \<Longrightarrow> in_net a n \<Longrightarrow>
      write_ok (im_next m) (cidrs m) (WUpsert i ip x user now [] y)" for s a n x y
    using inv_subnets_id [OF assms] by (simp add: member_of_def)
  then show ?thesis
    using assms by (auto simp: assign_ip_def Let_def db_get_subnet_def db_upsert_allocation_def db_clear_allocation_def
      split: option.splits intro!: inv_enq)
qed

lemma inv_add_subnet:
  assumes "ipam_inv m"
  shows "ipam_inv (fst (add_subnet now user c nm site v m))"
proof (cases "parse_net (strip c)")
  case (Some n)
  let ?a = "db_add_subnet now (show_net n) (take 80 (strip nm)) user (take 40 (strip site)) (PInt (vlan_of v)) m"
  obtain m1 r where a: "?a = (m1, r)" by (cases ?a)
  from inv_add_row [OF assms a] have "ipam_inv m1" "r = Some i \<Longrightarrow> ipam_inv (enq (WFillSubnet i (show_net n)) m1)" for i
    by (auto intro!: inv_enq)
  with assms a Some show ?thesis by (simp add: add_subnet_def Let_def split: option.splits)
qed (simp add: add_subnet_def Let_def assms)

lemma inv_patch: "ipam_inv m \<Longrightarrow> ipam_inv (fst (patch_subnet i p m))"
  by (simp add: patch_subnet_def Let_def db_update_subnet_def db_approve_first_scan_def inv_on_subnet set_fields_cidr
    split: option.splits)

lemma inv_same_tables:
  "ipam_inv m \<Longrightarrow> im_next m' = im_next m \<Longrightarrow> im_subnets m' = im_subnets m \<Longrightarrow> im_allocs m' = im_allocs m \<Longrightarrow>
    im_queue m' = im_queue m \<Longrightarrow> ipam_inv m'"
  by (rule inv_same [of m]) (auto simp: cidrs_def)

lemma inv_role: "ipam_inv m \<Longrightarrow> ipam_inv (fst (db_set_device_role now did host role m))"
  by (simp add: db_set_device_role_def Let_def inv_on_allocs split: option.splits)

lemma inv_dns: "ipam_inv m \<Longrightarrow> ipam_inv (fst (dns_refresh i m))"
  by (auto simp: dns_refresh_def split: option.splits net.splits intro: inv_same_tables)

lemma inv_discovery: "ipam_inv m \<Longrightarrow> ipam_inv (discovery_add c user created m)"
  by (simp add: discovery_add_def Let_def inv_enq)

lemma inv_scan_apply:
  assumes "ipam_inv m" "\<And>rs. results = Some rs \<Longrightarrow> scan_inside m i rs"
  shows "ipam_inv (scan_apply now stamp i scan results m)"
proof -
  have "ipam_inv (case results of Some rs \<Rightarrow> fst (apply_subnet_scan_results now stamp i rs m) | None \<Rightarrow> m)"
    using assms by (cases results) (simp_all add: inv_scan)
  then show ?thesis by (auto simp: scan_apply_def Let_def intro: inv_same_tables)
qed

text \<open>The scanner reports addresses of the range it was asked to scan.\<close>

fun op_ok :: "ipam_op \<Rightarrow> ipam \<Rightarrow> bool" where
  "op_ok (OScanDone stamp i scan (Some rs)) m \<longleftrightarrow> scan_inside m i rs"
| "op_ok _ m \<longleftrightarrow> True"

lemma inv_device_write: "ipam_inv m \<Longrightarrow> is_device_write w \<Longrightarrow> ipam_inv (enq w m)"
  by (cases w) (simp_all add: inv_enq)

lemma inv_exec: "ipam_inv m \<Longrightarrow> op_ok op m \<Longrightarrow> ipam_inv (ipam_exec True now op m)"
proof (cases op)
  case (OScanDone stamp i scan results)
  assume "ipam_inv m" "op_ok op m"
  with OScanDone show ?thesis by (cases results) (auto intro: inv_scan_apply)
qed (auto simp: inv_add_subnet toggle_auto_discover_def db_set_auto_discover_def inv_on_subnet inv_patch delete_subnet_def
  db_delete_subnet_def inv_enq inv_assign inv_dns dns_answer_def db_update_dns_def inv_on_allocs dns_finished_def
  scan_register_def inv_discovery inv_role inv_device_write inv_turn split: option.splits intro: inv_same_tables)

definition empty_ipam :: ipam where
  "empty_ipam = \<lparr> im_subnets = [], im_next = 1, im_allocs = [], im_queue = [], im_dns = [], im_scans = [] \<rparr>"

inductive ipam_run :: "bool \<Rightarrow> ipam \<Rightarrow> bool" for pg where
  start: "ipam_run pg empty_ipam"
| step: "ipam_run pg m \<Longrightarrow> op_ok op m \<Longrightarrow> ipam_run pg (ipam_exec pg now op m)"

lemma run_inv: "ipam_run True m \<Longrightarrow> ipam_inv m"
  by (induction rule: ipam_run.induct) (simp_all add: inv_exec, simp add: ipam_inv_def subnets_ok_def cidrs_def empty_ipam_def)

section \<open>Keys of the rows\<close>

definition keys_ok :: "ipam \<Rightarrow> bool" where
  "keys_ok m \<longleftrightarrow> distinct (map fst (im_allocs m))"

lemma keys_same: "keys_ok m \<Longrightarrow> im_allocs m' = im_allocs m \<Longrightarrow> keys_ok m'"
  by (simp add: keys_ok_def)

lemma keys_on_allocs: "keys_ok m \<Longrightarrow> keys_ok (on_allocs f m)"
  by (simp add: keys_ok_def on_allocs_def keys_map del: map_map)

lemma keys_drop: "keys_ok m \<Longrightarrow> keys_ok (drop_allocs P m)"
  by (simp add: keys_ok_def drop_allocs_def distinct_map_filter)

lemma keys_put: "keys_ok m \<Longrightarrow> keys_ok (put_alloc k ok f new m)"
  by (auto simp: keys_ok_def put_alloc_def distinct_dput split: option.splits)

lemma keys_clear: "keys_ok m \<Longrightarrow> keys_ok (m\<lparr> im_allocs := ddel k (im_allocs m) \<rparr>)"
  by (simp add: keys_ok_def distinct_ddel)

lemma keys_fold: "keys_ok m \<Longrightarrow> (\<And>x m. keys_ok m \<Longrightarrow> keys_ok (f x m)) \<Longrightarrow> keys_ok (fold f xs m)"
  by (induction xs arbitrary: m) auto

lemma keys_claim: "keys_ok m \<Longrightarrow> keys_ok (claim_ip now did name a m)"
  by (simp add: claim_ip_def ipam_upsert_direct_def keys_fold keys_put)

lemma keys_subnet_add: "keys_ok m \<Longrightarrow> keys_ok (ipam_sync_subnet_add pg now devs i c m)"
  by (auto simp: ipam_sync_subnet_add_def fill_row_def ipam_upsert_direct_def split: option.splits prod.splits intro!: keys_fold keys_put)

lemma allocs_add_row: "db_add_subnet now c name user site vlan m = (m1, r) \<Longrightarrow> im_allocs m1 = im_allocs m"
  by (auto simp: db_add_subnet_def Let_def split: if_splits)

lemma keys_device_add: "keys_ok m \<Longrightarrow> keys_ok (ipam_sync_device_add now did name host m)"
  by (simp add: ipam_sync_device_add_def keys_claim split: option.splits)

lemma keys_device_update: "keys_ok m \<Longrightarrow> keys_ok (ipam_sync_device_update now did old new name m)"
  by (simp add: ipam_sync_device_update_def Let_def keys_claim keys_drop keys_on_allocs split: option.splits)

lemma keys_on_subnet: "keys_ok m \<Longrightarrow> keys_ok (on_subnet i f m)"
  by (simp add: keys_ok_def)

lemma keys_subnets: "keys_ok (m\<lparr> im_subnets := x \<rparr>) = keys_ok m"
  by (simp add: keys_ok_def)

lemma keys_discover: "keys_ok m \<Longrightarrow> keys_ok (exec_write pg now devs (WDiscover c user) m)"
  using allocs_add_row [of now c "''Discovered''" user "[]" "PInt 0" m]
  by (auto split: prod.splits option.splits intro!: keys_subnet_add intro: keys_same)

lemma keys_write: "keys_ok m \<Longrightarrow> keys_ok (exec_write pg now devs w m)"
  by (cases w) (simp_all add: keys_put keys_on_allocs keys_clear keys_drop keys_subnet_add keys_device_add keys_device_update
    keys_on_subnet keys_subnets ipam_sync_device_delete_def Let_def keys_discover [simplified])

lemma keys_turn: "keys_ok m \<Longrightarrow> keys_ok (writer_turn pg now devs m)"
  by (auto simp: writer_turn_def split: list.splits intro!: keys_write intro: keys_same)

lemma allocs_scan_rows: "im_allocs (fst (fold (scan_row now i ex) rs acc)) = im_allocs (fst acc)"
proof (induction rs arbitrary: acc)
  case (Cons r rs)
  obtain m u k where "acc = (m, u, k)" by (rule prod_cases3)
  then have "im_allocs (fst (scan_row now i ex r acc)) = im_allocs (fst acc)"
    by (simp add: scan_row_def Let_def db_upsert_allocation_def)
  with Cons show ?case by simp
qed simp

lemma allocs_scan: "im_allocs (fst (apply_subnet_scan_results now stamp i rs m)) = im_allocs m"
proof -
  obtain m1 u k where f: "fold (scan_row now i (db_get_allocations i m)) rs (m, 0, 0) = (m1, u, k)" by (rule prod_cases3)
  then have "im_allocs m1 = im_allocs m" using allocs_scan_rows [of now i "db_get_allocations i m" rs "(m, 0, 0)"] by simp
  with f show ?thesis
    by (simp add: apply_subnet_scan_results_def Let_def db_set_subnet_last_scan_def db_mark_allocations_stale_def)
qed

lemma keys_exec: "keys_ok m \<Longrightarrow> keys_ok (ipam_exec pg now op m)"
proof (cases op)
  case (OAdd user c nm site v)
  have "im_allocs (fst (add_subnet now user c nm site v m)) = im_allocs m"
    by (auto simp: add_subnet_def Let_def allocs_add_row split: option.splits prod.splits)
  with OAdd show "keys_ok m \<Longrightarrow> ?thesis" by (auto intro: keys_same)
next
  case (OScanDone stamp i scan rs)
  assume "keys_ok m"
  with OScanDone show ?thesis by (auto simp: scan_apply_def Let_def allocs_scan split: option.splits intro: keys_same)
qed (auto simp: toggle_auto_discover_def db_set_auto_discover_def patch_subnet_def db_update_subnet_def db_approve_first_scan_def
  delete_subnet_def db_delete_subnet_def assign_ip_def Let_def db_upsert_allocation_def db_clear_allocation_def dns_refresh_def
  dns_answer_def db_update_dns_def keys_on_allocs dns_finished_def scan_register_def discovery_add_def db_set_device_role_def
  keys_turn split: option.splits net.splits intro: keys_same)

lemma run_keys: "ipam_run pg m \<Longrightarrow> keys_ok m"
  by (induction rule: ipam_run.induct) (simp_all add: keys_exec, simp add: keys_ok_def empty_ipam_def)

end
