(* ===== verification/IpamScan.thy ===== *)
theory IpamScan
  imports IpamLaws
begin

text \<open>
  What the writes of devices and scans leave alone, and what a write that was queued earlier loses.
\<close>

section \<open>Rows of others\<close>

text \<open>\<open>keeps P f\<close>: the operation \<open>f\<close> leaves every row that satisfies \<open>P\<close> as it is.\<close>

definition keeps :: "(int \<Rightarrow> string \<Rightarrow> alloc \<Rightarrow> bool) \<Rightarrow> (ipam \<Rightarrow> ipam) \<Rightarrow> bool" where
  "keeps P f \<longleftrightarrow> (\<forall>m i a r. dget (im_allocs m) (i, a) = Some r \<longrightarrow> P i a r \<longrightarrow> dget (im_allocs (f m)) (i, a) = Some r)"

lemma keepsD: "keeps P f \<Longrightarrow> dget (im_allocs m) (i, a) = Some r \<Longrightarrow> P i a r \<Longrightarrow> dget (im_allocs (f m)) (i, a) = Some r"
  by (simp add: keeps_def)

lemma keeps_id: "keeps P (\<lambda>m. m)"
  by (simp add: keeps_def)

lemma keeps_fold: "(\<And>x. x \<in> set xs \<Longrightarrow> keeps P (f x)) \<Longrightarrow> keeps P (fold f xs)"
  by (induction xs) (auto simp: keeps_def)

lemma keeps_on_allocs: "(\<And>i a r. P i a r \<Longrightarrow> f i a r = r) \<Longrightarrow> keeps P (on_allocs f)"
  by (simp add: keeps_def on_allocs_def dget_map)

lemma keeps_drop: "(\<And>i a r. P i a r \<Longrightarrow> \<not> Q i a r) \<Longrightarrow> keeps P (drop_allocs Q)"
  by (auto simp: keeps_def drop_allocs_def intro!: dget_filter_keep)

lemma keeps_put: "(\<And>r. P (fst k) (snd k) r \<Longrightarrow> \<not> ok r) \<Longrightarrow> keeps P (put_alloc k ok f new)"
  by (auto simp: keeps_def put_alloc_def update_conv split: option.splits)

definition others :: "string \<Rightarrow> int \<Rightarrow> string \<Rightarrow> alloc \<Rightarrow> bool" where
  "others did i a r \<longleftrightarrow> al_dev r \<noteq> [] \<and> al_dev r \<noteq> did"

lemma others_upsert: "keeps (others did) (ipam_upsert_direct now i ip name did)"
  unfolding ipam_upsert_direct_def by (rule keeps_put) (simp add: others_def)

lemma others_claim: "keeps (others did) (claim_ip now did name a)"
proof -
  have "keeps (others did) (fold (\<lambda>i. ipam_upsert_direct now i (show_ip a) name did) js)" for js :: "int list"
    by (rule keeps_fold) (rule others_upsert)
  then show ?thesis by (simp add: keeps_def claim_ip_def)
qed

lemma others_add: "keeps (others did) (ipam_sync_device_add now did name host)"
  unfolding ipam_sync_device_add_def by (cases "parse_ip host") (simp_all add: keeps_id others_claim)

lemma others_delete: "keeps (others did) (ipam_sync_device_delete did)"
  unfolding ipam_sync_device_delete_def by (rule keeps_drop) (simp add: others_def)

lemma others_update: "keeps (others did) (ipam_sync_device_update now did old new name)"
proof -
  have d: "keeps (others did) (drop_allocs (\<lambda>s a r. a = t \<and> al_dev r = did))" for t
    by (rule keeps_drop) (simp add: others_def)
  have u: "keeps (others did) (on_allocs (\<lambda>s x r. if al_dev r = did \<and> x = t then r\<lparr> al_name := name, al_at := now \<rparr> else r))" for t
    by (rule keeps_on_allocs) (simp add: others_def)
  show ?thesis
    using d u others_claim [of did now name]
    by (auto simp: keeps_def ipam_sync_device_update_def Let_def split: option.splits)
qed

section \<open>The queue\<close>

lemma queue_fold: "(\<And>x m. im_queue (f x m) = im_queue m) \<Longrightarrow> im_queue (fold f xs m) = im_queue m"
  by (induction xs arbitrary: m) auto

lemma queue_claim [simp]: "im_queue (claim_ip now did name a m) = im_queue m"
  by (simp add: claim_ip_def queue_fold ipam_upsert_direct_def)

lemma queue_subnet_add [simp]: "im_queue (ipam_sync_subnet_add pg now devs i c m) = im_queue m"
  by (auto simp: ipam_sync_subnet_add_def fill_row_def ipam_upsert_direct_def split: option.splits prod.splits intro!: queue_fold)

lemma queue_drop [simp]: "im_queue (drop_allocs P m) = im_queue m" "im_queue (on_allocs f m) = im_queue m"
  by (simp_all add: drop_allocs_def on_allocs_def)

lemma queue_add_row: "db_add_subnet now c name user site vlan m = (m1, r) \<Longrightarrow> im_queue m1 = im_queue m"
  by (auto simp: db_add_subnet_def Let_def split: if_splits)

lemma queue_write: "im_queue (exec_write pg now devs w m) = im_queue m"
proof (cases w)
  case (WDiscover c user)
  then show ?thesis by (auto dest: queue_add_row split: prod.splits option.splits)
qed (simp_all add: ipam_sync_device_add_def ipam_sync_device_update_def ipam_sync_device_delete_def Let_def split: option.splits)

text \<open>The writer works the queue off in the order of the writes.\<close>

definition drained :: "bool \<Rightarrow> ts \<Rightarrow> (string \<times> string \<times> string) list \<Rightarrow> ipam \<Rightarrow> ipam" where
  "drained pg now devs m = (writer_turn pg now devs ^^ length (im_queue m)) m"

lemma turn_cons: "im_queue m = w # ws \<Longrightarrow> writer_turn pg now devs m = exec_write pg now devs w (m\<lparr> im_queue := ws \<rparr>)"
  by (simp add: writer_turn_def)

lemma turns_queue: "im_queue m = us @ vs \<Longrightarrow> im_queue ((writer_turn pg now devs ^^ length us) m) = vs"
proof (induction us arbitrary: m)
  case (Cons w us)
  then have "im_queue (writer_turn pg now devs m) = us @ vs" by (simp add: writer_turn_def queue_write)
  from Cons.IH [OF this] show ?case by (simp add: funpow_swap1)
qed simp

lemma turns_keep:
  assumes "im_queue m = ws @ vs" "P m" "\<And>m q. P m \<Longrightarrow> P (m\<lparr> im_queue := q \<rparr>)"
    and "\<And>w m. w \<in> set ws \<Longrightarrow> P m \<Longrightarrow> P (exec_write pg now devs w m)"
  shows "P ((writer_turn pg now devs ^^ length ws) m)"
  using assms(1,2,4)
proof (induction ws arbitrary: m)
  case (Cons w ws)
  let ?m = "writer_turn pg now devs m"
  have q: "im_queue ?m = ws @ vs" and P: "P ?m"
    using Cons.prems assms(3) by (simp_all add: writer_turn_def queue_write)
  from Cons.IH [OF q P] Cons.prems(3) show ?case by (simp add: funpow_swap1)
qed simp

lemma drained_queue: "im_queue (drained pg now devs m) = []"
  using turns_queue [of m "im_queue m" "[]"] by (simp add: drained_def)

lemma drained_keep:
  assumes "P m" "\<And>m q. P m \<Longrightarrow> P (m\<lparr> im_queue := q \<rparr>)" "\<And>w m. w \<in> set (im_queue m0) \<Longrightarrow> P m \<Longrightarrow> P (exec_write pg now devs w m)"
    and "im_queue m = im_queue m0"
  shows "P (drained pg now devs m)"
  unfolding drained_def using turns_keep [of m "im_queue m" "[]" P] assms by simp

text \<open>The state in the middle: what is left to write after the first part of the queue.\<close>

lemma drained_split:
  assumes "im_queue m = us @ w # vs"
  shows "drained pg now devs m = (writer_turn pg now devs ^^ length vs)
    (writer_turn pg now devs ((writer_turn pg now devs ^^ length us) m))"
proof -
  have "length (im_queue m) = length vs + (1 + length us)" using assms by simp
  then show ?thesis unfolding drained_def by (simp only: funpow_add) simp
qed

section \<open>What a scan writes\<close>

fun scan_write :: "int \<Rightarrow> (string \<Rightarrow> bool) \<Rightarrow> (string \<Rightarrow> bool) \<Rightarrow> ipam_write \<Rightarrow> bool" where
  "scan_write i up gone (WUpsert j ip name user t dev kind) \<longleftrightarrow> j = i \<and> dev = [] \<and> up ip"
| "scan_write i up gone (WStale j ips) \<longleftrightarrow> j = i \<and> ips \<noteq> [] \<and> list_all gone ips"
| "scan_write i up gone _ \<longleftrightarrow> False"

lemma scan_write_mono:
  "scan_write i up gone w \<Longrightarrow> (\<And>a. up a \<Longrightarrow> up' a) \<Longrightarrow> (\<And>a. gone a \<Longrightarrow> gone' a) \<Longrightarrow> scan_write i up' gone' w"
  by (cases w) (auto simp: list_all_iff)

definition scanned :: "(string, alloc) dict \<Rightarrow> (string \<times> string) list \<Rightarrow> string \<Rightarrow> bool" where
  "scanned ex rs ip \<longleftrightarrow> ip \<noteq> [] \<and> ip \<in> set (map (\<lambda>r. strip (fst r)) rs) \<and> \<not> scan_skips (dget ex ip)"

lemma scanned_cons: "scanned ex (r # rs) ip \<longleftrightarrow> ip = strip (fst r) \<and> scanned ex [r] (strip (fst r)) \<or> scanned ex rs ip"
  by (auto simp: scanned_def)

lemma scan_rows_queue:
  "\<exists>ws. im_queue (fst (fold (scan_row now i ex) rs acc)) = im_queue (fst acc) @ ws
     \<and> list_all (scan_write i (scanned ex rs) (\<lambda>a. False)) ws \<and> (\<forall>w \<in> set ws. \<exists>j ip nm us t dev k. w = WUpsert j ip nm us t dev k)
     \<and> (\<forall>ip. scanned ex rs ip \<longrightarrow> (\<exists>w \<in> set ws. scan_write i (\<lambda>x. x = ip) (\<lambda>a. False) w))"
proof (induction rs arbitrary: acc)
  case (Cons r rs)
  obtain m u k where acc: "acc = (m, u, k)" by (rule prod_cases3)
  let ?ip = "strip (fst r)"
  from Cons.IH [of "scan_row now i ex r acc"] obtain ws where
    ws: "im_queue (fst (fold (scan_row now i ex) rs (scan_row now i ex r acc))) = im_queue (fst (scan_row now i ex r acc)) @ ws"
    "list_all (scan_write i (scanned ex rs) (\<lambda>a. False)) ws" "\<forall>w \<in> set ws. \<exists>j ip nm us t dev k. w = WUpsert j ip nm us t dev k"
    "\<forall>ip. scanned ex rs ip \<longrightarrow> (\<exists>w \<in> set ws. scan_write i (\<lambda>x. x = ip) (\<lambda>a. False) w)" by blast
  have mono: "list_all (scan_write i (scanned ex (r # rs)) (\<lambda>a. False)) ws"
    by (rule list.pred_mono_strong [OF ws(2)]) (erule scan_write_mono, auto simp: scanned_def)
  show ?case
  proof (cases "scanned ex [r] ?ip")
    case True
    obtain w where w: "fst (scan_row now i ex r acc) = enq w m" "scan_write i (\<lambda>x. x = ?ip) (\<lambda>a. False) w"
        "\<exists>j ip nm us t dev k. w = WUpsert j ip nm us t dev k"
      using True acc by (auto simp: scan_row_def Let_def scanned_def db_upsert_allocation_def)
    have "scan_write i (scanned ex (r # rs)) (\<lambda>a. False) w"
      using w(2,3) True by (auto simp: scanned_def)
    then have "list_all (scan_write i (scanned ex (r # rs)) (\<lambda>a. False)) (w # ws)" using mono by simp
    moreover have "\<forall>ip. scanned ex (r # rs) ip \<longrightarrow> (\<exists>w \<in> set (w # ws). scan_write i (\<lambda>x. x = ip) (\<lambda>a. False) w)"
      using ws(4) w(2) by (auto simp: scanned_cons [of ex r rs])
    moreover have "im_queue (fst (fold (scan_row now i ex) (r # rs) acc)) = im_queue (fst acc) @ w # ws"
      using ws(1) w(1) acc by simp
    moreover have "\<forall>w \<in> set (w # ws). \<exists>j ip nm us t dev k. w = WUpsert j ip nm us t dev k" using ws(3) w(3) by simp
    ultimately show ?thesis by blast
  next
    case False
    then have "fst (scan_row now i ex r acc) = m" using acc by (auto simp: scan_row_def Let_def scanned_def)
    then have "im_queue (fst (fold (scan_row now i ex) (r # rs) acc)) = im_queue (fst acc) @ ws" using ws(1) acc by simp
    moreover have "\<forall>ip. scanned ex (r # rs) ip \<longrightarrow> (\<exists>w \<in> set ws. scan_write i (\<lambda>x. x = ip) (\<lambda>a. False) w)"
      using ws(4) False by (auto simp: scanned_cons [of ex r rs])
    ultimately show ?thesis using mono ws(3) by blast
  qed
qed (simp add: scanned_def)

lemma scan_queue:
  assumes "m' = fst (apply_subnet_scan_results now stamp i rs m)"
  defines "ex \<equiv> db_get_allocations i m"
  shows "\<exists>ws. im_queue m' = im_queue m @ ws
    \<and> list_all (scan_write i (scanned ex rs) (\<lambda>a. \<exists>r. (a, r) \<in> set ex \<and> kind_of r = ''discovered'')) ws
    \<and> (\<forall>ip. scanned ex rs ip \<longrightarrow> (\<exists>w \<in> set ws. scan_write i (\<lambda>x. x = ip) (\<lambda>a. False) w))"
proof -
  let ?P = "scan_write i (scanned ex rs) (\<lambda>a. \<exists>r. (a, r) \<in> set ex \<and> kind_of r = ''discovered'')"
  obtain m1 u k where f: "fold (scan_row now i ex) rs (m, 0, 0) = (m1, u, k)" by (rule prod_cases3)
  from scan_rows_queue [of now i ex rs "(m, 0, 0)"] f obtain ws where
    ws: "im_queue m1 = im_queue m @ ws" "list_all (scan_write i (scanned ex rs) (\<lambda>a. False)) ws"
    "\<forall>ip. scanned ex rs ip \<longrightarrow> (\<exists>w \<in> set ws. scan_write i (\<lambda>x. x = ip) (\<lambda>a. False) w)" by auto
  have P: "list_all ?P ws" by (rule list.pred_mono_strong [OF ws(2)]) (erule scan_write_mono, auto)
  define alive where "alive = filter (\<lambda>a. a \<noteq> []) (map (\<lambda>r. strip (fst r)) rs)"
  define gone where "gone = map fst (filter (\<lambda>(a, r). a \<notin> set alive \<and> kind_of r = ''discovered'') ex)"
  have "m' = db_set_subnet_last_scan i stamp (db_mark_allocations_stale i gone m1)"
    unfolding assms(1) gone_def alive_def using f by (simp add: apply_subnet_scan_results_def Let_def ex_def)
  then have q: "im_queue m' = im_queue m1 @ (if gone = [] then [] else [WStale i gone])"
    by (simp add: db_set_subnet_last_scan_def db_mark_allocations_stale_def)
  have "gone \<noteq> [] \<Longrightarrow> ?P (WStale i gone)" by (auto simp: gone_def list_all_iff)
  with ws P q show ?thesis by (intro exI [of _ "ws @ (if gone = [] then [] else [WStale i gone])"]) auto
qed

lemma get_allocations: "dget (db_get_allocations i m) a = dget (im_allocs m) (i, a)"
proof -
  have "dget (map (\<lambda>((s, a), r). (a, r)) (filter (\<lambda>((s, a), r). s = i) xs)) a = dget xs (i, a)" for xs :: "(int \<times> string, alloc) dict"
    by (induction xs) auto
  then show ?thesis by (simp add: db_get_allocations_def)
qed

lemma get_allocations_mem: "(a, r) \<in> set (db_get_allocations i m) \<longleftrightarrow> ((i, a), r) \<in> set (im_allocs m)"
  by (force simp: db_get_allocations_def)

text \<open>A write of the scan leaves a row alone that is in another subnet or was not to be touched.\<close>

lemma scan_write_keeps:
  assumes "scan_write i up gone w" "dget (im_allocs m) (j, a) = Some r" "j = i \<Longrightarrow> \<not> up a \<and> (gone a \<longrightarrow> al_dev r \<noteq> [])"
  shows "dget (im_allocs (exec_write pg now devs w m)) (j, a) = Some r"
  using assms
  by (cases w) (auto simp: put_alloc_def update_conv on_allocs_def dget_map list_all_iff split: option.splits)

lemma scan_keeps_drained:
  assumes "keys_ok m" "im_queue m = []" "dget (im_allocs m) (j, a) = Some r" "j \<noteq> i \<or> scan_skips (Some r)"
  shows "dget (im_allocs (drained pg now' devs (fst (apply_subnet_scan_results now stamp i rs m)))) (j, a) = Some r"
proof -
  define m' where "m' = fst (apply_subnet_scan_results now stamp i rs m)"
  define ex where "ex = db_get_allocations i m"
  from scan_queue [OF m'_def] assms(2) obtain ws where q: "im_queue m' = ws"
    and ws: "list_all (scan_write i (scanned ex rs) (\<lambda>a. \<exists>r. (a, r) \<in> set ex \<and> kind_of r = ''discovered'')) ws"
    by (auto simp: ex_def)
  have not: "j = i \<Longrightarrow> \<not> scanned ex rs a \<and> ((\<exists>r. (a, r) \<in> set ex \<and> kind_of r = ''discovered'') \<longrightarrow> al_dev r \<noteq> [])"
  proof -
    assume j: "j = i"
    then have s: "scan_skips (Some r)" using assms(4) by blast
    then have "\<not> scanned ex rs a" using assms(3) j by (simp add: scanned_def ex_def get_allocations)
    moreover have "r' = r" if "(a, r') \<in> set ex" for r'
      using that assms(1,3) j by (simp add: ex_def get_allocations_mem keys_ok_def map_of_eq_Some_iff)
    moreover have "kind_of r = ''discovered'' \<longrightarrow> al_dev r \<noteq> []"
      using s by (auto simp: scan_skips_def PROTECTED_KINDS_def strip_def lstrip_def)
    ultimately show ?thesis by blast
  qed
  have "dget (im_allocs (drained pg now' devs m')) (j, a) = Some r"
  proof (rule drained_keep [where P = "\<lambda>m. dget (im_allocs m) (j, a) = Some r" and ?m0.0 = m'])
    show "dget (im_allocs m') (j, a) = Some r" using assms(3) by (simp add: m'_def allocs_scan)
    fix w and m :: ipam assume "w \<in> set (im_queue m')" "dget (im_allocs m) (j, a) = Some r"
    then show "dget (im_allocs (exec_write pg now' devs w m)) (j, a) = Some r"
      using ws q not by (intro scan_write_keeps) (auto simp: list_all_iff)
  qed simp_all
  then show ?thesis by (simp add: m'_def)
qed

section \<open>The device whose write came first\<close>

definition has_subnet :: "int \<Rightarrow> ipam \<Rightarrow> bool" where
  "has_subnet i m \<longleftrightarrow> dget (im_subnets m) i \<noteq> None"

lemma has_subnet_simps [simp]: "has_subnet i (m\<lparr> im_queue := q \<rparr>) = has_subnet i m" "has_subnet i (m\<lparr> im_allocs := x \<rparr>) = has_subnet i m"
  "has_subnet i (put_alloc k ok f new m) = has_subnet i m" "has_subnet i (on_allocs g m) = has_subnet i m"
  "has_subnet i (drop_allocs P m) = has_subnet i m" "has_subnet i (enq w m) = has_subnet i m"
  by (simp_all add: has_subnet_def on_allocs_def drop_allocs_def)

lemma has_subnet_on [simp]: "has_subnet i (on_subnet j f m) = has_subnet i m"
  by (auto simp: has_subnet_def on_subnet_def update_conv split: option.splits)

lemma has_subnet_fold: "(\<And>x m. has_subnet i (f x m) = has_subnet i m) \<Longrightarrow> has_subnet i (fold f xs m) = has_subnet i m"
  by (induction xs arbitrary: m) auto

lemma has_subnet_claim [simp]: "has_subnet i (claim_ip now did name a m) = has_subnet i m"
  by (simp add: claim_ip_def has_subnet_fold ipam_upsert_direct_def)

lemma has_subnet_fill [simp]: "has_subnet i (ipam_sync_subnet_add pg now devs j c m) = has_subnet i m"
  by (auto simp: ipam_sync_subnet_add_def fill_row_def ipam_upsert_direct_def has_subnet_fold split: option.splits prod.splits)

lemma has_subnet_row: "db_add_subnet now c name user site vlan m = (m1, r) \<Longrightarrow> has_subnet i m \<Longrightarrow> has_subnet i m1"
  by (auto simp: db_add_subnet_def Let_def has_subnet_def update_conv split: if_splits)

lemma has_subnet_write: "has_subnet i m \<Longrightarrow> w \<noteq> WDropSubnet i \<Longrightarrow> has_subnet i (exec_write pg now devs w m)"
proof (cases w)
  case (WDiscover c user)
  assume "has_subnet i m"
  with WDiscover show ?thesis by (auto dest: has_subnet_row split: prod.splits option.splits)
next
  case (WDropSubnet j)
  assume "has_subnet i m" "w \<noteq> WDropSubnet i"
  with WDropSubnet show ?thesis by (simp add: Let_def has_subnet_def drop_allocs_def delete_conv)
qed (simp_all add: ipam_sync_device_add_def ipam_sync_device_update_def ipam_sync_device_delete_def Let_def split: option.splits)

definition unlinked :: "int \<Rightarrow> string \<Rightarrow> ipam \<Rightarrow> bool" where
  "unlinked i a m \<longleftrightarrow> map_option al_dev (dget (im_allocs m) (i, a)) = Some []"

lemma unlinked_on_allocs: "(\<And>s a r. al_dev (f s a r) = al_dev r) \<Longrightarrow> unlinked i a (on_allocs f m) = unlinked i a m"
  by (cases "dget (im_allocs m) (i, a)") (simp_all add: unlinked_def on_allocs_def dget_map)

lemma unlinked_write: "scan_write i up gone w \<Longrightarrow> unlinked i a m \<Longrightarrow> unlinked i a (exec_write pg now devs w m)"
proof (cases w)
  case (WStale j ips)
  assume "unlinked i a m"
  with WStale show ?thesis by (simp add: unlinked_on_allocs)
qed (auto simp: unlinked_def put_alloc_def update_conv new_alloc_def split: option.splits)

lemma unlinked_upsert: "scan_write i (\<lambda>x. x = a) (\<lambda>x. False) (WUpsert j b nm us t dev k) \<Longrightarrow> has_subnet i m \<Longrightarrow>
    unlinked i a (exec_write pg now devs (WUpsert j b nm us t dev k) m)"
  by (auto simp: unlinked_def put_alloc_def update_conv new_alloc_def has_subnet_def split: option.splits)

lemma has_subnet_scan_rows: "has_subnet j (fst (fold (scan_row now i ex) rs acc)) = has_subnet j (fst acc)"
proof (induction rs arbitrary: acc)
  case (Cons r rs)
  obtain m u k where "acc = (m, u, k)" by (rule prod_cases3)
  then have "has_subnet j (fst (scan_row now i ex r acc)) = has_subnet j (fst acc)"
    by (simp add: scan_row_def Let_def db_upsert_allocation_def)
  with Cons show ?case by simp
qed simp

lemma has_subnet_scan: "has_subnet j (fst (apply_subnet_scan_results now stamp i rs m)) = has_subnet j m"
proof -
  obtain m1 u k where f: "fold (scan_row now i (db_get_allocations i m)) rs (m, 0, 0) = (m1, u, k)" by (rule prod_cases3)
  then have "has_subnet j m1 = has_subnet j m"
    using has_subnet_scan_rows [of j now i "db_get_allocations i m" rs "(m, 0, 0)"] by simp
  with f show ?thesis
    by (simp add: apply_subnet_scan_results_def Let_def db_set_subnet_last_scan_def db_mark_allocations_stale_def)
qed

lemma scan_unlinks:
  assumes "has_subnet i m" "list_all (\<lambda>w. w \<noteq> WDropSubnet i) (im_queue m)" "scanned (db_get_allocations i m) rs a"
  shows "unlinked i a (drained pg now' devs (fst (apply_subnet_scan_results now stamp i rs m)))"
proof -
  define m' where "m' = fst (apply_subnet_scan_results now stamp i rs m)"
  let ?P = "scan_write i (scanned (db_get_allocations i m) rs) (\<lambda>a. \<exists>r. (a, r) \<in> set (db_get_allocations i m) \<and> kind_of r = ''discovered'')"
  from scan_queue [OF m'_def] obtain ws where q: "im_queue m' = im_queue m @ ws" and ws: "list_all ?P ws"
    and ex: "\<exists>w \<in> set ws. scan_write i (\<lambda>x. x = a) (\<lambda>a. False) w" using assms(3) by blast
  from ex obtain us w vs where w: "ws = us @ w # vs" "scan_write i (\<lambda>x. x = a) (\<lambda>a. False) w" by (meson split_list)
  let ?run = "\<lambda>ws. writer_turn pg now' devs ^^ length ws"
  have q': "im_queue m' = (im_queue m @ us) @ w # vs" using q w(1) by simp
  have has: "has_subnet i m'" using has_subnet_scan [of i now stamp i rs m] assms(1) by (simp add: m'_def)
  have keep: "list_all (\<lambda>w. w \<noteq> WDropSubnet i) (im_queue m @ us)"
    using assms(2) ws w(1) by (force simp: list_all_iff)
  have A: "has_subnet i (?run (im_queue m @ us) m')"
    by (rule turns_keep [OF q', where P = "has_subnet i"]) (use has keep has_subnet_write in \<open>auto simp: list_all_iff\<close>)
  have qA: "im_queue (?run (im_queue m @ us) m') = w # vs" by (rule turns_queue [OF q'])
  obtain j b nm u t dev k where up: "w = WUpsert j b nm u t dev k"
    using w(2) by (cases w) (auto simp: list_all_iff neq_Nil_conv)
  have B: "unlinked i a (writer_turn pg now' devs (?run (im_queue m @ us) m'))"
    unfolding turn_cons [OF qA] up by (rule unlinked_upsert) (use w(2) A in \<open>simp_all add: up del: exec_write.simps\<close>)
  have qB: "im_queue (writer_turn pg now' devs (?run (im_queue m @ us) m')) = vs @ []"
    unfolding turn_cons [OF qA] by (simp add: queue_write del: exec_write.simps)
  have "list_all ?P vs" using ws w(1) by simp
  then have "unlinked i a (?run vs (writer_turn pg now' devs (?run (im_queue m @ us) m')))"
    by (intro turns_keep [OF qB, where P = "unlinked i a"] B) (auto simp: unlinked_def [of i a "_\<lparr> im_queue := _ \<rparr>"] list_all_iff
      intro: unlinked_write simp del: exec_write.simps, simp add: unlinked_def)
  then show ?thesis unfolding drained_split [OF q'] m'_def [symmetric] .
qed

section \<open>Devices that are not written to\<close>

fun device_of :: "ipam_write \<Rightarrow> string" where
  "device_of (WDeviceAdd did name host) = did"
| "device_of (WDeviceUpdate did old new name) = did"
| "device_of (WDeviceDelete did) = did"
| "device_of w = []"

lemma others_write:
  "is_device_write w \<Longrightarrow> keeps (others (device_of w)) (exec_write pg now devs w)"
  by (cases w) (auto simp: keeps_def intro: keepsD [OF others_add] keepsD [OF others_update] keepsD [OF others_delete])

end
