(* ===== verification/IpamTheorems.thy ===== *)
theory IpamTheorems
  imports IpamScan
begin

text \<open>
  What the address management guarantees, and the race it loses.
\<close>

section \<open>A small network\<close>

text \<open>One subnet with a switch, a name given by hand and an address a scan had found.\<close>

definition office_ops :: "(ts \<times> ipam_op) list" where
  "office_ops =
     [(1, OAdd ''ann'' ''10.1.2.77/24'' ''office'' ''hq'' (PInt 7)), (2, OTurn []),
      (3, ODevice (WDeviceAdd ''d1'' ''sw1'' ''10.1.2.1'')), (4, OTurn []),
      (5, OAssign ''ann'' 1 ''10.1.2.9'' ''printer'' None), (6, OTurn [])]"

definition office :: ipam where
  "office = fold (\<lambda>(t, op). ipam_exec True t op) office_ops empty_ipam"

definition office_found :: "(string \<times> string) list" where
  "office_found = [(''10.1.2.1'', ''x''), (''10.1.2.9'', ''y''), (''10.1.2.30'', ''pc'')]"

definition office_scanned :: ipam where
  "office_scanned = ipam_exec True 7 (OScanDone ''t7'' 1 ''s1'' (Some office_found)) office"

lemma office_run: "ipam_run True office"
  by (simp add: office_def office_ops_def ipam_run.intros del: ipam_exec.simps)

lemma office_scanned_run: "ipam_run True office_scanned"
proof -
  have "op_ok (OScanDone ''t7'' 1 ''s1'' (Some office_found)) office" by code_simp
  from ipam_run.step [OF office_run this] show ?thesis by (simp add: office_scanned_def)
qed

section \<open>Properties\<close>

text \<open>C25: Addresses belong to their subnet. In every state the address management can reach on
  PostgreSQL, whatever subnets, devices, assignments, scans and deletions were written in whatever
  order, the subnet of an allocation exists, its address is an address of the subnet, and no two
  subnets have the same CIDR. (A scan is taken to report addresses of the range it was given.)\<close>

theorem allocations_in_subnet:
  assumes "ipam_run True m"
  shows "(\<forall>i a r. ((i, a), r) \<in> set (im_allocs m) \<longrightarrow>
      (\<exists>s ip n. dget (im_subnets m) i = Some s \<and> parse_ip a = Some ip \<and> parse_net (sn_cidr s) = Some n \<and> in_net ip n))
    \<and> distinct (map (\<lambda>(i, s). sn_cidr s) (im_subnets m))"
proof
  note inv = run_inv [OF assms]
  show "\<forall>i a r. ((i, a), r) \<in> set (im_allocs m) \<longrightarrow>
      (\<exists>s ip n. dget (im_subnets m) i = Some s \<and> parse_ip a = Some ip \<and> parse_net (sn_cidr s) = Some n \<and> in_net ip n)"
  proof (intro allI impI)
    fix i a r assume "((i, a), r) \<in> set (im_allocs m)"
    then have "row_ok (cidrs m) (i, a)" using inv unfolding ipam_inv_def by force
    then obtain s where "dget (im_subnets m) i = Some s" "member_of a (sn_cidr s)" by (auto simp: row_ok_def cidrs_get)
    then show "\<exists>s ip n. dget (im_subnets m) i = Some s \<and> parse_ip a = Some ip \<and> parse_net (sn_cidr s) = Some n \<and> in_net ip n"
      by (auto simp: member_of_def split: option.splits)
  qed
  show "distinct (map (\<lambda>(i, s). sn_cidr s) (im_subnets m))"
    using inv by (simp add: ipam_inv_def subnets_ok_def cidrs_def case_prod_unfold comp_def)
qed

theorem allocations_in_subnet_witness:
  "\<exists>s ip n. dget (im_subnets office_scanned) 1 = Some s \<and> parse_ip ''10.1.2.9'' = Some ip \<and> parse_net (sn_cidr s) = Some n \<and> in_net ip n"
proof -
  have "list_ex (\<lambda>p. fst p = (1, ''10.1.2.9'')) (im_allocs office_scanned)" by code_simp
  then obtain r where "((1, ''10.1.2.9''), r) \<in> set (im_allocs office_scanned)" by (auto simp: list_ex_iff)
  with allocations_in_subnet [OF office_scanned_run] show ?thesis by blast
qed

text \<open>C29: What was entered is what is kept. After a subnet was added, its stored CIDR is the canonical
  text of the network that was entered, it reads back as that network, whether IPv4 or IPv6, it is
  not larger than a /9, and every further text of the same network is refused as a conflict.\<close>

theorem subnet_reads_back:
  assumes "add_subnet now user c nm site v m = (m', 201)"
  shows "\<exists>n s. parse_net (strip c) = Some n \<and> dget (im_subnets m') (im_next m) = Some s \<and> sn_cidr s = show_net n
    \<and> parse_net (sn_cidr s) = Some n \<and> 9 \<le> prefixlen n
    \<and> (\<forall>now2 user2 c2 nm2 site2 v2. parse_net (strip c2) = Some n \<longrightarrow> strip c2 \<noteq> [] \<longrightarrow>
         snd (add_subnet now2 user2 c2 nm2 site2 v2 m') = 409)"
proof -
  obtain n where n: "parse_net (strip c) = Some n" and p: "9 \<le> prefixlen n"
    using assms by (auto simp: add_subnet_def Let_def MIN_PREFIX_def split: if_splits option.splits)
  obtain m1 i where a: "db_add_subnet now (show_net n) (take 80 (strip nm)) user (take 40 (strip site)) (PInt (vlan_of v)) m = (m1, Some i)"
    and m': "m' = enq (WFillSubnet i (show_net n)) m1"
    using assms n by (auto simp: add_subnet_def Let_def split: if_splits option.splits prod.splits)
  then obtain s where s: "dget (im_subnets m') (im_next m) = Some s" "sn_cidr s = show_net n"
    by (auto simp: db_add_subnet_def Let_def update_conv split: if_splits)
  then have "list_ex (\<lambda>(i, s). sn_cidr s = show_net n) (im_subnets m')"
    using map_of_SomeD [OF s(1)] by (auto simp: list_ex_iff)
  with n p s parse_show_net [OF n] show ?thesis
    by (intro exI [of _ n] exI [of _ s]) (auto simp: add_subnet_def Let_def MIN_PREFIX_def db_add_subnet_def)
qed

theorem subnet_reads_back_witness:
  "\<exists>n (s::subnet). parse_net ''10.9.8.7/20'' = Some n \<and> sn_cidr s = show_net n \<and> parse_net (sn_cidr s) = Some n"
proof -
  let ?a = "add_subnet 9 ''ann'' ''10.9.8.7/20'' ''lab'' ''hq'' (PInt 0) office"
  have "snd ?a = 201" by code_simp
  then have eq: "?a = (fst ?a, 201)" by (simp add: prod_eq_iff)
  have st: "strip ''10.9.8.7/20'' = ''10.9.8.7/20''" by code_simp
  obtain n and s :: subnet where "parse_net (strip ''10.9.8.7/20'') = Some n" "sn_cidr s = show_net n" "parse_net (sn_cidr s) = Some n"
    using subnet_reads_back [OF eq] by (elim exE conjE) (rule that)
  then show ?thesis unfolding st by (intro exI conjI)
qed

text \<open>C28: A device only writes its own rows. However many additions, changes and deletions of other
  devices the writer works off, also for the same address, a row that is linked to a device stays as
  it is.\<close>

theorem device_rows_are_its_own:
  assumes "dget (im_allocs m) (i, a) = Some r" "al_dev r \<noteq> []"
    and "list_all (\<lambda>w. is_device_write w \<and> device_of w \<noteq> al_dev r) (im_queue m)"
  shows "dget (im_allocs (drained pg now devs m)) (i, a) = Some r"
proof (rule drained_keep [where P = "\<lambda>m. dget (im_allocs m) (i, a) = Some r" and ?m0.0 = m])
  fix w and m' :: ipam assume w: "w \<in> set (im_queue m)" and r: "dget (im_allocs m') (i, a) = Some r"
  from w assms(3) have "is_device_write w" "others (device_of w) i a r"
    using assms(2) by (auto simp: list_all_iff others_def)
  with r show "dget (im_allocs (exec_write pg now devs w m')) (i, a) = Some r" by (intro keepsD [OF others_write])
qed (use assms(1) in simp_all)

definition office_rivals :: ipam where
  "office_rivals = fold enq [WDeviceAdd ''d2'' ''fw'' ''10.1.2.1'', WDeviceUpdate ''d2'' ''10.1.2.1'' ''10.1.2.2'' ''fw'', WDeviceDelete ''d2''] office"

theorem device_rows_are_its_own_witness:
  "map_option al_dev (dget (im_allocs (drained True 9 [] office_rivals)) (1, ''10.1.2.1'')) = Some ''d1''"
proof -
  have d: "map_option al_dev (dget (im_allocs office_rivals) (1, ''10.1.2.1'')) = Some ''d1''" by code_simp
  then obtain r where r: "dget (im_allocs office_rivals) (1, ''10.1.2.1'') = Some r" "al_dev r = ''d1''" by auto
  have "list_all (\<lambda>w. is_device_write w \<and> device_of w \<noteq> ''d1'') (im_queue office_rivals)" by code_simp
  with device_rows_are_its_own [OF r(1)] r(2) show ?thesis by simp
qed

text \<open>C26: A scan respects what is known, within its own rule. When the results are applied while no write
  waits in the queue, then once the queue is worked off every row of another subnet, and every row of
  the scanned one that was linked to a device, carried one of the six kinds set by hand, or had a name,
  an editor other than discovery and a kind other than discovered and stale, is as it was. (Rows of
  kind discovered and stale are not protected, even when a person has named them, and with writes in the
  queue the scan judges rows that are no longer true.)\<close>

theorem scan_leaves_rows:
  assumes "ipam_run pg m" "im_queue m = []" "dget (im_allocs m) (j, a) = Some r"
    and "j \<noteq> i \<or> strip (al_dev r) \<noteq> []
      \<or> lower (strip (al_kind r)) \<in> {''gateway'', ''reserved'', ''conflict'', ''switch'', ''backbone'', ''core''}
      \<or> strip (al_name r) \<noteq> [] \<and> strip (al_by r) \<notin> {[], ''discovery''} \<and> lower (strip (al_kind r)) \<notin> {''discovered'', ''stale''}"
  shows "dget (im_allocs (drained pg later devs (fst (apply_subnet_scan_results now stamp i rs m)))) (j, a) = Some r"
proof -
  have "j \<noteq> i \<or> scan_skips (Some r)" using assms(4) by (auto simp: scan_skips_def kind_of_def PROTECTED_KINDS_def)
  with run_keys [OF assms(1)] assms(2,3) show ?thesis by (rule scan_keeps_drained)
qed

theorem scan_leaves_rows_witness:
  "map_option al_name (dget (im_allocs (drained True 9 [] (fst (apply_subnet_scan_results 7 ''t7'' 1 office_found office)))) (1, ''10.1.2.9''))
    = Some ''printer''"
proof -
  obtain r where r: "dget (im_allocs office) (1, ''10.1.2.9'') = Some r" "al_name r = ''printer''"
  proof -
    have "map_option al_name (dget (im_allocs office) (1, ''10.1.2.9'')) = Some ''printer''" by code_simp
    then show thesis using that by auto
  qed
  have q: "im_queue office = []" by code_simp
  have "map_option (\<lambda>r. (strip (al_name r), strip (al_by r), lower (strip (al_kind r)))) (dget (im_allocs office) (1, ''10.1.2.9''))
      = Some (''printer'', ''ann'', [])" by code_simp
  then have "strip (al_name r) = ''printer''" "strip (al_by r) = ''ann''" "lower (strip (al_kind r)) = []" by (simp_all add: r)
  then show ?thesis using scan_leaves_rows [OF office_run q r(1), of 1] r(2) by simp
qed

text \<open>The kinds left out above matter: an address that a scan found and a person then named, without
  choosing a kind, keeps the kind discovered, and the next scan gives it the name it finds.\<close>

definition office_named :: ipam where
  "office_named = fold (\<lambda>(t, op). ipam_exec True t op)
     [(8, OTurn []), (9, OAssign ''ann'' 1 ''10.1.2.30'' ''ann desk'' None), (10, OTurn [])] office_scanned"

theorem scan_renames_named_row:
  "map_option (\<lambda>r. (al_name r, al_by r)) (dget (im_allocs office_named) (1, ''10.1.2.30'')) = Some (''ann desk'', ''ann'')"
  "map_option (\<lambda>r. (al_name r, al_by r)) (dget (im_allocs (drained True 12 []
      (fst (apply_subnet_scan_results 11 ''t11'' 1 office_found office_named)))) (1, ''10.1.2.30'')) = Some (''pc'', ''discovery'')"
  by code_simp+

text \<open>C27: But it only respects what has been written. When a device was added and its write still waits
  in the queue as a scan that saw its address is applied, the row is written last by the scan: it is
  linked to no device, and it is still there when the device has been deleted.\<close>

theorem queued_link_is_lost:
  assumes "dget (im_subnets m) i = Some s" "im_queue m = [WDeviceAdd did name host]" "did \<noteq> []"
    and "(a, h) \<in> set rs" "strip a = a" "a \<noteq> []" "\<not> scan_skips (dget (im_allocs m) (i, a))"
  shows "map_option al_dev (dget (im_allocs (exec_write pg end_time devs (WDeviceDelete did)
      (drained pg later devs (fst (apply_subnet_scan_results now stamp i rs m))))) (i, a)) = Some []"
proof -
  let ?d = "drained pg later devs (fst (apply_subnet_scan_results now stamp i rs m))"
  have "has_subnet i m" using assms(1) by (simp add: has_subnet_def)
  moreover have "list_all (\<lambda>w. w \<noteq> WDropSubnet i) (im_queue m)" using assms(2) by simp
  moreover have "a \<in> set (map (\<lambda>r. strip (fst r)) rs)" using assms(4,5) by force
  then have "scanned (db_get_allocations i m) rs a" using assms(6,7) by (simp add: scanned_def get_allocations)
  ultimately have "unlinked i a ?d" by (rule scan_unlinks)
  then obtain r where r: "dget (im_allocs ?d) (i, a) = Some r" "al_dev r = []" by (auto simp: unlinked_def)
  have "dget (im_allocs (drop_allocs (\<lambda>s a r. al_dev r = did) ?d)) (i, a) = Some r"
    using dget_filter_keep [OF r(1), of "\<lambda>s a r. al_dev r \<noteq> did"] r(2) assms(3) by (simp add: drop_allocs_def)
  with r(2) show ?thesis by (simp add: ipam_sync_device_delete_def)
qed

definition office_raced :: ipam where
  "office_raced = enq (WDeviceAdd ''d3'' ''pc'' ''10.1.2.30'') office"

theorem queued_link_is_lost_witness:
  "map_option al_dev (dget (im_allocs (exec_write True 9 [] (WDeviceDelete ''d3'')
      (drained True 8 [] (fst (apply_subnet_scan_results 7 ''t7'' 1 office_found office_raced))))) (1, ''10.1.2.30'')) = Some []"
proof -
  obtain s where s: "dget (im_subnets office_raced) 1 = Some s"
  proof -
    have "map_option sn_name (dget (im_subnets office_raced) 1) = Some ''office''" by code_simp
    then show thesis using that by auto
  qed
  have q: "im_queue office_raced = [WDeviceAdd ''d3'' ''pc'' ''10.1.2.30'']" by code_simp
  have "(''10.1.2.30'', ''pc'') \<in> set office_found" "strip ''10.1.2.30'' = ''10.1.2.30''" by code_simp+
  moreover have "\<not> scan_skips (dget (im_allocs office_raced) (1, ''10.1.2.30''))" by code_simp
  ultimately show ?thesis by (intro queued_link_is_lost [OF s q]) simp_all
qed

end
