(* ===== verification/Registry.thy ===== *)
theory Registry
  imports Monitor Ipam
begin

text \<open>
  The registry as its routes see it: the monitor, the fields of devices and sensors that only the
  routes and the import read (origin, secondary addresses, wiring, defaults for new sensors, the
  arguments of probes), and the jobs that are handed to the writer thread. Messages to browsers and
  the audit log are left out.
\<close>

section \<open>State\<close>

record dev_extra =
  dx_external :: string                                   \<comment> \<open>\<open>external_id\<close>, empty for \<open>None\<close>\<close>
  dx_secondary :: "string list"
  dx_ports :: "(string, (string \<times> string) list) dict"
  dx_defaults :: "(string, string) dict"                  \<comment> \<open>the attributes \<open>*_default\<close>, empty when absent\<close>
  dx_found_at :: ts
  dx_found_cidr :: string

definition new_extra :: dev_extra where
  "new_extra = \<lparr> dx_external = [], dx_secondary = [], dx_ports = [], dx_defaults = [], dx_found_at = 0, dx_found_cidr = [] \<rparr>"

datatype reg_job =
    JSave | JResize
  | JIpam ipam_write
  | JTopoPrune did
  | JResolveEvents did sid
  | JResolveFlaps did sid
  | JClearStages did sid

record reg =
  rg_mon :: monitor
  rg_extra :: "(did, dev_extra) dict"
  rg_attrs :: "(did \<times> sid, (string, pval) dict) dict"
  rg_jobs :: "reg_job list"
  rg_muted :: "string list"                               \<comment> \<open>setting \<open>muted_groups\<close>\<close>
  rg_suppressed :: "(string \<times> string \<times> string) list"      \<comment> \<open>host, name, by whom\<close>

definition extra_of :: "did \<Rightarrow> reg \<Rightarrow> dev_extra" where
  "extra_of d r = (case dget (rg_extra r) d of Some e \<Rightarrow> e | None \<Rightarrow> new_extra)"

definition device_of_id :: "did \<Rightarrow> reg \<Rightarrow> device option" where
  "device_of_id d r = dget (m_devices (rg_mon r)) d"

definition on_dev :: "did \<Rightarrow> (device \<Rightarrow> device) \<Rightarrow> reg \<Rightarrow> reg" where
  "on_dev d f r = (case device_of_id d r of
       None \<Rightarrow> r | Some dev \<Rightarrow> r\<lparr> rg_mon := put_device d (f dev) (rg_mon r) \<rparr>)"

definition on_extra :: "did \<Rightarrow> (dev_extra \<Rightarrow> dev_extra) \<Rightarrow> reg \<Rightarrow> reg" where
  "on_extra d f r = r\<lparr> rg_extra := dput d (f (extra_of d r)) (rg_extra r) \<rparr>"

definition on_mon :: "(monitor \<Rightarrow> monitor) \<Rightarrow> reg \<Rightarrow> reg" where
  "on_mon f r = r\<lparr> rg_mon := f (rg_mon r) \<rparr>"

definition submit :: "reg_job list \<Rightarrow> reg \<Rightarrow> reg" where
  "submit js r = r\<lparr> rg_jobs := rg_jobs r @ js \<rparr>"

text \<open>\<open>str(v)\<close>\<close>

definition pstr :: "pval \<Rightarrow> string" where
  "pstr v = (if v = PNone then ''None'' else ptext v)"

section \<open>Hosts\<close>

text \<open>\<open>Handler._valid_host\<close>: letters, digits, dots, dashes and underscores between two letters or
  digits, then perhaps a colon and a number.\<close>

definition alnum :: "char \<Rightarrow> bool" where
  "alnum c \<longleftrightarrow> is_alpha c \<or> is_digit c"

definition host_core :: "string \<Rightarrow> bool" where
  "host_core s \<longleftrightarrow> s \<noteq> [] \<and> alnum (hd s) \<and> alnum (last s) \<and> list_all (\<lambda>c. alnum c \<or> c \<in> set ''._-'') s"

definition valid_host :: "string \<Rightarrow> bool" where
  "valid_host s = (case split_on CHR '':'' s of
       [a] \<Rightarrow> host_core a
     | [a, p] \<Rightarrow> host_core a \<and> p \<noteq> [] \<and> list_all is_digit p
     | _ \<Rightarrow> False)"

text \<open>\<open>propagate_device_host\<close>\<close>

definition propagate_device_host :: "string \<Rightarrow> device \<Rightarrow> device" where
  "propagate_device_host h dev = dev\<lparr> d_host := h,
     d_sensors := map (\<lambda>(i, s). (i, if c_host_override (s_cfg s) then s else s\<lparr> s_cfg := (s_cfg s)\<lparr> c_host := h \<rparr> \<rparr>)) (d_sensors dev) \<rparr>"

section \<open>Parents\<close>

definition MAX_PARENT_IDS :: nat where "MAX_PARENT_IDS = 8"
definition MAX_CYCLE_HOPS :: nat where "MAX_CYCLE_HOPS = 32"
definition MAX_PORT_LEN :: nat where "MAX_PORT_LEN = 32"

text \<open>A field that should be a list: absent or null, a list, or something else.\<close>

datatype 'a listing = Missing | Items "'a list" | Malformed

definition norm_ref :: "string \<Rightarrow> string option" where
  "norm_ref p =
     (if startswith ''group:'' p
      then (let g = strip (drop 6 p) in if g = [] \<or> 80 < length g then None else Some (''group:'' @ g))
      else if 64 < length p then None else Some p)"

fun norm_refs :: "pval list \<Rightarrow> string list \<Rightarrow> string list option" where
  "norm_refs [] acc = Some acc"
| "norm_refs (PText t # xs) acc =
     (if strip t = [] then norm_refs xs acc
      else case norm_ref (strip t) of
        None \<Rightarrow> None
      | Some p \<Rightarrow> norm_refs xs (if p \<in> set acc then acc else acc @ [p]))"
| "norm_refs (_ # xs) acc = None"

definition normalize_parent_ids :: "pval listing \<Rightarrow> string list option" where
  "normalize_parent_ids raw = (case raw of
       Missing \<Rightarrow> Some []
     | Malformed \<Rightarrow> None
     | Items xs \<Rightarrow> if MAX_PARENT_IDS < length xs then None else norm_refs xs [])"

text \<open>The ports of one parent; \<open>None\<close> for an entry that is no object of two texts.\<close>

fun norm_pairs :: "(pval \<times> pval) option list \<Rightarrow> (string \<times> string) list option" where
  "norm_pairs [] = Some []"
| "norm_pairs (Some (PText l, PText q) # xs) =
     (case norm_pairs xs of
        None \<Rightarrow> None
      | Some ys \<Rightarrow> (let a = take MAX_PORT_LEN (strip l); b = take MAX_PORT_LEN (strip q)
                    in Some (if a = [] \<and> b = [] then ys else (a, b) # ys)))"
| "norm_pairs (_ # xs) = None"

type_synonym port_raw = "(string \<times> (pval \<times> pval) option list) listing"

fun norm_ports :: "string list \<Rightarrow> (string \<times> (pval \<times> pval) option list) list
    \<Rightarrow> (string, (string \<times> string) list) dict \<Rightarrow> (string, (string \<times> string) list) dict option" where
  "norm_ports allowed [] acc = Some acc"
| "norm_ports allowed ((p, es) # xs) acc =
     (if p = [] \<or> p \<notin> set allowed then norm_ports allowed xs acc
      else case norm_pairs es of
        None \<Rightarrow> None
      | Some ys \<Rightarrow> norm_ports allowed xs (if ys = [] then acc else dput p ys acc))"

definition normalize_parent_ports :: "string list \<Rightarrow> port_raw \<Rightarrow> (string, (string \<times> string) list) dict option" where
  "normalize_parent_ports allowed raw = (case raw of
       Missing \<Rightarrow> Some [] | Malformed \<Rightarrow> None | Items xs \<Rightarrow> norm_ports allowed xs [])"

definition filter_known_parents :: "(did, device) dict \<Rightarrow> string list \<Rightarrow> string \<Rightarrow> string list" where
  "filter_known_parents devs refs x =
     filter (\<lambda>p. startswith ''group:'' p \<or> (dget devs p \<noteq> None \<and> p \<noteq> x)) refs"

text \<open>The devices a reference stands for.\<close>

definition ref_members :: "(did, device) dict \<Rightarrow> string \<Rightarrow> device list" where
  "ref_members devs ref =
     (if startswith ''group:'' ref then filter (\<lambda>d. strip (d_group d) = drop 6 ref) (map snd devs)
      else case dget devs ref of None \<Rightarrow> [] | Some d \<Rightarrow> [d])"

text \<open>One level of the walk: \<open>None\<close> when the device was met, else what was visited and the next level.\<close>

fun cycle_level :: "(did, device) dict \<Rightarrow> did \<Rightarrow> string list \<Rightarrow> string list \<Rightarrow> string list
    \<Rightarrow> (string list \<times> string list) option" where
  "cycle_level devs d [] visited next = Some (visited, next)"
| "cycle_level devs d (ref # q) visited next =
     (if ref = d then None
      else if ref \<in> set visited then cycle_level devs d q visited next
      else if startswith ''group:'' ref \<and> list_ex (\<lambda>x. d_device_id x = d) (ref_members devs ref) then None
      else cycle_level devs d q (ref # visited) (next @ concat (map d_parent_device_ids (ref_members devs ref))))"

fun cycle_walk :: "nat \<Rightarrow> (did, device) dict \<Rightarrow> did \<Rightarrow> string list \<Rightarrow> string list \<Rightarrow> bool" where
  "cycle_walk 0 devs d q visited = False"
| "cycle_walk (Suc n) devs d q visited =
     (if q = [] then False
      else case cycle_level devs d q visited [] of
        None \<Rightarrow> True
      | Some (v, q2) \<Rightarrow> cycle_walk n devs d q2 v)"

definition detect_parent_cycle :: "(did, device) dict \<Rightarrow> did \<Rightarrow> string list \<Rightarrow> bool" where
  "detect_parent_cycle devs d ps = cycle_walk MAX_CYCLE_HOPS devs d ps []"

end
