(* ===== verification/DeviceRoutes.thy ===== *)
theory DeviceRoutes
  imports Registry
begin

text \<open>
  The routes on devices (\<open>routes/devices.py\<close>): create, edit, delete, bulk actions, secondary addresses,
  roles and muted groups. A request is a record of its fields; the reply is a status. An edit applies
  its fields one after the other and stops at the first that is refused, as the code does.
\<close>

section \<open>Environment\<close>

text \<open>\<open>rx_known\<close> tells the probes that exist, \<open>rx_enc\<close> encrypts a password.\<close>

record route_env =
  rx_mon :: mon_env
  rx_known :: "string \<Rightarrow> bool"
  rx_enc :: "string \<Rightarrow> string"

definition valid_probe_ref :: "route_env \<Rightarrow> string \<Rightarrow> bool" where
  "valid_probe_ref x v \<longleftrightarrow> v \<in> {[], ''central''} \<or> rx_known x v"

definition V3_LEVELS :: "string list" where
  "V3_LEVELS = [[], ''noAuthNoPriv'', ''authNoPriv'', ''authPriv'']"

definition V3_AUTH :: "string list" where
  "V3_AUTH = [[], ''MD5'', ''SHA'', ''SHA-224'', ''SHA-256'', ''SHA-384'', ''SHA-512'']"

definition V3_PRIV :: "string list" where
  "V3_PRIV = [[], ''DES'', ''AES'', ''AES-192'', ''AES-256'']"

text \<open>Defaults for new sensors: the values allowed, if they are limited.\<close>

definition allowed_default :: "string \<Rightarrow> string list option" where
  "allowed_default k =
     (if k = ''snmp_version_default'' then Some [[], ''1'', ''2c'', ''3'']
      else if k = ''snmp_v3_level_default'' then Some V3_LEVELS
      else if k = ''snmp_v3_auth_proto_default'' then Some V3_AUTH
      else if k = ''snmp_v3_priv_proto_default'' then Some V3_PRIV
      else None)"

definition text_defaults :: "string list" where
  "text_defaults = [''snmp_community_default'', ''snmp_version_default'', ''vmware_user_default'', ''snmp_v3_user_default'',
     ''snmp_v3_level_default'', ''snmp_v3_auth_proto_default'', ''snmp_v3_priv_proto_default'', ''snmp_v3_context_default'']"

definition secret_defaults :: "string list" where
  "secret_defaults = [''vmware_password_default'', ''snmp_v3_auth_pass_default'', ''snmp_v3_priv_pass_default'']"

definition default_allowed :: "string \<Rightarrow> string \<Rightarrow> bool" where
  "default_allowed k v \<longleftrightarrow> (case allowed_default k of None \<Rightarrow> True | Some vs \<Rightarrow> v \<in> set vs)"

definition set_default :: "string \<Rightarrow> string \<Rightarrow> dev_extra \<Rightarrow> dev_extra" where
  "set_default k v e = e\<lparr> dx_defaults := dput k v (dx_defaults e) \<rparr>"

section \<open>Create\<close>

record device_form =
  df_name :: string
  df_host :: string
  df_group :: string                          \<comment> \<open>\<open>Default Group\<close> when absent\<close>
  df_site :: string
  df_webhook :: string
  df_probe :: string
  df_defaults :: "(string, string) dict"
  df_parents :: "pval listing"
  df_ports :: port_raw

definition form_default :: "route_env \<Rightarrow> device_form \<Rightarrow> string \<Rightarrow> string" where
  "form_default x f k =
     (let raw = (case dget (df_defaults f) k of Some v \<Rightarrow> v | None \<Rightarrow> [])
      in if k \<in> set secret_defaults then (if raw = [] then [] else rx_enc x raw)
         else if default_allowed k (strip raw) then strip raw else [])"

definition create_device :: "route_env \<Rightarrow> device_form \<Rightarrow> reg \<Rightarrow> reg \<times> (nat + did)" where
  "create_device x f r =
     (let name = strip (df_name f); host = strip (lower (df_host f)); site = strip (df_site f);
          webhook = strip (df_webhook f); probe = strip (df_probe f)
      in if name = [] \<or> host = [] \<or> 255 < length name \<or> 253 < length host \<or> 80 < length site
            \<or> 2048 < length webhook \<or> \<not> valid_host host \<or> \<not> valid_probe_ref x probe then (r, Inl 400)
         else case normalize_parent_ids (df_parents f) of
           None \<Rightarrow> (r, Inl 400)
         | Some ps \<Rightarrow> (case normalize_parent_ports ps (df_ports f) of
             None \<Rightarrow> (r, Inl 400)
           | Some ports \<Rightarrow>
               (let (m1, d) = add_device name host (df_group f) site (rg_mon r);
                    known = filter_known_parents (m_devices m1) ps d;
                    m2 = (case dget (m_devices m1) d of
                            Some dev \<Rightarrow> put_device d (dev\<lparr> d_probe_id := probe, d_webhook_url := webhook,
                                          d_parent_device_ids := known \<rparr>) m1
                          | None \<Rightarrow> m1);
                    e = new_extra\<lparr> dx_defaults := map (\<lambda>k. (k, form_default x f k)) (text_defaults @ secret_defaults),
                          dx_ports := filter (\<lambda>(k, v). k \<in> set known) ports \<rparr>
                in (submit [JSave, JResize, JIpam (WDeviceAdd d name host)]
                      (r\<lparr> rg_mon := m2, rg_extra := dput d e (rg_extra r) \<rparr>), Inr d))))"

section \<open>Edit\<close>

text \<open>A step applies one field; \<open>False\<close> refuses the request.\<close>

type_synonym edit_step = "reg \<Rightarrow> reg \<times> bool"

fun run_steps :: "edit_step list \<Rightarrow> reg \<Rightarrow> reg \<times> bool" where
  "run_steps [] r = (r, True)"
| "run_steps (f # fs) r = (case f r of (r1, True) \<Rightarrow> run_steps fs r1 | (r1, False) \<Rightarrow> (r1, False))"

definition given :: "'a option \<Rightarrow> ('a \<Rightarrow> edit_step) \<Rightarrow> edit_step" where
  "given v f r = (case v of None \<Rightarrow> (r, True) | Some a \<Rightarrow> f a r)"

record device_patch =
  dp_group :: "string option"
  dp_site :: "string option"
  dp_probe :: "string option"
  dp_name :: "string option"
  dp_webhook :: "string option"
  dp_muted :: "bool option"
  dp_defaults :: "(string, string) dict"      \<comment> \<open>the fields \<open>*_default\<close> that were sent\<close>
  dp_host :: "string option"
  dp_secondary :: "pval listing option"
  dp_parents :: "pval listing option"
  dp_ports :: "port_raw option"

definition patch_default :: "route_env \<Rightarrow> did \<Rightarrow> string \<Rightarrow> string \<Rightarrow> edit_step" where
  "patch_default x d k v r =
     (if k \<in> set secret_defaults
      then (if v = [] then r else on_extra d (set_default k (rx_enc x v)) r, True)
      else (if default_allowed k (strip v) then on_extra d (set_default k (strip v)) r else r, True))"

text \<open>The secondary addresses that are kept; \<open>None\<close> when one is no host.\<close>

fun clean_secondary :: "string \<Rightarrow> pval list \<Rightarrow> string list \<Rightarrow> string list option" where
  "clean_secondary host [] acc = Some acc"
| "clean_secondary host (v # xs) acc =
     (let s = lower (strip (pstr v))
      in if s = [] \<or> 253 < length s then clean_secondary host xs acc
         else if \<not> valid_host s then None
         else if s = lower host \<or> s \<in> set acc then clean_secondary host xs acc
         else clean_secondary host xs (acc @ [s]))"

definition patch_host :: "did \<Rightarrow> string \<Rightarrow> edit_step" where
  "patch_host d v r =
     (let h = strip v
      in if 253 < length h \<or> \<not> valid_host h then (r, False) else (on_dev d (propagate_device_host h) r, True))"

definition patch_secondary :: "did \<Rightarrow> pval listing \<Rightarrow> edit_step" where
  "patch_secondary d v r = (case v of
       Items xs \<Rightarrow>
         (if 50 < length xs then (r, False)
          else case clean_secondary (case device_of_id d r of Some dev \<Rightarrow> d_host dev | None \<Rightarrow> []) xs [] of
            None \<Rightarrow> (r, False)
          | Some ips \<Rightarrow> (on_extra d (\<lambda>e. e\<lparr> dx_secondary := ips \<rparr>) r, True))
     | _ \<Rightarrow> (r, False))"

definition patch_parents :: "did \<Rightarrow> pval listing \<Rightarrow> edit_step" where
  "patch_parents d v r = (case normalize_parent_ids v of
       None \<Rightarrow> (r, False)
     | Some ps \<Rightarrow>
         (if d \<in> set ps then (r, False)
          else (let devs = m_devices (rg_mon r); known = filter_known_parents devs ps d
                in if detect_parent_cycle devs d known then (r, False)
                   else (on_extra d (\<lambda>e. e\<lparr> dx_ports := filter (\<lambda>(k, v). k \<in> set known) (dx_ports e) \<rparr>)
                           (on_dev d (\<lambda>dev. dev\<lparr> d_parent_device_ids := known \<rparr>) r), True))))"

definition patch_ports :: "did \<Rightarrow> port_raw \<Rightarrow> edit_step" where
  "patch_ports d v r = (case normalize_parent_ports
         (case device_of_id d r of Some dev \<Rightarrow> d_parent_device_ids dev | None \<Rightarrow> []) v of
       None \<Rightarrow> (r, False) | Some ports \<Rightarrow> (on_extra d (\<lambda>e. e\<lparr> dx_ports := ports \<rparr>) r, True))"

definition field_steps :: "route_env \<Rightarrow> did \<Rightarrow> device_patch \<Rightarrow> edit_step list" where
  "field_steps x d p =
     [given (dp_group p) (\<lambda>g r. (on_dev d (\<lambda>dev. dev\<lparr> d_group := g \<rparr>) r, True)),
      given (dp_site p) (\<lambda>v r. if 80 < length (strip v) then (r, False) else (on_dev d (\<lambda>dev. dev\<lparr> d_site := strip v \<rparr>) r, True)),
      given (dp_probe p) (\<lambda>v r. (on_dev d (\<lambda>dev. dev\<lparr> d_probe_id := strip v \<rparr>) r, True)),
      given (dp_name p) (\<lambda>v r. if 255 < length (strip v) then (r, False) else (on_dev d (\<lambda>dev. dev\<lparr> d_name := strip v \<rparr>) r, True)),
      given (dp_webhook p) (\<lambda>v r. if 2048 < length (strip v) then (r, False)
        else (on_dev d (\<lambda>dev. dev\<lparr> d_webhook_url := strip v \<rparr>) r, True)),
      given (dp_muted p) (\<lambda>b r. (on_dev d (\<lambda>dev. dev\<lparr> d_alerts_muted := b \<rparr>) r, True))]
     @ map (\<lambda>(k, v). patch_default x d k v) (filter (\<lambda>(k, v). k \<in> set (text_defaults @ secret_defaults)) (dp_defaults p))
     @ [given (dp_host p) (patch_host d), given (dp_secondary p) (patch_secondary d)]"

definition patch_steps :: "route_env \<Rightarrow> did \<Rightarrow> device_patch \<Rightarrow> edit_step list" where
  "patch_steps x d p = field_steps x d p @ [given (dp_parents p) (patch_parents d), given (dp_ports p) (patch_ports d)]"

text \<open>A new configuration is offered to every agent when the site or the probe has changed.\<close>

definition rehome :: "route_env \<Rightarrow> did \<Rightarrow> device \<Rightarrow> reg \<Rightarrow> reg" where
  "rehome x d old r = (case device_of_id d r of
       None \<Rightarrow> r
     | Some dev \<Rightarrow>
         (if d_site old \<noteq> d_site dev \<or> d_probe_id old \<noteq> d_probe_id dev
          then on_mon (\<lambda>m. let m1 = apply_probe_assignment (rx_mon x) (map (Pair d) (map fst (d_sensors dev))) m
                           in m1\<lparr> m_bumps := m_bumps m1 @ [''*''] \<rparr>) r
          else r))"

definition patch_device :: "route_env \<Rightarrow> did \<Rightarrow> device_patch \<Rightarrow> reg \<Rightarrow> reg \<times> nat" where
  "patch_device x d p r =
     (if (case dp_probe p of Some v \<Rightarrow> \<not> valid_probe_ref x (strip v) | None \<Rightarrow> False) then (r, 400)
      else case device_of_id d r of
        None \<Rightarrow> (r, 404)
      | Some old \<Rightarrow>
          (case run_steps (patch_steps x d p) r of
             (r1, False) \<Rightarrow> (r1, 400)
           | (r1, True) \<Rightarrow>
               (let r2 = rehome x d old (submit [JSave] r1)
                in case device_of_id d r2 of
                     None \<Rightarrow> (r2, 200)
                   | Some dev \<Rightarrow> (submit [JIpam (WDeviceUpdate d (d_host old) (d_host dev) (d_name dev))] r2, 200))))"

section \<open>Delete and bulk actions\<close>

definition suppress_host :: "string \<Rightarrow> string \<Rightarrow> string \<Rightarrow> (string \<times> string \<times> string) list \<Rightarrow> (string \<times> string \<times> string) list" where
  "suppress_host host name actor es =
     (let h = lower (strip host)
      in if h = [] then es
         else (let es1 = filter (\<lambda>(k, _). lower k \<noteq> h) es @ [(h, strip name, take 64 (strip actor))]
               in drop (length es1 - 500) es1))"

definition unsuppress_host :: "string \<Rightarrow> (string \<times> string \<times> string) list \<Rightarrow> (string \<times> string \<times> string) list" where
  "unsuppress_host host es = (let h = lower (strip host) in if h = [] then es else filter (\<lambda>(k, _). lower k \<noteq> h) es)"

definition clear_jobs :: "did \<Rightarrow> sid list \<Rightarrow> reg_job list" where
  "clear_jobs d sids = concat (map (\<lambda>i. [JResolveEvents d i, JResolveFlaps d i, JClearStages d i]) sids)"

definition drop_device :: "string \<Rightarrow> did \<Rightarrow> reg \<Rightarrow> reg" where
  "drop_device user d r = (case device_of_id d r of
       None \<Rightarrow> r
     | Some dev \<Rightarrow>
         r\<lparr> rg_mon := fst (remove_device d (rg_mon r)),
            rg_extra := ddel d (rg_extra r),
            rg_attrs := filter (\<lambda>((k, i), v). k \<noteq> d) (rg_attrs r),
            rg_suppressed := (if startswith ''discovery:'' (dx_external (extra_of d r)) \<and> d_host dev \<noteq> []
                              then suppress_host (d_host dev) (d_name dev) user (rg_suppressed r) else rg_suppressed r) \<rparr>)"

definition delete_device :: "string \<Rightarrow> did \<Rightarrow> reg \<Rightarrow> reg \<times> nat" where
  "delete_device user d r =
     (let sids = sids_of d (rg_mon r)
      in (submit ([JSave, JResize, JIpam (WDeviceDelete d), JTopoPrune d] @ clear_jobs d sids) (drop_device user d r), 200))"

datatype bulk =
    BMove string "string option"                   \<comment> \<open>group (empty: unchanged), site\<close>
  | BStart | BStop | BDelete

definition bulk_move_one :: "string \<Rightarrow> string option \<Rightarrow> did \<Rightarrow> reg \<Rightarrow> reg" where
  "bulk_move_one g site d = on_dev d (\<lambda>dev.
     let dev1 = (if g \<noteq> [] then dev\<lparr> d_group := g \<rparr> else dev)
     in case site of Some s \<Rightarrow> dev1\<lparr> d_site := s \<rparr> | None \<Rightarrow> dev1)"

definition bulk_delete_one :: "string \<Rightarrow> did \<Rightarrow> reg \<Rightarrow> reg" where
  "bulk_delete_one user d r = (case device_of_id d r of
       None \<Rightarrow> r
     | Some dev \<Rightarrow> submit ([JIpam (WDeviceDelete d), JTopoPrune d] @ clear_jobs d (sids_of d (rg_mon r))) (drop_device user d r))"

definition bulk_ok :: "bulk \<Rightarrow> bool" where
  "bulk_ok a = (case a of
       BMove g s \<Rightarrow> (strip g \<noteq> [] \<or> s \<noteq> None) \<and> length (strip g) \<le> 80
         \<and> (case s of Some v \<Rightarrow> length (strip v) \<le> 80 | None \<Rightarrow> True)
     | _ \<Rightarrow> True)"

definition bulk_action :: "route_env \<Rightarrow> string \<Rightarrow> bulk \<Rightarrow> did list \<Rightarrow> reg \<Rightarrow> reg \<times> nat" where
  "bulk_action x user a dids r =
     (if dids = [] \<or> 1000 < length dids \<or> \<not> bulk_ok a then (r, 400)
      else let valid = filter (\<lambda>d. device_of_id d r \<noteq> None) dids
           in case a of
                BMove g s \<Rightarrow> (submit [JSave] (fold (bulk_move_one (strip g) (map_option strip s)) valid r), 200)
              | BStart \<Rightarrow> (submit [JSave] (fold (\<lambda>d. on_mon (start_device (rx_mon x) d)) valid r), 200)
              | BStop \<Rightarrow> (submit [JSave] (fold (\<lambda>d. on_mon (stop_device d True)) valid r), 200)
              | BDelete \<Rightarrow> (submit [JSave, JResize] (fold (bulk_delete_one user) valid r), 200))"

section \<open>Smaller routes\<close>

definition add_secondary :: "did \<Rightarrow> string \<Rightarrow> reg \<Rightarrow> reg \<times> nat" where
  "add_secondary d text r =
     (let ip = lower (strip text)
      in if ip = [] \<or> 253 < length ip \<or> \<not> valid_host ip then (r, 400)
         else case device_of_id d r of
           None \<Rightarrow> (r, 404)
         | Some dev \<Rightarrow>
             (let sips = dx_secondary (extra_of d r)
              in if ip = lower (d_host dev) then (r, 400)
                 else if ip \<in> set sips then (r, 200)
                 else if 50 \<le> length sips then (r, 400)
                 else (submit [JSave] (on_extra d (\<lambda>e. e\<lparr> dx_secondary := sips @ [ip] \<rparr>) r), 200)))"

definition set_role :: "ts \<Rightarrow> did \<Rightarrow> string \<Rightarrow> reg \<Rightarrow> ipam \<Rightarrow> ipam \<times> nat" where
  "set_role now d text r m =
     (let role = lower (strip text)
      in if role \<noteq> [] \<and> role \<notin> role_keys then (m, 400)
         else case device_of_id d r of
           None \<Rightarrow> (m, 404) | Some dev \<Rightarrow> (fst (db_set_device_role now d (d_host dev) role m), 200))"

definition delete_sensor :: "did \<Rightarrow> sid \<Rightarrow> reg \<Rightarrow> reg \<times> nat" where
  "delete_sensor d i r =
     (submit ([JSave, JResize] @ clear_jobs d [i])
        (r\<lparr> rg_mon := fst (remove_sensor d i (rg_mon r)), rg_attrs := ddel (d, i) (rg_attrs r) \<rparr>), 200)"

text \<open>Muting a group drops the cached status of its devices.\<close>

definition mute_group :: "string \<Rightarrow> bool \<Rightarrow> reg \<Rightarrow> reg \<times> nat" where
  "mute_group text want r =
     (let g = strip text; gs = rg_muted r
      in if g = [] then (r, 400)
         else if want = (g \<in> set gs) then (r, 200)
         else (r\<lparr> rg_muted := (if want then gs @ [g] else filter (\<lambda>x. x \<noteq> g) gs),
                  rg_mon := (rg_mon r)\<lparr> m_devices := map (\<lambda>(d, dev).
                    (d, if d_group dev = g then invalidate_status dev else dev)) (m_devices (rg_mon r)) \<rparr> \<rparr>, 200))"

end
