(* ===== verification/Importer.thy ===== *)
theory Importer
  imports DeviceRoutes
begin

text \<open>
  Bulk import (\<open>core/device_importer.py\<close>): creating devices from a list, and reconciling a list with
  the registry. An item of the list is a record of its texts, \<open>None\<close> when it is no object; a sensor
  specification keeps its other fields as a dictionary.
\<close>

section \<open>Sensor specifications\<close>

record sensor_spec =
  sp_name :: string
  sp_stype :: string                              \<comment> \<open>\<open>ping\<close> when absent\<close>
  sp_fields :: "(string, pval) dict"

definition ALLOWED_SENSOR_FIELDS :: "(string, string list) dict" where
  "ALLOWED_SENSOR_FIELDS =
     [(''ping'', []), (''tcp'', [''port'']),
      (''http'', [''port'', ''url'', ''verify_ssl'', ''http_expected_status'', ''keyword'', ''keyword_case'']),
      (''http_keyword'', [''port'', ''url'', ''verify_ssl'', ''keyword'', ''keyword_case'']),
      (''tls'', [''port'']),
      (''snmp'', [''port'', ''snmp_community'', ''snmp_version'', ''snmp_oid'', ''snmp_unit'']),
      (''banner'', [''port'', ''banner_regex'']),
      (''dns'', [''port'', ''dns_query'', ''dns_record_type'', ''dns_server'']),
      (''vmware'', [''vmware_user'', ''vmware_password'', ''vmware_vm_id'', ''vmware_vm_name'', ''vmware_metric'']),
      (''smtp'', [''port'', ''smtp_tls'', ''smtp_user'', ''smtp_password'', ''smtp_from'', ''smtp_rcpt'', ''smtp_test_level'']),
      (''ssh'', [''port'', ''ssh_user'', ''ssh_password'', ''ssh_private_key'', ''ssh_auth_type'', ''ssh_test_level'']),
      (''sftp'', [''port'', ''sftp_user'', ''sftp_password'', ''sftp_private_key'', ''sftp_auth_type'', ''sftp_test_level'',
         ''sftp_remote_path'', ''sftp_expected_sha256'']),
      (''radius'', [''port'', ''radius_secret'', ''radius_test_level'', ''radius_username'', ''radius_password'', ''radius_nas_id''])]"

definition spec_defaults :: "string \<Rightarrow> (string, pval) dict" where
  "spec_defaults st =
     (if st = ''snmp'' then [(''snmp_community'', PText ''public''), (''snmp_version'', PText ''2c''),
          (''snmp_oid'', PText ''1.3.6.1.2.1.1.3.0'')]
      else if st = ''smtp'' then [(''smtp_test_level'', PText ''ehlo''), (''smtp_tls'', PText ''starttls'')]
      else if st = ''ssh'' then [(''ssh_test_level'', PText ''banner''), (''ssh_auth_type'', PText ''password'')]
      else if st = ''sftp'' then [(''sftp_test_level'', PText ''open''), (''sftp_auth_type'', PText ''password'')]
      else if st = ''radius'' then [(''radius_test_level'', PText ''reachable'')]
      else [])"

text \<open>\<open>build_sensor_kwargs\<close>: the fields of the type that have a value, then its defaults.\<close>

definition build_sensor_kwargs :: "sensor_spec \<Rightarrow> (string, pval) dict \<times> string" where
  "build_sensor_kwargs sp =
     (let st0 = lower (strip (sp_stype sp));
          st = (if dget ALLOWED_SENSOR_FIELDS st0 = None then ''ping'' else st0);
          fs = (case dget ALLOWED_SENSOR_FIELDS st of Some ks \<Rightarrow> ks | None \<Rightarrow> []);
          out = concat (map (\<lambda>k. case dget (sp_fields sp) k of
                  Some v \<Rightarrow> if v \<in> {PNone, PText []} then [] else [(k, v)] | None \<Rightarrow> []) fs)
      in (out @ filter (\<lambda>(k, v). dget out k = None) (spec_defaults st), st))"

text \<open>The keyword arguments of \<open>add_sensor\<close> an import can name; any other raises \<open>TypeError\<close>.\<close>

definition ADD_SENSOR_ARGS :: "string list" where
  "ADD_SENSOR_ARGS = [''port'', ''url'', ''verify_ssl'', ''snmp_community'', ''snmp_oid'', ''snmp_version'', ''keyword'',
     ''keyword_case'', ''banner_regex'', ''snmp_unit'', ''vmware_user'', ''vmware_password'', ''vmware_vm_id'',
     ''vmware_vm_name'', ''vmware_metric'', ''smtp_tls'', ''smtp_user'', ''smtp_password'', ''smtp_from'', ''smtp_rcpt'',
     ''smtp_test_level'', ''ssh_user'', ''ssh_password'', ''ssh_private_key'', ''ssh_auth_type'', ''ssh_test_level'',
     ''sftp_user'', ''sftp_password'', ''sftp_private_key'', ''sftp_auth_type'', ''sftp_test_level'', ''sftp_remote_path'',
     ''sftp_expected_sha256'', ''radius_secret'', ''radius_test_level'', ''radius_username'', ''radius_password'',
     ''radius_nas_id'']"

definition text_arg :: "string \<Rightarrow> string \<Rightarrow> (string, pval) dict \<Rightarrow> string" where
  "text_arg k d kw = (case dget kw k of Some v \<Rightarrow> ptext v | None \<Rightarrow> d)"

text \<open>The configuration \<open>add_sensor\<close> makes of its arguments and of the defaults in its signature.\<close>

definition cfg_of :: "string \<Rightarrow> string \<Rightarrow> (string, pval) dict \<Rightarrow> sensor_cfg" where
  "cfg_of name st kw =
     \<lparr> c_name = name, c_stype = st, c_host = [], c_interval = 60, c_fail_after = 3, c_recover_after = 2,
       c_warn_ms = None, c_crit_ms = None, c_loss_warn_pct = 0, c_loss_crit_pct = 0, c_alerts_muted = False,
       c_host_override = False, c_snmp_unit = text_arg ''snmp_unit'' [] kw,
       c_snmp_oid = text_arg ''snmp_oid'' ''1.3.6.1.2.1.1.1.0'' kw, c_vmware_metric = text_arg ''vmware_metric'' [] kw,
       c_cert_warn_days = 0, c_cert_crit_days = 0, c_probe_id = [], c_anomaly_enabled = False, c_anomaly_sensitivity = 2,
       c_anomaly_min_samples = 50 \<rparr>"

definition spec_name :: "sensor_spec \<Rightarrow> string" where
  "spec_name sp = (let n = take 255 (strip (if sp_name sp = [] then ''Sensor'' else sp_name sp)) in if n = [] then ''Sensor'' else n)"

text \<open>Add and start one sensor; nothing happens when an argument is unknown.\<close>

definition add_one :: "route_env \<Rightarrow> did \<Rightarrow> string \<Rightarrow> sensor_spec \<Rightarrow> reg \<Rightarrow> reg \<times> sid option" where
  "add_one x d name sp r =
     (let (kw, st) = build_sensor_kwargs sp
      in if \<not> list_all (\<lambda>(k, v). k \<in> set ADD_SENSOR_ARGS) kw then (r, None)
         else case add_sensor d [] (cfg_of name st kw) (rg_mon r) of
           (m, None) \<Rightarrow> (r, None)
         | (m, Some i) \<Rightarrow> (r\<lparr> rg_mon := start_sensor (rx_mon x) d i 0 m, rg_attrs := dput (d, i) kw (rg_attrs r) \<rparr>, Some i))"

fun create_sensors :: "route_env \<Rightarrow> did \<Rightarrow> sensor_spec option list \<Rightarrow> reg \<Rightarrow> reg \<times> sid list" where
  "create_sensors x d [] r = (r, [])"
| "create_sensors x d (None # sps) r = create_sensors x d sps r"
| "create_sensors x d (Some sp # sps) r =
     (case add_one x d (spec_name sp) sp r of
        (r1, i) \<Rightarrow> (case create_sensors x d sps r1 of
           (r2, js) \<Rightarrow> (r2, (case i of Some j \<Rightarrow> j # js | None \<Rightarrow> js))))"

section \<open>Items\<close>

record import_item =
  ii_name :: string
  ii_host :: string
  ii_group :: string
  ii_site :: string
  ii_external :: string
  ii_webhook :: string
  ii_community :: string
  ii_version :: string
  ii_found_at :: "ts option"
  ii_found_cidr :: string
  ii_sensors :: "sensor_spec option list"

datatype refusal = InvalidItem | NameHostRequired | InvalidHost | AlreadyMonitored | UpdateFailed

record import_result =
  ir_created :: "(did \<times> string \<times> string \<times> sid list) list"     \<comment> \<open>id, host, name, sensors\<close>
  ir_updated :: "(did \<times> string list \<times> string list \<times> string list) list"  \<comment> \<open>id, fields, sensors added and updated\<close>
  ir_deleted :: "did list"
  ir_skipped :: "(string \<times> string) list"
  ir_errors :: "(nat \<times> string \<times> refusal) list"

definition no_result :: import_result where
  "no_result = \<lparr> ir_created = [], ir_updated = [], ir_deleted = [], ir_skipped = [], ir_errors = [] \<rparr>"

definition refuse :: "nat \<Rightarrow> string \<Rightarrow> refusal \<Rightarrow> import_result \<Rightarrow> import_result" where
  "refuse k host why res = res\<lparr> ir_errors := ir_errors res @ [(k, host, why)] \<rparr>"

definition snapshot_hosts :: "reg \<Rightarrow> string list" where
  "snapshot_hosts r = concat (map (\<lambda>(d, dev).
     (if d_host dev = [] then [] else [lower (d_host dev)])
       @ map lower (filter (\<lambda>s. s \<noteq> []) (dx_secondary (extra_of d r)))) (m_devices (rg_mon r)))"

definition item_name :: "import_item \<Rightarrow> string" where
  "item_name it = take 255 (strip (ii_name it))"

definition item_host :: "import_item \<Rightarrow> string" where
  "item_host it = take 253 (strip (lower (ii_host it)))"

definition item_group :: "string \<Rightarrow> import_item \<Rightarrow> string" where
  "item_group default_group it = take 255 (if strip (ii_group it) = [] then default_group else strip (ii_group it))"

text \<open>The fields of an item that a device takes over when they are not empty.\<close>

definition take_fields :: "import_item \<Rightarrow> did \<Rightarrow> reg \<Rightarrow> reg" where
  "take_fields it d r =
     (let r1 = (if ii_webhook it \<noteq> [] then on_dev d (\<lambda>dev. dev\<lparr> d_webhook_url := ii_webhook it \<rparr>) r else r);
          r2 = (if ii_community it \<noteq> [] then on_extra d (set_default ''snmp_community_default'' (ii_community it)) r1 else r1)
      in if ii_version it \<noteq> [] then on_extra d (set_default ''snmp_version_default'' (ii_version it)) r2 else r2)"

definition take_external :: "import_item \<Rightarrow> did \<Rightarrow> reg \<Rightarrow> reg" where
  "take_external it d r =
     (if strip (ii_external it) \<noteq> [] then on_extra d (\<lambda>e. e\<lparr> dx_external := strip (ii_external it) \<rparr>) r else r)"

definition take_origin :: "import_item \<Rightarrow> did \<Rightarrow> reg \<Rightarrow> reg" where
  "take_origin it d r = on_extra d (\<lambda>e. e\<lparr>
     dx_found_at := (case ii_found_at it of Some t \<Rightarrow> t | None \<Rightarrow> dx_found_at e),
     dx_found_cidr := (if ii_found_cidr it \<noteq> [] then take 64 (ii_found_cidr it) else dx_found_cidr e) \<rparr>) r"

section \<open>Creating\<close>

text \<open>A new device with its sensors, and the write to the address management.\<close>

definition fill_device :: "route_env \<Rightarrow> bool \<Rightarrow> import_item \<Rightarrow> did \<Rightarrow> reg \<Rightarrow> reg \<times> sid list" where
  "fill_device x origin it d r =
     (let r1 = take_fields it d (take_external it d r)
      in create_sensors x d (ii_sensors it) (if origin then take_origin it d r1 else r1))"

definition create_item :: "route_env \<Rightarrow> bool \<Rightarrow> string \<Rightarrow> string \<Rightarrow> string \<Rightarrow> string \<Rightarrow> import_item \<Rightarrow> reg
    \<Rightarrow> reg \<times> did \<times> string \<times> string \<times> sid list" where
  "create_item x origin name host grp site it r =
     (let (m, d) = add_device name host grp site (rg_mon r);
          (r2, sids) = fill_device x origin it d (r\<lparr> rg_mon := m, rg_extra := dput d new_extra (rg_extra r) \<rparr>)
      in (submit [JIpam (WDeviceAdd d name host)] r2, d, host, name, sids))"

text \<open>State of the loop: registry, the hosts known so far, the result.\<close>

definition create_step :: "route_env \<Rightarrow> string \<Rightarrow> nat \<times> import_item option \<Rightarrow> reg \<times> string list \<times> import_result
    \<Rightarrow> reg \<times> string list \<times> import_result" where
  "create_step x default_group ki = (\<lambda>(r, known, res). case ki of
       (k, None) \<Rightarrow> (r, known, refuse k [] InvalidItem res)
     | (k, Some it) \<Rightarrow>
         (if item_name it = [] \<or> item_host it = [] then (r, known, refuse k (item_host it) NameHostRequired res)
          else case validate_host (PText (item_host it)) of
            None \<Rightarrow> (r, known, refuse k (item_host it) InvalidHost res)
          | Some host \<Rightarrow>
              (if host \<in> set known then (r, known, refuse k host AlreadyMonitored res)
               else (let (r1, c) = create_item x True (item_name it) host (item_group default_group it)
                             (take 80 (strip (ii_site it))) it r
                     in (r1, known @ [host], res\<lparr> ir_created := ir_created res @ [c] \<rparr>)))))"

definition create_devices_batch :: "route_env \<Rightarrow> import_item option list \<Rightarrow> string \<Rightarrow> reg \<Rightarrow> reg \<times> import_result" where
  "create_devices_batch x items default_group r =
     (let (r1, known, res) = fold (create_step x default_group) (enumerate 0 items) (r, snapshot_hosts r, no_result)
      in (submit [JSave] r1, res))"

section \<open>Matching\<close>

definition find_by_external :: "string \<Rightarrow> reg \<Rightarrow> did option" where
  "find_by_external ext r =
     (if ext = [] then None
      else map_option fst (find (\<lambda>(d, dev). strip (dx_external (extra_of d r)) = strip ext) (m_devices (rg_mon r))))"

definition find_by_host :: "string \<Rightarrow> reg \<Rightarrow> did option" where
  "find_by_host host r =
     (if host = [] then None
      else map_option fst (find (\<lambda>(d, dev). strip (lower (d_host dev)) = strip (lower host)) (m_devices (rg_mon r))))"

text \<open>\<open>preview_match\<close>: the device an item means, by its external id before its host.\<close>

definition preview_match :: "reg \<Rightarrow> import_item \<Rightarrow> did option" where
  "preview_match r it =
     (case (if strip (ii_external it) = [] then None else find_by_external (strip (ii_external it)) r) of
        Some d \<Rightarrow> Some d
      | None \<Rightarrow> find_by_host (strip (lower (ii_host it))) r)"

definition find_orphans :: "import_item option list \<Rightarrow> reg \<Rightarrow> (did \<times> string) list" where
  "find_orphans items r =
     (let its = List.map_filter id items;
          exts = map (\<lambda>it. strip (ii_external it)) (filter (\<lambda>it. ii_external it \<noteq> []) its);
          hosts = map (\<lambda>it. strip (lower (ii_host it))) (filter (\<lambda>it. ii_host it \<noteq> []) its)
      in map (\<lambda>(d, dev). (d, d_host dev)) (filter (\<lambda>(d, dev).
           \<not> (let e = strip (dx_external (extra_of d r)) in e \<noteq> [] \<and> e \<in> set exts)
           \<and> strip (lower (d_host dev)) \<notin> set hosts) (m_devices (rg_mon r))))"

section \<open>Updating\<close>

text \<open>Fields of the device that differ, with the names the code reports; the sensors keep their host.\<close>

definition update_device :: "did \<Rightarrow> string \<Rightarrow> string \<Rightarrow> string \<Rightarrow> import_item \<Rightarrow> reg \<Rightarrow> (reg \<times> string list) option" where
  "update_device d name host grp it r = (case device_of_id d r of
       None \<Rightarrow> None
     | Some dev \<Rightarrow>
         (let ext = strip (ii_external it); e = extra_of d r;
              cur = (\<lambda>k. case dget (dx_defaults e) k of Some v \<Rightarrow> v | None \<Rightarrow> []);
              new_ext = ext \<noteq> [] \<and> dx_external e = [];
              changed = (if name \<noteq> d_name dev then [''name''] else [])
                @ (if host \<noteq> lower (d_host dev) then [''host''] else [])
                @ (if grp \<noteq> d_group dev then [''group''] else [])
                @ (if new_ext then [''external_id''] else [])
                @ (if ii_webhook it \<noteq> [] \<and> ii_webhook it \<noteq> d_webhook_url dev then [''webhook_url''] else [])
                @ (if ii_community it \<noteq> [] \<and> ii_community it \<noteq> cur ''snmp_community_default'' then [''snmp_community_default''] else [])
                @ (if ii_version it \<noteq> [] \<and> ii_version it \<noteq> cur ''snmp_version_default'' then [''snmp_version_default''] else []);
              r1 = on_dev d (\<lambda>dev. dev\<lparr> d_name := name, d_host := (if host \<noteq> lower (d_host dev) then host else d_host dev),
                     d_group := grp \<rparr>) r;
              r2 = (if new_ext then on_extra d (\<lambda>e. e\<lparr> dx_external := ext \<rparr>) r1 else r1)
          in Some (take_fields it d r2, changed)))"

text \<open>The arguments that change the part of a sensor the monitor reads.\<close>

definition edits_of :: "(string, pval) dict \<Rightarrow> edit list" where
  "edits_of kw = concat (map (\<lambda>(k, v).
     if k = ''snmp_oid'' then [EdSnmpOid (ptext v)]
     else if k = ''snmp_unit'' then [EdSnmpUnit (ptext v)]
     else if k = ''vmware_metric'' then [EdVmwareMetric (ptext v)] else []) kw)"

definition attrs_of :: "did \<Rightarrow> sid \<Rightarrow> reg \<Rightarrow> (string, pval) dict" where
  "attrs_of d i r = (case dget (rg_attrs r) (d, i) of Some a \<Rightarrow> a | None \<Rightarrow> [])"

text \<open>\<open>update_sensor\<close> with the arguments of a specification; every argument overwrites.\<close>

definition update_one :: "route_env \<Rightarrow> did \<Rightarrow> sid \<Rightarrow> (string, pval) dict \<Rightarrow> reg \<Rightarrow> reg" where
  "update_one x d i kw r = (case update_sensor (rx_mon x) d i (edits_of kw) (rg_mon r) of
       (m, False) \<Rightarrow> r
     | (m, True) \<Rightarrow> r\<lparr> rg_mon := m, rg_attrs := dput (d, i) (fold (\<lambda>(k, v). dput k v) kw (attrs_of d i r)) (rg_attrs r) \<rparr>)"

definition sensor_key :: "string \<Rightarrow> string" where
  "sensor_key n = lower (strip n)"

text \<open>The sensors by name when the merge starts; of two with one name the last one counts.\<close>

definition sensors_by_name :: "did \<Rightarrow> reg \<Rightarrow> (string, sid) dict" where
  "sensors_by_name d r = (case device_of_id d r of
       None \<Rightarrow> []
     | Some dev \<Rightarrow> fold (\<lambda>(i, s). dput (sensor_key (c_name (s_cfg s))) i) (d_sensors dev) [])"

fun merge_sensors :: "route_env \<Rightarrow> did \<Rightarrow> (string, sid) dict \<Rightarrow> sensor_spec option list \<Rightarrow> reg
    \<Rightarrow> reg \<times> string list \<times> string list" where
  "merge_sensors x d names [] r = (r, [], [])"
| "merge_sensors x d names (None # sps) r = merge_sensors x d names sps r"
| "merge_sensors x d names (Some sp # sps) r =
     (let n = take 255 (strip (sp_name sp))
      in if n = [] then merge_sensors x d names sps r
         else case dget names (lower n) of
           Some i \<Rightarrow> (case merge_sensors x d names sps (update_one x d i (fst (build_sensor_kwargs sp)) r) of
             (r2, added, updated) \<Rightarrow> (r2, added, n # updated))
         | None \<Rightarrow> (case add_one x d n sp r of
             (r1, i) \<Rightarrow> (case merge_sensors x d names sps r1 of
               (r2, added, updated) \<Rightarrow> (r2, (if i = None then added else n # added), updated))))"

section \<open>Reconciling\<close>

datatype import_mode = AddOnly | AddUpdate | Replace

definition reconcile_step :: "route_env \<Rightarrow> string \<Rightarrow> reg \<Rightarrow> nat \<times> import_item option \<Rightarrow> reg \<times> import_result
    \<Rightarrow> reg \<times> import_result" where
  "reconcile_step x default_group start ki = (\<lambda>(r, res). case ki of
       (k, None) \<Rightarrow> (r, refuse k [] InvalidItem res)
     | (k, Some it) \<Rightarrow>
         (if item_name it = [] \<or> item_host it = [] then (r, refuse k (item_host it) NameHostRequired res)
          else case validate_host (PText (item_host it)) of
            None \<Rightarrow> (r, refuse k (item_host it) InvalidHost res)
          | Some host \<Rightarrow> (case preview_match start it of
              Some d \<Rightarrow> (case update_device d (item_name it) host (item_group default_group it) it r of
                  None \<Rightarrow> (r, refuse k host UpdateFailed res)
                | Some (r1, changed) \<Rightarrow> (case merge_sensors x d (sensors_by_name d r1) (ii_sensors it) r1 of
                    (r2, added, updated) \<Rightarrow> (r2, res\<lparr> ir_updated := ir_updated res @ [(d, changed, added, updated)] \<rparr>)))
            | None \<Rightarrow> (case create_item x False (item_name it) host (item_group default_group it) [] it r of
                (r1, c) \<Rightarrow> (r1, res\<lparr> ir_created := ir_created res @ [c] \<rparr>)))))"

text \<open>The class has no method \<open>delete_device\<close>, so every orphan ends in the handler of the exception.\<close>

definition delete_orphan :: "did \<times> string \<Rightarrow> import_result \<Rightarrow> import_result" where
  "delete_orphan o_dev res = res\<lparr> ir_skipped := ir_skipped res @ [(snd o_dev, ''delete crashed'')] \<rparr>"

definition reconcile_devices_batch :: "route_env \<Rightarrow> import_mode \<Rightarrow> import_item option list \<Rightarrow> string \<Rightarrow> reg \<Rightarrow> reg \<times> import_result" where
  "reconcile_devices_batch x mode items default_group r =
     (if mode = AddOnly then create_devices_batch x items default_group r
      else (let (r1, res) = fold (reconcile_step x default_group r) (enumerate 0 items) (r, no_result);
                res1 = (if mode = Replace then fold delete_orphan (find_orphans items r1) res else res)
            in (submit [JSave] r1, res1)))"

end
