(* ===== verification/RegistryLaws.thy ===== *)
theory RegistryLaws
  imports Importer MonitorLaws
begin

text \<open>
  Laws of the registry routes and of the import. A view of the devices that ignores their sensors is
  kept by every operation on sensors (\<open>device_view\<close>); the instances are the host of a device, its place
  in the dependency graph and its mere existence. Then the walk that looks for cycles, the probe
  assignment after an edit, and the effect of one item of an import.
\<close>

section \<open>Views of the devices\<close>

definition view_of :: "(device \<Rightarrow> 'a) \<Rightarrow> monitor \<Rightarrow> (did \<times> 'a) list" where
  "view_of f m = map (\<lambda>(d, dev). (d, f dev)) (m_devices m)"

lemma view_of_frame [simp]:
  "view_of f (m\<lparr> m_bind := b \<rparr>) = view_of f m" "view_of f (m\<lparr> m_sched := h \<rparr>) = view_of f m"
  "view_of f (m\<lparr> m_ready := q \<rparr>) = view_of f m" "view_of f (m\<lparr> m_bumps := bs \<rparr>) = view_of f m"
  "view_of f (m\<lparr> m_did_ctr := n \<rparr>) = view_of f m"
  by (simp_all add: view_of_def)

lemma map_dput_same:
  "map_of m k = Some v0 \<Longrightarrow> f v = f v0 \<Longrightarrow> map (\<lambda>(k, v). (k, f v)) (dput k v m) = map (\<lambda>(k, v). (k, f v)) m"
  by (induction m) (auto split: if_splits)

lemma view_of_put: "dget (m_devices m) d = Some dev0 \<Longrightarrow> f dev = f dev0 \<Longrightarrow> view_of f (put_device d dev m) = view_of f m"
  by (simp add: view_of_def put_device_def map_dput_same)

lemma view_of_dget: "dget (view_of f m) d = map_option f (dget (m_devices m) d)"
  unfolding view_of_def by (induction "m_devices m" arbitrary: m) (auto simp: map_of_map)

lemma view_of_keys: "map fst (view_of f m) = map fst (m_devices m)"
  by (simp add: view_of_def case_prod_unfold comp_def)

locale device_view =
  fixes f :: "device \<Rightarrow> 'a"
  assumes sensors: "f (dev\<lparr> d_sensors := ss \<rparr>) = f dev"
    and counter: "f (dev\<lparr> d_sid_ctr := n \<rparr>) = f dev"
    and cached: "f (dev\<lparr> d_cached_status := c \<rparr>) = f dev"
begin

lemma parts: "f (put_sensor i s dev) = f dev" "f (invalidate_status dev) = f dev" "f (fst (next_sid dev)) = f dev"
  by (simp_all add: put_sensor_def invalidate_status_def next_sid_def sensors counter cached)

lemma store:
  "find_sensor d i m = Some (dev, s) \<Longrightarrow> view_of f (store_sensor d dev j t m) = view_of f m"
  "find_sensor d i m = Some (dev, s) \<Longrightarrow> view_of f (store_sensor_inval d dev j t m) = view_of f m"
  by (auto simp: find_sensor_Some store_sensor_def store_sensor_inval_def parts intro!: view_of_put)

lemma store_bind:
  "find_sensor d i m = Some (dev, s) \<Longrightarrow> view_of f (store_sensor d dev j t (m\<lparr> m_bind := b \<rparr>)) = view_of f m"
  "find_sensor d i m = Some (dev, s) \<Longrightarrow> view_of f (store_sensor_inval d dev j t (m\<lparr> m_bind := b \<rparr>)) = view_of f m"
  using store [of d i "m\<lparr> m_bind := b \<rparr>" dev s j t] by simp_all

lemma start: "view_of f (start_sensor x d i t m) = view_of f m"
  by (auto simp: start_sensor_def Let_def store_bind split: option.splits prod.splits)

lemma stop: "view_of f (stop_sensor d i m) = view_of f m"
  by (auto simp: stop_sensor_def Let_def store_bind split: option.splits prod.splits)

lemma store_sched:
  "find_sensor d i m = Some (dev, s) \<Longrightarrow> view_of f (store_sensor d dev j t (m\<lparr> m_bind := b, m_sched := h \<rparr>)) = view_of f m"
  using store [of d i "m\<lparr> m_bind := b, m_sched := h \<rparr>" dev s j t] by simp

lemma assign_one: "view_of f (apply_one x k m) = view_of f m"
  by (auto simp: apply_one_def Let_def store_bind store_sched start stop split: option.splits prod.splits)

lemma assign: "view_of f (apply_probe_assignment x ps m) = view_of f m"
  unfolding apply_probe_assignment_def
  using fold_keeps [of "\<lambda>n. view_of f n = view_of f m" m "apply_one x" ps] by (simp add: assign_one)

lemma next_dev: "next_sid dev = (dev1, i) \<Longrightarrow> f dev1 = f dev"
  using parts(3) [of dev] by simp

lemma adds: "view_of f (fst (add_sensor d h c m)) = view_of f m"
  by (auto simp: add_sensor_def Let_def parts next_dev split: option.splits prod.splits intro!: view_of_put)

lemma edits: "view_of f (fst (update_sensor y d i es m)) = view_of f m"
  by (auto simp: update_sensor_def update_begin_def update_apply_def Let_def start store split: option.splits)

lemma add_one: "view_of f (rg_mon (fst (add_one x d n sp r))) = view_of f (rg_mon r)"
  using adds [of d "[]" "cfg_of n (snd (build_sensor_kwargs sp)) (fst (build_sensor_kwargs sp))" "rg_mon r"]
  by (auto simp: add_one_def Let_def start split: prod.splits option.splits)

lemma create_sensors: "view_of f (rg_mon (fst (create_sensors x d sps r))) = view_of f (rg_mon r)"
  by (induction x d sps r rule: create_sensors.induct)
    (auto split: prod.splits simp: add_one, metis add_one fst_conv)

lemma update_one: "view_of f (rg_mon (update_one x d i kw r)) = view_of f (rg_mon r)"
  using edits [of "rx_mon x" d i "edits_of kw" "rg_mon r"] by (auto simp: update_one_def split: prod.splits bool.splits)

lemma merge: "view_of f (rg_mon (fst (merge_sensors x d names sps r))) = view_of f (rg_mon r)"
proof (induction x d names sps r rule: merge_sensors.induct)
  case (3 x d names sp sps r)
  show ?case
    using "3.IH" by (auto simp: Let_def update_one split: prod.splits option.splits) (metis add_one fst_conv)+
qed simp_all

end

interpretation hosts: device_view d_host
  by unfold_locales simp_all

interpretation exists: device_view "\<lambda>dev. ()"
  by unfold_locales simp_all

text \<open>The place of a device in the dependency graph.\<close>

definition place :: "device \<Rightarrow> did \<times> string \<times> string list" where
  "place dev = (d_device_id dev, strip (d_group dev), d_parent_device_ids dev)"

interpretation places: device_view place
  by unfold_locales (simp_all add: place_def)

end
