(* ===== verification/ParentLaws.thy ===== *)
theory ParentLaws
  imports RegistryLaws
begin

text \<open>
  The dependency graph of the devices (\<open>depends\<close>) and the walk that refuses edits that would close a
  cycle: a walk that ends without a hit leaves a set of references that is closed and does not contain
  the device, and every level of the walk adds a reference, so that it ends before the limit when there
  are fewer references than levels.
\<close>

section \<open>The graph\<close>

definition stands_for :: "monitor \<Rightarrow> string \<Rightarrow> did set" where
  "stands_for m ref = (if startswith ''group:'' ref
     then {b. \<exists>dev. (b, dev) \<in> set (m_devices m) \<and> strip (d_group dev) = drop 6 ref}
     else {ref} \<inter> set (map fst (m_devices m)))"

definition depends :: "monitor \<Rightarrow> (did \<times> did) set" where
  "depends m = {(a, b). \<exists>dev ref. (a, dev) \<in> set (m_devices m) \<and> ref \<in> set (d_parent_device_ids dev) \<and> b \<in> stands_for m ref}"

definition parent_refs :: "monitor \<Rightarrow> string set" where
  "parent_refs m = (\<Union>(d, dev) \<in> set (m_devices m). set (d_parent_device_ids dev))"

definition ids_ok :: "monitor \<Rightarrow> bool" where
  "ids_ok m \<longleftrightarrow> distinct (map fst (m_devices m)) \<and> list_all (\<lambda>(d, dev). d_device_id dev = d) (m_devices m)"

lemma registry_ids:
  assumes "registry_ok m"
  shows "ids_ok m"
proof -
  have dst: "distinct (map fst (m_devices m))" using assms by (simp add: registry_ok_def)
  have "d_device_id dev = d" if "(d, dev) \<in> set (m_devices m)" for d dev
    using assms map_of_is_SomeI [OF dst that] by (simp add: registry_ok_def device_ok_def)
  with dst show ?thesis unfolding ids_ok_def list_all_iff by blast
qed

text \<open>Two monitors that show the same places have the same graph.\<close>

lemma same_place:
  assumes "view_of place m = view_of place m'" "(b, dev) \<in> set (m_devices m)"
  obtains dev' where "(b, dev') \<in> set (m_devices m')" "place dev' = place dev"
proof -
  from assms(2) have "(b, place dev) \<in> set (view_of place m)" by (force simp: view_of_def)
  with assms(1) have "(b, place dev) \<in> set (view_of place m')" by simp
  then show ?thesis using that by (auto simp: view_of_def)
qed

lemma same_stands:
  assumes "view_of place m = view_of place m'"
  shows "stands_for m ref \<subseteq> stands_for m' ref"
proof
  fix b assume b: "b \<in> stands_for m ref"
  have keys: "map fst (m_devices m) = map fst (m_devices m')"
    using assms by (metis view_of_keys)
  show "b \<in> stands_for m' ref"
  proof (cases "startswith ''group:'' ref")
    case True
    with b obtain dev where dev: "(b, dev) \<in> set (m_devices m)" and g: "strip (d_group dev) = drop 6 ref"
      by (auto simp: stands_for_def)
    obtain dev' where "(b, dev') \<in> set (m_devices m')" "place dev' = place dev"
      by (rule same_place [OF assms dev])
    with True g show ?thesis by (auto simp: stands_for_def place_def)
  next
    case False
    with b have "b \<in> {ref} \<inter> set (map fst (m_devices m))" by (simp only: stands_for_def if_False)
    with False keys show ?thesis by (simp only: stands_for_def if_False)
  qed
qed

lemma same_depends:
  assumes "view_of place m = view_of place m'"
  shows "depends m \<subseteq> depends m'"
proof
  fix p assume "p \<in> depends m"
  then obtain a b dev ref where p: "p = (a, b)" and dev: "(a, dev) \<in> set (m_devices m)"
    and ref: "ref \<in> set (d_parent_device_ids dev)" "b \<in> stands_for m ref" by (auto simp: depends_def)
  obtain dev' where "(a, dev') \<in> set (m_devices m')" "place dev' = place dev"
    by (rule same_place [OF assms dev])
  moreover have "b \<in> stands_for m' ref" using ref(2) same_stands [OF assms] by blast
  ultimately show "p \<in> depends m'"
    unfolding depends_def p using ref(1) by (intro CollectI case_prodI exI [of _ dev'] exI [of _ ref]) (simp add: place_def)
qed

lemma same_refs:
  assumes "view_of place m = view_of place m'"
  shows "parent_refs m \<subseteq> parent_refs m'"
proof
  fix ref assume "ref \<in> parent_refs m"
  then obtain a dev where dev: "(a, dev) \<in> set (m_devices m)" and ref: "ref \<in> set (d_parent_device_ids dev)"
    by (auto simp: parent_refs_def)
  obtain dev' where "(a, dev') \<in> set (m_devices m')" "place dev' = place dev"
    by (rule same_place [OF assms dev])
  with ref show "ref \<in> parent_refs m'"
    unfolding parent_refs_def by (intro UN_I [of "(a, dev')"]) (simp_all add: place_def)
qed

lemma same_ids:
  assumes "view_of place m = view_of place m'" "ids_ok m"
  shows "ids_ok m'"
proof -
  have keys: "map fst (m_devices m') = map fst (m_devices m)" using assms(1) by (metis view_of_keys)
  have "d_device_id dev = b" if dev: "(b, dev) \<in> set (m_devices m')" for b dev
  proof -
    obtain dev' where "(b, dev') \<in> set (m_devices m)" "place dev' = place dev"
      by (rule same_place [OF assms(1)[symmetric] dev])
    with assms(2) show ?thesis by (auto simp: ids_ok_def list_all_iff place_def)
  qed
  with assms(2) keys show ?thesis by (auto simp: ids_ok_def list_all_iff simp del: set_map)
qed

lemma same_places:
  assumes "view_of place m = view_of place m'"
  shows "stands_for m ref = stands_for m' ref" "depends m = depends m'" "parent_refs m = parent_refs m'" "ids_ok m = ids_ok m'"
  using same_stands [OF assms] same_stands [OF assms[symmetric]] same_depends [OF assms] same_depends [OF assms[symmetric]]
    same_refs [OF assms] same_refs [OF assms[symmetric]] same_ids [OF assms] same_ids [OF assms[symmetric]] by blast+

section \<open>The walk\<close>

definition up :: "(did, device) dict \<Rightarrow> string \<Rightarrow> string set" where
  "up devs ref = set (concat (map d_parent_device_ids (ref_members devs ref)))"

definition avoids :: "(did, device) dict \<Rightarrow> did \<Rightarrow> string \<Rightarrow> bool" where
  "avoids devs d ref \<longleftrightarrow> ref \<noteq> d \<and> \<not> (startswith ''group:'' ref \<and> list_ex (\<lambda>x. d_device_id x = d) (ref_members devs ref))"

lemma level_result:
  assumes "cycle_level devs d q v nx0 = Some (v', nx)"
  shows "set v' = set v \<union> set q" "set nx0 \<subseteq> set nx" "set nx \<subseteq> set nx0 \<union> \<Union> (up devs ` (set q - set v))"
    "\<forall>ref \<in> set q - set v. avoids devs d ref \<and> up devs ref \<subseteq> set nx"
proof -
  have "set v' = set v \<union> set q \<and> set nx0 \<subseteq> set nx \<and> set nx \<subseteq> set nx0 \<union> \<Union> (up devs ` (set q - set v))
     \<and> (\<forall>ref \<in> set q - set v. avoids devs d ref \<and> up devs ref \<subseteq> set nx)"
    using assms
  proof (induction devs d q v nx0 rule: cycle_level.induct)
    case (1 devs d v nx0)
    then show ?case by simp
  next
    case (2 devs d ref q v nx0)
    show ?case
    proof (cases "ref \<in> set v")
      case True
      with 2 show ?thesis by (auto split: if_splits)
    next
      case False
      with "2.prems" have av: "avoids devs d ref" by (auto simp: avoids_def split: if_splits)
      from False "2.prems" av
      have rec: "cycle_level devs d q (ref # v) (nx0 @ concat (map d_parent_device_ids (ref_members devs ref))) = Some (v', nx)"
        by (simp add: avoids_def split: if_splits)
      from False "2.prems" av
      have c: "ref \<noteq> d" "\<not> (startswith ''group:'' ref \<and> list_ex (\<lambda>x. d_device_id x = d) (ref_members devs ref))"
        by (simp_all add: avoids_def)
      have nx: "set (nx0 @ concat (map d_parent_device_ids (ref_members devs ref))) = set nx0 \<union> up devs ref"
        by (simp add: up_def)
      note IH = "2.IH"(2) [OF c(1) False c(2) rec, unfolded nx]
      have split: "set (ref # q) - set v = insert ref (set q - set (ref # v))" using False by auto
      from IH show ?thesis unfolding split using av by auto
    qed
  qed
  then show "set v' = set v \<union> set q" "set nx0 \<subseteq> set nx" "set nx \<subseteq> set nx0 \<union> \<Union> (up devs ` (set q - set v))"
    "\<forall>ref \<in> set q - set v. avoids devs d ref \<and> up devs ref \<subseteq> set nx" by auto
qed

lemma walk_closes:
  assumes "\<not> cycle_walk n devs d q v" "finite R" "set v \<union> set q \<subseteq> R" "card (R - set v) < n"
    "\<And>ref. avoids devs d ref \<Longrightarrow> up devs ref \<subseteq> R"
    "\<forall>ref \<in> set v. avoids devs d ref \<and> up devs ref \<subseteq> set v \<union> set q"
  shows "\<exists>W. set v \<union> set q \<subseteq> W \<and> (\<forall>ref \<in> W. avoids devs d ref \<and> up devs ref \<subseteq> W)"
  using assms
proof (induction n arbitrary: q v)
  case 0
  then show ?case by simp
next
  case (Suc n)
  show ?case
  proof (cases "set q \<subseteq> set v")
    case True
    with Suc.prems(6) show ?thesis by (intro exI [of _ "set v"]) auto
  next
    case False
    then obtain v' nx where lv: "cycle_level devs d q v [] = Some (v', nx)" and
      w: "\<not> cycle_walk n devs d nx v'" using Suc.prems(1) by (auto split: if_splits option.splits)
    note res = level_result [OF lv]
    have "\<Union> (up devs ` (set q - set v)) \<subseteq> R" using res(4) Suc.prems(5) by (intro UN_least) blast
    with res(1,3) Suc.prems(3) have sub: "set v' \<union> set nx \<subseteq> R" by simp
    from False obtain ref where "ref \<in> set q" "ref \<notin> set v" by auto
    with res(1) Suc.prems(3) have "R - set v' \<subset> R - set v" by auto
    with Suc.prems(2,4) have "card (R - set v') < n"
      using psubset_card_mono [of "R - set v" "R - set v'"] by simp
    moreover have "avoids devs d ref \<and> up devs ref \<subseteq> set v' \<union> set nx" if "ref \<in> set v'" for ref
    proof (cases "ref \<in> set v")
      case True
      with Suc.prems(6) res(1) show ?thesis by auto
    next
      case False
      with that res(1,4) show ?thesis by auto
    qed
    ultimately obtain W where "set v' \<union> set nx \<subseteq> W" "\<forall>ref \<in> W. avoids devs d ref \<and> up devs ref \<subseteq> W"
      using Suc.IH [OF w Suc.prems(2) sub _ Suc.prems(5)] by blast
    then show ?thesis using res(1) by (intro exI [of _ W]) auto
  qed
qed

section \<open>Edits keep the graph acyclic\<close>

lemma acyclic_redirect:
  assumes "acyclic E" "d \<notin> B" "E `` B \<subseteq> B" "S \<subseteq> {d} \<times> B"
  shows "acyclic (E \<union> S)"
proof -
  have closed: "(x, y) \<in> E\<^sup>+ \<Longrightarrow> x \<in> B \<Longrightarrow> y \<in> B" for x y
    by (induction rule: trancl_induct) (use assms(3) in auto)
  have "(x, y) \<in> (E \<union> S)\<^sup>+ \<Longrightarrow> (x, y) \<in> E\<^sup>+ \<or> x \<notin> B \<and> y \<in> B" for x y
  proof (induction rule: trancl_induct)
    case (base y)
    then show ?case using assms(2,4) by auto
  next
    case (step y z)
    then consider "(y, z) \<in> E" | "y = d" "z \<in> B" using assms(4) by auto
    then show ?case
    proof cases
      case 1
      with step.IH assms(3) show ?thesis by (auto intro: trancl_into_trancl)
    next
      case 2
      with step.IH assms(2) closed show ?thesis by auto
    qed
  qed
  then have "(x, x) \<notin> (E \<union> S)\<^sup>+" for x using assms(1) by (auto simp: acyclic_def)
  then show ?thesis by (simp add: acyclic_def)
qed

lemma members_ids:
  assumes "ids_ok m"
  shows "stands_for m ref = d_device_id ` set (ref_members (m_devices m) ref)"
proof (cases "startswith ''group:'' ref")
  case True
  have id: "(k, dev) \<in> set (m_devices m) \<Longrightarrow> d_device_id dev = k" for k dev
    using assms by (auto simp: ids_ok_def list_all_iff)
  have mem: "set (ref_members (m_devices m) ref) = {dev. \<exists>k. (k, dev) \<in> set (m_devices m) \<and> strip (d_group dev) = drop 6 ref}"
    using True by (force simp: ref_members_def)
  show ?thesis
  proof
    show "stands_for m ref \<subseteq> d_device_id ` set (ref_members (m_devices m) ref)"
      unfolding mem stands_for_def if_P [OF True] using id by blast
    show "d_device_id ` set (ref_members (m_devices m) ref) \<subseteq> stands_for m ref"
      unfolding mem stands_for_def if_P [OF True] using id by auto
  qed
next
  case False
  show ?thesis
  proof (cases "dget (m_devices m) ref")
    case None
    then have "ref \<notin> set (map fst (m_devices m))" by (simp add: map_of_eq_None_iff)
    with False None show ?thesis by (simp add: stands_for_def ref_members_def)
  next
    case (Some dev)
    from map_of_SomeD [OF this] have mem: "(ref, dev) \<in> set (m_devices m)" .
    with assms have "d_device_id dev = ref" by (auto simp: ids_ok_def list_all_iff)
    moreover from mem have "ref \<in> set (map fst (m_devices m))" by force
    ultimately show ?thesis using False Some by (simp add: stands_for_def ref_members_def)
  qed
qed

lemma walk_avoids:
  assumes m: "ids_ok m" and small: "card (parent_refs m \<union> set ps) < MAX_CYCLE_HOPS"
    and no: "\<not> detect_parent_cycle (m_devices m) d ps"
  obtains W where "set ps \<subseteq> W" "\<And>ref. ref \<in> W \<Longrightarrow> d \<notin> stands_for m ref"
    "\<And>ref b dev. ref \<in> W \<Longrightarrow> b \<in> stands_for m ref \<Longrightarrow> (b, dev) \<in> set (m_devices m) \<Longrightarrow> set (d_parent_device_ids dev) \<subseteq> W"
proof -
  let ?R = "parent_refs m \<union> set ps"
  have fin: "finite ?R" by (auto simp: parent_refs_def)
  have mem: "dev \<in> set (ref_members (m_devices m) ref) \<Longrightarrow> dev \<in> snd ` set (m_devices m)" for dev ref
    by (auto simp: ref_members_def split: if_splits option.splits dest: map_of_SomeD) (metis image_eqI map_of_SomeD snd_conv)
  have "up (m_devices m) ref \<subseteq> ?R" for ref
    using mem by (fastforce simp: up_def parent_refs_def)
  then obtain W where W: "set ps \<subseteq> W" "\<forall>ref \<in> W. avoids (m_devices m) d ref \<and> up (m_devices m) ref \<subseteq> W"
    using walk_closes [of MAX_CYCLE_HOPS "m_devices m" d ps "[]" ?R] fin small no
    by (auto simp: detect_parent_cycle_def)
  have uniq: "x = dev" if "x \<in> set (ref_members (m_devices m) ref)" "(d_device_id x, dev) \<in> set (m_devices m)" for x dev ref
  proof -
    from mem [OF that(1)] obtain k where "(k, x) \<in> set (m_devices m)" by auto
    with m that(2) show ?thesis by (auto simp: ids_ok_def list_all_iff dest: eq_key_imp_eq_value)
  qed
  show thesis
  proof (rule that [OF W(1)])
    fix ref assume "ref \<in> W"
    with W(2) have av: "avoids (m_devices m) d ref" by blast
    show "d \<notin> stands_for m ref"
    proof (cases "startswith ''group:'' ref")
      case True
      with av show ?thesis unfolding members_ids [OF m] by (auto simp: avoids_def list_ex_iff)
    next
      case False
      with av show ?thesis by (auto simp: avoids_def stands_for_def)
    qed
  next
    fix ref b dev assume r: "ref \<in> W" and b: "b \<in> stands_for m ref" and dev: "(b, dev) \<in> set (m_devices m)"
    from b obtain x where x: "x \<in> set (ref_members (m_devices m) ref)" "b = d_device_id x"
      unfolding members_ids [OF m] by auto
    with uniq dev have "x = dev" by blast
    with x(1) have "set (d_parent_device_ids dev) \<subseteq> up (m_devices m) ref" by (auto simp: up_def)
    with W(2) r show "set (d_parent_device_ids dev) \<subseteq> W" by blast
  qed
qed

lemma dput_mem_iff:
  "distinct (map fst m) \<Longrightarrow> p \<in> set (dput k v m) \<longleftrightarrow> p = (k, v) \<or> p \<in> set m \<and> fst p \<noteq> k"
proof (induction m)
  case (Cons a m)
  then show ?case by (cases a; cases p) (auto simp: image_iff)
qed auto

text \<open>Writing the parents of one device after the walk found nothing.\<close>

lemma set_parents_acyclic:
  assumes m: "ids_ok m" and small: "card (parent_refs m \<union> set ps) < MAX_CYCLE_HOPS"
    and no: "\<not> detect_parent_cycle (m_devices m) d ps" and ac: "acyclic (depends m)"
    and dev: "dget (m_devices m) d = Some dev"
  shows "acyclic (depends (put_device d (dev\<lparr> d_parent_device_ids := ps \<rparr>) m))" (is "acyclic (depends ?m)")
proof -
  obtain W where W: "set ps \<subseteq> W" "\<And>ref. ref \<in> W \<Longrightarrow> d \<notin> stands_for m ref"
    "\<And>ref b dev. ref \<in> W \<Longrightarrow> b \<in> stands_for m ref \<Longrightarrow> (b, dev) \<in> set (m_devices m) \<Longrightarrow> set (d_parent_device_ids dev) \<subseteq> W"
    using walk_avoids [OF m small no] by blast
  let ?E = "{(a, b) \<in> depends m. a \<noteq> d}" and ?B = "\<Union> (stands_for m ` W)" and ?S = "{d} \<times> \<Union> (stands_for m ` set ps)"
  have mem: "p \<in> set (m_devices ?m) \<Longrightarrow> p = (d, dev\<lparr> d_parent_device_ids := ps \<rparr>) \<or> p \<in> set (m_devices m) \<and> fst p \<noteq> d" for p
    using m by (auto simp: put_device_def ids_ok_def dput_mem_iff)
  have keys: "map fst (m_devices ?m) = map fst (m_devices m)"
    using view_of_put [OF dev, of "\<lambda>x. ()"] by (metis view_of_keys)
  have st: "b \<in> stands_for ?m ref \<Longrightarrow> b \<in> stands_for m ref" for b ref
  proof (cases "startswith ''group:'' ref")
    case True
    assume "b \<in> stands_for ?m ref"
    with True obtain dv where dv: "(b, dv) \<in> set (m_devices ?m)" and g: "strip (d_group dv) = drop 6 ref"
      by (auto simp: stands_for_def)
    have "\<exists>dw. (b, dw) \<in> set (m_devices m) \<and> strip (d_group dw) = drop 6 ref"
      using mem [OF dv] g map_of_SomeD [OF dev] by (cases "b = d") auto
    with True show ?thesis by (simp add: stands_for_def)
  next
    case False
    assume "b \<in> stands_for ?m ref"
    with False keys show ?thesis by (simp only: stands_for_def if_False)
  qed
  have "depends ?m \<subseteq> ?E \<union> ?S"
  proof
    fix p assume "p \<in> depends ?m"
    then obtain a b dv ref where p: "p = (a, b)" and dv: "(a, dv) \<in> set (m_devices ?m)"
      and ref: "ref \<in> set (d_parent_device_ids dv)" "b \<in> stands_for ?m ref" by (auto simp: depends_def)
    from mem [OF dv] ref(1) st [OF ref(2)] show "p \<in> ?E \<union> ?S"
      unfolding p by (auto simp: depends_def)
  qed
  moreover have "acyclic (?E \<union> ?S)"
  proof (rule acyclic_redirect)
    show "acyclic ?E" using ac by (rule acyclic_subset) auto
    show "d \<notin> ?B" using W(2) by auto
    show "?E `` ?B \<subseteq> ?B"
      using W(3) by (fastforce simp: depends_def)
    show "?S \<subseteq> {d} \<times> ?B" using W(1) by auto
  qed
  ultimately show ?thesis by (rule acyclic_subset [rotated])
qed

section \<open>The steps of an edit\<close>

lemma view_frames [simp]:
  "rg_mon (on_extra d g r) = rg_mon r" "rg_mon (submit js r) = rg_mon r" "rg_mon (on_mon h r) = h (rg_mon r)"
  by (simp_all add: on_extra_def submit_def on_mon_def)

lemma view_on_dev: "(\<And>dev. f (g dev) = f dev) \<Longrightarrow> view_of f (rg_mon (on_dev d g r)) = view_of f (rg_mon r)"
  by (auto simp: on_dev_def device_of_id_def intro!: view_of_put split: option.splits)

lemma run_steps_append: "run_steps (fs @ gs) r = (case run_steps fs r of (r1, b) \<Rightarrow> if b then run_steps gs r1 else (r1, False))"
  by (induction fs r rule: run_steps.induct) (auto split: prod.splits bool.splits)

lemma run_steps_keeps: "list_all (\<lambda>f. \<forall>r. P (fst (f r)) = P r) fs \<Longrightarrow> P (fst (run_steps fs r)) = P r"
proof (induction fs arbitrary: r)
  case (Cons f fs)
  obtain r1 b where f: "f r = (r1, b)" by (cases "f r")
  with Cons.prems have "P r1 = P r" using f by (auto simp: list_all_iff) (metis fst_conv)+
  with Cons f show ?case by (cases b) auto
qed simp

lemma given_keeps: "(\<And>v r. P (fst (f v r)) = P r) \<Longrightarrow> P (fst (given a f r)) = P r"
  by (simp add: given_def split: option.splits)

text \<open>Every step but those on the group and the parents leaves the graph alone.\<close>

definition same_graph :: "reg \<Rightarrow> reg \<Rightarrow> bool" where
  "same_graph r0 r \<longleftrightarrow> view_of place (rg_mon r) = view_of place (rg_mon r0)"

lemma same_graph_on_dev: "(\<And>dev. place (g dev) = place dev) \<Longrightarrow> same_graph r0 (on_dev d g r) = same_graph r0 r"
  by (simp add: same_graph_def view_on_dev)

lemma same_graph_frames [simp]: "same_graph r0 (on_extra d g r) = same_graph r0 r" "same_graph r0 (submit js r) = same_graph r0 r"
  by (simp_all add: same_graph_def)

lemma graph_fields:
  assumes "dp_group p = None"
  shows "same_graph r0 (fst (run_steps (field_steps x d p) r)) = same_graph r0 r"
proof (rule run_steps_keeps)
  have default: "same_graph r0 (fst (patch_default x d k v r)) = same_graph r0 r" for k v r
    by (simp add: patch_default_def)
  have host: "same_graph r0 (fst (patch_host d v r)) = same_graph r0 r" for v r
    by (simp add: patch_host_def Let_def same_graph_on_dev propagate_device_host_def place_def)
  have second: "same_graph r0 (fst (patch_secondary d v r)) = same_graph r0 r" for v r
    by (simp add: patch_secondary_def split: listing.splits option.splits)
  show "list_all (\<lambda>f. \<forall>r. same_graph r0 (fst (f r)) = same_graph r0 r) (field_steps x d p)"
    using assms by (auto simp: field_steps_def list_all_iff given_def same_graph_on_dev place_def default host second
        split: option.splits)
qed

lemma normalized_count: "normalize_parent_ids v = Some ps \<Longrightarrow> length ps \<le> MAX_PARENT_IDS"
proof -
  have "norm_refs xs acc = Some ps \<Longrightarrow> length ps \<le> length acc + length xs" for xs acc
    by (induction xs acc rule: norm_refs.induct) (fastforce split: if_splits option.splits)+
  moreover assume "normalize_parent_ids v = Some ps"
  ultimately show ?thesis by (fastforce simp: normalize_parent_ids_def split: listing.splits if_splits)
qed

lemma parents_step_acyclic:
  assumes m: "ids_ok (rg_mon r)" and ac: "acyclic (depends (rg_mon r))"
    and small: "card (parent_refs (rg_mon r)) + MAX_PARENT_IDS < MAX_CYCLE_HOPS"
  shows "acyclic (depends (rg_mon (fst (patch_parents d v r))))"
proof (cases "normalize_parent_ids v")
  case None
  with ac show ?thesis by (simp add: patch_parents_def)
next
  case (Some ps)
  let ?known = "filter_known_parents (m_devices (rg_mon r)) ps d"
  show ?thesis
  proof (cases "d \<in> set ps \<or> detect_parent_cycle (m_devices (rg_mon r)) d ?known \<or> device_of_id d r = None")
    case True
    with ac Some show ?thesis by (auto simp: patch_parents_def Let_def on_dev_def)
  next
    case False
    then obtain dev where dev: "dget (m_devices (rg_mon r)) d = Some dev" by (auto simp: device_of_id_def)
    have "card (set ?known) \<le> length ps"
      by (rule order_trans [OF card_length]) (simp add: filter_known_parents_def)
    with normalized_count [OF Some] small have "card (parent_refs (rg_mon r) \<union> set ?known) < MAX_CYCLE_HOPS"
      using card_Un_le [of "parent_refs (rg_mon r)" "set ?known"] by linarith
    from set_parents_acyclic [OF m this _ ac dev] False Some dev show ?thesis
      by (simp add: patch_parents_def Let_def on_dev_def device_of_id_def)
  qed
qed

lemma ports_graph: "rg_mon (fst (patch_ports d v r)) = rg_mon r"
  by (simp add: patch_ports_def split: option.splits)

lemma steps_acyclic:
  assumes "dp_group p = None" and m: "ids_ok (rg_mon r)" and ac: "acyclic (depends (rg_mon r))"
    and small: "card (parent_refs (rg_mon r)) + MAX_PARENT_IDS < MAX_CYCLE_HOPS"
  shows "acyclic (depends (rg_mon (fst (run_steps (patch_steps x d p) r))))"
proof -
  obtain r1 b where r1: "run_steps (field_steps x d p) r = (r1, b)" by force
  with graph_fields [OF assms(1), of r x d r] have "view_of place (rg_mon r1) = view_of place (rg_mon r)"
    by (simp add: same_graph_def)
  note same = same_places [OF this]
  have r1_ac: "acyclic (depends (rg_mon r1))" and r1_ids: "ids_ok (rg_mon r1)"
    and r1_small: "card (parent_refs (rg_mon r1)) + MAX_PARENT_IDS < MAX_CYCLE_HOPS"
    using same m ac small by simp_all
  have par: "acyclic (depends (rg_mon (fst (given (dp_parents p) (patch_parents d) r1))))"
    using parents_step_acyclic [OF r1_ids r1_ac r1_small] r1_ac by (simp add: given_def split: option.splits)
  have ports: "rg_mon (fst (given (dp_ports p) (patch_ports d) r2)) = rg_mon r2" for r2
    using ports_graph by (simp add: given_def split: option.splits)
  have "rg_mon (fst (run_steps [f, g] r1)) = rg_mon (fst (f r1))"
    if "\<And>r2. rg_mon (fst (g r2)) = rg_mon r2" for f g :: edit_step
    using that by (auto split: prod.splits bool.splits) (metis fst_conv)+
  from this [of "given (dp_ports p) (patch_ports d)" "given (dp_parents p) (patch_parents d)"] ports par r1_ac
  show ?thesis
    unfolding patch_steps_def run_steps_append r1 prod.case by (simp split: if_split)
qed

lemma rehome_graph: "view_of place (rg_mon (rehome x d old r)) = view_of place (rg_mon r)"
  by (auto simp: rehome_def Let_def places.assign split: option.splits)

lemma patch_acyclic:
  assumes "dp_group p = None" "ids_ok (rg_mon r)" "acyclic (depends (rg_mon r))"
    "card (parent_refs (rg_mon r)) + MAX_PARENT_IDS < MAX_CYCLE_HOPS"
  shows "acyclic (depends (rg_mon (fst (patch_device x d p r))))"
proof -
  obtain r1 b where r1: "run_steps (patch_steps x d p) r = (r1, b)" by force
  with steps_acyclic [OF assms, of x d] have "acyclic (depends (rg_mon r1))" by simp
  moreover have "depends (rg_mon (rehome x d old (submit [JSave] r1))) = depends (rg_mon r1)" for old
    using same_places(2) [OF rehome_graph, of x d old "submit [JSave] r1"] by simp
  ultimately show ?thesis
    using assms(3) r1 by (auto simp: patch_device_def Let_def split: option.splits bool.splits)
qed

end
