(* ===== verification/AssignLaws.thy ===== *)
theory AssignLaws
  imports ParentLaws
begin

text \<open>
  Where the sensors of a device are measured. \<open>assigned\<close>: a sensor is on the agents' side exactly when
  its effective probe is an agent. Reassigning the sensors of a device establishes it, and a running
  sensor that comes back to the server has a pending probe (\<open>chain_ok\<close>).
\<close>

section \<open>Effective probe\<close>

definition eff :: "device \<Rightarrow> sensor \<Rightarrow> site_bindings \<Rightarrow> string" where
  "eff dev s b = snd (effective_probe (Some dev) (Some s) b)"

definition same_sites :: "site_bindings \<Rightarrow> site_bindings \<Rightarrow> bool" where
  "same_sites b c \<longleftrightarrow> (\<forall>n. snd (site_probe n b) = snd (site_probe n c))"

lemma eff_cong:
  "same_sites b c \<Longrightarrow> c_probe_id (s_cfg s) = c_probe_id (s_cfg t) \<Longrightarrow> d_probe_id dv = d_probe_id dw \<Longrightarrow> d_site dv = d_site dw
    \<Longrightarrow> eff dv s b = eff dw t c"
  by (simp add: eff_def effective_probe_def same_sites_def Let_def)

lemma same_sites_probe: "same_sites (fst (effective_probe dev s b)) b"
  by (auto simp: same_sites_def effective_probe_def site_probe_def get_site_map_def Let_def split: option.splits)

lemma same_sites_probe': "effective_probe dev s b = (c, e) \<Longrightarrow> same_sites c b"
  using same_sites_probe [of dev s b] by simp

lemma same_sites_trans: "same_sites a b \<Longrightarrow> same_sites b c \<Longrightarrow> same_sites a c"
  by (simp add: same_sites_def)

lemma same_sites_refl [simp]: "same_sites b b"
  by (simp add: same_sites_def)

definition agrees :: "monitor \<Rightarrow> did \<Rightarrow> sid \<Rightarrow> bool" where
  "agrees m d i \<longleftrightarrow> (case find_sensor d i m of None \<Rightarrow> True
     | Some (dev, s) \<Rightarrow> (s_sched_mode s = Remote \<longleftrightarrow> eff dev s (m_bind m) \<noteq> []))"

definition assigned :: "did \<Rightarrow> monitor \<Rightarrow> bool" where
  "assigned d m \<longleftrightarrow> list_all (agrees m d) (sids_of d m)"

section \<open>Wiring\<close>

text \<open>What the assignment and the chains read of a device and of its sensors.\<close>

definition sensor_wire :: "sensor \<Rightarrow> bool \<times> sched_mode \<times> string" where
  "sensor_wire s = (s_running s, s_sched_mode s, c_probe_id (s_cfg s))"

definition wiring :: "device \<Rightarrow> (sid \<times> bool \<times> sched_mode \<times> string) list" where
  "wiring dev = map (\<lambda>(i, s). (i, sensor_wire s)) (d_sensors dev)"

definition home :: "device \<Rightarrow> string \<times> string" where
  "home dev = (d_site dev, d_probe_id dev)"

interpretation homes: device_view home
  by unfold_locales (simp_all add: home_def)

lemma map_of_snd: "map_of (map (\<lambda>(k, v). (k, g v)) xs) k = map_option g (map_of xs k)"
  by (induction xs) auto

lemma wire_dget: "dget (wiring dev) i = map_option sensor_wire (dget (d_sensors dev) i)"
  unfolding wiring_def by (rule map_of_snd)

lemma same_wiring:
  assumes "view_of wiring m = view_of wiring m'" "find_sensor d i m = Some (dev, s)"
  obtains dev' s' where "find_sensor d i m' = Some (dev', s')" "sensor_wire s' = sensor_wire s"
proof -
  from assms(2) have "dget (view_of wiring m) d = Some (wiring dev)" "dget (wiring dev) i = Some (sensor_wire s)"
    by (simp_all add: view_of_dget find_sensor_Some wire_dget)
  with assms(1) have "map_option wiring (dget (m_devices m') d) = Some (wiring dev)" by (simp flip: view_of_dget)
  then obtain dev' where d': "dget (m_devices m') d = Some dev'" "wiring dev' = wiring dev" by auto
  with \<open>dget (wiring dev) i = _\<close> have "map_option sensor_wire (dget (d_sensors dev') i) = Some (sensor_wire s)"
    by (simp flip: wire_dget)
  with d' that show ?thesis by (auto simp: find_sensor_Some)
qed

lemma same_sids: "view_of wiring m = view_of wiring m' \<Longrightarrow> sids_of d m = sids_of d m'"
proof -
  assume eq: "view_of wiring m = view_of wiring m'"
  have "sids_of d n = (case dget (view_of wiring n) d of None \<Rightarrow> [] | Some w \<Rightarrow> map fst w)" for n
    by (auto simp: sids_of_def view_of_dget wiring_def comp_def case_prod_unfold split: option.splits)
  with eq show ?thesis by simp
qed

text \<open>Edits of other fields keep the chains.\<close>

definition same_chains :: "monitor \<Rightarrow> monitor \<Rightarrow> bool" where
  "same_chains m m' \<longleftrightarrow> view_of wiring m = view_of wiring m' \<and> m_sched m = m_sched m' \<and> m_ready m = m_ready m'
     \<and> m_inflight m = m_inflight m' \<and> m_bind m = m_bind m'"

lemma chains_kept:
  assumes "same_chains m m'" "chain_ok m"
  shows "chain_ok m'"
proof (rule chain_same [OF assms(2)])
  fix d i assume "needs_probe d i m'"
  then obtain dev s where s: "find_sensor d i m' = Some (dev, s)" "s_running s" "s_sched_mode s = Central"
    by (auto simp: needs_probe_def split: option.splits)
  from assms(1) have "view_of wiring m' = view_of wiring m" by (simp add: same_chains_def)
  from same_wiring [OF this s(1)] obtain dev' s' where "find_sensor d i m = Some (dev', s')" "sensor_wire s' = sensor_wire s" .
  with s show "needs_probe d i m" by (simp add: needs_probe_def sensor_wire_def)
qed (use assms(1) in \<open>simp_all add: same_chains_def\<close>)

section \<open>Reassigning\<close>

lemma find_stored:
  "find_sensor d i (store_sensor d dev i s m) = Some (put_sensor i s dev, s)"
  "find_sensor d i (store_sensor_inval d dev i s m) = Some (invalidate_status (put_sensor i s dev), s)"
  by (simp_all add: find_sensor_Some store_sensor_def store_sensor_inval_def put_device_def dict_simps)

lemma bind_stored [simp]:
  "m_bind (store_sensor d dev i s m) = m_bind m" "m_bind (store_sensor_inval d dev i s m) = m_bind m"
  by (simp_all add: store_sensor_def store_sensor_inval_def put_device_def)

lemma home_parts [simp]:
  "d_site (put_sensor i s dev) = d_site dev" "d_probe_id (put_sensor i s dev) = d_probe_id dev"
  "d_site (invalidate_status dev) = d_site dev" "d_probe_id (invalidate_status dev) = d_probe_id dev"
  by (simp_all add: put_sensor_def invalidate_status_def)

lemma eff_pair: "effective_probe (Some dev) (Some s) b = (c, e) \<Longrightarrow> e = eff dev s b"
  by (simp add: eff_def)

lemma agrees_start:
  assumes "find_sensor d i m = Some (dev, s)" "\<not> s_running s"
  shows "agrees (start_sensor x d i t m) d i"
proof -
  obtain b e where be: "effective_probe (Some dev) (Some s) (m_bind m) = (b, e)" by force
  note sites = same_sites_probe' [OF be] and e = eff_pair [OF be]
  let ?s = "s\<lparr> s_running := True, s_stopped := False, s_sched_mode := (if e \<noteq> [] then Remote else Central) \<rparr>"
  have "eff (invalidate_status (put_sensor i ?s dev)) ?s b = e"
    unfolding e by (rule eff_cong [OF sites]) simp_all
  moreover have "find_sensor d i (start_sensor x d i t m) = Some (invalidate_status (put_sensor i ?s dev), ?s)"
    "m_bind (start_sensor x d i t m) = b"
    using assms be by (simp_all add: start_sensor_def Let_def find_stored)
  ultimately show ?thesis by (simp add: agrees_def)
qed

lemma agrees_one: "agrees (apply_one x (d, i) m) d i"
proof (cases "find_sensor d i m")
  case None
  then show ?thesis by (simp add: apply_one_def agrees_def)
next
  case (Some p)
  obtain dev s where p: "p = (dev, s)" by (cases p)
  obtain b e where be: "effective_probe (Some dev) (Some s) (m_bind m) = (b, e)" by force
  note sites = same_sites_probe' [OF be] and e = eff_pair [OF be]
  have stay: "eff dv t b = e" if "home dv = home dev" "c_probe_id (s_cfg t) = c_probe_id (s_cfg s)" for dv t
    unfolding e using that by (intro eff_cong [OF sites]) (simp_all add: home_def)
  let ?mode = "if e \<noteq> [] then Remote else Central"
  consider "?mode = s_sched_mode s" | "?mode \<noteq> s_sched_mode s" "?mode = Remote"
    | "?mode \<noteq> s_sched_mode s" "?mode = Central" "s_running s" | "?mode \<noteq> s_sched_mode s" "?mode = Central" "\<not> s_running s"
    by (cases ?mode) auto
  then show ?thesis
  proof cases
    case 1
    with Some p be stay [of dev s] show ?thesis by (auto simp: apply_one_def agrees_def split: if_splits)
  next
    case 2
    with Some p be show ?thesis
      by (auto simp: apply_one_def agrees_def Let_def find_stored stay home_def split: if_splits)
  next
    case 3
    let ?n = "stop_sensor d i (m\<lparr> m_bind := b \<rparr>)"
    have "\<exists>dv t. find_sensor d i ?n = Some (dv, t) \<and> \<not> s_running t"
      using Some p by (auto simp: stop_sensor_def Let_def find_stored split: prod.splits)
    then have "agrees (start_sensor x d i 0 ?n) d i" using agrees_start by blast
    with 3 Some p be show ?thesis by (auto simp: apply_one_def Let_def split: if_splits)
  next
    case 4
    with Some p be show ?thesis
      by (auto simp: apply_one_def agrees_def Let_def find_stored stay home_def split: if_splits)
  qed
qed

lemma sites_start: "same_sites (m_bind (start_sensor x d i t m)) (m_bind m)"
  by (auto simp: start_sensor_def Let_def dest: same_sites_probe' split: option.splits prod.splits)

lemma sites_stop: "same_sites (m_bind (stop_sensor d i m)) (m_bind m)"
  by (auto simp: stop_sensor_def Let_def dest: same_sites_probe' split: option.splits prod.splits)

lemma sites_one: "same_sites (m_bind (apply_one x k m)) (m_bind m)"
proof -
  have "same_sites (m_bind (start_sensor x d i t (stop_sensor d i (m\<lparr> m_bind := b \<rparr>)))) (m_bind m)"
    if "same_sites b (m_bind m)" for d i t b
    using sites_start [of x d i t "stop_sensor d i (m\<lparr> m_bind := b \<rparr>)"] sites_stop [of d i "m\<lparr> m_bind := b \<rparr>"] that
    by (simp add: same_sites_def)
  then show ?thesis
    by (auto simp: apply_one_def Let_def dest: same_sites_probe' split: option.splits prod.splits)
qed

text \<open>The other sensors of the device.\<close>

definition sensor_at :: "monitor \<Rightarrow> did \<Rightarrow> sid \<Rightarrow> sensor option" where
  "sensor_at m d i = map_option snd (find_sensor d i m)"

lemma at_stored:
  "j \<noteq> i \<Longrightarrow> find_sensor d i m = Some (dev, s0) \<Longrightarrow> sensor_at (store_sensor d dev i s m) d j = sensor_at m d j"
  "j \<noteq> i \<Longrightarrow> find_sensor d i m = Some (dev, s0) \<Longrightarrow> sensor_at (store_sensor_inval d dev i s m) d j = sensor_at m d j"
  by (simp_all add: sensor_at_def find_sensor_def store_sensor_def store_sensor_inval_def put_device_def dict_simps
      option.map_comp comp_def split: option.splits)

lemma at_frame [simp]:
  "sensor_at (m\<lparr> m_bind := b \<rparr>) d j = sensor_at m d j" "sensor_at (m\<lparr> m_sched := h \<rparr>) d j = sensor_at m d j"
  "sensor_at (m\<lparr> m_ready := q \<rparr>) d j = sensor_at m d j" "sensor_at (m\<lparr> m_bumps := bs \<rparr>) d j = sensor_at m d j"
  by (simp_all add: sensor_at_def find_sensor_def)

lemma at_start: "j \<noteq> i \<Longrightarrow> sensor_at (start_sensor x d i t m) d j = sensor_at m d j"
  by (auto simp: start_sensor_def Let_def at_stored split: option.splits prod.splits)

lemma at_stop: "j \<noteq> i \<Longrightarrow> sensor_at (stop_sensor d i m) d j = sensor_at m d j"
  by (auto simp: stop_sensor_def Let_def at_stored split: option.splits prod.splits)

lemma at_one: "j \<noteq> i \<Longrightarrow> sensor_at (apply_one x (d, i) m) d j = sensor_at m d j"
  by (auto simp: apply_one_def Let_def at_stored at_start at_stop split: option.splits prod.splits)

lemma agrees_other:
  assumes "agrees m d j" "j \<noteq> i"
  shows "agrees (apply_one x (d, i) m) d j"
proof (cases "find_sensor d j (apply_one x (d, i) m)")
  case (Some p)
  obtain dev s where p: "p = (dev, s)" by (cases p)
  from at_one [OF assms(2), of x d m] Some p have "sensor_at m d j = Some s" by (simp add: sensor_at_def)
  then obtain dev0 where d0: "find_sensor d j m = Some (dev0, s)" by (auto simp: sensor_at_def)
  have "map_option home (dget (m_devices (apply_one x (d, i) m)) d) = map_option home (dget (m_devices m) d)"
    using homes.assign_one [of x "(d, i)" m] by (simp flip: view_of_dget)
  with Some p d0 have "home dev = home dev0" by (simp add: find_sensor_Some)
  then have "eff dev s (m_bind (apply_one x (d, i) m)) = eff dev0 s (m_bind m)"
    by (intro eff_cong [OF sites_one]) (simp_all add: home_def)
  with assms(1) d0 Some p show ?thesis by (simp add: agrees_def)
qed (simp add: agrees_def)

lemma agrees_fold:
  "\<forall>j. j \<in> J \<longrightarrow> agrees m d j \<Longrightarrow> j \<in> J \<union> set is' \<Longrightarrow> agrees (fold (apply_one x) (map (Pair d) is') m) d j"
proof (induction is' arbitrary: m J)
  case (Cons i is')
  have "\<forall>j. j \<in> insert i J \<longrightarrow> agrees (apply_one x (d, i) m) d j"
    using Cons.prems(1) agrees_one [of x d i m] agrees_other [of m d _ i x] by auto
  from Cons.IH [OF this] Cons.prems(2) show ?case by simp
qed simp

section \<open>Edits of a device\<close>

lemma find_sids: "find_sensor d i m = Some (dev, s) \<Longrightarrow> i \<in> set (sids_of d m)"
  by (auto simp: find_sensor_Some sids_of_def dest: map_of_SomeD intro: rev_image_eqI)

lemma agrees_absent: "i \<notin> set (sids_of d m) \<Longrightarrow> agrees m d i"
  using find_sids by (fastforce simp: agrees_def split: option.splits)

lemma assigned_all: "assigned d m \<longleftrightarrow> (\<forall>i. agrees m d i)"
  using agrees_absent by (auto simp: assigned_def list_all_iff)

lemma at_fold: "i \<notin> set is' \<Longrightarrow> sensor_at (fold (apply_one x) (map (Pair d) is') m) d i = sensor_at m d i"
  by (induction is' arbitrary: m) (simp_all add: at_one)

lemma assign_assigned: "assigned d (apply_probe_assignment x (map (Pair d) (sids_of d m)) m)" (is "assigned d ?m")
  unfolding assigned_all
proof
  fix i
  show "agrees ?m d i"
  proof (cases "i \<in> set (sids_of d m)")
    case True
    then show ?thesis using agrees_fold [of "{}" m d i "sids_of d m" x] by (simp add: apply_probe_assignment_def)
  next
    case False
    then have "sensor_at m d i = None"
      using find_sids [of d i m] by (cases "find_sensor d i m") (auto simp: sensor_at_def)
    with at_fold [OF False, of x d m] show ?thesis
      by (simp add: apply_probe_assignment_def agrees_def sensor_at_def split: option.splits)
  qed
qed

lemma chains_on_dev:
  "(\<And>dev. wiring (g dev) = wiring dev) \<Longrightarrow> same_chains m (rg_mon (on_dev d g r)) = same_chains m (rg_mon r)"
  using view_on_dev [of wiring g d r]
  by (simp add: same_chains_def) (simp add: on_dev_def put_device_def split: option.splits)

lemma wiring_host: "wiring (propagate_device_host h dev) = wiring dev"
  by (auto simp: wiring_def propagate_device_host_def sensor_wire_def split: if_splits)

lemma wiring_fields [simp]:
  "wiring (dev\<lparr> d_group := a \<rparr>) = wiring dev" "wiring (dev\<lparr> d_site := a \<rparr>) = wiring dev"
  "wiring (dev\<lparr> d_probe_id := a \<rparr>) = wiring dev" "wiring (dev\<lparr> d_name := a \<rparr>) = wiring dev"
  "wiring (dev\<lparr> d_webhook_url := a \<rparr>) = wiring dev" "wiring (dev\<lparr> d_alerts_muted := b \<rparr>) = wiring dev"
  "wiring (dev\<lparr> d_parent_device_ids := ps \<rparr>) = wiring dev"
  by (simp_all add: wiring_def)

lemma chains_steps: "same_chains m (rg_mon (fst (run_steps (patch_steps x d p) r))) = same_chains m (rg_mon r)"
proof (rule run_steps_keeps [where P = "\<lambda>r. same_chains m (rg_mon r)"])
  have default: "same_chains m (rg_mon (fst (patch_default x d k v r))) = same_chains m (rg_mon r)" for k v r
    by (simp add: patch_default_def)
  have host: "same_chains m (rg_mon (fst (patch_host d v r))) = same_chains m (rg_mon r)" for v r
    by (simp add: patch_host_def Let_def chains_on_dev wiring_host)
  have second: "same_chains m (rg_mon (fst (patch_secondary d v r))) = same_chains m (rg_mon r)" for v r
    by (simp add: patch_secondary_def split: listing.splits option.splits)
  have parents: "same_chains m (rg_mon (fst (patch_parents d v r))) = same_chains m (rg_mon r)" for v r
    by (simp add: patch_parents_def Let_def chains_on_dev split: option.splits)
  show "list_all (\<lambda>f. \<forall>r. same_chains m (rg_mon (fst (f r))) = same_chains m (rg_mon r)) (patch_steps x d p)"
    by (auto simp: patch_steps_def field_steps_def list_all_iff given_def chains_on_dev default host second parents
        ports_graph split: option.splits)
qed

lemma chain_bumps: "chain_ok (m\<lparr> m_bumps := bs \<rparr>) = chain_ok m" "assigned d (m\<lparr> m_bumps := bs \<rparr>) = assigned d m"
  by (simp_all add: chain_ok_def needs_probe_def has_job_def assigned_all agrees_def find_sensor_def split: option.splits)

lemma patch_homes:
  assumes "snd (patch_device x d p r) = 200" "device_of_id d r = Some old" "device_of_id d (fst (patch_device x d p r)) = Some dev"
  shows "chain_ok (rg_mon r) \<Longrightarrow> chain_ok (rg_mon (fst (patch_device x d p r)))"
    and "home dev \<noteq> home old \<Longrightarrow> assigned d (rg_mon (fst (patch_device x d p r)))"
    and "home dev = home old \<Longrightarrow> same_chains (rg_mon r) (rg_mon (fst (patch_device x d p r)))"
proof -
  from assms(1,2) have known: "\<not> (case dp_probe p of Some v \<Rightarrow> \<not> valid_probe_ref x (strip v) | None \<Rightarrow> False)"
    by (auto simp: patch_device_def split: if_splits option.splits)
  from assms(1,2) known obtain r1 where r1: "run_steps (patch_steps x d p) r = (r1, True)"
    by (auto simp: patch_device_def split: prod.splits bool.splits)
  have same: "same_chains (rg_mon r) (rg_mon r1)"
    using chains_steps [of "rg_mon r" x d p r] r1 by (simp add: same_chains_def)
  let ?r2 = "rehome x d old (submit [JSave] r1)"
  have r': "rg_mon (fst (patch_device x d p r)) = rg_mon ?r2"
    using assms(2) known r1 by (auto simp: patch_device_def Let_def split: option.splits)
  with assms(3) have dev: "dget (m_devices (rg_mon ?r2)) d = Some dev" by (simp add: device_of_id_def)
  obtain dev1 where dev1: "device_of_id d r1 = Some dev1"
    using dev by (cases "device_of_id d r1") (simp_all add: rehome_def device_of_id_def)
  then have sids: "map fst (d_sensors dev1) = sids_of d (rg_mon r1)" by (simp add: device_of_id_def sids_of_def)
  let ?moved = "d_site old \<noteq> d_site dev1 \<or> d_probe_id old \<noteq> d_probe_id dev1"
  let ?asg = "apply_probe_assignment (rx_mon x) (map (Pair d) (sids_of d (rg_mon r1))) (rg_mon r1)"
  have stay: "rg_mon ?r2 = rg_mon r1" if "\<not> ?moved" using dev1 that by (simp add: rehome_def device_of_id_def)
  have go: "\<exists>bs. rg_mon ?r2 = ?asg\<lparr> m_bumps := bs \<rparr>" if "?moved"
    using dev1 that by (auto simp: rehome_def device_of_id_def Let_def sids)
  have "home dev = home dev1"
  proof (cases ?moved)
    case True
    with go dev have "dget (m_devices ?asg) d = Some dev" by auto
    then show ?thesis using homes.assign [of "rx_mon x" _ "rg_mon r1"] dev1
      by (metis device_of_id_def option.map(2) option.inject view_of_dget)
  qed (use stay dev dev1 in \<open>simp add: device_of_id_def\<close>)
  then have moved: "?moved \<longleftrightarrow> home dev \<noteq> home old" by (auto simp: home_def)
  show "chain_ok (rg_mon (fst (patch_device x d p r)))" if "chain_ok (rg_mon r)"
    using chains_kept [OF same that] chain_assign [of "rg_mon r1" "rx_mon x"] go stay unfolding r' by (cases ?moved) (auto simp: chain_bumps)
  show "assigned d (rg_mon (fst (patch_device x d p r)))" if "home dev \<noteq> home old"
    using go that assign_assigned [of d "rx_mon x" "rg_mon r1"] unfolding r' moved by (auto simp: chain_bumps)
  show "same_chains (rg_mon r) (rg_mon (fst (patch_device x d p r)))" if "home dev = home old"
    using stay that moved same unfolding r' by auto
qed

section \<open>Bulk moves\<close>

definition relocated :: "string \<Rightarrow> string \<Rightarrow> device \<Rightarrow> device" where
  "relocated g site dev = (if g \<noteq> [] then dev\<lparr> d_group := g \<rparr> else dev)\<lparr> d_site := site \<rparr>"

lemma relocated_idem: "relocated g site (relocated g site dev) = relocated g site dev"
  by (simp add: relocated_def)

lemma move_one: "bulk_move_one g (Some site) d r = on_dev d (relocated g site) r"
  by (simp add: bulk_move_one_def relocated_def [abs_def] Let_def)

lemma dget_on_dev: "device_of_id d (on_dev e g r) = (if d = e then map_option g (device_of_id e r) else device_of_id d r)"
  by (auto simp: on_dev_def device_of_id_def put_device_def dict_simps split: option.splits)

lemma move_all:
  "device_of_id d (fold (bulk_move_one g (Some site)) ds r)
     = map_option (\<lambda>dev. if d \<in> set ds then relocated g site dev else dev) (device_of_id d r)"
  by (induction ds arbitrary: r) (auto simp: move_one dget_on_dev relocated_idem option.map_comp comp_def option.map_ident cong: if_cong)

lemma moves_keep_chains: "same_chains m (rg_mon (fold (bulk_move_one g (Some site)) ds r)) = same_chains m (rg_mon r)"
  by (induction ds arbitrary: r) (simp_all add: move_one chains_on_dev relocated_def wiring_def)

lemma bulk_move_result:
  assumes "snd (bulk_action x user (BMove g (Some site)) dids r) = 200"
  shows "rg_mon (fst (bulk_action x user (BMove g (Some site)) dids r))
    = rg_mon (fold (bulk_move_one (strip g) (Some (strip site))) (filter (\<lambda>d. device_of_id d r \<noteq> None) dids) r)"
  using assms by (auto simp: bulk_action_def split: if_splits)

lemma bulk_move_keeps:
  assumes "find_sensor d i (rg_mon r) = Some (dev, s)" "d \<in> set dids"
    "snd (bulk_action x user (BMove g (Some site)) dids r) = 200"
  defines "m \<equiv> rg_mon (fst (bulk_action x user (BMove g (Some site)) dids r))"
  shows "find_sensor d i m = Some (relocated (strip g) (strip site) dev, s)" "same_chains (rg_mon r) m"
proof -
  from assms(1) have "device_of_id d r = Some dev" by (simp add: find_sensor_Some device_of_id_def)
  with assms(2) have "dget (m_devices m) d = Some (relocated (strip g) (strip site) dev)"
    using move_all [of d "strip g" "strip site" "filter (\<lambda>d. device_of_id d r \<noteq> None) dids" r]
    unfolding m_def bulk_move_result [OF assms(3)] by (simp add: device_of_id_def)
  with assms(1) show "find_sensor d i m = Some (relocated (strip g) (strip site) dev, s)"
    by (simp add: find_sensor_Some relocated_def)
  show "same_chains (rg_mon r) m"
    unfolding m_def bulk_move_result [OF assms(3)] moves_keep_chains by (simp add: same_chains_def)
qed

end
