(* ===== verification/ImportLaws.thy ===== *)
theory ImportLaws
  imports RegistryLaws
begin

text \<open>
  One item of an import: the host it asks for, what the new device changes in the registry, and the
  loops over a list of items.
\<close>

section \<open>Hosts\<close>

lemma lower_char_idem: "lower_char (lower_char c) = lower_char c"
proof (cases "65 \<le> (of_char c :: nat) \<and> (of_char c :: nat) \<le> 90")
  case True
  then have "lower_char c = char_of ((of_char c :: nat) + 32)" "((of_char c :: nat) + 32) < 256"
    by (simp_all add: lower_char_def Let_def)
  then show ?thesis using True by (simp add: lower_char_def Let_def)
qed (auto simp: lower_char_def Let_def)

lemma lower_id: "lower s = s \<longleftrightarrow> (\<forall>c \<in> set s. lower_char c = c)"
  unfolding lower_def by (induction s) auto

lemma lower_lower [simp]: "lower (lower s) = lower s"
  by (simp add: lower_def lower_char_idem)

lemma set_strip: "set (strip s) \<subseteq> set s"
  unfolding strip_def lstrip_def using set_dropWhileD by (fastforce dest: set_dropWhileD)

text \<open>The host an item asks for, \<open>None\<close> when it is refused.\<close>

definition wanted :: "import_item option \<Rightarrow> string option" where
  "wanted io = (case io of None \<Rightarrow> None
     | Some it \<Rightarrow> if item_name it = [] \<or> item_host it = [] then None else validate_host (PText (item_host it)))"

lemma wanted_host:
  assumes "wanted io = Some h"
  shows "h \<noteq> []" "lower h = h"
proof -
  from assms obtain it where it: "validate_host (PText (item_host it)) = Some h"
    by (auto simp: wanted_def split: option.splits if_splits)
  then show "h \<noteq> []" using validate_host_idem by blast
  from it have "h = strip (item_host it)" by (auto simp: validate_host_def Let_def split: if_splits)
  moreover have "set (item_host it) \<subseteq> set (lower (ii_host it))"
    unfolding item_host_def using set_take_subset set_strip by fastforce
  ultimately have "set h \<subseteq> set (lower (ii_host it))" using set_strip by fastforce
  then have "\<forall>c \<in> set h. lower_char c = c" by (auto simp: lower_def lower_char_idem)
  then show "lower h = h" by (simp only: lower_id)
qed

section \<open>A new device\<close>

text \<open>The registry without one device.\<close>

definition but :: "did \<Rightarrow> reg \<Rightarrow> (did, device) dict \<times> (did, dev_extra) dict" where
  "but d r = (filter (\<lambda>p. fst p \<noteq> d) (m_devices (rg_mon r)), filter (\<lambda>p. fst p \<noteq> d) (rg_extra r))"

lemma filter_dput: "filter (\<lambda>p. fst p \<noteq> d) (dput d v m) = filter (\<lambda>p. fst p \<noteq> d) m"
  by (induction m) auto

lemma but_frames [simp]:
  "but d (submit js r) = but d r" "but d (on_dev d f r) = but d r" "but d (on_extra d g r) = but d r"
  "but d (r\<lparr> rg_attrs := a \<rparr>) = but d r"
  by (simp_all add: but_def submit_def on_dev_def on_extra_def put_device_def filter_dput split: option.splits)

lemma but_put: "filter (\<lambda>p. fst p \<noteq> d) (m_devices (put_device d dev m)) = filter (\<lambda>p. fst p \<noteq> d) (m_devices m)"
  by (simp add: put_device_def filter_dput)

lemma but_sensor:
  "filter (\<lambda>p. fst p \<noteq> d) (m_devices (start_sensor x d i t m)) = filter (\<lambda>p. fst p \<noteq> d) (m_devices m)"
  "filter (\<lambda>p. fst p \<noteq> d) (m_devices (fst (add_sensor d h c m))) = filter (\<lambda>p. fst p \<noteq> d) (m_devices m)"
  by (auto simp: start_sensor_def add_sensor_def store_sensor_inval_def Let_def but_put split: option.splits prod.splits)

lemma but_added: "add_sensor d h c m = (m1, i) \<Longrightarrow> filter (\<lambda>p. fst p \<noteq> d) (m_devices m1) = filter (\<lambda>p. fst p \<noteq> d) (m_devices m)"
  using but_sensor(2) [of d h c m] by simp

lemma but_add_one: "but d (fst (add_one x d n sp r)) = but d r"
  by (auto simp: add_one_def but_def Let_def but_sensor dest: but_added split: prod.splits option.splits)

lemma but_create_sensors: "but d (fst (create_sensors x d sps r)) = but d r"
  by (induction x d sps r rule: create_sensors.induct) (auto split: prod.splits, metis but_add_one fst_conv)

lemma but_take: "but d (take_fields it d r) = but d r" "but d (take_external it d r) = but d r" "but d (take_origin it d r) = but d r"
  by (simp_all add: take_fields_def take_external_def take_origin_def Let_def)

lemma view_take:
  assumes "\<And>dev w. f (dev\<lparr> d_webhook_url := w \<rparr>) = f dev"
  shows "view_of f (rg_mon (take_fields it d r)) = view_of f (rg_mon r)"
    "view_of f (rg_mon (take_external it d r)) = view_of f (rg_mon r)"
    "view_of f (rg_mon (take_origin it d r)) = view_of f (rg_mon r)"
proof -
  have frame: "rg_mon (on_extra e g q) = rg_mon q" for e g q by (simp add: on_extra_def)
  have "view_of f (rg_mon (on_dev d (d_webhook_url_update (\<lambda>_. w)) r)) = view_of f (rg_mon r)" for w
    using assms by (auto simp: on_dev_def device_of_id_def intro!: view_of_put split: option.splits)
  then show "view_of f (rg_mon (take_fields it d r)) = view_of f (rg_mon r)"
    by (simp add: take_fields_def Let_def frame)
  show "view_of f (rg_mon (take_external it d r)) = view_of f (rg_mon r)"
    "view_of f (rg_mon (take_origin it d r)) = view_of f (rg_mon r)"
    by (simp_all add: take_external_def take_origin_def frame)
qed

text \<open>The counter of device ids.\<close>

lemma ctr_sensors [simp]:
  "m_did_ctr (put_device d dev m) = m_did_ctr m" "m_did_ctr (start_sensor x d i t m) = m_did_ctr m"
  "m_did_ctr (fst (add_sensor d h c m)) = m_did_ctr m"
  by (auto simp: put_device_def start_sensor_def add_sensor_def store_sensor_inval_def Let_def split: option.splits prod.splits)

lemma ctr_added: "add_sensor d h c m = (m1, i) \<Longrightarrow> m_did_ctr m1 = m_did_ctr m"
  using ctr_sensors(3) [of d h c m] by simp

lemma ctr_add_one: "m_did_ctr (rg_mon (fst (add_one x d n sp r))) = m_did_ctr (rg_mon r)"
  by (auto simp: add_one_def Let_def dest: ctr_added split: prod.splits option.splits)

lemma ctr_create_sensors: "m_did_ctr (rg_mon (fst (create_sensors x d sps r))) = m_did_ctr (rg_mon r)"
  by (induction x d sps r rule: create_sensors.induct) (auto split: prod.splits, metis ctr_add_one fst_conv)

lemma ctr_frames [simp]:
  "m_did_ctr (rg_mon (on_dev d f r)) = m_did_ctr (rg_mon r)" "rg_mon (on_extra d g r) = rg_mon r" "rg_mon (submit js r) = rg_mon r"
  by (simp_all add: on_dev_def on_extra_def submit_def split: option.splits)

lemma ctr_take:
  "m_did_ctr (rg_mon (take_fields it d r)) = m_did_ctr (rg_mon r)" "rg_mon (take_external it d r) = rg_mon r"
  "rg_mon (take_origin it d r) = rg_mon r"
  by (simp_all add: take_fields_def take_external_def take_origin_def Let_def)

definition dids_ok :: "monitor \<Rightarrow> bool" where
  "dids_ok m \<longleftrightarrow> list_all (\<lambda>d. \<exists>k \<le> m_did_ctr m. d = CHR ''d'' # str_of_nat k) (map fst (m_devices m))"

lemma fresh_did:
  assumes "dids_ok m"
  shows "CHR ''d'' # str_of_nat (m_did_ctr m + 1) \<notin> set (map fst (m_devices m))"
proof
  assume "CHR ''d'' # str_of_nat (m_did_ctr m + 1) \<in> set (map fst (m_devices m))"
  with assms obtain k where "k \<le> m_did_ctr m" "str_of_nat (m_did_ctr m + 1) = str_of_nat k"
    unfolding dids_ok_def list_all_iff by blast
  then show False using str_of_nat_inj [of "m_did_ctr m + 1" k] by simp
qed

lemma snoc_from_filter:
  assumes "filter (\<lambda>p. fst p \<noteq> d) ys = xs" "map fst ys = map fst xs @ [d]" "d \<notin> set (map fst xs)"
  shows "\<exists>v. ys = xs @ [(d, v)]"
proof -
  from assms(2) obtain zs p where ys: "ys = zs @ [p]" by (metis append_is_Nil_conv map_is_Nil_conv not_Cons_self rev_exhaust)
  with assms(2) have z: "map fst zs = map fst xs" "fst p = d" by auto
  with assms(3) have "\<forall>q \<in> set zs. fst q \<noteq> d" by (metis imageE image_eqI image_set)
  then have "filter (\<lambda>q. fst q \<noteq> d) zs = zs" by (simp add: filter_id_conv)
  with assms(1) ys z have "zs = xs" by simp
  with ys z show ?thesis by (cases p) auto
qed

lemma fill_device_keeps:
  "but d (fst (fill_device x o1 it d r)) = but d r"
  "m_did_ctr (rg_mon (fst (fill_device x o1 it d r))) = m_did_ctr (rg_mon r)"
  "view_of d_host (rg_mon (fst (fill_device x o1 it d r))) = view_of d_host (rg_mon r)"
  by (simp_all add: fill_device_def Let_def but_create_sensors but_take ctr_create_sensors ctr_take hosts.create_sensors view_take)

lemma added_device:
  assumes "dids_ok m" "add_device name host grp site m = (m1, d)"
  shows "m_devices m1 = m_devices m @ [(d, new_device d name host grp site)]" "d \<notin> set (map fst (m_devices m))" "dids_ok m1"
proof -
  from assms(2) have d: "d = CHR ''d'' # str_of_nat (m_did_ctr m + 1)"
    and m1: "m1 = put_device d (new_device d name host grp site) (m\<lparr> m_did_ctr := m_did_ctr m + 1 \<rparr>)"
    by (auto simp: add_device_def Let_def)
  show new: "d \<notin> set (map fst (m_devices m))" unfolding d by (rule fresh_did [OF assms(1)])
  have "dput d v xs = xs @ [(d, v)]" if "d \<notin> set (map fst xs)" for v :: device and xs
    using that by (induction xs) auto
  with new show devs: "m_devices m1 = m_devices m @ [(d, new_device d name host grp site)]"
    by (simp add: m1 put_device_def)
  show "dids_ok m1"
    using assms(1) unfolding dids_ok_def list_all_iff devs by (auto simp: m1 d put_device_def intro: le_SucI)
qed

text \<open>What creating one item does: one device at the end, everything else as it was.\<close>

lemma create_item_result:
  assumes "dids_ok (rg_mon r)" "create_item x o1 name host grp site it r = (r', c)"
  obtains d dev sids where "c = (d, host, name, sids)" "m_devices (rg_mon r') = m_devices (rg_mon r) @ [(d, dev)]"
    "d_host dev = host" "filter (\<lambda>p. fst p \<noteq> d) (rg_extra r') = filter (\<lambda>p. fst p \<noteq> d) (rg_extra r)"
    "d \<notin> set (map fst (m_devices (rg_mon r)))" "dids_ok (rg_mon r')"
proof -
  obtain m d where md: "add_device name host grp site (rg_mon r) = (m, d)" by force
  let ?r1 = "r\<lparr> rg_mon := m, rg_extra := dput d new_extra (rg_extra r) \<rparr>"
  obtain r2 sids where r2: "fill_device x o1 it d ?r1 = (r2, sids)" by force
  from assms(2) md r2 have c: "c = (d, host, name, sids)" and r': "r' = submit [JIpam (WDeviceAdd d name host)] r2"
    by (auto simp: create_item_def)
  note new = added_device [OF assms(1) md]
  have but: "but d r2 = but d ?r1" and ctr: "m_did_ctr (rg_mon r2) = m_did_ctr m"
    and view: "view_of d_host (rg_mon r2) = view_of d_host m"
    using fill_device_keeps(1) [of d x o1 it ?r1] fill_device_keeps(2,3) [of x o1 it d ?r1] r2 by simp_all
  have keys: "map fst (m_devices (rg_mon r2)) = map fst (m_devices (rg_mon r)) @ [d]"
    using view_of_keys [of d_host "rg_mon r2"] view_of_keys [of d_host m] view new(1) by simp
  have old: "filter (\<lambda>p. fst p \<noteq> d) (m_devices (rg_mon r2)) = m_devices (rg_mon r)"
    using but new(1,2) by (force simp: but_def filter_id_conv)
  obtain dev where dev: "m_devices (rg_mon r2) = m_devices (rg_mon r) @ [(d, dev)]"
    using snoc_from_filter [OF old keys new(2)] by blast
  have "d_host dev = host"
    using view unfolding view_of_def dev new(1) by (simp add: new_device_def)
  moreover have "dids_ok (rg_mon r2)"
    using new(3) keys ctr new(1) by (simp add: dids_ok_def)
  ultimately show ?thesis
    using that [OF c] dev but new(2) by (simp add: r' but_def filter_dput submit_def)
qed

section \<open>Known hosts\<close>

definition device_hosts :: "(did, dev_extra) dict \<Rightarrow> did \<Rightarrow> device \<Rightarrow> string list" where
  "device_hosts es d dev = (if d_host dev = [] then [] else [lower (d_host dev)])
     @ map lower (filter (\<lambda>s. s \<noteq> []) (dx_secondary (case dget es d of Some e \<Rightarrow> e | None \<Rightarrow> new_extra)))"

lemma snapshot_mem:
  "h \<in> set (snapshot_hosts r) \<longleftrightarrow> (\<exists>d dev. (d, dev) \<in> set (m_devices (rg_mon r)) \<and> h \<in> set (device_hosts (rg_extra r) d dev))"
  unfolding snapshot_hosts_def device_hosts_def extra_of_def by auto

lemma dget_but: "e \<noteq> d \<Longrightarrow> dget (filter (\<lambda>p. fst p \<noteq> d) xs) e = dget xs e"
  by (induction xs) auto

lemma snapshot_grows:
  assumes "m_devices (rg_mon r') = m_devices (rg_mon r) @ [(d, dev)]" "d \<notin> set (map fst (m_devices (rg_mon r)))"
    "filter (\<lambda>p. fst p \<noteq> d) (rg_extra r') = filter (\<lambda>p. fst p \<noteq> d) (rg_extra r)"
    "d_host dev = h" "h \<noteq> []" "lower h = h"
  shows "insert h (set (snapshot_hosts r)) \<subseteq> set (snapshot_hosts r')"
proof
  fix g assume "g \<in> insert h (set (snapshot_hosts r))"
  then consider "g = h" | e dv where "(e, dv) \<in> set (m_devices (rg_mon r))" "g \<in> set (device_hosts (rg_extra r) e dv)"
    by (auto simp: snapshot_mem)
  then show "g \<in> set (snapshot_hosts r')"
  proof cases
    case 1
    with assms(1,4-6) show ?thesis
      unfolding snapshot_mem by (intro exI [of _ d] exI [of _ dev]) (simp add: device_hosts_def)
  next
    case (2 e dv)
    with assms(2) have "e \<noteq> d" by force
    then have "dget (rg_extra r') e = dget (rg_extra r) e" using assms(3) dget_but by metis
    with 2 assms(1) show ?thesis
      unfolding snapshot_mem by (intro exI [of _ e] exI [of _ dv]) (simp add: device_hosts_def)
  qed
qed

section \<open>The loop that only adds\<close>

lemma step_cases:
  assumes "create_step x g (k, io) (r, known, res) = (r', known', res')"
  obtains "r' = r" "known' = known" "ir_created res' = ir_created res" "\<And>h. wanted io = Some h \<Longrightarrow> h \<in> set known"
  | h it grp site c where "wanted io = Some h" "h \<notin> set known"
      "create_item x True (item_name it) h grp site it r = (r', c)" "known' = known @ [h]" "ir_created res' = ir_created res @ [c]"
proof (cases "wanted io")
  case None
  then have "r' = r \<and> known' = known \<and> ir_created res' = ir_created res"
    using assms by (auto simp: create_step_def wanted_def refuse_def split: option.splits if_splits)
  with None that(1) show ?thesis by simp
next
  case (Some h)
  then obtain it where it: "io = Some it" "item_name it \<noteq> []" "item_host it \<noteq> []" "validate_host (PText (item_host it)) = Some h"
    by (auto simp: wanted_def split: option.splits if_splits)
  show ?thesis
  proof (cases "h \<in> set known")
    case True
    with assms it have "r' = r \<and> known' = known \<and> ir_created res' = ir_created res"
      by (auto simp: create_step_def refuse_def)
    with True Some that(1) show ?thesis by simp
  next
    case False
    obtain r1 c where c: "create_item x True (item_name it) h (item_group g it) (take 80 (strip (ii_site it))) it r = (r1, c)"
      by (metis surj_pair)
    with assms it False have "r' = r1 \<and> known' = known @ [h] \<and> ir_created res' = ir_created res @ [c]"
      by (auto simp: create_step_def)
    with c Some False that(2) show ?thesis by blast
  qed
qed

definition made :: "import_result \<Rightarrow> (did \<times> string) list" where
  "made res = map (\<lambda>(d, h, n, sids). (d, h)) (ir_created res)"

definition added_only :: "reg \<Rightarrow> reg \<times> string list \<times> import_result \<Rightarrow> bool" where
  "added_only r0 = (\<lambda>(r, known, res).
     dids_ok (rg_mon r) \<and> set known \<subseteq> set (snapshot_hosts r) \<and> set (snapshot_hosts r0) \<subseteq> set known
     \<and> (\<exists>new. m_devices (rg_mon r) = m_devices (rg_mon r0) @ new \<and> map (\<lambda>(d, dev). (d, d_host dev)) new = made res)
     \<and> snd ` set (made res) \<subseteq> set known \<and> distinct (map snd (made res))
     \<and> snd ` set (made res) \<inter> set (snapshot_hosts r0) = {})"

lemma added_only_step:
  assumes "added_only r0 st"
  shows "added_only r0 (create_step x g ki st)"
proof -
  obtain k io r known res where ki: "ki = (k, io)" and st: "st = (r, known, res)" by (metis prod_cases3 surj_pair)
  obtain r' known' res' where step: "create_step x g (k, io) (r, known, res) = (r', known', res')" by (metis prod_cases3)
  from step show ?thesis
  proof (cases rule: step_cases)
    case 1
    with assms step show ?thesis unfolding ki st by (simp add: added_only_def made_def)
  next
    case (2 h it grp site c)
    from assms have ok: "dids_ok (rg_mon r)" unfolding st by (simp add: added_only_def)
    obtain d dev sids where c: "c = (d, h, item_name it, sids)" and devs: "m_devices (rg_mon r') = m_devices (rg_mon r) @ [(d, dev)]"
      and h: "d_host dev = h" and ex: "filter (\<lambda>p. fst p \<noteq> d) (rg_extra r') = filter (\<lambda>p. fst p \<noteq> d) (rg_extra r)"
      and d: "d \<notin> set (map fst (m_devices (rg_mon r)))" and ok': "dids_ok (rg_mon r')"
      by (rule create_item_result [OF ok 2(3)])
    have grow: "insert h (set (snapshot_hosts r)) \<subseteq> set (snapshot_hosts r')"
      by (rule snapshot_grows [OF devs d ex h wanted_host [OF 2(1)]])
    have made': "made res' = made res @ [(d, h)]" using 2(5) c by (simp add: made_def)
    from assms obtain new where new: "m_devices (rg_mon r) = m_devices (rg_mon r0) @ new"
      "map (\<lambda>(d, dev). (d, d_host dev)) new = made res" unfolding st by (auto simp: added_only_def)
    then have "\<exists>new. m_devices (rg_mon r') = m_devices (rg_mon r0) @ new \<and> map (\<lambda>(d, dev). (d, d_host dev)) new = made res'"
      using devs h made' by (intro exI [of _ "new @ [(d, dev)]"]) simp
    with assms grow ok' 2(2,4) made' step show ?thesis
      unfolding ki st by (auto simp: added_only_def)
  qed
qed

lemma added_only_loop: "added_only r0 st \<Longrightarrow> added_only r0 (fold (create_step x g) kis st)"
  by (rule fold_keeps) (auto intro: added_only_step)

text \<open>Afterwards every host that was asked for is known, and a list of known hosts adds nothing.\<close>

lemma known_grows: "set (fst (snd st)) \<subseteq> set (fst (snd (create_step x g ki st)))"
proof -
  obtain k io r known res where ki: "ki = (k, io)" and st: "st = (r, known, res)" by (metis prod_cases3 surj_pair)
  obtain r' known' res' where step: "create_step x g (k, io) (r, known, res) = (r', known', res')" by (metis prod_cases3)
  from step show ?thesis by (cases rule: step_cases) (use step in \<open>auto simp: ki st\<close>)
qed

lemma known_loop: "set (fst (snd st)) \<subseteq> set (fst (snd (fold (create_step x g) kis st)))"
proof (induction kis arbitrary: st)
  case (Cons ki kis)
  show ?case
    using order_trans [OF known_grows [of st x g ki] Cons.IH] by simp
qed simp

lemma wanted_known:
  "(k, io) \<in> set kis \<Longrightarrow> wanted io = Some h \<Longrightarrow> h \<in> set (fst (snd (fold (create_step x g) kis st)))"
proof (induction kis arbitrary: st)
  case (Cons ki kis)
  show ?case
  proof (cases "ki = (k, io)")
    case True
    obtain r known res where st: "st = (r, known, res)" by (metis prod_cases3)
    obtain r' known' res' where step: "create_step x g (k, io) (r, known, res) = (r', known', res')" by (metis prod_cases3)
    from step have "h \<in> set known'" by (cases rule: step_cases) (use Cons.prems(2) in auto)
    with known_loop [of "(r', known', res')" x g kis] show ?thesis by (auto simp: True st step)
  next
    case False
    with Cons show ?thesis by simp
  qed
qed simp

lemma known_adds_nothing:
  assumes "\<And>k io h. (k, io) \<in> set kis \<Longrightarrow> wanted io = Some h \<Longrightarrow> h \<in> set known"
  shows "\<exists>res'. fold (create_step x g) kis (r, known, res) = (r, known, res') \<and> ir_created res' = ir_created res"
  using assms
proof (induction kis arbitrary: res)
  case (Cons ki kis)
  obtain k io where ki: "ki = (k, io)" by force
  obtain r' known' res' where step: "create_step x g (k, io) (r, known, res) = (r', known', res')" by (metis prod_cases3)
  from step have "r' = r \<and> known' = known \<and> ir_created res' = ir_created res"
    by (cases rule: step_cases) (use Cons.prems [of k io] ki in auto)
  with step Cons.IH [of res'] Cons.prems show ?case by (auto simp: ki)
qed simp

section \<open>The loop that reconciles\<close>

definition device_ids :: "reg \<Rightarrow> did set" where
  "device_ids r = set (map fst (m_devices (rg_mon r)))"

lemma ids_by_view: "view_of (\<lambda>dev. ()) (rg_mon r) = view_of (\<lambda>dev. ()) (rg_mon r') \<Longrightarrow> device_ids r = device_ids r'"
  unfolding device_ids_def by (metis view_of_keys)

lemma ids_update:
  assumes "update_device d name host grp it r = Some (r', changed)"
  shows "device_ids r' = device_ids r"
proof (rule ids_by_view)
  have ext: "rg_mon (on_extra e g q) = rg_mon q" for e g q by (simp add: on_extra_def)
  have dev: "view_of (\<lambda>dev. ()) (rg_mon (on_dev e g q)) = view_of (\<lambda>dev. ()) (rg_mon q)" for e g q
    by (auto simp: on_dev_def device_of_id_def intro!: view_of_put split: option.splits)
  show "view_of (\<lambda>dev. ()) (rg_mon r') = view_of (\<lambda>dev. ()) (rg_mon r)"
    using assms by (auto simp: update_device_def Let_def view_take ext dev split: option.splits)
qed

lemma ids_dput: "set (map fst m) \<subseteq> set (map fst (dput k v m))"
  by (induction m) auto

lemma ids_create:
  assumes "create_item x o1 name host grp site it r = (r', c)"
  shows "device_ids r \<subseteq> device_ids r'"
proof -
  obtain m d where md: "add_device name host grp site (rg_mon r) = (m, d)" by force
  let ?r1 = "r\<lparr> rg_mon := m, rg_extra := dput d new_extra (rg_extra r) \<rparr>"
  obtain r2 sids where r2: "fill_device x o1 it d ?r1 = (r2, sids)" by force
  have "view_of (\<lambda>dev. ()) (rg_mon (fst (fill_device x o1 it d ?r1))) = view_of (\<lambda>dev. ()) (rg_mon ?r1)"
    by (simp add: fill_device_def Let_def exists.create_sensors view_take)
  with r2 have "device_ids r2 = device_ids ?r1" by (intro ids_by_view) simp
  moreover from md have "device_ids r \<subseteq> device_ids ?r1"
    using ids_dput by (force simp: device_ids_def add_device_def Let_def put_device_def simp del: set_map)
  moreover have "r' = submit [JIpam (WDeviceAdd d name host)] r2" using assms md r2 by (auto simp: create_item_def)
  ultimately show ?thesis by (simp add: device_ids_def submit_def)
qed

definition deletes_nothing :: "reg \<Rightarrow> reg \<times> import_result \<Rightarrow> bool" where
  "deletes_nothing r0 = (\<lambda>(r, res). device_ids r0 \<subseteq> device_ids r \<and> ir_deleted res = [] \<and> ir_skipped res = [])"

lemma reconcile_step_keeps:
  assumes "deletes_nothing r0 st"
  shows "deletes_nothing r0 (reconcile_step x g start ki st)"
proof -
  obtain k io r res where ki: "ki = (k, io)" and st: "st = (r, res)" by (metis surj_pair)
  have merge: "device_ids r2 = device_ids r1" if "merge_sensors x d names sps r1 = (r2, ad, up)" for d names sps r1 r2 ad up
    using ids_by_view exists.merge [of x d names sps r1] that by (metis fst_conv)
  have "device_ids r \<subseteq> device_ids (fst (reconcile_step x g start ki st))
      \<and> ir_deleted (snd (reconcile_step x g start ki st)) = ir_deleted res
      \<and> ir_skipped (snd (reconcile_step x g start ki st)) = ir_skipped res"
    unfolding ki st by (auto simp: reconcile_step_def refuse_def split: option.splits prod.splits
        dest!: merge ids_update ids_create)
  with assms show ?thesis unfolding st by (auto simp: deletes_nothing_def split: prod.splits)
qed

lemma skip_orphans: "fold delete_orphan os res = res\<lparr> ir_skipped := ir_skipped res @ map (\<lambda>p. (snd p, ''delete crashed'')) os \<rparr>"
  by (induction os arbitrary: res) (simp_all add: delete_orphan_def)

section \<open>Updating a sensor\<close>

lemma find_put_inval: "find_sensor d i (store_sensor_inval d dev i s m) = Some (invalidate_status (put_sensor i s dev), s)"
  by (simp add: find_sensor_Some store_sensor_inval_def put_device_def dict_simps)

lemma cfg_start:
  "find_sensor d i m = Some (dev, s) \<Longrightarrow> \<exists>dv t. find_sensor d i (start_sensor x d i u m) = Some (dv, t) \<and> s_cfg t = s_cfg s"
  by (simp add: start_sensor_def Let_def find_put_inval split: prod.split)

lemma update_sensor_cfg:
  assumes "find_sensor d i m = Some (dev, s)"
  shows "\<exists>dv t. find_sensor d i (fst (update_sensor x d i es m)) = Some (dv, t) \<and> s_cfg t = fold (apply_edit (d_host dev)) es (s_cfg s)"
proof -
  let ?s0 = "s\<lparr> s_running := False, s_stopped := False \<rparr>"
  let ?dev0 = "invalidate_status (put_sensor i ?s0 dev)"
  have started: "find_sensor d i (update_begin d i m) = Some (?dev0, ?s0)"
    using assms by (simp add: update_begin_def find_put_inval)
  have host: "d_host ?dev0 = d_host dev" by (simp add: invalidate_status_def put_sensor_def)
  have cfg: "s_cfg (edit_sensor x h es ?s0) = fold (apply_edit h) es (s_cfg s)" for h
    by (simp add: edit_sensor_def Let_def)
  let ?m = "store_sensor_inval d ?dev0 i (edit_sensor x (d_host dev) es ?s0) (update_begin d i m)"
  have stored: "find_sensor d i ?m = Some (invalidate_status (put_sensor i (edit_sensor x (d_host dev) es ?s0) ?dev0), edit_sensor x (d_host dev) es ?s0)"
    by (rule find_put_inval)
  have "fst (update_sensor x d i es m) = (if s_running s then start_sensor x d i 0 ?m else ?m)"
    using assms started by (simp add: update_sensor_def update_apply_def Let_def host)
  then show ?thesis using cfg_start [OF stored, of x 0] stored cfg by (cases "s_running s") simp_all
qed

lemma update_one_cfg:
  assumes "find_sensor d i (rg_mon r) = Some (dev, s)"
  shows "\<exists>dv t. find_sensor d i (rg_mon (update_one x d i kw r)) = Some (dv, t) \<and> s_cfg t = fold (apply_edit (d_host dev)) (edits_of kw) (s_cfg s)"
    "attrs_of d i (update_one x d i kw r) = fold (\<lambda>(k, v). dput k v) kw (attrs_of d i r)"
proof -
  obtain m where m: "update_sensor (rx_mon x) d i (edits_of kw) (rg_mon r) = (m, True)"
    using assms by (simp add: update_sensor_def)
  with update_sensor_cfg [OF assms, of "rx_mon x" "edits_of kw"]
  show "\<exists>dv t. find_sensor d i (rg_mon (update_one x d i kw r)) = Some (dv, t) \<and> s_cfg t = fold (apply_edit (d_host dev)) (edits_of kw) (s_cfg s)"
    by (simp add: update_one_def)
  show "attrs_of d i (update_one x d i kw r) = fold (\<lambda>(k, v). dput k v) kw (attrs_of d i r)"
    using m by (simp add: update_one_def attrs_of_def dict_simps)
qed

section \<open>What an import leaves alone\<close>

text \<open>An operation on one device: nothing of the others changes, the device and its sensors stay.\<close>

definition grown :: "did \<Rightarrow> reg \<Rightarrow> reg \<Rightarrow> bool" where
  "grown d r r' \<longleftrightarrow> (\<forall>dev. device_of_id d r = Some dev \<longrightarrow>
     (\<exists>dev'. device_of_id d r' = Some dev' \<and> set (map fst (d_sensors dev)) \<subseteq> set (map fst (d_sensors dev'))))"

lemma grown_refl [simp]: "grown d r r"
  by (simp add: grown_def)

lemma grown_trans: "grown d r r' \<Longrightarrow> grown d r' r'' \<Longrightarrow> grown d r r''"
  unfolding grown_def by (meson subset_trans)

lemma grown_same: "device_of_id d r' = device_of_id d r \<Longrightarrow> grown d r r'"
  by (simp add: grown_def)

lemma but_others:
  assumes "but d r' = but d r" "e \<noteq> d"
  shows "device_of_id e r' = device_of_id e r" "extra_of e r' = extra_of e r"
proof -
  have "dget (m_devices (rg_mon r')) e = dget (m_devices (rg_mon r)) e" "dget (rg_extra r') e = dget (rg_extra r) e"
    using assms dget_but [of e d] unfolding but_def by (metis prod.inject)+
  then show "device_of_id e r' = device_of_id e r" "extra_of e r' = extra_of e r"
    by (simp_all add: device_of_id_def extra_of_def)
qed

definition grown_mon :: "did \<Rightarrow> monitor \<Rightarrow> monitor \<Rightarrow> bool" where
  "grown_mon d m m' \<longleftrightarrow> (\<forall>dev. dget (m_devices m) d = Some dev \<longrightarrow>
     (\<exists>dev'. dget (m_devices m') d = Some dev' \<and> set (map fst (d_sensors dev)) \<subseteq> set (map fst (d_sensors dev'))))"

lemma grown_put_sensor: "set (map fst (d_sensors dev)) \<subseteq> set (map fst (d_sensors (put_sensor i s dev)))"
  using ids_dput by (simp add: put_sensor_def)

lemma grown_store: "dget (m_devices m) d = Some dev \<Longrightarrow> grown_mon d m (store_sensor_inval d dev i s (m\<lparr> m_bind := b \<rparr>))"
  "dget (m_devices m) d = Some dev \<Longrightarrow> grown_mon d m (store_sensor_inval d dev i s m)"
  using grown_put_sensor [of dev i s]
  by (simp_all add: grown_mon_def store_sensor_inval_def put_device_def dict_simps invalidate_status_def)

lemma grown_frame [simp]:
  "grown_mon d m (m'\<lparr> m_bumps := bs \<rparr>) = grown_mon d m m'" "grown_mon d m (m'\<lparr> m_sched := h \<rparr>) = grown_mon d m m'"
  "grown_mon d m (m'\<lparr> m_ready := q \<rparr>) = grown_mon d m m'" "grown_mon d m m"
  by (simp_all add: grown_mon_def)

lemma grown_mon_trans: "grown_mon d m m' \<Longrightarrow> grown_mon d m' m'' \<Longrightarrow> grown_mon d m m''"
  unfolding grown_mon_def by (meson subset_trans)

lemma grown_start: "grown_mon d m (start_sensor x d i t m)"
  by (auto simp: start_sensor_def Let_def find_sensor_Some grown_store split: option.splits prod.splits)

lemma grown_update: "grown_mon d m (fst (update_sensor x d i es m))"
proof (cases "find_sensor d i m")
  case (Some p)
  obtain dev s where p: "p = (dev, s)" by (cases p)
  have b: "grown_mon d m (update_begin d i m)" for m
    by (auto simp: update_begin_def find_sensor_Some grown_store split: option.splits)
  have a: "grown_mon d m (update_apply x d i es w m)" for m w
    by (auto simp: update_apply_def Let_def find_sensor_Some grown_store
        intro: grown_mon_trans [OF grown_store(2) grown_start] split: option.splits)
  show ?thesis using Some p grown_mon_trans [OF b a] by (simp add: update_sensor_def)
qed (simp add: update_sensor_def)

lemma grown_add: "grown_mon d m (fst (add_sensor d h c m))"
  using grown_put_sensor
  by (fastforce simp: add_sensor_def grown_mon_def next_sid_def Let_def put_device_def dict_simps put_sensor_def
      split: option.splits)

lemma grown_reg: "grown_mon d (rg_mon r) (rg_mon r') \<Longrightarrow> grown d r r'"
  by (simp add: grown_mon_def grown_def device_of_id_def)

lemma grown_add_one: "grown d r (fst (add_one x d n sp r))"
proof -
  have s: "grown_mon d m m1" "grown_mon d m (start_sensor y d k 0 m1)" if "add_sensor d h c m = (m1, j)" for h c m m1 j y k
    using grown_add [of d m h c] grown_mon_trans [OF _ grown_start, of d m m1 y k 0] that by simp_all
  show ?thesis
    by (auto simp: add_one_def Let_def dest: s split: prod.splits option.splits intro!: grown_reg)
qed

lemma grown_update_one: "grown d r (update_one x d i kw r)"
proof -
  have s: "grown_mon d m m1" if "update_sensor y d i es m = (m1, w)" for y es m m1 w using grown_update [of d m y i es] that by simp
  show ?thesis by (auto simp: update_one_def intro!: grown_reg s split: prod.splits bool.splits)
qed

lemma but_update: "filter (\<lambda>p. fst p \<noteq> d) (m_devices (fst (update_sensor x d i es m))) = filter (\<lambda>p. fst p \<noteq> d) (m_devices m)"
  by (auto simp: update_sensor_def update_begin_def update_apply_def store_sensor_inval_def Let_def but_put but_sensor
      split: option.splits)

lemma ctr_update: "m_did_ctr (fst (update_sensor x d i es m)) = m_did_ctr m"
  by (auto simp: update_sensor_def update_begin_def update_apply_def store_sensor_inval_def Let_def split: option.splits)

text \<open>One such operation, with the counter of the device ids.\<close>

definition local_to :: "did \<Rightarrow> reg \<Rightarrow> reg \<Rightarrow> bool" where
  "local_to d r r' \<longleftrightarrow> but d r' = but d r \<and> grown d r r' \<and> m_did_ctr (rg_mon r') = m_did_ctr (rg_mon r)
     \<and> device_ids r' = device_ids r"

lemma local_refl [simp]: "local_to d r r"
  by (simp add: local_to_def)

lemma local_trans: "local_to d r r' \<Longrightarrow> local_to d r' r'' \<Longrightarrow> local_to d r r''"
  unfolding local_to_def by (metis grown_trans)

lemma local_add_one: "local_to d r (fst (add_one x d n sp r))"
  using ids_by_view [OF exists.add_one [of x d n sp r]] by (simp add: local_to_def but_add_one grown_add_one ctr_add_one)

lemma local_update_one: "local_to d r (update_one x d i kw r)"
proof -
  have "filter (\<lambda>p. fst p \<noteq> d) (m_devices m1) = filter (\<lambda>p. fst p \<noteq> d) (m_devices m)" "m_did_ctr m1 = m_did_ctr m"
    if "update_sensor y d i es m = (m1, w)" for y es m m1 w
    using but_update [of d y i es m] ctr_update [of y d i es m] that by simp_all
  then have "but d (update_one x d i kw r) = but d r \<and> m_did_ctr (rg_mon (update_one x d i kw r)) = m_did_ctr (rg_mon r)"
    by (simp add: update_one_def but_def split: prod.splits bool.splits)
  then show ?thesis
    using ids_by_view [OF exists.update_one [of x d i kw r]] by (simp add: local_to_def grown_update_one)
qed

lemma local_merge: "local_to d r (fst (merge_sensors x d names sps r))"
proof (induction x d names sps r rule: merge_sensors.induct)
  case (3 x d names sp sps r)
  show ?case
  proof (cases "take 255 (strip (sp_name sp)) = []")
    case True
    then show ?thesis using "3.IH"(1) by simp
  next
    case named: False
    show ?thesis
    proof (cases "dget names (lower (take 255 (strip (sp_name sp))))")
      case None
      have f: "fst (case z of (r2, ad, up) \<Rightarrow> (r2, h ad, up)) = fst z" for z :: "reg \<times> string list \<times> string list" and h
        by (cases z) auto
      obtain r1 i where a: "add_one x d (take 255 (strip (sp_name sp))) sp r = (r1, i)" by force
      from local_add_one [of d r x "take 255 (strip (sp_name sp))" sp] a have "local_to d r r1" by simp
      from local_trans [OF this "3.IH"(2) [OF refl named None a [symmetric]]] a None named
      show ?thesis by (simp add: Let_def f)
    next
      case (Some i)
      have f: "fst (case z of (r2, ad, up) \<Rightarrow> (r2, ad, h up)) = fst z" for z :: "reg \<times> string list \<times> string list" and h
        by (cases z) auto
      from local_trans [OF local_update_one "3.IH"(3) [OF refl named Some]] Some named
      show ?thesis by (simp add: Let_def f)
    qed
  qed
qed simp_all

lemma local_on_dev: "(\<And>dv. set (map fst (d_sensors dv)) \<subseteq> set (map fst (d_sensors (g dv)))) \<Longrightarrow> local_to d r (on_dev d g r)"
proof -
  assume g: "\<And>dv. set (map fst (d_sensors dv)) \<subseteq> set (map fst (d_sensors (g dv)))"
  have "device_ids (on_dev d g r) = device_ids r"
    by (rule ids_by_view) (auto simp: on_dev_def device_of_id_def intro!: view_of_put split: option.splits)
  moreover have "grown d r (on_dev d g r)"
    using g by (auto simp: grown_def on_dev_def device_of_id_def put_device_def dict_simps)
  ultimately show ?thesis by (simp add: local_to_def)
qed

lemma local_on_extra: "local_to d r (on_extra d g r)"
  by (simp add: local_to_def device_ids_def grown_def device_of_id_def)

lemma local_update:
  assumes "update_device d name host grp it r = Some (r', changed)"
  shows "local_to d r r'"
proof -
  have dev: "local_to d r (on_dev d g q)" if "local_to d r q" "\<And>dv. d_sensors (g dv) = d_sensors dv" for g q
    by (rule local_trans [OF that(1) local_on_dev]) (simp add: that(2))
  have ext: "local_to d r (on_extra d g q)" if "local_to d r q" for g q by (rule local_trans [OF that local_on_extra])
  show ?thesis
    using assms by (auto simp: update_device_def take_fields_def Let_def intro!: dev ext split: option.splits)
qed

text \<open>What the import keeps of a device of the start: its place, and all of it when no item names it.\<close>

definition spared :: "reg \<Rightarrow> did \<Rightarrow> bool \<Rightarrow> reg \<Rightarrow> bool" where
  "spared r0 d alone r \<longleftrightarrow> dids_ok (rg_mon r) \<and> grown d r0 r
     \<and> (alone \<longrightarrow> device_of_id d r = device_of_id d r0 \<and> extra_of d r = extra_of d r0)"

lemma spared_local:
  assumes "spared r0 d alone r" "local_to e r r'" "alone \<longrightarrow> e \<noteq> d"
  shows "spared r0 d alone r'"
proof -
  have "dids_ok (rg_mon r')"
    using assms(1,2) unfolding spared_def local_to_def device_ids_def dids_ok_def list_all_iff by simp
  moreover have "grown d r r'"
  proof (cases "e = d")
    case False
    then have "device_of_id d r' = device_of_id d r" using assms(2) but_others [of e r' r d] by (simp add: local_to_def)
    then show ?thesis by (rule grown_same)
  qed (use assms(2) in \<open>simp add: local_to_def\<close>)
  ultimately show ?thesis
    using assms but_others [of e r' r d] grown_trans [of d r0 r r'] by (auto simp: spared_def local_to_def)
qed

lemma spared_create:
  assumes "spared r0 d alone r" "create_item x o1 name host grp site it r = (r', c)" "device_of_id d r0 \<noteq> None"
  shows "spared r0 d alone r'"
proof -
  from assms(1) have ok: "dids_ok (rg_mon r)" by (simp add: spared_def)
  obtain e dev where new: "m_devices (rg_mon r') = m_devices (rg_mon r) @ [(e, dev)]"
    "filter (\<lambda>p. fst p \<noteq> e) (rg_extra r') = filter (\<lambda>p. fst p \<noteq> e) (rg_extra r)"
    "e \<notin> set (map fst (m_devices (rg_mon r)))" "dids_ok (rg_mon r')"
    by (rule create_item_result [OF ok assms(2)])
  from assms(1,3) obtain dv where dv: "device_of_id d r = Some dv" by (auto simp: spared_def grown_def)
  then have "d \<in> fst ` set (m_devices (rg_mon r))" by (force simp: device_of_id_def dest: map_of_SomeD)
  with new(3) have de: "d \<noteq> e" by auto
  with new(1) have "device_of_id d r' = device_of_id d r" by (simp add: device_of_id_def map_add_def dv split: option.split)
  moreover have "extra_of d r' = extra_of d r" using new(2) dget_but [OF de] by (metis extra_of_def)
  ultimately show ?thesis
    using assms(1) new(4) grown_same [of d r' r] grown_trans by (auto simp: spared_def)
qed

lemma spared_create_step:
  assumes "spared r0 d alone (fst st)" "device_of_id d r0 \<noteq> None"
  shows "spared r0 d alone (fst (create_step x g ki st))"
proof -
  obtain k io r known res where ki: "ki = (k, io)" and st: "st = (r, known, res)" by (metis prod_cases3 surj_pair)
  obtain r' known' res' where step: "create_step x g (k, io) (r, known, res) = (r', known', res')" by (metis prod_cases3)
  from step show ?thesis
  proof (cases rule: step_cases)
    case 1
    with assms step show ?thesis by (simp add: ki st)
  next
    case (2 h it grp site c)
    from spared_create [OF _ 2(3) assms(2)] assms(1) step show ?thesis by (simp add: ki st)
  qed
qed

lemma reconcile_cases:
  assumes "reconcile_step x g start (k, io) (r, res) = (r', res')"
  obtains "r' = r"
  | it e nm host grp r1 ch nms ad up where "io = Some it" "preview_match start it = Some e"
      "update_device e nm host grp it r = Some (r1, ch)" "merge_sensors x e nms (ii_sensors it) r1 = (r', ad, up)"
  | it nm host grp c where "create_item x False nm host grp [] it r = (r', c)"
proof (cases "r' = r")
  case False
  then obtain it host where it: "io = Some it" "item_name it \<noteq> []" "item_host it \<noteq> []" "validate_host (PText (item_host it)) = Some host"
    using assms by (auto simp: reconcile_step_def refuse_def split: option.splits if_splits)
  show thesis
  proof (cases "preview_match start it")
    case None
    obtain r1 c where c: "create_item x False (item_name it) host (item_group g it) [] it r = (r1, c)" by (metis surj_pair)
    with assms it None that(3) show thesis by (simp add: reconcile_step_def)
  next
    case (Some e)
    with assms it False obtain r1 ch where u: "update_device e (item_name it) host (item_group g it) it r = Some (r1, ch)"
      by (auto simp: reconcile_step_def refuse_def split: option.splits)
    obtain r2 ad up where m: "merge_sensors x e (sensors_by_name e r1) (ii_sensors it) r1 = (r2, ad, up)" by (metis prod_cases3)
    with assms it Some u have "r2 = r'" by (simp add: reconcile_step_def)
    with it(1) Some u m that(2) show thesis by blast
  qed
qed (rule that(1))

lemma spared_reconcile_step:
  assumes "spared r0 d alone (fst st)" "device_of_id d r0 \<noteq> None"
    and "\<And>it. snd ki = Some it \<Longrightarrow> alone \<Longrightarrow> preview_match start it \<noteq> Some d"
  shows "spared r0 d alone (fst (reconcile_step x g start ki st))"
proof -
  obtain k io r res where ki: "ki = (k, io)" and st: "st = (r, res)" by (metis surj_pair)
  from assms(1) have sp: "spared r0 d alone r" by (simp add: st)
  obtain r' res' where step: "reconcile_step x g start (k, io) (r, res) = (r', res')" by force
  from step show ?thesis
  proof (cases rule: reconcile_cases)
    case 1
    with sp step show ?thesis by (simp add: ki st)
  next
    case (2 it e nm host grp r1 ch nms ad up)
    have e: "alone \<longrightarrow> e \<noteq> d" using assms(3) 2(1,2) by (auto simp: ki)
    from spared_local [OF spared_local [OF sp local_update [OF 2(3)] e] local_merge e, of x nms "ii_sensors it"] 2(4) step
    show ?thesis by (simp add: ki st)
  next
    case (3 it nm host grp c)
    from spared_create [OF sp 3 assms(2)] step show ?thesis by (simp add: ki st)
  qed
qed

lemma enumerated: "(k, io) \<in> set (enumerate n xs) \<Longrightarrow> io \<in> set xs"
  by (auto simp: in_set_enumerate_eq)

lemma spared_import:
  assumes "dids_ok (rg_mon r)" "device_of_id d r \<noteq> None"
    "\<And>it. alone \<Longrightarrow> mode \<noteq> AddOnly \<Longrightarrow> Some it \<in> set items \<Longrightarrow> preview_match r it \<noteq> Some d"
  shows "spared r d alone (fst (reconcile_devices_batch x mode items g r))"
proof -
  have init: "spared r d alone r" using assms(1) by (simp add: spared_def)
  have saved: "spared r d alone (submit js q) = spared r d alone q" for js q
    by (simp add: spared_def grown_def device_of_id_def extra_of_def submit_def)
  have create: "spared r d alone (fst (fold (create_step x g) kis st))" if "spared r d alone (fst st)" for kis st
    using that by (rule fold_keeps [where P = "\<lambda>st. spared r d alone (fst st)"]) (rule spared_create_step [OF _ assms(2)])
  have "spared r d alone (fst (fold (reconcile_step x g r) kis st))"
    if "mode \<noteq> AddOnly" "spared r d alone (fst st)" "snd ` set kis \<subseteq> set items" for kis st
    using that(2,3)
  proof (induction kis arbitrary: st)
    case (Cons ki kis)
    have "spared r d alone (fst (reconcile_step x g r ki st))"
      by (rule spared_reconcile_step [OF Cons.prems(1) assms(2)]) (use Cons.prems(2) assms(3) that(1) in auto)
    with Cons show ?case by simp
  qed simp
  moreover have "snd ` set (enumerate 0 items) \<subseteq> set items" using enumerated by auto
  ultimately have "mode \<noteq> AddOnly \<Longrightarrow> spared r d alone (fst (fold (reconcile_step x g r) (enumerate 0 items) (r, no_result)))"
    using init by simp
  with create [of "(r, snapshot_hosts r, no_result)" "enumerate 0 items"] init
  show ?thesis
    by (auto simp: reconcile_devices_batch_def create_devices_batch_def Let_def saved split: prod.splits)
qed

text \<open>The update of the device leaves its sensors and their arguments alone.\<close>

lemma update_device_sensors:
  assumes "update_device d name host grp it r = Some (r', changed)"
  shows "map_option d_sensors (device_of_id e r') = map_option d_sensors (device_of_id e r)" "rg_attrs r' = rg_attrs r"
    "find_sensor e i (rg_mon r) = Some (dev, s) \<Longrightarrow> \<exists>dv. find_sensor e i (rg_mon r') = Some (dv, s)"
proof -
  have ext: "device_of_id e (on_extra d' h q) = device_of_id e q" "rg_attrs (on_extra d' h q) = rg_attrs q" for d' h q
    by (simp_all add: on_extra_def device_of_id_def)
  have dev: "map_option d_sensors (device_of_id e (on_dev d' h q)) = map_option d_sensors (device_of_id e q)"
    if "\<And>dv. d_sensors (h dv) = d_sensors dv" for d' h q
    using that by (auto simp: on_dev_def device_of_id_def put_device_def dict_simps split: option.splits)
  have att: "rg_attrs (on_dev d' h q) = rg_attrs q" for d' h q by (simp add: on_dev_def split: option.splits)
  show sens: "map_option d_sensors (device_of_id e r') = map_option d_sensors (device_of_id e r)"
    using assms by (auto simp: update_device_def take_fields_def Let_def ext dev split: option.splits)
  show "rg_attrs r' = rg_attrs r"
    using assms by (auto simp: update_device_def take_fields_def Let_def ext att split: option.splits)
  assume "find_sensor e i (rg_mon r) = Some (dev, s)"
  with sens show "\<exists>dv. find_sensor e i (rg_mon r') = Some (dv, s)"
    by (auto simp: find_sensor_Some device_of_id_def)
qed

lemma names_kept:
  "map_option d_sensors (device_of_id d r') = map_option d_sensors (device_of_id d r) \<Longrightarrow> sensors_by_name d r' = sensors_by_name d r"
  by (auto simp: sensors_by_name_def split: option.splits)

end
