(* ===== verification/RegistryTheorems.thy ===== *)
theory RegistryTheorems
  imports AssignLaws ImportLaws Demo
begin

text \<open>
  Properties of the registry routes and of the import. The dependency graph \<open>depends\<close> relates a device
  to every device one of its parent references stands for; \<open>assigned\<close> says that the sensors of a device
  are measured where their effective probe is.
\<close>

section \<open>An installation for the witnesses\<close>

definition demo_route_env :: route_env where
  "demo_route_env = \<lparr> rx_mon = demo_x 1000, rx_known = (\<lambda>v. v = ''p1''), rx_enc = (\<lambda>v. v) \<rparr>"

definition reg_of :: "monitor \<Rightarrow> reg" where
  "reg_of m = \<lparr> rg_mon = m, rg_extra = [], rg_attrs = [], rg_jobs = [], rg_muted = [], rg_suppressed = [] \<rparr>"

definition no_patch :: device_patch where
  "no_patch = \<lparr> dp_group = None, dp_site = None, dp_probe = None, dp_name = None, dp_webhook = None, dp_muted = None,
     dp_defaults = [], dp_host = None, dp_secondary = None, dp_parents = None, dp_ports = None \<rparr>"

text \<open>Two devices at a site that is bound to the agent \<open>p1\<close>; the sensor of the first one is running.\<close>

definition remote_monitor :: monitor where
  "remote_monitor = foldl (\<lambda>m a. exec (demo_x 1000) a m)
     (init_monitor demo_pdb demo_tdb \<lparr> sb_db = [], sb_map = None \<rparr>)
     [OpAddDevice ''core'' ''10.0.0.1'' ''lan'' ''hq'', OpAddSensor ''d1'' [] demo_cfg, OpBindSite ''hq'' ''p1'',
      OpStart ''d1'' ''s1'' 0, OpAddDevice ''edge'' ''10.0.0.2'' ''lan'' ''hq'']"

lemma remote_reachable: "reachable remote_monitor"
  unfolding remote_monitor_def foldl.simps
  by (intro reachable_oper reachable.init) simp_all

lemma remote_ok: "registry_ok remote_monitor" "chain_ok remote_monitor"
  using reachable_ok [OF remote_reachable] by (simp_all add: mon_ok_def)

lemma remote_ids: "dids_ok remote_monitor"
proof -
  have "map fst (m_devices remote_monitor) = [''d1'', ''d2'']" "m_did_ctr remote_monitor = 2" "str_of_nat 1 = ''1''" "str_of_nat 2 = ''2''"
    by code_simp+
  then show ?thesis unfolding dids_ok_def by (auto intro: exI [of _ 1] exI [of _ 2])
qed

lemma remote_no_parents: "depends remote_monitor = {}" "parent_refs remote_monitor = {}"
proof -
  have "list_all (\<lambda>(d, dev). d_parent_device_ids dev = []) (m_devices remote_monitor)" by code_simp
  then show "depends remote_monitor = {}" "parent_refs remote_monitor = {}"
    by (auto simp: depends_def parent_refs_def list_all_iff)
qed

section \<open>Parents\<close>

text \<open>C30: The dependency graph stays acyclic. Whatever an edit of a device contains besides a new group,
  and whether it is accepted or refused half way, an acyclic graph of the devices is acyclic afterwards,
  as long as all parent references together are fewer than the levels the search for cycles visits less
  the eight references of one device.\<close>

theorem parents_stay_acyclic:
  assumes "registry_ok (rg_mon r)" "acyclic (depends (rg_mon r))"
    "card (parent_refs (rg_mon r)) + MAX_PARENT_IDS < MAX_CYCLE_HOPS" "dp_group p = None"
  shows "acyclic (depends (rg_mon (fst (patch_device x d p r))))"
  by (rule patch_acyclic [OF assms(4) registry_ids [OF assms(1)] assms(2,3)])

theorem parents_stay_acyclic_witness:
  "acyclic (depends (rg_mon (fst (patch_device demo_route_env ''d2''
       (no_patch\<lparr> dp_parents := Some (Items [PText ''d1'', PText ''group:dc'']) \<rparr>) (reg_of remote_monitor)))))
   \<and> map_option d_parent_device_ids (device_of_id ''d2'' (fst (patch_device demo_route_env ''d2''
       (no_patch\<lparr> dp_parents := Some (Items [PText ''d1'', PText ''group:dc'']) \<rparr>) (reg_of remote_monitor))))
     = Some [''d1'', ''group:dc'']"
proof
  show "acyclic (depends (rg_mon (fst (patch_device demo_route_env ''d2''
       (no_patch\<lparr> dp_parents := Some (Items [PText ''d1'', PText ''group:dc'']) \<rparr>) (reg_of remote_monitor)))))"
    by (rule parents_stay_acyclic)
      (simp_all add: reg_of_def remote_ok remote_no_parents acyclic_def MAX_PARENT_IDS_def MAX_CYCLE_HOPS_def no_patch_def)
qed code_simp

section \<open>Sites and probes\<close>

text \<open>C31: An edit takes the sensors along. When an edit that changes the site or the probe of a device was
  accepted, each of its sensors is on the agents' side exactly when its effective probe, in the new site
  and with the new probe of the device, is an agent. An edit that changes neither leaves every sensor of
  the device on its side, whether right or wrong. And where no running sensor that the server has to
  probe was without a pending probe, none is afterwards, on any device. The edit is taken to run alone:
  the sections of a reassignment and what may come between them are the subject of \<open>Sections\<close>.\<close>

theorem patch_rehomes_sensors:
  assumes "snd (patch_device x d p r) = 200" "device_of_id d r = Some old"
    "find_sensor d i (rg_mon (fst (patch_device x d p r))) = Some (dev, s)"
  shows "(d_site dev \<noteq> d_site old \<or> d_probe_id dev \<noteq> d_probe_id old \<longrightarrow>
      (s_sched_mode s = Remote \<longleftrightarrow> snd (effective_probe (Some dev) (Some s) (m_bind (rg_mon (fst (patch_device x d p r))))) \<noteq> []))
    \<and> (d_site dev = d_site old \<and> d_probe_id dev = d_probe_id old \<longrightarrow>
      (\<exists>dev0 s0. find_sensor d i (rg_mon r) = Some (dev0, s0) \<and> s_sched_mode s0 = s_sched_mode s \<and> s_running s0 = s_running s))
    \<and> (chain_ok (rg_mon r) \<longrightarrow> chain_ok (rg_mon (fst (patch_device x d p r))))"
proof (intro conjI impI)
  from assms(3) have "device_of_id d (fst (patch_device x d p r)) = Some dev" by (simp add: find_sensor_Some device_of_id_def)
  note kept = patch_homes [OF assms(1,2) this]
  show "s_sched_mode s = Remote \<longleftrightarrow> snd (effective_probe (Some dev) (Some s) (m_bind (rg_mon (fst (patch_device x d p r))))) \<noteq> []"
    if "d_site dev \<noteq> d_site old \<or> d_probe_id dev \<noteq> d_probe_id old"
  proof -
    from that have "agrees (rg_mon (fst (patch_device x d p r))) d i" using kept(2) by (auto simp: home_def assigned_all)
    with assms(3) show ?thesis by (simp add: agrees_def eff_def)
  qed
  show "\<exists>dev0 s0. find_sensor d i (rg_mon r) = Some (dev0, s0) \<and> s_sched_mode s0 = s_sched_mode s \<and> s_running s0 = s_running s"
    if "d_site dev = d_site old \<and> d_probe_id dev = d_probe_id old"
  proof -
    from that kept(3) have v: "view_of wiring (rg_mon (fst (patch_device x d p r))) = view_of wiring (rg_mon r)"
      by (simp add: home_def same_chains_def)
    obtain dev0 s0 where "find_sensor d i (rg_mon r) = Some (dev0, s0)" "sensor_wire s0 = sensor_wire s"
      by (rule same_wiring [OF v assms(3)])
    then show ?thesis by (auto simp: sensor_wire_def)
  qed
  show "chain_ok (rg_mon (fst (patch_device x d p r)))" if "chain_ok (rg_mon r)" using kept(1) that .
qed

theorem patch_rehomes_sensors_witness:
  "case find_sensor ''d1'' ''s1'' (rg_mon (fst (patch_device demo_route_env ''d1'' (no_patch\<lparr> dp_site := Some ''lab'' \<rparr>) (reg_of remote_monitor)))) of
     None \<Rightarrow> False
   | Some (dev, s) \<Rightarrow> d_site dev = ''lab'' \<and> s_sched_mode s = Central \<and> s_running s
       \<and> has_job ''d1'' ''s1'' (rg_mon (fst (patch_device demo_route_env ''d1'' (no_patch\<lparr> dp_site := Some ''lab'' \<rparr>) (reg_of remote_monitor))))"
proof -
  let ?r = "fst (patch_device demo_route_env ''d1'' (no_patch\<lparr> dp_site := Some ''lab'' \<rparr>) (reg_of remote_monitor))"
  have ok: "snd (patch_device demo_route_env ''d1'' (no_patch\<lparr> dp_site := Some ''lab'' \<rparr>) (reg_of remote_monitor)) = 200" by code_simp
  have "map_option d_site (device_of_id ''d1'' (reg_of remote_monitor)) = Some ''hq''" by code_simp
  then obtain old where old: "device_of_id ''d1'' (reg_of remote_monitor) = Some old" "d_site old = ''hq''" by auto
  have "case find_sensor ''d1'' ''s1'' (rg_mon ?r) of None \<Rightarrow> False
    | Some (dev, s) \<Rightarrow> d_site dev = ''lab'' \<and> s_running s \<and> snd (effective_probe (Some dev) (Some s) (m_bind (rg_mon ?r))) = []"
    by code_simp
  then obtain dev s where s: "find_sensor ''d1'' ''s1'' (rg_mon ?r) = Some (dev, s)" "d_site dev = ''lab''" "s_running s"
    "snd (effective_probe (Some dev) (Some s) (m_bind (rg_mon ?r))) = []" by (auto split: option.splits)
  have "chain_ok (rg_mon (reg_of remote_monitor))" by (simp add: reg_of_def remote_ok)
  with patch_rehomes_sensors [OF ok old(1) s(1)] s(2,4) old(2)
  have "s_sched_mode s = Central" "chain_ok (rg_mon ?r)" by (cases "s_sched_mode s"; simp)+
  with s show ?thesis by (auto simp: needs_probe_def intro: chain_okD)
qed

text \<open>C33: A bulk move does not. When a running sensor is on the agents' side because of the site of its
  device, and the device is moved in bulk to a site that no agent serves, the sensor stays where it was:
  its effective probe is the server, it still counts as remote, and it has no pending probe.\<close>

theorem bulk_move_strands_sensor:
  assumes "find_sensor d i (rg_mon r) = Some (dev, s)" "s_sched_mode s = Remote" "\<not> has_job d i (rg_mon r)"
    "c_probe_id (s_cfg s) = []" "d_probe_id dev = []" "snd (site_probe (strip site) (m_bind (rg_mon r))) = []"
    "d \<in> set dids" "snd (bulk_action x user (BMove g (Some site)) dids r) = 200"
  shows "\<exists>dev'. find_sensor d i (rg_mon (fst (bulk_action x user (BMove g (Some site)) dids r))) = Some (dev', s)
    \<and> d_site dev' = strip site
    \<and> snd (effective_probe (Some dev') (Some s) (m_bind (rg_mon (fst (bulk_action x user (BMove g (Some site)) dids r))))) = []
    \<and> \<not> has_job d i (rg_mon (fst (bulk_action x user (BMove g (Some site)) dids r)))"
proof -
  note keep = bulk_move_keeps [OF assms(1,7,8)]
  have "d_site (relocated (strip g) (strip site) dev) = strip site" "d_probe_id (relocated (strip g) (strip site) dev) = []"
    using assms(5) by (simp_all add: relocated_def)
  with keep assms(3,4,6) show ?thesis
    by (intro exI [of _ "relocated (strip g) (strip site) dev"])
      (simp add: same_chains_def has_job_def effective_probe_def)
qed

theorem bulk_move_strands_sensor_witness:
  "case find_sensor ''d1'' ''s1'' (rg_mon (fst (bulk_action demo_route_env ''ops'' (BMove [] (Some ''lab'')) [''d1''] (reg_of remote_monitor)))) of
     None \<Rightarrow> False
   | Some (dev, s) \<Rightarrow> s_running s \<and> s_sched_mode s = Remote \<and> d_site dev = ''lab''
       \<and> \<not> has_job ''d1'' ''s1'' (rg_mon (fst (bulk_action demo_route_env ''ops'' (BMove [] (Some ''lab'')) [''d1''] (reg_of remote_monitor))))"
proof -
  have "case find_sensor ''d1'' ''s1'' (rg_mon (reg_of remote_monitor)) of None \<Rightarrow> False
    | Some (dev, s) \<Rightarrow> s_running s \<and> s_sched_mode s = Remote \<and> c_probe_id (s_cfg s) = [] \<and> d_probe_id dev = []"
    by code_simp
  then obtain dev s where s: "find_sensor ''d1'' ''s1'' (rg_mon (reg_of remote_monitor)) = Some (dev, s)" "s_running s"
    "s_sched_mode s = Remote" "c_probe_id (s_cfg s) = []" "d_probe_id dev = []" by (auto split: option.splits)
  have job: "\<not> has_job ''d1'' ''s1'' (rg_mon (reg_of remote_monitor))"
    unfolding has_job_def by code_simp
  have site: "snd (site_probe (strip ''lab'') (m_bind (rg_mon (reg_of remote_monitor)))) = []" by code_simp
  have ok: "snd (bulk_action demo_route_env ''ops'' (BMove [] (Some ''lab'')) [''d1''] (reg_of remote_monitor)) = 200" by code_simp
  from bulk_move_strands_sensor [OF s(1,3) job s(4,5) site _ ok] s(2,3)
  show ?thesis by (auto simp: strip_def lstrip_def is_space_def)
qed

section \<open>Bulk import\<close>

definition demo_item :: "string \<Rightarrow> string \<Rightarrow> import_item" where
  "demo_item name host = \<lparr> ii_name = name, ii_host = host, ii_group = [], ii_site = [], ii_external = [], ii_webhook = [],
     ii_community = [], ii_version = [], ii_found_at = None, ii_found_cidr = [],
     ii_sensors = [Some \<lparr> sp_name = ''ping'', sp_stype = ''ping'', sp_fields = [] \<rparr>] \<rparr>"

text \<open>C32: An import that only adds does just that. The devices of the registry are untouched and the new
  ones come after them, exactly those it reports; their hosts are different from each other and were
  neither host nor secondary address of any device; and the same list a second time adds nothing and
  changes nothing but for one more save.\<close>

theorem import_adds_each_host_once:
  assumes "dids_ok (rg_mon r)" "create_devices_batch x items g r = (r1, res)"
  shows "(\<exists>new. m_devices (rg_mon r1) = m_devices (rg_mon r) @ new
       \<and> map (\<lambda>(d, dev). (d, d_host dev)) new = map (\<lambda>(d, h, n, sids). (d, h)) (ir_created res))
    \<and> distinct (map (\<lambda>(d, h, n, sids). h) (ir_created res))
    \<and> set (map (\<lambda>(d, h, n, sids). h) (ir_created res)) \<inter> set (snapshot_hosts r) = {}
    \<and> fst (create_devices_batch x items g r1) = submit [JSave] r1
    \<and> ir_created (snd (create_devices_batch x items g r1)) = []"
proof -
  let ?kis = "enumerate 0 items"
  obtain r0 known res0 where loop: "fold (create_step x g) ?kis (r, snapshot_hosts r, no_result) = (r0, known, res0)"
    by (metis prod_cases3)
  with assms(2) have r1: "r1 = submit [JSave] r0" and res: "res = res0" by (auto simp: create_devices_batch_def)
  have "added_only r (r, snapshot_hosts r, no_result)"
    using assms(1) by (simp add: added_only_def made_def no_result_def)
  from added_only_loop [OF this, of x g ?kis] have inv: "added_only r (r0, known, res0)" by (simp add: loop)
  have hosts: "map (\<lambda>(d, h, n, sids). h) (ir_created res) = map snd (made res)"
    by (simp add: made_def case_prod_unfold comp_def)
  have "wanted io = Some h \<Longrightarrow> h \<in> set (snapshot_hosts r1)" if "(k, io) \<in> set ?kis" for k io h
    using wanted_known [OF that, of h x g "(r, snapshot_hosts r, no_result)"] inv
    by (auto simp: loop added_only_def r1 submit_def snapshot_mem)
  then obtain res' where "fold (create_step x g) ?kis (r1, snapshot_hosts r1, no_result) = (r1, snapshot_hosts r1, res')"
    "ir_created res' = ir_created no_result"
    using known_adds_nothing [of ?kis "snapshot_hosts r1" x g r1 no_result] by blast
  then have again: "create_devices_batch x items g r1 = (submit [JSave] r1, res')" "ir_created res' = []"
    by (simp_all add: create_devices_batch_def no_result_def)
  from inv have "\<exists>new. m_devices (rg_mon r1) = m_devices (rg_mon r) @ new \<and> map (\<lambda>(d, dev). (d, d_host dev)) new = made res"
    and "distinct (map snd (made res))" and "set (map snd (made res)) \<inter> set (snapshot_hosts r) = {}"
    by (simp_all add: added_only_def r1 res submit_def)
  with again show ?thesis unfolding hosts made_def [symmetric] by simp
qed

theorem import_adds_each_host_once_witness:
  "map (\<lambda>(d, h, n, sids). (d, h, n, sids)) (ir_created (snd (create_devices_batch demo_route_env
      [Some (demo_item ''a'' ''10.0.0.1''), Some (demo_item ''b'' ''SRV.lan''), None, Some (demo_item ''c'' ''srv.lan'')]
      ''imported'' (reg_of remote_monitor)))) = [(''d3'', ''srv.lan'', ''b'', [''s1''])]
   \<and> ir_created (snd (create_devices_batch demo_route_env
      [Some (demo_item ''a'' ''10.0.0.1''), Some (demo_item ''b'' ''SRV.lan''), None, Some (demo_item ''c'' ''srv.lan'')]
      ''imported'' (fst (create_devices_batch demo_route_env
      [Some (demo_item ''a'' ''10.0.0.1''), Some (demo_item ''b'' ''SRV.lan''), None, Some (demo_item ''c'' ''srv.lan'')]
      ''imported'' (reg_of remote_monitor))))) = []"
proof
  have ok: "dids_ok (rg_mon (reg_of remote_monitor))" by (simp add: reg_of_def remote_ids)
  show "ir_created (snd (create_devices_batch demo_route_env
      [Some (demo_item ''a'' ''10.0.0.1''), Some (demo_item ''b'' ''SRV.lan''), None, Some (demo_item ''c'' ''srv.lan'')]
      ''imported'' (fst (create_devices_batch demo_route_env
      [Some (demo_item ''a'' ''10.0.0.1''), Some (demo_item ''b'' ''SRV.lan''), None, Some (demo_item ''c'' ''srv.lan'')]
      ''imported'' (reg_of remote_monitor))))) = []"
    using import_adds_each_host_once [OF ok prod.collapse [symmetric]] by blast
qed code_simp




text \<open>The mode that replaces deletes nothing either: the method it calls for a device that the list does
  not mention does not exist, and the device is reported as one whose deletion crashed.\<close>

theorem replace_deletes_nothing:
  "set (map fst (m_devices (rg_mon r))) \<subseteq> set (map fst (m_devices (rg_mon (fst (reconcile_devices_batch x Replace items g r)))))
   \<and> ir_deleted (snd (reconcile_devices_batch x Replace items g r)) = []
   \<and> ir_skipped (snd (reconcile_devices_batch x Replace items g r))
     = map (\<lambda>p. (snd p, ''delete crashed'')) (find_orphans items (fst (reconcile_devices_batch x Replace items g r)))"
proof -
  obtain r1 res where loop: "fold (reconcile_step x g r) (enumerate 0 items) (r, no_result) = (r1, res)" by force
  have "deletes_nothing r (r, no_result)" by (simp add: deletes_nothing_def no_result_def)
  then have "deletes_nothing r (fold (reconcile_step x g r) (enumerate 0 items) (r, no_result))"
    by (rule fold_keeps) (rule reconcile_step_keeps)
  then have inv: "device_ids r \<subseteq> device_ids r1" "ir_deleted res = []" "ir_skipped res = []"
    by (simp_all add: loop deletes_nothing_def)
  have "reconcile_devices_batch x Replace items g r = (submit [JSave] r1, fold delete_orphan (find_orphans items r1) res)"
    by (simp add: reconcile_devices_batch_def loop)
  moreover have "find_orphans items (submit [JSave] r1) = find_orphans items r1"
    by (simp add: find_orphans_def submit_def extra_of_def)
  ultimately show ?thesis
    using inv by (simp add: skip_orphans device_ids_def submit_def)
qed

text \<open>C35: An update resets what the file leaves out. When an item names a device and one of its SNMP
  sensors and nothing else, the sensor polls the system uptime with the community \<open>public\<close> afterwards,
  whatever it polled before.\<close>

theorem import_resets_oid:
  assumes "preview_match r it = Some d" "wanted (Some it) = Some h" "ii_sensors it = [Some sp]"
    "take 255 (strip (sp_name sp)) = n" "n \<noteq> []" "lower (strip (sp_stype sp)) = ''snmp''" "sp_fields sp = []"
    "dget (sensors_by_name d r) (lower n) = Some i" "find_sensor d i (rg_mon r) = Some (dev, s)"
  shows "\<exists>dev' s'. find_sensor d i (rg_mon (fst (reconcile_devices_batch x AddUpdate [Some it] g r))) = Some (dev', s')
      \<and> c_snmp_oid (s_cfg s') = ''1.3.6.1.2.1.1.3.0''
      \<and> dget (attrs_of d i (fst (reconcile_devices_batch x AddUpdate [Some it] g r))) ''snmp_community'' = Some (PText ''public'')"
proof -
  have kw: "fst (build_sensor_kwargs sp) = spec_defaults ''snmp''"
    using assms(6,7) by (simp add: build_sensor_kwargs_def ALLOWED_SENSOR_FIELDS_def spec_defaults_def)
  have item: "item_name it \<noteq> []" "item_host it \<noteq> []" "validate_host (PText (item_host it)) = Some h"
    using assms(2) by (auto simp: wanted_def split: if_splits)
  obtain r1 changed where up: "update_device d (item_name it) h (item_group g it) it r = Some (r1, changed)"
    using assms(9) by (auto simp: update_device_def find_sensor_Some device_of_id_def Let_def)
  note kept = update_device_sensors [OF up]
  from kept(3) [OF assms(9)] obtain dv where dv: "find_sensor d i (rg_mon r1) = Some (dv, s)" by blast
  have names: "dget (sensors_by_name d r1) (lower n) = Some i" using assms(8) names_kept [OF kept(1)] by simp
  let ?r2 = "update_one x d i (spec_defaults ''snmp'') r1"
  have r2: "fst (reconcile_devices_batch x AddUpdate [Some it] g r) = submit [JSave] ?r2"
    using assms(1,3,4,5) item up names
    by (simp add: reconcile_devices_batch_def enumerate_eq_zip reconcile_step_def kw)
  from update_one_cfg(1) [OF dv, of x "spec_defaults ''snmp''"] obtain dev' s'
    where s': "find_sensor d i (rg_mon ?r2) = Some (dev', s')"
      "s_cfg s' = fold (apply_edit (d_host dv)) (edits_of (spec_defaults ''snmp'')) (s_cfg s)" by blast
  have "c_snmp_oid (s_cfg s') = ''1.3.6.1.2.1.1.3.0''"
    by (simp add: s'(2) spec_defaults_def edits_of_def)
  moreover have "dget (attrs_of d i ?r2) ''snmp_community'' = Some (PText ''public'')"
    by (simp add: update_one_cfg(2) [OF dv] spec_defaults_def dict_simps)
  ultimately show ?thesis using s'(1) by (simp add: r2 submit_def attrs_of_def)
qed

definition snmp_monitor :: monitor where
  "snmp_monitor = foldl (\<lambda>m a. exec (demo_x 1000) a m)
     (init_monitor demo_pdb demo_tdb \<lparr> sb_db = [], sb_map = None \<rparr>)
     [OpAddDevice ''core'' ''10.0.0.1'' ''lan'' ''hq'',
      OpAddSensor ''d1'' [] (demo_cfg\<lparr> c_name := ''cpu'', c_stype := ''snmp'', c_snmp_oid := ''1.3.6.1.4.1.9.2.1'' \<rparr>)]"

definition cpu_item :: import_item where
  "cpu_item = (demo_item ''core'' ''10.0.0.1'')
     \<lparr> ii_sensors := [Some \<lparr> sp_name = ''CPU'', sp_stype = ''snmp'', sp_fields = [] \<rparr>] \<rparr>"

theorem import_resets_oid_witness:
  "map_option (\<lambda>(dev, s). c_snmp_oid (s_cfg s)) (find_sensor ''d1'' ''s1'' snmp_monitor) = Some ''1.3.6.1.4.1.9.2.1''
   \<and> map_option (\<lambda>(dev, s). c_snmp_oid (s_cfg s)) (find_sensor ''d1'' ''s1''
       (rg_mon (fst (reconcile_devices_batch demo_route_env AddUpdate [Some cpu_item] ''lan'' (reg_of snmp_monitor)))))
     = Some ''1.3.6.1.2.1.1.3.0''"
proof
  show before: "map_option (\<lambda>(dev, s). c_snmp_oid (s_cfg s)) (find_sensor ''d1'' ''s1'' snmp_monitor) = Some ''1.3.6.1.4.1.9.2.1''"
    by code_simp
  then obtain dev s where s: "find_sensor ''d1'' ''s1'' (rg_mon (reg_of snmp_monitor)) = Some (dev, s)"
    by (auto simp: reg_of_def)
  have prem: "preview_match (reg_of snmp_monitor) cpu_item = Some ''d1''" "wanted (Some cpu_item) = Some ''10.0.0.1''"
    "take 255 (strip ''CPU'') = ''CPU''" "lower (strip ''snmp'') = ''snmp''"
    "dget (sensors_by_name ''d1'' (reg_of snmp_monitor)) (lower ''CPU'') = Some ''s1''" by code_simp+
  have "ii_sensors cpu_item = [Some \<lparr> sp_name = ''CPU'', sp_stype = ''snmp'', sp_fields = [] \<rparr>]"
    by (simp add: cpu_item_def)
  from import_resets_oid [OF prem(1,2) this _ _ _ _ prem(5) s] prem(3,4)
  show "map_option (\<lambda>(dev, s). c_snmp_oid (s_cfg s)) (find_sensor ''d1'' ''s1''
       (rg_mon (fst (reconcile_devices_batch demo_route_env AddUpdate [Some cpu_item] ''lan'' (reg_of snmp_monitor)))))
     = Some ''1.3.6.1.2.1.1.3.0''" by fastforce
qed

end
