(* ===== verification/Spec2Isabelle.thy ===== *)
theory Spec2Isabelle
  imports MonitorTheorems AlertTheorems RemoteTheorems AgentTheorems AuthTheorems IpamTheorems
    RegistryTheorems
begin

text \<open>
  PingWatch: a model of the monitoring server, its remote agents, its logins, its address management
  and its device registry, and their correctness.

  \<^bold>\<open>The program.\<close> PingWatch probes the sensors of network devices, turns results into up, down and
  threshold states, and alerts. A scheduler (\<open>core/state.py\<close>) hands due sensors to a pool of threads;
  a run of a sensor probes the network, feeds the result through one monitoring cycle (debounce,
  outage, thresholds, anomaly baseline), writes flap rows, samples and alert events, and asks the
  alert profile engine (\<open>monitoring/alert_profile_engine.py\<close>) which stages of which profiles fire.
  A stage passes the maintenance windows, root-cause suppression and the acknowledgement gate before
  its actions reach the dispatchers, where a batcher groups messages by destination
  (\<open>monitoring/alert_batcher.py\<close>) and a retry queue with a circuit breaker delivers them
  (\<open>monitoring/delivery_retry.py\<close>). Sensors may be assigned to remote agents
  (\<open>core/probe_assign.py\<close>), which enrol, check in, take tasks and updates (\<open>db/probes.py\<close>,
  \<open>routes/agent.py\<close>, \<open>monitoring/probe_watchdog.py\<close>, \<open>monitoring/update_orchestrator.py\<close>). The agent
  keeps its results in a buffer and a spool file until the server has taken them (\<open>agent/agent.py\<close>), and
  its supervisor switches releases, watches a new build and takes it back (\<open>agent/supervisor.py\<close>).
  People log in by password, directory or RADIUS, with a second factor, and are given sessions; programs
  use API tokens (\<open>core/auth.py\<close>, \<open>routes/auth.py\<close>, \<open>server.py\<close>). Subnets and their addresses are kept in
  tables that devices, people and scans write to through a queue (\<open>db/ipam.py\<close>, \<open>routes/ipam.py\<close>).
  Operators create, edit, move and delete devices (\<open>routes/devices.py\<close>) or import lists of them
  (\<open>core/device_importer.py\<close>).

  \<^bold>\<open>Theories and code.\<close>
  \<^item> \<open>Prelude\<close>: time stamps, Python's integer and text conversions, dictionaries in insertion order,
    bounded queues, the shared lemmas. \<open>Json\<close>: the JSON text of a list of strings and its parser.
  \<^item> \<open>Devices\<close>: \<open>Sensor\<close> and \<open>Device\<close> of \<open>core/state.py\<close>: records \<open>sensor_cfg\<close>, \<open>sensor\<close> and \<open>device\<close>,
    the bounded histories, loss and latency, the status of a device and its cache.
  \<^item> \<open>Snmp\<close>, \<open>Typed\<close>: counters and rates, enum legends, categories; the handling of state, uptime and
    text sensors in \<open>_apply_result\<close>.
  \<^item> \<open>Anomaly\<close>: \<open>monitoring/anomaly.py\<close>. \<open>Threshold\<close>: the part of \<open>_apply_result\<close> that computes the
    verdict from static limits, loss, anomaly and certificate.
  \<^item> \<open>Flaps\<close>, \<open>Cycle\<close>: the rows and calls a cycle makes, as the datatype \<open>effect\<close>, and the cycle itself,
    \<open>cycle_body\<close>, in the order of the code: success or failure half, thresholds, transitions.
    \<open>CycleLaws\<close>: what sequences of cycles do.
  \<^item> \<open>Grace\<close>: parking of alerts in the first cycle after start-up and the flush.
    \<open>Scheduler\<close>: the heap of due jobs, tombstones, the drain pass.
  \<^item> \<open>Cascade\<close>: profiles and stages, scope order and the two caches. \<open>AlertStore\<close>: fire history.
    \<open>AlertEvents\<close>: the table \<open>alert_events\<close>. \<open>Maintenance\<close>: windows. \<open>RootCause\<close>: the parent graph,
    suppression and incidents. \<open>AlertEngine\<close>: evaluation and firing; \<open>EngineLaws\<close>: its lemmas.
  \<^item> \<open>Batcher\<close>, \<open>Delivery\<close>: grouping, the queue of retries and the breaker.
  \<^item> \<open>Monitor\<close>: the registry with its operations (\<open>exec\<close>) and the step relation \<open>step\<close>, in which
    \<open>reachable\<close> is every state the program can be in; \<open>MonitorLaws\<close>: the invariants.
  \<^item> \<open>ProbeAssign\<close>, \<open>Probes\<close>, \<open>Rollout\<close>, \<open>RolloutLaws\<close>: agents and update campaigns.
  \<^item> \<open>AgentIngest\<close>: \<open>_process_results\<close> and the check-in handler of \<open>routes/agent.py\<close> over the monitor;
    \<open>AgentSpool\<close>: buffer, spool and batches of \<open>agent/agent.py\<close>; \<open>Supervisor\<close>: \<open>agent/supervisor.py\<close>;
    \<open>ManagedUpdate\<close>: staging of a release. \<open>IngestLaws\<close>, \<open>AgentLaws\<close>, \<open>SupervisorLaws\<close>: their lemmas.
  \<^item> \<open>Accounts\<close>: the rows of users and groups (\<open>db/users.py\<close>, \<open>db/groups.py\<close>) and the password record;
    \<open>Sessions\<close>: sessions, API tokens and challenges of \<open>core/auth.py\<close> with their caches; \<open>Radius\<close>, \<open>Login\<close>:
    the logins and the failure log; \<open>Access\<close>: who a request is, and the routes on accounts. \<open>AuthLaws\<close>,
    \<open>TokenLaws\<close>, \<open>LoginLaws\<close>, \<open>FailLaws\<close>, \<open>ChallengeLaws\<close>: their lemmas.
  \<^item> \<open>Validation\<close>: \<open>core/validation.py\<close>, with JSON values as the datatype \<open>pval\<close>. \<open>Ip\<close>: Python's module
    \<open>ipaddress\<close>, with addresses as words of 32 and 128 bits; \<open>IpLaws\<close>, \<open>Ip6Laws\<close>: texts read back, networks
    are intervals. \<open>Ipam\<close>: tables, routes and the queue of writes; \<open>IpamLaws\<close>, \<open>IpamScan\<close>: its lemmas.
  \<^item> \<open>Registry\<close>: the state the device routes work on, hosts, parents and the search for cycles;
    \<open>DeviceRoutes\<close>: the routes; \<open>Importer\<close>: the import of lists. \<open>RegistryLaws\<close>: views of the devices
    that operations on sensors keep; \<open>ParentLaws\<close>: the dependency graph; \<open>AssignLaws\<close>: where sensors are
    measured after an edit; \<open>ImportLaws\<close>: the loops of the import.
  \<^item> \<open>Demo\<close>: a small installation that the witnesses evaluate. \<open>MonitorTheorems\<close>, \<open>AlertTheorems\<close>,
    \<open>RemoteTheorems\<close>, \<open>AgentTheorems\<close>, \<open>AuthTheorems\<close>, \<open>IpamTheorems\<close>,
    \<open>RegistryTheorems\<close>: the properties with their witnesses.

  \<^bold>\<open>Correspondence.\<close> A Python object is a record, a table the list of its rows in the order of the keys,
  a dictionary an association list in insertion order, an exception or an early return a branch of
  the model. Methods that write to the database or call other parts return a list of effects in the
  order of the calls, and \<open>Monitor\<close> interprets them. A step of \<open>step\<close> is a section of code that
  the program runs under one lock; a run of a sensor is two steps, its start and its end, so that
  stops, edits and removals interleave with the probe in between. A transport and a network probe
  are the results they return.

  \<^bold>\<open>What the lemmas show.\<close> The scheduler: every running local sensor always has a job, is ready or in
  flight; due jobs run in order, cancelled ones never. The cycle: it refines a debounce automaton on
  two counters; outage rows are written once, at the transition; verdicts are the worst of their
  parts; counters wrap at 32 and 64 bits. Alerting: a stage fires when, and only when, its
  conditions hold; a fired stage is silent until its repeat interval; recovery closes events; at
  most one event of a sensor is open; other sensors are untouched; caches never serve a stale
  profile after a write that bumps the version. Root cause: a suppressed device has a failed root
  that is itself reported, and incidents partition the failed devices. Batching and delivery lose
  nothing: what was submitted is waiting, in flight or logged. Agents: tokens are used once, finished
  tasks are final, silence is reported once, a rollout stays within its canary and batch sizes and a
  halt is final; results reach the monitor exactly once; a build that fails its probation or crashes
  in a loop is taken back. Logins: a session needs a login with its second factor, only administrators
  change other accounts, a reset ends sessions, a revoked token dies with its cache entry, guesses
  are limited where the code limits them. Addresses: every row lies in its subnet, devices and scans
  leave the rows of others alone, stored networks read back. Devices: edits of parents keep the
  dependency graph acyclic, an edit takes the sensors to the probe they belong to, an import that only
  adds creates every host once and nothing the second time. Where the code does not keep what it
  means to, a theorem shows that too (the properties of kind error).

  \<^bold>\<open>Bounds.\<close> The walk to the root of an outage takes \<open>MAX_WALK\<close> steps as in the code; the theorems on
  roots assume fewer devices than that, so that the walk ends by itself. The drain pass of the scheduler is a structural
  recursion on a list of clock readings, one for each turn of the loop; the parser of JSON lists has
  the length of its text as fuel. The search for parent cycles
  visits \<open>MAX_CYCLE_HOPS\<close> levels as in the code; every level meets a new reference, so it ends by itself
  when there are fewer references. Everything else is structural.

  \<^bold>\<open>Simplifications.\<close> Time stamps are reals; where the code tests a time stamp for being set by its truth
  value, the model has an option, so a time stamp of exactly 0 is not covered. Texts of details are a datatype of their shapes. Credentials, raw
  protocol data and log lines are left out. The heap of the scheduler is a sorted list.
  Hashes of random tokens and new random ids are arguments.

  \<^bold>\<open>Not modelled.\<close> The network probes and the transports, the SNMP trap receiver, agent scans, backups
  over SSH and VMware are network input and output around libraries; a probe, a scan, a packet
  exchange and a directory answer are arguments. SQL schemas, connection handling, time-series
  queries and reports are text for a database; the model keeps the tables. Directory search and
  synchronisation, SAML and OIDC are clients of third-party packages. Request parsing, query routes, the
  routes on a single sensor, the parsers of import files,
  installers, the desktop window and the browser code have no state of their own.
\<close>

end
